(* ===== verification/Prelude.thy ===== *)
theory Prelude
  imports Complex_Main "HOL-Library.AList" "HOL-Library.Sublist" "HOL-Library.Char_ord"
    "HOL-Library.List_Lexorder"
begin

text \<open>
  What every component of the development shares: the outcome of a Go call (a value, an error
  or a panic), the error values, the association lists that stand for Go maps, the string
  functions of Go's standard library that the source uses, and the collections of simplification
  rules the component proofs are run with.

  A Go function that returns \<open>(T, error)\<close> is modelled with result type \<open>'t res\<close>: \<open>Ok v\<close> is
  \<open>(v, nil)\<close>, \<open>Err e\<close> is a non-nil error and \<open>Panic\<close> a run-time panic (a nil pointer
  dereference). A Go map is an association list with update \<open>AList.update\<close> and lookup
  \<open>map_of\<close>; where the source ranges over a map the list's order is the order the runtime picks.
\<close>

section \<open>Outcomes of Go calls\<close>

datatype go_error =
    Errorf string "string list"            \<comment> \<open>fmt.Errorf(format, args) with no wrapped error\<close>
  | Wrapf string "string list" go_error    \<comment> \<open>fmt.Errorf with \<open>%w\<close>\<close>
  | Typed string go_error                  \<comment> \<open>an error type of the program with an Unwrap method\<close>
  | RecordNotFound                         \<comment> \<open>gorm.ErrRecordNotFound\<close>
  | External string                        \<comment> \<open>an error of code outside the repository\<close>

datatype 'a res = Ok 'a | Err go_error | Panic

fun is_ok :: "'a res \<Rightarrow> bool" where
  "is_ok (Ok _) = True"
| "is_ok _ = False"

fun is_err :: "'a res \<Rightarrow> bool" where
  "is_err (Err _) = True"
| "is_err _ = False"

text \<open>Sequencing: the first error or panic is the result (\<open>if err != nil \<open>{\<close> return \<dots>, err \<open>}\<close>\<close>).\<close>

fun bind_res :: "'a res \<Rightarrow> ('a \<Rightarrow> 'b res) \<Rightarrow> 'b res" where
  "bind_res (Ok v) f = f v"
| "bind_res (Err e) f = Err e"
| "bind_res Panic f = Panic"

text \<open>The same with the error wrapped by the caller.\<close>

fun wrap_err :: "string \<Rightarrow> string list \<Rightarrow> 'a res \<Rightarrow> 'a res" where
  "wrap_err fmt args (Err e) = Err (Wrapf fmt args e)"
| "wrap_err fmt args r = r"

text \<open>\<open>errors.Is(err, gorm.ErrRecordNotFound)\<close> looks through wrapped errors.\<close>

fun is_not_found :: "go_error \<Rightarrow> bool" where
  "is_not_found RecordNotFound = True"
| "is_not_found (Wrapf _ _ e) = is_not_found e"
| "is_not_found (Typed _ e) = is_not_found e"
| "is_not_found _ = False"

text \<open>\<open>errors.As\<close> finds an error of a type through wrapped errors.\<close>

fun is_typed :: "string \<Rightarrow> go_error \<Rightarrow> bool" where
  "is_typed ty (Typed ty' e) \<longleftrightarrow> ty = ty' \<or> is_typed ty e"
| "is_typed ty (Wrapf _ _ e) \<longleftrightarrow> is_typed ty e"
| "is_typed ty _ \<longleftrightarrow> False"

named_theorems res_simps \<open>rules on outcomes\<close>

lemma bind_res_eq_Ok [res_simps]:
  "bind_res r f = Ok v \<longleftrightarrow> (\<exists>u. r = Ok u \<and> f u = Ok v)"
  by (cases r) auto

lemma bind_res_eq_Err [res_simps]:
  "bind_res r f = Err e \<longleftrightarrow> r = Err e \<or> (\<exists>u. r = Ok u \<and> f u = Err e)"
  by (cases r) auto

lemma bind_res_eq_Panic [res_simps]:
  "bind_res r f = Panic \<longleftrightarrow> r = Panic \<or> (\<exists>u. r = Ok u \<and> f u = Panic)"
  by (cases r) auto

lemma bind_res_assoc [res_simps]:
  "bind_res (bind_res r f) g = bind_res r (\<lambda>v. bind_res (f v) g)"
  by (cases r) auto

lemma bind_res_cong [fundef_cong]:
  "r = r' \<Longrightarrow> (\<And>v. r' = Ok v \<Longrightarrow> f v = f' v) \<Longrightarrow> bind_res r f = bind_res r' f'"
  by (cases r') auto

lemma wrap_err_eq_Ok [simp]: "wrap_err fmt args r = Ok v \<longleftrightarrow> r = Ok v"
  by (cases r) auto

lemma wrap_err_eq_Panic [simp]: "wrap_err fmt args r = Panic \<longleftrightarrow> r = Panic"
  by (cases r) auto

lemma is_ok_iff: "is_ok r \<longleftrightarrow> (\<exists>v. r = Ok v)"
  by (cases r) auto

lemma is_err_iff: "is_err r \<longleftrightarrow> (\<exists>e. r = Err e)"
  by (cases r) auto

text \<open>A loop that stops at the first error.\<close>

fun foldM :: "('x \<Rightarrow> 's \<Rightarrow> 's res) \<Rightarrow> 'x list \<Rightarrow> 's \<Rightarrow> 's res" where
  "foldM f [] s = Ok s"
| "foldM f (x # xs) s = bind_res (f x s) (foldM f xs)"

lemma bind_res_Ok [simp]: "bind_res r Ok = r"
  by (cases r) auto

lemma foldM_Nil [simp]: "foldM f [] = Ok"
  by (rule ext) simp

lemma foldM_append: "foldM f (xs @ ys) s = bind_res (foldM f xs s) (foldM f ys)"
proof (induction xs arbitrary: s)
  case Nil
  then show ?case by simp
next
  case (Cons x xs)
  then have "foldM f (xs @ ys) = (\<lambda>s. bind_res (foldM f xs s) (foldM f ys))"
    by blast
  then show ?case by (simp add: res_simps)
qed

section \<open>Go maps as association lists\<close>

type_synonym ('k, 'v) gomap = "('k \<times> 'v) list"

abbreviation map_get :: "('k, 'v) gomap \<Rightarrow> 'k \<Rightarrow> 'v option" where
  "map_get m k \<equiv> map_of m k"

abbreviation map_put :: "'k \<Rightarrow> 'v \<Rightarrow> ('k, 'v) gomap \<Rightarrow> ('k, 'v) gomap" where
  "map_put k v m \<equiv> AList.update k v m"

text \<open>\<open>maps.Copy(dst, src)\<close> and the loops \<open>for k, v := range src \<open>{\<close> dst[k] = v \<open>}\<close>\<close>.\<close>

fun map_copy :: "('k, 'v) gomap \<Rightarrow> ('k, 'v) gomap \<Rightarrow> ('k, 'v) gomap" where
  "map_copy dst [] = dst"
| "map_copy dst ((k, v) # src) = map_copy (map_put k v dst) src"

named_theorems map_simps \<open>lookup after an update\<close>

declare update_conv [map_simps]

lemma map_get_put [map_simps]: "map_get (map_put k v m) k' = (if k' = k then Some v else map_get m k')"
  by (simp add: update_conv)

lemma map_copy_get:
  "distinct (map fst src) \<Longrightarrow>
   map_get (map_copy dst src) k = (case map_get src k of None \<Rightarrow> map_get dst k | Some v \<Rightarrow> Some v)"
proof (induction dst src rule: map_copy.induct)
  case (1 dst)
  then show ?case by simp
next
  case (2 dst k' v src)
  then have "map_get src k' = None"
    by (simp add: map_of_eq_None_iff)
  with 2 show ?case by (auto simp: map_simps split: option.splits)
qed

section \<open>Strings\<close>

text \<open>\<open>strings.Split(s, sep)\<close> for a one-byte separator: never the empty slice.\<close>

fun split_on :: "char \<Rightarrow> string \<Rightarrow> string list" where
  "split_on c [] = [[]]"
| "split_on c (x # xs) =
     (if x = c then [] # split_on c xs
      else (case split_on c xs of [] \<Rightarrow> [[x]] | s # ss \<Rightarrow> (x # s) # ss))"

text \<open>\<open>strings.Join(parts, sep)\<close> for the same separators.\<close>

fun join_with :: "char \<Rightarrow> string list \<Rightarrow> string" where
  "join_with c [] = []"
| "join_with c [s] = s"
| "join_with c (s # t # ss) = s @ c # join_with c (t # ss)"

text \<open>\<open>strings.TrimSpace\<close> on the ASCII white space.\<close>

definition is_space :: "char \<Rightarrow> bool" where
  "is_space c \<longleftrightarrow> c \<in> {CHR '' '', CHR 0x09, CHR 0x0A, CHR 0x0B, CHR 0x0C, CHR 0x0D}"

definition trim_space :: "string \<Rightarrow> string" where
  "trim_space s = rev (dropWhile is_space (rev (dropWhile is_space s)))"

text \<open>\<open>strings.ToUpper\<close> on ASCII letters.\<close>

definition upper_char :: "char \<Rightarrow> char" where
  "upper_char c =
     (if 97 \<le> (of_char c :: nat) \<and> (of_char c :: nat) \<le> 122
      then char_of ((of_char c :: nat) - 32) else c)"

definition to_upper :: "string \<Rightarrow> string" where
  "to_upper s = map upper_char s"

text \<open>\<open>strings.TrimRight(s, "/")\<close>.\<close>

definition trim_right :: "char \<Rightarrow> string \<Rightarrow> string" where
  "trim_right c s = rev (dropWhile (\<lambda>x. x = c) (rev s))"

lemma split_on_nonempty [simp]: "split_on c s \<noteq> []"
  by (induction s) (auto split: list.splits)

lemma join_split: "join_with c (split_on c s) = s"
proof (induction s)
  case Nil
  then show ?case by simp
next
  case (Cons x xs)
  obtain t ts where ts: "split_on c xs = t # ts"
    using split_on_nonempty by (cases "split_on c xs") auto
  with Cons show ?case by (cases ts) auto
qed

lemma split_on_no_sep: "c \<notin> set s \<Longrightarrow> split_on c s = [s]"
  by (induction s) auto

lemma split_on_append: "c \<notin> set s \<Longrightarrow> split_on c (s @ c # t) = s # split_on c t"
  by (induction s) auto

lemma split_join:
  "ss \<noteq> [] \<Longrightarrow> \<forall>s \<in> set ss. c \<notin> set s \<Longrightarrow> split_on c (join_with c ss) = ss"
  by (induction c ss rule: join_with.induct) (auto simp: split_on_no_sep split_on_append)

lemma split_on_parts: "s \<in> set (split_on c t) \<Longrightarrow> c \<notin> set s"
  by (induction t arbitrary: s) (fastforce split: list.splits if_splits)+

section \<open>Lists\<close>

text \<open>Replacing the elements of a list that have a given key, as an UPDATE by primary key does.\<close>

definition update_where :: "('a \<Rightarrow> bool) \<Rightarrow> ('a \<Rightarrow> 'a) \<Rightarrow> 'a list \<Rightarrow> 'a list" where
  "update_where p f xs = map (\<lambda>x. if p x then f x else x) xs"

lemma length_update_where [simp]: "length (update_where p f xs) = length xs"
  by (simp add: update_where_def)

lemma update_where_map_same:
  "(\<And>x. x \<in> set xs \<Longrightarrow> p x \<Longrightarrow> g (f x) = g x) \<Longrightarrow> map g (update_where p f xs) = map g xs"
  by (auto simp: update_where_def)

lemma update_where_none: "(\<And>x. x \<in> set xs \<Longrightarrow> \<not> p x) \<Longrightarrow> update_where p f xs = xs"
  by (induction xs) (auto simp: update_where_def)

lemma find_key_unique:
  "distinct (map g xs) \<Longrightarrow> x \<in> set xs \<Longrightarrow> List.find (\<lambda>y. g y = g x) xs = Some x"
  by (induction xs) (auto simp: image_iff)

lemma find_Some_mem: "List.find p xs = Some x \<Longrightarrow> x \<in> set xs \<and> p x"
  by (induction xs) (auto split: if_splits)

lemma find_None_all: "List.find p xs = None \<longleftrightarrow> (\<forall>x \<in> set xs. \<not> p x)"
  by (induction xs) auto

text \<open>\<open>db.First\<close> with a condition.\<close>

definition db_first :: "('a \<Rightarrow> bool) \<Rightarrow> 'a list \<Rightarrow> 'a res" where
  "db_first p rows = (case List.find p rows of None \<Rightarrow> Err RecordNotFound | Some r \<Rightarrow> Ok r)"


section \<open>Numbers in messages\<close>

text \<open>\<open>%d\<close> of a natural number.\<close>

fun show_nat :: "nat \<Rightarrow> string" where
  "show_nat n = (if n < 10 then [char_of (48 + n)] else show_nat (n div 10) @ [char_of (48 + n mod 10)])"

declare show_nat.simps [simp del]


section \<open>Operations on a state\<close>

text \<open>
  An operation that reads and changes a state (a database, a container) and may fail maps the
  state to an outcome and a new state. \<open>bindS\<close> runs the continuation on a value and hands an
  error or a panic on; \<open>wrapS\<close> wraps the error.
\<close>

type_synonym ('s, 'a) op = "'s \<Rightarrow> 'a res \<times> 's"

definition bindS :: "('s, 'a) op \<Rightarrow> ('a \<Rightarrow> ('s, 'b) op) \<Rightarrow> ('s, 'b) op" where
  "bindS m f s = (case m s of (Ok v, s') \<Rightarrow> f v s' | (Err e, s') \<Rightarrow> (Err e, s') | (Panic, s') \<Rightarrow> (Panic, s'))"

definition returnS :: "'a \<Rightarrow> ('s, 'a) op" where
  "returnS v s = (Ok v, s)"

definition failS :: "go_error \<Rightarrow> ('s, 'a) op" where
  "failS e s = (Err e, s)"

definition liftS :: "'a res \<Rightarrow> ('s, 'a) op" where
  "liftS r s = (r, s)"

definition wrapS :: "string \<Rightarrow> string list \<Rightarrow> ('s, 'a) op \<Rightarrow> ('s, 'a) op" where
  "wrapS fmt args m s = (case m s of (r, s') \<Rightarrow> (wrap_err fmt args r, s'))"

text \<open>Running an operation whose error the caller handles.\<close>

definition attemptS :: "('s, 'a) op \<Rightarrow> ('s, 'a res) op" where
  "attemptS m s = (case m s of (Ok v, s') \<Rightarrow> (Ok (Ok v), s') | (Err e, s') \<Rightarrow> (Ok (Err e), s') | (Panic, s') \<Rightarrow> (Panic, s'))"

fun mapM_S :: "('x \<Rightarrow> ('s, unit) op) \<Rightarrow> 'x list \<Rightarrow> ('s, unit) op" where
  "mapM_S f [] = returnS ()"
| "mapM_S f (x # xs) = bindS (f x) (\<lambda>_. mapM_S f xs)"

named_theorems op_simps \<open>results of operations\<close>

lemma bindS_Ok_iff [op_simps]:
  "bindS m f s = (Ok v, t) \<longleftrightarrow> (\<exists>u s'. m s = (Ok u, s') \<and> f u s' = (Ok v, t))"
  by (auto simp: bindS_def split: prod.splits res.splits)

lemma wrapS_Ok_iff [op_simps]: "wrapS fmt args m s = (Ok v, t) \<longleftrightarrow> m s = (Ok v, t)"
  by (auto simp: wrapS_def split: prod.splits)

lemma returnS_iff [op_simps]: "returnS v s = (r, t) \<longleftrightarrow> r = Ok v \<and> t = s"
  by (auto simp: returnS_def)

lemma failS_iff [op_simps]: "failS e s = (r, t) \<longleftrightarrow> r = Err e \<and> t = s"
  by (auto simp: failS_def)

lemma liftS_iff [op_simps]: "liftS r s = (r', t) \<longleftrightarrow> r = r' \<and> t = s"
  by (auto simp: liftS_def)

lemma bindS_returnS [simp]: "bindS (returnS v) f = f v"
  by (auto simp: bindS_def returnS_def)

lemma bindS_failS [simp]: "bindS (failS e) f = failS e"
  by (auto simp: bindS_def failS_def)

lemma bindS_iff:
  "bindS m f s = (r, t) \<longleftrightarrow> (\<exists>v s'. m s = (Ok v, s') \<and> f v s' = (r, t)) \<or> (\<exists>e. m s = (Err e, t) \<and> r = Err e)
     \<or> (m s = (Panic, t) \<and> r = Panic)"
  by (auto simp: bindS_def split: prod.splits res.splits)

lemma wrapS_iff: "wrapS fmt args m s = (r, t) \<longleftrightarrow> (\<exists>r0. m s = (r0, t) \<and> r = wrap_err fmt args r0)"
  by (auto simp: wrapS_def split: prod.splits)

lemma bindS_OkE:
  assumes "bindS m f s = (Ok x, t)"
  obtains u s' where "m s = (Ok u, s')" and "f u s' = (Ok x, t)"
  using assms by (auto simp: op_simps)

section \<open>Triples\<close>

text \<open>From a state in P, the operation ends in Q on a value and in E otherwise.\<close>

definition triple :: "('s \<Rightarrow> bool) \<Rightarrow> ('s, 'a) op \<Rightarrow> ('a \<Rightarrow> 's \<Rightarrow> bool) \<Rightarrow> ('s \<Rightarrow> bool) \<Rightarrow> bool" where
  "triple P m Q E \<longleftrightarrow> (\<forall>s r s'. P s \<longrightarrow> m s = (r, s') \<longrightarrow> (case r of Ok v \<Rightarrow> Q v s' | Err e \<Rightarrow> E s' | Panic \<Rightarrow> E s'))"

named_theorems triples \<open>rules for triples\<close>

lemma tripleI: "(\<And>s r s'. P s \<Longrightarrow> m s = (r, s') \<Longrightarrow> (\<forall>v. r = Ok v \<longrightarrow> Q v s') \<and> (\<not> is_ok r \<longrightarrow> E s')) \<Longrightarrow> triple P m Q E"
  unfolding triple_def by (fastforce split: res.splits)

lemma triple_bindS [triples]: "triple P m R E \<Longrightarrow> (\<And>v. triple (R v) (f v) Q E) \<Longrightarrow> triple P (bindS m f) Q E"
proof -
  assume m: "triple P m R E" and f: "\<And>v. triple (R v) (f v) Q E"
  show ?thesis
    unfolding triple_def
  proof (intro allI impI)
    fix s r s'
    assume P: "P s" and run: "bindS m f s = (r, s')"
    obtain r1 s1 where m1: "m s = (r1, s1)" by (cases "m s")
    have p1: "case r1 of Ok v \<Rightarrow> R v s1 | Err e \<Rightarrow> E s1 | Panic \<Rightarrow> E s1" using m P m1 unfolding triple_def by blast
    show "case r of Ok v \<Rightarrow> Q v s' | Err e \<Rightarrow> E s' | Panic \<Rightarrow> E s'"
    proof (cases r1)
      case (Ok v)
      then have "R v s1" "f v s1 = (r, s')" using p1 run m1 by (simp_all add: bindS_def)
      then show ?thesis using f unfolding triple_def by blast
    qed (use p1 run m1 in \<open>auto simp: bindS_def\<close>)
  qed
qed

lemma triple_wrapS [triples]: "triple P m Q E \<Longrightarrow> triple P (wrapS fmt args m) Q E"
proof (rule tripleI)
  fix s r s'
  assume m: "triple P m Q E" and P: "P s" and run: "wrapS fmt args m s = (r, s')"
  obtain r1 s1 where m1: "m s = (r1, s1)" by (cases "m s")
  have "case r1 of Ok v \<Rightarrow> Q v s1 | Err e \<Rightarrow> E s1 | Panic \<Rightarrow> E s1" using m P m1 unfolding triple_def by blast
  then show "(\<forall>v. r = Ok v \<longrightarrow> Q v s') \<and> (\<not> is_ok r \<longrightarrow> E s')"
    using run m1 by (cases r1) (auto simp: wrapS_def)
qed

lemma triple_returnS: "(\<And>s. P s \<Longrightarrow> Q v s) \<Longrightarrow> triple P (returnS v) Q E"
  by (simp add: triple_def returnS_def)

lemma triple_failS: "(\<And>s. P s \<Longrightarrow> E s) \<Longrightarrow> triple P (failS e) Q E"
  by (simp add: triple_def failS_def)

lemma triple_liftS: "(\<And>s v. P s \<Longrightarrow> r = Ok v \<Longrightarrow> Q v s) \<Longrightarrow> (\<And>s. P s \<Longrightarrow> E s) \<Longrightarrow> triple P (liftS r) Q E"
  by (cases r) (simp_all add: triple_def liftS_def)

lemma triple_option [triples]:
  "(ov = None \<Longrightarrow> triple P m Q E) \<Longrightarrow> (\<And>v. ov = Some v \<Longrightarrow> triple P (f v) Q E) \<Longrightarrow>
   triple P (case ov of None \<Rightarrow> m | Some v \<Rightarrow> f v) Q E"
  by (cases ov) simp_all

lemma triple_conseq: "triple P' m Q' E' \<Longrightarrow> (\<And>s. P s \<Longrightarrow> P' s) \<Longrightarrow> (\<And>v s. Q' v s \<Longrightarrow> Q v s) \<Longrightarrow> (\<And>s. E' s \<Longrightarrow> E s) \<Longrightarrow> triple P m Q E"
  unfolding triple_def by (fastforce split: res.splits)

lemma tripleD: "triple P m Q E \<Longrightarrow> P s \<Longrightarrow> m s = (r, s') \<Longrightarrow> (\<forall>v. r = Ok v \<longrightarrow> Q v s') \<and> (\<not> is_ok r \<longrightarrow> E s')"
  unfolding triple_def by (fastforce split: res.splits)


text \<open>An operation that keeps a predicate whatever its outcome.\<close>

definition keeps :: "('s \<Rightarrow> bool) \<Rightarrow> ('s, 'a) op \<Rightarrow> bool" where
  "keeps I m \<longleftrightarrow> (\<forall>s r s'. I s \<longrightarrow> m s = (r, s') \<longrightarrow> I s')"

named_theorems keep \<open>operations that keep a predicate\<close>

lemma keepsD: "keeps I m \<Longrightarrow> I s \<Longrightarrow> m s = (r, s') \<Longrightarrow> I s'"
  by (simp add: keeps_def)

lemma keeps_triple: "keeps I m \<longleftrightarrow> triple I m (\<lambda>_. I) I"
proof -
  have "(case r of Ok v \<Rightarrow> I s' | Err e \<Rightarrow> I s' | Panic \<Rightarrow> I s') = I s'" for r :: "'b res" and s'
    by (cases r) simp_all
  then show ?thesis by (simp only: keeps_def triple_def)
qed

lemma keeps_returnS [keep]: "keeps I (returnS v)"
  by (simp add: keeps_def returnS_def)

lemma keeps_failS [keep]: "keeps I (failS e)"
  by (simp add: keeps_def failS_def)

lemma keeps_liftS [keep]: "keeps I (liftS r)"
  by (simp add: keeps_def liftS_def)

lemma keeps_bindS [keep]: "keeps I m \<Longrightarrow> (\<And>v. keeps I (f v)) \<Longrightarrow> keeps I (bindS m f)"
  unfolding keeps_triple by (rule triple_bindS)

lemma keeps_wrapS [keep]: "keeps I m \<Longrightarrow> keeps I (wrapS fmt args m)"
  unfolding keeps_triple by (rule triple_wrapS)

lemma keeps_attemptS [keep]: "keeps I m \<Longrightarrow> keeps I (attemptS m)"
  by (auto simp: keeps_def attemptS_def split: prod.splits res.splits)

lemma keeps_mapM_S [keep]: "(\<And>x. keeps I (f x)) \<Longrightarrow> keeps I (mapM_S f xs)"
  by (induction xs) (simp_all add: keeps_returnS keeps_bindS)

lemma keeps_if [keep]: "(b \<Longrightarrow> keeps I m) \<Longrightarrow> (\<not> b \<Longrightarrow> keeps I m') \<Longrightarrow> keeps I (if b then m else m')"
  by simp

lemma keeps_option [keep]:
  "(ov = None \<Longrightarrow> keeps I m) \<Longrightarrow> (\<And>v. ov = Some v \<Longrightarrow> keeps I (f v)) \<Longrightarrow>
   keeps I (case ov of None \<Rightarrow> m | Some v \<Rightarrow> f v)"
  by (cases ov) simp_all

lemma keeps_prod [keep]: "(\<And>a b. keeps I (f a b)) \<Longrightarrow> keeps I (case p of (a, b) \<Rightarrow> f a b)"
  by (cases p) simp

end
