(* ===== verification/Json.thy ===== *)
theory Json
  imports Prelude
begin

text \<open>
  JSON values and the two utility packages that walk them: \<open>backend/pkg/jsonform\<close>
  (dot paths into form data, traversal of a JSON schema) and \<open>backend/pkg/jsonutils\<close>
  (template resolution), with the merge of form data of the SimpleForm plugin that uses them.
  A Go \<open>any\<close> that holds decoded JSON is an \<open>any\<close>; a \<open>map[string]any\<close> is the association
  list inside \<open>JObj\<close>. Aliasing of nested Go maps is not modelled here: a nested map is a value.
\<close>

section \<open>Values\<close>

datatype any =
    JNull
  | JBool bool
  | JNum rat                        \<comment> \<open>a float64, by the number it denotes\<close>
  | JStr string
  | JArr "any list"
  | JObj "(string \<times> any) list"

type_synonym obj = "(string, any) gomap"

text \<open>\<open>v.(string)\<close> and \<open>v.(map[string]any)\<close> with the comma-ok form.\<close>

fun as_str :: "any \<Rightarrow> string option" where
  "as_str (JStr s) = Some s"
| "as_str _ = None"

fun as_obj :: "any \<Rightarrow> obj option" where
  "as_obj (JObj m) = Some m"
| "as_obj _ = None"

section \<open>jsonform: value.go\<close>

text \<open>
  The regular expression \<open>^([a-zA-Z0-9_-]+)\[(\d+)]$\<close>: the name cannot hold an opening bracket,
  so the first one splits the segment.
\<close>

definition name_char :: "char \<Rightarrow> bool" where
  "name_char c \<longleftrightarrow>
     (let n = (of_char c :: nat) in
      (97 \<le> n \<and> n \<le> 122) \<or> (65 \<le> n \<and> n \<le> 90) \<or> (48 \<le> n \<and> n \<le> 57) \<or> n = 95 \<or> n = 45)"

definition digit_char :: "char \<Rightarrow> bool" where
  "digit_char c \<longleftrightarrow> (let n = (of_char c :: nat) in 48 \<le> n \<and> n \<le> 57)"

definition arrayRegex :: "string \<Rightarrow> (string \<times> string) option" where
  "arrayRegex seg =
     (let name = takeWhile (\<lambda>c. c \<noteq> CHR ''['') seg;
          rest = drop (Suc (length name)) seg;
          digits = butlast rest
      in if name \<noteq> [] \<and> (\<forall>c \<in> set name. name_char c) \<and> CHR ''['' \<in> set seg
            \<and> rest \<noteq> [] \<and> last rest = CHR '']''
            \<and> digits \<noteq> [] \<and> (\<forall>c \<in> set digits. digit_char c)
         then Some (name, digits) else None)"

text \<open>\<open>strconv.Atoi\<close> on a string of digits: out of range of a 64-bit int is an error.\<close>

fun digits_value :: "nat \<Rightarrow> string \<Rightarrow> nat" where
  "digits_value acc [] = acc"
| "digits_value acc (c # cs) = digits_value (10 * acc + ((of_char c :: nat) - 48)) cs"

definition atoi_digits :: "string \<Rightarrow> nat option" where
  "atoi_digits s = (let n = digits_value 0 s in if n < 2 ^ 63 then Some n else None)"

text \<open>One iteration of the loop over the path's segments.\<close>

definition get_segment :: "string \<Rightarrow> any \<Rightarrow> any option" where
  "get_segment segment current =
     (case current of
        JObj typed \<Rightarrow>
          (case arrayRegex segment of
             Some (field, indexStr) \<Rightarrow>
               (case map_get typed field of
                  None \<Rightarrow> None
                | Some val \<Rightarrow>
                    (case val of
                       JArr arr \<Rightarrow>
                         (case atoi_digits indexStr of
                            None \<Rightarrow> None
                          | Some index \<Rightarrow> if index \<ge> length arr then None else Some (arr ! index))
                     | _ \<Rightarrow> None))
           | None \<Rightarrow> map_get typed segment)
      | _ \<Rightarrow> None)"

fun get_segments :: "string list \<Rightarrow> any \<Rightarrow> any option" where
  "get_segments [] current = Some current"
| "get_segments (s # ss) current =
     (case get_segment s current of None \<Rightarrow> None | Some v \<Rightarrow> get_segments ss v)"

definition GetValueByPath :: "obj \<Rightarrow> string \<Rightarrow> any option" where
  "GetValueByPath formData path =
     (if path = [] then Some (JObj formData)
      else get_segments (split_on CHR ''.'' path) (JObj formData))"

fun set_segments :: "string list \<Rightarrow> any \<Rightarrow> obj \<Rightarrow> obj" where
  "set_segments [] value current = current"
| "set_segments [s] value current = map_put s value current"
| "set_segments (s # t # ss) value current =
     (let current' = (case map_get current s of
                        None \<Rightarrow> map_put s (JObj []) current
                      | Some _ \<Rightarrow> current)
      in case map_get current' s of
           Some (JObj nested) \<Rightarrow> map_put s (JObj (set_segments (t # ss) value nested)) current'
         | _ \<Rightarrow> current')"

definition SetValueByPath :: "obj \<Rightarrow> string \<Rightarrow> any \<Rightarrow> obj" where
  "SetValueByPath formData path value =
     (if path = [] then formData else set_segments (split_on CHR ''.'' path) value formData)"

section \<open>jsonform: schema.go and traverse.go\<close>

record GlobalContext =
  ReadFrom :: "string option"
  WriteTo :: "string option"

datatype JSONSchema =
  JSONSchema (sType: string) (sProperties: "(string \<times> JSONSchema) list") (sItems: "JSONSchema option")
    (sRequired: "string list") (sMinimum: "rat option") (sMinLength: "int option")
    (sXGlobalContext: "GlobalContext option")

text \<open>
  \<open>traverseRecursive\<close> calls the visitor on the node, then on its children. The visitor is a
  closure that may change captured variables, so it maps a state to an outcome.
\<close>

type_synonym 's visitor = "string \<Rightarrow> JSONSchema \<Rightarrow> JSONSchema option \<Rightarrow> 's \<Rightarrow> 's res"

definition child_path :: "string \<Rightarrow> string \<Rightarrow> string" where
  "child_path path key = (if path = [] then key else path @ ''.'' @ key)"

lemma size_sProperties: "size_list (size_prod (\<lambda>_. 0) size) (sProperties node) < size node"
  by (cases node) simp

lemma size_sItems: "sItems node = Some items \<Longrightarrow> size items < size node"
  by (cases node) simp

function traverseRecursive ::
    "JSONSchema \<Rightarrow> string \<Rightarrow> JSONSchema option \<Rightarrow> 's visitor \<Rightarrow> 's \<Rightarrow> 's res"
  and traverseProperties ::
    "(string \<times> JSONSchema) list \<Rightarrow> string \<Rightarrow> JSONSchema \<Rightarrow> 's visitor \<Rightarrow> 's \<Rightarrow> 's res" where
  "traverseRecursive node path parent visit s =
     bind_res (visit path node parent s) (\<lambda>s1.
     bind_res (if sType node = ''object'' then traverseProperties (sProperties node) path node visit s1
               else Ok s1) (\<lambda>s2.
     (case sItems node of
        Some items \<Rightarrow>
          if sType node = ''array'' then traverseRecursive items (path @ ''[]'') (Some node) visit s2
          else Ok s2
      | None \<Rightarrow> Ok s2)))"
| "traverseProperties [] path node visit s = Ok s"
| "traverseProperties ((key, child) # rest) path node visit s =
     bind_res (traverseRecursive child (child_path path key) (Some node) visit s)
       (\<lambda>s'. traverseProperties rest path node visit s')"
  by pat_completeness auto

termination
  by (relation "measure (\<lambda>x. case x of
        Inl (node, _) \<Rightarrow> size node
      | Inr (props, _) \<Rightarrow> size_list (size_prod (\<lambda>_. 0) size) props)")
    (auto simp: size_sProperties size_sItems)

declare traverseRecursive.simps [simp del]

definition Traverse :: "JSONSchema \<Rightarrow> 's visitor \<Rightarrow> 's \<Rightarrow> 's res" where
  "Traverse schema visit s = traverseRecursive schema [] None visit s"

section \<open>jsonutils: resolver.go\<close>

lemma size_obj_member: "(k, v) \<in> set m \<Longrightarrow> size v < Suc (size_list (size_prod (\<lambda>_. 0) size) m)"
  by (induction m) auto

lemma size_arr_member: "v \<in> set xs \<Longrightarrow> size v < Suc (size_list size xs)"
  by (induction xs) auto

function ResolveTemplate :: "any \<Rightarrow> (string \<Rightarrow> any) \<Rightarrow> any" where
  "ResolveTemplate (JObj m) lookup = JObj (map (\<lambda>(k, v). (k, ResolveTemplate v lookup)) m)"
| "ResolveTemplate (JArr xs) lookup = JArr (map (\<lambda>v. ResolveTemplate v lookup) xs)"
| "ResolveTemplate (JStr s) lookup = (let r = lookup s in if r \<noteq> JNull then r else JStr s)"
| "ResolveTemplate JNull lookup = JNull"
| "ResolveTemplate (JBool b) lookup = JBool b"
| "ResolveTemplate (JNum n) lookup = JNum n"
  by pat_completeness auto

termination
  by (relation "measure (\<lambda>(t, _). size t)") (auto simp: size_obj_member size_arr_member)

section \<open>SimpleForm.mergeFormData\<close>

text \<open>The loop over \<open>existing\<close>: a key whose two values are maps is merged, otherwise existing wins.\<close>

function mergeFormData :: "obj \<Rightarrow> obj \<Rightarrow> obj" where
  "mergeFormData result [] = result"
| "mergeFormData result ((k, v) # existing) =
     mergeFormData
       (map_put k
          (case v of
             JObj existingMap \<Rightarrow>
               (case map_get result k of
                  Some (JObj prepopMap) \<Rightarrow> JObj (mergeFormData prepopMap existingMap)
                | _ \<Rightarrow> v)
           | _ \<Rightarrow> v) result)
       existing"
  by pat_completeness auto
termination
  by (relation "measure (\<lambda>(_, e). size_list (size_prod (\<lambda>_. 0) size) e)") auto

section \<open>Path lookup and update\<close>

definition plain_seg :: "string \<Rightarrow> bool" where
  "plain_seg s \<longleftrightarrow> arrayRegex s = None"

fun settable :: "string list \<Rightarrow> obj \<Rightarrow> bool" where
  "settable [] m = True"
| "settable [s] m = True"
| "settable (s # t # ss) m =
     (case map_get m s of
        None \<Rightarrow> True
      | Some (JObj nested) \<Rightarrow> settable (t # ss) nested
      | _ \<Rightarrow> False)"

lemma get_segment_plain [simp]:
  "plain_seg s \<Longrightarrow> get_segment s (JObj m) = map_get m s"
  by (simp add: get_segment_def plain_seg_def)

lemma settable_empty [simp]: "settable ss []"
  by (induction ss rule: induct_list012) auto

lemma get_set_segments:
  "ss \<noteq> [] \<Longrightarrow> \<forall>s \<in> set ss. plain_seg s \<Longrightarrow> settable ss m \<Longrightarrow>
   get_segments ss (JObj (set_segments ss v m)) = Some v"
proof (induction ss v m rule: set_segments.induct)
  case (1 v m)
  then show ?case by simp
next
  case (2 s v m)
  then show ?case by (simp add: map_simps)
next
  case (3 s t ss v m)
  then show ?case
    by (cases "map_get m s") (auto simp: map_simps Let_def split: any.splits)
qed

text \<open>A path whose next step away from the updated path differs reads what it read before.\<close>

lemma get_set_other:
  "\<forall>s \<in> set (us @ [x, y] @ xs @ ys). plain_seg s \<Longrightarrow> x \<noteq> y \<Longrightarrow>
   get_segments (us @ y # ys) (JObj m) = Some w \<Longrightarrow>
   get_segments (us @ y # ys) (JObj (set_segments (us @ x # xs) v m)) = Some w"
proof (induction us arbitrary: m)
  case Nil
  then show ?case
    by (cases xs; cases "map_get m x")
      (auto simp: map_simps Let_def split: any.splits option.splits)
next
  case (Cons u us)
  obtain s ss where ss: "us @ x # xs = s # ss"
    by (cases us) auto
  from Cons.prems obtain nested where n: "map_get m u = Some nested"
    and r: "get_segments (us @ y # ys) nested = Some w"
    by (auto split: option.splits)
  obtain m' where m': "nested = JObj m'"
    using r by (cases us; cases nested) (auto simp: get_segment_def)
  with r Cons have "get_segments (us @ y # ys) (JObj (set_segments (us @ x # xs) v m')) = Some w"
    by auto
  with Cons.prems n m' ss show ?case
    by (auto simp: map_simps Let_def)
qed

section \<open>Array segments\<close>

lemma takeWhile_bracket:
  "takeWhile (\<lambda>c. c \<noteq> b) (x @ b # y) = takeWhile (\<lambda>c. c \<noteq> b) x"
  by (induction x) auto

lemma arrayRegex_brackets: "arrayRegex (x @ ''[]'') = None"
proof (cases "CHR ''['' \<in> set x")
  case True
  then obtain a b where x: "x = a @ CHR ''['' # b" and a: "CHR ''['' \<notin> set a"
    by (meson split_list_first)
  from a have "\<forall>c \<in> set a. c \<noteq> CHR ''[''" by blast
  then have "takeWhile (\<lambda>c. c \<noteq> CHR ''['') a = a" by simp
  then have tw: "takeWhile (\<lambda>c. c \<noteq> CHR ''['') (x @ ''[]'') = a"
    by (simp only: x append_assoc append_Cons takeWhile_bracket)
  have dr: "drop (Suc (length a)) (x @ ''[]'') = b @ ''[]''"
    by (simp add: x)
  have "butlast (b @ ''[]'') = b @ ''[''"
    by (simp add: butlast_append)
  moreover have "\<not> digit_char (CHR ''['')" by (simp add: digit_char_def)
  ultimately show ?thesis
    unfolding arrayRegex_def Let_def tw dr by simp
next
  case False
  then have "\<forall>c \<in> set x. c \<noteq> CHR ''[''" by blast
  then have "takeWhile (\<lambda>c. c \<noteq> CHR ''['') x = x" by simp
  then have "takeWhile (\<lambda>c. c \<noteq> CHR ''['') (x @ ''[]'') = x"
    by (simp only: takeWhile_bracket)
  then show ?thesis by (simp add: arrayRegex_def)
qed

lemma arrayRegex_index:
  assumes "name \<noteq> []" and "\<forall>c \<in> set name. name_char c"
    and "digits \<noteq> []" and "\<forall>c \<in> set digits. digit_char c"
  shows "arrayRegex (name @ ''['' @ digits @ '']'') = Some (name, digits)"
proof -
  have "\<not> name_char (CHR ''['')" by (simp add: name_char_def)
  with assms(2) have "\<forall>c \<in> set name. c \<noteq> CHR ''[''" by blast
  then have "takeWhile (\<lambda>c. c \<noteq> CHR ''['') (name @ ''['' @ digits @ '']'') = name"
    by (simp add: takeWhile_append2)
  with assms show ?thesis by (simp add: arrayRegex_def Let_def)
qed

section \<open>Traversal as a fold over the nodes in preorder\<close>

lemma size_property: "(k, c) \<in> set ps \<Longrightarrow> size c \<le> size_list (size_prod (\<lambda>_. 0) size) ps"
  by (induction ps) auto

function schema_nodes ::
    "JSONSchema \<Rightarrow> string \<Rightarrow> JSONSchema option \<Rightarrow> (string \<times> JSONSchema \<times> JSONSchema option) list" where
  "schema_nodes node path parent =
     (path, node, parent) #
     (if sType node = ''object''
      then concat (map (\<lambda>(key, child). schema_nodes child (child_path path key) (Some node)) (sProperties node))
      else []) @
     (case sItems node of
        Some items \<Rightarrow> if sType node = ''array'' then schema_nodes items (path @ ''[]'') (Some node) else []
      | None \<Rightarrow> [])"
  by pat_completeness auto

termination
  by (relation "measure (\<lambda>(n, _). size n)")
    (auto simp: size_sItems intro: le_less_trans [OF size_property size_sProperties])

declare schema_nodes.simps [simp del]

lemma traverse_eq_foldM:
  "traverseRecursive node path parent visit s =
     foldM (\<lambda>(p, n, q). visit p n q) (schema_nodes node path parent) s"
  "traverseProperties ps path node visit s =
     foldM (\<lambda>(p, n, q). visit p n q)
       (concat (map (\<lambda>(key, child). schema_nodes child (child_path path key) (Some node)) ps)) s"
proof (induction node path parent visit s and ps path node visit s
    rule: traverseRecursive_traverseProperties.induct)
  case (1 node path parent visit s)
  show ?case
    by (subst traverseRecursive.simps, subst schema_nodes.simps)
      (auto simp: foldM_append 1 res_simps split: option.splits intro!: bind_res_cong)
next
  case (2 path node visit s)
  then show ?case by simp
next
  case (3 key child rest path node visit s)
  then show ?case
    by (auto simp: foldM_append intro!: bind_res_cong)
qed

section \<open>Templates\<close>

lemma ResolveTemplate_id:
  "ResolveTemplate t (\<lambda>_. JNull) = t"
proof (induction t "\<lambda>_::string. JNull" rule: ResolveTemplate.induct)
  case (1 m)
  then have "map (\<lambda>(k, v). (k, ResolveTemplate v (\<lambda>_. JNull))) m = m"
    by (intro map_idI) auto
  then show ?case by simp
next
  case (2 xs)
  then show ?case by (simp add: map_idI)
qed (auto simp: Let_def)

section \<open>Merging form data\<close>

function distinct_keys :: "any \<Rightarrow> bool" where
  "distinct_keys (JObj m) \<longleftrightarrow> distinct (map fst m) \<and> list_all (\<lambda>(k, v). distinct_keys v) m"
| "distinct_keys (JArr xs) \<longleftrightarrow> list_all distinct_keys xs"
| "distinct_keys (JStr s) \<longleftrightarrow> True"
| "distinct_keys JNull \<longleftrightarrow> True"
| "distinct_keys (JBool b) \<longleftrightarrow> True"
| "distinct_keys (JNum n) \<longleftrightarrow> True"
  by pat_completeness auto
termination
  by (relation "measure size") (auto simp: size_obj_member size_arr_member)

text \<open>What one key of the merged map holds.\<close>

fun merged :: "any option \<Rightarrow> any option \<Rightarrow> any option" where
  "merged p None = p"
| "merged (Some (JObj a)) (Some (JObj b)) = Some (JObj (mergeFormData a b))"
| "merged p (Some v) = Some v"

lemma mergeFormData_get:
  "distinct (map fst e) \<Longrightarrow> map_get (mergeFormData p e) k = merged (map_get p k) (map_get e k)"
proof (induction e arbitrary: p)
  case Nil
  then show ?case by simp
next
  case (Cons kv e)
  obtain k' v where kv: "kv = (k', v)" by (cases kv)
  from Cons.prems kv have "map_get e k' = None"
    by (simp add: map_of_eq_None_iff)
  with Cons kv show ?case
    by (cases v; cases "map_get p k'") (auto simp: map_simps split: any.splits)
qed

lemma distinct_keys_get: "distinct_keys (JObj m) \<Longrightarrow> map_get m k = Some v \<Longrightarrow> distinct_keys v"
  by (auto simp: list_all_iff dest!: map_of_SomeD)

lemma get_segments_not_obj: "as_obj v = None \<Longrightarrow> get_segments (s # ss) v = None"
  by (cases v) (auto simp: get_segment_def)

lemma as_obj_Some [simp]: "as_obj v = Some m \<longleftrightarrow> v = JObj m"
  by (cases v) auto

lemma merge_existing_wins:
  "ss \<noteq> [] \<Longrightarrow> \<forall>s \<in> set ss. plain_seg s \<Longrightarrow> distinct_keys (JObj e) \<Longrightarrow>
   get_segments ss (JObj e) = Some v \<Longrightarrow> as_obj v = None \<Longrightarrow>
   get_segments ss (JObj (mergeFormData p e)) = Some v"
proof (induction ss arbitrary: p e)
  case Nil
  then show ?case by simp
next
  case (Cons s ss)
  then obtain w where w: "map_get e s = Some w" and r: "get_segments ss w = Some v"
    by (auto split: option.splits)
  have m: "map_get (mergeFormData p e) s = merged (map_get p s) (Some w)"
    using Cons.prems(3) w by (simp add: mergeFormData_get)
  show ?case
  proof (cases ss)
    case Nil
    with r Cons.prems(5) have "as_obj w = None" "w = v" by auto
    then have "merged (map_get p s) (Some w) = Some v" by (cases w) auto
    with m Cons.prems(2) Nil show ?thesis by simp
  next
    case (Cons t ts)
    then obtain e' where e': "w = JObj e'"
      using r get_segments_not_obj [of w t ts] by (cases "as_obj w") auto
    have d: "distinct_keys (JObj e')"
      using Cons.prems(3) distinct_keys_get w e' by blast
    have IH: "get_segments ss (JObj (mergeFormData q e')) = Some v" for q
      using Cons.IH [of e' q] Cons.prems d r e' \<open>ss = t # ts\<close> by simp
    have base: "get_segments ss (JObj e') = Some v" using r e' by simp
    show ?thesis
      using m e' IH base Cons.prems(2)
      by (cases "map_get p s" rule: option.exhaust; cases "the (map_get p s)") auto
  qed
qed

text \<open>\<open>e\<close> holds no value that hides the path \<open>ss\<close>.\<close>

fun untouched :: "string list \<Rightarrow> obj \<Rightarrow> bool" where
  "untouched [] e = False"
| "untouched [s] e = (map_get e s = None)"
| "untouched (s # t # ss) e =
     (case map_get e s of None \<Rightarrow> True | Some (JObj m) \<Rightarrow> untouched (t # ss) m | _ \<Rightarrow> False)"

lemma merge_keeps_prepopulated:
  "\<forall>s \<in> set ss. plain_seg s \<Longrightarrow> distinct_keys (JObj e) \<Longrightarrow> untouched ss e \<Longrightarrow>
   get_segments ss (JObj p) = Some v \<Longrightarrow>
   get_segments ss (JObj (mergeFormData p e)) = Some v"
proof (induction ss e arbitrary: p rule: untouched.induct)
  case (1 e)
  then show ?case by simp
next
  case (2 s e)
  then show ?case by (simp add: mergeFormData_get)
next
  case (3 s t ss e)
  then obtain w where w: "map_get p s = Some w" and r: "get_segments (t # ss) w = Some v"
    by (auto split: option.splits)
  then obtain p' where p': "w = JObj p'"
    using get_segments_not_obj [of w t ss] by (cases "as_obj w") auto
  have m: "map_get (mergeFormData p e) s = merged (Some (JObj p')) (map_get e s)"
    using 3 w p' by (simp add: mergeFormData_get)
  show ?case
  proof (cases "map_get e s")
    case None
    with m r p' "3.prems"(1) show ?thesis by simp
  next
    case (Some x)
    with "3.prems"(3) obtain e' where e': "x = JObj e'" by (cases x) auto
    then have "distinct_keys (JObj e')"
      using "3.prems"(2) Some distinct_keys_get by blast
    then have "get_segments (t # ss) (JObj (mergeFormData p' e')) = Some v"
      using "3.IH" [of "JObj e'" e' p'] "3.prems" Some e' r p' by simp
    with m Some e' "3.prems"(1) show ?thesis by simp
  qed
qed

section \<open>Properties\<close>

text \<open>
  reading a dot path just written gives the written value: for a non-empty path whose
  segments have no array index and that meets no non-object on its way,
  \<open>GetValueByPath\<close> after \<open>SetValueByPath\<close> returns the value.
\<close>

theorem get_after_set:
  assumes "path \<noteq> []" and "\<forall>s \<in> set (split_on CHR ''.'' path). plain_seg s"
    and "settable (split_on CHR ''.'' path) formData"
  shows "GetValueByPath (SetValueByPath formData path v) path = Some v"
  using assms by (simp add: GetValueByPath_def SetValueByPath_def get_set_segments)

theorem get_after_set_witness:
  "GetValueByPath (SetValueByPath [(''a'', JObj [(''c'', JNull)])] ''a.b.d'' (JNum 7)) ''a.b.d''
     = Some (JNum 7)"
  by (rule get_after_set) (simp_all add: plain_seg_def arrayRegex_def)

text \<open>
  \<open>Traverse\<close> runs the visitor over the nodes of the schema in preorder, each with its dot
  path (array items under \<open>path[]\<close>) and its parent, and stops at the first error: it equals a fold
  over the list of nodes.
\<close>

theorem traverse_preorder:
  "Traverse schema visit s = foldM (\<lambda>(path, node, parent). visit path node parent)
     (schema_nodes schema [] None) s"
  by (simp add: Traverse_def traverse_eq_foldM)

text \<open>
  \<open>mergeFormData\<close> gives existing form data priority at every path and loses nothing that was
  prepopulated at a path the existing data leaves free.
\<close>

theorem merge_form_data_paths:
  assumes "ss \<noteq> []" and "\<forall>s \<in> set ss. plain_seg s" and "distinct_keys (JObj existing)"
  shows "(get_segments ss (JObj existing) = Some v \<and> as_obj v = None \<longrightarrow>
            get_segments ss (JObj (mergeFormData prepopulated existing)) = Some v) \<and>
         (untouched ss existing \<and> get_segments ss (JObj prepopulated) = Some v \<longrightarrow>
            get_segments ss (JObj (mergeFormData prepopulated existing)) = Some v)"
  using assms merge_existing_wins merge_keeps_prepopulated by blast

theorem merge_form_data_paths_witness:
  "get_segments [''a'', ''b''] (JObj (mergeFormData [(''a'', JObj [(''b'', JNum 1), (''c'', JNum 2)])]
       [(''a'', JObj [(''b'', JNum 3)])])) = Some (JNum 3) \<and>
   get_segments [''a'', ''c''] (JObj (mergeFormData [(''a'', JObj [(''b'', JNum 1), (''c'', JNum 2)])]
       [(''a'', JObj [(''b'', JNum 3)])])) = Some (JNum 2)"
proof -
  have p: "plain_seg ''a''" "plain_seg ''b''" "plain_seg ''c''"
    by (simp_all add: plain_seg_def arrayRegex_def)
  show ?thesis
    using merge_form_data_paths [of "[''a'', ''b'']" "[(''a'', JObj [(''b'', JNum 3)])]" "JNum 3"
        "[(''a'', JObj [(''b'', JNum 1), (''c'', JNum 2)])]"]
      merge_form_data_paths [of "[''a'', ''c'']" "[(''a'', JObj [(''b'', JNum 3)])]" "JNum 2"
        "[(''a'', JObj [(''b'', JNum 1), (''c'', JNum 2)])]"] p
    by simp
qed

end
