(* ===== verification/PluginFSM.thy ===== *)
theory PluginFSM
  imports Json
begin

text \<open>
  The table-driven state machine of the task plugins (\<open>backend/internal/task/plugin/fsm.go\<close>), the
  three tables the plugins build (\<open>NewSimpleFormFSM\<close>, \<open>NewWaitForEventFSM\<close>, \<open>NewPaymentFSM\<close>),
  and the two small rule evaluators of the package, \<open>emit.go\<close> and \<open>transition.go\<close>.
  A Go string type with constants is \<open>string\<close>; the empty \<open>NextTaskState\<close> means no change.
\<close>

section \<open>Task states: plugin/constants.go\<close>

type_synonym State = string
type_synonym TaskType = string

abbreviation Initialized :: State where "Initialized \<equiv> ''INITIALIZED''"
abbreviation InProgress :: State where "InProgress \<equiv> ''IN_PROGRESS''"
abbreviation Completed :: State where "Completed \<equiv> ''COMPLETED''"
abbreviation Failed :: State where "Failed \<equiv> ''FAILED''"

abbreviation TaskTypeSimpleForm :: TaskType where "TaskTypeSimpleForm \<equiv> ''SIMPLE_FORM''"
abbreviation TaskTypeWaitForEvent :: TaskType where "TaskTypeWaitForEvent \<equiv> ''WAIT_FOR_EVENT''"
abbreviation TaskTypePayment :: TaskType where "TaskTypePayment \<equiv> ''PAYMENT''"

definition finished :: "State \<Rightarrow> bool" where
  "finished s \<longleftrightarrow> s = Completed \<or> s = Failed"

section \<open>fsm.go\<close>

datatype TransitionKey = TransitionKey (FromState: string) (Action: string)

datatype TransitionOutcome = TransitionOutcome (NextPluginState: string) (NextTaskState: State)

type_synonym PluginFSM = "(TransitionKey, TransitionOutcome) gomap"

abbreviation FSMActionStart :: string where "FSMActionStart \<equiv> ''START''"

definition NewPluginFSM :: "(TransitionKey, TransitionOutcome) gomap \<Rightarrow> PluginFSM" where
  "NewPluginFSM table = table"

definition Transition :: "PluginFSM \<Rightarrow> string \<Rightarrow> string \<Rightarrow> TransitionOutcome res" where
  "Transition f currentState action =
     (case map_get f (TransitionKey currentState action) of
        None \<Rightarrow> Err (Errorf ''fsm: action is not permitted in plugin state'' [action, currentState])
      | Some outcome \<Rightarrow> Ok outcome)"

definition CanTransition :: "PluginFSM \<Rightarrow> string \<Rightarrow> string \<Rightarrow> bool" where
  "CanTransition f currentState action \<longleftrightarrow>
     map_get f (TransitionKey currentState action) \<noteq> None"

lemma CanTransition_iff_ok: "CanTransition f s a \<longleftrightarrow> is_ok (Transition f s a)"
  by (simp add: CanTransition_def Transition_def split: option.splits)

section \<open>The plugins' tables\<close>

abbreviation SimpleFormActionDraft :: string where "SimpleFormActionDraft \<equiv> ''SAVE_AS_DRAFT''"
abbreviation SimpleFormActionSubmit :: string where "SimpleFormActionSubmit \<equiv> ''SUBMIT_FORM''"
abbreviation SimpleFormActionOgaVerify :: string where "SimpleFormActionOgaVerify \<equiv> ''OGA_VERIFICATION''"
abbreviation SimpleFormActionOgaFeedback :: string where
  "SimpleFormActionOgaFeedback \<equiv> ''OGA_VERIFICATION_FEEDBACK''"
abbreviation simpleFormFSMSubmitComplete :: string where
  "simpleFormFSMSubmitComplete \<equiv> ''SUBMIT_FORM_COMPLETE''"
abbreviation simpleFormFSMSubmitAwaitOGA :: string where
  "simpleFormFSMSubmitAwaitOGA \<equiv> ''SUBMIT_FORM_AWAIT_OGA''"
abbreviation simpleFormFSMSubmitFailed :: string where
  "simpleFormFSMSubmitFailed \<equiv> ''SUBMIT_FORM_FAILED''"
abbreviation simpleFormFSMOgaApproved :: string where
  "simpleFormFSMOgaApproved \<equiv> ''OGA_VERIFICATION_APPROVED''"
abbreviation simpleFormFSMOgaRejected :: string where
  "simpleFormFSMOgaRejected \<equiv> ''OGA_VERIFICATION_REJECTED''"

abbreviation SimpleFormInitialized :: string where "SimpleFormInitialized \<equiv> ''INITIALIZED''"
abbreviation TraderSavedAsDraft :: string where "TraderSavedAsDraft \<equiv> ''DRAFT''"
abbreviation TraderSubmitted :: string where "TraderSubmitted \<equiv> ''SUBMITTED''"
abbreviation OGAAcknowledged :: string where "OGAAcknowledged \<equiv> ''OGA_ACKNOWLEDGED''"
abbreviation OGAFeedbackProvided :: string where "OGAFeedbackProvided \<equiv> ''OGA_FEEDBACK_PROVIDED''"
abbreviation OGAReviewed :: string where "OGAReviewed \<equiv> ''OGA_REVIEWED''"
abbreviation SubmissionFailed :: string where "SubmissionFailed \<equiv> ''SUBMISSION_FAILED''"

definition NewSimpleFormFSM :: PluginFSM where
  "NewSimpleFormFSM = NewPluginFSM
    [(TransitionKey '''' FSMActionStart, TransitionOutcome SimpleFormInitialized ''''),
     (TransitionKey SimpleFormInitialized SimpleFormActionDraft, TransitionOutcome TraderSavedAsDraft InProgress),
     (TransitionKey TraderSavedAsDraft SimpleFormActionDraft, TransitionOutcome TraderSavedAsDraft InProgress),
     (TransitionKey SubmissionFailed SimpleFormActionDraft, TransitionOutcome TraderSavedAsDraft InProgress),
     (TransitionKey SimpleFormInitialized simpleFormFSMSubmitComplete, TransitionOutcome TraderSubmitted Completed),
     (TransitionKey TraderSavedAsDraft simpleFormFSMSubmitComplete, TransitionOutcome TraderSubmitted Completed),
     (TransitionKey SubmissionFailed simpleFormFSMSubmitComplete, TransitionOutcome TraderSubmitted Completed),
     (TransitionKey SimpleFormInitialized simpleFormFSMSubmitAwaitOGA, TransitionOutcome OGAAcknowledged InProgress),
     (TransitionKey TraderSavedAsDraft simpleFormFSMSubmitAwaitOGA, TransitionOutcome OGAAcknowledged InProgress),
     (TransitionKey SubmissionFailed simpleFormFSMSubmitAwaitOGA, TransitionOutcome OGAAcknowledged InProgress),
     (TransitionKey OGAFeedbackProvided simpleFormFSMSubmitAwaitOGA, TransitionOutcome OGAAcknowledged InProgress),
     (TransitionKey SimpleFormInitialized simpleFormFSMSubmitFailed, TransitionOutcome SubmissionFailed InProgress),
     (TransitionKey TraderSavedAsDraft simpleFormFSMSubmitFailed, TransitionOutcome SubmissionFailed InProgress),
     (TransitionKey OGAFeedbackProvided simpleFormFSMSubmitFailed, TransitionOutcome SubmissionFailed InProgress),
     (TransitionKey OGAAcknowledged simpleFormFSMOgaApproved, TransitionOutcome OGAReviewed Completed),
     (TransitionKey OGAAcknowledged simpleFormFSMOgaRejected, TransitionOutcome OGAReviewed Failed),
     (TransitionKey OGAAcknowledged SimpleFormActionOgaFeedback, TransitionOutcome OGAFeedbackProvided InProgress),
     (TransitionKey OGAFeedbackProvided simpleFormFSMOgaApproved, TransitionOutcome OGAReviewed Completed),
     (TransitionKey OGAFeedbackProvided simpleFormFSMOgaRejected, TransitionOutcome OGAReviewed Failed)]"

abbreviation notifiedService :: string where "notifiedService \<equiv> ''NOTIFIED_SERVICE''"
abbreviation notifyFailed :: string where "notifyFailed \<equiv> ''NOTIFY_FAILED''"
abbreviation receivedCallback :: string where "receivedCallback \<equiv> ''RECEIVED_CALLBACK''"
abbreviation waitForEventFSMStartFailed :: string where "waitForEventFSMStartFailed \<equiv> ''START_FAILED''"
abbreviation waitForEventFSMRetry :: string where "waitForEventFSMRetry \<equiv> ''RETRY''"
abbreviation waitForEventFSMComplete :: string where "waitForEventFSMComplete \<equiv> ''OGA_VERIFICATION''"

definition NewWaitForEventFSM :: PluginFSM where
  "NewWaitForEventFSM = NewPluginFSM
    [(TransitionKey '''' FSMActionStart, TransitionOutcome notifiedService InProgress),
     (TransitionKey '''' waitForEventFSMStartFailed, TransitionOutcome notifyFailed InProgress),
     (TransitionKey notifyFailed waitForEventFSMRetry, TransitionOutcome notifiedService InProgress),
     (TransitionKey notifiedService waitForEventFSMComplete, TransitionOutcome receivedCallback Completed)]"

abbreviation PaymentActionInitiate :: string where "PaymentActionInitiate \<equiv> ''INITIATE_PAYMENT''"
abbreviation PaymentActionSuccess :: string where "PaymentActionSuccess \<equiv> ''PAYMENT_SUCCESS''"
abbreviation PaymentActionFailed :: string where "PaymentActionFailed \<equiv> ''PAYMENT_FAILED''"
abbreviation paymentFSMTimeout :: string where "paymentFSMTimeout \<equiv> ''PAYMENT_TIMEOUT''"
abbreviation paymentIdle :: string where "paymentIdle \<equiv> ''IDLE''"
abbreviation paymentInProgress :: string where "paymentInProgress \<equiv> ''IN_PROGRESS''"
abbreviation paymentCompleted :: string where "paymentCompleted \<equiv> ''COMPLETED''"

definition NewPaymentFSM :: PluginFSM where
  "NewPaymentFSM = NewPluginFSM
    [(TransitionKey '''' FSMActionStart, TransitionOutcome paymentIdle ''''),
     (TransitionKey paymentIdle PaymentActionInitiate, TransitionOutcome paymentInProgress InProgress),
     (TransitionKey paymentInProgress PaymentActionInitiate, TransitionOutcome paymentInProgress InProgress),
     (TransitionKey paymentInProgress PaymentActionSuccess, TransitionOutcome paymentCompleted Completed),
     (TransitionKey paymentInProgress PaymentActionFailed, TransitionOutcome paymentIdle Initialized),
     (TransitionKey paymentInProgress paymentFSMTimeout, TransitionOutcome paymentIdle Initialized)]"

text \<open>The table \<open>BuildExecutor\<close> (factory.go) pairs with the plugin of a task type.\<close>

definition executor_fsm :: "TaskType \<Rightarrow> PluginFSM res" where
  "executor_fsm taskType =
     (if taskType = TaskTypeSimpleForm then Ok NewSimpleFormFSM
      else if taskType = TaskTypeWaitForEvent then Ok NewWaitForEventFSM
      else if taskType = TaskTypePayment then Ok NewPaymentFSM
      else Err (Errorf ''unknown task type: '' [taskType]))"

section \<open>emit.go\<close>

record FieldCondition =
  fc_Field :: string
  fc_Value :: string

record EmissionRule =
  er_Outcome :: string
  er_Conditions :: "FieldCondition list"

type_synonym EmissionConfig = "EmissionRule list"

fun conditions_match :: "FieldCondition list \<Rightarrow> obj \<Rightarrow> bool" where
  "conditions_match [] data = True"
| "conditions_match (c # cs) data =
     (case GetValueByPath data (fc_Field c) of
        None \<Rightarrow> False
      | Some val \<Rightarrow>
          (case as_str val of
             None \<Rightarrow> False
           | Some str \<Rightarrow> if str \<noteq> fc_Value c then False else conditions_match cs data))"

definition matches :: "EmissionRule \<Rightarrow> obj \<Rightarrow> bool" where
  "matches r data = conditions_match (er_Conditions r) data"

fun Evaluate :: "EmissionConfig \<Rightarrow> obj \<Rightarrow> string option" where
  "Evaluate [] data = None"
| "Evaluate (rule # rules) data =
     (if matches rule data then Some (er_Outcome rule) else Evaluate rules data)"

section \<open>transition.go\<close>

record TransitionConfig =
  tc_Field :: string
  tc_Mapping :: "(string, string) gomap"
  tc_Default :: string

definition tc_Resolve :: "TransitionConfig \<Rightarrow> obj \<Rightarrow> string res" where
  "tc_Resolve t data =
     (case GetValueByPath data (tc_Field t) of
        None \<Rightarrow> if tc_Default t \<noteq> '''' then Ok (tc_Default t)
                else Err (Errorf ''transition field not found in data'' [tc_Field t])
      | Some val \<Rightarrow>
          (case as_str val of
             None \<Rightarrow> Err (Errorf ''transition field is not a string'' [tc_Field t])
           | Some str \<Rightarrow>
               (case map_get (tc_Mapping t) str of
                  Some action \<Rightarrow> Ok action
                | None \<Rightarrow>
                    if tc_Default t \<noteq> '''' then Ok (tc_Default t)
                    else Err (Errorf ''no transition mapped for field'' [tc_Field t, str]))))"

section \<open>Runs of a table\<close>

text \<open>
  The pair of plugin state and task state that \<open>Container.Transition\<close> keeps, and a sequence of
  actions applied to it.
\<close>

definition apply_outcome :: "TransitionOutcome \<Rightarrow> string \<times> State \<Rightarrow> string \<times> State" where
  "apply_outcome out s =
     (NextPluginState out, if NextTaskState out \<noteq> '''' then NextTaskState out else snd s)"

definition fsm_step :: "PluginFSM \<Rightarrow> string \<Rightarrow> string \<times> State \<Rightarrow> (string \<times> State) res" where
  "fsm_step fsm a s = bind_res (Transition fsm (fst s) a) (\<lambda>out. Ok (apply_outcome out s))"

definition fsm_run :: "PluginFSM \<Rightarrow> string list \<Rightarrow> string \<times> State \<Rightarrow> (string \<times> State) res" where
  "fsm_run fsm acts s = foldM (fsm_step fsm) acts s"

inductive fsm_reachable :: "PluginFSM \<Rightarrow> string \<times> State \<Rightarrow> bool" for fsm where
  start: "\<not> finished ts \<Longrightarrow> fsm_reachable fsm ('''', ts)"
| step: "fsm_reachable fsm s \<Longrightarrow> fsm_step fsm a s = Ok s' \<Longrightarrow> fsm_reachable fsm s'"

text \<open>A list of pairs that holds the targets of all its edges holds whatever is reachable.\<close>

definition closed_states :: "PluginFSM \<Rightarrow> (string \<times> State \<Rightarrow> bool) \<Rightarrow> bool" where
  "closed_states fsm P \<longleftrightarrow>
     (\<forall>(k, out) \<in> set fsm. \<forall>ts. P (FromState k, ts) \<longrightarrow> P (apply_outcome out (FromState k, ts)))"

lemma fsm_step_closed:
  assumes "closed_states fsm P" and "P s" and "fsm_step fsm a s = Ok s'"
  shows "P s'"
proof -
  from assms(3) obtain out where t: "Transition fsm (fst s) a = Ok out" and s': "s' = apply_outcome out s"
    by (auto simp: fsm_step_def res_simps)
  from t have "(TransitionKey (fst s) a, out) \<in> set fsm"
    by (auto simp: Transition_def split: option.splits dest: map_of_SomeD)
  with assms(1,2) s' show ?thesis
    unfolding closed_states_def by (cases s) fastforce
qed

lemma fsm_reachable_closed:
  assumes "fsm_reachable fsm s" and "closed_states fsm P"
    and "\<And>ts. \<not> finished ts \<Longrightarrow> P ('''', ts)"
  shows "P s"
  using assms(1) by induction (auto intro: assms(3) fsm_step_closed [OF assms(2)])

lemma fsm_run_reachable:
  "fsm_run fsm acts s = Ok s' \<Longrightarrow> fsm_reachable fsm s \<Longrightarrow> fsm_reachable fsm s'"
  by (induction acts arbitrary: s) (auto simp: fsm_run_def res_simps intro: fsm_reachable.step)

text \<open>The states each plugin can be in, with the task states they go with.\<close>

definition simple_form_states :: "string \<times> State \<Rightarrow> bool" where
  "simple_form_states s \<longleftrightarrow>
     (fst s \<in> {'''', SimpleFormInitialized, TraderSavedAsDraft, SubmissionFailed, OGAAcknowledged, OGAFeedbackProvided}
        \<and> \<not> finished (snd s))
     \<or> s = (TraderSubmitted, Completed) \<or> fst s = OGAReviewed \<and> finished (snd s)"

definition wait_for_event_states :: "string \<times> State \<Rightarrow> bool" where
  "wait_for_event_states s \<longleftrightarrow>
     (fst s \<in> {'''', notifiedService, notifyFailed} \<and> \<not> finished (snd s)) \<or> s = (receivedCallback, Completed)"

definition payment_states :: "string \<times> State \<Rightarrow> bool" where
  "payment_states s \<longleftrightarrow>
     (fst s \<in> {'''', paymentIdle, paymentInProgress} \<and> \<not> finished (snd s)) \<or> s = (paymentCompleted, Completed)"

lemmas fsm_tables = NewSimpleFormFSM_def NewWaitForEventFSM_def NewPaymentFSM_def NewPluginFSM_def

lemma simple_form_closed: "closed_states NewSimpleFormFSM simple_form_states"
  by (simp add: closed_states_def fsm_tables simple_form_states_def apply_outcome_def finished_def)

lemma wait_for_event_closed: "closed_states NewWaitForEventFSM wait_for_event_states"
  by (simp add: closed_states_def fsm_tables wait_for_event_states_def apply_outcome_def finished_def)

lemma payment_closed: "closed_states NewPaymentFSM payment_states"
  by (simp add: closed_states_def fsm_tables payment_states_def apply_outcome_def finished_def)

lemma simple_form_reachable: "fsm_reachable NewSimpleFormFSM s \<Longrightarrow> simple_form_states s"
  by (erule fsm_reachable_closed [OF _ simple_form_closed]) (simp add: simple_form_states_def)

lemma wait_for_event_reachable: "fsm_reachable NewWaitForEventFSM s \<Longrightarrow> wait_for_event_states s"
  by (erule fsm_reachable_closed [OF _ wait_for_event_closed]) (simp add: wait_for_event_states_def)

lemma payment_reachable: "fsm_reachable NewPaymentFSM s \<Longrightarrow> payment_states s"
  by (erule fsm_reachable_closed [OF _ payment_closed]) (simp add: payment_states_def)


lemma executor_fsm_cases:
  assumes "executor_fsm ty = Ok fsm"
  obtains "fsm = NewSimpleFormFSM" | "fsm = NewWaitForEventFSM" | "fsm = NewPaymentFSM"
  using assms by (auto simp: executor_fsm_def split: if_splits)

definition final_state :: "PluginFSM \<Rightarrow> string \<Rightarrow> bool" where
  "final_state fsm ps \<longleftrightarrow> (\<forall>(k, out) \<in> set fsm. FromState k \<noteq> ps)"

lemma final_state_iff: "final_state fsm ps \<longleftrightarrow> (\<forall>a. \<not> CanTransition fsm ps a)"
proof -
  have "CanTransition fsm ps a \<longleftrightarrow> (\<exists>out. (TransitionKey ps a, out) \<in> set fsm)" for a
    by (force simp: CanTransition_def map_of_eq_None_iff)
  then show ?thesis
    unfolding final_state_def
    by (metis (mono_tags, lifting) TransitionKey.collapse TransitionKey.sel(1) case_prodD case_prodI2)
qed

lemma simple_form_final:
  "simple_form_states s \<Longrightarrow> final_state NewSimpleFormFSM (fst s) \<longleftrightarrow> finished (snd s)"
  by (cases s) (auto simp: simple_form_states_def final_state_def fsm_tables finished_def)

lemma wait_for_event_final:
  "wait_for_event_states s \<Longrightarrow> final_state NewWaitForEventFSM (fst s) \<longleftrightarrow> finished (snd s)"
  by (cases s) (auto simp: wait_for_event_states_def final_state_def fsm_tables finished_def)

lemma payment_final:
  "payment_states s \<Longrightarrow> final_state NewPaymentFSM (fst s) \<longleftrightarrow> finished (snd s)"
  by (cases s) (auto simp: payment_states_def final_state_def fsm_tables finished_def)

text \<open>From each unfinished state, actions that complete the task.\<close>

lemmas fsm_runs = fsm_run_def fsm_step_def Transition_def fsm_tables apply_outcome_def

lemma simple_form_completes:
  assumes "simple_form_states s" and "\<not> finished (snd s)"
  shows "\<exists>acts ps. fsm_run NewSimpleFormFSM acts s = Ok (ps, Completed)"
proof -
  have "fst s \<in> {'''', SimpleFormInitialized, TraderSavedAsDraft, SubmissionFailed, OGAAcknowledged, OGAFeedbackProvided}"
    using assms by (auto simp: simple_form_states_def finished_def)
  then consider "fst s = ''''" | "fst s \<in> {SimpleFormInitialized, TraderSavedAsDraft, SubmissionFailed}"
    | "fst s \<in> {OGAAcknowledged, OGAFeedbackProvided}"
    by blast
  then show ?thesis
  proof cases
    case 1
    then have "fsm_run NewSimpleFormFSM [FSMActionStart, simpleFormFSMSubmitComplete] s
        = Ok (TraderSubmitted, Completed)"
      by (simp add: fsm_runs)
    then show ?thesis by blast
  next
    case 2
    then have "fsm_run NewSimpleFormFSM [simpleFormFSMSubmitComplete] s = Ok (TraderSubmitted, Completed)"
      by (auto simp: fsm_runs)
    then show ?thesis by blast
  next
    case 3
    then have "fsm_run NewSimpleFormFSM [simpleFormFSMOgaApproved] s = Ok (OGAReviewed, Completed)"
      by (auto simp: fsm_runs)
    then show ?thesis by blast
  qed
qed

lemma wait_for_event_completes:
  assumes "wait_for_event_states s" and "\<not> finished (snd s)"
  shows "\<exists>acts ps. fsm_run NewWaitForEventFSM acts s = Ok (ps, Completed)"
proof -
  have "fst s = '''' \<or> fst s = notifiedService \<or> fst s = notifyFailed"
    using assms by (auto simp: wait_for_event_states_def finished_def)
  then have "fsm_run NewWaitForEventFSM [FSMActionStart, waitForEventFSMComplete] s = Ok (receivedCallback, Completed)
      \<or> fsm_run NewWaitForEventFSM [waitForEventFSMComplete] s = Ok (receivedCallback, Completed)
      \<or> fsm_run NewWaitForEventFSM [waitForEventFSMRetry, waitForEventFSMComplete] s = Ok (receivedCallback, Completed)"
    by (auto simp: fsm_runs)
  then show ?thesis by blast
qed

lemma payment_completes:
  assumes "payment_states s" and "\<not> finished (snd s)"
  shows "\<exists>acts ps. fsm_run NewPaymentFSM acts s = Ok (ps, Completed)"
proof -
  have "fst s = '''' \<or> fst s = paymentIdle \<or> fst s = paymentInProgress"
    using assms by (auto simp: payment_states_def finished_def)
  then have "fsm_run NewPaymentFSM [FSMActionStart, PaymentActionInitiate, PaymentActionSuccess] s
        = Ok (paymentCompleted, Completed)
      \<or> fsm_run NewPaymentFSM [PaymentActionInitiate, PaymentActionSuccess] s = Ok (paymentCompleted, Completed)
      \<or> fsm_run NewPaymentFSM [PaymentActionSuccess] s = Ok (paymentCompleted, Completed)"
    by (auto simp: fsm_runs)
  then show ?thesis by blast
qed

section \<open>Properties\<close>

text \<open>
  C32: for each task type, a task whose actions all went through its state machine is finished
  (COMPLETED or FAILED) exactly when its plugin state permits no further action: a finished task
  cannot move again, and no unfinished task is stuck.
\<close>

theorem fsm_finished_iff_final:
  assumes "executor_fsm taskType = Ok fsm" and "fsm_reachable fsm (ps, ts)"
  shows "finished ts \<longleftrightarrow> (\<forall>action. \<not> CanTransition fsm ps action)"
  using assms(1)
proof (cases rule: executor_fsm_cases)
  case 1
  with simple_form_final [OF simple_form_reachable, of "(ps, ts)"] assms(2) show ?thesis by (simp flip: final_state_iff)
next
  case 2
  with wait_for_event_final [OF wait_for_event_reachable, of "(ps, ts)"] assms(2) show ?thesis by (simp flip: final_state_iff)
next
  case 3
  with payment_final [OF payment_reachable, of "(ps, ts)"] assms(2) show ?thesis by (simp flip: final_state_iff)
qed

theorem fsm_finished_iff_final_witness:
  "finished Completed \<longleftrightarrow> (\<forall>action. \<not> CanTransition NewPaymentFSM paymentCompleted action)"
proof (rule fsm_finished_iff_final)
  show "executor_fsm TaskTypePayment = Ok NewPaymentFSM" by (simp add: executor_fsm_def)
  have "fsm_reachable NewPaymentFSM ('''', InProgress)"
    by (rule fsm_reachable.start) (simp add: finished_def)
  moreover have "fsm_run NewPaymentFSM [FSMActionStart, PaymentActionInitiate, PaymentActionSuccess] ('''', InProgress)
      = Ok (paymentCompleted, Completed)"
    by (simp add: fsm_runs)
  ultimately show "fsm_reachable NewPaymentFSM (paymentCompleted, Completed)"
    using fsm_run_reachable by blast
qed

text \<open>
  from every unfinished state a task can get to, some sequence of permitted actions completes
  the task.
\<close>

theorem fsm_can_complete:
  assumes "executor_fsm taskType = Ok fsm" and "fsm_reachable fsm s" and "\<not> finished (snd s)"
  shows "\<exists>acts ps. fsm_run fsm acts s = Ok (ps, Completed)"
  using assms(1)
proof (cases rule: executor_fsm_cases)
  case 1
  with assms simple_form_completes simple_form_reachable show ?thesis by blast
next
  case 2
  with assms wait_for_event_completes wait_for_event_reachable show ?thesis by blast
next
  case 3
  with assms payment_completes payment_reachable show ?thesis by blast
qed

theorem fsm_can_complete_witness:
  "\<exists>acts ps. fsm_run NewSimpleFormFSM acts ('''', InProgress) = Ok (ps, Completed)"
proof (rule fsm_can_complete)
  show "executor_fsm TaskTypeSimpleForm = Ok NewSimpleFormFSM" by (simp add: executor_fsm_def)
  show "fsm_reachable NewSimpleFormFSM ('''', InProgress)"
    by (rule fsm_reachable.start) (simp add: finished_def)
  show "\<not> finished (snd ('''', InProgress))" by (simp add: finished_def)
qed

end
