(* ===== verification/TaskApi.thy ===== *)
theory TaskApi
  imports PluginFSM
begin

text \<open>
  The messages between plugins, the task manager and the workflow manager:
  \<open>task/plugin/plugin.go\<close>, \<open>task/manager/manager.go\<close> and \<open>task/manager/notification.go\<close>.
  A nil \<open>any\<close> is \<open>JNull\<close>; a nil map of outputs is the empty map (the readers only range over it
  or take its length).
\<close>

record ExecutionRequest =
  req_Action :: string
  req_Content :: any

record ApiError =
  ae_Code :: string
  ae_Message :: string
  ae_Details :: any

record ApiResponse =
  ar_Success :: bool
  ar_Data :: any
  ar_Error :: "ApiError option"

record ExecutionResponse =
  xr_NewState :: "State option"
  xr_ExtendedState :: "string option"
  xr_Outputs :: obj
  xr_EmittedOutcome :: "string option"
  xr_Message :: string
  xr_ApiResponse :: "ApiResponse option"

definition emptyResponse :: ExecutionResponse where
  "emptyResponse = \<lparr>xr_NewState = None, xr_ExtendedState = None, xr_Outputs = [], xr_EmittedOutcome = None,
     xr_Message = [], xr_ApiResponse = None\<rparr>"

record InitTaskRequest =
  it_TaskID :: string
  it_WorkflowID :: string
  it_WorkflowNodeTemplateID :: string
  it_Type :: TaskType
  it_GlobalState :: obj
  it_Config :: "any option"

record InitTaskResponse =
  itr_Success :: bool
  itr_Result :: any
  itr_Error :: string

record ExecuteTaskRequest =
  et_WorkflowID :: string
  et_TaskID :: string
  et_Payload :: "ExecutionRequest option"

record WorkflowManagerNotification =
  wn_TaskID :: string
  wn_UpdatedState :: "State option"
  wn_AppendGlobalContext :: obj
  wn_ExtendedState :: "string option"
  wn_Outcome :: "string option"

end
