(* ===== verification/WorkflowModel.thy ===== *)
theory WorkflowModel
  imports Json
begin

text \<open>
  The data of the workflow engine, \<open>backend/internal/workflow/model\<close>: workflows, nodes, templates
  and the unlock configuration of a node with its three operations \<open>Validate\<close>,
  \<open>ResolveToInstanceIDs\<close> and \<open>Evaluate\<close>. Time stamps and preloaded relations are left out: no
  operation modelled here reads them. Evaluating an unresolved condition dereferences its nil
  \<open>NodeID\<close>, which is \<open>Panic\<close>.
\<close>

section \<open>workflow\_node.go, workflow\_instance.go\<close>

datatype WorkflowNodeState = LOCKED | READY | IN_PROGRESS | COMPLETED | FAILED

fun node_state_str :: "WorkflowNodeState \<Rightarrow> string" where
  "node_state_str LOCKED = ''LOCKED''"
| "node_state_str READY = ''READY''"
| "node_state_str IN_PROGRESS = ''IN_PROGRESS''"
| "node_state_str COMPLETED = ''COMPLETED''"
| "node_state_str FAILED = ''FAILED''"

lemma node_state_str_inject [simp]: "node_state_str s = node_state_str t \<longleftrightarrow> s = t"
  by (cases s; cases t) auto

section \<open>unlock\_config.go: data\<close>

record UnlockCondition =
  uc_NodeTemplateID :: string
  uc_NodeID :: "string option"
  uc_State :: "string option"
  uc_Outcome :: "string option"

datatype UnlockGroup = UnlockGroup (gAllOf: "UnlockCondition list")

datatype UnlockExpression =
  UnlockExpression (xAnyOf: "UnlockExpression list") (xAllOf: "UnlockExpression list")
    (xNodeTemplateID: string) (xNodeID: "string option") (xState: "string option") (xOutcome: "string option")

datatype UnlockConfig =
  UnlockConfig (cAnyOf: "UnlockGroup list") (cExpression: "UnlockExpression option")

record WorkflowNode =
  n_ID :: string
  n_WorkflowID :: string
  n_WorkflowNodeTemplateID :: string
  n_State :: WorkflowNodeState
  n_ExtendedState :: "string option"
  n_Outcome :: "string option"
  n_DependsOn :: "string list"
  n_UnlockConfiguration :: "UnlockConfig option"

record WorkflowNodeTemplate =
  t_ID :: string
  t_Name :: string
  t_Type :: string
  t_Config :: "any option"
  t_DependsOn :: "string list"
  t_UnlockConfiguration :: "UnlockConfig option"

record UpdateWorkflowNodeDTO =
  u_WorkflowNodeID :: string
  u_State :: WorkflowNodeState
  u_AppendGlobalContext :: obj
  u_ExtendedState :: "string option"
  u_Outcome :: "string option"

abbreviation WorkFlowNodeTypeEndNode :: string where "WorkFlowNodeTypeEndNode \<equiv> ''END_NODE''"

section \<open>unlock\_config.go: Validate\<close>

definition validateCondition :: "UnlockCondition \<Rightarrow> string \<Rightarrow> unit res" where
  "validateCondition cond path =
     (if uc_NodeTemplateID cond = '''' then Err (Errorf ''has nil nodeTemplateId'' [path])
      else if uc_State cond = None \<and> uc_Outcome cond = None
        then Err (Errorf ''must specify at least state or outcome'' [path])
      else if (case uc_State cond of None \<Rightarrow> False | Some s \<Rightarrow> trim_space s = [])
        then Err (Errorf ''has empty state'' [path])
      else if (case uc_Outcome cond of None \<Rightarrow> False | Some s \<Rightarrow> trim_space s = [])
        then Err (Errorf ''has empty outcome'' [path])
      else Ok ())"

definition hasLeaf :: "UnlockExpression \<Rightarrow> bool" where
  "hasLeaf expr \<longleftrightarrow> xNodeTemplateID expr \<noteq> '''' \<or> xState expr \<noteq> None \<or> xOutcome expr \<noteq> None"

definition definedCount :: "UnlockExpression \<Rightarrow> nat" where
  "definedCount expr =
     (if xAnyOf expr \<noteq> [] then 1 else 0) + (if xAllOf expr \<noteq> [] then 1 else 0) + (if hasLeaf expr then 1 else 0)"

definition index_path :: "string \<Rightarrow> string \<Rightarrow> nat \<Rightarrow> string" where
  "index_path path field i = path @ field @ ''['' @ show_nat i @ '']''"

fun validateExpression :: "UnlockExpression \<Rightarrow> string \<Rightarrow> unit res"
  and validateChildren :: "string \<Rightarrow> nat \<Rightarrow> UnlockExpression list \<Rightarrow> string \<Rightarrow> unit res" where
  "validateExpression (UnlockExpression anyOf allOf tid nid st oc) path =
     (let expr = UnlockExpression anyOf allOf tid nid st oc in
      if definedCount expr = 0
        then Err (Errorf ''must define one of anyOf, allOf, or a condition'' [path])
      else if definedCount expr > 1
        then Err (Errorf ''must define exactly one of anyOf, allOf, or a condition'' [path])
      else if anyOf \<noteq> [] then validateChildren ''.anyOf'' 0 anyOf path
      else if allOf \<noteq> [] then validateChildren ''.allOf'' 0 allOf path
      else validateCondition \<lparr>uc_NodeTemplateID = tid, uc_NodeID = None, uc_State = st, uc_Outcome = oc\<rparr> path)"
| "validateChildren field i [] path = Ok ()"
| "validateChildren field i (child # rest) path =
     bind_res (validateExpression child (index_path path field i))
       (\<lambda>_. validateChildren field (Suc i) rest path)"

fun validateConditions :: "nat \<Rightarrow> nat \<Rightarrow> UnlockCondition list \<Rightarrow> unit res" where
  "validateConditions i j [] = Ok ()"
| "validateConditions i j (cond # rest) =
     bind_res (validateCondition cond
        (''unlock configuration group '' @ show_nat i @ '' condition '' @ show_nat j))
       (\<lambda>_. validateConditions i (Suc j) rest)"

fun validateGroups :: "nat \<Rightarrow> UnlockGroup list \<Rightarrow> unit res" where
  "validateGroups i [] = Ok ()"
| "validateGroups i (grp # rest) =
     (if gAllOf grp = []
        then Err (Errorf ''unlock configuration group must have at least one condition in allOf'' [show_nat i])
      else bind_res (validateConditions i 0 (gAllOf grp)) (\<lambda>_. validateGroups (Suc i) rest))"

definition Validate :: "UnlockConfig \<Rightarrow> unit res" where
  "Validate uc =
     (if cExpression uc \<noteq> None \<and> cAnyOf uc \<noteq> []
        then Err (Errorf ''unlock configuration cannot define both expression and anyOf'' [])
      else case cExpression uc of
        Some expr \<Rightarrow> validateExpression expr ''expression''
      | None \<Rightarrow>
          if cAnyOf uc = []
            then Err (Errorf ''unlock configuration must have at least one group in anyOf or define expression'' [])
          else validateGroups 0 (cAnyOf uc))"

section \<open>unlock\_config.go: ResolveToInstanceIDs\<close>

definition resolveTemplate :: "(string, string) gomap \<Rightarrow> string \<Rightarrow> string res" where
  "resolveTemplate templateToNodeID tid =
     (case map_get templateToNodeID tid of
        None \<Rightarrow> Err (Errorf ''no instance node found for template ID in unlock configuration'' [tid])
      | Some nodeID \<Rightarrow> Ok nodeID)"

fun mapM_res :: "('a \<Rightarrow> 'b res) \<Rightarrow> 'a list \<Rightarrow> 'b list res" where
  "mapM_res f [] = Ok []"
| "mapM_res f (x # xs) = bind_res (f x) (\<lambda>y. bind_res (mapM_res f xs) (\<lambda>ys. Ok (y # ys)))"

lemma mapM_res_cong [fundef_cong]:
  "xs = ys \<Longrightarrow> (\<And>x. x \<in> set ys \<Longrightarrow> f x = g x) \<Longrightarrow> mapM_res f xs = mapM_res g ys"
  by (induction ys arbitrary: xs) auto

definition resolveCondition :: "(string, string) gomap \<Rightarrow> UnlockCondition \<Rightarrow> UnlockCondition res" where
  "resolveCondition templateToNodeID cond =
     bind_res (resolveTemplate templateToNodeID (uc_NodeTemplateID cond))
       (\<lambda>nodeID. Ok (cond\<lparr>uc_NodeID := Some nodeID\<rparr>))"

definition resolveGroup :: "(string, string) gomap \<Rightarrow> UnlockGroup \<Rightarrow> UnlockGroup res" where
  "resolveGroup templateToNodeID grp =
     bind_res (mapM_res (resolveCondition templateToNodeID) (gAllOf grp)) (\<lambda>conds. Ok (UnlockGroup conds))"

fun resolveExpressionToInstanceIDs ::
    "UnlockExpression \<Rightarrow> (string, string) gomap \<Rightarrow> UnlockExpression res" where
  "resolveExpressionToInstanceIDs (UnlockExpression anyOf allOf tid nid st oc) templateToNodeID =
     bind_res (mapM_res (\<lambda>child. resolveExpressionToInstanceIDs child templateToNodeID) anyOf) (\<lambda>anyOf'.
     bind_res (mapM_res (\<lambda>child. resolveExpressionToInstanceIDs child templateToNodeID) allOf) (\<lambda>allOf'.
     if tid \<noteq> '''' then
       bind_res (resolveTemplate templateToNodeID tid) (\<lambda>nodeID.
         Ok (UnlockExpression anyOf' allOf' tid (Some nodeID) st oc))
     else Ok (UnlockExpression anyOf' allOf' '''' None st oc)))"

definition ResolveToInstanceIDs :: "UnlockConfig \<Rightarrow> (string, string) gomap \<Rightarrow> UnlockConfig res" where
  "ResolveToInstanceIDs uc templateToNodeID =
     bind_res (wrap_err ''invalid unlock configuration'' [] (Validate uc)) (\<lambda>_.
     case cExpression uc of
       Some expr \<Rightarrow>
         bind_res (resolveExpressionToInstanceIDs expr templateToNodeID)
           (\<lambda>resolvedExpr. Ok (UnlockConfig [] (Some resolvedExpr)))
     | None \<Rightarrow>
         bind_res (mapM_res (resolveGroup templateToNodeID) (cAnyOf uc))
           (\<lambda>groups. Ok (UnlockConfig groups None)))"

section \<open>unlock\_config.go: Evaluate\<close>

definition evaluateCondition :: "UnlockCondition \<Rightarrow> (string, WorkflowNode) gomap \<Rightarrow> bool res" where
  "evaluateCondition cond nodeMap =
     (case uc_NodeID cond of
        None \<Rightarrow> Panic
      | Some nodeID \<Rightarrow>
          (case map_get nodeMap nodeID of
             None \<Rightarrow> Ok False
           | Some node \<Rightarrow>
               if (case uc_State cond of None \<Rightarrow> False | Some s \<Rightarrow> node_state_str (n_State node) \<noteq> s)
                 then Ok False
               else if (case uc_Outcome cond of None \<Rightarrow> False | Some oc \<Rightarrow> n_Outcome node \<noteq> Some oc)
                 then Ok False
               else Ok True))"

text \<open>The early-exit loops: the first true (for OR) or false (for AND) result ends them.\<close>

fun any_res :: "('a \<Rightarrow> bool res) \<Rightarrow> 'a list \<Rightarrow> bool res" where
  "any_res p [] = Ok False"
| "any_res p (x # xs) = bind_res (p x) (\<lambda>b. if b then Ok True else any_res p xs)"

fun all_res :: "('a \<Rightarrow> bool res) \<Rightarrow> 'a list \<Rightarrow> bool res" where
  "all_res p [] = Ok True"
| "all_res p (x # xs) = bind_res (p x) (\<lambda>b. if b then all_res p xs else Ok False)"

lemma any_res_cong [fundef_cong]:
  "xs = ys \<Longrightarrow> (\<And>x. x \<in> set ys \<Longrightarrow> f x = g x) \<Longrightarrow> any_res f xs = any_res g ys"
proof (induction ys arbitrary: xs)
  case Nil
  then show ?case by simp
next
  case (Cons y ys)
  then have "any_res f ys = any_res g ys" by simp
  with Cons show ?case by (cases "g y") simp_all
qed

lemma all_res_cong [fundef_cong]:
  "xs = ys \<Longrightarrow> (\<And>x. x \<in> set ys \<Longrightarrow> f x = g x) \<Longrightarrow> all_res f xs = all_res g ys"
proof (induction ys arbitrary: xs)
  case Nil
  then show ?case by simp
next
  case (Cons y ys)
  then have "all_res f ys = all_res g ys" by simp
  with Cons show ?case by (cases "g y") simp_all
qed

definition evaluateGroup :: "UnlockGroup \<Rightarrow> (string, WorkflowNode) gomap \<Rightarrow> bool res" where
  "evaluateGroup grp nodeMap = all_res (\<lambda>cond. evaluateCondition cond nodeMap) (gAllOf grp)"

fun evaluateExpression :: "UnlockExpression \<Rightarrow> (string, WorkflowNode) gomap \<Rightarrow> bool res" where
  "evaluateExpression (UnlockExpression anyOf allOf tid nid st oc) nodeMap =
     (if anyOf \<noteq> [] then any_res (\<lambda>child. evaluateExpression child nodeMap) anyOf
      else if allOf \<noteq> [] then all_res (\<lambda>child. evaluateExpression child nodeMap) allOf
      else evaluateCondition
        \<lparr>uc_NodeTemplateID = tid, uc_NodeID = nid, uc_State = st, uc_Outcome = oc\<rparr> nodeMap)"

definition cEvaluate :: "UnlockConfig \<Rightarrow> (string, WorkflowNode) gomap \<Rightarrow> bool res" where
  "cEvaluate uc nodeMap =
     (case cExpression uc of
        Some expr \<Rightarrow> evaluateExpression expr nodeMap
      | None \<Rightarrow> any_res (\<lambda>grp. evaluateGroup grp nodeMap) (cAnyOf uc))"


section \<open>What an unlock configuration means\<close>

text \<open>
  The meaning over template ids: \<open>view\<close> gives the state and outcome of the instance of a template,
  when there is one. A group is a conjunction, the groups are a disjunction, an expression is the
  boolean expression it spells.
\<close>

type_synonym node_view = "string \<Rightarrow> (WorkflowNodeState \<times> string option) option"

definition cond_holds :: "node_view \<Rightarrow> string \<Rightarrow> string option \<Rightarrow> string option \<Rightarrow> bool" where
  "cond_holds view tid st oc \<longleftrightarrow>
     (case view tid of
        None \<Rightarrow> False
      | Some (s, outcome) \<Rightarrow>
          (st \<noteq> None \<longrightarrow> st = Some (node_state_str s)) \<and> (oc \<noteq> None \<longrightarrow> outcome = oc))"

fun expr_holds :: "node_view \<Rightarrow> UnlockExpression \<Rightarrow> bool" where
  "expr_holds view (UnlockExpression anyOf allOf tid nid st oc) \<longleftrightarrow>
     (if anyOf \<noteq> [] then \<exists>e \<in> set anyOf. expr_holds view e
      else if allOf \<noteq> [] then \<forall>e \<in> set allOf. expr_holds view e
      else cond_holds view tid st oc)"

definition config_holds :: "node_view \<Rightarrow> UnlockConfig \<Rightarrow> bool" where
  "config_holds view uc \<longleftrightarrow>
     (case cExpression uc of
        Some e \<Rightarrow> expr_holds view e
      | None \<Rightarrow> \<exists>g \<in> set (cAnyOf uc). \<forall>c \<in> set (gAllOf g).
          cond_holds view (uc_NodeTemplateID c) (uc_State c) (uc_Outcome c))"

definition instance_view :: "(string, string) gomap \<Rightarrow> (string, WorkflowNode) gomap \<Rightarrow> node_view" where
  "instance_view templateToNodeID nodeMap tid =
     (case map_get templateToNodeID tid of
        None \<Rightarrow> None
      | Some nid \<Rightarrow> map_option (\<lambda>n. (n_State n, n_Outcome n)) (map_get nodeMap nid))"

text \<open>The template ids a configuration names.\<close>

fun expr_templates :: "UnlockExpression \<Rightarrow> string set" where
  "expr_templates (UnlockExpression anyOf allOf tid nid st oc) =
     (\<Union>e \<in> set anyOf. expr_templates e) \<union> (\<Union>e \<in> set allOf. expr_templates e)
       \<union> (if tid \<noteq> '''' then {tid} else {})"

definition config_templates :: "UnlockConfig \<Rightarrow> string set" where
  "config_templates uc =
     (case cExpression uc of
        Some e \<Rightarrow> expr_templates e
      | None \<Rightarrow> (\<Union>g \<in> set (cAnyOf uc). uc_NodeTemplateID ` set (gAllOf g)))"

section \<open>Loops\<close>

lemma mapM_res_Ok_iff: "mapM_res f xs = Ok ys \<longleftrightarrow> list_all2 (\<lambda>x y. f x = Ok y) xs ys"
  by (induction xs arbitrary: ys) (auto simp: res_simps list_all2_Cons1)

lemma mapM_res_ok: "is_ok (mapM_res f xs) \<longleftrightarrow> (\<forall>x \<in> set xs. is_ok (f x))"
proof (induction xs)
  case Nil
  then show ?case by simp
next
  case (Cons x xs)
  then show ?case by (cases "f x"; cases "mapM_res f xs") auto
qed

lemma mapM_res_not_Panic: "\<forall>x \<in> set xs. f x \<noteq> Panic \<Longrightarrow> mapM_res f xs \<noteq> Panic"
proof (induction xs)
  case Nil
  then show ?case by simp
next
  case (Cons x xs)
  then show ?case by (cases "f x"; cases "mapM_res f xs") auto
qed

lemma any_res_Ok: "\<forall>x \<in> set xs. p x = Ok (b x) \<Longrightarrow> any_res p xs = Ok (\<exists>x \<in> set xs. b x)"
  by (induction xs) auto

lemma all_res_Ok: "\<forall>x \<in> set xs. p x = Ok (b x) \<Longrightarrow> all_res p xs = Ok (\<forall>x \<in> set xs. b x)"
  by (induction xs) auto

text \<open>The same over the elements another list was computed to.\<close>

lemma any_res_map:
  "list_all2 (\<lambda>x y. p y = Ok (b x)) xs ys \<Longrightarrow> any_res p ys = Ok (\<exists>x \<in> set xs. b x)"
  by (induction rule: list_all2_induct) auto

lemma all_res_map:
  "list_all2 (\<lambda>x y. p y = Ok (b x)) xs ys \<Longrightarrow> all_res p ys = Ok (\<forall>x \<in> set xs. b x)"
  by (induction rule: list_all2_induct) auto

section \<open>Validation\<close>

definition valid_cond :: "string \<Rightarrow> string option \<Rightarrow> string option \<Rightarrow> bool" where
  "valid_cond tid st oc \<longleftrightarrow>
     tid \<noteq> '''' \<and> (st \<noteq> None \<or> oc \<noteq> None)
       \<and> (\<forall>s. st = Some s \<longrightarrow> trim_space s \<noteq> []) \<and> (\<forall>s. oc = Some s \<longrightarrow> trim_space s \<noteq> [])"

fun valid_expr :: "UnlockExpression \<Rightarrow> bool" where
  "valid_expr (UnlockExpression anyOf allOf tid nid st oc) \<longleftrightarrow>
     (anyOf \<noteq> [] \<and> allOf = [] \<and> tid = '''' \<and> st = None \<and> oc = None \<and> (\<forall>e \<in> set anyOf. valid_expr e)) \<or>
     (anyOf = [] \<and> allOf \<noteq> [] \<and> tid = '''' \<and> st = None \<and> oc = None \<and> (\<forall>e \<in> set allOf. valid_expr e)) \<or>
     (anyOf = [] \<and> allOf = [] \<and> valid_cond tid st oc)"

lemma validateCondition_Ok [simp]:
  "validateCondition c path = Ok () \<longleftrightarrow> valid_cond (uc_NodeTemplateID c) (uc_State c) (uc_Outcome c)"
  by (auto simp: validateCondition_def valid_cond_def split: option.splits)

lemma validateExpression_Ok:
  "validateExpression e path = Ok () \<longleftrightarrow> valid_expr e"
  "validateChildren field i es path = Ok () \<longleftrightarrow> (\<forall>e \<in> set es. valid_expr e)"
proof (induction e path and field i es path rule: validateExpression_validateChildren.induct)
  case (1 anyOf allOf tid nid st oc path)
  then show ?case
    by (cases "anyOf = []"; cases "allOf = []")
      (auto simp: definedCount_def hasLeaf_def Let_def valid_cond_def)
next
  case (2 field i path)
  then show ?case by simp
next
  case (3 field i child rest path)
  then show ?case by (cases "validateExpression child (index_path path field i)") (auto simp: res_simps)
qed

lemma validateConditions_Ok:
  "validateConditions i j cs = Ok () \<longleftrightarrow>
     (\<forall>c \<in> set cs. valid_cond (uc_NodeTemplateID c) (uc_State c) (uc_Outcome c))"
  by (induction cs arbitrary: j) (auto simp: res_simps)

lemma validateGroups_Ok:
  "validateGroups i gs = Ok () \<longleftrightarrow>
     (\<forall>g \<in> set gs. gAllOf g \<noteq> [] \<and>
        (\<forall>c \<in> set (gAllOf g). valid_cond (uc_NodeTemplateID c) (uc_State c) (uc_Outcome c)))"
  by (induction gs arbitrary: i) (auto simp: res_simps validateConditions_Ok)

lemma validateCondition_not_Panic [simp]: "validateCondition c path \<noteq> Panic"
  by (auto simp: validateCondition_def)

lemma validateExpression_not_Panic:
  "validateExpression e path \<noteq> Panic"
  "validateChildren field i es path \<noteq> Panic"
proof (induction e path and field i es path rule: validateExpression_validateChildren.induct)
  case (1 anyOf allOf tid nid st oc path)
  then show ?case by (auto simp: Let_def)
next
  case (2 field i path)
  then show ?case by simp
next
  case (3 field i child rest path)
  then show ?case by (auto simp: res_simps)
qed

lemma validateGroups_not_Panic: "validateGroups i gs \<noteq> Panic"
proof -
  have "validateConditions i j cs \<noteq> Panic" for i j cs
    by (induction cs arbitrary: j) (auto simp: res_simps)
  then show ?thesis by (induction gs arbitrary: i) (auto simp: res_simps)
qed

lemma Validate_not_Panic: "Validate uc \<noteq> Panic"
  by (auto simp: Validate_def validateExpression_not_Panic validateGroups_not_Panic split: option.splits)

section \<open>Resolution and evaluation\<close>

lemma resolveTemplate_Ok [simp]: "resolveTemplate m tid = Ok nid \<longleftrightarrow> map_get m tid = Some nid"
  by (auto simp: resolveTemplate_def split: option.splits)

lemma resolveTemplate_ok: "is_ok (resolveTemplate m tid) \<longleftrightarrow> map_get m tid \<noteq> None"
  by (auto simp: resolveTemplate_def split: option.splits)

lemma resolveTemplate_not_Panic [simp]: "resolveTemplate m tid \<noteq> Panic"
  by (auto simp: resolveTemplate_def split: option.splits)

lemma evaluateCondition_resolved:
  assumes "map_get m tid = Some nid"
  shows "evaluateCondition \<lparr>uc_NodeTemplateID = tid', uc_NodeID = Some nid, uc_State = st, uc_Outcome = oc\<rparr> nodeMap
     = Ok (cond_holds (instance_view m nodeMap) tid st oc)"
  using assms
  by (auto simp: evaluateCondition_def cond_holds_def instance_view_def split: option.splits)

lemma evaluate_resolved_expr:
  "valid_expr e \<Longrightarrow> resolveExpressionToInstanceIDs e m = Ok e' \<Longrightarrow>
   evaluateExpression e' nodeMap = Ok (expr_holds (instance_view m nodeMap) e)"
proof (induction e arbitrary: e' rule: valid_expr.induct)
  case (1 anyOf allOf tid nid st oc)
  let ?h = "expr_holds (instance_view m nodeMap)"
  have IH: "list_all2 (\<lambda>x y. evaluateExpression y nodeMap = Ok (?h x)) es es'"
    if "mapM_res (\<lambda>c. resolveExpressionToInstanceIDs c m) es = Ok es'" and "\<forall>x \<in> set es. valid_expr x"
      and "set es \<subseteq> set anyOf \<or> set es \<subseteq> set allOf" for es es'
    using that(1) unfolding mapM_res_Ok_iff
  proof (rule list.rel_mono_strong)
    fix x y assume x: "x \<in> set es" and r: "resolveExpressionToInstanceIDs x m = Ok y"
    from x that(2) have v: "valid_expr x" by blast
    from x that(3) consider "x \<in> set anyOf" | "x \<in> set allOf" by blast
    then show "evaluateExpression y nodeMap = Ok (?h x)"
      by cases (rule "1.IH"(1) [OF _ v r] "1.IH"(2) [OF _ v r], assumption)+
  qed
  obtain anyOf' allOf' nid' where
    any: "mapM_res (\<lambda>c. resolveExpressionToInstanceIDs c m) anyOf = Ok anyOf'" and
    all: "mapM_res (\<lambda>c. resolveExpressionToInstanceIDs c m) allOf = Ok allOf'" and
    e': "e' = UnlockExpression anyOf' allOf' tid nid' st oc" and
    nid': "tid \<noteq> '''' \<Longrightarrow> \<exists>n. map_get m tid = Some n \<and> nid' = Some n"
    using "1.prems"(2) by (auto simp: res_simps split: if_splits)
  have len: "anyOf' = [] \<longleftrightarrow> anyOf = []" "allOf' = [] \<longleftrightarrow> allOf = []"
    using any all by (auto simp: mapM_res_Ok_iff list_all2_Nil list_all2_Nil2)
  consider (any) "anyOf \<noteq> []" "allOf = []" "\<forall>x \<in> set anyOf. valid_expr x"
    | (all) "anyOf = []" "allOf \<noteq> []" "\<forall>x \<in> set allOf. valid_expr x"
    | (leaf) "anyOf = []" "allOf = []" "tid \<noteq> ''''"
    using "1.prems"(1) by (auto simp: valid_cond_def)
  then show ?case
  proof cases
    case any
    with IH [OF \<open>mapM_res _ anyOf = _\<close>] len e' show ?thesis by (simp add: any_res_map)
  next
    case all
    with IH [OF \<open>mapM_res _ allOf = _\<close>] len e' show ?thesis by (simp add: all_res_map)
  next
    case leaf
    with nid' len e' show ?thesis by (auto simp: evaluateCondition_resolved)
  qed
qed

lemma evaluate_resolved_groups:
  assumes "mapM_res (resolveGroup m) gs = Ok gs'"
  shows "any_res (\<lambda>g. evaluateGroup g nodeMap) gs' =
     Ok (\<exists>g \<in> set gs. \<forall>c \<in> set (gAllOf g).
           cond_holds (instance_view m nodeMap) (uc_NodeTemplateID c) (uc_State c) (uc_Outcome c))"
proof (rule any_res_map)
  have grp: "evaluateGroup g' nodeMap = Ok (\<forall>c \<in> set (gAllOf g).
      cond_holds (instance_view m nodeMap) (uc_NodeTemplateID c) (uc_State c) (uc_Outcome c))"
    if g: "resolveGroup m g = Ok g'" for g g'
  proof -
    from g obtain cs' where cs': "g' = UnlockGroup cs'"
      and cs: "list_all2 (\<lambda>c c'. resolveCondition m c = Ok c') (gAllOf g) cs'"
      by (auto simp: resolveGroup_def res_simps mapM_res_Ok_iff)
    have "evaluateCondition c' nodeMap =
        Ok (cond_holds (instance_view m nodeMap) (uc_NodeTemplateID c) (uc_State c) (uc_Outcome c))"
      if "resolveCondition m c = Ok c'" for c c'
    proof -
      from that obtain nid where "map_get m (uc_NodeTemplateID c) = Some nid" "c' = c\<lparr>uc_NodeID := Some nid\<rparr>"
        by (auto simp: resolveCondition_def res_simps)
      then show ?thesis by (cases c) (simp add: evaluateCondition_resolved)
    qed
    with cs show ?thesis
      unfolding evaluateGroup_def cs' by (auto intro!: all_res_map elim: list_all2_mono)
  qed
  from assms show "list_all2 (\<lambda>g g'. evaluateGroup g' nodeMap = Ok (\<forall>c \<in> set (gAllOf g).
      cond_holds (instance_view m nodeMap) (uc_NodeTemplateID c) (uc_State c) (uc_Outcome c))) gs gs'"
    unfolding mapM_res_Ok_iff by (rule list_all2_mono) (rule grp)
qed


lemma bind_res_ok: "is_ok (bind_res r f) \<longleftrightarrow> (\<exists>v. r = Ok v \<and> is_ok (f v))"
  by (cases r) auto

lemma resolve_expr_ok:
  "is_ok (resolveExpressionToInstanceIDs e m) \<longleftrightarrow> expr_templates e \<subseteq> dom (map_get m)"
proof (induction e rule: expr_templates.induct)
  case (1 anyOf allOf tid nid st oc)
  let ?f = "\<lambda>c. resolveExpressionToInstanceIDs c m"
  have any: "is_ok (mapM_res ?f anyOf) \<longleftrightarrow> (\<Union>e \<in> set anyOf. expr_templates e) \<subseteq> dom (map_get m)"
    using "1.IH"(1) by (simp add: mapM_res_ok UN_subset_iff)
  have all: "is_ok (mapM_res ?f allOf) \<longleftrightarrow> (\<Union>e \<in> set allOf. expr_templates e) \<subseteq> dom (map_get m)"
    using "1.IH"(2) by (simp add: mapM_res_ok UN_subset_iff)
  have "is_ok (resolveExpressionToInstanceIDs (UnlockExpression anyOf allOf tid nid st oc) m) \<longleftrightarrow>
      is_ok (mapM_res ?f anyOf) \<and> is_ok (mapM_res ?f allOf) \<and> (tid = '''' \<or> tid \<in> dom (map_get m))"
    by (cases "mapM_res ?f anyOf"; cases "mapM_res ?f allOf"; cases "tid = ''''")
      (auto simp: bind_res_ok)
  then show ?case unfolding any all by (simp add: Un_subset_iff)
qed

lemma resolve_expr_not_Panic: "resolveExpressionToInstanceIDs e m \<noteq> Panic"
proof (induction e rule: expr_templates.induct)
  case (1 anyOf allOf tid nid st oc)
  then have "mapM_res (\<lambda>c. resolveExpressionToInstanceIDs c m) anyOf \<noteq> Panic"
    "mapM_res (\<lambda>c. resolveExpressionToInstanceIDs c m) allOf \<noteq> Panic"
    by (simp_all add: mapM_res_not_Panic)
  then show ?case by (auto simp: res_simps)
qed

lemma resolve_groups_ok:
  "is_ok (mapM_res (resolveGroup m) gs) \<longleftrightarrow>
     (\<Union>g \<in> set gs. uc_NodeTemplateID ` set (gAllOf g)) \<subseteq> dom (map_get m)"
  by (auto simp: mapM_res_ok resolveGroup_def bind_res_ok resolveCondition_def resolveTemplate_ok
      is_ok_iff [symmetric] domIff)

lemma resolve_groups_not_Panic: "mapM_res (resolveGroup m) gs \<noteq> Panic"
proof -
  have "resolveCondition m c \<noteq> Panic" for c by (simp add: resolveCondition_def res_simps)
  then have "resolveGroup m g \<noteq> Panic" for g
    by (simp add: resolveGroup_def res_simps mapM_res_not_Panic)
  then show ?thesis by (simp add: mapM_res_not_Panic)
qed

lemma Validate_expr: "Validate uc = Ok () \<Longrightarrow> cExpression uc = Some e \<Longrightarrow> valid_expr e"
  by (auto simp: Validate_def validateExpression_Ok split: if_splits)

lemma resolve_spec:
  assumes "ResolveToInstanceIDs uc m = Ok uc'"
  shows "cEvaluate uc' nodeMap = Ok (config_holds (instance_view m nodeMap) uc)"
proof (cases "cExpression uc")
  case None
  with assms show ?thesis
    by (auto simp: ResolveToInstanceIDs_def res_simps cEvaluate_def config_holds_def evaluate_resolved_groups)
next
  case (Some e)
  with assms have "valid_expr e"
    by (auto simp: ResolveToInstanceIDs_def res_simps intro: Validate_expr)
  with assms Some show ?thesis
    by (auto simp: ResolveToInstanceIDs_def res_simps cEvaluate_def config_holds_def evaluate_resolved_expr)
qed

section \<open>Properties\<close>

text \<open>
  C4: an unlock configuration that was resolved to instance ids evaluates, without a panic, to the
  truth value of the boolean formula it spells over the state and outcome of the instances of its
  templates (groups: OR of ANDs; expressions: nested anyOf/allOf).
\<close>

theorem unlock_evaluates_formula:
  assumes "ResolveToInstanceIDs uc templateToNodeID = Ok resolved"
  shows "cEvaluate resolved nodeMap = Ok (config_holds (instance_view templateToNodeID nodeMap) uc)"
  using assms by (rule resolve_spec)

theorem unlock_evaluates_formula_witness:
  "cEvaluate
     (UnlockConfig [] (Some (UnlockExpression
        [UnlockExpression [] [] ''t1'' (Some ''n1'') (Some ''COMPLETED'') None,
         UnlockExpression [] [] ''t2'' (Some ''n2'') None (Some ''APPROVED'')] [] '''' None None None)))
     [(''n1'', \<lparr>n_ID = ''n1'', n_WorkflowID = ''w'', n_WorkflowNodeTemplateID = ''t1'', n_State = READY,
        n_ExtendedState = None, n_Outcome = None, n_DependsOn = [], n_UnlockConfiguration = None\<rparr>),
      (''n2'', \<lparr>n_ID = ''n2'', n_WorkflowID = ''w'', n_WorkflowNodeTemplateID = ''t2'', n_State = COMPLETED,
        n_ExtendedState = None, n_Outcome = Some ''APPROVED'', n_DependsOn = [], n_UnlockConfiguration = None\<rparr>)]
   = Ok True"
  by (subst unlock_evaluates_formula [where templateToNodeID = "[(''t1'', ''n1''), (''t2'', ''n2'')]"
        and uc = "UnlockConfig [] (Some (UnlockExpression
          [UnlockExpression [] [] ''t1'' None (Some ''COMPLETED'') None,
           UnlockExpression [] [] ''t2'' None None (Some ''APPROVED'')] [] '''' None None None))"])
    (simp_all add: ResolveToInstanceIDs_def Validate_def definedCount_def hasLeaf_def Let_def validateCondition_def
      trim_space_def is_space_def resolveTemplate_def config_holds_def cond_holds_def instance_view_def)

text \<open>
  \<open>ResolveToInstanceIDs\<close> never panics and succeeds exactly on the configurations that
  \<open>Validate\<close> accepts and whose template ids all have an instance.
\<close>

theorem unlock_resolve_succeeds_iff:
  "ResolveToInstanceIDs uc templateToNodeID \<noteq> Panic \<and>
   (is_ok (ResolveToInstanceIDs uc templateToNodeID) \<longleftrightarrow>
      is_ok (Validate uc) \<and> config_templates uc \<subseteq> dom (map_get templateToNodeID))"
proof (cases "Validate uc")
  case (Ok u)
  then show ?thesis
    by (cases "cExpression uc")
      (auto simp: ResolveToInstanceIDs_def bind_res_ok res_simps config_templates_def resolve_groups_not_Panic
        resolve_expr_not_Panic resolve_groups_ok [symmetric] resolve_expr_ok [symmetric] is_ok_iff)
next
  case (Err e)
  then show ?thesis by (simp add: ResolveToInstanceIDs_def)
next
  case Panic
  then show ?thesis using Validate_not_Panic by blast
qed

end
