(* ===== verification/WorkflowNodes.thy ===== *)
theory WorkflowNodes
  imports WorkflowModel "HOL-Library.Multiset"
begin

text \<open>
  The workflow tables and the repository of workflow nodes:
  \<open>backend/internal/workflow/service/workflow\_node\_service.go\<close> with the tables it works on, and the
  interface \<open>WorkflowNodeRepository\<close> of \<open>manager/manager.go\<close> as a record of operations with a locale
  of the laws its clients use. Every database call takes one tick; the environment says which
  calls fail, which ids \<open>uuid.NewRandom\<close> gives and in which order \<open>Find\<close> returns rows.
  A primary key that is already there makes \<open>Create\<close> fail.
\<close>

section \<open>The database\<close>

record Workflow =
  wf_ID :: string
  wf_Status :: string
  wf_GlobalContext :: "obj option"
  wf_EndNodeID :: "string option"

record WorkflowDB =
  db_nodes :: "WorkflowNode list"
  db_workflows :: "Workflow list"
  db_node_templates :: "WorkflowNodeTemplate list"
  db_tick :: nat

record DBEnv =
  dbFault :: "nat \<Rightarrow> go_error option"
  newUUID :: "nat \<Rightarrow> nat \<Rightarrow> string"
  rowRank :: "nat \<Rightarrow> string \<Rightarrow> nat"

text \<open>One statement sent to the database: it may fail, and it takes a tick.\<close>

definition db_call :: "DBEnv \<Rightarrow> ('z WorkflowDB_scheme, 'a) op \<Rightarrow> ('z WorkflowDB_scheme, 'a) op" where
  "db_call env stmt db =
     (let db' = db\<lparr>db_tick := Suc (db_tick db)\<rparr> in
      case dbFault env (db_tick db) of
        Some e \<Rightarrow> (Err e, db')
      | None \<Rightarrow> stmt db')"

text \<open>The rows that satisfy a condition, in the order this call returns them.\<close>

definition db_find :: "DBEnv \<Rightarrow> nat \<Rightarrow> ('a \<Rightarrow> string) \<Rightarrow> ('a \<Rightarrow> bool) \<Rightarrow> 'a list \<Rightarrow> 'a list" where
  "db_find env t key p rows = sort_key (\<lambda>r. rowRank env t (key r)) (filter p rows)"

section \<open>workflow\_node\_service.go\<close>

definition GetWorkflowNodeByIDInTx :: "DBEnv \<Rightarrow> string \<Rightarrow> ('z WorkflowDB_scheme, WorkflowNode) op" where
  "GetWorkflowNodeByIDInTx env nodeID =
     wrapS ''failed to retrieve workflow node in transaction'' []
       (db_call env (\<lambda>db. (db_first (\<lambda>n. n_ID n = nodeID) (db_nodes db), db)))"

definition GetWorkflowNodesByIDsInTx :: "DBEnv \<Rightarrow> string list \<Rightarrow> ('z WorkflowDB_scheme, WorkflowNode list) op" where
  "GetWorkflowNodesByIDsInTx env nodeIDs =
     wrapS ''failed to retrieve workflow nodes in transaction'' []
       (db_call env (\<lambda>db. (Ok (db_find env (db_tick db) n_ID (\<lambda>n. n_ID n \<in> set nodeIDs) (db_nodes db)), db)))"

text \<open>\<open>BaseModel.BeforeCreate\<close> gives every created node a fresh random id.\<close>

fun BeforeCreate_nodes :: "DBEnv \<Rightarrow> nat \<Rightarrow> nat \<Rightarrow> WorkflowNode list \<Rightarrow> WorkflowNode list" where
  "BeforeCreate_nodes env t i [] = []"
| "BeforeCreate_nodes env t i (n # ns) = n\<lparr>n_ID := newUUID env t i\<rparr> # BeforeCreate_nodes env t (Suc i) ns"

definition CreateWorkflowNodesInTx ::
    "DBEnv \<Rightarrow> WorkflowNode list \<Rightarrow> ('z WorkflowDB_scheme, WorkflowNode list) op" where
  "CreateWorkflowNodesInTx env nodes =
     (if nodes = [] then returnS []
      else wrapS ''failed to create workflow nodes in transaction'' []
        (db_call env (\<lambda>db.
           let created = BeforeCreate_nodes env (db_tick db) 0 nodes in
           if distinct (map n_ID (db_nodes db @ created))
           then (Ok created, db\<lparr>db_nodes := db_nodes db @ created\<rparr>)
           else (Err (External ''duplicate key value violates unique constraint''), db))))"

text \<open>The fields the update loop assigns, and \<open>Save\<close> of the loaded record.\<close>

definition set_fields :: "WorkflowNode \<Rightarrow> WorkflowNode \<Rightarrow> WorkflowNode" where
  "set_fields node existingNode =
     existingNode\<lparr>n_State := n_State node, n_ExtendedState := n_ExtendedState node, n_Outcome := n_Outcome node,
       n_DependsOn := n_DependsOn node, n_UnlockConfiguration := n_UnlockConfiguration node\<rparr>"

definition save_node :: "WorkflowNode \<Rightarrow> WorkflowNode list \<Rightarrow> WorkflowNode list" where
  "save_node node rows = update_where (\<lambda>r. n_ID r = n_ID node) (\<lambda>_. node) rows"

definition update_one :: "DBEnv \<Rightarrow> WorkflowNode \<Rightarrow> ('z WorkflowDB_scheme, unit) op" where
  "update_one env node =
     bindS (wrapS ''failed to find workflow node for update'' [n_ID node]
         (db_call env (\<lambda>db. (db_first (\<lambda>n. n_ID n = n_ID node) (db_nodes db), db))))
       (\<lambda>existingNode.
         wrapS ''failed to update workflow node in transaction'' [n_ID node]
           (db_call env (\<lambda>db. (Ok (), db\<lparr>db_nodes := save_node (set_fields node existingNode) (db_nodes db)\<rparr>))))"

definition UpdateWorkflowNodesInTx :: "DBEnv \<Rightarrow> WorkflowNode list \<Rightarrow> ('z WorkflowDB_scheme, unit) op" where
  "UpdateWorkflowNodesInTx env nodes = (if nodes = [] then returnS () else mapM_S (update_one env) nodes)"

definition GetWorkflowNodesByWorkflowIDInTx ::
    "DBEnv \<Rightarrow> string \<Rightarrow> ('z WorkflowDB_scheme, WorkflowNode list) op" where
  "GetWorkflowNodesByWorkflowIDInTx env workflowID =
     wrapS ''failed to retrieve workflow nodes for workflow in transaction'' [workflowID]
       (db_call env (\<lambda>db. (Ok (db_find env (db_tick db) n_ID (\<lambda>n. n_WorkflowID n = workflowID) (db_nodes db)), db)))"

definition GetWorkflowNodesByWorkflowIDsInTx ::
    "DBEnv \<Rightarrow> string list \<Rightarrow> ('z WorkflowDB_scheme, WorkflowNode list) op" where
  "GetWorkflowNodesByWorkflowIDsInTx env workflowIDs =
     (if workflowIDs = [] then returnS []
      else wrapS ''failed to retrieve workflow nodes for workflows in transaction'' [show_nat (length workflowIDs)]
        (db_call env (\<lambda>db.
           (Ok (db_find env (db_tick db) n_ID (\<lambda>n. n_WorkflowID n \<in> set workflowIDs) (db_nodes db)), db))))"

definition CountIncompleteNodesByWorkflowID :: "DBEnv \<Rightarrow> string \<Rightarrow> ('z WorkflowDB_scheme, nat) op" where
  "CountIncompleteNodesByWorkflowID env workflowID =
     wrapS ''failed to count incomplete nodes for workflow'' [workflowID]
       (db_call env (\<lambda>db.
         (Ok (length (filter (\<lambda>n. n_WorkflowID n = workflowID \<and> n_State n \<noteq> COMPLETED) (db_nodes db))), db)))"

section \<open>The repository interface\<close>

record 's WorkflowNodeRepository =
  repo_GetByID :: "string \<Rightarrow> ('s, WorkflowNode) op"
  repo_GetByIDs :: "string list \<Rightarrow> ('s, WorkflowNode list) op"
  repo_Create :: "WorkflowNode list \<Rightarrow> ('s, WorkflowNode list) op"
  repo_Update :: "WorkflowNode list \<Rightarrow> ('s, unit) op"
  repo_GetByWorkflowID :: "string \<Rightarrow> ('s, WorkflowNode list) op"
  repo_GetByWorkflowIDs :: "string list \<Rightarrow> ('s, WorkflowNode list) op"
  repo_CountIncomplete :: "string \<Rightarrow> ('s, nat) op"

definition NewWorkflowNodeService :: "DBEnv \<Rightarrow> 'z WorkflowDB_scheme WorkflowNodeRepository" where
  "NewWorkflowNodeService env =
     \<lparr>repo_GetByID = GetWorkflowNodeByIDInTx env,
      repo_GetByIDs = GetWorkflowNodesByIDsInTx env,
      repo_Create = CreateWorkflowNodesInTx env,
      repo_Update = UpdateWorkflowNodesInTx env,
      repo_GetByWorkflowID = GetWorkflowNodesByWorkflowIDInTx env,
      repo_GetByWorkflowIDs = GetWorkflowNodesByWorkflowIDsInTx env,
      repo_CountIncomplete = CountIncompleteNodesByWorkflowID env\<rparr>"

text \<open>What a batch of updates does to the rows, one node after the other.\<close>

definition update_row :: "WorkflowNode \<Rightarrow> WorkflowNode list \<Rightarrow> WorkflowNode list" where
  "update_row node rows = update_where (\<lambda>r. n_ID r = n_ID node) (set_fields node) rows"

definition update_rows :: "WorkflowNode list \<Rightarrow> WorkflowNode list \<Rightarrow> WorkflowNode list" where
  "update_rows nodes rows = fold update_row nodes rows"

locale node_repository =
  fixes repo :: "'s WorkflowNodeRepository"
    and rows :: "'s \<Rightarrow> WorkflowNode list"
    and inv :: "'s \<Rightarrow> bool"
  assumes ids_distinct: "inv s \<Longrightarrow> distinct (map n_ID (rows s))"
    and get_by_id: "inv s \<Longrightarrow> repo_GetByID repo i s = (Ok n, s') \<Longrightarrow>
          inv s' \<and> rows s' = rows s \<and> n \<in> set (rows s) \<and> n_ID n = i"
    and get_by_workflow: "inv s \<Longrightarrow> repo_GetByWorkflowID repo w s = (Ok ns, s') \<Longrightarrow>
          inv s' \<and> rows s' = rows s \<and> mset ns = mset (filter (\<lambda>n. n_WorkflowID n = w) (rows s))"
    and create: "inv s \<Longrightarrow> repo_Create repo ns s = (Ok ns', s') \<Longrightarrow>
          inv s' \<and> rows s' = rows s @ ns' \<and> list_all2 (\<lambda>n n'. n' = n\<lparr>n_ID := n_ID n'\<rparr>) ns ns'"
    and update: "inv s \<Longrightarrow> repo_Update repo ns s = (Ok (), s') \<Longrightarrow>
          inv s' \<and> rows s' = update_rows ns (rows s) \<and> n_ID ` set ns \<subseteq> n_ID ` set (rows s)"

section \<open>The service implements the interface\<close>

lemma db_call_Ok [op_simps]:
  "db_call env stmt db = (Ok v, db') \<longleftrightarrow>
     dbFault env (db_tick db) = None \<and> stmt (db\<lparr>db_tick := Suc (db_tick db)\<rparr>) = (Ok v, db')"
  by (auto simp: db_call_def Let_def split: option.splits)

lemma db_first_Ok: "db_first p rows = Ok r \<Longrightarrow> r \<in> set rows \<and> p r"
  by (auto simp: db_first_def split: option.splits dest: find_Some_mem)

lemma mset_db_find [simp]: "mset (db_find env t key p rows) = mset (filter p rows)"
  by (simp add: db_find_def)

lemma set_fields_ID [simp]: "n_ID (set_fields a b) = n_ID b"
  by (simp add: set_fields_def)

lemma update_row_IDs [simp]: "map n_ID (update_row n rows) = map n_ID rows"
  by (simp add: update_row_def update_where_map_same)

lemma update_rows_IDs [simp]: "map n_ID (update_rows ns rows) = map n_ID rows"
  unfolding update_rows_def by (induction ns arbitrary: rows) auto

lemma save_node_update_row:
  assumes "distinct (map n_ID rows)" and "e \<in> set rows" and "n_ID e = n_ID n"
  shows "save_node (set_fields n e) rows = update_row n rows"
proof -
  have "set_fields n e = set_fields n r" if "r \<in> set rows" and "n_ID r = n_ID n" for r
    using that assms by (metis (no_types, lifting) distinct_map inj_on_def)
  then show ?thesis
    using assms(3) by (auto simp: save_node_def update_row_def update_where_def)
qed

lemma update_one_Ok:
  assumes "distinct (map n_ID (db_nodes db))" and "update_one env n db = (Ok (), db')"
  shows "db_nodes db' = update_row n (db_nodes db) \<and> n_ID n \<in> n_ID ` set (db_nodes db)
     \<and> db_workflows db' = db_workflows db \<and> db_node_templates db' = db_node_templates db"
proof -
  from assms(2) obtain e where e: "db_first (\<lambda>r. n_ID r = n_ID n) (db_nodes db) = Ok e"
    and db': "db_nodes db' = save_node (set_fields n e) (db_nodes db)" "db_workflows db' = db_workflows db"
      "db_node_templates db' = db_node_templates db"
    by (auto simp: update_one_def op_simps)
  from db_first_Ok [OF e] have "e \<in> set (db_nodes db)" "n_ID e = n_ID n" by auto
  with assms(1) db' show ?thesis by (auto simp: save_node_update_row image_iff intro: bexI [of _ e])
qed

lemma UpdateWorkflowNodesInTx_Ok:
  assumes "distinct (map n_ID (db_nodes db))" and "UpdateWorkflowNodesInTx env ns db = (Ok (), db')"
  shows "db_nodes db' = update_rows ns (db_nodes db) \<and> n_ID ` set ns \<subseteq> n_ID ` set (db_nodes db)
     \<and> db_workflows db' = db_workflows db \<and> db_node_templates db' = db_node_templates db"
proof -
  have "mapM_S (update_one env) ns db = (Ok (), db')"
    using assms(2) by (auto simp: UpdateWorkflowNodesInTx_def split: if_splits)
  then show ?thesis
    using assms(1)
  proof (induction ns arbitrary: db)
    case Nil
    then show ?case by (simp add: op_simps update_rows_def)
  next
    case (Cons n ns)
    then obtain db1 where u: "update_one env n db = (Ok (), db1)" and r: "mapM_S (update_one env) ns db1 = (Ok (), db')"
      by (auto simp: op_simps)
    note one = update_one_Ok [OF Cons.prems(2) u]
    then have ids: "map n_ID (db_nodes db1) = map n_ID (db_nodes db)" by simp
    then have "n_ID ` set (db_nodes db1) = n_ID ` set (db_nodes db)" by (metis image_set)
    with Cons.IH [OF r] one ids Cons.prems(2) show ?case by (auto simp: update_rows_def)
  qed
qed

lemma BeforeCreate_nodes_all2:
  "list_all2 (\<lambda>n n'. n' = n\<lparr>n_ID := n_ID n'\<rparr>) ns (BeforeCreate_nodes env t i ns)"
  by (induction ns arbitrary: i) auto

interpretation node_service: node_repository "NewWorkflowNodeService env" db_nodes
    "\<lambda>db. distinct (map n_ID (db_nodes db))"
proof (unfold_locales, goal_cases)
  case (1 s)
  then show ?case by simp
next
  case (2 s i n s')
  then show ?case
    by (auto simp: NewWorkflowNodeService_def GetWorkflowNodeByIDInTx_def op_simps dest: db_first_Ok)
next
  case (3 s w ns s')
  then show ?case
    by (auto simp: NewWorkflowNodeService_def GetWorkflowNodesByWorkflowIDInTx_def op_simps)
next
  case (4 s ns ns' s')
  then show ?case
    by (auto simp: NewWorkflowNodeService_def CreateWorkflowNodesInTx_def op_simps Let_def BeforeCreate_nodes_all2
        split: if_splits)
next
  case (5 s ns s')
  then have "UpdateWorkflowNodesInTx env ns s = (Ok (), s')" by (simp add: NewWorkflowNodeService_def)
  from UpdateWorkflowNodesInTx_Ok [OF 5(1) this] 5(1) show ?case by (simp del: map_map)
qed

end
