(* ===== verification/WorkflowStateMachine.thy ===== *)
theory WorkflowStateMachine
  imports WorkflowNodes
begin

text \<open>
  The node state machine of the workflow engine, \<open>backend/internal/workflow/manager/state\_machine.go\<close>,
  over the repository interface of \<open>WorkflowNodes\<close>. The functions that receive a \<open>*WorkflowNode\<close>
  assign its fields before they write it; the callers never read it afterwards, so the model
  returns the database state only. A nil node is \<open>None\<close>.
\<close>

section \<open>Types\<close>

record StateTransitionResult =
  UpdatedNodes :: "WorkflowNode list"
  NewReadyNodes :: "WorkflowNode list"
  WorkflowFinished :: bool

record WorkflowCompletionConfig =
  EndNodeID :: "string option"

type_synonym node_map = "(string, WorkflowNode) gomap"

section \<open>Helpers\<close>

definition canTransitionToCompleted :: "WorkflowNodeState \<Rightarrow> bool" where
  "canTransitionToCompleted currentState \<longleftrightarrow> currentState = READY \<or> currentState = IN_PROGRESS"

definition canTransitionToFailed :: "WorkflowNodeState \<Rightarrow> bool" where
  "canTransitionToFailed currentState \<longleftrightarrow> currentState = READY \<or> currentState = IN_PROGRESS"

definition canTransitionToInProgress :: "WorkflowNodeState \<Rightarrow> bool" where
  "canTransitionToInProgress currentState \<longleftrightarrow>
     currentState = READY \<or> currentState = FAILED \<or> currentState = IN_PROGRESS"

definition sortNodesByID :: "WorkflowNode list \<Rightarrow> WorkflowNode list" where
  "sortNodesByID nodes = sort_key n_ID nodes"

definition getSiblingNodes :: "'s WorkflowNodeRepository \<Rightarrow> WorkflowNode \<Rightarrow> ('s, WorkflowNode list) op" where
  "getSiblingNodes repo node = repo_GetByWorkflowID repo (n_WorkflowID node)"

fun build_map :: "WorkflowNode list \<Rightarrow> node_map \<Rightarrow> node_map" where
  "build_map [] m = m"
| "build_map (node # nodes) m = build_map nodes (map_put (n_ID node) node m)"

definition buildNodeStateMap :: "WorkflowNode list \<Rightarrow> node_map" where
  "buildNodeStateMap allNodes = build_map allNodes []"

fun deps_completed :: "string list \<Rightarrow> node_map \<Rightarrow> bool" where
  "deps_completed [] nodeMap = True"
| "deps_completed (depID # rest) nodeMap =
     (case map_get nodeMap depID of
        None \<Rightarrow> False
      | Some depNode \<Rightarrow> if n_State depNode \<noteq> COMPLETED then False else deps_completed rest nodeMap)"

definition areDependenciesMet :: "WorkflowNode \<Rightarrow> node_map \<Rightarrow> bool res" where
  "areDependenciesMet node nodeMap =
     (case n_UnlockConfiguration node of
        Some uc \<Rightarrow> cEvaluate uc nodeMap
      | None \<Rightarrow> Ok (deps_completed (n_DependsOn node) nodeMap))"

text \<open>The loop threads the map: a node unlocked earlier is seen as READY by the later ones.\<close>

fun unlockDependentNodes :: "WorkflowNode list \<Rightarrow> node_map \<Rightarrow> (WorkflowNode list \<times> node_map) res" where
  "unlockDependentNodes [] nodeStateMap = Ok ([], nodeStateMap)"
| "unlockDependentNodes (node # nodes) nodeStateMap =
     (if n_State node \<noteq> LOCKED then unlockDependentNodes nodes nodeStateMap
      else bind_res (areDependenciesMet node nodeStateMap) (\<lambda>met.
        if met then
          let node' = node\<lparr>n_State := READY\<rparr> in
          bind_res (unlockDependentNodes nodes (map_put (n_ID node') node' nodeStateMap))
            (\<lambda>(unlocked, m). Ok (node' # unlocked, m))
        else unlockDependentNodes nodes nodeStateMap))"

fun all_completed :: "WorkflowNode list \<Rightarrow> node_map \<Rightarrow> bool" where
  "all_completed [] nodeStateMap = True"
| "all_completed (node # nodes) nodeStateMap =
     (let state = (case map_get nodeStateMap (n_ID node) of Some current \<Rightarrow> n_State current | None \<Rightarrow> n_State node) in
      if state \<noteq> COMPLETED then False else all_completed nodes nodeStateMap)"

definition config_end_node :: "WorkflowCompletionConfig option \<Rightarrow> string option" where
  "config_end_node config = (case config of None \<Rightarrow> None | Some c \<Rightarrow> EndNodeID c)"

definition evaluateWorkflowCompletion ::
    "WorkflowNode list \<Rightarrow> node_map \<Rightarrow> WorkflowCompletionConfig option \<Rightarrow> bool" where
  "evaluateWorkflowCompletion allNodes nodeStateMap config =
     (case config_end_node config of
        Some endNodeID \<Rightarrow>
          (case map_get nodeStateMap endNodeID of
             None \<Rightarrow> False
           | Some endNode \<Rightarrow> n_State endNode = COMPLETED)
      | None \<Rightarrow> all_completed allNodes nodeStateMap)"

section \<open>TransitionToCompleted\<close>

text \<open>\<open>nodesToUpdate\<close> with \<open>updatedNodeIndex\<close>: the index of a node id in the list.\<close>

fun collect_unlocked ::
    "WorkflowNode list \<Rightarrow> WorkflowNode list \<Rightarrow> (string, nat) gomap \<Rightarrow> WorkflowNode list \<times> (string, nat) gomap" where
  "collect_unlocked [] nodesToUpdate updatedNodeIndex = (nodesToUpdate, updatedNodeIndex)"
| "collect_unlocked (u # us) nodesToUpdate updatedNodeIndex =
     (if map_get updatedNodeIndex (n_ID u) = None
      then collect_unlocked us (nodesToUpdate @ [u]) (map_put (n_ID u) (length nodesToUpdate) updatedNodeIndex)
      else collect_unlocked us nodesToUpdate updatedNodeIndex)"

definition complete_end_node ::
    "WorkflowCompletionConfig option \<Rightarrow> WorkflowNode list \<Rightarrow> (string, nat) gomap \<Rightarrow> node_map
       \<Rightarrow> WorkflowNode list \<times> node_map" where
  "complete_end_node cfg nodesToUpdate updatedNodeIndex nodeStateMap =
     (case config_end_node cfg of
        None \<Rightarrow> (nodesToUpdate, nodeStateMap)
      | Some endNodeID \<Rightarrow>
          (case map_get nodeStateMap endNodeID of
             None \<Rightarrow> (nodesToUpdate, nodeStateMap)
           | Some endNode \<Rightarrow>
               if n_State endNode = READY then
                 let endNode' = endNode\<lparr>n_State := COMPLETED\<rparr> in
                 (case map_get updatedNodeIndex endNodeID of
                    Some index \<Rightarrow> nodesToUpdate[index := endNode']
                  | None \<Rightarrow> nodesToUpdate @ [endNode'],
                  map_put endNodeID endNode' nodeStateMap)
               else (nodesToUpdate, nodeStateMap)))"

definition is_ready :: "node_map \<Rightarrow> string \<Rightarrow> bool" where
  "is_ready nodeStateMap i \<longleftrightarrow>
     (case map_get nodeStateMap i of None \<Rightarrow> False | Some n \<Rightarrow> n_State n = READY)"

text \<open>
  The part between reading the siblings and writing: the nodes to update, the new ready nodes
  and whether the workflow is finished.
\<close>

definition completed_plan ::
    "WorkflowNode \<Rightarrow> WorkflowNode list \<Rightarrow> WorkflowCompletionConfig option \<Rightarrow> StateTransitionResult res" where
  "completed_plan node allNodes cfg =
     (let nodeStateMap = map_put (n_ID node) node (buildNodeStateMap allNodes) in
      bind_res (unlockDependentNodes allNodes nodeStateMap) (\<lambda>(unlockedNodes, nodeStateMap1).
        let (nodesToUpdate1, updatedNodeIndex) = collect_unlocked unlockedNodes [node] [(n_ID node, 0)];
            (nodesToUpdate2, nodeStateMap2) = complete_end_node cfg nodesToUpdate1 updatedNodeIndex nodeStateMap1
        in Ok \<lparr>UpdatedNodes = sortNodesByID nodesToUpdate2,
               NewReadyNodes = filter (\<lambda>u. is_ready nodeStateMap2 (n_ID u)) unlockedNodes,
               WorkflowFinished = evaluateWorkflowCompletion allNodes nodeStateMap2 cfg\<rparr>))"

definition completed_node :: "WorkflowNode \<Rightarrow> UpdateWorkflowNodeDTO \<Rightarrow> WorkflowNode" where
  "completed_node node updateReq =
     node\<lparr>n_State := COMPLETED, n_ExtendedState := u_ExtendedState updateReq, n_Outcome := u_Outcome updateReq\<rparr>"

definition TransitionToCompleted ::
    "'s WorkflowNodeRepository \<Rightarrow> WorkflowNode option \<Rightarrow> UpdateWorkflowNodeDTO
       \<Rightarrow> WorkflowCompletionConfig option list \<Rightarrow> ('s, StateTransitionResult) op" where
  "TransitionToCompleted repo node0 updateReq completionConfig =
     (case node0 of
        None \<Rightarrow> failS (Errorf ''node cannot be nil'' [])
      | Some node \<Rightarrow>
          if n_State node = COMPLETED
            then returnS \<lparr>UpdatedNodes = [], NewReadyNodes = [], WorkflowFinished = False\<rparr>
          else if \<not> canTransitionToCompleted (n_State node)
            then failS (Errorf ''cannot transition node from state to COMPLETED'' [n_ID node, node_state_str (n_State node)])
          else
            let node' = completed_node node updateReq in
            bindS (wrapS ''failed to retrieve sibling workflow nodes'' [] (getSiblingNodes repo node')) (\<lambda>allNodes.
            let cfg = (case completionConfig of [] \<Rightarrow> None | c # cs \<Rightarrow> c) in
            bindS (liftS (completed_plan node' allNodes cfg)) (\<lambda>plan.
            bindS (wrapS ''failed to update workflow nodes'' [] (repo_Update repo (UpdatedNodes plan))) (\<lambda>_.
            returnS plan))))"

section \<open>TransitionToFailed, TransitionToInProgress\<close>

definition TransitionToFailed ::
    "'s WorkflowNodeRepository \<Rightarrow> WorkflowNode option \<Rightarrow> UpdateWorkflowNodeDTO \<Rightarrow> ('s, unit) op" where
  "TransitionToFailed repo node0 updateReq =
     (case node0 of
        None \<Rightarrow> failS (Errorf ''node cannot be nil'' [])
      | Some node \<Rightarrow>
          if n_State node = FAILED then returnS ()
          else if \<not> canTransitionToFailed (n_State node)
            then failS (Errorf ''cannot transition node from state to FAILED'' [n_ID node, node_state_str (n_State node)])
          else wrapS ''failed to update workflow node to FAILED state'' [n_ID node]
                 (repo_Update repo [node\<lparr>n_State := FAILED, n_ExtendedState := u_ExtendedState updateReq\<rparr>]))"

text \<open>
  \<open>updateReq.ExtendedState == node.ExtendedState\<close> compares two \<open>*string\<close>: they are equal when both are
  nil or both are the same pointer. \<open>same_ptr\<close> says whether two non-nil ones are one pointer; the
  engine loads the node from the database, so there it is false.
\<close>

definition ptr_eq :: "bool \<Rightarrow> string option \<Rightarrow> string option \<Rightarrow> bool" where
  "ptr_eq same_ptr p q \<longleftrightarrow> (p = None \<and> q = None) \<or> (p \<noteq> None \<and> q \<noteq> None \<and> same_ptr \<and> p = q)"

definition TransitionToInProgress ::
    "'s WorkflowNodeRepository \<Rightarrow> bool \<Rightarrow> WorkflowNode option \<Rightarrow> UpdateWorkflowNodeDTO \<Rightarrow> ('s, unit) op" where
  "TransitionToInProgress repo same_ptr node0 updateReq =
     (case node0 of
        None \<Rightarrow> failS (Errorf ''node cannot be nil'' [])
      | Some node \<Rightarrow>
          if ptr_eq same_ptr (u_ExtendedState updateReq) (n_ExtendedState node) \<and> n_State node = IN_PROGRESS
            then returnS ()
          else if \<not> canTransitionToInProgress (n_State node)
            then failS (Errorf ''cannot transition node from state to IN_PROGRESS'' [n_ID node, node_state_str (n_State node)])
          else wrapS ''failed to update workflow node to IN_PROGRESS state'' [n_ID node]
                 (repo_Update repo [node\<lparr>n_State := IN_PROGRESS, n_ExtendedState := u_ExtendedState updateReq\<rparr>]))"

section \<open>InitializeNodesFromTemplates\<close>

fun template_map :: "WorkflowNodeTemplate list \<Rightarrow> (string, WorkflowNodeTemplate) gomap \<Rightarrow> (string, WorkflowNodeTemplate) gomap" where
  "template_map [] m = m"
| "template_map (t # ts) m = template_map ts (map_put (t_ID t) t m)"

fun by_template :: "WorkflowNode list \<Rightarrow> node_map \<Rightarrow> node_map" where
  "by_template [] m = m"
| "by_template (n # ns) m = by_template ns (map_put (n_WorkflowNodeTemplateID n) n m)"

fun resolve_deps :: "string list \<Rightarrow> node_map \<Rightarrow> string list" where
  "resolve_deps [] m = []"
| "resolve_deps (tid # tids) m =
     (case map_get m tid of Some depNode \<Rightarrow> n_ID depNode # resolve_deps tids m | None \<Rightarrow> resolve_deps tids m)"

definition new_node :: "string \<Rightarrow> WorkflowNodeTemplate \<Rightarrow> WorkflowNode" where
  "new_node workflowID template =
     \<lparr>n_ID = '''', n_WorkflowID = workflowID, n_WorkflowNodeTemplateID = t_ID template, n_State = LOCKED,
      n_ExtendedState = None, n_Outcome = None, n_DependsOn = [], n_UnlockConfiguration = None\<rparr>"

text \<open>One iteration of the loop over the created nodes: the node as it is left in the slice.\<close>

definition init_node ::
    "node_map \<Rightarrow> (string, string) gomap \<Rightarrow> WorkflowNodeTemplate \<Rightarrow> WorkflowNode \<Rightarrow> WorkflowNode res" where
  "init_node nodeByTemplateID templateToNodeID template node =
     (let deps = resolve_deps (t_DependsOn template) nodeByTemplateID;
          node1 = node\<lparr>n_DependsOn := deps\<rparr> in
      bind_res (case t_UnlockConfiguration template of
                  None \<Rightarrow> Ok node1
                | Some uc \<Rightarrow>
                    bind_res (wrap_err ''failed to resolve unlock configuration for node template'' [t_ID template]
                        (ResolveToInstanceIDs uc templateToNodeID))
                      (\<lambda>resolved. Ok (node1\<lparr>n_UnlockConfiguration := Some resolved\<rparr>)))
        (\<lambda>node2. if deps = [] \<and> n_UnlockConfiguration node2 = None
                 then Ok (node2\<lparr>n_State := READY\<rparr>) else Ok node2))"

record init_acc =
  ia_created :: "WorkflowNode list"
  ia_toUpdate :: "WorkflowNode list"
  ia_newReady :: "WorkflowNode list"
  ia_endNodeID :: "string option"

fun init_loop ::
    "(string, WorkflowNodeTemplate) gomap \<Rightarrow> node_map \<Rightarrow> (string, string) gomap \<Rightarrow> WorkflowNode list
       \<Rightarrow> init_acc \<Rightarrow> init_acc res" where
  "init_loop templateMap nodeByTemplateID templateToNodeID [] acc = Ok acc"
| "init_loop templateMap nodeByTemplateID templateToNodeID (node # nodes) acc =
     (case map_get templateMap (n_WorkflowNodeTemplateID node) of
        None \<Rightarrow> Err (Errorf ''workflow node template not found'' [n_WorkflowNodeTemplateID node])
      | Some template \<Rightarrow>
          bind_res (init_node nodeByTemplateID templateToNodeID template node) (\<lambda>node'.
            let ready = (n_DependsOn node' = [] \<and> n_UnlockConfiguration node' = None);
                needsUpdate = (n_DependsOn node' \<noteq> [] \<or> n_UnlockConfiguration node' \<noteq> None \<or> ready)
            in init_loop templateMap nodeByTemplateID templateToNodeID nodes
                 \<lparr>ia_created = ia_created acc @ [node'],
                  ia_toUpdate = (if needsUpdate then ia_toUpdate acc @ [node'] else ia_toUpdate acc),
                  ia_newReady = (if ready then ia_newReady acc @ [node'] else ia_newReady acc),
                  ia_endNodeID = (if t_Type template = WorkFlowNodeTypeEndNode then Some (n_ID node)
                                  else ia_endNodeID acc)\<rparr>))"

definition InitializeNodesFromTemplates ::
    "'s WorkflowNodeRepository \<Rightarrow> string \<Rightarrow> WorkflowNodeTemplate list
       \<Rightarrow> ('s, WorkflowNode list \<times> WorkflowNode list \<times> string option) op" where
  "InitializeNodesFromTemplates repo workflowID nodeTemplates =
     (if nodeTemplates = [] then returnS ([], [], None)
      else
        bindS (wrapS ''failed to create workflow nodes'' []
            (repo_Create repo (map (new_node workflowID) nodeTemplates))) (\<lambda>createdNodes.
        let nodeByTemplateID = by_template createdNodes [];
            templateToNodeID = map (\<lambda>(tid, n). (tid, n_ID n)) nodeByTemplateID in
        bindS (liftS (init_loop (template_map nodeTemplates []) nodeByTemplateID templateToNodeID createdNodes
            \<lparr>ia_created = [], ia_toUpdate = [], ia_newReady = [], ia_endNodeID = None\<rparr>)) (\<lambda>acc.
        bindS (if ia_toUpdate acc \<noteq> []
               then wrapS ''failed to update workflow nodes with dependencies'' [] (repo_Update repo (ia_toUpdate acc))
               else returnS ()) (\<lambda>_.
        returnS (ia_created acc, ia_newReady acc, ia_endNodeID acc)))))"


section \<open>Maps of nodes\<close>

definition node_table :: "WorkflowNode list \<Rightarrow> string \<rightharpoonup> WorkflowNode" where
  "node_table ns = map_of (map (\<lambda>n. (n_ID n, n)) ns)"

lemma node_table_simps [simp]:
  "node_table [] = Map.empty"
  "node_table (n # ns) = (node_table ns)(n_ID n \<mapsto> n)"
  by (simp_all add: node_table_def)

lemma node_table_None: "node_table ns i = None \<longleftrightarrow> i \<notin> n_ID ` set ns"
  by (simp add: node_table_def map_of_eq_None_iff image_image)

lemma node_table_dom: "dom (node_table ns) = n_ID ` set ns"
  by (rule set_eqI) (metis domIff node_table_None)

lemma node_table_Some: "node_table ns i = Some n \<Longrightarrow> n \<in> set ns \<and> n_ID n = i"
  by (auto simp: node_table_def dest!: map_of_SomeD)

lemma node_table_mem: "distinct (map n_ID ns) \<Longrightarrow> n \<in> set ns \<Longrightarrow> node_table ns (n_ID n) = Some n"
  by (induction ns) (auto simp: image_iff)

lemma node_table_iff:
  "distinct (map n_ID ns) \<Longrightarrow> node_table ns i = Some n \<longleftrightarrow> n \<in> set ns \<and> n_ID n = i"
  using node_table_mem node_table_Some by metis

lemma build_map_get: "distinct (map n_ID ns) \<Longrightarrow> map_get (build_map ns m) = map_get m ++ node_table ns"
proof (induction ns arbitrary: m)
  case Nil
  then show ?case by simp
next
  case (Cons n ns)
  then have "node_table ns (n_ID n) = None" by (simp add: node_table_None)
  with Cons show ?case by (auto simp: update_conv map_add_def split: option.splits)
qed

lemma buildNodeStateMap_get: "distinct (map n_ID ns) \<Longrightarrow> map_get (buildNodeStateMap ns) = node_table ns"
  by (simp add: buildNodeStateMap_def build_map_get)

lemma deps_completed_iff:
  "deps_completed ds m \<longleftrightarrow> (\<forall>d \<in> set ds. \<exists>q. map_get m d = Some q \<and> n_State q = COMPLETED)"
  by (induction ds) (auto split: option.splits)

lemma all_completed_iff:
  "all_completed ns m \<longleftrightarrow>
     (\<forall>n \<in> set ns. (case map_get m (n_ID n) of Some c \<Rightarrow> n_State c | None \<Rightarrow> n_State n) = COMPLETED)"
  by (induction ns) (auto simp: Let_def)

section \<open>The unlock loop\<close>

abbreviation ready_node :: "WorkflowNode \<Rightarrow> WorkflowNode" where
  "ready_node r \<equiv> r\<lparr>n_State := READY\<rparr>"

lemma unlock_loop:
  assumes "unlockDependentNodes ns m = Ok (us, m')" and "distinct (map n_ID ns)"
    and "\<forall>r \<in> set ns. n_State r = LOCKED \<longrightarrow> map_get m (n_ID r) = Some r"
  shows "(\<forall>u \<in> set us. \<exists>r \<in> set ns. n_State r = LOCKED \<and> u = ready_node r)
    \<and> distinct (map n_ID us)
    \<and> map_get m' = map_get m ++ node_table us
    \<and> (\<forall>r \<in> set ns. n_State r = LOCKED \<and> n_UnlockConfiguration r = None \<longrightarrow>
         (n_ID r \<in> n_ID ` set us \<longleftrightarrow> deps_completed (n_DependsOn r) m))"
  using assms
proof (induction ns arbitrary: m us)
  case Nil
  then show ?case by simp
next
  case (Cons n ns)
  have d: "distinct (map n_ID ns)" and nid: "n_ID n \<notin> n_ID ` set ns"
    using Cons.prems(2) by auto
  show ?case
  proof (cases "n_State n = LOCKED")
    case False
    with Cons.prems have u: "unlockDependentNodes ns m = Ok (us, m')" by simp
    from Cons.IH [OF this d] Cons.prems(3) have IH: "\<forall>u \<in> set us. \<exists>r \<in> set ns. n_State r = LOCKED \<and> u = ready_node r"
      "distinct (map n_ID us)" "map_get m' = map_get m ++ node_table us"
      "\<forall>r \<in> set ns. n_State r = LOCKED \<and> n_UnlockConfiguration r = None \<longrightarrow>
         (n_ID r \<in> n_ID ` set us \<longleftrightarrow> deps_completed (n_DependsOn r) m)"
      by auto
    with False show ?thesis by auto
  next
    case True
    with Cons.prems(1) obtain met where met: "areDependenciesMet n m = Ok met"
      by (cases "areDependenciesMet n m") auto
    have dep: "n_UnlockConfiguration n = None \<Longrightarrow> met = deps_completed (n_DependsOn n) m"
      using met by (simp add: areDependenciesMet_def)
    show ?thesis
    proof (cases met)
      case False
      with met True Cons.prems have u: "unlockDependentNodes ns m = Ok (us, m')" by simp
      from Cons.IH [OF this d] Cons.prems(3) have IH: "\<forall>u \<in> set us. \<exists>r \<in> set ns. n_State r = LOCKED \<and> u = ready_node r"
        "distinct (map n_ID us)" "map_get m' = map_get m ++ node_table us"
        "\<forall>r \<in> set ns. n_State r = LOCKED \<and> n_UnlockConfiguration r = None \<longrightarrow>
           (n_ID r \<in> n_ID ` set us \<longleftrightarrow> deps_completed (n_DependsOn r) m)"
        by auto
      from IH(1) nid have "n_ID n \<notin> n_ID ` set us" by force
      with IH dep False show ?thesis by auto
    next
      case True
      let ?m = "map_put (n_ID n) (ready_node n) m"
      from True met \<open>n_State n = LOCKED\<close> Cons.prems(1) obtain us' where us: "us = ready_node n # us'"
        and u: "unlockDependentNodes ns ?m = Ok (us', m')"
        by (auto simp: res_simps Let_def)
      have "\<forall>r \<in> set ns. n_State r = LOCKED \<longrightarrow> map_get ?m (n_ID r) = Some r"
        using Cons.prems(3) nid by (auto simp: map_simps image_iff)
      from Cons.IH [OF u d this] have IH: "\<forall>u \<in> set us'. \<exists>r \<in> set ns. n_State r = LOCKED \<and> u = ready_node r"
        "distinct (map n_ID us')" "map_get m' = map_get ?m ++ node_table us'"
        "\<forall>r \<in> set ns. n_State r = LOCKED \<and> n_UnlockConfiguration r = None \<longrightarrow>
           (n_ID r \<in> n_ID ` set us' \<longleftrightarrow> deps_completed (n_DependsOn r) ?m)"
        by auto
      from IH(1) nid have nus: "n_ID n \<notin> n_ID ` set us'" by force
      have "deps_completed ds ?m \<longleftrightarrow> deps_completed ds m" for ds
        unfolding deps_completed_iff using Cons.prems(3) \<open>n_State n = LOCKED\<close>
        by (auto simp: map_simps)
      then have deps: "\<forall>r \<in> set ns. n_State r = LOCKED \<and> n_UnlockConfiguration r = None \<longrightarrow>
           (n_ID r \<in> n_ID ` set us' \<longleftrightarrow> deps_completed (n_DependsOn r) m)"
        using IH(4) by simp
      have map: "map_get m' = map_get m ++ node_table us"
      proof (rule ext)
        fix k
        have "node_table us' (n_ID n) = None" using nus by (simp add: node_table_None)
        then show "map_get m' k = (map_get m ++ node_table us) k"
          unfolding IH(3) us by (cases "node_table us' k") (auto simp: map_simps map_add_def)
      qed
      show ?thesis
      proof (intro conjI)
        show "\<forall>u \<in> set us. \<exists>r \<in> set (n # ns). n_State r = LOCKED \<and> u = ready_node r"
          using IH(1) us \<open>n_State n = LOCKED\<close> by auto
        show "distinct (map n_ID us)" using IH(2) nus us by simp
        show "map_get m' = map_get m ++ node_table us" by (rule map)
        show "\<forall>r \<in> set (n # ns). n_State r = LOCKED \<and> n_UnlockConfiguration r = None \<longrightarrow>
            (n_ID r \<in> n_ID ` set us \<longleftrightarrow> deps_completed (n_DependsOn r) m)"
          using deps dep True us nid by (auto simp: image_iff)
      qed
    qed
  qed
qed


section \<open>The plan of a completion\<close>

definition index_ok :: "WorkflowNode list \<Rightarrow> (string, nat) gomap \<Rightarrow> bool" where
  "index_ok L idx \<longleftrightarrow> (\<forall>i k. map_get idx i = Some k \<longleftrightarrow> k < length L \<and> n_ID (L ! k) = i)"

lemma index_ok_Some: "index_ok L idx \<Longrightarrow> map_get idx i = Some k \<longleftrightarrow> k < length L \<and> n_ID (L ! k) = i"
  by (simp add: index_ok_def)

lemma index_ok_None: "index_ok L idx \<Longrightarrow> map_get idx i = None \<longleftrightarrow> i \<notin> n_ID ` set L"
proof -
  assume "index_ok L idx"
  then have "map_get idx i = None \<longleftrightarrow> \<not> (\<exists>k. k < length L \<and> n_ID (L ! k) = i)"
    by (simp add: index_ok_Some [symmetric])
  also have "(\<exists>k. k < length L \<and> n_ID (L ! k) = i) \<longleftrightarrow> i \<in> n_ID ` set L"
    unfolding set_conv_nth by blast
  finally show ?thesis .
qed

lemma index_ok_snoc:
  assumes "index_ok L idx" and "n_ID u \<notin> n_ID ` set L"
  shows "index_ok (L @ [u]) (map_put (n_ID u) (length L) idx)"
  unfolding index_ok_def
proof (intro allI)
  fix i k
  show "map_get (map_put (n_ID u) (length L) idx) i = Some k \<longleftrightarrow> k < length (L @ [u]) \<and> n_ID ((L @ [u]) ! k) = i"
  proof (cases "k < length L")
    case True
    then have "n_ID (L ! k) \<noteq> n_ID u" using assms(2) by (metis image_eqI nth_mem)
    with True show ?thesis by (auto simp: map_simps nth_append index_ok_Some [OF assms(1)])
  next
    case False
    then show ?thesis by (auto simp: map_simps nth_append index_ok_Some [OF assms(1)])
  qed
qed

lemma collect_unlocked_append:
  "index_ok L idx \<Longrightarrow> distinct (map n_ID (L @ us)) \<Longrightarrow>
   \<exists>idx'. collect_unlocked us L idx = (L @ us, idx') \<and> index_ok (L @ us) idx'"
proof (induction us arbitrary: L idx)
  case Nil
  then show ?case by simp
next
  case (Cons u us)
  have u: "n_ID u \<notin> n_ID ` set L" using Cons.prems(2) by auto
  then have "map_get idx (n_ID u) = None" using Cons.prems(1) by (simp add: index_ok_None)
  moreover have "index_ok (L @ [u]) (map_put (n_ID u) (length L) idx)"
    using Cons.prems(1) u by (rule index_ok_snoc)
  ultimately show ?case
    using Cons.IH [of "L @ [u]"] Cons.prems(2) by auto
qed

text \<open>The table after the end node, if it is READY, was completed.\<close>

definition end_table :: "WorkflowCompletionConfig option \<Rightarrow> (string \<rightharpoonup> WorkflowNode) \<Rightarrow> string \<rightharpoonup> WorkflowNode" where
  "end_table cfg m =
     (case config_end_node cfg of
        None \<Rightarrow> m
      | Some e \<Rightarrow>
          (case m e of
             None \<Rightarrow> m
           | Some n \<Rightarrow> if n_State n = READY then m(e \<mapsto> n\<lparr>n_State := COMPLETED\<rparr>) else m))"

lemma complete_end_node_spec:
  assumes "complete_end_node cfg L idx m = (L', m')" and "index_ok L idx" and "distinct (map n_ID L)"
    and L: "\<forall>n \<in> set L. map_get m (n_ID n) = Some n"
    and keyed: "\<And>i n. map_get m i = Some n \<Longrightarrow> n_ID n = i"
  shows "map_get m' = end_table cfg (map_get m) \<and> distinct (map n_ID L')
     \<and> (\<forall>n \<in> set L'. map_get m' (n_ID n) = Some n)
     \<and> (\<forall>i. i \<notin> n_ID ` set L' \<longrightarrow> map_get m' i = map_get m i) \<and> n_ID ` set L \<subseteq> n_ID ` set L'"
proof (cases "\<exists>e n. config_end_node cfg = Some e \<and> map_get m e = Some n \<and> n_State n = READY")
  case False
  then have "L' = L \<and> m' = m \<and> end_table cfg (map_get m) = map_get m"
    using assms(1) by (auto simp: complete_end_node_def end_table_def split: option.splits if_splits)
  with assms show ?thesis by simp
next
  case True
  then obtain e n where e: "config_end_node cfg = Some e" and n: "map_get m e = Some n" "n_State n = READY"
    by blast
  let ?n = "n\<lparr>n_State := COMPLETED\<rparr>"
  have id: "n_ID n = e" using keyed n(1) .
  have m': "m' = map_put e ?n m" and table: "end_table cfg (map_get m) = (map_get m)(e \<mapsto> ?n)"
    using assms(1) e n by (auto simp: complete_end_node_def end_table_def Let_def)
  show ?thesis
  proof (cases "map_get idx e")
    case None
    then have L': "L' = L @ [?n]" using assms(1) e n by (simp add: complete_end_node_def Let_def)
    have "e \<notin> n_ID ` set L" using None assms(2) by (simp add: index_ok_None)
    moreover have "map_get m' = end_table cfg (map_get m)"
      by (rule ext) (simp add: m' table map_simps)
    moreover have "\<forall>x \<in> set L. n_ID x \<noteq> e"
      using \<open>e \<notin> n_ID ` set L\<close> by blast
    ultimately show ?thesis
      using L' m' id assms(3) L by (auto simp: map_simps)
  next
    case (Some k)
    then have k: "k < length L" "n_ID (L ! k) = e" using assms(2) by (auto simp: index_ok_Some)
    have L': "L' = L[k := ?n]" using assms(1) e n Some by (simp add: complete_end_node_def Let_def)
    have ids: "map n_ID L' = map n_ID L"
      using k id by (intro nth_equalityI) (auto simp: L' nth_list_update)
    have mem: "x = ?n \<or> (x \<in> set L \<and> n_ID x \<noteq> e)" if x: "x \<in> set L'" for x
    proof -
      from x obtain j where j: "j < length L" "x = L[k := ?n] ! j"
        by (auto simp: L' in_set_conv_nth)
      show ?thesis
      proof (cases "j = k")
        case True
        with j k show ?thesis by simp
      next
        case False
        then have "n_ID (L ! j) \<noteq> n_ID (L ! k)"
          using assms(3) j(1) k(1) by (auto simp: distinct_conv_nth)
        with False j k show ?thesis by auto
      qed
    qed
    have set_ids: "n_ID ` set L' = n_ID ` set L" using ids by (metis image_set)
    have "e \<in> n_ID ` set L" using k by auto
    show ?thesis
    proof (intro conjI)
      show "map_get m' = end_table cfg (map_get m)"
        by (rule ext) (simp add: m' table map_simps)
      show "distinct (map n_ID L')" using ids assms(3) by simp
      show "\<forall>n \<in> set L'. map_get m' (n_ID n) = Some n"
      proof
        fix x assume "x \<in> set L'"
        from mem [OF this] L id show "map_get m' (n_ID x) = Some x"
          by (auto simp: m' map_simps)
      qed
      show "\<forall>i. i \<notin> n_ID ` set L' \<longrightarrow> map_get m' i = map_get m i"
        using \<open>e \<in> n_ID ` set L\<close> by (auto simp: m' map_simps set_ids)
      show "n_ID ` set L \<subseteq> n_ID ` set L'" by (simp add: set_ids)
    qed
  qed
qed

definition pre_table :: "WorkflowNode \<Rightarrow> WorkflowNode list \<Rightarrow> string \<rightharpoonup> WorkflowNode" where
  "pre_table node ns = (node_table ns)(n_ID node \<mapsto> node)"

definition final_table ::
    "WorkflowCompletionConfig option \<Rightarrow> WorkflowNode \<Rightarrow> WorkflowNode list \<Rightarrow> WorkflowNode list \<Rightarrow> string \<rightharpoonup> WorkflowNode" where
  "final_table cfg node ns us = end_table cfg (pre_table node ns ++ node_table us)"

definition unlocked_from :: "WorkflowNode \<Rightarrow> WorkflowNode list \<Rightarrow> WorkflowNode list \<Rightarrow> bool" where
  "unlocked_from node ns us \<longleftrightarrow>
     (\<forall>u \<in> set us. \<exists>r \<in> set ns. n_State r = LOCKED \<and> u = ready_node r) \<and> distinct (map n_ID us) \<and>
     (\<forall>r \<in> set ns. n_State r = LOCKED \<and> n_UnlockConfiguration r = None \<longrightarrow>
        (n_ID r \<in> n_ID ` set us \<longleftrightarrow>
           (\<forall>d \<in> set (n_DependsOn r). \<exists>q. pre_table node ns d = Some q \<and> n_State q = COMPLETED)))"

definition plan_finished ::
    "WorkflowCompletionConfig option \<Rightarrow> WorkflowNode list \<Rightarrow> (string \<rightharpoonup> WorkflowNode) \<Rightarrow> bool" where
  "plan_finished cfg ns fm \<longleftrightarrow>
     (case config_end_node cfg of
        Some e \<Rightarrow> \<exists>n. fm e = Some n \<and> n_State n = COMPLETED
      | None \<Rightarrow> \<forall>n \<in> set ns. \<exists>q. fm (n_ID n) = Some q \<and> n_State q = COMPLETED)"

lemma end_table_dom: "m i \<noteq> None \<Longrightarrow> end_table cfg m i \<noteq> None"
  by (auto simp: end_table_def split: option.splits)

lemma completed_plan_spec:
  assumes plan: "completed_plan node ns cfg = Ok plan" and dist: "distinct (map n_ID ns)"
    and old: "old \<in> set ns" "n_ID old = n_ID node" "n_State old \<noteq> LOCKED"
  obtains us where "unlocked_from node ns us"
    and "distinct (map n_ID (UpdatedNodes plan))" and "sorted (map n_ID (UpdatedNodes plan))"
    and "\<forall>n \<in> set (UpdatedNodes plan). final_table cfg node ns us (n_ID n) = Some n"
    and "\<forall>i. i \<notin> n_ID ` set (UpdatedNodes plan) \<longrightarrow> final_table cfg node ns us i = node_table ns i"
    and "n_ID node \<in> n_ID ` set (UpdatedNodes plan)"
    and "n_ID ` set us \<subseteq> n_ID ` set (UpdatedNodes plan)"
    and "NewReadyNodes plan = filter (\<lambda>u. \<exists>q. final_table cfg node ns us (n_ID u) = Some q \<and> n_State q = READY) us"
    and "WorkflowFinished plan = plan_finished cfg ns (final_table cfg node ns us)"
proof -
  let ?m = "map_put (n_ID node) node (buildNodeStateMap ns)"
  have m: "map_get ?m = pre_table node ns"
    by (rule ext) (simp add: pre_table_def map_simps buildNodeStateMap_get dist)
  from plan obtain us m1 where u: "unlockDependentNodes ns ?m = Ok (us, m1)"
    by (auto simp: completed_plan_def Let_def res_simps)
  have other: "n_ID r \<noteq> n_ID node" if "r \<in> set ns" "n_State r = LOCKED" for r
    using that old dist by (metis distinct_map inj_onD)
  then have "\<forall>r \<in> set ns. n_State r = LOCKED \<longrightarrow> map_get ?m (n_ID r) = Some r"
    by (simp add: m pre_table_def node_table_mem dist)
  from unlock_loop [OF u dist this] have uf: "unlocked_from node ns us"
    and m1: "map_get m1 = pre_table node ns ++ node_table us"
    by (auto simp: unlocked_from_def deps_completed_iff m)
  from uf have us: "\<forall>u \<in> set us. \<exists>r \<in> set ns. n_State r = LOCKED \<and> u = ready_node r" "distinct (map n_ID us)"
    by (auto simp: unlocked_from_def)
  have nus: "n_ID node \<notin> n_ID ` set us" using us(1) other by fastforce
  have i0: "index_ok [node] [(n_ID node, 0)]" by (auto simp: index_ok_def)
  from nus us(2) have dL: "distinct (map n_ID ([node] @ us))" by auto
  from collect_unlocked_append [OF i0 dL] obtain idx where
    c: "collect_unlocked us [node] [(n_ID node, 0)] = (node # us, idx)" and idx: "index_ok (node # us) idx"
    by auto
  obtain L m2 where e: "complete_end_node cfg (node # us) idx m1 = (L, m2)" by fastforce
  have mem: "\<forall>n \<in> set (node # us). map_get m1 (n_ID n) = Some n"
    using nus us(2) by (auto simp: m1 pre_table_def node_table_mem map_add_Some_iff node_table_None)
  have keyed: "n_ID n = i" if "map_get m1 i = Some n" for i n
    using that by (auto simp: m1 pre_table_def map_add_Some_iff dest: node_table_Some split: if_splits)
  have d2: "distinct (map n_ID (node # us))" using dL by simp
  note E = complete_end_node_spec [OF e idx d2 mem keyed]
  let ?fm = "final_table cfg node ns us"
  have fm: "map_get m2 = ?fm" using E by (simp add: final_table_def m1)
  have P: "plan = \<lparr>UpdatedNodes = sortNodesByID L, NewReadyNodes = filter (\<lambda>u. is_ready m2 (n_ID u)) us,
      WorkflowFinished = evaluateWorkflowCompletion ns m2 cfg\<rparr>"
    using plan u c e by (simp add: completed_plan_def Let_def)
  have setL: "set (UpdatedNodes plan) = set L" by (simp add: P sortNodesByID_def)
  have old_dom: "?fm (n_ID n) \<noteq> None" if "n \<in> set ns" for n
    unfolding final_table_def using that
    by (intro end_table_dom) (auto simp: pre_table_def map_add_None node_table_None)
  have keep: "\<forall>i. i \<notin> n_ID ` set (UpdatedNodes plan) \<longrightarrow> ?fm i = node_table ns i"
  proof (intro allI impI)
    fix i assume i: "i \<notin> n_ID ` set (UpdatedNodes plan)"
    with setL E have "?fm i = map_get m1 i" and out: "i \<notin> n_ID ` set (node # us)" by (auto simp: fm)
    with out show "?fm i = node_table ns i"
      by (auto simp: m1 pre_table_def map_add_def node_table_None split: option.splits dest: node_table_Some)
  qed
  have upd: "\<forall>n \<in> set (UpdatedNodes plan). ?fm (n_ID n) = Some n"
    using E unfolding setL fm by blast
  have dis: "distinct (map n_ID (UpdatedNodes plan))"
    using E by (simp add: P sortNodesByID_def distinct_map)
  have srt: "sorted (map n_ID (UpdatedNodes plan))" by (simp add: P sortNodesByID_def)
  have sub: "n_ID node \<in> n_ID ` set (UpdatedNodes plan)" "n_ID ` set us \<subseteq> n_ID ` set (UpdatedNodes plan)"
    using E setL by auto
  have rdy: "NewReadyNodes plan = filter (\<lambda>u. \<exists>q. ?fm (n_ID u) = Some q \<and> n_State q = READY) us"
    by (auto simp: P is_ready_def fm split: option.splits intro!: filter_cong)
  have fin: "WorkflowFinished plan = plan_finished cfg ns ?fm"
  proof (cases "config_end_node cfg")
    case None
    have "(case ?fm (n_ID n) of Some c \<Rightarrow> n_State c | None \<Rightarrow> n_State n) = COMPLETED \<longleftrightarrow>
        (\<exists>q. ?fm (n_ID n) = Some q \<and> n_State q = COMPLETED)" if "n \<in> set ns" for n
      using old_dom [OF that] by auto
    with None show ?thesis
      by (simp add: P evaluateWorkflowCompletion_def plan_finished_def all_completed_iff fm)
  next
    case (Some e)
    then show ?thesis
      by (auto simp: P evaluateWorkflowCompletion_def plan_finished_def fm split: option.splits)
  qed
  show thesis by (rule that [OF uf dis srt upd keep sub rdy fin])
qed


section \<open>What a completion does to the rows\<close>

text \<open>How one row of the workflow changes.\<close>

definition completed_effect ::
    "WorkflowCompletionConfig option \<Rightarrow> WorkflowNode \<Rightarrow> WorkflowNode \<Rightarrow> WorkflowNode \<Rightarrow> bool" where
  "completed_effect cfg node r r' \<longleftrightarrow>
     (if n_ID r = n_ID node then r' = node
      else r' = r
        \<or> (n_State r = LOCKED \<and> r' = r\<lparr>n_State := READY\<rparr>)
        \<or> (config_end_node cfg = Some (n_ID r) \<and> n_State r \<in> {LOCKED, READY} \<and> r' = r\<lparr>n_State := COMPLETED\<rparr>))"

lemma update_rows_table:
  "distinct (map n_ID L) \<Longrightarrow>
   update_rows L rows = map (\<lambda>r. case node_table L (n_ID r) of None \<Rightarrow> r | Some n \<Rightarrow> set_fields n r) rows"
proof (induction L arbitrary: rows)
  case Nil
  then show ?case by (simp add: update_rows_def)
next
  case (Cons n L)
  then have "node_table L (n_ID n) = None" by (simp add: node_table_None)
  with Cons show ?case
    by (auto simp: update_rows_def update_row_def update_where_def split: option.splits)
qed

lemma node_table_cong:
  "distinct (map n_ID ns) \<Longrightarrow> distinct (map n_ID ms) \<Longrightarrow> set ns = set ms \<Longrightarrow> node_table ns = node_table ms"
proof (rule ext)
  fix i
  assume "distinct (map n_ID ns)" "distinct (map n_ID ms)" "set ns = set ms"
  then have "node_table ns i = Some n \<longleftrightarrow> node_table ms i = Some n" for n by (simp add: node_table_iff)
  then show "node_table ns i = node_table ms i" by (metis not_None_eq)
qed

lemma final_effect:
  assumes "distinct (map n_ID W)" and "old \<in> set W" "n_ID old = n_ID node" "n_State old \<noteq> LOCKED"
    and "n_State node = COMPLETED" and "unlocked_from node W us" and fm: "final_table cfg node W us i = Some q"
  shows "\<exists>r \<in> set W. n_ID r = i \<and> completed_effect cfg node r q"
proof -
  let ?m = "pre_table node W ++ node_table us"
  have us: "\<forall>u \<in> set us. \<exists>r \<in> set W. n_State r = LOCKED \<and> u = ready_node r" "distinct (map n_ID us)"
    using assms(6) by (auto simp: unlocked_from_def)
  have other: "n_ID r \<noteq> n_ID node" if "r \<in> set W" "n_State r = LOCKED" for r
    using that assms(1-4) by (metis distinct_map inj_onD)
  have pre: "\<exists>r \<in> set W. n_ID r = i \<and> (if i = n_ID node then n = node else n = r \<or> (n_State r = LOCKED \<and> n = ready_node r))"
    if n: "?m i = Some n" for n
  proof (cases "node_table us i")
    case None
    then have n': "pre_table node W i = Some n" using n by (simp add: map_add_def)
    show ?thesis
    proof (cases "i = n_ID node")
      case True
      with n' assms(2,3) show ?thesis by (auto simp: pre_table_def)
    next
      case False
      with n' show ?thesis by (auto simp: pre_table_def dest!: node_table_Some)
    qed
  next
    case (Some u)
    then have u: "u \<in> set us" "n_ID u = i" using node_table_Some by auto
    with us(1) obtain r where r: "r \<in> set W" "n_State r = LOCKED" "u = ready_node r" by blast
    with u(2) have id: "n_ID r = i" by simp
    with other r have "i \<noteq> n_ID node" by blast
    moreover have "n = u" using n Some by (simp add: map_add_def)
    ultimately show ?thesis using r id by (intro bexI [of _ r]) simp_all
  qed
  show ?thesis
  proof (cases "config_end_node cfg = Some i \<and> (\<exists>n. ?m i = Some n \<and> n_State n = READY)")
    case False
    then have "?m i = Some q"
      using fm by (auto simp: final_table_def end_table_def split: option.splits if_splits)
    from pre [OF this] obtain r where "r \<in> set W" "n_ID r = i"
      "if i = n_ID node then q = node else q = r \<or> (n_State r = LOCKED \<and> q = ready_node r)" by blast
    then show ?thesis by (intro bexI [of _ r]) (auto simp: completed_effect_def)
  next
    case True
    then obtain n where n: "?m i = Some n" "n_State n = READY" and e: "config_end_node cfg = Some i" by (elim conjE exE)
    then have q: "q = n\<lparr>n_State := COMPLETED\<rparr>" using fm by (simp add: final_table_def end_table_def)
    from pre [OF n(1)] obtain r where r: "r \<in> set W" "n_ID r = i"
      "if i = n_ID node then n = node else n = r \<or> (n_State r = LOCKED \<and> n = ready_node r)" by blast
    with n(2) assms(5) have "i \<noteq> n_ID node" by auto
    with r q e n(2) show ?thesis by (intro bexI [of _ r]) (auto simp: completed_effect_def)
  qed
qed

lemma end_table_None: "end_table cfg m i = None \<longleftrightarrow> m i = None"
  by (auto simp: end_table_def split: option.splits)

lemma final_dom:
  assumes "old \<in> set W" "n_ID old = n_ID node" and "unlocked_from node W us"
  shows "final_table cfg node W us i \<noteq> None \<longleftrightarrow> i \<in> n_ID ` set W"
proof -
  have "n_ID ` set us \<subseteq> n_ID ` set W"
  proof
    fix x assume "x \<in> n_ID ` set us"
    then obtain u where "u \<in> set us" "x = n_ID u" by blast
    moreover from this(1) assms(3) obtain r where "r \<in> set W" "u = ready_node r"
      unfolding unlocked_from_def by blast
    ultimately show "x \<in> n_ID ` set W" by simp
  qed
  moreover have "n_ID node \<in> n_ID ` set W" using imageI [OF assms(1), of n_ID] assms(2) by simp
  ultimately have "dom (pre_table node W ++ node_table us) = n_ID ` set W"
    by (simp add: pre_table_def node_table_dom insert_absorb Un_absorb1)
  then have "(pre_table node W ++ node_table us) i \<noteq> None \<longleftrightarrow> i \<in> n_ID ` set W"
    unfolding domIff [symmetric] by (simp only:)
  then show ?thesis by (simp only: final_table_def end_table_None)
qed

lemma effect_fields:
  "completed_effect cfg node r q \<Longrightarrow> n_ID r = n_ID node \<longrightarrow>
     n_WorkflowID node = n_WorkflowID r \<and> n_WorkflowNodeTemplateID node = n_WorkflowNodeTemplateID r \<Longrightarrow>
   n_ID q = n_ID r \<and> set_fields q r = q"
  by (cases q; cases r) (auto simp: completed_effect_def set_fields_def split: if_splits)

definition completion_rows ::
    "string \<Rightarrow> (string \<rightharpoonup> WorkflowNode) \<Rightarrow> WorkflowNode list \<Rightarrow> WorkflowNode list" where
  "completion_rows w fm rows = map (\<lambda>r. if n_WorkflowID r = w then the (fm (n_ID r)) else r) rows"

context node_repository
begin

lemma completed_rows:
  assumes inv: "inv s" and node: "node \<in> set (rows s)" "n_State node = READY \<or> n_State node = IN_PROGRESS"
    and ok: "TransitionToCompleted repo (Some node) req cfgs s = (Ok plan, s')"
  defines "node' \<equiv> completed_node node req"
    and "W \<equiv> filter (\<lambda>n. n_WorkflowID n = n_WorkflowID node) (rows s)"
    and "cfg \<equiv> (case cfgs of [] \<Rightarrow> None | c # _ \<Rightarrow> c)"
  obtains us where "unlocked_from node' W us" and "inv s'"
    and "rows s' = completion_rows (n_WorkflowID node) (final_table cfg node' W us) (rows s)"
    and "distinct (map n_ID (UpdatedNodes plan))" and "sorted (map n_ID (UpdatedNodes plan))"
    and "\<forall>n \<in> set (UpdatedNodes plan). final_table cfg node' W us (n_ID n) = Some n"
    and "\<forall>i. i \<notin> n_ID ` set (UpdatedNodes plan) \<longrightarrow> final_table cfg node' W us i = node_table W i"
    and "n_ID node \<in> n_ID ` set (UpdatedNodes plan)" and "n_ID ` set us \<subseteq> n_ID ` set (UpdatedNodes plan)"
    and "\<exists>us'. set us' = set us \<and> distinct us' \<and>
       NewReadyNodes plan = filter (\<lambda>u. \<exists>q. final_table cfg node' W us (n_ID u) = Some q \<and> n_State q = READY) us'"
    and "WorkflowFinished plan = plan_finished cfg W (final_table cfg node' W us)"
proof -
  have fields: "n_ID node' = n_ID node" "n_WorkflowID node' = n_WorkflowID node" "n_State node' = COMPLETED"
    "n_WorkflowNodeTemplateID node' = n_WorkflowNodeTemplateID node"
    by (simp_all add: node'_def completed_node_def)
  have "canTransitionToCompleted (n_State node)" "n_State node \<noteq> COMPLETED"
    using node(2) by (auto simp: canTransitionToCompleted_def)
  then obtain ns s1 where g: "repo_GetByWorkflowID repo (n_WorkflowID node) s = (Ok ns, s1)"
    and p: "completed_plan node' ns cfg = Ok plan"
    and u: "repo_Update repo (UpdatedNodes plan) s1 = (Ok (), s')"
    using ok unfolding TransitionToCompleted_def getSiblingNodes_def fields(2) [unfolded node'_def]
    by (auto simp: op_simps Let_def node'_def cfg_def completed_node_def split: option.splits)
  from get_by_workflow [OF inv g] have s1: "inv s1" "rows s1 = rows s" and ms: "mset ns = mset W"
    by (auto simp: W_def)
  have dW: "distinct (map n_ID W)" using ids_distinct [OF inv] by (simp add: W_def distinct_map_filter)
  have setns: "set ns = set W" using ms by (rule mset_eq_setD)
  have dns: "distinct (map n_ID ns)"
    using ms dW by (metis mset_map mset_eq_imp_distinct_iff)
  have nW: "node \<in> set W" by (simp add: W_def node)
  have tab: "node_table ns = node_table W" using dns dW setns by (rule node_table_cong)
  then have pre: "pre_table node' ns = pre_table node' W" by (simp add: pre_table_def)
  have unl: "n_State node \<noteq> LOCKED" using node(2) by auto
  from completed_plan_spec [OF p dns nW [folded setns] fields(1) [symmetric] unl] obtain us where
    P: "unlocked_from node' ns us" "distinct (map n_ID (UpdatedNodes plan))" "sorted (map n_ID (UpdatedNodes plan))"
      "\<forall>n \<in> set (UpdatedNodes plan). final_table cfg node' ns us (n_ID n) = Some n"
      "\<forall>i. i \<notin> n_ID ` set (UpdatedNodes plan) \<longrightarrow> final_table cfg node' ns us i = node_table ns i"
      "n_ID node' \<in> n_ID ` set (UpdatedNodes plan)" "n_ID ` set us \<subseteq> n_ID ` set (UpdatedNodes plan)"
      "NewReadyNodes plan = filter (\<lambda>u. \<exists>q. final_table cfg node' ns us (n_ID u) = Some q \<and> n_State q = READY) us"
      "WorkflowFinished plan = plan_finished cfg ns (final_table cfg node' ns us)"
    by blast
  let ?fm = "final_table cfg node' W us"
  have fm: "final_table cfg node' ns us = ?fm" by (simp add: final_table_def pre)
  have uf: "unlocked_from node' W us" using P(1) by (simp add: unlocked_from_def pre setns)
  have fin: "WorkflowFinished plan = plan_finished cfg W ?fm"
    using P(9) by (simp add: plan_finished_def fm setns split: option.splits)
  have rdy: "\<exists>us'. set us' = set us \<and> distinct us' \<and>
       NewReadyNodes plan = filter (\<lambda>u. \<exists>q. ?fm (n_ID u) = Some q \<and> n_State q = READY) us'"
    using P(8) uf by (intro exI [of _ us]) (auto simp: fm unlocked_from_def distinct_map)
  from update [OF s1(1) u] have inv': "inv s'" and r': "rows s' = update_rows (UpdatedNodes plan) (rows s)"
    by (auto simp: s1)
  have row: "(case node_table (UpdatedNodes plan) (n_ID r) of None \<Rightarrow> r | Some n \<Rightarrow> set_fields n r)
      = (if n_WorkflowID r = n_WorkflowID node then the (?fm (n_ID r)) else r)" if r: "r \<in> set (rows s)" for r
  proof (cases "n_WorkflowID r = n_WorkflowID node")
    case True
    then have rW: "r \<in> set W" using r by (simp add: W_def)
    show ?thesis
    proof (cases "node_table (UpdatedNodes plan) (n_ID r)")
      case None
      then have "?fm (n_ID r) = Some r"
        using P(5) rW dW by (simp add: fm tab node_table_None node_table_mem)
      with None True show ?thesis by simp
    next
      case (Some n)
      then have n: "?fm (n_ID r) = Some n" using P(4) by (auto simp: fm dest!: node_table_Some)
      from final_effect [OF dW nW fields(1) [symmetric] unl fields(3) uf n] obtain r0 where
        r0: "r0 \<in> set W" "n_ID r0 = n_ID r" "completed_effect cfg node' r0 n" by blast
      then have "r0 = r" using dW rW by (metis distinct_map inj_onD)
      moreover have "n_ID r = n_ID node' \<longrightarrow> r = node"
        using dW rW nW fields(1) by (metis distinct_map inj_onD)
      ultimately have "set_fields n r = n" using effect_fields [OF r0(3)] fields by auto
      with Some n True show ?thesis by simp
    qed
  next
    case False
    have "n_ID r \<notin> n_ID ` set W"
    proof
      assume "n_ID r \<in> n_ID ` set W"
      then obtain r0 where "r0 \<in> set (rows s)" "n_ID r0 = n_ID r" "n_WorkflowID r0 = n_WorkflowID node"
        by (auto simp: W_def)
      then have "r0 = r" using r ids_distinct [OF inv] by (metis distinct_map inj_onD)
      with False \<open>n_WorkflowID r0 = _\<close> show False by simp
    qed
    then have "?fm (n_ID r) = None" using final_dom [OF nW fields(1) [symmetric] uf] by blast
    then have "n_ID r \<notin> n_ID ` set (UpdatedNodes plan)" using P(4) fm by force
    then have "node_table (UpdatedNodes plan) (n_ID r) = None" by (simp add: node_table_None)
    with False show ?thesis by simp
  qed
  have rows': "rows s' = completion_rows (n_WorkflowID node) ?fm (rows s)"
    unfolding r' update_rows_table [OF P(2)] completion_rows_def using row by simp
  show thesis
    by (rule that [OF uf inv' rows' P(2) P(3) P(4) [unfolded fm] P(5) [unfolded fm tab] P(6) [unfolded fields] P(7) rdy fin])
qed

end


lemma final_unlocked:
  assumes "distinct (map n_ID W)" and "old \<in> set W" "n_ID old = n_ID node" "n_State old \<noteq> LOCKED"
    and "unlocked_from node W us" and r: "r \<in> set W" "n_State r = LOCKED"
  shows "n_State (the (final_table cfg node W us (n_ID r))) \<noteq> LOCKED \<longleftrightarrow> n_ID r \<in> n_ID ` set us"
proof -
  have us: "\<forall>u \<in> set us. \<exists>r \<in> set W. n_State r = LOCKED \<and> u = ready_node r" "distinct (map n_ID us)"
    using assms(5) by (auto simp: unlocked_from_def)
  have "n_ID r \<noteq> n_ID node" using r assms(1-4) by (metis distinct_map inj_onD)
  then have pre: "pre_table node W (n_ID r) = Some r"
    using r assms(1) by (simp add: pre_table_def node_table_mem)
  show ?thesis
  proof (cases "n_ID r \<in> n_ID ` set us")
    case True
    then obtain u where u: "u \<in> set us" "n_ID u = n_ID r" by auto
    then have m: "(pre_table node W ++ node_table us) (n_ID r) = Some u"
      using us(2) node_table_mem [of us u] by (simp add: map_add_Some_iff)
    have "n_State u = READY" using us(1) u by auto
    with m True show ?thesis
      by (auto simp: final_table_def end_table_def split: option.splits)
  next
    case False
    then have "node_table us (n_ID r) = None" by (simp add: node_table_None)
    then have m: "(pre_table node W ++ node_table us) (n_ID r) = Some r"
      using pre by (simp add: map_add_def)
    with r(2) False show ?thesis
      by (auto simp: final_table_def end_table_def split: option.splits)
  qed
qed

text \<open>The writes of \<open>TransitionToFailed\<close> and \<open>TransitionToInProgress\<close>.\<close>

definition set_state :: "string \<Rightarrow> WorkflowNodeState \<Rightarrow> string option \<Rightarrow> WorkflowNode list \<Rightarrow> WorkflowNode list" where
  "set_state i st ext rows = update_where (\<lambda>r. n_ID r = i) (\<lambda>r. r\<lparr>n_State := st, n_ExtendedState := ext\<rparr>) rows"

lemma update_row_set_state:
  assumes "distinct (map n_ID rows)" and "node \<in> set rows"
  shows "update_row (node\<lparr>n_State := st, n_ExtendedState := ext\<rparr>) rows = set_state (n_ID node) st ext rows"
proof -
  have "set_fields (node\<lparr>n_State := st, n_ExtendedState := ext\<rparr>) r = r\<lparr>n_State := st, n_ExtendedState := ext\<rparr>"
    if "r \<in> set rows" "n_ID r = n_ID node" for r
  proof -
    have "r = node" using that assms by (metis distinct_map inj_onD)
    then show ?thesis by (cases r) (simp add: set_fields_def)
  qed
  then show ?thesis by (auto simp: update_row_def set_state_def update_where_def)
qed

section \<open>What initialisation does to the rows\<close>

lemma template_map_get: "map_get (template_map ts m) i = Some t \<Longrightarrow> (t \<in> set ts \<and> t_ID t = i) \<or> map_get m i = Some t"
  by (induction ts arbitrary: m) (fastforce simp: map_simps split: if_splits)+

lemma template_map_dom: "map_get (template_map ts m) i = None \<longleftrightarrow> i \<notin> t_ID ` set ts \<and> map_get m i = None"
  by (induction ts arbitrary: m) (auto simp: map_simps)

lemma by_template_get:
  "map_get (by_template ns m) i = Some n \<Longrightarrow> (n \<in> set ns \<and> n_WorkflowNodeTemplateID n = i) \<or> map_get m i = Some n"
  by (induction ns arbitrary: m) (fastforce simp: map_simps split: if_splits)+

lemma resolve_deps_set:
  "set (resolve_deps tids m) = {n_ID n |n tid. tid \<in> set tids \<and> map_get m tid = Some n}"
  by (induction tids) (auto split: option.splits)

lemma init_node_fields:
  assumes "init_node m tm t n = Ok n'" and "n_State n = LOCKED" and "n_UnlockConfiguration n = None"
  shows "n_ID n' = n_ID n \<and> n_WorkflowID n' = n_WorkflowID n
     \<and> n_WorkflowNodeTemplateID n' = n_WorkflowNodeTemplateID n
     \<and> n_DependsOn n' = resolve_deps (t_DependsOn t) m
     \<and> (n_UnlockConfiguration n' = None \<longleftrightarrow> t_UnlockConfiguration t = None)
     \<and> n_State n' = (if n_DependsOn n' = [] \<and> n_UnlockConfiguration n' = None then READY else LOCKED)"
  using assms by (auto simp: init_node_def Let_def res_simps split: option.splits if_splits)

definition init_ready :: "WorkflowNode \<Rightarrow> bool" where
  "init_ready n \<longleftrightarrow> n_DependsOn n = [] \<and> n_UnlockConfiguration n = None"

lemma init_loop_spec:
  "init_loop tm nb tt ns acc = Ok acc' \<Longrightarrow>
   \<exists>ns'. list_all2 (\<lambda>n n'. \<exists>t. map_get tm (n_WorkflowNodeTemplateID n) = Some t \<and> init_node nb tt t n = Ok n') ns ns'
     \<and> ia_created acc' = ia_created acc @ ns' \<and> ia_toUpdate acc' = ia_toUpdate acc @ ns'
     \<and> ia_newReady acc' = ia_newReady acc @ filter init_ready ns'"
proof (induction ns arbitrary: acc)
  case Nil
  then show ?case by simp
next
  case (Cons n ns)
  from Cons.prems obtain t n' where t: "map_get tm (n_WorkflowNodeTemplateID n) = Some t"
    and n': "init_node nb tt t n = Ok n'"
    by (auto simp: res_simps split: option.splits)
  let ?acc = "\<lparr>ia_created = ia_created acc @ [n'], ia_toUpdate = ia_toUpdate acc @ [n'],
      ia_newReady = (if init_ready n' then ia_newReady acc @ [n'] else ia_newReady acc),
      ia_endNodeID = (if t_Type t = WorkFlowNodeTypeEndNode then Some (n_ID n) else ia_endNodeID acc)\<rparr>"
  have "init_loop tm nb tt ns ?acc = Ok acc'"
    using Cons.prems t n'
    by (cases "n_DependsOn n' = []"; cases "n_UnlockConfiguration n'"; cases "t_Type t = WorkFlowNodeTypeEndNode")
      (simp_all add: Let_def init_ready_def)
  from Cons.IH [OF this] obtain ns' where
    "list_all2 (\<lambda>n n'. \<exists>t. map_get tm (n_WorkflowNodeTemplateID n) = Some t \<and> init_node nb tt t n = Ok n') ns ns'"
    "ia_created acc' = ia_created ?acc @ ns'" "ia_toUpdate acc' = ia_toUpdate ?acc @ ns'"
    "ia_newReady acc' = ia_newReady ?acc @ filter init_ready ns'"
    by blast
  with t n' show ?case by (intro exI [of _ "n' # ns'"]) auto
qed

text \<open>What holds of the nodes of a new workflow.\<close>

definition init_nodes_ok :: "string \<Rightarrow> WorkflowNodeTemplate list \<Rightarrow> WorkflowNode list \<Rightarrow> bool" where
  "init_nodes_ok w ts ns \<longleftrightarrow>
     map n_WorkflowNodeTemplateID ns = map t_ID ts \<and>
     (\<forall>n \<in> set ns. n_WorkflowID n = w \<and> set (n_DependsOn n) \<subseteq> n_ID ` set ns \<and>
        n_State n = (if init_ready n then READY else LOCKED) \<and>
        (\<exists>t \<in> set ts. t_ID t = n_WorkflowNodeTemplateID n \<and>
           (n_UnlockConfiguration n = None \<longleftrightarrow> t_UnlockConfiguration t = None) \<and>
           set (n_DependsOn n) \<subseteq> {n_ID q |q. q \<in> set ns \<and> n_WorkflowNodeTemplateID q \<in> set (t_DependsOn t)}))"

lemma update_rows_append:
  assumes "distinct (map n_ID (old @ ns))" and "list_all2 (\<lambda>n n'. n_ID n' = n_ID n \<and> set_fields n' n = n') ns ns'"
  shows "update_rows ns' (old @ ns) = old @ ns'"
proof -
  have ids: "map n_ID ns' = map n_ID ns"
    using assms(2) by (induction rule: list_all2_induct) auto
  have old: "node_table ns' (n_ID r) = None" if "r \<in> set old" for r
  proof -
    have "n_ID ` set ns' = n_ID ` set ns" using ids by (metis image_set)
    with that assms(1) show ?thesis by (auto simp: node_table_None)
  qed
  have d: "distinct (map n_ID ns')" using ids assms(1) by simp
  have "map (\<lambda>r. case node_table ns' (n_ID r) of None \<Rightarrow> r | Some n \<Rightarrow> set_fields n r) ns = ns'"
  proof (rule nth_equalityI)
    show "length (map (\<lambda>r. case node_table ns' (n_ID r) of None \<Rightarrow> r | Some n \<Rightarrow> set_fields n r) ns) = length ns'"
      using assms(2) by (simp add: list_all2_lengthD)
    fix i assume "i < length (map (\<lambda>r. case node_table ns' (n_ID r) of None \<Rightarrow> r | Some n \<Rightarrow> set_fields n r) ns)"
    then have i: "i < length ns" "i < length ns'" using assms(2) by (auto dest: list_all2_lengthD)
    have "n_ID (ns' ! i) = n_ID (ns ! i)" "set_fields (ns' ! i) (ns ! i) = ns' ! i"
      using list_all2_nthD [OF assms(2) i(1)] by auto
    moreover have "node_table ns' (n_ID (ns' ! i)) = Some (ns' ! i)"
      using d i by (simp add: node_table_mem)
    ultimately show "map (\<lambda>r. case node_table ns' (n_ID r) of None \<Rightarrow> r | Some n \<Rightarrow> set_fields n r) ns ! i = ns' ! i"
      using i by simp
  qed
  moreover have "map (\<lambda>r. case node_table ns' (n_ID r) of None \<Rightarrow> r | Some n \<Rightarrow> set_fields n r) old = old"
    using old by (intro map_idI) simp
  ultimately show ?thesis by (simp add: update_rows_table [OF d])
qed

context node_repository
begin

lemma failed_rows:
  assumes "inv s" and "node \<in> set (rows s)" and "TransitionToFailed repo (Some node) req s = (Ok (), s')"
  shows "inv s' \<and> (n_State node = FAILED \<and> rows s' = rows s \<or>
     n_State node \<in> {READY, IN_PROGRESS} \<and> rows s' = set_state (n_ID node) FAILED (u_ExtendedState req) (rows s))"
proof (cases "n_State node = FAILED")
  case True
  with assms show ?thesis by (simp add: TransitionToFailed_def op_simps)
next
  case False
  then have c: "canTransitionToFailed (n_State node)"
    using assms(3) by (simp add: TransitionToFailed_def op_simps split: if_splits)
  with False assms(3) have "repo_Update repo [node\<lparr>n_State := FAILED, n_ExtendedState := u_ExtendedState req\<rparr>] s = (Ok (), s')"
    by (simp add: TransitionToFailed_def op_simps)
  from update [OF assms(1) this] c ids_distinct [OF assms(1)] assms(2) show ?thesis
    by (auto simp: update_rows_def update_row_set_state canTransitionToFailed_def)
qed

lemma in_progress_rows:
  assumes "inv s" and "node \<in> set (rows s)" and "TransitionToInProgress repo sp (Some node) req s = (Ok (), s')"
  shows "inv s' \<and> n_State node \<in> {READY, IN_PROGRESS, FAILED} \<and>
     rows s' = set_state (n_ID node) IN_PROGRESS (u_ExtendedState req) (rows s)"
proof (cases "ptr_eq sp (u_ExtendedState req) (n_ExtendedState node) \<and> n_State node = IN_PROGRESS")
  case True
  then have same: "n_ExtendedState node = u_ExtendedState req" by (auto simp: ptr_eq_def)
  have "r\<lparr>n_State := IN_PROGRESS, n_ExtendedState := u_ExtendedState req\<rparr> = r"
    if "r \<in> set (rows s)" "n_ID r = n_ID node" for r
  proof -
    have "r = node" using that assms(2) ids_distinct [OF assms(1)] by (metis distinct_map inj_onD)
    with True same show ?thesis by (cases r) simp
  qed
  then have "set_state (n_ID node) IN_PROGRESS (u_ExtendedState req) (rows s) = rows s"
    by (auto simp: set_state_def update_where_def intro!: map_idI)
  with True assms show ?thesis by (simp add: TransitionToInProgress_def op_simps)
next
  case False
  then have c: "canTransitionToInProgress (n_State node)"
    using assms(3) by (simp add: TransitionToInProgress_def op_simps split: if_splits)
  with False assms(3) have "repo_Update repo [node\<lparr>n_State := IN_PROGRESS, n_ExtendedState := u_ExtendedState req\<rparr>] s = (Ok (), s')"
    by (auto simp: TransitionToInProgress_def op_simps split: if_splits)
  from update [OF assms(1) this] c ids_distinct [OF assms(1)] assms(2) show ?thesis
    by (auto simp: update_rows_def update_row_set_state canTransitionToInProgress_def)
qed

lemma init_rows:
  assumes "inv s" and "InitializeNodesFromTemplates repo w ts s = (Ok (created, ready, endNode), s')"
  shows "inv s' \<and> rows s' = rows s @ created \<and> init_nodes_ok w ts created \<and> ready = filter init_ready created"
proof (cases "ts = []")
  case True
  with assms show ?thesis by (simp add: InitializeNodesFromTemplates_def op_simps init_nodes_ok_def)
next
  case False
  then obtain ns s1 acc where c: "repo_Create repo (map (new_node w) ts) s = (Ok ns, s1)"
    and l: "init_loop (template_map ts []) (by_template ns []) (map (\<lambda>(tid, n). (tid, n_ID n)) (by_template ns [])) ns
       \<lparr>ia_created = [], ia_toUpdate = [], ia_newReady = [], ia_endNodeID = None\<rparr> = Ok acc"
    and u: "(if ia_toUpdate acc \<noteq> []
             then wrapS ''failed to update workflow nodes with dependencies'' [] (repo_Update repo (ia_toUpdate acc))
             else returnS ()) s1 = (Ok (), s')"
    and res: "created = ia_created acc" "ready = ia_newReady acc"
    using assms(2) by (auto simp: InitializeNodesFromTemplates_def op_simps Let_def)
  let ?nb = "by_template ns []"
  from create [OF assms(1) c] have s1: "inv s1" "rows s1 = rows s @ ns"
    and new: "list_all2 (\<lambda>n n'. n' = n\<lparr>n_ID := n_ID n'\<rparr>) (map (new_node w) ts) ns" by auto
  from init_loop_spec [OF l] obtain ns' where
    ns': "list_all2 (\<lambda>n n'. \<exists>t. map_get (template_map ts []) (n_WorkflowNodeTemplateID n) = Some t
        \<and> init_node ?nb (map (\<lambda>(tid, n). (tid, n_ID n)) ?nb) t n = Ok n') ns ns'"
    and acc: "created = ns'" "ia_toUpdate acc = ns'" "ready = filter init_ready ns'"
    using res by auto
  have fresh: "n_State n = LOCKED \<and> n_UnlockConfiguration n = None \<and> n_WorkflowID n = w
      \<and> n_ExtendedState n = None \<and> n_Outcome n = None" if mem: "n \<in> set ns" for n
  proof -
    from mem obtain i where i: "i < length ns" "n = ns ! i" by (auto simp: in_set_conv_nth)
    with new have "n = (new_node w (ts ! i))\<lparr>n_ID := n_ID n\<rparr>"
      by (auto simp: list_all2_conv_all_nth)
    then have "n_State n = n_State ((new_node w (ts ! i))\<lparr>n_ID := n_ID n\<rparr>)"
      "n_UnlockConfiguration n = n_UnlockConfiguration ((new_node w (ts ! i))\<lparr>n_ID := n_ID n\<rparr>)"
      "n_WorkflowID n = n_WorkflowID ((new_node w (ts ! i))\<lparr>n_ID := n_ID n\<rparr>)"
      "n_ExtendedState n = n_ExtendedState ((new_node w (ts ! i))\<lparr>n_ID := n_ID n\<rparr>)"
      "n_Outcome n = n_Outcome ((new_node w (ts ! i))\<lparr>n_ID := n_ID n\<rparr>)"
      by metis+
    then show ?thesis by (simp add: new_node_def)
  qed
  have tids: "map n_WorkflowNodeTemplateID ns = map t_ID ts"
  proof -
    have "n_WorkflowNodeTemplateID n' = t_ID t" if "n' = (new_node w t)\<lparr>n_ID := n_ID n'\<rparr>" for n' t
      by (subst that) (simp add: new_node_def)
    then show ?thesis
      using new by (auto simp: list_all2_conv_all_nth intro!: nth_equalityI)
  qed
  have step: "list_all2 (\<lambda>n n'. n_ID n' = n_ID n \<and> n_WorkflowID n' = n_WorkflowID n
      \<and> n_WorkflowNodeTemplateID n' = n_WorkflowNodeTemplateID n \<and> set_fields n' n = n'
      \<and> n_State n' = (if init_ready n' then READY else LOCKED)
      \<and> (\<exists>t \<in> set ts. t_ID t = n_WorkflowNodeTemplateID n'
           \<and> (n_UnlockConfiguration n' = None \<longleftrightarrow> t_UnlockConfiguration t = None)
           \<and> n_DependsOn n' = resolve_deps (t_DependsOn t) ?nb)) ns ns'"
    using ns'
  proof (rule list.rel_mono_strong, goal_cases)
    case (1 n n')
    then obtain t where t: "map_get (template_map ts []) (n_WorkflowNodeTemplateID n) = Some t"
      and i: "init_node ?nb (map (\<lambda>(tid, n). (tid, n_ID n)) ?nb) t n = Ok n'" by blast
    from template_map_get [OF t] have "t \<in> set ts" "t_ID t = n_WorkflowNodeTemplateID n" by auto
    with init_node_fields [OF i] fresh [OF 1(1)] i show ?case
      by (auto simp: init_ready_def set_fields_def init_node_def Let_def res_simps split: option.splits if_splits)
  qed
  have ids: "map n_ID ns' = map n_ID ns"
    using step by (induction rule: list_all2_induct) auto
  have idset: "n_ID ` set ns' = n_ID ` set ns" using ids by (metis image_set)
  have tids': "map n_WorkflowNodeTemplateID ns' = map n_WorkflowNodeTemplateID ns"
    using step by (induction rule: list_all2_induct) auto
  have dist: "distinct (map n_ID (rows s @ ns))" using ids_distinct [OF s1(1)] s1(2) by simp
  have upd: "update_rows ns' (rows s @ ns) = rows s @ ns'"
    by (rule update_rows_append [OF dist]) (rule list_all2_mono [OF step], blast)
  have deps: "set (resolve_deps tids ?nb) \<subseteq> {n_ID q |q. q \<in> set ns' \<and> n_WorkflowNodeTemplateID q \<in> set tids}" for tids
  proof
    fix d assume "d \<in> set (resolve_deps tids ?nb)"
    then obtain n tid where n: "tid \<in> set tids" "map_get ?nb tid = Some n" "d = n_ID n"
      by (auto simp: resolve_deps_set)
    from by_template_get [OF n(2)] have "n \<in> set ns" "n_WorkflowNodeTemplateID n = tid" by auto
    then obtain i where i: "i < length ns" "n = ns ! i" by (auto simp: in_set_conv_nth)
    with step have "i < length ns'" "n_ID (ns' ! i) = n_ID n" "n_WorkflowNodeTemplateID (ns' ! i) = tid"
      using \<open>n_WorkflowNodeTemplateID n = tid\<close> by (auto simp: list_all2_conv_all_nth)
    with n show "d \<in> {n_ID q |q. q \<in> set ns' \<and> n_WorkflowNodeTemplateID q \<in> set tids}"
      by (metis (mono_tags, lifting) mem_Collect_eq nth_mem)
  qed
  have ok: "init_nodes_ok w ts ns'"
    unfolding init_nodes_ok_def
  proof (intro conjI ballI)
    show "map n_WorkflowNodeTemplateID ns' = map t_ID ts" by (simp add: tids tids')
    fix n' assume "n' \<in> set ns'"
    then obtain i where i: "i < length ns'" "n' = ns' ! i" by (auto simp: in_set_conv_nth)
    with step obtain t where t: "t \<in> set ts" "t_ID t = n_WorkflowNodeTemplateID n'"
      "n_UnlockConfiguration n' = None \<longleftrightarrow> t_UnlockConfiguration t = None"
      "n_DependsOn n' = resolve_deps (t_DependsOn t) ?nb"
      "n_State n' = (if init_ready n' then READY else LOCKED)" "n_WorkflowID n' = n_WorkflowID (ns ! i)"
      and "i < length ns"
      by (auto simp: list_all2_conv_all_nth)
    show "n_State n' = (if init_ready n' then READY else LOCKED)" by (rule t)
    show "n_WorkflowID n' = w" using t fresh \<open>i < length ns\<close> by simp
    show "set (n_DependsOn n') \<subseteq> n_ID ` set ns'"
      using deps [of "t_DependsOn t"] by (auto simp: t)
    show "\<exists>t \<in> set ts. t_ID t = n_WorkflowNodeTemplateID n' \<and>
        (n_UnlockConfiguration n' = None \<longleftrightarrow> t_UnlockConfiguration t = None) \<and>
        set (n_DependsOn n') \<subseteq> {n_ID q |q. q \<in> set ns' \<and> n_WorkflowNodeTemplateID q \<in> set (t_DependsOn t)}"
      using t deps [of "t_DependsOn t"] by (intro bexI [of _ t]) simp_all
  qed
  have "inv s' \<and> rows s' = rows s @ ns'"
  proof (cases "ns' = []")
    case True
    with u acc ids s1 show ?thesis by (simp add: op_simps)
  next
    case False
    with u acc have "repo_Update repo ns' s1 = (Ok (), s')" by (simp add: op_simps)
    from update [OF s1(1) this] upd show ?thesis by (simp add: s1)
  qed
  with ok acc show ?thesis by simp
qed

end

end
