(* ===== verification/WorkflowInvariants.thy ===== *)
theory WorkflowInvariants
  imports WorkflowStateMachine
begin

text \<open>
  Invariants of the workflow engine over every sequence of the operations of
  \<open>WorkflowStateMachine\<close>: dependencies point into their own workflow, a node that is not LOCKED
  had all its dependencies completed, no LOCKED node is forgotten once its dependencies are
  complete, and therefore a workflow without unlock configurations never deadlocks.
\<close>

section \<open>Steps\<close>

text \<open>
  The operations as the manager runs them: the node is loaded from the repository, then moved.
  \<open>E\<close> holds the end nodes the completion configurations name.
\<close>

inductive node_step :: "'s WorkflowNodeRepository \<Rightarrow> string set \<Rightarrow> 's \<Rightarrow> 's \<Rightarrow> bool" for repo E where
  initialize: "InitializeNodesFromTemplates repo w ts s = (Ok created, s') \<Longrightarrow> node_step repo E s s'"
| completed: "repo_GetByID repo i s = (Ok node, s1) \<Longrightarrow> set_option (EndNodeID cfg) \<subseteq> E \<Longrightarrow>
    TransitionToCompleted repo (Some node) req [Some cfg] s1 = (Ok plan, s') \<Longrightarrow> node_step repo E s s'"
| failed: "repo_GetByID repo i s = (Ok node, s1) \<Longrightarrow>
    TransitionToFailed repo (Some node) req s1 = (Ok (), s') \<Longrightarrow> node_step repo E s s'"
| in_progress: "repo_GetByID repo i s = (Ok node, s1) \<Longrightarrow>
    TransitionToInProgress repo same_ptr (Some node) req s1 = (Ok (), s') \<Longrightarrow> node_step repo E s s'"

inductive node_run :: "'s WorkflowNodeRepository \<Rightarrow> string set \<Rightarrow> 's \<Rightarrow> 's \<Rightarrow> bool" for repo E where
  run_refl: "node_run repo E s s"
| run_step: "node_run repo E s t \<Longrightarrow> node_step repo E t u \<Longrightarrow> node_run repo E s u"

section \<open>The invariant\<close>

definition is_done :: "WorkflowNode list \<Rightarrow> string \<Rightarrow> string \<Rightarrow> bool" where
  "is_done rows w d \<longleftrightarrow> (\<exists>q \<in> set rows. n_ID q = d \<and> n_WorkflowID q = w \<and> n_State q = COMPLETED)"

definition deps_closed :: "WorkflowNode list \<Rightarrow> bool" where
  "deps_closed rows \<longleftrightarrow>
     (\<forall>r \<in> set rows. \<forall>d \<in> set (n_DependsOn r). \<exists>q \<in> set rows. n_ID q = d \<and> n_WorkflowID q = n_WorkflowID r)"

definition deps_met :: "WorkflowNode list \<Rightarrow> bool" where
  "deps_met rows \<longleftrightarrow>
     (\<forall>r \<in> set rows. n_State r \<noteq> LOCKED \<and> n_UnlockConfiguration r = None \<longrightarrow>
        (\<forall>d \<in> set (n_DependsOn r). is_done rows (n_WorkflowID r) d))"

definition none_forgotten :: "WorkflowNode list \<Rightarrow> bool" where
  "none_forgotten rows \<longleftrightarrow>
     (\<forall>r \<in> set rows. n_State r = LOCKED \<and> n_UnlockConfiguration r = None \<longrightarrow>
        (\<exists>d \<in> set (n_DependsOn r). \<not> is_done rows (n_WorkflowID r) d))"

definition no_deps_on :: "string set \<Rightarrow> WorkflowNode list \<Rightarrow> bool" where
  "no_deps_on E rows \<longleftrightarrow> (\<forall>r \<in> set rows. set (n_DependsOn r) \<inter> E = {})"

definition wf_ok :: "string set \<Rightarrow> WorkflowNode list \<Rightarrow> bool" where
  "wf_ok E rows \<longleftrightarrow> deps_closed rows \<and> deps_met rows \<and> (no_deps_on E rows \<longrightarrow> none_forgotten rows)"

lemma wf_ok_empty: "wf_ok E []"
  by (simp add: wf_ok_def deps_closed_def deps_met_def none_forgotten_def)

text \<open>Changes that keep ids, dependencies and what is LOCKED or COMPLETED keep the invariant.\<close>

definition same_shape :: "WorkflowNode \<Rightarrow> WorkflowNode \<Rightarrow> bool" where
  "same_shape r r' \<longleftrightarrow> n_ID r' = n_ID r \<and> n_WorkflowID r' = n_WorkflowID r \<and> n_DependsOn r' = n_DependsOn r
     \<and> n_UnlockConfiguration r' = n_UnlockConfiguration r"

lemma wf_ok_map:
  assumes "\<forall>r \<in> set rows. same_shape r (f r) \<and> (n_State (f r) = LOCKED \<longleftrightarrow> n_State r = LOCKED)
      \<and> (n_State (f r) = COMPLETED \<longleftrightarrow> n_State r = COMPLETED)"
    and "wf_ok E rows"
  shows "wf_ok E (map f rows)"
proof -
  have d: "is_done (map f rows) w d \<longleftrightarrow> is_done rows w d" for w d
    using assms(1) by (auto simp: is_done_def same_shape_def)
  have "no_deps_on E (map f rows) \<longleftrightarrow> no_deps_on E rows"
    using assms(1) by (auto simp: no_deps_on_def same_shape_def)
  moreover have "deps_closed (map f rows) \<longleftrightarrow> deps_closed rows"
    using assms(1) by (simp add: deps_closed_def same_shape_def)
  moreover have "deps_met (map f rows) \<longleftrightarrow> deps_met rows"
    using assms(1) by (simp add: deps_met_def d same_shape_def)
  moreover have "none_forgotten (map f rows) \<longleftrightarrow> none_forgotten rows"
    using assms(1) by (simp add: none_forgotten_def d same_shape_def)
  ultimately show ?thesis using assms(2) by (simp add: wf_ok_def)
qed

lemma wf_ok_set_state:
  assumes "distinct (map n_ID rows)" and "node \<in> set rows" and "n_State node \<notin> {LOCKED, COMPLETED}"
    and "st \<notin> {LOCKED, COMPLETED}" and "wf_ok E rows"
  shows "wf_ok E (set_state (n_ID node) st ext rows)"
  unfolding set_state_def update_where_def
proof (rule wf_ok_map [OF _ assms(5)], intro ballI)
  fix r assume r: "r \<in> set rows"
  have "n_ID r = n_ID node \<Longrightarrow> r = node" using r assms(1,2) by (metis distinct_map inj_onD)
  then show "same_shape r (if n_ID r = n_ID node then r\<lparr>n_State := st, n_ExtendedState := ext\<rparr> else r) \<and>
      (n_State (if n_ID r = n_ID node then r\<lparr>n_State := st, n_ExtendedState := ext\<rparr> else r) = LOCKED \<longleftrightarrow> n_State r = LOCKED) \<and>
      (n_State (if n_ID r = n_ID node then r\<lparr>n_State := st, n_ExtendedState := ext\<rparr> else r) = COMPLETED \<longleftrightarrow> n_State r = COMPLETED)"
    using assms(3,4) by (auto simp: same_shape_def)
qed

section \<open>Initialisation keeps the invariant\<close>

lemma wf_ok_init:
  assumes "wf_ok E rows" and "init_nodes_ok w ts ns"
    and "distinct (map n_ID (rows @ ns))"
  shows "wf_ok E (rows @ ns)"
proof -
  have n: "n_WorkflowID n = w" "set (n_DependsOn n) \<subseteq> n_ID ` set ns"
    "n_State n = (if init_ready n then READY else LOCKED)" if "n \<in> set ns" for n
    using assms(2) that by (auto simp: init_nodes_ok_def)
  have nc: "n_State n \<noteq> COMPLETED" if "n \<in> set ns" for n using n(3) [OF that] by simp
  have d: "is_done (rows @ ns) v d \<longleftrightarrow> is_done rows v d" for v d
    using nc by (auto simp: is_done_def)
  have "deps_closed (rows @ ns)"
    unfolding deps_closed_def
  proof (intro ballI)
    fix r d assume r: "r \<in> set (rows @ ns)" and dep: "d \<in> set (n_DependsOn r)"
    show "\<exists>q \<in> set (rows @ ns). n_ID q = d \<and> n_WorkflowID q = n_WorkflowID r"
    proof (cases "r \<in> set ns")
      case True
      with n(2) dep obtain q where "q \<in> set ns" "n_ID q = d" by blast
      with n(1) True show ?thesis by (intro bexI [of _ q]) simp_all
    next
      case False
      with r dep assms(1) show ?thesis by (auto simp: wf_ok_def deps_closed_def)
    qed
  qed
  moreover have "deps_met (rows @ ns)"
  proof -
    have "n_DependsOn r = []" if "r \<in> set ns" "n_State r \<noteq> LOCKED" for r
      using n(3) [OF that(1)] that(2) by (auto simp: init_ready_def split: if_splits)
    then show ?thesis using assms(1) by (auto simp: wf_ok_def deps_met_def d)
  qed
  moreover have "none_forgotten (rows @ ns)" if "no_deps_on E (rows @ ns)"
  proof -
    have old: "none_forgotten rows" using that assms(1) by (simp add: wf_ok_def no_deps_on_def)
    have "\<exists>d \<in> set (n_DependsOn r). \<not> is_done rows (n_WorkflowID r) d"
      if r: "r \<in> set ns" "n_State r = LOCKED" "n_UnlockConfiguration r = None" for r
    proof -
      have "n_DependsOn r \<noteq> []" using n(3) [OF r(1)] r(2,3) by (auto simp: init_ready_def)
      then obtain d where dep: "d \<in> set (n_DependsOn r)" by (cases "n_DependsOn r") auto
      then have "d \<notin> n_ID ` set rows" using n(2) [OF r(1)] assms(3) by auto
      then have "\<not> is_done rows (n_WorkflowID r) d" by (auto simp: is_done_def)
      with dep show ?thesis by blast
    qed
    with old show ?thesis by (auto simp: none_forgotten_def d)
  qed
  ultimately show ?thesis by (simp add: wf_ok_def)
qed

section \<open>Completion keeps the invariant\<close>

text \<open>
  The situation after \<open>completed_rows\<close>: the node is READY or IN\_PROGRESS, \<open>us\<close> are the nodes the
  loop unlocked; \<open>row_after\<close> is what each row has become.
\<close>

definition siblings :: "WorkflowNode list \<Rightarrow> WorkflowNode \<Rightarrow> WorkflowNode list" where
  "siblings rows node = filter (\<lambda>n. n_WorkflowID n = n_WorkflowID node) rows"

definition row_after ::
    "WorkflowNode list \<Rightarrow> WorkflowNode \<Rightarrow> UpdateWorkflowNodeDTO \<Rightarrow> WorkflowCompletionConfig option
       \<Rightarrow> WorkflowNode list \<Rightarrow> WorkflowNode \<Rightarrow> WorkflowNode" where
  "row_after rows node req cfg us r =
     (if n_WorkflowID r = n_WorkflowID node
      then the (final_table cfg (completed_node node req) (siblings rows node) us (n_ID r)) else r)"

text \<open>\<open>f\<close> gives what each row has become.\<close>

definition completion ::
    "WorkflowNode list \<Rightarrow> WorkflowNode \<Rightarrow> UpdateWorkflowNodeDTO \<Rightarrow> WorkflowCompletionConfig option
       \<Rightarrow> WorkflowNode list \<Rightarrow> (WorkflowNode \<Rightarrow> WorkflowNode) \<Rightarrow> bool" where
  "completion rows node req cfg us f \<longleftrightarrow>
     distinct (map n_ID rows) \<and> node \<in> set rows \<and> (n_State node = READY \<or> n_State node = IN_PROGRESS) \<and>
     unlocked_from (completed_node node req) (siblings rows node) us \<and> f = row_after rows node req cfg us"

lemma completionD:
  assumes "completion rows node req cfg us f"
  shows "distinct (map n_ID rows)" and "node \<in> set rows" and "n_State node = READY \<or> n_State node = IN_PROGRESS"
    and "unlocked_from (completed_node node req) (siblings rows node) us"
    and "distinct (map n_ID (siblings rows node))" and "node \<in> set (siblings rows node)" and "n_State node \<noteq> LOCKED"
    and "f r = row_after rows node req cfg us r"
  using assms by (auto simp: completion_def siblings_def distinct_map_filter)

lemma node_fields: "n_ID (completed_node node req) = n_ID node" "n_State (completed_node node req) = COMPLETED"
  by (simp_all add: completed_node_def)

lemma row_inj: "distinct (map n_ID rows) \<Longrightarrow> r \<in> set rows \<Longrightarrow> q \<in> set rows \<Longrightarrow> n_ID r = n_ID q \<Longrightarrow> r = q"
  by (metis distinct_map inj_onD)

lemma after_effect:
  assumes c: "completion rows node req cfg us f" and "r \<in> set rows"
  shows "if n_WorkflowID r = n_WorkflowID node then completed_effect cfg (completed_node node req) r (f r) else f r = r"
proof (cases "n_WorkflowID r = n_WorkflowID node")
  case True
  then have rW: "r \<in> set (siblings rows node)" using assms(2) by (simp add: siblings_def)
  then have "final_table cfg (completed_node node req) (siblings rows node) us (n_ID r) \<noteq> None"
    using final_dom [OF completionD(6) [OF c] node_fields(1) [symmetric] completionD(4) [OF c]] by auto
  then obtain q where q: "final_table cfg (completed_node node req) (siblings rows node) us (n_ID r) = Some q" by blast
  from final_effect [OF completionD(5) [OF c] completionD(6) [OF c] node_fields(1) [symmetric] completionD(7) [OF c] node_fields(2) completionD(4) [OF c] q]
  obtain r0 where "r0 \<in> set (siblings rows node)" "n_ID r0 = n_ID r" "completed_effect cfg (completed_node node req) r0 q" by blast
  moreover from this have "r0 = r" using rW by (intro row_inj [OF completionD(1) [OF c]]) (auto simp: siblings_def)
  ultimately show ?thesis using True q by (simp add: completionD(8) [OF c] row_after_def)
next
  case False
  then show ?thesis by (simp add: completionD(8) [OF c] row_after_def)
qed

lemma after_node:
  assumes c: "completion rows node req cfg us f"
  shows "f node = completed_node node req"
  using after_effect [OF c completionD(2) [OF c]] by (simp add: completed_effect_def node_fields)

lemma after_other:
  assumes c: "completion rows node req cfg us f" and "r \<in> set rows" "r \<noteq> node"
  shows "f r = r \<or> (n_State r = LOCKED \<and> f r = r\<lparr>n_State := READY\<rparr>)
     \<or> (config_end_node cfg = Some (n_ID r) \<and> n_State r \<in> {LOCKED, READY} \<and> f r = r\<lparr>n_State := COMPLETED\<rparr>)"
proof -
  have "n_ID r \<noteq> n_ID node" using assms(2,3) row_inj [OF completionD(1) [OF c]] completionD(2) [OF c] by blast
  with after_effect [OF assms(1,2)] show ?thesis
    by (auto simp: completed_effect_def node_fields split: if_splits)
qed

lemma after_shape:
  assumes c: "completion rows node req cfg us f" and "r \<in> set rows"
  shows "same_shape r (f r)"
proof (cases "r = node")
  case True
  then show ?thesis by (simp add: after_node [OF c] completed_node_def same_shape_def)
next
  case False
  from after_other [OF assms this] show ?thesis by (auto simp: same_shape_def)
qed

lemma after_completed:
  assumes c: "completion rows node req cfg us f" and "r \<in> set rows" and "n_State r = COMPLETED"
  shows "f r = r"
proof -
  have "r \<noteq> node" using assms(3) completionD(3) [OF c] by auto
  from after_other [OF c assms(2) this] assms(3) show ?thesis by auto
qed

lemma after_unlocked:
  assumes c: "completion rows node req cfg us f" and "r \<in> set rows" "n_State r = LOCKED" "n_UnlockConfiguration r = None"
  shows "n_State (f r) \<noteq> LOCKED \<longleftrightarrow> n_WorkflowID r = n_WorkflowID node \<and>
     (\<forall>d \<in> set (n_DependsOn r). d = n_ID node \<or> is_done rows (n_WorkflowID r) d)"
proof (cases "n_WorkflowID r = n_WorkflowID node")
  case False
  then show ?thesis using assms by (simp add: completionD(8) [OF c] row_after_def)
next
  case True
  then have rW: "r \<in> set (siblings rows node)" using assms(2) by (simp add: siblings_def)
  have "n_State (f r) \<noteq> LOCKED \<longleftrightarrow> n_ID r \<in> n_ID ` set us"
    using final_unlocked [OF completionD(5) [OF c] completionD(6) [OF c] node_fields(1) [symmetric] completionD(7) [OF c] completionD(4) [OF c] rW assms(3)] True
    by (simp add: completionD(8) [OF c] row_after_def)
  also have "\<dots> \<longleftrightarrow> (\<forall>d \<in> set (n_DependsOn r). \<exists>q. pre_table (completed_node node req) (siblings rows node) d = Some q \<and> n_State q = COMPLETED)"
    using completionD(4) [OF c] rW assms by (auto simp: unlocked_from_def)
  also have "\<dots> \<longleftrightarrow> (\<forall>d \<in> set (n_DependsOn r). d = n_ID node \<or> is_done rows (n_WorkflowID r) d)"
  proof -
    have "(\<exists>q. pre_table (completed_node node req) (siblings rows node) d = Some q \<and> n_State q = COMPLETED) \<longleftrightarrow>
        d = n_ID node \<or> is_done rows (n_WorkflowID r) d" for d
      using True node_table_iff [OF completionD(5) [OF c], of d]
      by (auto simp: pre_table_def node_fields is_done_def siblings_def)
    then show ?thesis by simp
  qed
  finally show ?thesis using True by simp
qed

lemma done_after:
  assumes c: "completion rows node req cfg us f"
  shows "is_done (map f rows) w d \<Longrightarrow> is_done rows w d \<or> (w = n_WorkflowID node \<and> d = n_ID node) \<or> config_end_node cfg = Some d"
proof -
  assume "is_done (map f rows) w d"
  then obtain r where r: "r \<in> set rows" "n_ID (f r) = d" "n_WorkflowID (f r) = w" "n_State (f r) = COMPLETED"
    by (auto simp: is_done_def)
  then have s: "n_ID r = d" "n_WorkflowID r = w" using after_shape [OF c r(1)] by (auto simp: same_shape_def)
  show ?thesis
  proof (cases "r = node")
    case True
    with s show ?thesis by blast
  next
    case False
    from after_other [OF c r(1) this] r s show ?thesis by (auto simp: is_done_def)
  qed
qed

lemma done_mono:
  assumes c: "completion rows node req cfg us f" and "is_done rows w d"
  shows "is_done (map f rows) w d"
proof -
  from assms(2) obtain q where q: "q \<in> set rows" "n_ID q = d" "n_WorkflowID q = w" "n_State q = COMPLETED"
    by (auto simp: is_done_def)
  with after_completed [OF c q(1,4)] show ?thesis unfolding is_done_def by (intro bexI [of _ q]) force+
qed

lemma done_node:
  assumes c: "completion rows node req cfg us f"
  shows "is_done (map f rows) (n_WorkflowID node) (n_ID node)"
proof -
  have "completed_node node req \<in> set (map f rows)"
    using after_node [OF c] completionD(2) [OF c] by (metis image_eqI list.set_map)
  then show ?thesis unfolding is_done_def
    by (rule bexI [rotated]) (simp add: completed_node_def)
qed

lemma wf_ok_after:
  assumes c: "completion rows node req cfg us f"
    and ok: "wf_ok E rows" and E: "set_option (config_end_node cfg) \<subseteq> E"
  shows "wf_ok E (map f rows)"
proof -
  have shape: "n_ID (f r) = n_ID r" "n_WorkflowID (f r) = n_WorkflowID r" "n_DependsOn (f r) = n_DependsOn r"
    "n_UnlockConfiguration (f r) = n_UnlockConfiguration r" if "r \<in> set rows" for r
    using after_shape [OF c that] by (auto simp: same_shape_def)
  have "deps_closed (map f rows)"
    using ok by (simp add: wf_ok_def deps_closed_def shape)
  moreover have "deps_met (map f rows)"
    unfolding deps_met_def
  proof (intro ballI impI)
    fix r' d assume r': "r' \<in> set (map f rows)" "n_State r' \<noteq> LOCKED \<and> n_UnlockConfiguration r' = None"
      and d: "d \<in> set (n_DependsOn r')"
    then obtain r where r: "r \<in> set rows" "r' = f r" by auto
    show "is_done (map f rows) (n_WorkflowID r') d"
    proof (cases "n_State r = LOCKED")
      case True
      with after_unlocked [OF c r(1)] r r' d shape [OF r(1)]
      have "n_WorkflowID r = n_WorkflowID node" "d = n_ID node \<or> is_done rows (n_WorkflowID r) d" by auto
      with done_mono [OF c] done_node [OF c] r shape [OF r(1)] show ?thesis by auto
    next
      case False
      with ok r r' d shape [OF r(1)] have "is_done rows (n_WorkflowID r) d"
        by (auto simp: wf_ok_def deps_met_def)
      with done_mono [OF c] r shape [OF r(1)] show ?thesis by simp
    qed
  qed
  moreover have "none_forgotten (map f rows)" if nd: "no_deps_on E (map f rows)"
    unfolding none_forgotten_def
  proof (intro ballI impI)
    fix r' assume r': "r' \<in> set (map f rows)" "n_State r' = LOCKED \<and> n_UnlockConfiguration r' = None"
    then obtain r where r: "r \<in> set rows" "r' = f r" by auto
    have nd': "no_deps_on E rows" using nd by (simp add: no_deps_on_def shape)
    have "n_State r = LOCKED"
      using after_other [OF c r(1)] r r' after_node [OF c] node_fields by (cases "r = node") auto
    with after_unlocked [OF c r(1)] r r' shape [OF r(1)]
    have "n_WorkflowID r \<noteq> n_WorkflowID node \<or>
        (\<exists>d \<in> set (n_DependsOn r). d \<noteq> n_ID node \<and> \<not> is_done rows (n_WorkflowID r) d)" by auto
    moreover have "\<exists>d \<in> set (n_DependsOn r). \<not> is_done rows (n_WorkflowID r) d"
      using ok nd' r \<open>n_State r = LOCKED\<close> r' shape [OF r(1)] by (auto simp: wf_ok_def none_forgotten_def)
    ultimately obtain d where d: "d \<in> set (n_DependsOn r)" "\<not> is_done rows (n_WorkflowID r) d"
      "\<not> (n_WorkflowID r = n_WorkflowID node \<and> d = n_ID node)" by blast
    have "d \<notin> E" using nd' d(1) r(1) by (auto simp: no_deps_on_def)
    then have "config_end_node cfg \<noteq> Some d" using E by auto
    with done_after [OF c] d have "\<not> is_done (map f rows) (n_WorkflowID r) d" by blast
    with d(1) r shape [OF r(1)] show "\<exists>d \<in> set (n_DependsOn r'). \<not> is_done (map f rows) (n_WorkflowID r') d"
      by auto
  qed
  ultimately show ?thesis by (simp add: wf_ok_def)
qed



section \<open>Every run keeps the invariant\<close>

text \<open>The state changes a node can undergo.\<close>

definition state_edge :: "WorkflowNodeState \<Rightarrow> WorkflowNodeState \<Rightarrow> bool" where
  "state_edge a b \<longleftrightarrow>
     a = b \<or> (a = LOCKED \<and> b \<in> {READY, COMPLETED}) \<or> (a = READY \<and> b \<in> {IN_PROGRESS, COMPLETED, FAILED})
     \<or> (a = IN_PROGRESS \<and> b \<in> {COMPLETED, FAILED}) \<or> (a = FAILED \<and> b = IN_PROGRESS)"

definition rows_evolve :: "WorkflowNode list \<Rightarrow> WorkflowNode list \<Rightarrow> bool" where
  "rows_evolve rows rows' \<longleftrightarrow>
     (\<forall>r \<in> set rows. \<exists>r' \<in> set rows'. same_shape r r' \<and> state_edge (n_State r) (n_State r')
        \<and> (n_State r = COMPLETED \<longrightarrow> r' = r))"

lemma rows_evolve_refl: "rows_evolve rows rows"
  unfolding rows_evolve_def by (intro ballI bexI) (auto simp: same_shape_def state_edge_def)

lemma rows_evolve_map:
  "(\<And>r. r \<in> set rows \<Longrightarrow> same_shape r (f r) \<and> state_edge (n_State r) (n_State (f r)) \<and> (n_State r = COMPLETED \<longrightarrow> f r = r))
   \<Longrightarrow> rows_evolve rows (map f rows)"
  unfolding rows_evolve_def by force

lemma rows_evolve_append: "rows_evolve rows (rows @ ns)"
  unfolding rows_evolve_def by (intro ballI) (auto simp: same_shape_def state_edge_def)

lemma rows_evolve_set_state:
  assumes "distinct (map n_ID rows)" and "node \<in> set rows" and "state_edge (n_State node) st" and "n_State node \<noteq> COMPLETED"
  shows "rows_evolve rows (set_state (n_ID node) st ext rows)"
  unfolding set_state_def update_where_def
proof (rule rows_evolve_map)
  fix r assume "r \<in> set rows"
  then have "n_ID r = n_ID node \<Longrightarrow> r = node" using row_inj [OF assms(1)] assms(2) by blast
  with assms(3,4) show "same_shape r (if n_ID r = n_ID node then r\<lparr>n_State := st, n_ExtendedState := ext\<rparr> else r) \<and>
      state_edge (n_State r) (n_State (if n_ID r = n_ID node then r\<lparr>n_State := st, n_ExtendedState := ext\<rparr> else r)) \<and>
      (n_State r = COMPLETED \<longrightarrow> (if n_ID r = n_ID node then r\<lparr>n_State := st, n_ExtendedState := ext\<rparr> else r) = r)"
    by (auto simp: same_shape_def state_edge_def)
qed

lemma rows_evolve_completion:
  assumes c: "completion rows node req cfg us f"
  shows "rows_evolve rows (map f rows)"
proof (rule rows_evolve_map, intro conjI)
  fix r assume r: "r \<in> set rows"
  show "same_shape r (f r)" by (rule after_shape [OF c r])
  show "n_State r = COMPLETED \<longrightarrow> f r = r" using after_completed [OF c r] by blast
  show "state_edge (n_State r) (n_State (f r))"
  proof (cases "r = node")
    case True
    then show ?thesis
      using after_node [OF c] completionD(3) [OF c] by (auto simp: node_fields state_edge_def)
  next
    case False
    from after_other [OF c r this] show ?thesis by (auto simp: state_edge_def)
  qed
qed

lemma TransitionToCompleted_done:
  "n_State node = COMPLETED \<Longrightarrow> TransitionToCompleted repo (Some node) req cfgs s = (Ok plan, s') \<Longrightarrow> s' = s"
  by (simp add: TransitionToCompleted_def op_simps)

lemma TransitionToCompleted_open:
  "n_State node \<noteq> COMPLETED \<Longrightarrow> TransitionToCompleted repo (Some node) req cfgs s = (Ok plan, s') \<Longrightarrow>
   n_State node = READY \<or> n_State node = IN_PROGRESS"
  by (cases "canTransitionToCompleted (n_State node)")
    (simp_all add: TransitionToCompleted_def op_simps canTransitionToCompleted_def)

context node_repository
begin

lemma completed_completion:
  assumes "inv s" and "node \<in> set (rows s)" "n_State node = READY \<or> n_State node = IN_PROGRESS"
    and "TransitionToCompleted repo (Some node) req cfgs s = (Ok plan, s')"
    and "cfg = (case cfgs of [] \<Rightarrow> None | c # _ \<Rightarrow> c)"
  obtains us f where "completion (rows s) node req cfg us f" and "inv s'" and "rows s' = map f (rows s)"
proof -
  obtain us where us: "unlocked_from (completed_node node req) (siblings (rows s) node) us" and inv': "inv s'"
    and r: "rows s' = completion_rows (n_WorkflowID node)
        (final_table cfg (completed_node node req) (siblings (rows s) node) us) (rows s)"
    by (rule completed_rows [OF assms(1-4), folded assms(5) siblings_def])
  have "completion (rows s) node req cfg us (row_after (rows s) node req cfg us)"
    using assms us ids_distinct by (simp add: completion_def)
  moreover have "rows s' = map (row_after (rows s) node req cfg us) (rows s)"
    using r by (simp add: completion_rows_def row_after_def)
  ultimately show thesis using inv' that by blast
qed

lemma step_keeps:
  assumes "node_step repo E s s'" and "inv s"
  shows "inv s' \<and> rows_evolve (rows s) (rows s') \<and> (wf_ok E (rows s) \<longrightarrow> wf_ok E (rows s'))"
  using assms
proof (induction rule: node_step.induct)
  case (initialize w ts s created s')
  obtain a b c where abc: "created = (a, b, c)" by (cases created)
  from init_rows [OF initialize(2) initialize(1) [unfolded abc]]
  have r: "inv s'" "rows s' = rows s @ a" "init_nodes_ok w ts a" by auto
  have "distinct (map n_ID (rows s @ a))" using ids_distinct [OF r(1)] r(2) by simp
  with r wf_ok_init show ?case by (auto simp: rows_evolve_append)
next
  case (completed i s node s1 cfg req plan s')
  from get_by_id [OF completed(4) completed(1)] have s1: "inv s1" "rows s1 = rows s" "node \<in> set (rows s1)" by auto
  show ?case
  proof (cases "n_State node = COMPLETED")
    case True
    from TransitionToCompleted_done [OF this completed(3)] s1 show ?thesis by (simp add: rows_evolve_refl)
  next
    case False
    note open_node = TransitionToCompleted_open [OF this completed(3)]
    obtain us f where c: "completion (rows s1) node req (Some cfg) us f" and "inv s'" "rows s' = map f (rows s1)"
      by (rule completed_completion [OF s1(1,3) open_node completed(3), of "Some cfg"]) simp_all
    moreover have "set_option (config_end_node (Some cfg)) \<subseteq> E"
      using completed(2) by (simp add: config_end_node_def)
    ultimately show ?thesis
      using wf_ok_after [OF c] rows_evolve_completion [OF c] s1 by simp
  qed
next
  case (failed i s node s1 req s')
  from get_by_id [OF failed(3) failed(1)] have s1: "inv s1" "rows s1 = rows s" "node \<in> set (rows s1)" by auto
  from failed_rows [OF s1(1,3) failed(2)] s1 wf_ok_set_state [OF ids_distinct [OF s1(1)] s1(3)]
    rows_evolve_set_state [OF ids_distinct [OF s1(1)] s1(3)]
  show ?case by (auto simp: rows_evolve_refl state_edge_def)
next
  case (in_progress i s node s1 same_ptr req s')
  from get_by_id [OF in_progress(3) in_progress(1)] have s1: "inv s1" "rows s1 = rows s" "node \<in> set (rows s1)" by auto
  from in_progress_rows [OF s1(1,3) in_progress(2)] s1 wf_ok_set_state [OF ids_distinct [OF s1(1)] s1(3)]
    rows_evolve_set_state [OF ids_distinct [OF s1(1)] s1(3)]
  show ?case by (auto simp: state_edge_def)
qed

lemma run_keeps:
  assumes "node_run repo E s s'" and "inv s"
  shows "inv s' \<and> (wf_ok E (rows s) \<longrightarrow> wf_ok E (rows s'))"
  using assms by (induction rule: node_run.induct) (use step_keeps in blast)+

lemma run_keeps_completed:
  assumes "node_run repo E s s'" and "inv s" and "r \<in> set (rows s)" and "n_State r = COMPLETED"
  shows "r \<in> set (rows s')"
  using assms
proof (induction rule: node_run.induct)
  case (run_refl s)
  then show ?case by simp
next
  case (run_step s t u)
  then have "r \<in> set (rows t)" "inv t" using run_keeps by blast+
  with step_keeps [OF run_step(2)] run_step.prems show ?case by (fastforce simp: rows_evolve_def)
qed

end

section \<open>No deadlock\<close>

text \<open>A rank that goes down along dependencies: the dependency graph has no cycle.\<close>

definition acyclic_deps :: "string \<Rightarrow> WorkflowNode list \<Rightarrow> bool" where
  "acyclic_deps w rows \<longleftrightarrow>
     (\<exists>rank :: string \<Rightarrow> nat. \<forall>r \<in> set rows. n_WorkflowID r = w \<longrightarrow> (\<forall>d \<in> set (n_DependsOn r). rank d < rank (n_ID r)))"

lemma no_deadlock:
  assumes ok: "wf_ok E rows" and nd: "no_deps_on E rows"
    and plain: "\<forall>r \<in> set rows. n_WorkflowID r = w \<longrightarrow> n_UnlockConfiguration r = None"
    and acyclic: "acyclic_deps w rows"
  shows "(\<forall>r \<in> set rows. n_WorkflowID r = w \<longrightarrow> n_State r = COMPLETED) \<or>
    (\<exists>r \<in> set rows. n_WorkflowID r = w \<and> n_State r \<in> {READY, IN_PROGRESS, FAILED})"
proof (rule ccontr)
  assume neg: "\<not> ?thesis"
  from acyclic obtain rank :: "string \<Rightarrow> nat" where
    rank: "\<forall>r \<in> set rows. n_WorkflowID r = w \<longrightarrow> (\<forall>d \<in> set (n_DependsOn r). rank d < rank (n_ID r))"
    by (auto simp: acyclic_deps_def)
  have locked: "n_State r = LOCKED \<or> n_State r = COMPLETED" if "r \<in> set rows" "n_WorkflowID r = w" for r
    using neg that by (cases "n_State r") auto
  have all: "n_State r = COMPLETED" if "r \<in> set rows" "n_WorkflowID r = w" for r
    using that
  proof (induction "rank (n_ID r)" arbitrary: r rule: less_induct)
    case less
    show ?case
    proof (rule ccontr)
      assume "n_State r \<noteq> COMPLETED"
      then have "n_State r = LOCKED" using locked less.prems by blast
      then obtain d where d: "d \<in> set (n_DependsOn r)" "\<not> is_done rows w d"
        using ok nd plain less.prems by (auto simp: wf_ok_def none_forgotten_def)
      from ok d(1) less.prems obtain q where q: "q \<in> set rows" "n_ID q = d" "n_WorkflowID q = w"
        by (auto simp: wf_ok_def deps_closed_def)
      have "rank (n_ID q) < rank (n_ID r)" using rank less.prems d(1) q(2) by blast
      from less.hyps [OF this q(1,3)] d(2) q show False by (auto simp: is_done_def)
    qed
  qed
  with neg show False by blast
qed


section \<open>The result of a completion\<close>

definition finished_rows :: "string option \<Rightarrow> string \<Rightarrow> WorkflowNode list \<Rightarrow> bool" where
  "finished_rows endNode w rows \<longleftrightarrow>
     (case endNode of
        Some e \<Rightarrow> is_done rows w e
      | None \<Rightarrow> \<forall>r \<in> set rows. n_WorkflowID r = w \<longrightarrow> n_State r = COMPLETED)"

lemma after_table:
  assumes c: "completion rows node req cfg us f" and r: "r \<in> set (siblings rows node)"
  shows "final_table cfg (completed_node node req) (siblings rows node) us (n_ID r) = Some (f r)"
proof -
  have "final_table cfg (completed_node node req) (siblings rows node) us (n_ID r) \<noteq> None"
    using final_dom [OF completionD(6) [OF c] node_fields(1) [symmetric] completionD(4) [OF c]] r by blast
  moreover have "f r = the (final_table cfg (completed_node node req) (siblings rows node) us (n_ID r))"
    using r by (simp add: completionD(8) [OF c] row_after_def siblings_def)
  ultimately show ?thesis by simp
qed

lemma after_table_dom:
  assumes c: "completion rows node req cfg us f"
    and q: "final_table cfg (completed_node node req) (siblings rows node) us i = Some q"
  obtains r where "r \<in> set (siblings rows node)" "n_ID r = i" "q = f r"
proof -
  have "i \<in> n_ID ` set (siblings rows node)"
    using final_dom [OF completionD(6) [OF c] node_fields(1) [symmetric] completionD(4) [OF c]] q by blast
  then obtain r where "r \<in> set (siblings rows node)" "n_ID r = i" by blast
  with after_table [OF c this(1)] q that show thesis by simp
qed

lemma siblings_rows: "r \<in> set (siblings rows node) \<longleftrightarrow> r \<in> set rows \<and> n_WorkflowID r = n_WorkflowID node"
  by (auto simp: siblings_def)

text \<open>A row went from LOCKED to READY exactly when it is in \<open>us\<close> and still READY in the table.\<close>

lemma after_new_ready:
  assumes c: "completion rows node req cfg us f"
  shows "(u \<in> set us \<and> (\<exists>q. final_table cfg (completed_node node req) (siblings rows node) us (n_ID u) = Some q \<and> n_State q = READY))
    \<longleftrightarrow> (\<exists>r \<in> set rows. u = f r \<and> n_State r = LOCKED \<and> n_State (f r) = READY)"
    (is "?L \<longleftrightarrow> ?R")
proof -
  have uf: "\<forall>u \<in> set us. \<exists>r \<in> set (siblings rows node). n_State r = LOCKED \<and> u = ready_node r"
    using completionD(4) [OF c] by (simp add: unlocked_from_def)
  have ready: "f r = ready_node r" if "r \<in> set rows" "n_State r = LOCKED" "n_State (f r) = READY" for r
  proof -
    have "r \<noteq> node" using that completionD(7) [OF c] by blast
    from after_other [OF c that(1) this] that show ?thesis by auto
  qed
  show ?thesis
  proof
    assume ?L
    with uf obtain r where r: "r \<in> set (siblings rows node)" "n_State r = LOCKED" "u = ready_node r" by blast
    with \<open>?L\<close> after_table [OF c r(1)] have "n_State (f r) = READY" by auto
    with r ready siblings_rows show ?R by metis
  next
    assume ?R
    then obtain r where r: "r \<in> set rows" "u = f r" "n_State r = LOCKED" "n_State (f r) = READY" by blast
    have w: "n_WorkflowID r = n_WorkflowID node"
      using after_effect [OF c r(1)] r by (auto split: if_splits)
    then have s: "r \<in> set (siblings rows node)" using r by (simp add: siblings_rows)
    have "n_ID r \<in> n_ID ` set us"
      using final_unlocked [where cfg = cfg, OF completionD(5) [OF c] completionD(6) [OF c] node_fields(1) [symmetric]
          completionD(7) [OF c] completionD(4) [OF c] s r(3)] after_table [OF c s] r(4) by simp
    then obtain v where v: "v \<in> set us" "n_ID v = n_ID r" by auto
    with uf obtain r1 where r1: "r1 \<in> set (siblings rows node)" "v = ready_node r1" by blast
    with v r siblings_rows row_inj [OF completionD(1) [OF c]] have "r1 = r" by force
    with r1 v ready r have "u \<in> set us" "n_ID u = n_ID r" by auto
    with after_table [OF c s] r(4) show ?L by auto
  qed
qed

lemma image_filter_eq:
  "\<forall>r \<in> R. Q (f r) \<longleftrightarrow> A r \<Longrightarrow> {u. \<exists>r \<in> R. u = f r \<and> A r \<and> B (f r)} = {u \<in> f ` R. B u \<and> Q u}"
  by blast

context node_repository
begin

lemma completed_result:
  assumes inv: "inv s" and node: "node \<in> set (rows s)" "n_State node = READY \<or> n_State node = IN_PROGRESS"
    and ok: "TransitionToCompleted repo (Some node) req cfgs s = (Ok plan, s')"
    and cfg: "cfg = (case cfgs of [] \<Rightarrow> None | c # _ \<Rightarrow> c)"
  shows "sorted (map n_ID (UpdatedNodes plan)) \<and> distinct (map n_ID (UpdatedNodes plan))"
    and "set (UpdatedNodes plan) \<subseteq> set (rows s')" and "set (rows s') - set (rows s) \<subseteq> set (UpdatedNodes plan)"
    and "set (NewReadyNodes plan) = {r' \<in> set (rows s'). n_State r' = READY \<and>
        (\<exists>r \<in> set (rows s). n_ID r = n_ID r' \<and> n_State r = LOCKED)}"
    and "WorkflowFinished plan \<longleftrightarrow> finished_rows (config_end_node cfg) (n_WorkflowID node) (rows s')"
proof -
  let ?fm = "\<lambda>us. final_table cfg (completed_node node req) (siblings (rows s) node) us"
  obtain us where us: "unlocked_from (completed_node node req) (siblings (rows s) node) us"
    and rows': "rows s' = completion_rows (n_WorkflowID node) (?fm us) (rows s)"
    and upd: "distinct (map n_ID (UpdatedNodes plan))" "sorted (map n_ID (UpdatedNodes plan))"
      "\<forall>n \<in> set (UpdatedNodes plan). ?fm us (n_ID n) = Some n"
      "\<forall>i. i \<notin> n_ID ` set (UpdatedNodes plan) \<longrightarrow> ?fm us i = node_table (siblings (rows s) node) i"
    and rdy: "\<exists>us'. set us' = set us \<and> distinct us' \<and>
       NewReadyNodes plan = filter (\<lambda>u. \<exists>q. ?fm us (n_ID u) = Some q \<and> n_State q = READY) us'"
    and fin: "WorkflowFinished plan = plan_finished cfg (siblings (rows s) node) (?fm us)"
    by (rule completed_rows [OF inv node ok, folded cfg siblings_def])
  define f where "f = row_after (rows s) node req cfg us"
  have c: "completion (rows s) node req cfg us f"
    using us node ids_distinct [OF inv] by (simp add: completion_def f_def)
  have r': "rows s' = map f (rows s)" using rows' by (simp add: completion_rows_def f_def row_after_def)
  show "sorted (map n_ID (UpdatedNodes plan)) \<and> distinct (map n_ID (UpdatedNodes plan))" using upd by blast
  show "set (UpdatedNodes plan) \<subseteq> set (rows s')"
  proof
    fix n assume "n \<in> set (UpdatedNodes plan)"
    with upd(3) have "?fm us (n_ID n) = Some n" by blast
    from after_table_dom [OF c this] show "n \<in> set (rows s')" by (auto simp: r' siblings_rows)
  qed
  show "set (rows s') - set (rows s) \<subseteq> set (UpdatedNodes plan)"
  proof
    fix q assume q: "q \<in> set (rows s') - set (rows s)"
    then obtain r where r: "r \<in> set (rows s)" "q = f r" by (auto simp: r')
    have w: "n_WorkflowID r = n_WorkflowID node"
      using after_effect [OF c r(1)] q r by (auto split: if_splits)
    then have s: "r \<in> set (siblings (rows s) node)" using r by (simp add: siblings_rows)
    show "q \<in> set (UpdatedNodes plan)"
    proof (cases "n_ID r \<in> n_ID ` set (UpdatedNodes plan)")
      case True
      then obtain n where n: "n \<in> set (UpdatedNodes plan)" "n_ID n = n_ID r" by auto
      with upd(3) have "?fm us (n_ID r) = Some n" by metis
      with after_table [OF c s] r n show ?thesis by simp
    next
      case False
      with upd(4) have "?fm us (n_ID r) = node_table (siblings (rows s) node) (n_ID r)" by blast
      also have "\<dots> = Some r" using s completionD(5) [OF c] by (simp add: node_table_mem)
      finally show ?thesis using after_table [OF c s] r q by simp
    qed
  qed
  have "set (NewReadyNodes plan) = {u \<in> set us. \<exists>q. ?fm us (n_ID u) = Some q \<and> n_State q = READY}"
  proof -
    from rdy obtain us' where "set us' = set us"
      "NewReadyNodes plan = filter (\<lambda>u. \<exists>q. ?fm us (n_ID u) = Some q \<and> n_State q = READY) us'" by blast
    then show ?thesis by (simp only: set_filter)
  qed
  also have "\<dots> = {u. \<exists>r \<in> set (rows s). u = f r \<and> n_State r = LOCKED \<and> n_State (f r) = READY}"
    using after_new_ready [OF c] by blast
  also have "\<dots> = {r' \<in> set (rows s'). n_State r' = READY \<and> (\<exists>r \<in> set (rows s). n_ID r = n_ID r' \<and> n_State r = LOCKED)}"
  proof -
    have "\<forall>r \<in> set (rows s). (\<exists>q \<in> set (rows s). n_ID q = n_ID (f r) \<and> n_State q = LOCKED) \<longleftrightarrow> n_State r = LOCKED"
    proof (intro ballI iffI)
      fix r assume r: "r \<in> set (rows s)"
      have id: "n_ID (f r) = n_ID r" using after_shape [OF c r] by (simp add: same_shape_def)
      show "n_State r = LOCKED" if "\<exists>q \<in> set (rows s). n_ID q = n_ID (f r) \<and> n_State q = LOCKED"
        using that row_inj [OF completionD(1) [OF c] _ r] by (auto simp: id)
      show "\<exists>q \<in> set (rows s). n_ID q = n_ID (f r) \<and> n_State q = LOCKED" if "n_State r = LOCKED"
        using that r id by (intro bexI [of _ r]) simp_all
    qed
    then show ?thesis
      unfolding r' set_map
      by (rule image_filter_eq [where Q = "\<lambda>r'. \<exists>q \<in> set (rows s). n_ID q = n_ID r' \<and> n_State q = LOCKED"])
  qed
  finally show "set (NewReadyNodes plan) = {r' \<in> set (rows s'). n_State r' = READY \<and>
        (\<exists>r \<in> set (rows s). n_ID r = n_ID r' \<and> n_State r = LOCKED)}" .
  show "WorkflowFinished plan \<longleftrightarrow> finished_rows (config_end_node cfg) (n_WorkflowID node) (rows s')"
  proof (cases "config_end_node cfg")
    case None
    have "(\<exists>q. ?fm us (n_ID r) = Some q \<and> n_State q = COMPLETED) \<longleftrightarrow> n_State (f r) = COMPLETED"
      if "r \<in> set (siblings (rows s) node)" for r
      using after_table [OF c that] by simp
    moreover have "n_WorkflowID (f r) = n_WorkflowID r" if "r \<in> set (rows s)" for r
      using after_shape [OF c that] by (simp add: same_shape_def)
    ultimately have "(\<forall>r \<in> set (siblings (rows s) node). \<exists>q. ?fm us (n_ID r) = Some q \<and> n_State q = COMPLETED) \<longleftrightarrow>
        (\<forall>r \<in> set (rows s). n_WorkflowID (f r) = n_WorkflowID node \<longrightarrow> n_State (f r) = COMPLETED)"
      unfolding siblings_def by auto
    then show ?thesis
      using None by (simp add: fin plan_finished_def finished_rows_def r')
  next
    case (Some e)
    have "(\<exists>q. ?fm us e = Some q \<and> n_State q = COMPLETED) \<longleftrightarrow> is_done (map f (rows s)) (n_WorkflowID node) e"
    proof
      assume "\<exists>q. ?fm us e = Some q \<and> n_State q = COMPLETED"
      then obtain q where q: "?fm us e = Some q" "n_State q = COMPLETED" by blast
      from after_table_dom [OF c q(1)] obtain r where r: "r \<in> set (siblings (rows s) node)" "n_ID r = e" "q = f r" .
      then have "r \<in> set (rows s)" "n_WorkflowID r = n_WorkflowID node" by (simp_all add: siblings_rows)
      with q r after_shape [OF c this(1)] show "is_done (map f (rows s)) (n_WorkflowID node) e"
        unfolding is_done_def by (intro bexI [of _ q]) (simp_all add: same_shape_def)
    next
      assume "is_done (map f (rows s)) (n_WorkflowID node) e"
      then obtain r where r: "r \<in> set (rows s)" "n_ID (f r) = e" "n_WorkflowID (f r) = n_WorkflowID node" "n_State (f r) = COMPLETED"
        by (auto simp: is_done_def)
      with after_shape [OF c r(1)] have "r \<in> set (siblings (rows s) node)" "n_ID r = e"
        by (auto simp: siblings_rows same_shape_def)
      with after_table [OF c this(1)] r(4) show "\<exists>q. ?fm us e = Some q \<and> n_State q = COMPLETED" by auto
    qed
    with Some show ?thesis by (simp add: fin plan_finished_def finished_rows_def r')
  qed
qed

end

section \<open>A small workflow for the witnesses\<close>

text \<open>Two templates, the second depends on the first; a database that never fails.\<close>

definition demo_env :: DBEnv where
  "demo_env = \<lparr>dbFault = \<lambda>_. None, newUUID = \<lambda>t i. replicate (Suc i) CHR ''n'', rowRank = \<lambda>_ _. 0\<rparr>"

definition demo_template :: "string \<Rightarrow> string list \<Rightarrow> WorkflowNodeTemplate" where
  "demo_template i deps = \<lparr>t_ID = i, t_Name = i, t_Type = ''SIMPLE_FORM'', t_Config = None, t_DependsOn = deps,
     t_UnlockConfiguration = None\<rparr>"

definition demo_node :: "string \<Rightarrow> string \<Rightarrow> WorkflowNodeState \<Rightarrow> string list \<Rightarrow> WorkflowNode" where
  "demo_node i t st deps = \<lparr>n_ID = i, n_WorkflowID = ''w'', n_WorkflowNodeTemplateID = t, n_State = st,
     n_ExtendedState = None, n_Outcome = None, n_DependsOn = deps, n_UnlockConfiguration = None\<rparr>"

definition demo_db :: "WorkflowNode list \<Rightarrow> nat \<Rightarrow> WorkflowDB" where
  "demo_db nodes t = \<lparr>db_nodes = nodes, db_workflows = [], db_node_templates = [], db_tick = t\<rparr>"

definition demo_req :: UpdateWorkflowNodeDTO where
  "demo_req = \<lparr>u_WorkflowNodeID = ''n'', u_State = COMPLETED, u_AppendGlobalContext = [], u_ExtendedState = None,
     u_Outcome = Some ''APPROVED''\<rparr>"

lemmas demo_simps = demo_env_def demo_template_def demo_node_def demo_db_def demo_req_def NewWorkflowNodeService_def
  bindS_def wrapS_def returnS_def failS_def liftS_def db_call_def db_first_def db_find_def Let_def
  InitializeNodesFromTemplates_def CreateWorkflowNodesInTx_def UpdateWorkflowNodesInTx_def update_one_def save_node_def
  set_fields_def update_where_def new_node_def init_node_def GetWorkflowNodeByIDInTx_def
  GetWorkflowNodesByWorkflowIDInTx_def TransitionToCompleted_def TransitionToFailed_def TransitionToInProgress_def
  canTransitionToCompleted_def canTransitionToFailed_def canTransitionToInProgress_def
  getSiblingNodes_def completed_plan_def completed_node_def buildNodeStateMap_def areDependenciesMet_def
  complete_end_node_def config_end_node_def is_ready_def evaluateWorkflowCompletion_def sortNodesByID_def ptr_eq_def

lemma demo_init:
  "InitializeNodesFromTemplates (NewWorkflowNodeService demo_env) ''w''
     [demo_template ''a'' [], demo_template ''b'' [''a'']] (demo_db [] 0)
   = (Ok ([demo_node ''n'' ''a'' READY [], demo_node ''nn'' ''b'' LOCKED [''n'']], [demo_node ''n'' ''a'' READY []], None),
      demo_db [demo_node ''n'' ''a'' READY [], demo_node ''nn'' ''b'' LOCKED [''n'']] 5)"
  by (simp add: demo_simps)

lemma demo_complete:
  "TransitionToCompleted (NewWorkflowNodeService demo_env) (Some (demo_node ''n'' ''a'' READY [])) demo_req
     [Some \<lparr>EndNodeID = None\<rparr>]
     (demo_db [demo_node ''n'' ''a'' READY [], demo_node ''nn'' ''b'' LOCKED [''n'']] 5)
   = (Ok \<lparr>UpdatedNodes = [(demo_node ''n'' ''a'' COMPLETED [])\<lparr>n_Outcome := Some ''APPROVED''\<rparr>, demo_node ''nn'' ''b'' READY [''n'']],
          NewReadyNodes = [demo_node ''nn'' ''b'' READY [''n'']], WorkflowFinished = False\<rparr>,
      demo_db [(demo_node ''n'' ''a'' COMPLETED [])\<lparr>n_Outcome := Some ''APPROVED''\<rparr>, demo_node ''nn'' ''b'' READY [''n'']] 10)"
  by (simp add: demo_simps)


section \<open>Properties\<close>

text \<open>
  C1: a workflow without unlock configurations never deadlocks: in every database reached from an
  empty one by initialisations and transitions, if the dependencies of the workflow are acyclic
  and no node of the table depends on an end node, then either all its nodes are COMPLETED or one of
  them is READY, IN_PROGRESS or FAILED, so that a task can still move it. (A node that depends on an end node
  can stay LOCKED: an end node is completed outside the routine that unlocks dependents.)
\<close>

theorem workflow_never_deadlocks:
  assumes "node_run (NewWorkflowNodeService env) E db0 db" and "db_nodes db0 = []"
    and "no_deps_on E (db_nodes db)" and "acyclic_deps w (db_nodes db)"
    and "\<forall>r \<in> set (db_nodes db). n_WorkflowID r = w \<longrightarrow> n_UnlockConfiguration r = None"
  shows "(\<forall>r \<in> set (db_nodes db). n_WorkflowID r = w \<longrightarrow> n_State r = COMPLETED) \<or>
    (\<exists>r \<in> set (db_nodes db). n_WorkflowID r = w \<and> n_State r \<in> {READY, IN_PROGRESS, FAILED})"
proof -
  have "wf_ok E (db_nodes db)"
    using node_service.run_keeps [OF assms(1)] assms(2) by (simp add: wf_ok_empty)
  from no_deadlock [OF this assms(3,5,4)] show ?thesis .
qed

lemma demo_run:
  "node_run (NewWorkflowNodeService demo_env) {} (demo_db [] 0)
     (demo_db [demo_node ''n'' ''a'' READY [], demo_node ''nn'' ''b'' LOCKED [''n'']] 5)"
  by (rule node_run.run_step [OF node_run.run_refl node_step.initialize [OF demo_init]])

theorem workflow_never_deadlocks_witness:
  "(\<forall>r \<in> {demo_node ''n'' ''a'' READY [], demo_node ''nn'' ''b'' LOCKED [''n'']}. n_WorkflowID r = ''w'' \<longrightarrow> n_State r = COMPLETED) \<or>
   (\<exists>r \<in> {demo_node ''n'' ''a'' READY [], demo_node ''nn'' ''b'' LOCKED [''n'']}. n_WorkflowID r = ''w'' \<and> n_State r \<in> {READY, IN_PROGRESS, FAILED})"
proof -
  have "acyclic_deps ''w'' (db_nodes (demo_db [demo_node ''n'' ''a'' READY [], demo_node ''nn'' ''b'' LOCKED [''n'']] 5))"
    unfolding acyclic_deps_def by (rule exI [of _ length]) (simp add: demo_db_def demo_node_def)
  from workflow_never_deadlocks [OF demo_run _ _ this] show ?thesis
    by (simp add: demo_db_def no_deps_on_def demo_node_def)
qed

text \<open>
  C2: a node is never started early: in every reachable database, a node without unlock
  configuration that is not LOCKED has all its dependencies COMPLETED, in its own workflow. (A node with an
  unlock configuration is unlocked by its formula, not by its dependencies.)
\<close>

theorem started_after_dependencies:
  assumes "node_run (NewWorkflowNodeService env) E db0 db" and "db_nodes db0 = []"
    and "r \<in> set (db_nodes db)" and "n_State r \<noteq> LOCKED" and "n_UnlockConfiguration r = None"
    and "d \<in> set (n_DependsOn r)"
  shows "\<exists>q \<in> set (db_nodes db). n_ID q = d \<and> n_WorkflowID q = n_WorkflowID r \<and> n_State q = COMPLETED"
proof -
  have "wf_ok E (db_nodes db)"
    using node_service.run_keeps [OF assms(1)] assms(2) by (simp add: wf_ok_empty)
  with assms(3-6) show ?thesis by (auto simp: wf_ok_def deps_met_def is_done_def)
qed

lemma demo_run_completed:
  "node_run (NewWorkflowNodeService demo_env) {} (demo_db [] 0)
     (demo_db [(demo_node ''n'' ''a'' COMPLETED [])\<lparr>n_Outcome := Some ''APPROVED''\<rparr>, demo_node ''nn'' ''b'' READY [''n'']] 11)"
proof (rule node_run.run_step [OF demo_run node_step.completed])
  show "repo_GetByID (NewWorkflowNodeService demo_env) ''n''
      (demo_db [demo_node ''n'' ''a'' READY [], demo_node ''nn'' ''b'' LOCKED [''n'']] 5) =
      (Ok (demo_node ''n'' ''a'' READY []), demo_db [demo_node ''n'' ''a'' READY [], demo_node ''nn'' ''b'' LOCKED [''n'']] 6)"
    by (simp add: demo_simps)
  show "set_option (EndNodeID \<lparr>EndNodeID = None\<rparr>) \<subseteq> {}" by simp
  show "TransitionToCompleted (NewWorkflowNodeService demo_env) (Some (demo_node ''n'' ''a'' READY [])) demo_req
     [Some \<lparr>EndNodeID = None\<rparr>]
     (demo_db [demo_node ''n'' ''a'' READY [], demo_node ''nn'' ''b'' LOCKED [''n'']] 6)
   = (Ok \<lparr>UpdatedNodes = [(demo_node ''n'' ''a'' COMPLETED [])\<lparr>n_Outcome := Some ''APPROVED''\<rparr>, demo_node ''nn'' ''b'' READY [''n'']],
          NewReadyNodes = [demo_node ''nn'' ''b'' READY [''n'']], WorkflowFinished = False\<rparr>,
      demo_db [(demo_node ''n'' ''a'' COMPLETED [])\<lparr>n_Outcome := Some ''APPROVED''\<rparr>, demo_node ''nn'' ''b'' READY [''n'']] 11)"
    by (simp add: demo_simps)
qed

theorem started_after_dependencies_witness:
  "\<exists>q \<in> {(demo_node ''n'' ''a'' COMPLETED [])\<lparr>n_Outcome := Some ''APPROVED''\<rparr>, demo_node ''nn'' ''b'' READY [''n'']}.
     n_ID q = ''n'' \<and> n_WorkflowID q = ''w'' \<and> n_State q = COMPLETED"
  using started_after_dependencies [OF demo_run_completed, of "demo_node ''nn'' ''b'' READY [''n'']" "''n''"]
  by (simp add: demo_db_def demo_node_def)

text \<open>
  COMPLETED is final: whatever initialisations and transitions follow, a COMPLETED node stays
  in the database exactly as it is, with its outcome, extended state and dependencies.
\<close>

theorem completed_is_final:
  assumes "node_run (NewWorkflowNodeService env) E db db'" and "distinct (map n_ID (db_nodes db))"
    and "r \<in> set (db_nodes db)" and "n_State r = COMPLETED"
  shows "r \<in> set (db_nodes db')"
  by (rule node_service.run_keeps_completed [OF assms])

theorem completed_is_final_witness:
  "demo_node ''q'' ''z'' COMPLETED [] \<in> set (db_nodes
     (demo_db [demo_node ''q'' ''z'' COMPLETED [], demo_node ''n'' ''a'' READY []] 3))"
proof (rule completed_is_final [where db = "demo_db [demo_node ''q'' ''z'' COMPLETED []] 0" and E = "{}" and env = demo_env])
  have "InitializeNodesFromTemplates (NewWorkflowNodeService demo_env) ''w'' [demo_template ''a'' []]
      (demo_db [demo_node ''q'' ''z'' COMPLETED []] 0)
      = (Ok ([demo_node ''n'' ''a'' READY []], [demo_node ''n'' ''a'' READY []], None),
         demo_db [demo_node ''q'' ''z'' COMPLETED [], demo_node ''n'' ''a'' READY []] 3)"
    by (simp add: demo_simps)
  then show "node_run (NewWorkflowNodeService demo_env) {} (demo_db [demo_node ''q'' ''z'' COMPLETED []] 0)
      (demo_db [demo_node ''q'' ''z'' COMPLETED [], demo_node ''n'' ''a'' READY []] 3)"
    by (rule node_run.run_step [OF node_run.run_refl node_step.initialize])
qed (simp_all add: demo_db_def demo_node_def)

text \<open>
  C3: among the LOCKED siblings without unlock configuration, completing a node unlocks exactly the
  right ones: such a sibling leaves LOCKED if and only if each of its dependencies is the completed node
  or was COMPLETED before. (A sibling with an unlock configuration follows its formula.)
\<close>

theorem completion_unlocks_exactly:
  assumes "TransitionToCompleted (NewWorkflowNodeService env) (Some node) req cfgs db = (Ok plan, db')"
    and "distinct (map n_ID (db_nodes db))" and "node \<in> set (db_nodes db)"
    and "n_State node = READY \<or> n_State node = IN_PROGRESS"
    and "r \<in> set (db_nodes db)" "n_WorkflowID r = n_WorkflowID node" "n_State r = LOCKED" "n_UnlockConfiguration r = None"
  shows "(\<exists>r' \<in> set (db_nodes db'). n_ID r' = n_ID r \<and> n_State r' \<noteq> LOCKED) \<longleftrightarrow>
    (\<forall>d \<in> set (n_DependsOn r). d = n_ID node \<or> is_done (db_nodes db) (n_WorkflowID r) d)"
proof -
  obtain us f where c: "completion (db_nodes db) node req (case cfgs of [] \<Rightarrow> None | c # _ \<Rightarrow> c) us f"
    and db': "db_nodes db' = map f (db_nodes db)"
    by (rule node_service.completed_completion [OF assms(2,3,4,1) refl])
  have "(\<exists>r' \<in> set (db_nodes db'). n_ID r' = n_ID r \<and> n_State r' \<noteq> LOCKED) \<longleftrightarrow> n_State (f r) \<noteq> LOCKED"
  proof
    assume "\<exists>r' \<in> set (db_nodes db'). n_ID r' = n_ID r \<and> n_State r' \<noteq> LOCKED"
    then obtain q where q: "q \<in> set (db_nodes db)" "n_ID (f q) = n_ID r" "n_State (f q) \<noteq> LOCKED"
      unfolding db' by auto
    then have "n_ID q = n_ID r" using after_shape [OF c q(1)] by (simp add: same_shape_def)
    from row_inj [OF assms(2) q(1) assms(5) this] q(3) show "n_State (f r) \<noteq> LOCKED" by simp
  next
    assume "n_State (f r) \<noteq> LOCKED"
    moreover have "n_ID (f r) = n_ID r" using after_shape [OF c assms(5)] by (simp add: same_shape_def)
    ultimately show "\<exists>r' \<in> set (db_nodes db'). n_ID r' = n_ID r \<and> n_State r' \<noteq> LOCKED"
      unfolding db' using assms(5) by (intro bexI [of _ "f r"]) simp_all
  qed
  then show ?thesis unfolding after_unlocked [OF c assms(5,7,8)] using assms(6) by simp
qed

theorem completion_unlocks_exactly_witness:
  "\<exists>r' \<in> {(demo_node ''n'' ''a'' COMPLETED [])\<lparr>n_Outcome := Some ''APPROVED''\<rparr>, demo_node ''nn'' ''b'' READY [''n'']}.
     n_ID r' = ''nn'' \<and> n_State r' \<noteq> LOCKED"
  using completion_unlocks_exactly [OF demo_complete, of "demo_node ''nn'' ''b'' LOCKED [''n'']"]
  by (simp add: demo_db_def demo_node_def)

text \<open>
  completing a node changes nothing else: the node gets its new state, extended state and
  outcome; a sibling stays as it is, goes from LOCKED to READY, or is the end node and goes from
  LOCKED or READY to COMPLETED; the nodes of other workflows are untouched.
\<close>

theorem completion_changes_only:
  assumes "TransitionToCompleted (NewWorkflowNodeService env) (Some node) req cfgs db = (Ok plan, db')"
    and "distinct (map n_ID (db_nodes db))" and "node \<in> set (db_nodes db)"
    and "n_State node = READY \<or> n_State node = IN_PROGRESS"
  shows "list_all2 (\<lambda>r r'. if n_WorkflowID r = n_WorkflowID node
      then completed_effect (case cfgs of [] \<Rightarrow> None | c # _ \<Rightarrow> c) (completed_node node req) r r' else r' = r)
    (db_nodes db) (db_nodes db')"
proof -
  obtain us f where c: "completion (db_nodes db) node req (case cfgs of [] \<Rightarrow> None | c # _ \<Rightarrow> c) us f"
    and db': "db_nodes db' = map f (db_nodes db)"
    by (rule node_service.completed_completion [OF assms(2,3,4,1) refl])
  show ?thesis
    unfolding db' list_all2_map2 using after_effect [OF c] by (intro list.rel_refl_strong)
qed

theorem completion_changes_only_witness:
  "list_all2 (\<lambda>r r'. if n_WorkflowID r = ''w'' then completed_effect (Some \<lparr>EndNodeID = None\<rparr>)
       ((demo_node ''n'' ''a'' COMPLETED [])\<lparr>n_Outcome := Some ''APPROVED''\<rparr>) r r' else r' = r)
     [demo_node ''n'' ''a'' READY [], demo_node ''nn'' ''b'' LOCKED [''n'']]
     [(demo_node ''n'' ''a'' COMPLETED [])\<lparr>n_Outcome := Some ''APPROVED''\<rparr>, demo_node ''nn'' ''b'' READY [''n'']]"
  using completion_changes_only [OF demo_complete] by (simp add: demo_db_def demo_node_def demo_req_def completed_node_def)


text \<open>
  what \<open>TransitionToCompleted\<close> reports is what it did: the updated nodes are rows of the new
  database, sorted by id without repetition, and cover every row that changed; the new ready nodes
  are exactly the rows that went from LOCKED to READY; the workflow is finished exactly when its
  end node is COMPLETED, or, without an end node, when all its nodes are.
\<close>

theorem completion_result:
  assumes "TransitionToCompleted (NewWorkflowNodeService env) (Some node) req cfgs db = (Ok plan, db')"
    and "distinct (map n_ID (db_nodes db))" and "node \<in> set (db_nodes db)"
    and "n_State node = READY \<or> n_State node = IN_PROGRESS"
  shows "sorted (map n_ID (UpdatedNodes plan)) \<and> distinct (map n_ID (UpdatedNodes plan)) \<and>
    set (UpdatedNodes plan) \<subseteq> set (db_nodes db') \<and> set (db_nodes db') - set (db_nodes db) \<subseteq> set (UpdatedNodes plan) \<and>
    set (NewReadyNodes plan) = {r' \<in> set (db_nodes db'). n_State r' = READY \<and>
       (\<exists>r \<in> set (db_nodes db). n_ID r = n_ID r' \<and> n_State r = LOCKED)} \<and>
    (WorkflowFinished plan \<longleftrightarrow>
       finished_rows (config_end_node (case cfgs of [] \<Rightarrow> None | c # _ \<Rightarrow> c)) (n_WorkflowID node) (db_nodes db'))"
  using node_service.completed_result [OF assms(2,3,4,1) refl] by blast

theorem completion_result_witness:
  "\<not> finished_rows None ''w''
     [(demo_node ''n'' ''a'' COMPLETED [])\<lparr>n_Outcome := Some ''APPROVED''\<rparr>, demo_node ''nn'' ''b'' READY [''n'']]"
  using completion_result [OF demo_complete] by (simp add: demo_db_def demo_node_def config_end_node_def)

text \<open>
  failing a node touches that node only: after a successful \<open>TransitionToFailed\<close> of a READY or
  IN_PROGRESS node every other node is as before, so a LOCKED node whose unlock configuration
  waits for this failure stays LOCKED.
\<close>

theorem failure_unlocks_nothing:
  assumes "TransitionToFailed (NewWorkflowNodeService env) (Some node) req db = (Ok (), db')"
    and "distinct (map n_ID (db_nodes db))" and "node \<in> set (db_nodes db)" and "n_State node \<noteq> FAILED"
  shows "db_nodes db' = map (\<lambda>r. if n_ID r = n_ID node
      then r\<lparr>n_State := FAILED, n_ExtendedState := u_ExtendedState req\<rparr> else r) (db_nodes db)
    \<and> n_State node \<in> {READY, IN_PROGRESS}"
  using node_service.failed_rows [OF assms(2,3,1)] assms(4) by (auto simp: set_state_def update_where_def)

theorem failure_unlocks_nothing_witness:
  "db_nodes (demo_db [demo_node ''n'' ''a'' FAILED [], demo_node ''nn'' ''b'' LOCKED [''n'']] 2) =
     map (\<lambda>r. if n_ID r = ''n'' then r\<lparr>n_State := FAILED, n_ExtendedState := None\<rparr> else r)
       [demo_node ''n'' ''a'' READY [], demo_node ''nn'' ''b'' LOCKED [''n'']]
   \<and> n_State (demo_node ''n'' ''a'' READY []) \<in> {READY, IN_PROGRESS}"
  using failure_unlocks_nothing [of demo_env "demo_node ''n'' ''a'' READY []" demo_req
      "demo_db [demo_node ''n'' ''a'' READY [], demo_node ''nn'' ''b'' LOCKED [''n'']] 0"
      "demo_db [demo_node ''n'' ''a'' FAILED [], demo_node ''nn'' ''b'' LOCKED [''n'']] 2"]
  by (simp add: demo_simps)

text \<open>
  moves the state machine does not permit are errors and leave the database as it is: a LOCKED
  or FAILED node cannot complete, a LOCKED or COMPLETED node can neither fail nor go to
  IN_PROGRESS. Completing a COMPLETED or failing a FAILED node succeeds without a write.
\<close>

theorem transition_guards:
  "(n_State node \<in> {LOCKED, FAILED} \<longrightarrow>
      (\<exists>e. TransitionToCompleted repo (Some node) req cfgs s = (Err e, s))) \<and>
   (n_State node \<in> {LOCKED, COMPLETED} \<longrightarrow>
      (\<exists>e. TransitionToFailed repo (Some node) req s = (Err e, s)) \<and>
      (\<exists>e. TransitionToInProgress repo same_ptr (Some node) req s = (Err e, s))) \<and>
   (n_State node = COMPLETED \<longrightarrow>
      TransitionToCompleted repo (Some node) req cfgs s
        = (Ok \<lparr>UpdatedNodes = [], NewReadyNodes = [], WorkflowFinished = False\<rparr>, s)) \<and>
   (n_State node = FAILED \<longrightarrow> TransitionToFailed repo (Some node) req s = (Ok (), s))"
  by (auto simp: TransitionToCompleted_def TransitionToFailed_def TransitionToInProgress_def failS_def returnS_def
      canTransitionToCompleted_def canTransitionToFailed_def canTransitionToInProgress_def)

theorem transition_guards_witness:
  "TransitionToFailed (NewWorkflowNodeService demo_env) (Some (demo_node ''n'' ''a'' FAILED [])) demo_req (demo_db [] 0)
     = (Ok (), demo_db [] 0)"
  using transition_guards [of "demo_node ''n'' ''a'' FAILED []" "NewWorkflowNodeService demo_env" demo_req "[]" "demo_db [] 0"]
  by (simp add: demo_node_def)

text \<open>
  initialising a workflow adds one node per template, in their order, to the rows and changes
  no other row; dependencies point to nodes of the new workflow made from the templates depended
  on; a node is READY when it has neither a dependency nor an unlock configuration and LOCKED
  otherwise; the returned ready nodes are exactly the READY ones.
\<close>

theorem initialization_result:
  assumes "InitializeNodesFromTemplates (NewWorkflowNodeService env) w templates db = (Ok (created, ready, endNode), db')"
    and "distinct (map n_ID (db_nodes db))"
  shows "db_nodes db' = db_nodes db @ created \<and> distinct (map n_ID (db_nodes db')) \<and>
    init_nodes_ok w templates created \<and> ready = filter (\<lambda>n. n_State n = READY) created"
proof -
  from node_service.init_rows [OF assms(2,1)] have r: "distinct (map n_ID (db_nodes db'))"
    "db_nodes db' = db_nodes db @ created" "init_nodes_ok w templates created" "ready = filter init_ready created"
    by blast+
  have "filter init_ready created = filter (\<lambda>n. n_State n = READY) created"
    using r(3) by (intro filter_cong) (auto simp: init_nodes_ok_def)
  with r show ?thesis by (simp only: simp_thms)
qed

theorem initialization_result_witness:
  "init_nodes_ok ''w'' [demo_template ''a'' [], demo_template ''b'' [''a'']]
     [demo_node ''n'' ''a'' READY [], demo_node ''nn'' ''b'' LOCKED [''n'']]"
  using initialization_result [OF demo_init] by (simp add: demo_db_def)

end
