(* ===== verification/WorkflowManager.thy ===== *)
theory WorkflowManager
  imports WorkflowInvariants TaskApi
begin

text \<open>
  The generic workflow manager, \<open>backend/internal/workflow/manager/manager.go\<close>, and the template
  provider it reads from (\<open>service/template\_service.go\<close>). Domain callbacks
  (\<open>WorkflowEventHandler\<close>) and the task manager's \<open>InitTask\<close> are operations on the same
  database state, whose further fields they may use. A transaction works on the state itself;
  a rollback restores all of it except the number of calls made.
\<close>

section \<open>template\_service.go\<close>

definition GetWorkflowNodeTemplatesByIDs ::
    "DBEnv \<Rightarrow> string list \<Rightarrow> ('z WorkflowDB_scheme, WorkflowNodeTemplate list) op" where
  "GetWorkflowNodeTemplatesByIDs env ids =
     db_call env (\<lambda>db. (Ok (db_find env (db_tick db) t_ID (\<lambda>t. t_ID t \<in> set ids) (db_node_templates db)), db))"

definition GetWorkflowNodeTemplateByID ::
    "DBEnv \<Rightarrow> string \<Rightarrow> ('z WorkflowDB_scheme, WorkflowNodeTemplate) op" where
  "GetWorkflowNodeTemplateByID env i =
     db_call env (\<lambda>db. (db_first (\<lambda>t. t_ID t = i) (db_node_templates db), db))"

definition GetEndNodeTemplate :: "DBEnv \<Rightarrow> ('z WorkflowDB_scheme, WorkflowNodeTemplate) op" where
  "GetEndNodeTemplate env =
     db_call env (\<lambda>db. (db_first (\<lambda>t. t_Type t = WorkFlowNodeTypeEndNode) (db_node_templates db), db))"

record WorkflowTemplate =
  wt_ID :: string
  wt_NodeTemplates :: "string list"
  wt_EndNodeTemplateID :: "string option"

definition GetNodeTemplateIDs :: "WorkflowTemplate \<Rightarrow> string list" where
  "GetNodeTemplateIDs wt = wt_NodeTemplates wt"

section \<open>The manager\<close>

abbreviation WorkflowStatusInProgress :: string where "WorkflowStatusInProgress \<equiv> ''IN_PROGRESS''"
abbreviation WorkflowStatusCompleted :: string where "WorkflowStatusCompleted \<equiv> ''COMPLETED''"
abbreviation WorkflowStatusFailed :: string where "WorkflowStatusFailed \<equiv> ''FAILED''"

text \<open>\<open>OnWorkflowStatusChanged(workflowID, fromStatus, toStatus, workflow)\<close>.\<close>

type_synonym 's WorkflowEventHandler = "string \<Rightarrow> string \<Rightarrow> string \<Rightarrow> Workflow \<Rightarrow> ('s, unit) op"
type_synonym 's TaskInitHandler = "InitTaskRequest \<Rightarrow> ('s, InitTaskResponse) op"

record 's WorkflowManager =
  mgr_handlerMap :: "(string, 's WorkflowEventHandler) gomap"
  mgr_initTaskCallback :: "'s TaskInitHandler option"

definition NewManager :: "'s WorkflowManager" where
  "NewManager = \<lparr>mgr_handlerMap = [], mgr_initTaskCallback = None\<rparr>"

definition RegisterTaskHandler :: "'s TaskInitHandler option \<Rightarrow> ('s WorkflowManager, unit) op" where
  "RegisterTaskHandler callback =
     (case callback of
        None \<Rightarrow> failS (Errorf ''init task callback cannot be nil'' [])
      | Some cb \<Rightarrow> (\<lambda>m. (Ok (), m\<lparr>mgr_initTaskCallback := Some cb\<rparr>)))"

definition findHandler :: "'s WorkflowManager \<Rightarrow> string \<Rightarrow> 's WorkflowEventHandler option" where
  "findHandler m workflowID = map_get (mgr_handlerMap m) workflowID"

definition pluginStateToWorkflowNodeState :: "State \<Rightarrow> WorkflowNodeState res" where
  "pluginStateToWorkflowNodeState state =
     (if state = Initialized then Ok READY
      else if state = InProgress then Ok IN_PROGRESS
      else if state = Completed then Ok COMPLETED
      else if state = Failed then Ok FAILED
      else Err (Errorf ''unknown plugin state: '' [state]))"

text \<open>\<open>registerNodesWithTaskManager\<close>: one task per node, stopping at the first error.\<close>

definition register_node ::
    "DBEnv \<Rightarrow> 'z WorkflowDB_scheme TaskInitHandler \<Rightarrow> obj \<Rightarrow> WorkflowNode \<Rightarrow> ('z WorkflowDB_scheme, unit) op" where
  "register_node env initTaskCallback globalContext node =
     bindS (wrapS ''failed to get workflow node template'' [n_WorkflowNodeTemplateID node]
         (GetWorkflowNodeTemplateByID env (n_WorkflowNodeTemplateID node))) (\<lambda>nodeTemplate.
     bindS (wrapS ''failed to initialize task for node'' [n_ID node]
         (initTaskCallback \<lparr>it_TaskID = n_ID node, it_WorkflowID = n_WorkflowID node,
            it_WorkflowNodeTemplateID = n_WorkflowNodeTemplateID node, it_Type = t_Type nodeTemplate,
            it_GlobalState = globalContext, it_Config = t_Config nodeTemplate\<rparr>)) (\<lambda>_. returnS ()))"

definition registerNodesWithTaskManager ::
    "DBEnv \<Rightarrow> 'z WorkflowDB_scheme WorkflowManager \<Rightarrow> WorkflowNode list \<Rightarrow> obj \<Rightarrow> ('z WorkflowDB_scheme, unit) op" where
  "registerNodesWithTaskManager env m workflowNodes globalContext =
     (case mgr_initTaskCallback m of
        None \<Rightarrow> failS (Errorf ''task manager callback is not configured'' [])
      | Some cb \<Rightarrow> mapM_S (register_node env cb globalContext) workflowNodes)"

section \<open>StartWorkflowInstance\<close>

definition create_workflow :: "DBEnv \<Rightarrow> Workflow \<Rightarrow> ('z WorkflowDB_scheme, unit) op" where
  "create_workflow env wfl =
     db_call env (\<lambda>db.
       if wf_ID wfl \<in> set (map wf_ID (db_workflows db))
       then (Err (External ''duplicate key value violates unique constraint''), db)
       else (Ok (), db\<lparr>db_workflows := db_workflows db @ [wfl]\<rparr>))"

text \<open>\<open>Workflow.BeforeCreate\<close> keeps the id the caller set and makes one up for the empty id.\<close>

definition BeforeCreate_workflow :: "DBEnv \<Rightarrow> nat \<Rightarrow> Workflow \<Rightarrow> Workflow" where
  "BeforeCreate_workflow env t wfl = (if wf_ID wfl = '''' then wfl\<lparr>wf_ID := newUUID env t 0\<rparr> else wfl)"

definition save_workflow :: "DBEnv \<Rightarrow> Workflow \<Rightarrow> ('z WorkflowDB_scheme, unit) op" where
  "save_workflow env wfl =
     db_call env (\<lambda>db. (Ok (), db\<lparr>db_workflows := update_where (\<lambda>r. wf_ID r = wf_ID wfl) (\<lambda>_. wfl) (db_workflows db)\<rparr>))"

definition template_ids :: "WorkflowTemplate list \<Rightarrow> string list" where
  "template_ids workflowTemplates = remdups (concat (map GetNodeTemplateIDs workflowTemplates))"

definition end_template_ids :: "WorkflowTemplate list \<Rightarrow> string list" where
  "end_template_ids workflowTemplates = List.map_filter wt_EndNodeTemplateID workflowTemplates"

text \<open>Everything up to the registration of the handler; the result is the workflow.\<close>

definition start_instance ::
    "DBEnv \<Rightarrow> 'z WorkflowDB_scheme WorkflowManager \<Rightarrow> string \<Rightarrow> WorkflowTemplate list \<Rightarrow> obj
       \<Rightarrow> ('z WorkflowDB_scheme, Workflow) op" where
  "start_instance env m workflowID workflowTemplates globalContext =
     bindS (\<lambda>db. (Ok (BeforeCreate_workflow env (db_tick db)
         \<lparr>wf_ID = workflowID, wf_Status = WorkflowStatusInProgress, wf_GlobalContext = Some globalContext,
          wf_EndNodeID = None\<rparr>), db)) (\<lambda>wf0.
     bindS (wrapS ''failed to create workflow'' [] (create_workflow env wf0)) (\<lambda>_.
     bindS (wrapS ''failed to retrieve workflow node templates'' []
         (GetWorkflowNodeTemplatesByIDs env (template_ids workflowTemplates))) (\<lambda>nodeTemplates0.
     bindS (if end_template_ids workflowTemplates \<noteq> []
            then bindS (wrapS ''failed to get end node template'' [] (GetEndNodeTemplate env)) (\<lambda>endNodeTemplate.
              returnS (nodeTemplates0 @ [endNodeTemplate\<lparr>t_DependsOn := end_template_ids workflowTemplates\<rparr>]))
            else returnS nodeTemplates0) (\<lambda>nodeTemplates.
     bindS (wrapS ''failed to initialize workflow nodes'' []
         (InitializeNodesFromTemplates (NewWorkflowNodeService env) workflowID nodeTemplates))
       (\<lambda>(_, newReadyNodes, endNodeID).
     bindS (case endNodeID of
              Some e \<Rightarrow>
                (let wf1 = wf0\<lparr>wf_EndNodeID := Some e\<rparr> in
                 bindS (wrapS ''failed to update workflow end node'' [] (save_workflow env wf1)) (\<lambda>_. returnS wf1))
            | None \<Rightarrow> returnS wf0) (\<lambda>wfl.
     bindS (if newReadyNodes \<noteq> []
            then wrapS ''failed to register workflow nodes with task manager'' []
                   (registerNodesWithTaskManager env m newReadyNodes globalContext)
            else returnS ()) (\<lambda>_.
     returnS wfl)))))))"

definition StartWorkflowInstance ::
    "DBEnv \<Rightarrow> string \<Rightarrow> WorkflowTemplate list \<Rightarrow> obj option \<Rightarrow> 'z WorkflowDB_scheme WorkflowEventHandler option
       \<Rightarrow> ('z WorkflowDB_scheme WorkflowManager \<times> 'z WorkflowDB_scheme, unit) op" where
  "StartWorkflowInstance env workflowID workflowTemplates globalContext0 handler0 =
     (\<lambda>(m, db).
        case handler0 of
          None \<Rightarrow> (Err (Errorf ''workflow event handler cannot be nil'' []), (m, db))
        | Some handler \<Rightarrow>
            let globalContext = (case globalContext0 of None \<Rightarrow> [] | Some g \<Rightarrow> g) in
            (case start_instance env m workflowID workflowTemplates globalContext db of
               (Ok wfl, db1) \<Rightarrow>
                 let m1 = m\<lparr>mgr_handlerMap := map_put workflowID handler (mgr_handlerMap m)\<rparr> in
                 (case wrapS ''event handler OnWorkflowStatusChanged failed for workflow start'' []
                         (handler workflowID '''' WorkflowStatusInProgress wfl) db1 of
                    (r, db2) \<Rightarrow> (r, (m1, db2)))
             | (Err e, db1) \<Rightarrow> (Err e, (m, db1))
             | (Panic, db1) \<Rightarrow> (Panic, (m, db1))))"

section \<open>processStateTransition\<close>

text \<open>
  \<open>Rollback\<close> puts the tables back; a panic inside is recovered, rolled back, and the unnamed
  results of the function keep their zero values.
\<close>

definition rollback :: "'z WorkflowDB_scheme \<Rightarrow> 'z WorkflowDB_scheme \<Rightarrow> 'z WorkflowDB_scheme" where
  "rollback before after = before\<lparr>db_tick := db_tick after\<rparr>"

definition in_transaction :: "DBEnv \<Rightarrow> 'a \<Rightarrow> ('z WorkflowDB_scheme, 'a) op \<Rightarrow> ('z WorkflowDB_scheme, 'a) op" where
  "in_transaction env zero body db =
     (case body db of
        (Ok v, db1) \<Rightarrow>
          (case wrapS ''failed to commit transaction'' [] (db_call env (\<lambda>d. (Ok (), d))) db1 of
             (Ok _, db2) \<Rightarrow> (Ok v, db2)
           | (Err e, db2) \<Rightarrow> (Err e, rollback db db2)
           | (Panic, db2) \<Rightarrow> (Ok zero, rollback db db2))
      | (Err e, db1) \<Rightarrow> (Err e, rollback db db1)
      | (Panic, db1) \<Rightarrow> (Ok zero, rollback db db1))"

definition append_context ::
    "DBEnv \<Rightarrow> UpdateWorkflowNodeDTO \<Rightarrow> Workflow \<Rightarrow> ('z WorkflowDB_scheme, Workflow) op" where
  "append_context env updateReq wfl =
     (if u_AppendGlobalContext updateReq \<noteq> [] then
        let ctx = (case wf_GlobalContext wfl of None \<Rightarrow> [] | Some c \<Rightarrow> c);
            wfl' = wfl\<lparr>wf_GlobalContext := Some (map_copy ctx (u_AppendGlobalContext updateReq))\<rparr>
        in bindS (wrapS ''failed to update workflow global context'' [] (save_workflow env wfl')) (\<lambda>_. returnS wfl')
      else returnS wfl)"

text \<open>Saving a new status and telling the handler.\<close>

definition change_status ::
    "DBEnv \<Rightarrow> string \<Rightarrow> string \<Rightarrow> 'z WorkflowDB_scheme WorkflowEventHandler \<Rightarrow> string \<Rightarrow> string \<Rightarrow> Workflow
       \<Rightarrow> ('z WorkflowDB_scheme, unit) op" where
  "change_status env saveMsg handlerMsg handler workflowID status wfl =
     bindS (wrapS saveMsg [] (save_workflow env (wfl\<lparr>wf_Status := status\<rparr>))) (\<lambda>_.
     wrapS handlerMsg [] (handler workflowID (wf_Status wfl) status (wfl\<lparr>wf_Status := status\<rparr>)))"

definition transition_body ::
    "DBEnv \<Rightarrow> string \<Rightarrow> UpdateWorkflowNodeDTO \<Rightarrow> 'z WorkflowDB_scheme WorkflowEventHandler
       \<Rightarrow> ('z WorkflowDB_scheme, WorkflowNode list \<times> obj option) op" where
  "transition_body env workflowID updateReq handler =
     bindS (wrapS ''failed to load workflow'' [workflowID]
         (db_call env (\<lambda>db. (db_first (\<lambda>w. wf_ID w = workflowID) (db_workflows db), db)))) (\<lambda>wf0.
     bindS (append_context env updateReq wf0) (\<lambda>wfl.
     bindS (wrapS ''failed to retrieve workflow node'' [u_WorkflowNodeID updateReq]
         (repo_GetByID (NewWorkflowNodeService env) (u_WorkflowNodeID updateReq))) (\<lambda>workflowNode.
     bindS
       (case u_State updateReq of
          FAILED \<Rightarrow>
            if n_State workflowNode \<noteq> FAILED then
              bindS (wrapS ''failed to transition node to FAILED'' []
                  (TransitionToFailed (NewWorkflowNodeService env) (Some workflowNode) updateReq)) (\<lambda>_.
              bindS (change_status env ''failed to mark workflow as failed''
                  ''event handler OnWorkflowStatusChanged failed for workflow failure''
                  handler workflowID WorkflowStatusFailed wfl) (\<lambda>_. returnS []))
            else returnS []
        | IN_PROGRESS \<Rightarrow>
            bindS (wrapS ''failed to transition node to IN_PROGRESS'' []
                (TransitionToInProgress (NewWorkflowNodeService env) False (Some workflowNode) updateReq)) (\<lambda>_. returnS [])
        | COMPLETED \<Rightarrow>
            if n_State workflowNode \<noteq> COMPLETED then
              bindS (wrapS ''failed to transition node to COMPLETED'' []
                  (TransitionToCompleted (NewWorkflowNodeService env) (Some workflowNode) updateReq
                     [Some \<lparr>EndNodeID = wf_EndNodeID wfl\<rparr>])) (\<lambda>result.
              if WorkflowFinished result then
                bindS (change_status env ''failed to mark workflow as completed''
                    ''event handler OnWorkflowStatusChanged failed for workflow completion''
                    handler workflowID WorkflowStatusCompleted wfl) (\<lambda>_. returnS (NewReadyNodes result))
              else returnS (NewReadyNodes result))
            else returnS []
        | _ \<Rightarrow> returnS []) (\<lambda>newReadyNodes.
     returnS (newReadyNodes, wf_GlobalContext wfl)))))"

definition processStateTransition ::
    "DBEnv \<Rightarrow> WorkflowNode \<Rightarrow> UpdateWorkflowNodeDTO \<Rightarrow> 'z WorkflowDB_scheme WorkflowEventHandler
       \<Rightarrow> ('z WorkflowDB_scheme, WorkflowNode list \<times> obj option) op" where
  "processStateTransition env node updateReq handler =
     in_transaction env ([], None) (transition_body env (n_WorkflowID node) updateReq handler)"

section \<open>HandleTaskUpdate, GetWorkflowInstance\<close>

definition HandleTaskUpdate ::
    "DBEnv \<Rightarrow> 'z WorkflowDB_scheme WorkflowManager \<Rightarrow> WorkflowManagerNotification \<Rightarrow> ('z WorkflowDB_scheme, unit) op" where
  "HandleTaskUpdate env m update =
     (case wn_UpdatedState update of
        None \<Rightarrow> failS (Errorf ''received nil state in workflow node update for task'' [wn_TaskID update])
      | Some pluginState \<Rightarrow>
          bindS (wrapS ''invalid state in workflow node update for task'' [wn_TaskID update]
              (liftS (pluginStateToWorkflowNodeState pluginState))) (\<lambda>workflowState.
          let updateReq = \<lparr>u_WorkflowNodeID = wn_TaskID update, u_State = workflowState,
                u_AppendGlobalContext = wn_AppendGlobalContext update, u_ExtendedState = wn_ExtendedState update,
                u_Outcome = wn_Outcome update\<rparr> in
          bindS (wrapS ''failed to look up workflow node for task'' [wn_TaskID update]
              (repo_GetByID (NewWorkflowNodeService env) (wn_TaskID update))) (\<lambda>node.
          case findHandler m (n_WorkflowID node) of
            None \<Rightarrow> failS (Errorf ''no event handler found for workflow'' [n_WorkflowID node, wn_TaskID update])
          | Some handler \<Rightarrow>
              bindS (wrapS ''failed to process workflow node state transition for task''
                  [wn_TaskID update, node_state_str workflowState]
                  (processStateTransition env node updateReq handler)) (\<lambda>(newReadyNodes, globalContext).
              if newReadyNodes \<noteq> []
              then wrapS ''failed to register new ready nodes with task manager for task'' [wn_TaskID update]
                     (registerNodesWithTaskManager env m newReadyNodes
                        (case globalContext of None \<Rightarrow> [] | Some g \<Rightarrow> g))
              else returnS ()))))"

text \<open>The workflow with its preloaded nodes and their templates.\<close>

definition GetWorkflowInstance ::
    "DBEnv \<Rightarrow> string \<Rightarrow> ('z WorkflowDB_scheme, Workflow \<times> (WorkflowNode \<times> WorkflowNodeTemplate option) list) op" where
  "GetWorkflowInstance env workflowID =
     wrapS ''failed to retrieve workflow'' [workflowID]
       (bindS (db_call env (\<lambda>db. (db_first (\<lambda>w. wf_ID w = workflowID) (db_workflows db), db))) (\<lambda>wfl.
        db_call env (\<lambda>db.
          (Ok (wfl, map (\<lambda>n. (n, List.find (\<lambda>t. t_ID t = n_WorkflowNodeTemplateID n) (db_node_templates db)))
                     (db_find env (db_tick db) n_ID (\<lambda>n. n_WorkflowID n = workflowID) (db_nodes db))), db))))"


section \<open>Transactions\<close>

text \<open>Two states with the same tables: only the number of database calls may differ.\<close>

definition same_tables :: "'z WorkflowDB_scheme \<Rightarrow> 'z WorkflowDB_scheme \<Rightarrow> bool" where
  "same_tables db db' \<longleftrightarrow> db' = db\<lparr>db_tick := db_tick db'\<rparr>"

lemma same_tables_refl [simp]: "same_tables db db"
  by (simp add: same_tables_def)

lemma same_tables_trans: "same_tables a b \<Longrightarrow> same_tables b c \<Longrightarrow> same_tables a c"
  unfolding same_tables_def
  by (metis (no_types, lifting) WorkflowDB.surjective WorkflowDB.update_convs(4))

lemma same_tables_tick [simp]: "same_tables db (db\<lparr>db_tick := t\<rparr>)"
  by (simp add: same_tables_def)

lemma same_tables_fields:
  "same_tables db db' \<Longrightarrow> db_nodes db' = db_nodes db \<and> db_workflows db' = db_workflows db
     \<and> db_node_templates db' = db_node_templates db"
  unfolding same_tables_def
  by (metis WorkflowDB.ext_inject WorkflowDB.surjective WorkflowDB.update_convs(4))

lemma read_same_tables:
  assumes "db_call env (\<lambda>db. (g db, db)) db = (r, db')"
  shows "same_tables db db'"
  using assms by (auto simp: db_call_def Let_def split: option.splits)

lemma get_node_same_tables:
  "repo_GetByID (NewWorkflowNodeService env) i db = (r, db') \<Longrightarrow> same_tables db db'"
  by (auto simp: NewWorkflowNodeService_def GetWorkflowNodeByIDInTx_def wrapS_iff dest: read_same_tables)

lemma rollback_same_tables [simp]: "same_tables db (rollback db db')"
  by (simp add: rollback_def)

lemma in_transaction_Err: "in_transaction env zero body db = (Err e, db') \<Longrightarrow> same_tables db db'"
  by (auto simp: in_transaction_def split: prod.splits res.splits)

lemma in_transaction_not_Panic: "in_transaction env zero body db \<noteq> (Panic, db')"
  by (auto simp: in_transaction_def split: prod.splits res.splits)

lemma in_transaction_Ok:
  "in_transaction env zero body db = (Ok v, db') \<Longrightarrow>
   (\<exists>db1. body db = (Ok v, db1) \<and> same_tables db1 db') \<or> (\<exists>db1. body db = (Panic, db1) \<and> v = zero \<and> same_tables db db')"
  by (auto simp: in_transaction_def wrapS_iff db_call_def Let_def split: prod.splits res.splits option.splits)

section \<open>A completion seen from the manager\<close>

lemma completed_keeps_workflows:
  assumes "TransitionToCompleted (NewWorkflowNodeService env) (Some node) req cfgs db = (Ok plan, db')"
    and "distinct (map n_ID (db_nodes db))" and "n_State node \<noteq> COMPLETED"
  shows "db_workflows db' = db_workflows db"
proof -
  from TransitionToCompleted_open [OF assms(3,1)] have "canTransitionToCompleted (n_State node)"
    by (auto simp: canTransitionToCompleted_def)
  with assms(1,3) obtain ns db1 where
    g: "GetWorkflowNodesByWorkflowIDInTx env (n_WorkflowID (completed_node node req)) db = (Ok ns, db1)"
    and u: "UpdateWorkflowNodesInTx env (UpdatedNodes plan) db1 = (Ok (), db')"
    by (auto simp: TransitionToCompleted_def op_simps Let_def getSiblingNodes_def NewWorkflowNodeService_def
        completed_node_def)
  then have "same_tables db db1"
    by (auto simp: GetWorkflowNodesByWorkflowIDInTx_def op_simps)
  then have "db_nodes db1 = db_nodes db" "db_workflows db1 = db_workflows db"
    using same_tables_fields by blast+
  with UpdateWorkflowNodesInTx_Ok [OF _ u] assms(2) show ?thesis by simp
qed

definition merged_context :: "Workflow \<Rightarrow> UpdateWorkflowNodeDTO \<Rightarrow> obj option" where
  "merged_context w req =
     (if u_AppendGlobalContext req = [] then wf_GlobalContext w
      else Some (map_copy (case wf_GlobalContext w of None \<Rightarrow> [] | Some c \<Rightarrow> c) (u_AppendGlobalContext req)))"

definition keeps_engine_tables :: "'z WorkflowDB_scheme WorkflowEventHandler \<Rightarrow> bool" where
  "keeps_engine_tables h \<longleftrightarrow>
     (\<forall>i a b w s r s'. h i a b w s = (r, s') \<longrightarrow> db_nodes s' = db_nodes s \<and> db_workflows s' = db_workflows s)"

lemma append_context_Ok:
  assumes "append_context env req w0 db = (Ok w1, db1)" and "w0 \<in> set (db_workflows db)"
    and "distinct (map wf_ID (db_workflows db))"
  shows "w1 = w0\<lparr>wf_GlobalContext := merged_context w0 req\<rparr> \<and> db_nodes db1 = db_nodes db
     \<and> db_workflows db1 = update_where (\<lambda>r. wf_ID r = wf_ID w0) (\<lambda>_. w1) (db_workflows db)"
proof (cases "u_AppendGlobalContext req = []")
  case True
  have "w0 = r" if "r \<in> set (db_workflows db)" "wf_ID r = wf_ID w0" for r
    using that assms(2,3) by (metis distinct_map inj_onD)
  then have "update_where (\<lambda>r. wf_ID r = wf_ID w0) (\<lambda>_. w0) (db_workflows db) = db_workflows db"
    by (auto simp: update_where_def intro!: map_idI)
  with True assms(1) show ?thesis by (simp add: append_context_def op_simps merged_context_def)
next
  case False
  with assms(1) show ?thesis
    by (auto simp: append_context_def op_simps Let_def save_workflow_def merged_context_def)
qed

lemma update_where_twice:
  "(\<And>x. x \<in> set xs \<Longrightarrow> p x \<Longrightarrow> p (f x)) \<Longrightarrow> update_where p g (update_where p f xs) = update_where p (\<lambda>x. g (f x)) xs"
  by (auto simp: update_where_def)

lemma change_status_Ok:
  assumes "change_status env m1 m2 h w st w1 db = (Ok (), db1)" and "keeps_engine_tables h"
  shows "db_nodes db1 = db_nodes db
     \<and> db_workflows db1 = update_where (\<lambda>r. wf_ID r = wf_ID w1) (\<lambda>_. w1\<lparr>wf_Status := st\<rparr>) (db_workflows db)"
proof -
  from assms(1) obtain d where s: "save_workflow env (w1\<lparr>wf_Status := st\<rparr>) db = (Ok (), d)"
    and h: "h w (wf_Status w1) st (w1\<lparr>wf_Status := st\<rparr>) d = (Ok (), db1)"
    by (auto simp: change_status_def op_simps)
  from h assms(2) have "db_nodes db1 = db_nodes d" "db_workflows db1 = db_workflows d"
    unfolding keeps_engine_tables_def by blast+
  with s show ?thesis by (auto simp: save_workflow_def op_simps)
qed

lemma transition_body_completed:
  assumes body: "transition_body env w req h db = (Ok (ready, ctx), db')"
    and st: "u_State req = COMPLETED" and dist: "distinct (map n_ID (db_nodes db))"
    and dw: "distinct (map wf_ID (db_workflows db))" and wfl: "wfl \<in> set (db_workflows db)" "wf_ID wfl = w"
    and node: "node \<in> set (db_nodes db)" "n_ID node = u_WorkflowNodeID req" "n_WorkflowID node = w"
      "n_State node = READY \<or> n_State node = IN_PROGRESS"
    and h: "keeps_engine_tables h"
  shows "completed_node node req \<in> set (db_nodes db')"
    and "set ready = {r' \<in> set (db_nodes db'). n_State r' = READY \<and>
       (\<exists>r \<in> set (db_nodes db). n_ID r = n_ID r' \<and> n_State r = LOCKED)}"
    and "ctx = merged_context wfl req"
    and "db_workflows db' = update_where (\<lambda>r. wf_ID r = w)
       (\<lambda>_. wfl\<lparr>wf_GlobalContext := ctx,
          wf_Status := if finished_rows (wf_EndNodeID wfl) w (db_nodes db') then WorkflowStatusCompleted else wf_Status wfl\<rparr>)
       (db_workflows db)"
proof -
  let ?svc = "NewWorkflowNodeService env"
  from body obtain w0 da w1 dbb n dc where
    a: "db_call env (\<lambda>db. (db_first (\<lambda>r. wf_ID r = w) (db_workflows db), db)) db = (Ok w0, da)"
    and b: "append_context env req w0 da = (Ok w1, dbb)"
    and c: "repo_GetByID ?svc (u_WorkflowNodeID req) dbb = (Ok n, dc)"
    and d: "(if n_State n \<noteq> COMPLETED then
              bindS (wrapS ''failed to transition node to COMPLETED'' []
                  (TransitionToCompleted ?svc (Some n) req [Some \<lparr>EndNodeID = wf_EndNodeID w1\<rparr>])) (\<lambda>result.
              if WorkflowFinished result then
                bindS (change_status env ''failed to mark workflow as completed''
                    ''event handler OnWorkflowStatusChanged failed for workflow completion''
                    h w WorkflowStatusCompleted w1) (\<lambda>_. returnS (NewReadyNodes result))
              else returnS (NewReadyNodes result))
            else returnS []) dc = (Ok ready, db')"
    and ctx: "ctx = wf_GlobalContext w1"
    unfolding transition_body_def by (auto simp: op_simps st)
  have sa: "same_tables db da" using a by (rule read_same_tables)
  note fa = same_tables_fields [OF sa]
  have "w0 \<in> set (db_workflows db)" "wf_ID w0 = w"
    using a fa by (auto simp: op_simps dest: db_first_Ok)
  then have w0: "w0 = wfl" using wfl dw by (metis distinct_map inj_onD)
  from append_context_Ok [OF b] fa wfl dw w0 have
    w1: "w1 = wfl\<lparr>wf_GlobalContext := merged_context wfl req\<rparr>" and nb: "db_nodes dbb = db_nodes db"
    and wb: "db_workflows dbb = update_where (\<lambda>r. wf_ID r = w) (\<lambda>_. w1) (db_workflows db)" by auto
  have sc: "same_tables dbb dc" using c by (rule get_node_same_tables)
  note fc = same_tables_fields [OF sc]
  have dist_b: "distinct (map n_ID (db_nodes dbb))" using dist nb by simp
  from node_service.get_by_id [OF dist_b c] have "n \<in> set (db_nodes db)" "n_ID n = n_ID node"
    using nb node by auto
  then have n: "n = node" using row_inj [OF dist] node by blast
  have open_n: "n_State node \<noteq> COMPLETED" using node(4) by auto
  from d open_n obtain plan de where
    t: "TransitionToCompleted ?svc (Some node) req [Some \<lparr>EndNodeID = wf_EndNodeID w1\<rparr>] dc = (Ok plan, de)"
    and e: "(if WorkflowFinished plan then
                bindS (change_status env ''failed to mark workflow as completed''
                    ''event handler OnWorkflowStatusChanged failed for workflow completion''
                    h w WorkflowStatusCompleted w1) (\<lambda>_. returnS (NewReadyNodes plan))
              else returnS (NewReadyNodes plan)) de = (Ok ready, db')"
    unfolding n by (auto simp: op_simps)
  have dc: "distinct (map n_ID (db_nodes dc))" "node \<in> set (db_nodes dc)" "db_nodes dc = db_nodes db"
    using dist_b fc nb node by simp_all
  have we: "db_workflows de = db_workflows dc" by (rule completed_keeps_workflows [OF t dc(1) open_n])
  note res = node_service.completed_result [OF dc(1,2) node(4) t refl]
  have end_cfg: "config_end_node (case [Some \<lparr>EndNodeID = wf_EndNodeID w1\<rparr>] of [] \<Rightarrow> None | c # _ \<Rightarrow> c) = wf_EndNodeID wfl"
    by (simp add: config_end_node_def w1)
  obtain us f where comp: "completion (db_nodes dc) node req (Some \<lparr>EndNodeID = wf_EndNodeID w1\<rparr>) us f"
    and de: "db_nodes de = map f (db_nodes dc)"
    by (rule node_service.completed_completion [OF dc(1,2) node(4) t, of "Some \<lparr>EndNodeID = wf_EndNodeID w1\<rparr>"]) simp_all
  have tail: "db_nodes db' = db_nodes de \<and> ready = NewReadyNodes plan \<and>
      db_workflows db' = (if WorkflowFinished plan
        then update_where (\<lambda>r. wf_ID r = w) (\<lambda>_. w1\<lparr>wf_Status := WorkflowStatusCompleted\<rparr>) (db_workflows de)
        else db_workflows de)"
  proof (cases "WorkflowFinished plan")
    case True
    with e change_status_Ok [OF _ h] w1 wfl show ?thesis by (fastforce simp: op_simps)
  next
    case False
    with e show ?thesis by (simp add: op_simps)
  qed
  show "completed_node node req \<in> set (db_nodes db')"
    using after_node [OF comp] dc(2) tail de by (metis image_eqI list.set_map)
  show "set ready = {r' \<in> set (db_nodes db'). n_State r' = READY \<and>
       (\<exists>r \<in> set (db_nodes db). n_ID r = n_ID r' \<and> n_State r = LOCKED)}"
    using res(4) tail unfolding dc(3) by simp
  show ctx': "ctx = merged_context wfl req" by (simp add: ctx w1)
  have fin: "WorkflowFinished plan \<longleftrightarrow> finished_rows (wf_EndNodeID wfl) w (db_nodes db')"
    using res(5) tail node(3) unfolding end_cfg by simp
  have two: "update_where (\<lambda>r. wf_ID r = w) (\<lambda>_. w1\<lparr>wf_Status := WorkflowStatusCompleted\<rparr>) (db_workflows dc)
      = update_where (\<lambda>r. wf_ID r = w) (\<lambda>_. w1\<lparr>wf_Status := WorkflowStatusCompleted\<rparr>) (db_workflows db)"
    unfolding conjunct1 [OF conjunct2 [OF fc]] wb by (rule update_where_twice) (simp add: w1 wfl)
  have one: "db_workflows dc = update_where (\<lambda>r. wf_ID r = w) (\<lambda>_. w1) (db_workflows db)"
    using fc wb by simp
  show "db_workflows db' = update_where (\<lambda>r. wf_ID r = w)
       (\<lambda>_. wfl\<lparr>wf_GlobalContext := ctx,
          wf_Status := if finished_rows (wf_EndNodeID wfl) w (db_nodes db') then WorkflowStatusCompleted else wf_Status wfl\<rparr>)
       (db_workflows db)"
  proof (cases "WorkflowFinished plan")
    case True
    with tail we two fin show ?thesis by (simp add: ctx' w1)
  next
    case False
    with tail we one fin show ?thesis by (simp add: ctx' w1)
  qed
qed

section \<open>Properties\<close>

text \<open>
  C36: an update that fails changes nothing: when \<open>HandleTaskUpdate\<close> returns an error, every table is
  as before, unless the error says that the new ready nodes could not be registered, which
  happens after the commit.
\<close>

theorem failed_update_is_atomic:
  assumes "HandleTaskUpdate env m update db = (Err e, db')"
  shows "same_tables db db' \<or>
    (\<exists>args cause. e = Wrapf ''failed to register new ready nodes with task manager for task'' args cause)"
proof (cases "wn_UpdatedState update")
  case None
  with assms show ?thesis by (simp add: HandleTaskUpdate_def failS_def)
next
  case (Some ps)
  show ?thesis
  proof (cases "pluginStateToWorkflowNodeState ps")
    case (Ok st)
    let ?req = "\<lparr>u_WorkflowNodeID = wn_TaskID update, u_State = st, u_AppendGlobalContext = wn_AppendGlobalContext update,
      u_ExtendedState = wn_ExtendedState update, u_Outcome = wn_Outcome update\<rparr>"
    obtain r0 db1 where g: "repo_GetByID (NewWorkflowNodeService env) (wn_TaskID update) db = (r0, db1)" by fastforce
    note st1 = get_node_same_tables [OF g]
    note run = assms [unfolded HandleTaskUpdate_def bindS_def wrapS_def liftS_def Let_def failS_def]
    show ?thesis
    proof (cases r0)
      case node: (Ok node)
      show ?thesis
      proof (cases "findHandler m (n_WorkflowID node)")
        case None
        with run Some Ok g node st1 show ?thesis by simp
      next
        case h: (Some h)
        obtain r1 db2 where p: "processStateTransition env node ?req h db1 = (r1, db2)" by fastforce
        show ?thesis
        proof (cases r1)
          case (Ok v)
          obtain ready ctx where v: "v = (ready, ctx)" by (cases v)
          obtain r2 db3 where r2: "registerNodesWithTaskManager env m ready (case ctx of None \<Rightarrow> [] | Some g \<Rightarrow> g) db2 = (r2, db3)"
            by fastforce
          from run Some \<open>pluginStateToWorkflowNodeState ps = Ok st\<close> g node h p Ok v r2 show ?thesis
            by (cases r2) (auto simp: returnS_def split: if_splits)
        next
          case (Err e')
          with p have "same_tables db1 db2" by (auto simp: processStateTransition_def dest: in_transaction_Err)
          with st1 have "same_tables db db2" by (rule same_tables_trans)
          with run Some Ok g node h p Err show ?thesis by simp
        next
          case Panic
          with p show ?thesis by (simp add: processStateTransition_def in_transaction_not_Panic)
        qed
      qed
    next
      case (Err e')
      with run Some Ok g st1 show ?thesis by simp
    next
      case Panic
      with run Some Ok g show ?thesis by simp
    qed
  next
    case (Err e')
    with assms Some show ?thesis
      by (auto simp: HandleTaskUpdate_def bindS_iff wrapS_iff liftS_def)
  next
    case Panic
    with assms Some show ?thesis
      by (auto simp: HandleTaskUpdate_def bindS_iff wrapS_iff liftS_def)
  qed
qed


definition demo_flow :: Workflow where
  "demo_flow = \<lparr>wf_ID = ''w'', wf_Status = WorkflowStatusInProgress, wf_GlobalContext = Some [], wf_EndNodeID = None\<rparr>"

definition demo_state :: "WorkflowNode list \<Rightarrow> Workflow list \<Rightarrow> nat \<Rightarrow> WorkflowDB" where
  "demo_state nodes flows t = \<lparr>db_nodes = nodes, db_workflows = flows, db_node_templates = [], db_tick = t\<rparr>"

definition demo_manager :: "WorkflowDB WorkflowEventHandler \<Rightarrow> WorkflowDB WorkflowManager" where
  "demo_manager h = \<lparr>mgr_handlerMap = [(''w'', h)], mgr_initTaskCallback = None\<rparr>"

definition demo_update :: "State \<Rightarrow> obj \<Rightarrow> WorkflowManagerNotification" where
  "demo_update st ctx = \<lparr>wn_TaskID = ''n'', wn_UpdatedState = Some st, wn_AppendGlobalContext = ctx,
     wn_ExtendedState = None, wn_Outcome = None\<rparr>"

lemmas demo_manager_simps = demo_flow_def demo_state_def demo_manager_def demo_update_def HandleTaskUpdate_def
  pluginStateToWorkflowNodeState_def findHandler_def processStateTransition_def in_transaction_def transition_body_def
  append_context_def change_status_def save_workflow_def rollback_def

text \<open>A failing domain callback: the FAILED node and workflow are rolled back.\<close>

lemma demo_failing_handler:
  "HandleTaskUpdate demo_env (demo_manager (\<lambda>_ _ _ _. failS (External ''down''))) (demo_update Failed [])
     (demo_state [demo_node ''n'' ''a'' READY []] [demo_flow] 0)
   = (Err (Wrapf ''failed to process workflow node state transition for task'' [''n'', ''FAILED'']
        (Wrapf ''event handler OnWorkflowStatusChanged failed for workflow failure'' [] (External ''down''))),
      demo_state [demo_node ''n'' ''a'' READY []] [demo_flow] 6)"
  by (simp add: demo_manager_simps demo_simps)

theorem failed_update_is_atomic_witness:
  "same_tables (demo_state [demo_node ''n'' ''a'' READY []] [demo_flow] 0)
     (demo_state [demo_node ''n'' ''a'' READY []] [demo_flow] 6)"
  using failed_update_is_atomic [OF demo_failing_handler] by simp

text \<open>
  a repeated COMPLETED notification is harmless: when the node is COMPLETED already and the
  notification carries no context, no table changes and no task is registered, whatever the
  database does.
\<close>

theorem duplicate_completion_is_noop:
  assumes "HandleTaskUpdate env m update db = (r, db')"
    and "distinct (map n_ID (db_nodes db))" and "node \<in> set (db_nodes db)" and "n_State node = COMPLETED"
    and "wn_TaskID update = n_ID node" and "wn_UpdatedState update = Some Completed" and "wn_AppendGlobalContext update = []"
  shows "same_tables db db' \<and> r \<noteq> Panic"
proof -
  let ?req = "\<lparr>u_WorkflowNodeID = n_ID node, u_State = COMPLETED, u_AppendGlobalContext = [],
      u_ExtendedState = wn_ExtendedState update, u_Outcome = wn_Outcome update\<rparr>"
  obtain r0 db1 where g: "repo_GetByID (NewWorkflowNodeService env) (n_ID node) db = (r0, db1)" by fastforce
  note st1 = get_node_same_tables [OF g]
  have r0: "r0 \<noteq> Panic"
    using g by (auto simp: NewWorkflowNodeService_def GetWorkflowNodeByIDInTx_def wrapS_iff db_call_def Let_def db_first_def
        split: option.splits)
  note run = assms(1) [unfolded HandleTaskUpdate_def bindS_def wrapS_def liftS_def Let_def failS_def returnS_def]
  show ?thesis
  proof (cases r0)
    case n0: (Ok n0)
    show ?thesis
    proof (cases "findHandler m (n_WorkflowID n0)")
      case None
      with run assms g n0 st1 show ?thesis by (auto simp: pluginStateToWorkflowNodeState_def)
    next
      case h: (Some h)
      obtain r1 db2 where p: "processStateTransition env n0 ?req h db1 = (r1, db2)" by fastforce
      have "r1 \<noteq> Panic" using p in_transaction_not_Panic unfolding processStateTransition_def by metis
      moreover have body: "same_tables db1 db3 \<and> (r3 = Panic \<longrightarrow> False) \<and> (\<forall>v. r3 = Ok v \<longrightarrow> fst v = [])"
        if "transition_body env (n_WorkflowID n0) ?req h db1 = (r3, db3)" for r3 db3
      proof -
        obtain ra da where a: "db_call env (\<lambda>db. (db_first (\<lambda>w. wf_ID w = n_WorkflowID n0) (db_workflows db), db)) db1 = (ra, da)"
          by fastforce
        note sa = read_same_tables [OF a]
        obtain rb dc where b: "repo_GetByID (NewWorkflowNodeService env) (n_ID node) da = (rb, dc)" by fastforce
        note sb = get_node_same_tables [OF b]
        have "same_tables db da" using st1 sa same_tables_trans by blast
        then have nodes: "db_nodes da = db_nodes db" using same_tables_fields by blast
        have "n = node" if "rb = Ok n" for n
        proof -
          have "distinct (map n_ID (db_nodes da))" using assms(2) nodes by simp
          from node_service.get_by_id [OF this b [unfolded that]] have "n \<in> set (db_nodes db)" "n_ID n = n_ID node"
            using nodes by auto
          with assms(2,3) show ?thesis using row_inj by blast
        qed
        moreover have "ra \<noteq> Panic" "rb \<noteq> Panic"
          using a b by (auto simp: NewWorkflowNodeService_def GetWorkflowNodeByIDInTx_def wrapS_iff db_call_def Let_def
              db_first_def split: option.splits)
        ultimately show ?thesis
          using that a b sa sb assms(4) same_tables_trans [OF sa sb]
          by (cases ra; cases rb)
            (auto simp: transition_body_def append_context_def bindS_def wrapS_def returnS_def)
      qed
      have "same_tables db1 db2 \<and> (\<forall>v. r1 = Ok v \<longrightarrow> fst v = [])"
      proof (cases r1)
        case (Ok v)
        from in_transaction_Ok [OF p [unfolded processStateTransition_def Ok, simplified]] body same_tables_trans Ok
        show ?thesis by fastforce
      next
        case (Err e)
        with p show ?thesis by (auto simp: processStateTransition_def dest: in_transaction_Err)
      next
        case Panic
        with \<open>r1 \<noteq> Panic\<close> show ?thesis by simp
      qed
      moreover from this have "same_tables db db2" using st1 same_tables_trans by blast
      ultimately show ?thesis
        using run assms g n0 h p
        by (cases r1) (auto simp: pluginStateToWorkflowNodeState_def split: if_splits)
    qed
  next
    case (Err e)
    with run assms g st1 show ?thesis by (auto simp: pluginStateToWorkflowNodeState_def)
  next
    case Panic
    with r0 show ?thesis by simp
  qed
qed

theorem duplicate_completion_is_noop_witness:
  "same_tables (demo_state [demo_node ''n'' ''a'' COMPLETED []] [demo_flow] 0)
     (demo_state [demo_node ''n'' ''a'' COMPLETED []] [demo_flow] 4) \<and> Ok () \<noteq> Panic"
proof (rule duplicate_completion_is_noop [where node = "demo_node ''n'' ''a'' COMPLETED []"])
  show "HandleTaskUpdate demo_env (demo_manager (\<lambda>_ _ _ _. returnS ())) (demo_update Completed [])
     (demo_state [demo_node ''n'' ''a'' COMPLETED []] [demo_flow] 0)
   = (Ok (), demo_state [demo_node ''n'' ''a'' COMPLETED []] [demo_flow] 4)"
    by (simp add: demo_manager_simps demo_simps)
qed (simp_all add: demo_state_def demo_node_def demo_update_def)


lemma update_where_workflows_same: "same_tables db1 db' \<Longrightarrow> db_nodes db' = db_nodes db1 \<and> db_workflows db' = db_workflows db1"
  using same_tables_fields by blast

text \<open>
  C5: a COMPLETED notification of an open node, committed, leaves the database exactly so: the node
  carries COMPLETED with the reported outcome, the nodes handed on for registration are the ones
  that became READY, the workflow row holds the merged global context, and its status turns to
  COMPLETED exactly when the end node (or, without one, every node) is COMPLETED.
\<close>

theorem completion_is_recorded:
  assumes "processStateTransition env node req h db = (Ok (ready, ctx), db')"
    and "fst (transition_body env (n_WorkflowID node) req h db) \<noteq> Panic"
    and "u_State req = COMPLETED" and "distinct (map n_ID (db_nodes db))" and "distinct (map wf_ID (db_workflows db))"
    and "flow \<in> set (db_workflows db)" and "wf_ID flow = n_WorkflowID node"
    and "node \<in> set (db_nodes db)" and "n_ID node = u_WorkflowNodeID req"
    and "n_State node = READY \<or> n_State node = IN_PROGRESS" and "keeps_engine_tables h"
  shows "completed_node node req \<in> set (db_nodes db') \<and>
    set ready = {r' \<in> set (db_nodes db'). n_State r' = READY \<and>
       (\<exists>r \<in> set (db_nodes db). n_ID r = n_ID r' \<and> n_State r = LOCKED)} \<and>
    ctx = merged_context flow req \<and>
    db_workflows db' = update_where (\<lambda>r. wf_ID r = n_WorkflowID node)
       (\<lambda>_. flow\<lparr>wf_GlobalContext := ctx,
          wf_Status := if finished_rows (wf_EndNodeID flow) (n_WorkflowID node) (db_nodes db')
                       then WorkflowStatusCompleted else wf_Status flow\<rparr>)
       (db_workflows db)"
proof -
  from in_transaction_Ok [OF assms(1) [unfolded processStateTransition_def]] assms(2)
  obtain db1 where body: "transition_body env (n_WorkflowID node) req h db = (Ok (ready, ctx), db1)"
    and same: "same_tables db1 db'" by auto
  note facts = transition_body_completed [OF body assms(3-8) assms(9) refl assms(10,11)]
  show ?thesis
    using facts(1,2,3,4) unfolding update_where_workflows_same [OF same, THEN conjunct1]
      update_where_workflows_same [OF same, THEN conjunct2] by blast
qed

lemma demo_recorded:
  "processStateTransition demo_env (demo_node ''n'' ''a'' READY [])
     \<lparr>u_WorkflowNodeID = ''n'', u_State = COMPLETED, u_AppendGlobalContext = [(''k'', JNum 1)], u_ExtendedState = None,
      u_Outcome = Some ''APPROVED''\<rparr> (\<lambda>_ _ _ _. returnS ())
     (demo_state [demo_node ''n'' ''a'' READY []] [demo_flow] 0)
   = (Ok ([], Some [(''k'', JNum 1)]),
      demo_state [(demo_node ''n'' ''a'' COMPLETED [])\<lparr>n_Outcome := Some ''APPROVED''\<rparr>]
        [demo_flow\<lparr>wf_Status := ''COMPLETED'', wf_GlobalContext := Some [(''k'', JNum 1)]\<rparr>] 8)"
  by (simp add: demo_manager_simps demo_simps)

theorem completion_is_recorded_witness:
  "finished_rows None ''w'' [(demo_node ''n'' ''a'' COMPLETED [])\<lparr>n_Outcome := Some ''APPROVED''\<rparr>] \<and>
   Some [(''k'', JNum 1)] = merged_context demo_flow
     \<lparr>u_WorkflowNodeID = ''n'', u_State = COMPLETED, u_AppendGlobalContext = [(''k'', JNum 1)], u_ExtendedState = None,
      u_Outcome = Some ''APPROVED''\<rparr>"
proof -
  have "fst (transition_body demo_env (n_WorkflowID (demo_node ''n'' ''a'' READY []))
     \<lparr>u_WorkflowNodeID = ''n'', u_State = COMPLETED, u_AppendGlobalContext = [(''k'', JNum 1)], u_ExtendedState = None,
      u_Outcome = Some ''APPROVED''\<rparr> (\<lambda>_ _ _ _. returnS ())
     (demo_state [demo_node ''n'' ''a'' READY []] [demo_flow] 0)) \<noteq> Panic"
    by (simp add: demo_manager_simps demo_simps)
  from completion_is_recorded [OF demo_recorded this, of demo_flow] show ?thesis
    by (simp add: demo_state_def demo_node_def demo_flow_def keeps_engine_tables_def returnS_def finished_rows_def
        update_where_def)
qed

text \<open>
  an update to INITIALIZED (a payment that failed or timed out) moves no node and no workflow:
  only the global context may grow.
\<close>

theorem initialized_update_moves_nothing:
  assumes "processStateTransition env node req h db = (Ok (ready, ctx), db')" and "u_State req = READY"
    and "distinct (map wf_ID (db_workflows db))"
  shows "ready = [] \<and> db_nodes db' = db_nodes db \<and>
    map (\<lambda>r. r\<lparr>wf_GlobalContext := None\<rparr>) (db_workflows db') = map (\<lambda>r. r\<lparr>wf_GlobalContext := None\<rparr>) (db_workflows db)"
proof -
  have body: "ready = [] \<and> db_nodes db1 = db_nodes db \<and>
      map (\<lambda>r. r\<lparr>wf_GlobalContext := None\<rparr>) (db_workflows db1) = map (\<lambda>r. r\<lparr>wf_GlobalContext := None\<rparr>) (db_workflows db)"
    if b: "transition_body env (n_WorkflowID node) req h db = (Ok (ready, ctx), db1)" for db1
  proof -
    from b obtain w0 da w1 dbb n where
      a: "db_call env (\<lambda>db. (db_first (\<lambda>r. wf_ID r = n_WorkflowID node) (db_workflows db), db)) db = (Ok w0, da)"
      and b: "append_context env req w0 da = (Ok w1, dbb)"
      and c: "repo_GetByID (NewWorkflowNodeService env) (u_WorkflowNodeID req) dbb = (Ok n, db1)" and "ready = []"
      unfolding transition_body_def by (auto simp: op_simps assms(2))
    have fa: "db_nodes da = db_nodes db" "db_workflows da = db_workflows db"
      using same_tables_fields [OF read_same_tables [OF a]] by auto
    have w0: "w0 \<in> set (db_workflows da)" using a fa by (auto simp: op_simps dest: db_first_Ok)
    have dw: "distinct (map wf_ID (db_workflows da))" using assms(3) fa by simp
    from append_context_Ok [OF b w0 dw] have w1: "w1 = w0\<lparr>wf_GlobalContext := merged_context w0 req\<rparr>"
      "db_nodes dbb = db_nodes da" "db_workflows dbb = update_where (\<lambda>r. wf_ID r = wf_ID w0) (\<lambda>_. w1) (db_workflows da)"
      by auto
    have "(w1\<lparr>wf_GlobalContext := None\<rparr>) = r\<lparr>wf_GlobalContext := None\<rparr>" if "r \<in> set (db_workflows da)" "wf_ID r = wf_ID w0" for r
    proof -
      have "r = w0" using that w0 dw by (metis distinct_map inj_onD)
      then show ?thesis by (simp add: w1)
    qed
    then have "map (\<lambda>r. r\<lparr>wf_GlobalContext := None\<rparr>) (db_workflows dbb) = map (\<lambda>r. r\<lparr>wf_GlobalContext := None\<rparr>) (db_workflows da)"
      by (simp add: w1 update_where_def)
    with same_tables_fields [OF get_node_same_tables [OF c]] w1 fa \<open>ready = []\<close> show ?thesis by simp
  qed
  from in_transaction_Ok [OF assms(1) [unfolded processStateTransition_def]]
  show ?thesis
  proof
    assume "\<exists>db1. transition_body env (n_WorkflowID node) req h db = (Ok (ready, ctx), db1) \<and> same_tables db1 db'"
    then obtain db1 where b: "transition_body env (n_WorkflowID node) req h db = (Ok (ready, ctx), db1)"
      and s: "same_tables db1 db'" by blast
    from body [OF b] update_where_workflows_same [OF s] show ?thesis by (simp only: simp_thms)
  next
    assume "\<exists>db1. transition_body env (n_WorkflowID node) req h db = (Panic, db1) \<and> (ready, ctx) = ([], None) \<and> same_tables db db'"
    then have s: "same_tables db db'" and "ready = []" by auto
    from update_where_workflows_same [OF s] \<open>ready = []\<close> show ?thesis by simp
  qed
qed

theorem initialized_update_moves_nothing_witness:
  "db_nodes (demo_state [demo_node ''n'' ''a'' IN_PROGRESS []] [demo_flow] 3)
     = db_nodes (demo_state [demo_node ''n'' ''a'' IN_PROGRESS []] [demo_flow] 0)"
proof -
  have "processStateTransition demo_env (demo_node ''n'' ''a'' IN_PROGRESS [])
     \<lparr>u_WorkflowNodeID = ''n'', u_State = READY, u_AppendGlobalContext = [], u_ExtendedState = Some ''IDLE'',
      u_Outcome = None\<rparr> (\<lambda>_ _ _ _. returnS ())
     (demo_state [demo_node ''n'' ''a'' IN_PROGRESS []] [demo_flow] 0)
    = (Ok ([], Some []), demo_state [demo_node ''n'' ''a'' IN_PROGRESS []] [demo_flow] 3)"
    by (simp add: demo_manager_simps demo_simps)
  from initialized_update_moves_nothing [OF this] show ?thesis by (simp add: demo_state_def demo_flow_def)
qed

text \<open>
  a panic inside the transaction is reported as success: the transaction is rolled back, the
  nil error of the recovered function reaches the caller, and no node is registered.
\<close>

theorem panic_becomes_success:
  assumes "wn_UpdatedState update = Some ps" and "pluginStateToWorkflowNodeState ps = Ok st"
    and "repo_GetByID (NewWorkflowNodeService env) (wn_TaskID update) db = (Ok node, db1)"
    and "findHandler m (n_WorkflowID node) = Some h"
    and "transition_body env (n_WorkflowID node) \<lparr>u_WorkflowNodeID = wn_TaskID update, u_State = st,
        u_AppendGlobalContext = wn_AppendGlobalContext update, u_ExtendedState = wn_ExtendedState update,
        u_Outcome = wn_Outcome update\<rparr> h db1 = (Panic, db2)"
  shows "HandleTaskUpdate env m update db = (Ok (), rollback db1 db2) \<and> same_tables db (rollback db1 db2)"
  using assms get_node_same_tables [OF assms(3)] same_tables_trans [of db db1 "rollback db1 db2"]
  by (auto simp: HandleTaskUpdate_def bindS_def wrapS_def liftS_def Let_def returnS_def
      processStateTransition_def in_transaction_def)

text \<open>A sibling with an unresolved unlock condition: the node stays READY, the caller sees no error.\<close>

definition demo_unresolved :: WorkflowNode where
  "demo_unresolved = (demo_node ''nn'' ''b'' LOCKED [])\<lparr>n_UnlockConfiguration := Some (UnlockConfig
     [UnlockGroup [\<lparr>uc_NodeTemplateID = ''a'', uc_NodeID = None, uc_State = Some ''COMPLETED'', uc_Outcome = None\<rparr>]] None)\<rparr>"

theorem panic_becomes_success_witness:
  "HandleTaskUpdate demo_env (demo_manager (\<lambda>_ _ _ _. returnS ())) (demo_update Completed [])
     (demo_state [demo_node ''n'' ''a'' READY [], demo_unresolved] [demo_flow] 0)
   = (Ok (), demo_state [demo_node ''n'' ''a'' READY [], demo_unresolved] [demo_flow] 4)"
proof -
  have "HandleTaskUpdate demo_env (demo_manager (\<lambda>_ _ _ _. returnS ())) (demo_update Completed [])
      (demo_state [demo_node ''n'' ''a'' READY [], demo_unresolved] [demo_flow] 0)
    = (Ok (), rollback (demo_state [demo_node ''n'' ''a'' READY [], demo_unresolved] [demo_flow] 1)
        (demo_state [demo_node ''n'' ''a'' READY [], demo_unresolved] [demo_flow] 4))"
    by (rule conjunct1 [OF panic_becomes_success [where h = "\<lambda>_ _ _ _. returnS ()" and st = COMPLETED and ps = Completed
          and node = "demo_node ''n'' ''a'' READY []"]])
      (simp_all add: demo_manager_simps demo_simps demo_unresolved_def cEvaluate_def evaluateGroup_def evaluateCondition_def)
  then show ?thesis by (simp add: rollback_def demo_state_def)
qed

end
