(* ===== verification/ContainerCache.thy ===== *)
theory ContainerCache
  imports Prelude
begin

text \<open>
  The LRU cache of active containers, \<open>backend/internal/task/manager/cache.go\<close>: a map from task ids
  to the nodes of a doubly linked list. Nodes are cells of a store (a list; a pointer is an
  index), so that the pointer assignments of the source are assignments of cells; the container
  is any value. It refines a bounded list of the least recently used entries. The mutex makes
  every operation run alone and is not modelled; evicted cells stay in the store as garbage.
\<close>

section \<open>The data structure\<close>

record 'c cacheNode =
  cn_taskID :: string
  cn_container :: 'c
  cn_prev :: "nat option"
  cn_next :: "nat option"

record 'c containerCache =
  cc_capacity :: int
  cc_cache :: "(string, nat) gomap"
  cc_head :: "nat option"
  cc_tail :: "nat option"
  cc_store :: "'c cacheNode list"

definition newContainerCache :: "int \<Rightarrow> 'c containerCache" where
  "newContainerCache capacity =
     \<lparr>cc_capacity = (if capacity \<le> 0 then 100 else capacity), cc_cache = [], cc_head = None, cc_tail = None, cc_store = []\<rparr>"

definition node_at :: "'c containerCache \<Rightarrow> nat \<Rightarrow> 'c cacheNode" where
  "node_at c p = cc_store c ! p"

definition set_node :: "nat \<Rightarrow> ('c cacheNode \<Rightarrow> 'c cacheNode) \<Rightarrow> 'c containerCache \<Rightarrow> 'c containerCache" where
  "set_node p f c = c\<lparr>cc_store := (cc_store c)[p := f (node_at c p)]\<rparr>"

definition addToFront :: "nat \<Rightarrow> 'c containerCache \<Rightarrow> 'c containerCache" where
  "addToFront node c0 =
     (let c1 = set_node node (\<lambda>n. n\<lparr>cn_next := cc_head c0, cn_prev := None\<rparr>) c0;
          c2 = (case cc_head c1 of
                  Some h \<Rightarrow> set_node h (\<lambda>n. n\<lparr>cn_prev := Some node\<rparr>) c1
                | None \<Rightarrow> c1);
          c3 = c2\<lparr>cc_head := Some node\<rparr>
      in if cc_tail c3 = None then c3\<lparr>cc_tail := Some node\<rparr> else c3)"

definition removeNode :: "nat \<Rightarrow> 'c containerCache \<Rightarrow> 'c containerCache" where
  "removeNode node c0 =
     (let c1 = (case cn_prev (node_at c0 node) of
                  Some p \<Rightarrow> set_node p (\<lambda>n. n\<lparr>cn_next := cn_next (node_at c0 node)\<rparr>) c0
                | None \<Rightarrow> c0\<lparr>cc_head := cn_next (node_at c0 node)\<rparr>)
      in case cn_next (node_at c1 node) of
           Some q \<Rightarrow> set_node q (\<lambda>n. n\<lparr>cn_prev := cn_prev (node_at c1 node)\<rparr>) c1
         | None \<Rightarrow> c1\<lparr>cc_tail := cn_prev (node_at c1 node)\<rparr>)"

definition moveToFront :: "nat \<Rightarrow> 'c containerCache \<Rightarrow> 'c containerCache" where
  "moveToFront node c = (if cc_head c = Some node then c else addToFront node (removeNode node c))"

definition evictLRU :: "'c containerCache \<Rightarrow> 'c containerCache" where
  "evictLRU c =
     (case cc_tail c of
        None \<Rightarrow> c
      | Some lruNode \<Rightarrow>
          let c1 = removeNode lruNode c
          in c1\<lparr>cc_cache := AList.delete (cn_taskID (node_at c1 lruNode)) (cc_cache c1)\<rparr>)"

definition cache_Get :: "string \<Rightarrow> 'c containerCache \<Rightarrow> 'c option \<times> 'c containerCache" where
  "cache_Get taskID c =
     (case map_get (cc_cache c) taskID of
        None \<Rightarrow> (None, c)
      | Some node \<Rightarrow>
          let c1 = moveToFront node c in (Some (cn_container (node_at c1 node)), c1))"

definition cache_Set :: "string \<Rightarrow> 'c \<Rightarrow> 'c containerCache \<Rightarrow> 'c containerCache" where
  "cache_Set taskID cont c =
     (case map_get (cc_cache c) taskID of
        Some node \<Rightarrow> moveToFront node (set_node node (\<lambda>n. n\<lparr>cn_container := cont\<rparr>) c)
      | None \<Rightarrow>
          let newNode = length (cc_store c);
              c1 = c\<lparr>cc_store := cc_store c @
                      [\<lparr>cn_taskID = taskID, cn_container = cont, cn_prev = None, cn_next = None\<rparr>]\<rparr>;
              c2 = c1\<lparr>cc_cache := map_put taskID newNode (cc_cache c1)\<rparr>;
              c3 = addToFront newNode c2
          in if int (length (cc_cache c3)) > cc_capacity c3 then evictLRU c3 else c3)"

definition cache_Delete :: "string \<Rightarrow> 'c containerCache \<Rightarrow> 'c containerCache" where
  "cache_Delete taskID c =
     (case map_get (cc_cache c) taskID of
        None \<Rightarrow> c
      | Some node \<Rightarrow>
          let c1 = removeNode node c in c1\<lparr>cc_cache := AList.delete taskID (cc_cache c1)\<rparr>)"

definition cache_Clear :: "'c containerCache \<Rightarrow> 'c containerCache" where
  "cache_Clear c = c\<lparr>cc_cache := [], cc_head := None, cc_tail := None\<rparr>"

definition cache_Len :: "'c containerCache \<Rightarrow> nat" where
  "cache_Len c = length (cc_cache c)"

section \<open>The interface: a bounded list, most recently used first\<close>

definition lru_touch :: "string \<Rightarrow> 'c \<Rightarrow> (string \<times> 'c) list \<Rightarrow> (string \<times> 'c) list" where
  "lru_touch k v xs = (k, v) # filter (\<lambda>x. fst x \<noteq> k) xs"

locale lru_cache =
  fixes get :: "string \<Rightarrow> 'm \<Rightarrow> 'c option \<times> 'm"
    and put :: "string \<Rightarrow> 'c \<Rightarrow> 'm \<Rightarrow> 'm"
    and size_of :: "'m \<Rightarrow> nat"
    and entries :: "'m \<Rightarrow> (string \<times> 'c) list"
    and bound :: "'m \<Rightarrow> nat"
    and inv :: "'m \<Rightarrow> bool"
  assumes keys: "inv m \<Longrightarrow> distinct (map fst (entries m)) \<and> length (entries m) \<le> bound m \<and> 0 < bound m"
    and get_miss: "inv m \<Longrightarrow> map_of (entries m) k = None \<Longrightarrow> get k m = (None, m)"
    and get_hit: "inv m \<Longrightarrow> map_of (entries m) k = Some v \<Longrightarrow>
          \<exists>m'. get k m = (Some v, m') \<and> inv m' \<and> entries m' = lru_touch k v (entries m) \<and> bound m' = bound m"
    and put_entries: "inv m \<Longrightarrow> inv (put k v m) \<and> bound (put k v m) = bound m \<and>
          entries (put k v m) = take (bound m) (lru_touch k v (entries m))"
    and size_entries: "inv m \<Longrightarrow> size_of m = length (entries m)"
begin

lemma map_of_touch: "map_of (lru_touch k v xs) k' = (if k' = k then Some v else map_of xs k')"
proof -
  have "map_of (filter (\<lambda>x. fst x \<noteq> k) xs) k' = (if k' = k then None else map_of xs k')"
    by (induction xs) auto
  then show ?thesis by (simp add: lru_touch_def)
qed

lemma get_after_put: "inv m \<Longrightarrow> fst (get k (put k v m)) = Some v"
proof -
  assume inv: "inv m"
  have "map_of (entries (put k v m)) k = Some v"
    using put_entries [OF inv] keys [OF inv] by (cases "bound m") (simp_all add: lru_touch_def)
  with get_hit put_entries [OF inv] show ?thesis by fastforce
qed

lemma bounded: "inv m \<Longrightarrow> size_of (put k v m) \<le> bound m"
  using size_entries put_entries keys by simp

text \<open>Another key survives unless it was the last entry of a full cache.\<close>

lemma put_keeps_other:
  assumes "inv m" and "map_of (entries m) k' = Some v'" and "k' \<noteq> k"
    and "map_of (entries m) k \<noteq> None \<or> length (entries m) < bound m"
  shows "map_of (entries (put k v m)) k' = Some v'"
proof -
  have "length (lru_touch k v (entries m)) \<le> bound m"
  proof (cases "map_of (entries m) k")
    case None
    then have "length (entries m) < bound m" using assms(4) by simp
    moreover have "length (filter (\<lambda>x. fst x \<noteq> k) (entries m)) \<le> length (entries m)" by simp
    ultimately show ?thesis unfolding lru_touch_def by (simp only: length_Cons)
  next
    case (Some w)
    then have "\<exists>x \<in> set (entries m). \<not> fst x \<noteq> k" by (force dest: map_of_SomeD)
    then have "length (filter (\<lambda>x. fst x \<noteq> k) (entries m)) < length (entries m)"
      by (auto simp: length_filter_less)
    then show ?thesis using keys [OF assms(1)] by (simp add: lru_touch_def)
  qed
  then have "entries (put k v m) = lru_touch k v (entries m)" using put_entries [OF assms(1)] by simp
  with assms(2,3) show ?thesis by (simp add: map_of_touch)
qed

end

section \<open>Segments of the linked list\<close>

definition first_of :: "nat list \<Rightarrow> nat option \<Rightarrow> nat option" where
  "first_of xs q = (case xs of [] \<Rightarrow> q | a # _ \<Rightarrow> Some a)"

definition last_of :: "nat option \<Rightarrow> nat list \<Rightarrow> nat option" where
  "last_of p xs = (if xs = [] then p else Some (last xs))"

lemma first_last_simps [simp]:
  "first_of [] q = q" "first_of (a # xs) q = Some a" "last_of p [] = p" "last_of p (xs @ [a]) = Some a"
  by (simp_all add: first_of_def last_of_def)

fun seg :: "'c cacheNode list \<Rightarrow> nat option \<Rightarrow> nat list \<Rightarrow> nat option \<Rightarrow> bool" where
  "seg s p [] q \<longleftrightarrow> True"
| "seg s p (a # xs) q \<longleftrightarrow>
     a < length s \<and> cn_prev (s ! a) = p \<and> cn_next (s ! a) = first_of xs q \<and> seg s (Some a) xs q"

lemma last_of_Cons: "last_of p (a # xs) = last_of (Some a) xs"
  by (simp add: last_of_def)

lemma first_of_append: "first_of (xs @ ys) q = first_of xs (first_of ys q)"
  by (cases xs) simp_all

lemma seg_append: "seg s p (xs @ ys) q \<longleftrightarrow> seg s p xs (first_of ys q) \<and> seg s (last_of p xs) ys q"
  by (induction xs arbitrary: p) (auto simp: last_of_Cons first_of_append)

lemma seg_bound: "seg s p xs q \<Longrightarrow> a \<in> set xs \<Longrightarrow> a < length s"
  by (induction xs arbitrary: p) auto

lemma seg_other: "a \<notin> set xs \<Longrightarrow> seg (s[a := n]) p xs q \<longleftrightarrow> seg s p xs q"
  by (induction xs arbitrary: p) auto

lemma seg_store_append: "seg s p xs q \<Longrightarrow> seg (s @ t) p xs q"
  by (induction xs arbitrary: p) (auto simp: nth_append)

text \<open>Changing the entry link of the first node, the exit link of the last one.\<close>

lemma seg_set_prev:
  "seg s p (a # xs) q \<Longrightarrow> a \<notin> set xs \<Longrightarrow> seg (s[a := (s ! a)\<lparr>cn_prev := p'\<rparr>]) p' (a # xs) q"
  by (simp add: seg_other)

lemma seg_set_next:
  "seg s p (xs @ [a]) q \<Longrightarrow> a \<notin> set xs \<Longrightarrow> seg (s[a := (s ! a)\<lparr>cn_next := q'\<rparr>]) p (xs @ [a]) q'"
  by (simp add: seg_append seg_other)


section \<open>List operations on the cells\<close>

definition label :: "'c cacheNode \<Rightarrow> string \<times> 'c" where
  "label n = (cn_taskID n, cn_container n)"

definition same_labels :: "'c containerCache \<Rightarrow> 'c containerCache \<Rightarrow> bool" where
  "same_labels c c' \<longleftrightarrow> length (cc_store c') = length (cc_store c)
     \<and> (\<forall>a. a < length (cc_store c) \<longrightarrow> label (cc_store c' ! a) = label (cc_store c ! a))
     \<and> cc_cache c' = cc_cache c \<and> cc_capacity c' = cc_capacity c"

lemma same_labels_trans: "same_labels a b \<Longrightarrow> same_labels b c \<Longrightarrow> same_labels a c"
  by (auto simp: same_labels_def)

lemma same_labels_refl: "same_labels c c"
  by (simp add: same_labels_def)

lemma set_node_labels:
  assumes "\<And>n. label (f n) = label n"
  shows "same_labels c (set_node p f c)"
proof -
  have "label ((cc_store c)[p := f (cc_store c ! p)] ! a) = label (cc_store c ! a)" if "a < length (cc_store c)" for a
    using that assms by (cases "p = a") simp_all
  then show ?thesis by (simp add: same_labels_def set_node_def node_at_def)
qed

lemma label_links [simp]: "label (n\<lparr>cn_next := x\<rparr>) = label n" "label (n\<lparr>cn_prev := x\<rparr>) = label n"
  by (simp_all add: label_def)

definition chain :: "'c containerCache \<Rightarrow> nat list \<Rightarrow> bool" where
  "chain c ps \<longleftrightarrow> distinct ps \<and> seg (cc_store c) None ps None \<and> cc_head c = first_of ps None \<and> cc_tail c = last_of None ps"

lemma removeNode_labels: "same_labels c (removeNode a c)"
proof -
  have c1: "same_labels c (case cn_prev (node_at c a) of
       Some p \<Rightarrow> set_node p (\<lambda>n. n\<lparr>cn_next := cn_next (node_at c a)\<rparr>) c
     | None \<Rightarrow> c\<lparr>cc_head := cn_next (node_at c a)\<rparr>)" (is "same_labels c ?c1")
    by (cases "cn_prev (node_at c a)") (simp_all add: set_node_labels, simp add: same_labels_def)
  have "same_labels ?c1 (removeNode a c)"
    by (cases "cn_next (node_at ?c1 a)") (simp_all add: removeNode_def Let_def set_node_labels, simp add: same_labels_def)
  with c1 show ?thesis by (rule same_labels_trans)
qed

lemma removeNode_chain:
  assumes "chain c (xs @ a # ys)"
  shows "chain (removeNode a c) (xs @ ys)"
proof -
  let ?s = "cc_store c"
  have dist: "distinct (xs @ a # ys)" and sg: "seg ?s None (xs @ a # ys) None"
    and hd: "cc_head c = first_of (xs @ a # ys) None" and tl: "cc_tail c = last_of None (xs @ a # ys)"
    using assms by (simp_all add: chain_def)
  from sg have left: "seg ?s None xs (Some a)" and p: "cn_prev (?s ! a) = last_of None xs"
    and n: "cn_next (?s ! a) = first_of ys None" and right: "seg ?s (Some a) ys None"
    by (simp_all add: seg_append)
  define c1 where "c1 = (case cn_prev (node_at c a) of
       Some p \<Rightarrow> set_node p (\<lambda>n. n\<lparr>cn_next := cn_next (node_at c a)\<rparr>) c
     | None \<Rightarrow> c\<lparr>cc_head := cn_next (node_at c a)\<rparr>)"
  have c1: "seg (cc_store c1) None xs (first_of ys None) \<and> seg (cc_store c1) (Some a) ys None
      \<and> cc_head c1 = first_of (xs @ ys) None \<and> cc_tail c1 = cc_tail c \<and> node_at c1 a = node_at c a"
  proof (cases xs rule: rev_cases)
    case Nil
    with p n right show ?thesis by (simp add: c1_def node_at_def)
  next
    case (snoc xs' l)
    then have pl: "cn_prev (?s ! a) = Some l" and l: "l \<notin> set xs'" "l \<notin> set ys" "l \<noteq> a" using p dist by auto
    then have st: "cc_store c1 = ?s[l := (?s ! l)\<lparr>cn_next := first_of ys None\<rparr>]"
      using n by (simp add: c1_def node_at_def set_node_def)
    have "seg (cc_store c1) None xs (first_of ys None)"
      unfolding st snoc by (rule seg_set_next) (use left snoc l in auto)
    moreover have "seg (cc_store c1) (Some a) ys None"
      unfolding st using right l by (simp add: seg_other)
    moreover have "cc_head c1 = first_of (xs @ ys) None" "cc_tail c1 = cc_tail c"
      using hd pl by (auto simp: c1_def node_at_def set_node_def snoc first_of_append)
    moreover have "node_at c1 a = node_at c a" using st l by (simp add: node_at_def)
    ultimately show ?thesis by blast
  qed
  have rem: "removeNode a c = (case cn_next (node_at c1 a) of
       Some q \<Rightarrow> set_node q (\<lambda>n. n\<lparr>cn_prev := cn_prev (node_at c1 a)\<rparr>) c1
     | None \<Rightarrow> c1\<lparr>cc_tail := cn_prev (node_at c1 a)\<rparr>)"
    by (simp only: removeNode_def Let_def c1_def)
  have d: "distinct (xs @ ys)" using dist by simp
  show ?thesis
  proof (cases ys)
    case Nil
    then show ?thesis using c1 n p d by (simp add: chain_def rem node_at_def)
  next
    case (Cons q ys')
    then have q: "q \<notin> set xs" "q \<notin> set ys'" using dist by auto
    have st: "cc_store (removeNode a c) = (cc_store c1)[q := (cc_store c1 ! q)\<lparr>cn_prev := last_of None xs\<rparr>]"
      "cc_head (removeNode a c) = cc_head c1" "cc_tail (removeNode a c) = cc_tail c1"
      using c1 n p Cons by (simp_all add: rem node_at_def set_node_def)
    have "seg (cc_store (removeNode a c)) None xs (first_of ys None)"
      using c1 q by (simp add: st seg_other)
    moreover have "seg (cc_store (removeNode a c)) (last_of None xs) ys None"
      unfolding st Cons by (rule seg_set_prev) (use c1 Cons q in auto)
    moreover have "cc_tail c = last_of None (xs @ ys)" using tl Cons by (simp add: last_of_def)
    ultimately show ?thesis using c1 d by (simp add: chain_def seg_append st)
  qed
qed

lemma addToFront_labels: "same_labels c (addToFront a c)"
proof -
  let ?c1 = "set_node a (\<lambda>n. n\<lparr>cn_next := cc_head c, cn_prev := None\<rparr>) c"
  have "same_labels c ?c1" by (rule set_node_labels) simp
  moreover have "same_labels ?c1 (addToFront a c)"
  proof (cases "cc_head ?c1")
    case None
    then show ?thesis by (simp add: addToFront_def Let_def same_labels_def)
  next
    case (Some h)
    have "same_labels ?c1 (set_node h (\<lambda>n. n\<lparr>cn_prev := Some a\<rparr>) ?c1)" by (rule set_node_labels) simp
    with Some show ?thesis by (simp add: addToFront_def Let_def same_labels_def)
  qed
  ultimately show ?thesis by (rule same_labels_trans)
qed

lemma addToFront_chain:
  assumes "chain c ps" and "a \<notin> set ps" and "a < length (cc_store c)"
  shows "chain (addToFront a c) (a # ps)"
proof -
  let ?s = "cc_store c"
  let ?s1 = "?s[a := (?s ! a)\<lparr>cn_next := first_of ps None, cn_prev := None\<rparr>]"
  have ch: "distinct ps" "seg ?s None ps None" "cc_head c = first_of ps None" "cc_tail c = last_of None ps"
    using assms(1) by (simp_all add: chain_def)
  show ?thesis
  proof (cases ps)
    case Nil
    with ch assms(3) show ?thesis
      by (simp add: chain_def addToFront_def Let_def set_node_def node_at_def last_of_def)
  next
    case (Cons h ps')
    then have h: "h \<noteq> a" "h \<notin> set ps'" using assms(2) ch(1) by auto
    have st: "cc_store (addToFront a c) = ?s1[h := (?s1 ! h)\<lparr>cn_prev := Some a\<rparr>]"
      "cc_head (addToFront a c) = Some a" "cc_tail (addToFront a c) = last_of None ps"
      using Cons ch by (simp_all add: addToFront_def Let_def set_node_def node_at_def last_of_def)
    have "seg ?s1 None ps None" using ch(2) assms(2) by (simp add: seg_other)
    then have "seg (?s1[h := (?s1 ! h)\<lparr>cn_prev := Some a\<rparr>]) (Some a) ps None"
      unfolding Cons by (rule seg_set_prev) (rule h)
    then have "seg (cc_store (addToFront a c)) (Some a) ps None" by (simp only: st)
    moreover have "cc_store (addToFront a c) ! a = (?s ! a)\<lparr>cn_next := first_of ps None, cn_prev := None\<rparr>"
      using h assms(3) by (simp add: st)
    ultimately show ?thesis
      using ch assms(2,3) Cons by (simp add: chain_def st(2,3) last_of_Cons) (simp add: st last_of_def)
  qed
qed

lemma moveToFront_labels: "same_labels c (moveToFront a c)"
proof (cases "cc_head c = Some a")
  case True
  then show ?thesis by (simp add: moveToFront_def same_labels_refl)
next
  case False
  have "same_labels c (addToFront a (removeNode a c))"
    by (rule same_labels_trans [OF removeNode_labels addToFront_labels])
  with False show ?thesis by (simp add: moveToFront_def)
qed

lemma moveToFront_chain:
  assumes "chain c ps" and "a \<in> set ps"
  shows "chain (moveToFront a c) (a # remove1 a ps)"
proof -
  obtain xs ys where ps: "ps = xs @ a # ys" using assms(2) by (meson split_list)
  have a: "a \<notin> set xs" "a \<notin> set ys" using assms(1) ps by (auto simp: chain_def)
  then have rm: "remove1 a ps = xs @ ys" by (simp add: ps remove1_append)
  show ?thesis
  proof (cases "cc_head c = Some a")
    case True
    then have "xs = []" using assms(1) a by (cases xs) (auto simp: chain_def ps)
    with True assms(1) ps show ?thesis by (simp add: moveToFront_def)
  next
    case False
    have "a < length (cc_store c)" using assms by (auto simp: chain_def dest: seg_bound)
    with addToFront_chain [OF removeNode_chain [OF assms(1) [unfolded ps]]] a removeNode_labels [of c a] False
    show ?thesis by (simp add: moveToFront_def rm same_labels_def)
  qed
qed


section \<open>The abstraction and the invariant\<close>

fun walk :: "'c cacheNode list \<Rightarrow> nat \<Rightarrow> nat option \<Rightarrow> nat list" where
  "walk s 0 p = []"
| "walk s (Suc n) None = []"
| "walk s (Suc n) (Some a) = a # walk s n (cn_next (s ! a))"

definition cc_list :: "'c containerCache \<Rightarrow> nat list" where
  "cc_list c = walk (cc_store c) (length (cc_store c)) (cc_head c)"

definition label_at :: "'c containerCache \<Rightarrow> nat \<Rightarrow> string \<times> 'c" where
  "label_at c a = label (cc_store c ! a)"

definition cc_entries :: "'c containerCache \<Rightarrow> (string \<times> 'c) list" where
  "cc_entries c = map (label_at c) (cc_list c)"

definition cc_bound :: "'c containerCache \<Rightarrow> nat" where
  "cc_bound c = nat (cc_capacity c)"

definition map_ok :: "'c containerCache \<Rightarrow> nat list \<Rightarrow> bool" where
  "map_ok c ps \<longleftrightarrow>
     (\<forall>k a. map_get (cc_cache c) k = Some a \<longleftrightarrow> a \<in> set ps \<and> fst (label_at c a) = k) \<and> distinct (map fst (cc_cache c))"

definition cc_inv :: "'c containerCache \<Rightarrow> bool" where
  "cc_inv c \<longleftrightarrow> chain c (cc_list c) \<and> map_ok c (cc_list c) \<and> length (cc_list c) \<le> cc_bound c \<and> 0 < cc_bound c"

lemma walk_seg: "seg s p ps None \<Longrightarrow> length ps \<le> n \<Longrightarrow> walk s n (first_of ps None) = ps"
proof (induction ps arbitrary: p n)
  case Nil
  then show ?case by (cases n) simp_all
next
  case (Cons a ps)
  then obtain m where "n = Suc m" "length ps \<le> m" by (cases n) simp_all
  with Cons.IH [of "Some a" m] Cons.prems show ?case by simp
qed

lemma chain_list: "chain c ps \<Longrightarrow> cc_list c = ps"
proof -
  assume c: "chain c ps"
  then have "set ps \<subseteq> {..<length (cc_store c)}" "distinct ps"
    by (auto simp: chain_def dest: seg_bound)
  then have "length ps \<le> length (cc_store c)"
    by (metis card_lessThan card_mono distinct_card finite_lessThan)
  with c walk_seg [of "cc_store c" None ps] show ?thesis by (simp add: cc_list_def chain_def)
qed

lemma cc_invI:
  "chain c ps \<Longrightarrow> map_ok c ps \<Longrightarrow> length ps \<le> cc_bound c \<Longrightarrow> 0 < cc_bound c \<Longrightarrow> cc_inv c"
  by (simp add: cc_inv_def chain_list)

lemma map_ok_keys: "map_ok c ps \<Longrightarrow> distinct ps \<Longrightarrow> distinct (map fst (map (label_at c) ps))"
  unfolding map_ok_def distinct_map by (auto simp: inj_on_def) (metis option.inject)+

lemma map_ok_length:
  assumes "map_ok c ps" and "distinct ps"
  shows "length (cc_cache c) = length ps"
proof -
  have "length (cc_cache c) = card (set (map fst (cc_cache c)))"
    using assms(1) distinct_card [of "map fst (cc_cache c)"] by (simp add: map_ok_def)
  also have "set (map fst (cc_cache c)) = set (map fst (map (label_at c) ps))"
  proof -
    have "k \<in> set (map fst (cc_cache c)) \<longleftrightarrow> (\<exists>a. map_get (cc_cache c) k = Some a)" for k
      using map_of_eq_None_iff [of "cc_cache c" k] by auto
    then show ?thesis using assms(1) by (auto simp: map_ok_def)
  qed
  also have "card \<dots> = length ps"
    using distinct_card [OF map_ok_keys [OF assms]] by simp
  finally show ?thesis .
qed

lemma map_ok_same:
  assumes "map_ok c ps" and "same_labels c c'" and "set ps' = set ps" and "\<forall>a \<in> set ps. a < length (cc_store c)"
  shows "map_ok c' ps'"
  using assms by (auto simp: map_ok_def same_labels_def label_at_def)

lemma entries_lookup:
  "map_ok c ps \<Longrightarrow> distinct ps \<Longrightarrow>
   map_of (map (label_at c) ps) k = map_option (\<lambda>a. snd (label_at c a)) (map_get (cc_cache c) k)"
proof (cases "map_get (cc_cache c) k")
  case None
  assume "map_ok c ps"
  with None have "k \<notin> fst ` set (map (label_at c) ps)" by (auto simp: map_ok_def)
  then show ?thesis unfolding None option.map by (simp only: map_of_eq_None_iff not_False_eq_True)
next
  case (Some a)
  assume m: "map_ok c ps" and d: "distinct ps"
  with Some have "(k, snd (label_at c a)) \<in> set (map (label_at c) ps)"
    by (force simp: map_ok_def)
  with Some show ?thesis using map_ok_keys [OF m d] by (simp add: map_of_eq_Some_iff)
qed

lemma filter_other:
  assumes "map_ok c ps" and "distinct ps" and "a \<in> set ps"
  shows "filter (\<lambda>x. fst x \<noteq> fst (label_at c a)) (map (label_at c) ps) = map (label_at c) (remove1 a ps)"
proof -
  have "fst (label_at c b) = fst (label_at c a) \<longleftrightarrow> b = a" if "b \<in> set ps" for b
  proof
    assume e: "fst (label_at c b) = fst (label_at c a)"
    have "map_get (cc_cache c) (fst (label_at c a)) = Some a" "map_get (cc_cache c) (fst (label_at c a)) = Some b"
      using assms that e by (simp_all add: map_ok_def)
    then show "b = a" by simp
  qed simp
  then have "filter (\<lambda>b. fst (label_at c b) \<noteq> fst (label_at c a)) ps = filter ((\<noteq>) a) ps"
    by (intro filter_cong) auto
  also have "\<dots> = remove1 a ps" using assms(2) by (simp add: distinct_remove1_removeAll removeAll_filter_not_eq eq_commute)
  finally show ?thesis by (simp add: filter_map comp_def)
qed

lemma entries_same: "same_labels c c' \<Longrightarrow> \<forall>a \<in> set ps. a < length (cc_store c) \<Longrightarrow> map (label_at c') ps = map (label_at c) ps"
  by (simp add: same_labels_def label_at_def)

lemma chain_bound: "chain c ps \<Longrightarrow> \<forall>a \<in> set ps. a < length (cc_store c)"
  by (auto simp: chain_def dest: seg_bound)

lemma same_labels_bound: "same_labels c c' \<Longrightarrow> cc_bound c' = cc_bound c"
  by (simp add: same_labels_def cc_bound_def)

section \<open>The operations refine the list\<close>

lemma touch_entries:
  assumes ch: "chain c ps" and mo: "map_ok c ps" and b: "length ps \<le> cc_bound c" "0 < cc_bound c" and a: "a \<in> set ps"
  shows "cc_inv (moveToFront a c) \<and> cc_bound (moveToFront a c) = cc_bound c \<and>
    cc_entries (moveToFront a c) = lru_touch (fst (label_at c a)) (snd (label_at c a)) (map (label_at c) ps) \<and>
    label_at (moveToFront a c) a = label_at c a"
proof -
  have d: "distinct ps" using ch by (simp add: chain_def)
  note ch' = moveToFront_chain [OF ch a]
  note lb = moveToFront_labels [of c a]
  have set_eq: "set (a # remove1 a ps) = set ps" using a d by auto
  have len: "length (a # remove1 a ps) = length ps" using a length_pos_if_in_set [OF a] by (simp add: length_remove1)
  have "cc_inv (moveToFront a c)"
    using ch' map_ok_same [OF mo lb set_eq chain_bound [OF ch]] len b same_labels_bound [OF lb] by (auto intro: cc_invI)
  moreover have "\<forall>x \<in> set (a # remove1 a ps). x < length (cc_store c)" using set_eq chain_bound [OF ch] by blast
  then have "cc_entries (moveToFront a c) = label_at c a # map (label_at c) (remove1 a ps)"
    using entries_same [OF lb, of "a # remove1 a ps"] by (simp add: cc_entries_def chain_list [OF ch'])
  moreover have "label_at (moveToFront a c) a = label_at c a"
    using lb chain_bound [OF ch] a by (simp add: same_labels_def label_at_def)
  ultimately show ?thesis
    by (simp add: lru_touch_def filter_other [OF mo d a] same_labels_bound [OF lb])
qed

lemma Get_hit:
  assumes "cc_inv c" and "map_of (cc_entries c) k = Some v"
  shows "\<exists>c'. cache_Get k c = (Some v, c') \<and> cc_inv c' \<and> cc_entries c' = lru_touch k v (cc_entries c) \<and> cc_bound c' = cc_bound c"
proof -
  have ch: "chain c (cc_list c)" and mo: "map_ok c (cc_list c)" and d: "distinct (cc_list c)"
    and b: "length (cc_list c) \<le> cc_bound c" "0 < cc_bound c"
    using assms(1) by (auto simp: cc_inv_def chain_def)
  from assms(2) obtain a where a: "map_get (cc_cache c) k = Some a" and v: "snd (label_at c a) = v"
    by (auto simp: cc_entries_def entries_lookup [OF mo d])
  then have mem: "a \<in> set (cc_list c)" "fst (label_at c a) = k" using mo by (auto simp: map_ok_def)
  from touch_entries [OF ch mo b mem(1)] have t: "cc_inv (moveToFront a c)" "cc_bound (moveToFront a c) = cc_bound c"
    "cc_entries (moveToFront a c) = lru_touch k v (cc_entries c)" "label_at (moveToFront a c) a = (k, v)"
    using v mem by (auto simp: cc_entries_def prod_eq_iff)
  with a show ?thesis
    by (simp add: cache_Get_def Let_def node_at_def label_at_def label_def)
qed

lemma Get_miss: "cc_inv c \<Longrightarrow> map_of (cc_entries c) k = None \<Longrightarrow> cache_Get k c = (None, c)"
  by (auto simp: cc_inv_def chain_def cache_Get_def cc_entries_def entries_lookup split: option.splits)

lemma Set_existing:
  assumes inv: "cc_inv c" and a: "map_get (cc_cache c) k = Some a"
  shows "cc_inv (cache_Set k v c) \<and> cc_bound (cache_Set k v c) = cc_bound c \<and>
    cc_entries (cache_Set k v c) = lru_touch k v (cc_entries c)"
proof -
  let ?ps = "cc_list c"
  let ?c1 = "set_node a (\<lambda>n. n\<lparr>cn_container := v\<rparr>) c"
  have ch: "chain c ?ps" and mo: "map_ok c ?ps" and d: "distinct ?ps" and b: "length ?ps \<le> cc_bound c" "0 < cc_bound c"
    using inv by (auto simp: cc_inv_def chain_def)
  have mem: "a \<in> set ?ps" "fst (label_at c a) = k" using a mo by (auto simp: map_ok_def)
  have al: "a < length (cc_store c)" using chain_bound [OF ch] mem by blast
  have lab: "label_at ?c1 x = (if x = a then (k, v) else label_at c x)" if "x < length (cc_store c)" for x
    using that al mem(2) by (simp add: label_at_def set_node_def node_at_def label_def)
  have sg: "seg (cc_store ?c1) p qs q \<longleftrightarrow> seg (cc_store c) p qs q" for p qs q
  proof (induction qs arbitrary: p)
    case (Cons x qs)
    have "cn_prev (cc_store ?c1 ! x) = cn_prev (cc_store c ! x)" "cn_next (cc_store ?c1 ! x) = cn_next (cc_store c ! x)"
      using al by (cases "x = a", simp_all add: set_node_def node_at_def)+
    with Cons show ?case by (simp add: set_node_def)
  qed simp
  have ch1: "chain ?c1 ?ps" using ch by (simp add: chain_def sg) (simp add: set_node_def)
  have labs: "fst (label_at ?c1 x) = fst (label_at c x)" if "x \<in> set ?ps" for x
    using lab chain_bound [OF ch] that mem(2) by auto
  have mo1: "map_ok ?c1 ?ps"
    using mo labs by (auto simp: map_ok_def set_node_def)
  have b1: "cc_bound ?c1 = cc_bound c" by (simp add: cc_bound_def set_node_def)
  have others: "filter (\<lambda>x. fst x \<noteq> k) (map (label_at ?c1) ?ps) = filter (\<lambda>x. fst x \<noteq> k) (map (label_at c) ?ps)"
  proof -
    have "map (label_at ?c1) (remove1 a ?ps) = map (label_at c) (remove1 a ?ps)"
      using lab chain_bound [OF ch] d by (auto dest: notin_set_remove1)
    with filter_other [OF mo1 d mem(1)] filter_other [OF mo d mem(1)] labs [OF mem(1)] mem(2) show ?thesis by simp
  qed
  have "label_at ?c1 a = (k, v)" using lab al by simp
  with touch_entries [OF ch1 mo1 _ _ mem(1)] b b1 others show ?thesis
    by (simp add: cache_Set_def a lru_touch_def cc_entries_def)
qed

definition drop_entry :: "nat \<Rightarrow> 'c containerCache \<Rightarrow> 'c containerCache" where
  "drop_entry a c = (removeNode a c)\<lparr>cc_cache := AList.delete (cn_taskID (node_at c a)) (cc_cache (removeNode a c))\<rparr>"

lemma drop_entry:
  assumes ch: "chain c (xs @ a # ys)" and mo: "map_ok c (xs @ a # ys)"
  shows "chain (drop_entry a c) (xs @ ys)" and "map_ok (drop_entry a c) (xs @ ys)"
    and "map (label_at (drop_entry a c)) (xs @ ys) = map (label_at c) (xs @ ys)"
    and "cc_capacity (drop_entry a c) = cc_capacity c"
proof -
  let ?c' = "drop_entry a c"
  note lb = removeNode_labels [of c a]
  have al: "a < length (cc_store c)" and d: "distinct (xs @ a # ys)"
    using chain_bound [OF ch] ch by (simp_all add: chain_def)
  have lab: "label_at ?c' x = label_at c x" if "x < length (cc_store c)" for x
    using lb that by (simp add: same_labels_def label_at_def drop_entry_def)
  have cache: "cc_cache ?c' = AList.delete (fst (label_at c a)) (cc_cache c)"
    using lb by (simp add: drop_entry_def same_labels_def label_at_def label_def node_at_def)
  show "chain ?c' (xs @ ys)" using removeNode_chain [OF ch] by (simp add: drop_entry_def chain_def)
  show m: "map (label_at ?c') (xs @ ys) = map (label_at c) (xs @ ys)"
    using lab chain_bound [OF ch] by simp
  show "cc_capacity ?c' = cc_capacity c" using lb by (simp add: drop_entry_def same_labels_def)
  let ?k = "fst (label_at c a)"
  have get: "map_get (cc_cache c) k = Some b \<longleftrightarrow> b \<in> set (xs @ a # ys) \<and> fst (label_at c b) = k" for k b
    using mo by (simp add: map_ok_def)
  have ga: "map_get (cc_cache c) ?k = Some a" by (simp add: get)
  show "map_ok ?c' (xs @ ys)"
    unfolding map_ok_def cache
  proof (intro conjI allI)
    fix k b
    have del: "map_get (AList.delete ?k (cc_cache c)) k = (if k = ?k then None else map_get (cc_cache c) k)"
      by (simp add: delete_conv')
    show "map_get (AList.delete ?k (cc_cache c)) k = Some b \<longleftrightarrow> b \<in> set (xs @ ys) \<and> fst (label_at ?c' b) = k"
    proof (cases "b \<in> set (xs @ a # ys)")
      case False
      then have "map_get (cc_cache c) k \<noteq> Some b" "b \<notin> set (xs @ ys)" using get [of k b] by simp_all
      then show ?thesis unfolding del by simp
    next
      case True
      have "b < length (cc_store c)" using True chain_bound [OF ch] by blast
      then have l: "fst (label_at ?c' b) = fst (label_at c b)" by (simp add: lab)
      have in_iff: "b \<in> set (xs @ ys) \<longleftrightarrow> b \<noteq> a" using True d by (cases "b = a") simp_all
      show ?thesis
      proof (cases "b = a")
        case True
        then have "map_get (cc_cache c) k = Some b \<longleftrightarrow> k = ?k" using get [of k b] ga by (auto simp del: map_of_eq_Some_iff)
        then show ?thesis using True in_iff unfolding del by simp
      next
        case False
        then have "fst (label_at c b) \<noteq> ?k" using get [of ?k b] ga True by auto
        then show ?thesis using False in_iff get [of k b] True l unfolding del by auto
      qed
    qed
  next
    show "distinct (map fst (AList.delete (fst (label_at c a)) (cc_cache c)))"
      using mo by (simp add: map_ok_def distinct_delete)
  qed
qed

lemma evict_is_drop:
  assumes "chain c (xs @ [l])"
  shows "evictLRU c = drop_entry l c"
proof -
  have "cc_tail c = Some l" using assms by (simp add: chain_def)
  moreover have "l < length (cc_store c)" using chain_bound [OF assms] by simp
  then have "label (cc_store (removeNode l c) ! l) = label (cc_store c ! l)"
    using removeNode_labels [of c l] by (simp add: same_labels_def)
  then have "cn_taskID (node_at (removeNode l c) l) = cn_taskID (node_at c l)"
    by (simp add: label_def node_at_def)
  ultimately show ?thesis by (simp add: evictLRU_def drop_entry_def Let_def)
qed

definition link_new :: "string \<Rightarrow> 'c \<Rightarrow> 'c containerCache \<Rightarrow> 'c containerCache" where
  "link_new k v c = addToFront (length (cc_store c))
     (c\<lparr>cc_store := cc_store c @ [\<lparr>cn_taskID = k, cn_container = v, cn_prev = None, cn_next = None\<rparr>],
        cc_cache := map_put k (length (cc_store c)) (cc_cache c)\<rparr>)"

lemma link_new:
  assumes ch: "chain c ps" and mo: "map_ok c ps" and k: "map_get (cc_cache c) k = None"
  defines "a \<equiv> length (cc_store c)"
  shows "chain (link_new k v c) (a # ps)" and "map_ok (link_new k v c) (a # ps)"
    and "map (label_at (link_new k v c)) (a # ps) = (k, v) # map (label_at c) ps"
    and "cc_capacity (link_new k v c) = cc_capacity c"
proof -
  let ?c' = "link_new k v c"
  let ?n = "\<lparr>cn_taskID = k, cn_container = v, cn_prev = None, cn_next = None\<rparr>"
  let ?c2 = "c\<lparr>cc_store := cc_store c @ [?n], cc_cache := map_put k a (cc_cache c)\<rparr>"
  have c': "?c' = addToFront a ?c2" by (simp add: link_new_def a_def)
  have b: "\<forall>x \<in> set ps. x < a" using chain_bound [OF ch] by (simp add: a_def)
  then have fresh: "a \<notin> set ps" by blast
  have "chain ?c2 ps" using ch seg_store_append by (auto simp: chain_def)
  then show "chain ?c' (a # ps)" unfolding c' using fresh by (rule addToFront_chain) (simp add: a_def)
  have lb: "same_labels ?c2 ?c'" unfolding c' by (rule addToFront_labels)
  then have lab: "label_at ?c' x = label ((cc_store c @ [?n]) ! x)" if "x \<le> a" for x
    using that by (simp add: same_labels_def label_at_def a_def)
  have la: "label_at ?c' a = (k, v)" by (simp add: lab) (simp add: a_def label_def)
  have lx: "\<forall>x \<in> set ps. label_at ?c' x = label_at c x"
    using b by (simp add: lab less_imp_le) (simp add: a_def nth_append label_at_def)
  from la lx show "map (label_at ?c') (a # ps) = (k, v) # map (label_at c) ps" by simp
  show "cc_capacity ?c' = cc_capacity c" using lb by (simp add: same_labels_def)
  have cache: "cc_cache ?c' = map_put k a (cc_cache c)" using lb by (simp add: same_labels_def)
  have get: "map_get (cc_cache c) j = Some x \<longleftrightarrow> x \<in> set ps \<and> fst (label_at c x) = j" for j x
    using mo by (simp add: map_ok_def)
  show "map_ok ?c' (a # ps)"
    unfolding map_ok_def cache
  proof (intro conjI allI)
    fix j x
    show "map_get (map_put k a (cc_cache c)) j = Some x \<longleftrightarrow> x \<in> set (a # ps) \<and> fst (label_at ?c' x) = j"
    proof (cases "x = a")
      case True
      then have "map_get (cc_cache c) j \<noteq> Some x" using get fresh by simp
      then show ?thesis using True la by (auto simp: map_get_put)
    next
      case False
      then have "x \<in> set (a # ps) \<and> fst (label_at ?c' x) = j \<longleftrightarrow> map_get (cc_cache c) j = Some x"
        using get [of j x] lx by auto
      then show ?thesis using k False by (auto simp: map_get_put)
    qed
  next
    show "distinct (map fst (map_put k a (cc_cache c)))"
      using mo by (simp add: map_ok_def distinct_update)
  qed
qed

lemma Set_new:
  assumes inv: "cc_inv c" and k: "map_get (cc_cache c) k = None"
  shows "cc_inv (cache_Set k v c) \<and> cc_bound (cache_Set k v c) = cc_bound c \<and>
    cc_entries (cache_Set k v c) = take (cc_bound c) ((k, v) # cc_entries c)"
proof -
  let ?ps = "cc_list c"
  let ?a = "length (cc_store c)"
  let ?c' = "link_new k v c"
  have ch: "chain c ?ps" and mo: "map_ok c ?ps" and b: "length ?ps \<le> cc_bound c" "0 < cc_bound c"
    using inv by (auto simp: cc_inv_def)
  note ln = link_new [OF ch mo k, of v]
  have d': "distinct (?a # ?ps)" using ln(1) unfolding chain_def by blast
  have bd: "cc_bound ?c' = cc_bound c" by (simp add: cc_bound_def ln(4))
  have len: "length (cc_cache ?c') = Suc (length ?ps)" using map_ok_length [OF ln(2) d'] by simp
  have set_eq: "cache_Set k v c = (if int (length (cc_cache ?c')) > cc_capacity ?c' then evictLRU ?c' else ?c')"
    using k by (simp add: cache_Set_def link_new_def Let_def)
  have over: "int (length (cc_cache ?c')) > cc_capacity ?c' \<longleftrightarrow> length ?ps = cc_bound c"
    using len b ln(4) by (simp add: cc_bound_def) linarith
  show ?thesis
  proof (cases "length ?ps = cc_bound c")
    case False
    then have "cache_Set k v c = ?c'" using set_eq over by simp
    moreover have "cc_inv ?c'" by (rule cc_invI [OF ln(1,2)]) (use False b bd in simp_all)
    moreover have "cc_entries ?c' = (k, v) # cc_entries c"
      using ln(3) by (simp add: cc_entries_def chain_list [OF ln(1)])
    ultimately show ?thesis using False b bd by (simp add: cc_entries_def)
  next
    case True
    define xs where "xs = butlast (?a # ?ps)"
    define l where "l = last (?a # ?ps)"
    have ps: "?a # ?ps = xs @ [l]" by (simp add: xs_def l_def)
    have lx: "length xs = cc_bound c" using True b by (cases "cc_list c") (auto simp: xs_def)
    have ch': "chain ?c' (xs @ l # [])" and mo': "map_ok ?c' (xs @ l # [])" using ln(1,2) ps by simp_all
    note de = drop_entry [OF ch' mo', unfolded append_Nil2]
    have e: "cache_Set k v c = drop_entry l ?c'"
      using set_eq over True evict_is_drop [OF ch'] by simp
    have bd2: "cc_bound (drop_entry l ?c') = cc_bound c" by (simp add: cc_bound_def de(4) ln(4))
    have "cc_inv (drop_entry l ?c')" by (rule cc_invI [OF de(1,2)]) (use lx b bd2 in simp_all)
    moreover have "cc_entries (drop_entry l ?c') = map (label_at ?c') xs"
      using de(3) by (simp add: cc_entries_def chain_list [OF de(1)])
    moreover have "map (label_at ?c') xs = take (cc_bound c) ((k, v) # cc_entries c)"
    proof -
      have "(k, v) # cc_entries c = map (label_at ?c') (xs @ [l])" using ln(3) ps by (simp add: cc_entries_def)
      then show ?thesis using lx by simp
    qed
    ultimately show ?thesis by (simp add: e bd2)
  qed
qed

lemma Set_refines:
  assumes "cc_inv c"
  shows "cc_inv (cache_Set k v c) \<and> cc_bound (cache_Set k v c) = cc_bound c \<and>
    cc_entries (cache_Set k v c) = take (cc_bound c) (lru_touch k v (cc_entries c))"
proof -
  have mo: "map_ok c (cc_list c)" and d: "distinct (cc_list c)" and b: "length (cc_list c) \<le> cc_bound c"
    using assms by (auto simp: cc_inv_def chain_def)
  show ?thesis
  proof (cases "map_get (cc_cache c) k")
    case None
    then have "map_of (cc_entries c) k = None" by (simp add: cc_entries_def entries_lookup [OF mo d])
    then have "filter (\<lambda>x. fst x \<noteq> k) (cc_entries c) = cc_entries c"
      by (intro filter_True) (auto simp: map_of_eq_None_iff)
    with Set_new [OF assms None] show ?thesis by (simp add: lru_touch_def)
  next
    case (Some a)
    then have a: "a \<in> set (cc_list c)" "fst (label_at c a) = k" using mo by (simp_all add: map_ok_def)
    have "filter (\<lambda>x. fst x \<noteq> k) (cc_entries c) = map (label_at c) (remove1 a (cc_list c))"
      using filter_other [OF mo d a(1)] a(2) by (simp add: cc_entries_def)
    then have "length (lru_touch k v (cc_entries c)) \<le> cc_bound c"
      using a(1) b length_pos_if_in_set [OF a(1)] by (simp add: lru_touch_def length_remove1)
    with Set_existing [OF assms Some] show ?thesis by simp
  qed
qed

lemma entries_keys:
  "cc_inv c \<Longrightarrow> distinct (map fst (cc_entries c)) \<and> length (cc_entries c) \<le> cc_bound c \<and> 0 < cc_bound c"
  using map_ok_keys by (auto simp: cc_inv_def chain_def cc_entries_def simp del: map_map)

lemma Len_refines: "cc_inv c \<Longrightarrow> cache_Len c = length (cc_entries c)"
  by (simp add: cache_Len_def cc_inv_def cc_entries_def map_ok_length chain_def)

interpretation lru: lru_cache cache_Get cache_Set cache_Len cc_entries cc_bound cc_inv
  by (rule lru_cache.intro [OF entries_keys Get_miss Get_hit Set_refines Len_refines])

lemma Delete_refines:
  assumes "cc_inv c"
  shows "cc_inv (cache_Delete k c) \<and> cc_bound (cache_Delete k c) = cc_bound c \<and>
    cc_entries (cache_Delete k c) = filter (\<lambda>x. fst x \<noteq> k) (cc_entries c)"
proof -
  have ch: "chain c (cc_list c)" and mo: "map_ok c (cc_list c)" and d: "distinct (cc_list c)"
    and b: "length (cc_list c) \<le> cc_bound c" "0 < cc_bound c"
    using assms by (auto simp: cc_inv_def chain_def)
  show ?thesis
  proof (cases "map_get (cc_cache c) k")
    case None
    then have "map_of (cc_entries c) k = None" by (simp add: cc_entries_def entries_lookup [OF mo d])
    then have "filter (\<lambda>x. fst x \<noteq> k) (cc_entries c) = cc_entries c"
      by (intro filter_True) (auto simp: map_of_eq_None_iff)
    with None assms show ?thesis by (simp add: cache_Delete_def)
  next
    case (Some a)
    then have a: "a \<in> set (cc_list c)" "fst (label_at c a) = k" using mo by (simp_all add: map_ok_def)
    obtain xs ys where ps: "cc_list c = xs @ a # ys" using a(1) by (meson split_list)
    then have rm: "remove1 a (cc_list c) = xs @ ys" using d by (simp add: remove1_append)
    note de = drop_entry [OF ch [unfolded ps] mo [unfolded ps]]
    have e: "cache_Delete k c = drop_entry a c"
      using Some a(2) by (simp add: cache_Delete_def drop_entry_def Let_def label_at_def label_def node_at_def)
    have bd: "cc_bound (drop_entry a c) = cc_bound c" by (simp add: cc_bound_def de(4))
    have "cc_inv (drop_entry a c)" by (rule cc_invI [OF de(1,2)]) (use b bd ps in simp_all)
    moreover have "cc_entries (drop_entry a c) = map (label_at c) (remove1 a (cc_list c))"
      using de(3) rm by (simp add: cc_entries_def chain_list [OF de(1)])
    ultimately show ?thesis
      using filter_other [OF mo d a(1)] a(2) by (simp add: e bd cc_entries_def)
  qed
qed

lemma Clear_refines: "cc_inv c \<Longrightarrow> cc_inv (cache_Clear c) \<and> cc_entries (cache_Clear c) = []"
proof -
  assume i: "cc_inv c"
  have ch: "chain (cache_Clear c) []" by (simp add: chain_def cache_Clear_def)
  moreover have "cc_inv (cache_Clear c)"
    by (rule cc_invI [OF ch]) (use i in \<open>simp_all add: map_ok_def cache_Clear_def cc_inv_def cc_bound_def\<close>)
  ultimately show ?thesis by (simp add: cc_entries_def chain_list)
qed

lemma new_refines:
  fixes n :: int
  defines "c \<equiv> newContainerCache n :: 'c containerCache"
  shows "cc_inv c" and "cc_entries c = []" and "cc_bound c = (if n \<le> 0 then 100 else nat n)"
proof -
  have ch: "chain c []" by (simp add: chain_def c_def newContainerCache_def)
  show "cc_bound c = (if n \<le> 0 then 100 else nat n)" by (simp add: cc_bound_def c_def newContainerCache_def)
  show "cc_inv c" by (rule cc_invI [OF ch]) (simp_all add: map_ok_def c_def newContainerCache_def cc_bound_def)
  show "cc_entries c = []" by (simp add: cc_entries_def chain_list [OF ch])
qed

section \<open>Runs\<close>

datatype 'c cacheOp = CGet string | CSet string 'c | CDelete string | CClear

fun cache_step :: "'c containerCache \<Rightarrow> 'c cacheOp \<Rightarrow> 'c containerCache" where
  "cache_step c (CGet k) = snd (cache_Get k c)"
| "cache_step c (CSet k v) = cache_Set k v c"
| "cache_step c (CDelete k) = cache_Delete k c"
| "cache_step c CClear = cache_Clear c"

fun lru_step :: "nat \<Rightarrow> (string \<times> 'c) list \<Rightarrow> 'c cacheOp \<Rightarrow> (string \<times> 'c) list" where
  "lru_step n xs (CGet k) = (case map_of xs k of None \<Rightarrow> xs | Some v \<Rightarrow> lru_touch k v xs)"
| "lru_step n xs (CSet k v) = take n (lru_touch k v xs)"
| "lru_step n xs (CDelete k) = filter (\<lambda>x. fst x \<noteq> k) xs"
| "lru_step n xs CClear = []"

lemma cache_step_refines:
  assumes "cc_inv c"
  shows "cc_inv (cache_step c op) \<and> cc_bound (cache_step c op) = cc_bound c
    \<and> cc_entries (cache_step c op) = lru_step (cc_bound c) (cc_entries c) op"
proof (cases op)
  case (CGet k)
  show ?thesis
  proof (cases "map_of (cc_entries c) k")
    case None
    then show ?thesis using assms by (simp add: CGet Get_miss [OF assms None])
  next
    case (Some v)
    with Get_hit [OF assms Some] show ?thesis by (auto simp: CGet)
  qed
next
  case (CSet k v)
  then show ?thesis using Set_refines [OF assms] by simp
next
  case (CDelete k)
  then show ?thesis using Delete_refines [OF assms] by simp
next
  case CClear
  then show ?thesis using Clear_refines [OF assms] by (simp add: cache_Clear_def cc_bound_def)
qed

definition run_cache :: "int \<Rightarrow> 'c cacheOp list \<Rightarrow> 'c containerCache" where
  "run_cache n ops = foldl cache_step (newContainerCache n) ops"

text \<open>
  C33: After any sequence of Get, Set, Delete and Clear on a fresh cache of capacity n (100 when n is not
  positive), the doubly linked list and the map hold exactly the entries of the reference LRU list:
  most recently used first, one entry per task, cut to the capacity by evicting the last one; Len
  is its length and never exceeds the capacity, and Get answers with the reference value.
\<close>

theorem cache_refines_lru:
  fixes ops :: "'c cacheOp list"
  shows "cc_entries (run_cache n ops) = foldl (lru_step (if n \<le> 0 then 100 else nat n)) [] ops
    \<and> cache_Len (run_cache n ops) = length (cc_entries (run_cache n ops))
    \<and> cache_Len (run_cache n ops) \<le> (if n \<le> 0 then 100 else nat n)
    \<and> fst (cache_Get k (run_cache n ops)) = map_of (cc_entries (run_cache n ops)) k"
proof -
  have run: "cc_inv c \<Longrightarrow> cc_inv (foldl cache_step c ops) \<and> cc_bound (foldl cache_step c ops) = cc_bound c
      \<and> cc_entries (foldl cache_step c ops) = foldl (lru_step (cc_bound c)) (cc_entries c) ops" for c :: "'c containerCache"
  proof (induction ops arbitrary: c)
    case (Cons op ops)
    then show ?case using cache_step_refines [OF Cons.prems, of op] by simp
  qed simp
  note new = new_refines [where 'c = 'c, of n]
  note r = run [OF new(1)]
  let ?c = "run_cache n ops"
  have i: "cc_inv ?c" and bd: "cc_bound ?c = (if n \<le> 0 then 100 else nat n)"
    using r by (simp_all add: run_cache_def new)
  have "cc_entries ?c = foldl (lru_step (if n \<le> 0 then 100 else nat n)) [] ops"
    using r by (simp add: run_cache_def new)
  moreover have "fst (cache_Get k ?c) = map_of (cc_entries ?c) k"
  proof (cases "map_of (cc_entries ?c) k")
    case None
    then show ?thesis using lru.get_miss [OF i] by simp
  next
    case (Some v)
    then show ?thesis using lru.get_hit [OF i] by fastforce
  qed
  ultimately show ?thesis using lru.keys [OF i] lru.size_entries [OF i] by (simp add: bd)
qed

end
