(* ===== verification/JsonDecode.thy ===== *)
theory JsonDecode
  imports PluginFSM
begin

text \<open>
  \<open>json.Unmarshal\<close> and \<open>json.Marshal\<close> as the source uses them: decoding of a JSON value into the
  struct types of the program by their \<open>json\<close> tags. A missing or null member leaves the zero value,
  a member of another type is an error, an unknown member is ignored. A \<open>json.RawMessage\<close> is an
  \<open>any option\<close> (\<open>None\<close> for the empty one), so text that is no JSON at all is not represented;
  member names are compared exactly.
\<close>

section \<open>Decoders\<close>

type_synonym 'a decoder = "any \<Rightarrow> 'a res"

definition type_mismatch :: go_error where
  "type_mismatch = External ''json: cannot unmarshal value into Go value''"

fun dec_string :: "string decoder" where
  "dec_string JNull = Ok ''''"
| "dec_string (JStr s) = Ok s"
| "dec_string _ = Err type_mismatch"

fun dec_bool :: "bool decoder" where
  "dec_bool JNull = Ok False"
| "dec_bool (JBool b) = Ok b"
| "dec_bool _ = Err type_mismatch"

fun dec_int :: "int decoder" where
  "dec_int JNull = Ok 0"
| "dec_int (JNum n) = (if of_int \<lfloor>n\<rfloor> = n \<and> - (2 ^ 63) \<le> n \<and> n < 2 ^ 63 then Ok \<lfloor>n\<rfloor> else Err type_mismatch)"
| "dec_int _ = Err type_mismatch"

fun dec_float :: "rat decoder" where
  "dec_float JNull = Ok 0"
| "dec_float (JNum n) = Ok n"
| "dec_float _ = Err type_mismatch"

fun dec_any :: "any decoder" where
  "dec_any v = Ok v"

text \<open>A struct: null leaves it as it is (zero), an object fills its fields.\<close>

definition dec_struct :: "(obj \<Rightarrow> 'a res) \<Rightarrow> 'a decoder" where
  "dec_struct fs v =
     (case v of JNull \<Rightarrow> fs [] | JObj m \<Rightarrow> fs m | _ \<Rightarrow> Err type_mismatch)"

text \<open>A pointer: null is nil.\<close>

definition dec_ptr :: "'a decoder \<Rightarrow> 'a option decoder" where
  "dec_ptr d v = (if v = JNull then Ok None else bind_res (d v) (\<lambda>x. Ok (Some x)))"

fun dec_elems :: "'a decoder \<Rightarrow> any list \<Rightarrow> 'a list res" where
  "dec_elems d [] = Ok []"
| "dec_elems d (v # vs) = bind_res (d v) (\<lambda>x. bind_res (dec_elems d vs) (\<lambda>xs. Ok (x # xs)))"

fun dec_slice :: "'a decoder \<Rightarrow> 'a list decoder" where
  "dec_slice d JNull = Ok []"
| "dec_slice d (JArr vs) = dec_elems d vs"
| "dec_slice d _ = Err type_mismatch"

fun dec_members :: "'a decoder \<Rightarrow> (string \<times> any) list \<Rightarrow> (string, 'a) gomap res" where
  "dec_members d [] = Ok []"
| "dec_members d ((k, v) # m) = bind_res (d v) (\<lambda>x. bind_res (dec_members d m) (\<lambda>xs. Ok ((k, x) # xs)))"

fun dec_map :: "'a decoder \<Rightarrow> (string, 'a) gomap decoder" where
  "dec_map d JNull = Ok []"
| "dec_map d (JObj m) = dec_members d m"
| "dec_map d _ = Err type_mismatch"

definition dec_field :: "'a decoder \<Rightarrow> string \<Rightarrow> obj \<Rightarrow> 'a res" where
  "dec_field d k m = d (case map_get m k of None \<Rightarrow> JNull | Some v \<Rightarrow> v)"

text \<open>\<open>json.Unmarshal(raw, &v)\<close>: the empty message is a syntax error.\<close>

definition unmarshal :: "'a decoder \<Rightarrow> any option \<Rightarrow> 'a res" where
  "unmarshal d raw =
     (case raw of None \<Rightarrow> Err (External ''unexpected end of JSON input'') | Some v \<Rightarrow> d v)"

text \<open>Into a \<open>map[string]any\<close> variable.\<close>

fun dec_obj :: "obj decoder" where
  "dec_obj JNull = Ok []"
| "dec_obj (JObj m) = Ok m"
| "dec_obj _ = Err type_mismatch"

lemma dec_elems_length: "dec_elems d vs = Ok xs \<Longrightarrow> length xs = length vs"
  by (induction d vs arbitrary: xs rule: dec_elems.induct) (auto simp: res_simps)

lemma dec_elems_map: "(\<And>x. x \<in> set xs \<Longrightarrow> d (e x) = Ok x) \<Longrightarrow> dec_elems d (map e xs) = Ok xs"
  by (induction xs) simp_all

lemma dec_field_missing: "map_get m k = None \<Longrightarrow> dec_field d k m = d JNull"
  by (simp add: dec_field_def)

lemma dec_field_present: "map_get m k = Some v \<Longrightarrow> dec_field d k m = d v"
  by (simp add: dec_field_def)

lemma dec_int_of_int: "- (2 ^ 63) \<le> i \<Longrightarrow> i < 2 ^ 63 \<Longrightarrow> dec_int (JNum (of_int i)) = Ok i"
proof -
  assume "- (2 ^ 63) \<le> i" "i < 2 ^ 63"
  then have "of_int (- (2 ^ 63)) \<le> (of_int i :: rat)" "(of_int i :: rat) < of_int (2 ^ 63)"
    by (simp_all only: of_int_le_iff of_int_less_iff)
  then show ?thesis by simp
qed

section \<open>The configuration structs\<close>

record DisplayC =
  dp_FormID :: string

record ResponseC =
  rs_Mapping :: "(string, string) gomap option"
  rs_Display :: "DisplayC option"

record RequestC =
  rq_TaskCode :: string
  rq_Template :: "any option"

record SubmissionConfig =
  sb_ServiceID :: string
  sb_Url :: string
  sb_Request :: "RequestC option"
  sb_Response :: "ResponseC option"

record CallbackConfig =
  cb_Transition :: "TransitionConfig option"
  cb_Response :: "ResponseC option"

definition dec_display :: "DisplayC decoder" where
  "dec_display = dec_struct (\<lambda>m. bind_res (dec_field dec_string ''formId'' m) (\<lambda>f. Ok \<lparr>dp_FormID = f\<rparr>))"

definition dec_response :: "ResponseC decoder" where
  "dec_response = dec_struct (\<lambda>m.
     bind_res (dec_field (dec_ptr (dec_map dec_string)) ''mapping'' m) (\<lambda>mp.
     bind_res (dec_field (dec_ptr dec_display) ''display'' m) (\<lambda>d.
     Ok \<lparr>rs_Mapping = mp, rs_Display = d\<rparr>)))"

definition dec_request :: "RequestC decoder" where
  "dec_request = dec_struct (\<lambda>m.
     bind_res (dec_field dec_string ''taskCode'' m) (\<lambda>c.
     Ok \<lparr>rq_TaskCode = c, rq_Template = map_get m ''template''\<rparr>))"

definition dec_submission :: "SubmissionConfig decoder" where
  "dec_submission = dec_struct (\<lambda>m.
     bind_res (dec_field dec_string ''serviceId'' m) (\<lambda>i.
     bind_res (dec_field dec_string ''url'' m) (\<lambda>u.
     bind_res (dec_field (dec_ptr dec_request) ''request'' m) (\<lambda>q.
     bind_res (dec_field (dec_ptr dec_response) ''response'' m) (\<lambda>r.
     Ok \<lparr>sb_ServiceID = i, sb_Url = u, sb_Request = q, sb_Response = r\<rparr>)))))"

definition dec_transition :: "TransitionConfig decoder" where
  "dec_transition = dec_struct (\<lambda>m.
     bind_res (dec_field dec_string ''field'' m) (\<lambda>f.
     bind_res (dec_field (dec_map dec_string) ''mapping'' m) (\<lambda>mp.
     bind_res (dec_field dec_string ''default'' m) (\<lambda>d.
     Ok \<lparr>tc_Field = f, tc_Mapping = mp, tc_Default = d\<rparr>))))"

definition dec_callback :: "CallbackConfig decoder" where
  "dec_callback = dec_struct (\<lambda>m.
     bind_res (dec_field (dec_ptr dec_transition) ''transition'' m) (\<lambda>t.
     bind_res (dec_field (dec_ptr dec_response) ''response'' m) (\<lambda>r.
     Ok \<lparr>cb_Transition = t, cb_Response = r\<rparr>)))"

definition dec_condition :: "FieldCondition decoder" where
  "dec_condition = dec_struct (\<lambda>m.
     bind_res (dec_field dec_string ''field'' m) (\<lambda>f.
     bind_res (dec_field dec_string ''value'' m) (\<lambda>v.
     Ok \<lparr>fc_Field = f, fc_Value = v\<rparr>)))"

definition dec_rule :: "EmissionRule decoder" where
  "dec_rule = dec_struct (\<lambda>m.
     bind_res (dec_field dec_string ''outcome'' m) (\<lambda>out.
     bind_res (dec_field (dec_slice dec_condition) ''conditions'' m) (\<lambda>cs.
     Ok \<lparr>er_Outcome = out, er_Conditions = cs\<rparr>)))"

definition dec_emission :: "EmissionConfig decoder" where
  "dec_emission = dec_struct (dec_field (dec_slice dec_rule) ''rules'')"

text \<open>\<open>displayFormID\<close> of \<open>simple\_form.go\<close>.\<close>

definition displayFormID :: "ResponseC option \<Rightarrow> string" where
  "displayFormID r =
     (case r of
        Some r' \<Rightarrow> (case rs_Display r' of Some d \<Rightarrow> dp_FormID d | None \<Rightarrow> '''')
      | None \<Rightarrow> '''')"

section \<open>JSON schemas\<close>

definition dec_global_context :: "GlobalContext decoder" where
  "dec_global_context = dec_struct (\<lambda>m.
     bind_res (dec_field (dec_ptr dec_string) ''readFrom'' m) (\<lambda>r.
     bind_res (dec_field (dec_ptr dec_string) ''writeTo'' m) (\<lambda>w.
     Ok \<lparr>ReadFrom = r, WriteTo = w\<rparr>)))"

text \<open>The recursive struct: the members are decoded first, then the sub-schemas.\<close>

fun member_schemas :: "any \<Rightarrow> (string \<times> any) list" where
  "member_schemas (JObj m) = m"
| "member_schemas _ = []"

lemma map_of_size: "map_of m k = Some v \<Longrightarrow> size v < Suc (size_list (size_prod (\<lambda>_. 0) size) m)"
  by (induction m) (auto split: if_splits)

lemma member_schemas_size:
  "map_of m k = Some p \<Longrightarrow> size_list (size_prod (\<lambda>_. 0) size) (member_schemas p)
     < Suc (size_list (size_prod (\<lambda>_. 0) (size :: any \<Rightarrow> nat)) m)"
proof -
  assume p: "map_of m k = Some p"
  have "size_list (size_prod (\<lambda>_. 0) size) (member_schemas p) \<le> size p" by (cases p) simp_all
  with map_of_size [OF p] show ?thesis by linarith
qed

function dec_schema :: "any \<Rightarrow> JSONSchema res"
  and dec_properties :: "(string \<times> any) list \<Rightarrow> (string, JSONSchema) gomap res" where
  "dec_schema JNull = Ok (JSONSchema '''' [] None [] None None None)"
| "dec_schema (JObj m) =
     bind_res (dec_field dec_string ''type'' m) (\<lambda>ty.
     bind_res (case map_of m ''properties'' of
                 None \<Rightarrow> Ok []
               | Some p \<Rightarrow> (if p = JNull \<or> as_obj p \<noteq> None then dec_properties (member_schemas p)
                            else Err type_mismatch)) (\<lambda>props.
     bind_res (case map_of m ''items'' of
                 None \<Rightarrow> Ok None
               | Some i \<Rightarrow> (if i = JNull then Ok None else bind_res (dec_schema i) (\<lambda>x. Ok (Some x)))) (\<lambda>items.
     bind_res (dec_field (dec_slice dec_string) ''required'' m) (\<lambda>req.
     bind_res (dec_field (dec_ptr dec_float) ''minimum'' m) (\<lambda>mn.
     bind_res (dec_field (dec_ptr dec_int) ''minLength'' m) (\<lambda>ml.
     bind_res (dec_field (dec_ptr dec_global_context) ''x-globalContext'' m) (\<lambda>g.
     Ok (JSONSchema ty props items req mn ml g))))))))"
| "dec_schema (JBool b) = Err type_mismatch"
| "dec_schema (JNum n) = Err type_mismatch"
| "dec_schema (JStr s) = Err type_mismatch"
| "dec_schema (JArr xs) = Err type_mismatch"
| "dec_properties [] = Ok []"
| "dec_properties ((k, v) # ps) =
     bind_res (dec_schema v) (\<lambda>x. bind_res (dec_properties ps) (\<lambda>xs. Ok ((k, x) # xs)))"
  by pat_completeness auto

termination
  by (relation "measure (\<lambda>x. case x of Inl v \<Rightarrow> size v | Inr ps \<Rightarrow> size_list (size_prod (\<lambda>_. 0) size) ps)")
    (auto simp: member_schemas_size map_of_size)

end
