(* ===== verification/TaskStore.thy ===== *)
theory TaskStore
  imports JsonDecode TaskApi
begin

text \<open>
  What the task engine keeps outside the process and the stores on it: the table \<open>task\_infos\<close> with the operations of
  \<open>task/persistence/store.go\<close>, the write-through local state of \<open>task/persistence/state\_manager.go\<close>,
  and the form definitions of \<open>internal/form/service.go\<close>. Database calls, the clock, random ids
  and remote calls are answered by an environment indexed by a tick that every such call takes.
  A jsonb column is an \<open>any option\<close>: the JSON serializer of GORM writes null as SQL NULL, which is
  read as the empty message. Time stamps of rows are left out.
\<close>

section \<open>The world\<close>

record TaskInfo =
  ti_ID :: string
  ti_WorkflowID :: string
  ti_WorkflowNodeTemplateID :: string
  ti_Type :: TaskType
  ti_State :: State
  ti_PluginState :: string
  ti_Config :: "any option"
  ti_LocalState :: "any option"
  ti_GlobalContext :: "any option"

record Form =
  fm_ID :: string
  fm_Name :: string
  fm_Schema :: "any option"
  fm_UISchema :: "any option"
  fm_Version :: string
  fm_Active :: bool

record PaymentRecord =
  py_ID :: string
  py_ReferenceNumber :: string
  py_TaskID :: string
  py_SessionID :: string
  py_Amount :: rat
  py_Currency :: string
  py_Status :: string
  py_PaymentMethod :: string
  py_ExpiryDate :: int
  py_GatewayMetadata :: "(string, string) gomap"

text \<open>A call of \<open>remote.Manager.Call\<close>: service id, path, body.\<close>

type_synonym RemoteCall = "string \<times> string \<times> any"

record TaskWorld =
  w_tasks :: "TaskInfo list"
  w_forms :: "Form list"
  w_payments :: "PaymentRecord list"
  w_calls :: "RemoteCall list"          \<comment> \<open>calls sent, the latest first\<close>
  w_tick :: nat

record TaskEnv =
  te_fault :: "nat \<Rightarrow> go_error option"   \<comment> \<open>which database calls fail\<close>
  te_rank :: "nat \<Rightarrow> string \<Rightarrow> nat"      \<comment> \<open>row order of \<open>Find\<close>\<close>
  te_now :: "nat \<Rightarrow> int"                \<comment> \<open>\<open>time.Now\<close> in nanoseconds\<close>
  te_uuid :: "nat \<Rightarrow> string"            \<comment> \<open>\<open>uuid.NewString\<close>\<close>
  te_remote :: "nat \<Rightarrow> RemoteCall \<Rightarrow> any res"
  te_format :: "int \<Rightarrow> string"          \<comment> \<open>\<open>time.Time\<close> in JSON\<close>
  te_parse :: "string \<Rightarrow> int option"

type_synonym 'a wop = "(TaskWorld, 'a) op"

definition task_db :: "TaskEnv \<Rightarrow> 'a wop \<Rightarrow> 'a wop" where
  "task_db env stmt w =
     (let w' = w\<lparr>w_tick := Suc (w_tick w)\<rparr> in
      case te_fault env (w_tick w) of Some e \<Rightarrow> (Err e, w') | None \<Rightarrow> stmt w')"

definition time_now :: "TaskEnv \<Rightarrow> int wop" where
  "time_now env w = (Ok (te_now env (w_tick w)), w\<lparr>w_tick := Suc (w_tick w)\<rparr>)"

definition new_uuid :: "TaskEnv \<Rightarrow> string wop" where
  "new_uuid env w = (Ok (te_uuid env (w_tick w)), w\<lparr>w_tick := Suc (w_tick w)\<rparr>)"

definition remote_call :: "TaskEnv \<Rightarrow> RemoteCall \<Rightarrow> any wop" where
  "remote_call env c w =
     (te_remote env (w_tick w) c, w\<lparr>w_tick := Suc (w_tick w), w_calls := c # w_calls w\<rparr>)"

section \<open>store.go\<close>

definition json_column :: "any option \<Rightarrow> any option" where
  "json_column raw = (if raw = Some JNull then None else raw)"

definition NewTaskStore :: "bool \<Rightarrow> unit res" where
  "NewTaskStore has_db = (if \<not> has_db then Err (Errorf ''database connection cannot be nil'' []) else Ok ())"

definition ts_Create :: "TaskEnv \<Rightarrow> TaskInfo \<Rightarrow> unit wop" where
  "ts_Create env execution = task_db env (\<lambda>w.
     if \<exists>t \<in> set (w_tasks w). ti_ID t = ti_ID execution then (Err (External ''duplicate key value''), w)
     else (Ok (), w\<lparr>w_tasks := w_tasks w @
            [execution\<lparr>ti_Config := json_column (ti_Config execution),
               ti_LocalState := json_column (ti_LocalState execution),
               ti_GlobalContext := json_column (ti_GlobalContext execution)\<rparr>]\<rparr>))"

definition ts_GetByID :: "TaskEnv \<Rightarrow> string \<Rightarrow> TaskInfo wop" where
  "ts_GetByID env i = task_db env (\<lambda>w. (db_first (\<lambda>t. ti_ID t = i) (w_tasks w), w))"

definition task_update :: "TaskEnv \<Rightarrow> string \<Rightarrow> (TaskInfo \<Rightarrow> TaskInfo) \<Rightarrow> unit wop" where
  "task_update env i f = task_db env (\<lambda>w.
     (Ok (), w\<lparr>w_tasks := update_where (\<lambda>t. ti_ID t = i) f (w_tasks w)\<rparr>))"

definition ts_UpdateStatus :: "TaskEnv \<Rightarrow> string \<Rightarrow> State \<Rightarrow> unit wop" where
  "ts_UpdateStatus env i status = task_update env i (\<lambda>t. t\<lparr>ti_State := status\<rparr>)"

text \<open>\<open>Save\<close> writes every column of the row, or inserts it when no row has its id.\<close>

definition ts_Update :: "TaskEnv \<Rightarrow> TaskInfo \<Rightarrow> unit wop" where
  "ts_Update env execution = task_db env (\<lambda>w.
     if \<exists>t \<in> set (w_tasks w). ti_ID t = ti_ID execution
     then (Ok (), w\<lparr>w_tasks := update_where (\<lambda>t. ti_ID t = ti_ID execution) (\<lambda>_. execution) (w_tasks w)\<rparr>)
     else (Ok (), w\<lparr>w_tasks := w_tasks w @ [execution]\<rparr>))"

definition ts_Delete :: "TaskEnv \<Rightarrow> string \<Rightarrow> unit wop" where
  "ts_Delete env i = task_db env (\<lambda>w. (Ok (), w\<lparr>w_tasks := filter (\<lambda>t. ti_ID t \<noteq> i) (w_tasks w)\<rparr>))"

definition ts_GetAll :: "TaskEnv \<Rightarrow> TaskInfo list wop" where
  "ts_GetAll env = task_db env (\<lambda>w. (Ok (sort_key (\<lambda>t. te_rank env (w_tick w) (ti_ID t)) (w_tasks w)), w))"

text \<open>The query names a column \<open>status\<close>, which the table does not have: the database refuses it.\<close>

definition ts_GetByStatus :: "TaskEnv \<Rightarrow> State \<Rightarrow> TaskInfo list wop" where
  "ts_GetByStatus env status = task_db env (\<lambda>w. (Err (External ''column status does not exist''), w))"

definition ts_UpdateLocalState :: "TaskEnv \<Rightarrow> string \<Rightarrow> any option \<Rightarrow> unit wop" where
  "ts_UpdateLocalState env i localState = task_update env i (\<lambda>t. t\<lparr>ti_LocalState := localState\<rparr>)"

definition ts_GetLocalState :: "TaskEnv \<Rightarrow> string \<Rightarrow> any option wop" where
  "ts_GetLocalState env i =
     bindS (task_db env (\<lambda>w. (db_first (\<lambda>t. ti_ID t = i) (w_tasks w), w))) (\<lambda>t. returnS (ti_LocalState t))"

definition ts_UpdatePluginState :: "TaskEnv \<Rightarrow> string \<Rightarrow> string \<Rightarrow> unit wop" where
  "ts_UpdatePluginState env i pluginState = task_update env i (\<lambda>t. t\<lparr>ti_PluginState := pluginState\<rparr>)"

definition ts_GetPluginState :: "TaskEnv \<Rightarrow> string \<Rightarrow> string wop" where
  "ts_GetPluginState env i =
     bindS (task_db env (\<lambda>w. (db_first (\<lambda>t. ti_ID t = i) (w_tasks w), w))) (\<lambda>t. returnS (ti_PluginState t))"

section \<open>Values of the local store\<close>

text \<open>
  The store keeps Go values of any type. The plugins write JSON values, a nil
  \<open>map[string]any\<close> (a decoded null response) and the structs below; the table keeps their JSON.
\<close>

record OGAFeedbackEntry =
  fe_Content :: obj
  fe_Timestamp :: int
  fe_Round :: int

record PaymentSession =
  ps_TransactionID :: string
  ps_ReferenceNumber :: string
  ps_CheckoutURL :: string
  ps_OrgName :: string
  ps_SelectedMethodID :: string
  ps_GeneratedAt :: int
  ps_InitiatedAt :: "int option"

record PaymentTransaction =
  px_TransactionID :: string
  px_ReferenceNumber :: string
  px_InitiatedAt :: int
  px_ResolvedAt :: int
  px_Status :: string
  px_Round :: int

datatype gval =
    GJson any
  | GNilMap
  | GFeedback "OGAFeedbackEntry list"
  | GSession PaymentSession
  | GTransactions "PaymentTransaction list"

definition omit_empty :: "string \<Rightarrow> string \<Rightarrow> (string \<times> any) list" where
  "omit_empty k s = (if s = '''' then [] else [(k, JStr s)])"

definition enc_feedback :: "TaskEnv \<Rightarrow> OGAFeedbackEntry \<Rightarrow> any" where
  "enc_feedback env f = JObj [(''content'', JObj (fe_Content f)), (''timestamp'', JStr (te_format env (fe_Timestamp f))),
     (''round'', JNum (of_int (fe_Round f)))]"

definition enc_session :: "TaskEnv \<Rightarrow> PaymentSession \<Rightarrow> any" where
  "enc_session env s = JObj ([(''transactionId'', JStr (ps_TransactionID s)), (''referenceNumber'', JStr (ps_ReferenceNumber s))]
     @ omit_empty ''checkoutUrl'' (ps_CheckoutURL s) @ omit_empty ''orgName'' (ps_OrgName s)
     @ omit_empty ''selectedMethodId'' (ps_SelectedMethodID s)
     @ [(''generatedAt'', JStr (te_format env (ps_GeneratedAt s)))]
     @ (case ps_InitiatedAt s of None \<Rightarrow> [] | Some t \<Rightarrow> [(''initiatedAt'', JStr (te_format env t))]))"

definition enc_transaction :: "TaskEnv \<Rightarrow> PaymentTransaction \<Rightarrow> any" where
  "enc_transaction env p = JObj [(''transactionId'', JStr (px_TransactionID p)), (''referenceNumber'', JStr (px_ReferenceNumber p)),
     (''initiatedAt'', JStr (te_format env (px_InitiatedAt p))), (''resolvedAt'', JStr (te_format env (px_ResolvedAt p))),
     (''status'', JStr (px_Status p)), (''round'', JNum (of_int (px_Round p)))]"

fun to_json :: "TaskEnv \<Rightarrow> gval \<Rightarrow> any" where
  "to_json env (GJson v) = v"
| "to_json env GNilMap = JNull"
| "to_json env (GFeedback fs) = JArr (map (enc_feedback env) fs)"
| "to_json env (GSession s) = enc_session env s"
| "to_json env (GTransactions ps) = JArr (map (enc_transaction env) ps)"

text \<open>The decoders of the same structs. \<open>time.Time\<close> leaves its zero value on null.\<close>

definition zero_time :: int where
  "zero_time = -62135596800 * 10 ^ 9"

fun dec_time :: "TaskEnv \<Rightarrow> int decoder" where
  "dec_time env JNull = Ok zero_time"
| "dec_time env (JStr s) = (case te_parse env s of Some t \<Rightarrow> Ok t | None \<Rightarrow> Err (External ''parsing time''))"
| "dec_time env _ = Err (External ''Time.UnmarshalJSON: input is not a JSON string'')"

definition dec_feedback :: "TaskEnv \<Rightarrow> OGAFeedbackEntry decoder" where
  "dec_feedback env = dec_struct (\<lambda>m.
     bind_res (dec_field dec_obj ''content'' m) (\<lambda>c.
     bind_res (dec_field (dec_time env) ''timestamp'' m) (\<lambda>t.
     bind_res (dec_field dec_int ''round'' m) (\<lambda>r.
     Ok \<lparr>fe_Content = c, fe_Timestamp = t, fe_Round = r\<rparr>))))"

definition dec_session :: "TaskEnv \<Rightarrow> PaymentSession decoder" where
  "dec_session env = dec_struct (\<lambda>m.
     bind_res (dec_field dec_string ''transactionId'' m) (\<lambda>i.
     bind_res (dec_field dec_string ''referenceNumber'' m) (\<lambda>r.
     bind_res (dec_field dec_string ''checkoutUrl'' m) (\<lambda>u.
     bind_res (dec_field dec_string ''orgName'' m) (\<lambda>og.
     bind_res (dec_field dec_string ''selectedMethodId'' m) (\<lambda>s.
     bind_res (dec_field (dec_time env) ''generatedAt'' m) (\<lambda>g.
     bind_res (dec_field (dec_ptr (dec_time env)) ''initiatedAt'' m) (\<lambda>t.
     Ok \<lparr>ps_TransactionID = i, ps_ReferenceNumber = r, ps_CheckoutURL = u, ps_OrgName = og,
         ps_SelectedMethodID = s, ps_GeneratedAt = g, ps_InitiatedAt = t\<rparr>))))))))"

definition dec_payment_transaction :: "TaskEnv \<Rightarrow> PaymentTransaction decoder" where
  "dec_payment_transaction env = dec_struct (\<lambda>m.
     bind_res (dec_field dec_string ''transactionId'' m) (\<lambda>i.
     bind_res (dec_field dec_string ''referenceNumber'' m) (\<lambda>r.
     bind_res (dec_field (dec_time env) ''initiatedAt'' m) (\<lambda>t.
     bind_res (dec_field (dec_time env) ''resolvedAt'' m) (\<lambda>u.
     bind_res (dec_field dec_string ''status'' m) (\<lambda>s.
     bind_res (dec_field dec_int ''round'' m) (\<lambda>n.
     Ok \<lparr>px_TransactionID = i, px_ReferenceNumber = r, px_InitiatedAt = t, px_ResolvedAt = u, px_Status = s, px_Round = n\<rparr>)))))))"

section \<open>state\_manager.go\<close>

text \<open>The cache is nil (\<open>None\<close>) after the table held the JSON null.\<close>

record LocalStateManager =
  lm_taskID :: string
  lm_cache :: "(string, gval) gomap option"

definition json_cache :: "obj \<Rightarrow> (string, gval) gomap" where
  "json_cache m = map (\<lambda>(k, v). (k, GJson v)) m"

definition loadFromDB :: "TaskEnv \<Rightarrow> LocalStateManager \<Rightarrow> LocalStateManager wop" where
  "loadFromDB env m w =
     (case ts_GetLocalState env (lm_taskID m) w of
        (Err e, w') \<Rightarrow> if is_not_found e then (Ok m, w') else (Err e, w')
      | (Panic, w') \<Rightarrow> (Panic, w')
      | (Ok None, w') \<Rightarrow> (Ok m, w')
      | (Ok (Some (JObj ob)), w') \<Rightarrow> (Ok (m\<lparr>lm_cache := Some (json_cache ob)\<rparr>), w')
      | (Ok (Some JNull), w') \<Rightarrow> (Ok (m\<lparr>lm_cache := None\<rparr>), w')
      | (Ok (Some _), w') \<Rightarrow> (Err (Wrapf ''failed to unmarshal local state'' [] type_mismatch), w'))"

definition NewLocalStateManager :: "TaskEnv \<Rightarrow> string \<Rightarrow> LocalStateManager wop" where
  "NewLocalStateManager env taskID =
     wrapS ''failed to load local state'' [] (loadFromDB env \<lparr>lm_taskID = taskID, lm_cache = Some []\<rparr>)"

definition NewLocalStateManagerWithCache :: "string \<Rightarrow> any option \<Rightarrow> LocalStateManager res" where
  "NewLocalStateManagerWithCache taskID cache =
     (case cache of
        None \<Rightarrow> Ok \<lparr>lm_taskID = taskID, lm_cache = Some []\<rparr>
      | Some JNull \<Rightarrow> Ok \<lparr>lm_taskID = taskID, lm_cache = Some []\<rparr>
      | Some (JObj m) \<Rightarrow> Ok \<lparr>lm_taskID = taskID, lm_cache = Some (json_cache m)\<rparr>
      | Some _ \<Rightarrow> Err (Wrapf ''failed to unmarshal local state'' [] type_mismatch))"

text \<open>A value read as nil is \<open>GJson JNull\<close>, whether it is absent or stored as nil.\<close>

definition lm_GetState :: "string \<Rightarrow> LocalStateManager \<Rightarrow> gval" where
  "lm_GetState key m =
     (case lm_cache m of
        None \<Rightarrow> GJson JNull
      | Some c \<Rightarrow> (case map_get c key of None \<Rightarrow> GJson JNull | Some v \<Rightarrow> v))"

definition marshal_cache :: "TaskEnv \<Rightarrow> (string, gval) gomap \<Rightarrow> any" where
  "marshal_cache env c = JObj (map (\<lambda>(k, v). (k, to_json env v)) c)"

definition persistToDB :: "TaskEnv \<Rightarrow> LocalStateManager \<Rightarrow> unit wop" where
  "persistToDB env m =
     wrapS ''failed to update local state in database'' []
       (ts_UpdateLocalState env (lm_taskID m)
          (Some (case lm_cache m of None \<Rightarrow> JNull | Some c \<Rightarrow> marshal_cache env c)))"

text \<open>The manager is changed before the write, so it keeps the value when the write fails.\<close>

definition lm_SetState :: "TaskEnv \<Rightarrow> string \<Rightarrow> gval \<Rightarrow> (LocalStateManager \<times> TaskWorld, unit) op" where
  "lm_SetState env key v = (\<lambda>(m, w).
     case lm_cache m of
       None \<Rightarrow> (Panic, (m, w))
     | Some c \<Rightarrow>
         let m' = m\<lparr>lm_cache := Some (map_put key v c)\<rparr> in
         case persistToDB env m' w of (r, w') \<Rightarrow> (r, (m', w')))"

section \<open>form/service.go\<close>

record FormResponse =
  fr_ID :: string
  fr_Name :: string
  fr_Schema :: "any option"
  fr_UISchema :: "any option"
  fr_Version :: string

definition GetFormByID :: "TaskEnv \<Rightarrow> string \<Rightarrow> FormResponse wop" where
  "GetFormByID env formID =
     (if formID = '''' then failS (Errorf ''formID cannot be nil'' [])
      else (\<lambda>w. case task_db env (\<lambda>w. (db_first (\<lambda>f. fm_ID f = formID \<and> fm_Active f) (w_forms w), w)) w of
                  (Err e, w') \<Rightarrow>
                    if is_not_found e then (Err (Wrapf ''form not found'' [formID] (External ''form not found'')), w')
                    else (Err (Wrapf ''failed to retrieve form'' [] e), w')
                | (Panic, w') \<Rightarrow> (Panic, w')
                | (Ok f, w') \<Rightarrow>
                    (Ok \<lparr>fr_ID = fm_ID f, fr_Name = fm_Name f, fr_Schema = fm_Schema f, fr_UISchema = fm_UISchema f,
                        fr_Version = fm_Version f\<rparr>, w')))"

section \<open>The local store as an interface\<close>

text \<open>
  What the plugins use of the local state: reading a key gives the last value written to it, whatever
  became of the write to the database. \<open>sees\<close> is the condition under which a write does not panic.
\<close>

locale key_value_store =
  fixes read_key :: "string \<Rightarrow> 'm \<Rightarrow> 'v"
    and write_key :: "string \<Rightarrow> 'v \<Rightarrow> 'm \<Rightarrow> unit res \<times> 'm"
    and writable :: "'m \<Rightarrow> bool"
  assumes read_after_write: "writable m \<Longrightarrow> write_key k v m = (r, m') \<Longrightarrow> read_key k' m' = (if k' = k then v else read_key k' m)"
    and write_keeps: "writable m \<Longrightarrow> write_key k v m = (r, m') \<Longrightarrow> writable m' \<and> r \<noteq> Panic"
begin

fun write_all :: "(string \<times> 'v) list \<Rightarrow> 'm \<Rightarrow> 'm" where
  "write_all [] m = m"
| "write_all ((k, v) # kvs) m = write_all kvs (snd (write_key k v m))"

lemma write_all_read:
  "writable m \<Longrightarrow> read_key k (write_all kvs m) = (case map_of (rev kvs) k of None \<Rightarrow> read_key k m | Some v \<Rightarrow> v)"
proof (induction kvs arbitrary: m)
  case (Cons kv kvs)
  obtain k' v where kv: "kv = (k', v)" by (cases kv)
  obtain r m' where w: "write_key k' v m = (r, m')" by (cases "write_key k' v m")
  have "writable m'" using write_keeps [OF Cons.prems w] by simp
  from Cons.IH [OF this] show ?case
    by (simp add: kv w read_after_write [OF Cons.prems w] map_add_def split: option.splits)
qed simp

end

text \<open>What a database statement can do: fail with no effect, or run.\<close>

lemma task_db_cases:
  assumes "task_db env stmt w = (r, w')"
  shows "(\<exists>e. r = Err e \<and> w' = w\<lparr>w_tick := Suc (w_tick w)\<rparr>) \<or> stmt (w\<lparr>w_tick := Suc (w_tick w)\<rparr>) = (r, w')"
  using assms by (cases "te_fault env (w_tick w)") (auto simp: task_db_def Let_def)

lemma task_update_cases:
  assumes "task_update env i f w = (r, w')"
  shows "(\<exists>e. r = Err e \<and> w' = w\<lparr>w_tick := Suc (w_tick w)\<rparr>)
    \<or> (r = Ok () \<and> w' = w\<lparr>w_tick := Suc (w_tick w), w_tasks := update_where (\<lambda>t. ti_ID t = i) f (w_tasks w)\<rparr>)"
  using task_db_cases [OF assms [unfolded task_update_def]] by auto

lemma wrapS_Pair: "wrapS fmt args m s = (r, t) \<Longrightarrow> \<exists>r'. m s = (r', t) \<and> r = wrap_err fmt args r'"
  by (auto simp: wrapS_def split: prod.splits)

lemma persist_cases:
  assumes "persistToDB env m w = (r, w')"
  shows "(\<exists>e. r = Err e \<and> w' = w\<lparr>w_tick := Suc (w_tick w)\<rparr>)
    \<or> (r = Ok () \<and> w' = w\<lparr>w_tick := Suc (w_tick w), w_tasks := update_where (\<lambda>t. ti_ID t = lm_taskID m)
          (\<lambda>t. t\<lparr>ti_LocalState := Some (case lm_cache m of None \<Rightarrow> JNull | Some c \<Rightarrow> marshal_cache env c)\<rparr>) (w_tasks w)\<rparr>)"
proof -
  obtain r' where r': "ts_UpdateLocalState env (lm_taskID m)
      (Some (case lm_cache m of None \<Rightarrow> JNull | Some c \<Rightarrow> marshal_cache env c)) w = (r', w')"
    and r: "r = wrap_err ''failed to update local state in database'' [] r'"
    using wrapS_Pair [OF assms [unfolded persistToDB_def]] by blast
  from task_update_cases [OF r' [unfolded ts_UpdateLocalState_def]] show ?thesis
    by (elim disjE exE conjE) (simp_all add: r)
qed

definition live_cache :: "LocalStateManager \<times> TaskWorld \<Rightarrow> bool" where
  "live_cache s \<longleftrightarrow> lm_cache (fst s) \<noteq> None"

lemma SetState_result:
  assumes "lm_cache m = Some c" and "lm_SetState env key v (m, w) = (r, (m', w'))"
  shows "m' = m\<lparr>lm_cache := Some (map_put key v c)\<rparr>" and "persistToDB env m' w = (r, w')"
  using assms by (auto simp: lm_SetState_def Let_def split: prod.splits)

lemma persist_no_panic: "persistToDB env m w = (r, w') \<Longrightarrow> r \<noteq> Panic"
  using persist_cases by fastforce

lemma SetState_read:
  assumes "live_cache s" and "lm_SetState env k v s = (r, s')"
  shows "lm_GetState k' (fst s') = (if k' = k then v else lm_GetState k' (fst s))"
proof -
  obtain m w m' w' c where s: "s = (m, w)" "s' = (m', w')" "lm_cache m = Some c"
    using assms(1) by (cases s; cases s') (auto simp: live_cache_def)
  from SetState_result(1) [OF s(3) assms(2) [unfolded s]] s show ?thesis by (simp add: lm_GetState_def map_get_put)
qed

lemma SetState_keeps:
  assumes "live_cache s" and "lm_SetState env k v s = (r, s')"
  shows "live_cache s' \<and> r \<noteq> Panic"
proof -
  obtain m w m' w' c where s: "s = (m, w)" "s' = (m', w')" "lm_cache m = Some c"
    using assms(1) by (cases s; cases s') (auto simp: live_cache_def)
  note sr = SetState_result [OF s(3) assms(2) [unfolded s]]
  have "lm_cache m' = Some (map_put k v c)" by (simp add: sr(1))
  with persist_no_panic [OF sr(2)] s(2) show ?thesis by (simp add: live_cache_def)
qed

interpretation local_state: key_value_store "\<lambda>k s. lm_GetState k (fst s)" "lm_SetState env" live_cache
  by (rule key_value_store.intro [OF SetState_read SetState_keeps])

section \<open>Reloading\<close>

lemma map_of_map_snd: "map_of (map (\<lambda>(k, v). (k, f v)) m) k = map_option f (map_of m k)"
  by (induction m) auto

lemma reload_reads:
  "\<exists>m'. NewLocalStateManagerWithCache i (Some (marshal_cache env c)) = Ok m' \<and>
     (\<forall>k. to_json env (lm_GetState k m') = to_json env (lm_GetState k \<lparr>lm_taskID = i, lm_cache = Some c\<rparr>))"
proof -
  have "map_of (json_cache (map (\<lambda>(k, v). (k, to_json env v)) c)) k = map_option (\<lambda>v. GJson (to_json env v)) (map_of c k)" for k
    by (simp only: json_cache_def map_of_map_snd option.map_comp comp_def)
  then show ?thesis
    by (simp add: NewLocalStateManagerWithCache_def marshal_cache_def lm_GetState_def split: option.splits)
qed

lemma find_update_where:
  "(\<And>t. p t \<Longrightarrow> p (f t)) \<Longrightarrow> List.find p (update_where p f xs) = map_option f (List.find p xs)"
  by (induction xs) (auto simp: update_where_def)

text \<open>
  C35: A write of the local state that reports success is durable: the row of the task then holds a
  state from which a rebuilt manager reads, under every key, the JSON of the value written or of the
  value the first manager has. A write that reports an error leaves the table as it was.
\<close>

theorem local_state_survives_reload:
  assumes "lm_cache m \<noteq> None" and "List.find (\<lambda>t. ti_ID t = lm_taskID m) (w_tasks w) \<noteq> None"
    and "lm_SetState env key v (m, w) = (r, (m', w'))"
  shows "(r = Ok () \<longrightarrow> (\<exists>t m2. List.find (\<lambda>t. ti_ID t = lm_taskID m) (w_tasks w') = Some t \<and>
            NewLocalStateManagerWithCache (ti_ID t) (ti_LocalState t) = Ok m2 \<and>
            (\<forall>k. to_json env (lm_GetState k m2) = to_json env (if k = key then v else lm_GetState k m))))
       \<and> (r \<noteq> Ok () \<longrightarrow> w_tasks w' = w_tasks w)"
proof -
  obtain c where c: "lm_cache m = Some c" using assms(1) by blast
  note sr = SetState_result [OF c assms(3)]
  have rd: "lm_GetState k m' = (if k = key then v else lm_GetState k m)" for k
    using local_state.read_after_write [of "(m, w)"] assms(3) c by (fastforce simp: live_cache_def)
  have id: "lm_taskID m' = lm_taskID m" and c': "lm_cache m' = Some (map_put key v c)" by (simp_all add: sr(1))
  obtain t0 where t0: "List.find (\<lambda>t. ti_ID t = lm_taskID m) (w_tasks w) = Some t0" using assms(2) by blast
  from persist_cases [OF sr(2)] show ?thesis
  proof (elim disjE conjE exE)
    fix e
    assume "r = Err e" and "w' = w\<lparr>w_tick := Suc (w_tick w)\<rparr>"
    then show ?thesis by simp
  next
    assume r: "r = Ok ()" and w': "w' = w\<lparr>w_tick := Suc (w_tick w), w_tasks := update_where (\<lambda>t. ti_ID t = lm_taskID m')
          (\<lambda>t. t\<lparr>ti_LocalState := Some (case lm_cache m' of None \<Rightarrow> JNull | Some c \<Rightarrow> marshal_cache env c)\<rparr>) (w_tasks w)\<rparr>"
    let ?t = "t0\<lparr>ti_LocalState := Some (marshal_cache env (map_put key v c))\<rparr>"
    have t: "List.find (\<lambda>t. ti_ID t = lm_taskID m) (w_tasks w') = Some ?t"
      by (simp add: w' id c' find_update_where t0)
    obtain m2 where m2: "NewLocalStateManagerWithCache (ti_ID ?t) (ti_LocalState ?t) = Ok m2"
      and "\<forall>k. to_json env (lm_GetState k m2) = to_json env (lm_GetState k \<lparr>lm_taskID = ti_ID ?t, lm_cache = Some (map_put key v c)\<rparr>)"
      using reload_reads by fastforce
    then have "\<forall>k. to_json env (lm_GetState k m2) = to_json env (lm_GetState k m')"
      using c' by (simp add: lm_GetState_def)
    with t m2 r show ?thesis by (simp only: rd simp_thms) blast
  qed
qed

section \<open>Round trips of the stored structs\<close>

text \<open>The environment's clock writes a time that it reads back: what \<open>time.Time\<close> documents for RFC 3339.\<close>

definition time_ok :: "TaskEnv \<Rightarrow> int \<Rightarrow> bool" where
  "time_ok env t \<longleftrightarrow> te_parse env (te_format env t) = Some t"

definition round_ok :: "int \<Rightarrow> bool" where
  "round_ok n \<longleftrightarrow> - (2 ^ 63) \<le> n \<and> n < 2 ^ 63"

lemma feedback_roundtrip:
  "time_ok env (fe_Timestamp f) \<Longrightarrow> round_ok (fe_Round f) \<Longrightarrow> dec_feedback env (enc_feedback env f) = Ok f"
  by (simp add: dec_feedback_def enc_feedback_def dec_struct_def dec_field_def dec_int_of_int time_ok_def round_ok_def
      del: dec_int.simps)

lemma transaction_roundtrip:
  "time_ok env (px_InitiatedAt p) \<Longrightarrow> time_ok env (px_ResolvedAt p) \<Longrightarrow> round_ok (px_Round p) \<Longrightarrow>
   dec_payment_transaction env (enc_transaction env p) = Ok p"
  by (simp add: dec_payment_transaction_def enc_transaction_def dec_struct_def dec_field_def dec_int_of_int
      time_ok_def round_ok_def del: dec_int.simps)

lemma dec_string_omit:
  "k \<notin> fst ` set m \<Longrightarrow> dec_field dec_string k (omit_empty k s @ m) = Ok s"
  by (auto simp: omit_empty_def dec_field_def map_of_eq_None_iff [THEN iffD2])

lemma map_of_omit: "k' \<noteq> k \<Longrightarrow> map_of (omit_empty k' s @ m) k = map_of m k"
  by (simp add: omit_empty_def)

lemma session_roundtrip:
  assumes "time_ok env (ps_GeneratedAt s)" and "\<And>t. ps_InitiatedAt s = Some t \<Longrightarrow> time_ok env t"
  shows "dec_session env (enc_session env s) = Ok s"
proof -
  define m where "m = [(''transactionId'', JStr (ps_TransactionID s)), (''referenceNumber'', JStr (ps_ReferenceNumber s))]
     @ omit_empty ''checkoutUrl'' (ps_CheckoutURL s) @ omit_empty ''orgName'' (ps_OrgName s)
     @ omit_empty ''selectedMethodId'' (ps_SelectedMethodID s)
     @ [(''generatedAt'', JStr (te_format env (ps_GeneratedAt s)))]
     @ (case ps_InitiatedAt s of None \<Rightarrow> [] | Some t \<Rightarrow> [(''initiatedAt'', JStr (te_format env t))])"
  have u: "dec_field dec_string ''transactionId'' m = Ok (ps_TransactionID s)"
    "dec_field dec_string ''referenceNumber'' m = Ok (ps_ReferenceNumber s)"
    "dec_field dec_string ''checkoutUrl'' m = Ok (ps_CheckoutURL s)"
    "dec_field dec_string ''orgName'' m = Ok (ps_OrgName s)"
    "dec_field dec_string ''selectedMethodId'' m = Ok (ps_SelectedMethodID s)"
    "dec_field (dec_time env) ''generatedAt'' m = Ok (ps_GeneratedAt s)"
    using assms(1) by (simp_all add: m_def dec_field_def omit_empty_def time_ok_def split: option.splits)
  have "dec_field (dec_ptr (dec_time env)) ''initiatedAt'' m = Ok (ps_InitiatedAt s)"
    using assms(2) by (cases "ps_InitiatedAt s") (simp_all add: m_def dec_field_def omit_empty_def dec_ptr_def time_ok_def)
  moreover have "enc_session env s = JObj m" unfolding m_def enc_session_def by (rule refl)
  ultimately show ?thesis using u by (simp add: dec_session_def dec_struct_def)
qed

text \<open>
  What the plugins keep in the local store survives the JSON of the table: sessions, the payment
  history and the feedback history decode from their stored JSON to the very values that were
  written, when their times are times RFC 3339 can write and their rounds fit a 64-bit int.
\<close>

theorem stored_values_roundtrip:
  "(time_ok env (ps_GeneratedAt s) \<and> (\<forall>t. ps_InitiatedAt s = Some t \<longrightarrow> time_ok env t) \<longrightarrow>
           dec_session env (to_json env (GSession s)) = Ok s) \<and>
   ((\<forall>p \<in> set h. time_ok env (px_InitiatedAt p) \<and> time_ok env (px_ResolvedAt p) \<and> round_ok (px_Round p)) \<longrightarrow>
           dec_slice (dec_payment_transaction env) (to_json env (GTransactions h)) = Ok h) \<and>
   ((\<forall>f \<in> set fs. time_ok env (fe_Timestamp f) \<and> round_ok (fe_Round f)) \<longrightarrow>
           dec_slice (dec_feedback env) (to_json env (GFeedback fs)) = Ok fs)"
  using session_roundtrip transaction_roundtrip feedback_roundtrip by (auto intro!: dec_elems_map)

section \<open>A concrete environment\<close>

text \<open>No fault, a clock that ticks, unary times.\<close>

definition demo_env :: TaskEnv where
  "demo_env = \<lparr>te_fault = (\<lambda>_. None), te_rank = (\<lambda>_ _. 0), te_now = (\<lambda>n. int n), te_uuid = (\<lambda>n. ''uuid-'' @ show_nat n),
     te_remote = (\<lambda>_ _. Ok JNull), te_format = (\<lambda>t. replicate (nat \<bar>t\<bar>) (if t < 0 then CHR ''-'' else CHR ''1'')),
     te_parse = (\<lambda>s. Some (if CHR ''-'' \<in> set s then - int (length s) else int (length s)))\<rparr>"

definition demo_task :: "string \<Rightarrow> TaskType \<Rightarrow> string \<Rightarrow> TaskInfo" where
  "demo_task i ty ps = \<lparr>ti_ID = i, ti_WorkflowID = ''wf'', ti_WorkflowNodeTemplateID = ''tpl'', ti_Type = ty, ti_State = Initialized,
     ti_PluginState = ps, ti_Config = Some (JObj []), ti_LocalState = None, ti_GlobalContext = Some (JObj [])\<rparr>"

definition demo_world :: "TaskInfo list \<Rightarrow> TaskWorld" where
  "demo_world ts = \<lparr>w_tasks = ts, w_forms = [], w_payments = [], w_calls = [], w_tick = 0\<rparr>"

lemma demo_time_ok: "time_ok demo_env t"
  by (simp add: time_ok_def demo_env_def)

theorem stored_values_roundtrip_witness:
  "dec_session demo_env (to_json demo_env (GSession \<lparr>ps_TransactionID = ''t'', ps_ReferenceNumber = ''r'', ps_CheckoutURL = '''',
      ps_OrgName = '''', ps_SelectedMethodID = ''card'', ps_GeneratedAt = 5, ps_InitiatedAt = Some 7\<rparr>)) =
    Ok \<lparr>ps_TransactionID = ''t'', ps_ReferenceNumber = ''r'', ps_CheckoutURL = '''',
      ps_OrgName = '''', ps_SelectedMethodID = ''card'', ps_GeneratedAt = 5, ps_InitiatedAt = Some 7\<rparr>
   \<and> dec_slice (dec_payment_transaction demo_env) (to_json demo_env (GTransactions [\<lparr>px_TransactionID = ''t'', px_ReferenceNumber = ''r'',
      px_InitiatedAt = 5, px_ResolvedAt = 7, px_Status = ''FAILED'', px_Round = 1\<rparr>])) =
    Ok [\<lparr>px_TransactionID = ''t'', px_ReferenceNumber = ''r'',
      px_InitiatedAt = 5, px_ResolvedAt = 7, px_Status = ''FAILED'', px_Round = 1\<rparr>]
   \<and> dec_slice (dec_feedback demo_env) (to_json demo_env (GFeedback [\<lparr>fe_Content = [(''feedback'', JStr ''x'')], fe_Timestamp = 3, fe_Round = 1\<rparr>])) =
    Ok [\<lparr>fe_Content = [(''feedback'', JStr ''x'')], fe_Timestamp = 3, fe_Round = 1\<rparr>]"
proof (intro conjI)
  show "dec_session demo_env (to_json demo_env (GSession \<lparr>ps_TransactionID = ''t'', ps_ReferenceNumber = ''r'', ps_CheckoutURL = '''',
      ps_OrgName = '''', ps_SelectedMethodID = ''card'', ps_GeneratedAt = 5, ps_InitiatedAt = Some 7\<rparr>)) =
    Ok \<lparr>ps_TransactionID = ''t'', ps_ReferenceNumber = ''r'', ps_CheckoutURL = '''',
      ps_OrgName = '''', ps_SelectedMethodID = ''card'', ps_GeneratedAt = 5, ps_InitiatedAt = Some 7\<rparr>"
    by (rule stored_values_roundtrip [THEN conjunct1, THEN mp]) (simp add: demo_time_ok)
  show "dec_slice (dec_payment_transaction demo_env) (to_json demo_env (GTransactions [\<lparr>px_TransactionID = ''t'', px_ReferenceNumber = ''r'',
      px_InitiatedAt = 5, px_ResolvedAt = 7, px_Status = ''FAILED'', px_Round = 1\<rparr>])) =
    Ok [\<lparr>px_TransactionID = ''t'', px_ReferenceNumber = ''r'',
      px_InitiatedAt = 5, px_ResolvedAt = 7, px_Status = ''FAILED'', px_Round = 1\<rparr>]"
    by (rule stored_values_roundtrip [THEN conjunct2, THEN conjunct1, THEN mp]) (simp add: demo_time_ok round_ok_def)
  show "dec_slice (dec_feedback demo_env) (to_json demo_env (GFeedback [\<lparr>fe_Content = [(''feedback'', JStr ''x'')], fe_Timestamp = 3, fe_Round = 1\<rparr>])) =
    Ok [\<lparr>fe_Content = [(''feedback'', JStr ''x'')], fe_Timestamp = 3, fe_Round = 1\<rparr>]"
    by (rule stored_values_roundtrip [THEN conjunct2, THEN conjunct2, THEN mp]) (simp add: demo_time_ok round_ok_def)
qed

theorem local_state_survives_reload_witness:
  "\<exists>w' m2. lm_SetState demo_env ''k'' (GJson (JStr ''v'')) (\<lparr>lm_taskID = ''t1'', lm_cache = Some []\<rparr>,
        demo_world [demo_task ''t1'' TaskTypePayment '''']) = (Ok (), (\<lparr>lm_taskID = ''t1'', lm_cache = Some [(''k'', GJson (JStr ''v''))]\<rparr>, w'))
     \<and> NewLocalStateManagerWithCache ''t1'' (ti_LocalState (hd (w_tasks w'))) = Ok m2
     \<and> to_json demo_env (lm_GetState ''k'' m2) = JStr ''v''"
proof -
  let ?m = "\<lparr>lm_taskID = ''t1'', lm_cache = Some []\<rparr>" and ?w = "demo_world [demo_task ''t1'' TaskTypePayment '''']"
  have run: "lm_SetState demo_env ''k'' (GJson (JStr ''v'')) (?m, ?w) =
      (Ok (), (?m\<lparr>lm_cache := Some [(''k'', GJson (JStr ''v''))]\<rparr>, ?w\<lparr>w_tick := 1, w_tasks :=
         [(demo_task ''t1'' TaskTypePayment '''')\<lparr>ti_LocalState := Some (JObj [(''k'', JStr ''v'')])\<rparr>]\<rparr>))"
    by (simp add: lm_SetState_def persistToDB_def ts_UpdateLocalState_def task_update_def task_db_def wrapS_def demo_env_def
        demo_world_def demo_task_def update_where_def marshal_cache_def Let_def)
  have f: "List.find (\<lambda>t. ti_ID t = lm_taskID ?m) (w_tasks ?w) \<noteq> None" by (simp add: demo_world_def demo_task_def)
  from local_state_survives_reload [OF _ f run] obtain t m2 where
    "List.find (\<lambda>t. ti_ID t = lm_taskID ?m) [(demo_task ''t1'' TaskTypePayment '''')\<lparr>ti_LocalState := Some (JObj [(''k'', JStr ''v'')])\<rparr>] = Some t"
    "NewLocalStateManagerWithCache (ti_ID t) (ti_LocalState t) = Ok m2" "to_json demo_env (lm_GetState ''k'' m2) = JStr ''v''"
    by auto
  then show ?thesis using run by (auto simp: demo_task_def split: if_splits)
qed

end
