(* ===== verification/TaskContainer.thy ===== *)
theory TaskContainer
  imports TaskStore
begin

text \<open>
  The container that runs one task, \<open>backend/internal/task/container/container.go\<close>: it owns the plugin
  state and the task state, moves them along the edges of the plugin's state machine only, and
  writes them to the table. It implements the interface \<open>API\<close> of \<open>task/plugin/plugin.go\<close> for the
  plugins; the interface \<open>Plugin\<close> is the locale \<open>plugin_contract\<close>, which every plugin interprets.
  An operation works on the container and the world. The plugin itself is the field
  \<open>c_Executable\<close>, of any type. The read-write lock is not modelled: an operation runs alone.
\<close>

section \<open>The container\<close>

record 'p Container =
  c_TaskID :: string
  c_WorkflowID :: string
  c_WorkflowNodeTemplateID :: string
  c_State :: State
  c_Executable :: 'p
  c_globalState :: obj
  c_localState :: LocalStateManager
  c_taskStore :: bool                  \<comment> \<open>the store is not nil\<close>
  c_pluginState :: string
  c_fsm :: "PluginFSM option"

type_synonym ('p, 'a) cop = "('p Container \<times> TaskWorld, 'a) op"

text \<open>Reading the container, running a plugin-independent operation of the world, changing the plugin.\<close>

definition getC :: "('p Container \<Rightarrow> 'a) \<Rightarrow> ('p, 'a) cop" where
  "getC f s = (Ok (f (fst s)), s)"

definition on_world :: "'a wop \<Rightarrow> ('p, 'a) cop" where
  "on_world m s = (case m (snd s) of (r, w') \<Rightarrow> (r, (fst s, w')))"

definition set_plugin :: "('p \<Rightarrow> 'p) \<Rightarrow> ('p, unit) cop" where
  "set_plugin f s = (Ok (), ((fst s)\<lparr>c_Executable := f (c_Executable (fst s))\<rparr>, snd s))"

section \<open>container.go\<close>

definition GetTaskState :: "'p Container \<Rightarrow> State" where
  "GetTaskState c = c_State c"

definition GetPluginState :: "'p Container \<Rightarrow> string" where
  "GetPluginState c = c_pluginState c"

definition container_CanTransition :: "string \<Rightarrow> 'p Container \<Rightarrow> bool" where
  "container_CanTransition action c =
     (case c_fsm c of None \<Rightarrow> True | Some fsm \<Rightarrow> CanTransition fsm (GetPluginState c) action)"

definition store_call :: "unit wop \<Rightarrow> ('p, unit) cop" where
  "store_call m s = (if c_taskStore (fst s) then on_world m s else (Panic, s))"

definition container_Transition :: "TaskEnv \<Rightarrow> string \<Rightarrow> ('p, unit) cop" where
  "container_Transition env action s =
     (case c_fsm (fst s) of
        None \<Rightarrow> (Ok (), s)
      | Some fsm \<Rightarrow>
          (case Transition fsm (GetPluginState (fst s)) action of
             Err e \<Rightarrow> (Err e, s)
           | Panic \<Rightarrow> (Panic, s)
           | Ok outcome \<Rightarrow>
               let c1 = (fst s)\<lparr>c_pluginState := NextPluginState outcome\<rparr>;
                   c2 = (if NextTaskState outcome \<noteq> '''' then c1\<lparr>c_State := NextTaskState outcome\<rparr> else c1)
               in bindS (store_call (ts_UpdatePluginState env (c_TaskID c2) (NextPluginState outcome))) (\<lambda>_.
                    if NextTaskState outcome \<noteq> ''''
                    then store_call (ts_UpdateStatus env (c_TaskID c2) (NextTaskState outcome))
                    else returnS ()) (c2, snd s)))"

definition WriteToLocalStore :: "TaskEnv \<Rightarrow> string \<Rightarrow> gval \<Rightarrow> ('p, unit) cop" where
  "WriteToLocalStore env key v s =
     (case lm_SetState env key v (c_localState (fst s), snd s) of
        (r, (m', w')) \<Rightarrow> (r, ((fst s)\<lparr>c_localState := m'\<rparr>, w')))"

definition ReadFromLocalStore :: "string \<Rightarrow> 'p Container \<Rightarrow> gval" where
  "ReadFromLocalStore key c = lm_GetState key (c_localState c)"

definition ReadFromGlobalStore :: "string \<Rightarrow> 'p Container \<Rightarrow> any option" where
  "ReadFromGlobalStore key c = map_get (c_globalState c) key"

text \<open>
  \<open>Start\<close> and \<open>Execute\<close> run the plugin's operation, a parameter here; a nil response is \<open>None\<close>.
  The response a plugin returns beside an error is dropped with it: \<open>taskManager\<close> does so.
\<close>

definition with_new_state :: "('p, ExecutionResponse option) cop \<Rightarrow> ('p, ExecutionResponse) cop" where
  "with_new_state run =
     bindS (getC GetPluginState) (\<lambda>prev.
     bindS run (\<lambda>resp.
     bindS (getC (\<lambda>c. (c_State c, c_pluginState c))) (\<lambda>(state, pluginState).
       let resp' = (case resp of None \<Rightarrow> emptyResponse | Some x \<Rightarrow> x)
       in returnS (if pluginState \<noteq> prev
                   then resp'\<lparr>xr_NewState := Some state, xr_ExtendedState := Some pluginState\<rparr> else resp'))))"

definition container_Start :: "('p, ExecutionResponse option) cop \<Rightarrow> ('p, ExecutionResponse) cop" where
  "container_Start start = with_new_state start"

definition container_Execute ::
    "(ExecutionRequest option \<Rightarrow> ('p, ExecutionResponse option) cop) \<Rightarrow> ExecutionRequest option \<Rightarrow> ('p, ExecutionResponse) cop" where
  "container_Execute execute request = with_new_state (execute request)"

definition NewContainer ::
    "TaskEnv \<Rightarrow> string \<Rightarrow> string \<Rightarrow> string \<Rightarrow> State \<Rightarrow> obj \<Rightarrow> LocalStateManager \<Rightarrow> bool \<Rightarrow> 'p \<Rightarrow> PluginFSM option \<Rightarrow> 'p Container wop" where
  "NewContainer env taskId workflowId workflowNodeTemplateId initialState globalStore localStore taskStore executable fsm w =
     (let c = \<lparr>c_TaskID = taskId, c_WorkflowID = workflowId, c_WorkflowNodeTemplateID = workflowNodeTemplateId,
               c_State = initialState, c_Executable = executable, c_globalState = globalStore, c_localState = localStore,
               c_taskStore = taskStore, c_pluginState = '''', c_fsm = fsm\<rparr>
      in if taskStore then
           (case ts_GetPluginState env taskId w of
              (Ok pluginState, w') \<Rightarrow> (Ok (c\<lparr>c_pluginState := pluginState\<rparr>), w')
            | (Err e, w') \<Rightarrow> (Ok c, w')
            | (Panic, w') \<Rightarrow> (Panic, w'))
         else (Ok c, w))"

section \<open>What a task may change\<close>

definition same_identity :: "'p Container \<Rightarrow> 'p Container \<Rightarrow> bool" where
  "same_identity c c' \<longleftrightarrow> c_TaskID c' = c_TaskID c \<and> c_WorkflowID c' = c_WorkflowID c
     \<and> c_WorkflowNodeTemplateID c' = c_WorkflowNodeTemplateID c \<and> c_globalState c' = c_globalState c
     \<and> c_fsm c' = c_fsm c \<and> c_taskStore c' = c_taskStore c \<and> lm_taskID (c_localState c') = lm_taskID (c_localState c)"

definition fsm_path :: "PluginFSM option \<Rightarrow> string \<times> State \<Rightarrow> string \<times> State \<Rightarrow> bool" where
  "fsm_path fsm a b \<longleftrightarrow> (case fsm of None \<Rightarrow> b = a | Some f \<Rightarrow> \<exists>acts. fsm_run f acts a = Ok b)"

definition states_of :: "'p Container \<Rightarrow> string \<times> State" where
  "states_of c = (c_pluginState c, c_State c)"

text \<open>A row without the three columns a running task writes.\<close>

definition row_frame :: "TaskInfo \<Rightarrow> TaskInfo" where
  "row_frame t = t\<lparr>ti_State := '''', ti_PluginState := '''', ti_LocalState := None\<rparr>"

definition other_rows :: "string \<Rightarrow> TaskWorld \<Rightarrow> TaskInfo list" where
  "other_rows i w = filter (\<lambda>t. ti_ID t \<noteq> i) (w_tasks w)"

definition evolves :: "'p Container \<times> TaskWorld \<Rightarrow> 'p Container \<times> TaskWorld \<Rightarrow> bool" where
  "evolves s s' \<longleftrightarrow> same_identity (fst s) (fst s')
     \<and> fsm_path (c_fsm (fst s)) (states_of (fst s)) (states_of (fst s'))
     \<and> w_forms (snd s') = w_forms (snd s)
     \<and> (lm_taskID (c_localState (fst s)) = c_TaskID (fst s) \<longrightarrow>
          other_rows (c_TaskID (fst s)) (snd s') = other_rows (c_TaskID (fst s)) (snd s)
          \<and> map row_frame (w_tasks (snd s')) = map row_frame (w_tasks (snd s)))"

text \<open>The row of the task holds the states of the container.\<close>

definition synced :: "'p Container \<times> TaskWorld \<Rightarrow> bool" where
  "synced s \<longleftrightarrow> (c_taskStore (fst s) \<longrightarrow> (\<forall>t \<in> set (w_tasks (snd s)). ti_ID t = c_TaskID (fst s) \<longrightarrow> (ti_PluginState t, ti_State t) = states_of (fst s)))"

definition no_faults :: "TaskEnv \<Rightarrow> bool" where
  "no_faults env \<longleftrightarrow> (\<forall>n. te_fault env n = None)"

text \<open>The row is in sync after an operation that succeeds, and after any one when the database answers.\<close>

definition conforms :: "TaskEnv \<Rightarrow> ('p, 'a) cop \<Rightarrow> bool" where
  "conforms env m \<longleftrightarrow> (\<forall>s r s'. m s = (r, s') \<longrightarrow> evolves s s' \<and> (is_ok r \<or> no_faults env \<longrightarrow> synced s \<longrightarrow> synced s'))"

text \<open>Quiet: the states stay, and the row is in sync afterwards even when the operation fails.\<close>

definition quiet :: "('p, 'a) cop \<Rightarrow> bool" where
  "quiet m \<longleftrightarrow> (\<forall>s r s'. m s = (r, s') \<longrightarrow>
     evolves s s' \<and> (synced s \<longrightarrow> synced s') \<and> states_of (fst s') = states_of (fst s))"

locale plugin_contract =
  fixes env :: TaskEnv
    and start :: "('p, ExecutionResponse option) cop"
    and render :: "('p, ApiResponse) cop"
    and execute :: "ExecutionRequest option \<Rightarrow> ('p, ExecutionResponse option) cop"
  assumes start: "conforms env start"
    and render: "conforms env render"
    and execute: "conforms env (execute request)"

named_theorems conf \<open>operations that keep to the contract\<close>

lemma fsm_path_refl: "fsm_path fsm a a"
  unfolding fsm_path_def by (auto split: option.splits intro: exI [of _ "[]"] simp: fsm_run_def)

lemma fsm_path_trans: "fsm_path fsm a b \<Longrightarrow> fsm_path fsm b c \<Longrightarrow> fsm_path fsm a c"
proof (cases fsm)
  case (Some f)
  assume "fsm_path fsm a b" "fsm_path fsm b c"
  then obtain xs ys where "fsm_run f xs a = Ok b" "fsm_run f ys b = Ok c" by (auto simp: fsm_path_def Some)
  then have "fsm_run f (xs @ ys) a = Ok c" by (simp add: fsm_run_def foldM_append)
  then show ?thesis by (auto simp: fsm_path_def Some)
qed (simp add: fsm_path_def)

lemma evolves_refl: "evolves s s"
  by (simp add: evolves_def same_identity_def fsm_path_refl)

lemma evolves_trans: "evolves a b \<Longrightarrow> evolves b c \<Longrightarrow> evolves a c"
  unfolding evolves_def same_identity_def by (auto intro: fsm_path_trans)

lemma quiet_conforms: "quiet m \<Longrightarrow> conforms env m"
  by (auto simp: quiet_def conforms_def)

lemma conforms_bindS [conf]:
  assumes "conforms env m" and "\<And>v. conforms env (f v)"
  shows "conforms env (bindS m f)"
  unfolding conforms_def
proof (intro allI impI)
  fix s r s'
  assume run: "bindS m f s = (r, s')"
  obtain r1 s1 where m: "m s = (r1, s1)" by (cases "m s")
  have e1: "evolves s s1" "is_ok r1 \<or> no_faults env \<Longrightarrow> synced s \<Longrightarrow> synced s1" using assms(1) m unfolding conforms_def by blast+
  show "evolves s s' \<and> (is_ok r \<or> no_faults env \<longrightarrow> synced s \<longrightarrow> synced s')"
  proof (cases r1)
    case (Ok v)
    then have "f v s1 = (r, s')" using run m by (simp add: bindS_def)
    then have "evolves s1 s'" "is_ok r \<or> no_faults env \<Longrightarrow> synced s1 \<Longrightarrow> synced s'" using assms(2) unfolding conforms_def by blast+
    with e1 Ok show ?thesis by (auto intro: evolves_trans)
  next
    case (Err e)
    then show ?thesis using run m e1 by (auto simp: bindS_def)
  next
    case Panic
    then show ?thesis using run m e1 by (auto simp: bindS_def)
  qed
qed

lemma quiet_bindS [conf]:
  assumes "quiet m" and "\<And>v. quiet (f v)"
  shows "quiet (bindS m f)"
  unfolding quiet_def
proof (intro allI impI)
  fix s r s'
  assume run: "bindS m f s = (r, s')"
  obtain r1 s1 where m: "m s = (r1, s1)" by (cases "m s")
  have e1: "evolves s s1" "synced s \<Longrightarrow> synced s1" "states_of (fst s1) = states_of (fst s)" using assms(1) m unfolding quiet_def by blast+
  show "evolves s s' \<and> (synced s \<longrightarrow> synced s') \<and> states_of (fst s') = states_of (fst s)"
  proof (cases r1)
    case (Ok v)
    then have "f v s1 = (r, s')" using run m by (simp add: bindS_def)
    then have "evolves s1 s'" "synced s1 \<Longrightarrow> synced s'" "states_of (fst s') = states_of (fst s1)" using assms(2) unfolding quiet_def by blast+
    with e1 Ok show ?thesis by (auto intro: evolves_trans)
  next
    case (Err e)
    then show ?thesis using run m e1 by (auto simp: bindS_def)
  next
    case Panic
    then show ?thesis using run m e1 by (auto simp: bindS_def)
  qed
qed

lemma conforms_pure [conf]: "conforms env (returnS v)" "conforms env (failS e)" "conforms env (liftS r)" "conforms env (getC g)"
  by (simp_all add: conforms_def returnS_def failS_def liftS_def getC_def evolves_refl)

lemma quiet_pure [conf]: "quiet (returnS v)" "quiet (failS e)" "quiet (liftS r)" "quiet (getC g)"
  by (simp_all add: quiet_def returnS_def failS_def liftS_def getC_def evolves_refl)

lemma conforms_wrapS [conf]: "conforms env m \<Longrightarrow> conforms env (wrapS fmt args m)"
  unfolding conforms_def wrapS_def by (auto split: prod.splits simp: is_ok_iff)

lemma quiet_wrapS [conf]: "quiet m \<Longrightarrow> quiet (wrapS fmt args m)"
  unfolding quiet_def wrapS_def by (auto split: prod.splits)

lemma quiet_attemptS [conf]: "quiet m \<Longrightarrow> quiet (attemptS m)"
  unfolding quiet_def attemptS_def by (auto split: prod.splits res.splits)

lemma conforms_attemptS [conf]: "quiet m \<Longrightarrow> conforms env (attemptS m)"
  by (rule quiet_conforms [OF quiet_attemptS])

lemma conforms_if [conf]: "conforms env m \<Longrightarrow> conforms env n \<Longrightarrow> conforms env (if b then m else n)"
  by simp

lemma quiet_if [conf]: "quiet m \<Longrightarrow> quiet n \<Longrightarrow> quiet (if b then m else n)"
  by simp

lemma conforms_option [conf]: "conforms env m \<Longrightarrow> (\<And>v. conforms env (f v)) \<Longrightarrow> conforms env (case ov of None \<Rightarrow> m | Some v \<Rightarrow> f v)"
  by (cases ov) simp_all

lemma quiet_option [conf]: "quiet m \<Longrightarrow> (\<And>v. quiet (f v)) \<Longrightarrow> quiet (case ov of None \<Rightarrow> m | Some v \<Rightarrow> f v)"
  by (cases ov) simp_all

lemma conforms_res [conf]:
  "(\<And>v. conforms env (f v)) \<Longrightarrow> (\<And>e. conforms env (g e)) \<Longrightarrow> conforms env h \<Longrightarrow> conforms env (case x of Ok v \<Rightarrow> f v | Err e \<Rightarrow> g e | Panic \<Rightarrow> h)"
  by (cases x) simp_all

lemma conforms_prod [conf]: "(\<And>a b. conforms env (f a b)) \<Longrightarrow> conforms env (case p of (a, b) \<Rightarrow> f a b)"
  by (cases p) simp

text \<open>Operations of the world that leave the tables of tasks and forms alone.\<close>

definition world_quiet :: "'a wop \<Rightarrow> bool" where
  "world_quiet m \<longleftrightarrow> (\<forall>w r w'. m w = (r, w') \<longrightarrow> w_tasks w' = w_tasks w \<and> w_forms w' = w_forms w)"

lemma quiet_on_world [conf]: "world_quiet m \<Longrightarrow> quiet (on_world m)"
  unfolding quiet_def world_quiet_def on_world_def
  by (auto simp: evolves_def same_identity_def fsm_path_refl other_rows_def synced_def split: prod.splits)

lemma conforms_on_world [conf]: "world_quiet m \<Longrightarrow> conforms env (on_world m)"
  by (rule quiet_conforms [OF quiet_on_world])

lemma world_quiet_basic [conf]: "world_quiet (time_now env)" "world_quiet (new_uuid env)" "world_quiet (remote_call env c)"
  by (simp_all add: world_quiet_def time_now_def new_uuid_def remote_call_def)

lemma world_quiet_pure [conf]: "world_quiet (returnS v)" "world_quiet (failS e)" "world_quiet (liftS r)"
  by (simp_all add: world_quiet_def returnS_def failS_def liftS_def)

lemma world_quiet_bindS [conf]: "world_quiet m \<Longrightarrow> (\<And>v. world_quiet (f v)) \<Longrightarrow> world_quiet (bindS m f)"
  unfolding world_quiet_def bindS_def by (fastforce split: prod.splits res.splits)

lemma world_quiet_wrapS [conf]: "world_quiet m \<Longrightarrow> world_quiet (wrapS fmt args m)"
  unfolding world_quiet_def wrapS_def by (auto split: prod.splits)

lemma world_quiet_db [conf]: "world_quiet stmt \<Longrightarrow> world_quiet (task_db env stmt)"
  unfolding world_quiet_def using task_db_cases [of env stmt] by fastforce

lemma world_quiet_form [conf]: "world_quiet (GetFormByID env i)"
proof -
  have "world_quiet (task_db env (\<lambda>w. (db_first (\<lambda>f. fm_ID f = i \<and> fm_Active f) (w_forms w), w)))"
    by (rule world_quiet_db) (simp add: world_quiet_def)
  then show ?thesis
    unfolding GetFormByID_def world_quiet_def failS_def by (auto split: prod.splits res.splits if_splits)
qed

lemma quiet_set_plugin [conf]: "quiet (set_plugin f)" "conforms env (set_plugin f)"
proof -
  show "quiet (set_plugin f)"
    by (auto simp: quiet_def set_plugin_def evolves_def same_identity_def fsm_path_refl states_of_def synced_def)
  then show "conforms env (set_plugin f)" by (rule quiet_conforms)
qed

section \<open>Writes of the container\<close>

text \<open>An update of the three columns of the task's own row.\<close>

definition own_update :: "(TaskInfo \<Rightarrow> TaskInfo) \<Rightarrow> bool" where
  "own_update f \<longleftrightarrow> (\<forall>t. ti_ID (f t) = ti_ID t \<and> row_frame (f t) = row_frame t)"

lemma own_updates: "own_update (ti_LocalState_update g)" "own_update (ti_State_update h)" "own_update (ti_PluginState_update h)"
  by (simp_all add: own_update_def row_frame_def)

lemma own_update_rows:
  assumes "own_update f"
  shows "filter (\<lambda>t. ti_ID t \<noteq> i) (update_where (\<lambda>t. ti_ID t = i) f ts) = filter (\<lambda>t. ti_ID t \<noteq> i) ts"
    and "map row_frame (update_where (\<lambda>t. ti_ID t = i) f ts) = map row_frame ts"
proof -
  show "filter (\<lambda>t. ti_ID t \<noteq> i) (update_where (\<lambda>t. ti_ID t = i) f ts) = filter (\<lambda>t. ti_ID t \<noteq> i) ts"
    using assms by (induction ts) (auto simp: update_where_def own_update_def)
  show "map row_frame (update_where (\<lambda>t. ti_ID t = i) f ts) = map row_frame ts"
    by (rule update_where_map_same) (use assms in \<open>simp add: own_update_def\<close>)
qed

lemma quiet_WriteToLocalStore [conf]: "quiet (WriteToLocalStore env key v)"
  unfolding quiet_def
proof (intro allI impI)
  fix s r s'
  assume run: "WriteToLocalStore env key v s = (r, s')"
  obtain c w where s: "s = (c, w)" by (cases s)
  obtain r' m' w' where st: "lm_SetState env key v (c_localState c, w) = (r', (m', w'))"
    by (cases "lm_SetState env key v (c_localState c, w)") auto
  have s': "s' = (c\<lparr>c_localState := m'\<rparr>, w')" using run by (simp add: WriteToLocalStore_def s st)
  have ids: "lm_taskID m' = lm_taskID (c_localState c)"
    and rows: "w_tasks w' = w_tasks w \<or> (\<exists>l. w_tasks w' = update_where (\<lambda>t. ti_ID t = lm_taskID (c_localState c)) (ti_LocalState_update l) (w_tasks w))"
    and forms: "w_forms w' = w_forms w"
  proof -
    consider "lm_cache (c_localState c) = None" | cc where "lm_cache (c_localState c) = Some cc" by blast
    then have "lm_taskID m' = lm_taskID (c_localState c)
      \<and> (w_tasks w' = w_tasks w \<or> (\<exists>l. w_tasks w' = update_where (\<lambda>t. ti_ID t = lm_taskID (c_localState c)) (ti_LocalState_update l) (w_tasks w)))
      \<and> w_forms w' = w_forms w"
    proof cases
      case 1
      then show ?thesis using st by (simp add: lm_SetState_def)
    next
      case 2
      note sr = SetState_result [OF 2 st]
      from persist_cases [OF sr(2)] show ?thesis by (auto simp: sr(1) intro: exI)
    qed
    then show "lm_taskID m' = lm_taskID (c_localState c)"
      "w_tasks w' = w_tasks w \<or> (\<exists>l. w_tasks w' = update_where (\<lambda>t. ti_ID t = lm_taskID (c_localState c)) (ti_LocalState_update l) (w_tasks w))"
      "w_forms w' = w_forms w" by blast+
  qed
  have "evolves s s'"
    using ids rows forms own_update_rows [OF own_updates(1)]
    by (auto simp: s s' evolves_def same_identity_def fsm_path_refl states_of_def other_rows_def)
  moreover have "synced s \<Longrightarrow> synced s'"
    using rows by (auto simp: s s' synced_def states_of_def update_where_def)
  moreover have "states_of (fst s') = states_of (fst s)" by (simp add: s s' states_of_def)
  ultimately show "evolves s s' \<and> (synced s \<longrightarrow> synced s') \<and> states_of (fst s') = states_of (fst s)" by blast
qed

lemma conforms_WriteToLocalStore [conf]: "conforms env (WriteToLocalStore env key v)"
  by (rule quiet_conforms [OF quiet_WriteToLocalStore])

lemma store_call_cases:
  assumes "store_call (task_update env i f) s = (r, s')" and "own_update f" and "i = c_TaskID (fst s)"
  shows "evolves s s'" and "fst s' = fst s"
    and "is_ok r \<Longrightarrow> w_tasks (snd s') = update_where (\<lambda>t. ti_ID t = i) f (w_tasks (snd s)) \<and> c_taskStore (fst s)"
proof -
  obtain c w where s: "s = (c, w)" by (cases s)
  have "evolves s s' \<and> fst s' = fst s \<and> (is_ok r \<longrightarrow>
      w_tasks (snd s') = update_where (\<lambda>t. ti_ID t = i) f (w_tasks (snd s)) \<and> c_taskStore (fst s))"
  proof (cases "c_taskStore c")
    case False
    then show ?thesis using assms(1) s by (simp add: store_call_def evolves_refl)
  next
    case True
    then obtain w' where w': "task_update env i f w = (r, w')" "s' = (c, w')"
      using assms(1) s by (auto simp: store_call_def on_world_def split: prod.splits)
    from task_update_cases [OF w'(1)] show ?thesis
      using True own_update_rows [OF assms(2)] assms(3)
      by (auto simp: s w'(2) evolves_def same_identity_def fsm_path_refl other_rows_def)
  qed
  then show "evolves s s'" "fst s' = fst s"
    "is_ok r \<Longrightarrow> w_tasks (snd s') = update_where (\<lambda>t. ti_ID t = i) f (w_tasks (snd s)) \<and> c_taskStore (fst s)" by blast+
qed

text \<open>The memory part of a transition, and its writes.\<close>

definition moved :: "TransitionOutcome \<Rightarrow> 'p Container \<Rightarrow> 'p Container" where
  "moved out c = c\<lparr>c_pluginState := NextPluginState out,
     c_State := if NextTaskState out \<noteq> '''' then NextTaskState out else c_State c\<rparr>"

lemma states_of_moved [simp]: "states_of (moved out c) = apply_outcome out (states_of c)"
  by (simp add: states_of_def moved_def apply_outcome_def)

lemma moved_selectors [simp]:
  "c_TaskID (moved out c) = c_TaskID c" "c_fsm (moved out c) = c_fsm c" "c_taskStore (moved out c) = c_taskStore c"
  "c_localState (moved out c) = c_localState c" "c_Executable (moved out c) = c_Executable c"
  "same_identity c (moved out c)"
  by (simp_all add: moved_def same_identity_def)

lemma store_call_works:
  "no_faults env \<Longrightarrow> c_taskStore (fst s) \<Longrightarrow> is_ok (fst (store_call (task_update env i f) s))"
  by (simp add: no_faults_def store_call_def on_world_def task_update_def task_db_def Let_def)

lemma Transition_moves:
  assumes "c_fsm c = Some fsm" and "Transition fsm (c_pluginState c) action = Ok out"
    and "container_Transition env action (c, w) = (r, s')"
  shows "evolves (moved out c, w) s'" and "fst s' = moved out c"
    and "is_ok r \<or> no_faults env \<Longrightarrow> synced (c, w) \<Longrightarrow> synced s'"
proof -
  let ?c = "moved out c"
  have c2: "(if NextTaskState out \<noteq> '''' then c\<lparr>c_pluginState := NextPluginState out, c_State := NextTaskState out\<rparr>
      else c\<lparr>c_pluginState := NextPluginState out\<rparr>) = ?c" by (simp add: moved_def)
  have run: "bindS (store_call (ts_UpdatePluginState env (c_TaskID c) (NextPluginState out))) (\<lambda>_.
      if NextTaskState out \<noteq> '''' then store_call (ts_UpdateStatus env (c_TaskID c) (NextTaskState out)) else returnS ()) (?c, w) = (r, s')"
    using assms by (simp only: container_Transition_def GetPluginState_def Let_def c2 fst_conv snd_conv option.case res.case
        moved_selectors)
  obtain r1 s1 where st1: "store_call (ts_UpdatePluginState env (c_TaskID c) (NextPluginState out)) (?c, w) = (r1, s1)"
    by (cases "store_call (ts_UpdatePluginState env (c_TaskID c) (NextPluginState out)) (?c, w)")
  note u1 = store_call_cases [OF st1 [unfolded ts_UpdatePluginState_def] own_updates(3), simplified]
  have main: "evolves (?c, w) s' \<and> fst s' = ?c \<and> (is_ok r \<longrightarrow> synced (c, w) \<longrightarrow> synced s')"
  proof (cases "is_ok r1")
    case False
    then have "\<not> is_ok r" "s' = s1" using run st1 by (cases r1; auto simp: bindS_def)+
    then show ?thesis using u1 by simp
  next
    case True
    then have run2: "(if NextTaskState out \<noteq> '''' then store_call (ts_UpdateStatus env (c_TaskID c) (NextTaskState out)) else returnS ()) s1 = (r, s')"
      using run st1 by (cases r1) (simp_all add: bindS_def)
    have rows1: "w_tasks (snd s1) = update_where (\<lambda>t. ti_ID t = c_TaskID c) (ti_PluginState_update (\<lambda>_. NextPluginState out)) (w_tasks w)"
      using u1(3) True by blast
    show ?thesis
    proof (cases "NextTaskState out = ''''")
      case True
      then have "r = Ok ()" "s' = s1" using run2 by (simp_all add: returnS_def)
      moreover have "synced (c, w) \<longrightarrow> synced s1"
        using rows1 u1(2) True by (auto simp: synced_def states_of_def update_where_def moved_def)
      ultimately show ?thesis using u1 by simp
    next
      case False
      then have st2: "store_call (ts_UpdateStatus env (c_TaskID c) (NextTaskState out)) s1 = (r, s')" using run2 by simp
      note u2 = store_call_cases [OF st2 [unfolded ts_UpdateStatus_def] own_updates(2), unfolded u1(2), simplified]
      have "synced s'" if "is_ok r"
        using rows1 u2(3) [OF that] u2(2) False by (auto simp: synced_def states_of_def update_where_def moved_def)
      then show ?thesis using u1(1) u2(1,2) by (auto intro: evolves_trans)
    qed
  qed
  moreover have "is_ok r" if "no_faults env" "c_taskStore c"
  proof -
    have "is_ok r1" using store_call_works [OF that(1), of "(?c, w)"] that(2) st1 unfolding ts_UpdatePluginState_def by (metis fst_conv moved_selectors(3))
    then have "(if NextTaskState out \<noteq> '''' then store_call (ts_UpdateStatus env (c_TaskID c) (NextTaskState out)) else returnS ()) s1 = (r, s')"
      using run st1 by (cases r1) (simp_all add: bindS_def)
    moreover have "c_taskStore (fst s1)" using u1(2) that(2) by simp
    ultimately show "is_ok r"
      using store_call_works [OF that(1), of s1 "c_TaskID c" "ti_State_update (\<lambda>_. NextTaskState out)"]
      by (cases "NextTaskState out = []") (auto simp: returnS_def ts_UpdateStatus_def)
  qed
  moreover have "synced s'" if "\<not> c_taskStore c" using main that by (simp add: synced_def)
  ultimately show "evolves (moved out c, w) s'" "fst s' = moved out c"
    "is_ok r \<or> no_faults env \<Longrightarrow> synced (c, w) \<Longrightarrow> synced s'" by blast+
qed

lemma Transition_refused:
  assumes "c_fsm c = Some fsm" and "\<not> CanTransition fsm (c_pluginState c) action"
  shows "\<exists>e. container_Transition env action (c, w) = (Err e, (c, w))"
  using assms by (auto simp: container_Transition_def GetPluginState_def Transition_def CanTransition_def)

lemma Transition_cases:
  assumes "container_Transition env action (c, w) = (r, s')"
  obtains "c_fsm c = None" "r = Ok ()" "s' = (c, w)"
  | fsm where "c_fsm c = Some fsm" "\<not> CanTransition fsm (c_pluginState c) action" "is_err r" "s' = (c, w)"
  | fsm out where "c_fsm c = Some fsm" "Transition fsm (c_pluginState c) action = Ok out"
      "evolves (moved out c, w) s'" "fst s' = moved out c" "is_ok r \<or> no_faults env \<Longrightarrow> synced (c, w) \<Longrightarrow> synced s'"
proof (cases "c_fsm c")
  case None
  then show ?thesis using assms that(1) by (simp add: container_Transition_def)
next
  case (Some fsm)
  show ?thesis
  proof (cases "CanTransition fsm (c_pluginState c) action")
    case False
    obtain e where "container_Transition env action (c, w) = (Err e, (c, w))" using Transition_refused [OF Some False] by blast
    then show ?thesis using that(2) [OF Some False] assms by simp
  next
    case True
    then obtain out where out: "Transition fsm (c_pluginState c) action = Ok out"
      by (auto simp: CanTransition_iff_ok is_ok_iff)
    show ?thesis using that(3) [OF Some out] Transition_moves [OF Some out assms] by blast
  qed
qed

lemma evolves_moved:
  assumes "c_fsm c = Some fsm" and "Transition fsm (c_pluginState c) action = Ok out"
  shows "evolves (c, w) (moved out c, w)"
proof -
  have "fsm_run fsm [action] (states_of c) = Ok (apply_outcome out (states_of c))"
    using assms(2) by (simp add: fsm_run_def fsm_step_def states_of_def)
  then have "fsm_path (Some fsm) (states_of c) (states_of (moved out c))"
    unfolding fsm_path_def states_of_moved by auto
  then show ?thesis by (simp add: evolves_def assms(1))
qed

lemma conforms_Transition [conf]: "conforms env (container_Transition env action)"
  unfolding conforms_def
proof (intro allI impI)
  fix s r s'
  assume run: "container_Transition env action s = (r, s')"
  obtain c w where s: "s = (c, w)" by (cases s)
  from run [unfolded s] show "evolves s s' \<and> (is_ok r \<or> no_faults env \<longrightarrow> synced s \<longrightarrow> synced s')"
  proof (cases rule: Transition_cases)
    case (3 fsm out)
    from evolves_trans [OF evolves_moved [OF 3(1,2)] 3(3)] 3(5) show ?thesis by (simp add: s)
  qed (auto simp: s evolves_refl is_ok_iff is_err_iff)
qed

lemma conforms_with_new_state [conf]: "conforms env run \<Longrightarrow> conforms env (with_new_state run)"
  unfolding with_new_state_def Let_def by (intro conf)

lemma with_new_state_result:
  assumes "with_new_state run s = (r, s')"
  shows "(is_ok r \<longrightarrow> (\<exists>x. run s = (Ok x, s'))) \<and> (\<forall>resp. r = Ok resp \<longrightarrow> c_pluginState (fst s') \<noteq> c_pluginState (fst s) \<longrightarrow>
     xr_NewState resp = Some (c_State (fst s')) \<and> xr_ExtendedState resp = Some (c_pluginState (fst s')))"
proof -
  obtain r1 s1 where run: "run s = (r1, s1)" by (cases "run s")
  show ?thesis
    using assms run
    by (cases r1) (auto simp: with_new_state_def bindS_def getC_def returnS_def GetPluginState_def Let_def)
qed

section \<open>What the plugins share\<close>

definition the_plugin :: "('p, 'p) cop" where
  "the_plugin = getC c_Executable"

definition raw_json :: "any option \<Rightarrow> any" where
  "raw_json raw = (case raw of None \<Rightarrow> JNull | Some v \<Rightarrow> v)"

definition ok_response :: ApiResponse where
  "ok_response = \<lparr>ar_Success = True, ar_Data = JNull, ar_Error = None\<rparr>"

definition error_response :: "string \<Rightarrow> string \<Rightarrow> ApiResponse" where
  "error_response code message =
     \<lparr>ar_Success = False, ar_Data = JNull, ar_Error = Some \<lparr>ae_Code = code, ae_Message = message, ae_Details = JNull\<rparr>\<rparr>"

text \<open>\<open>GetRenderInfoResponse\<close> as it is sent.\<close>

definition render_response :: "TaskType \<Rightarrow> string \<Rightarrow> State \<Rightarrow> any \<Rightarrow> ApiResponse" where
  "render_response ty pluginState state content =
     \<lparr>ar_Success = True,
      ar_Data = JObj [(''type'', JStr ty), (''pluginState'', JStr pluginState), (''state'', JStr state), (''content'', content)],
      ar_Error = None\<rparr>"

lemma the_plugin_conf [conf]: "quiet the_plugin" "conforms env the_plugin"
  unfolding the_plugin_def by (intro conf)+

lemma quiet_res [conf]:
  "(\<And>v. quiet (f v)) \<Longrightarrow> (\<And>e. quiet (g e)) \<Longrightarrow> quiet h \<Longrightarrow> quiet (case x of Ok v \<Rightarrow> f v | Err e \<Rightarrow> g e | Panic \<Rightarrow> h)"
  by (cases x) simp_all

lemma quiet_prod [conf]: "(\<And>a b. quiet (f a b)) \<Longrightarrow> quiet (case p of (a, b) \<Rightarrow> f a b)"
  by (cases p) simp

lemma quiet_let [conf]: "quiet (f v) \<Longrightarrow> quiet (let x = v in f x)" "conforms env (g v) \<Longrightarrow> conforms env (let x = v in g x)"
  by simp_all

text \<open>An error that is returned anyway hides a failed transition.\<close>

lemma conforms_then_fail [conf]:
  assumes "conforms env m"
  shows "conforms env (bindS (attemptS m) (\<lambda>_. failS e))"
  unfolding conforms_def
proof (intro allI impI)
  fix s r s'
  assume run: "bindS (attemptS m) (\<lambda>_. failS e) s = (r, s')"
  obtain r1 s1 where m: "m s = (r1, s1)" by (cases "m s")
  have "evolves s s1" "no_faults env \<Longrightarrow> synced s \<Longrightarrow> synced s1" using assms m unfolding conforms_def by blast+
  moreover have "s' = s1 \<and> \<not> is_ok r" using run m by (cases r1) (auto simp: bindS_def attemptS_def failS_def)
  ultimately show "evolves s s' \<and> (is_ok r \<or> no_faults env \<longrightarrow> synced s \<longrightarrow> synced s')" by simp
qed

definition attachFormDisplay :: "TaskEnv \<Rightarrow> string \<Rightarrow> string \<Rightarrow> string \<Rightarrow> obj \<Rightarrow> ('p, obj) cop" where
  "attachFormDisplay env storeKey formID contentKey content =
     (if formID = '''' then returnS content
      else bindS (getC (ReadFromLocalStore storeKey)) (\<lambda>data.
             if data = GJson JNull then returnS content
             else bindS (attemptS (on_world (GetFormByID env formID))) (\<lambda>res.
                    case res of
                      Ok def \<Rightarrow> returnS (map_put contentKey
                        (JObj [(''title'', JStr (fr_Name def)), (''uiSchema'', raw_json (fr_UISchema def)),
                               (''schema'', raw_json (fr_Schema def)), (''formData'', to_json env data)]) content)
                    | _ \<Rightarrow> returnS content)))"

lemma attach_conf [conf]: "quiet (attachFormDisplay env a b c' d)"
  unfolding attachFormDisplay_def by (intro conf)

lemma quietD: "quiet m \<Longrightarrow> m s = (r, s') \<Longrightarrow> evolves s s' \<and> (synced s \<longrightarrow> synced s') \<and> states_of (fst s') = states_of (fst s)"
  unfolding quiet_def by blast

lemma quiet_fsm: "quiet m \<Longrightarrow> m s = (r, s') \<Longrightarrow> c_fsm (fst s') = c_fsm (fst s) \<and> c_pluginState (fst s') = c_pluginState (fst s)
    \<and> c_State (fst s') = c_State (fst s) \<and> c_taskStore (fst s') = c_taskStore (fst s)"
  using quietD [of m s r s'] by (auto simp: evolves_def same_identity_def states_of_def)

lemma Transition_no_panic:
  assumes "c_taskStore c" and "container_Transition env action (c, w) = (r, s')"
  shows "r \<noteq> Panic"
proof -
  have st: "fst (store_call (task_update env i f) s) \<noteq> Panic" if "c_taskStore (fst s)" for i f and s :: "'a Container \<times> TaskWorld"
    using that by (auto simp: store_call_def on_world_def task_update_def task_db_def Let_def split: prod.splits option.splits)
  have keep: "fst (snd (store_call m s)) = fst s" for m and s :: "'a Container \<times> TaskWorld"
    by (simp add: store_call_def on_world_def split: prod.splits)
  from assms show ?thesis
  proof (cases "c_fsm c")
    case (Some fsm)
    show ?thesis
    proof (cases "Transition fsm (c_pluginState c) action")
      case (Ok out)
      have run: "bindS (store_call (ts_UpdatePluginState env (c_TaskID c) (NextPluginState out))) (\<lambda>_.
          if NextTaskState out \<noteq> '''' then store_call (ts_UpdateStatus env (c_TaskID c) (NextTaskState out)) else returnS ())
          (moved out c, w) = (r, s')"
        using assms(2) Some Ok by (cases "NextTaskState out = ''''") (simp_all add: container_Transition_def GetPluginState_def Let_def moved_def)
      obtain r1 s1 where s1: "store_call (ts_UpdatePluginState env (c_TaskID c) (NextPluginState out)) (moved out c, w) = (r1, s1)"
        by (cases "store_call (ts_UpdatePluginState env (c_TaskID c) (NextPluginState out)) (moved out c, w)")
      have "r1 \<noteq> Panic" "c_taskStore (fst s1)"
        using st [of "(moved out c, w)"] keep [of _ "(moved out c, w)"] s1 assms(1)
        unfolding ts_UpdatePluginState_def by (metis fst_conv moved_selectors(3), metis fst_conv moved_selectors(3) snd_conv)
      then show ?thesis
        using run s1 st [of s1] unfolding ts_UpdateStatus_def
        by (cases r1; cases "NextTaskState out = ''''") (auto simp: bindS_def returnS_def dest: arg_cong [of _ _ fst])
    qed (use assms(2) Some in \<open>auto simp: container_Transition_def GetPluginState_def Transition_def split: option.splits\<close>)
  qed (use assms(2) in \<open>auto simp: container_Transition_def\<close>)
qed

context plugin_contract
begin

lemmas operations = start render execute

lemma container_start: "conforms env (container_Start start)"
  unfolding container_Start_def by (rule conforms_with_new_state [OF start])

lemma container_execute: "conforms env (container_Execute execute request)"
  unfolding container_Execute_def by (rule conforms_with_new_state [OF execute])

text \<open>A task the machine has finished never changes its states again.\<close>

lemma finished_is_final:
  assumes "container_Execute execute request s = (r, s')" and "c_fsm (fst s) = Some fsm" and "final_state fsm (c_pluginState (fst s))"
  shows "states_of (fst s') = states_of (fst s)"
proof -
  have "fsm_path (Some fsm) (states_of (fst s)) (states_of (fst s'))"
    using container_execute assms unfolding conforms_def evolves_def by fastforce
  then obtain acts where run: "fsm_run fsm acts (states_of (fst s)) = Ok (states_of (fst s'))" by (auto simp: fsm_path_def)
  show ?thesis
  proof (cases acts)
    case Nil
    then show ?thesis using run by (simp add: fsm_run_def)
  next
    case (Cons a as)
    then have "is_ok (Transition fsm (c_pluginState (fst s)) a)"
      using run by (auto simp: fsm_run_def fsm_step_def res_simps states_of_def)
    then show ?thesis using assms(3) by (simp add: final_state_iff CanTransition_iff_ok)
  qed
qed

end

section \<open>A concrete container\<close>

definition demo_container :: "'p \<Rightarrow> PluginFSM \<Rightarrow> string \<Rightarrow> State \<Rightarrow> (string, gval) gomap \<Rightarrow> 'p Container" where
  "demo_container p fsm ps st cache = \<lparr>c_TaskID = ''t1'', c_WorkflowID = ''wf'', c_WorkflowNodeTemplateID = ''tpl'', c_State = st,
     c_Executable = p, c_globalState = [], c_localState = \<lparr>lm_taskID = ''t1'', lm_cache = Some cache\<rparr>, c_taskStore = True,
     c_pluginState = ps, c_fsm = Some fsm\<rparr>"

definition demo_offline :: TaskEnv where
  "demo_offline = demo_env\<lparr>te_remote := (\<lambda>_ _. Err (External ''connection refused''))\<rparr>"

lemmas run_simps = demo_env_def demo_world_def demo_task_def demo_container_def demo_offline_def
  container_CanTransition_def GetPluginState_def container_Transition_def Transition_def CanTransition_def fsm_tables
  store_call_def on_world_def ts_UpdatePluginState_def ts_UpdateStatus_def task_update_def task_db_def update_where_def
  WriteToLocalStore_def lm_SetState_def persistToDB_def ts_UpdateLocalState_def marshal_cache_def ReadFromLocalStore_def lm_GetState_def
  bindS_def returnS_def failS_def liftS_def wrapS_def getC_def the_plugin_def set_plugin_def attemptS_def Let_def

end
