(* ===== verification/SimpleFormPlugin.thy ===== *)
theory SimpleFormPlugin
  imports TaskContainer
begin

text \<open>
  The form plugin, \<open>backend/internal/task/plugin/simple\_form.go\<close>, on the container's API: drafts,
  submission with extraction of global context values and the call of the external service,
  verification and feedback by the reviewing agency, emission of outcomes, and rendering with
  prepopulation from the global store. The configuration is filled from the form registry while
  the task runs, so it is part of the plugin's state. The remote exchange behind
  \<open>remote.Manager.Call\<close> is the environment's \<open>te_remote\<close>.
\<close>

section \<open>Configuration\<close>

record Config =
  cf_FormID :: string
  cf_Title :: string
  cf_Schema :: "any option"
  cf_UISchema :: "any option"
  cf_FormData :: "any option"
  cf_SubmissionURL :: string
  cf_Submission :: "SubmissionConfig option"
  cf_Callback :: "CallbackConfig option"
  cf_Emission :: "EmissionConfig option"
  cf_RequiresOgaVerification :: bool

record SimpleForm =
  sf_config :: Config
  sf_ServiceURL :: string      \<comment> \<open>\<open>cfg.Server.ServiceURL\<close>\<close>
  sf_formService :: bool       \<comment> \<open>the form service is not nil\<close>

type_synonym 'a sform = "(SimpleForm, 'a) cop"

definition dec_config :: "Config decoder" where
  "dec_config = dec_struct (\<lambda>m.
     bind_res (dec_field dec_string ''formId'' m) (\<lambda>f.
     bind_res (dec_field dec_string ''title'' m) (\<lambda>t.
     bind_res (dec_field dec_string ''submissionUrl'' m) (\<lambda>u.
     bind_res (dec_field (dec_ptr dec_submission) ''submission'' m) (\<lambda>s.
     bind_res (dec_field (dec_ptr dec_callback) ''callback'' m) (\<lambda>c.
     bind_res (dec_field (dec_ptr dec_emission) ''emission'' m) (\<lambda>e.
     bind_res (dec_field dec_bool ''requiresOgaVerification'' m) (\<lambda>r.
     Ok \<lparr>cf_FormID = f, cf_Title = t, cf_Schema = map_get m ''schema'', cf_UISchema = map_get m ''uiSchema'',
         cf_FormData = map_get m ''formData'', cf_SubmissionURL = u, cf_Submission = s, cf_Callback = c,
         cf_Emission = e, cf_RequiresOgaVerification = r\<rparr>))))))))"

definition NewSimpleForm :: "any option \<Rightarrow> string \<Rightarrow> bool \<Rightarrow> SimpleForm res" where
  "NewSimpleForm configJSON serviceURL formService =
     bind_res (wrap_err ''failed to unmarshal config'' [] (unmarshal dec_config configJSON)) (\<lambda>formConfig.
     Ok \<lparr>sf_config = formConfig, sf_ServiceURL = serviceURL, sf_formService = formService\<rparr>)"

section \<open>Helpers\<close>

abbreviation TasksAPIPath :: string where "TasksAPIPath \<equiv> ''/api/v1/tasks''"
abbreviation OutcomeEmitKeySimpleForm :: string where "OutcomeEmitKeySimpleForm \<equiv> ''outcome_simple_form''"
abbreviation submissionFailedErr :: string where "submissionFailedErr \<equiv> ''submissionFailedErr''"

definition submissionUrl :: "SimpleForm \<Rightarrow> string" where
  "submissionUrl s =
     (case cf_Submission (sf_config s) of
        Some sub \<Rightarrow> if sb_Url sub \<noteq> '''' then sb_Url sub else cf_SubmissionURL (sf_config s)
      | None \<Rightarrow> cf_SubmissionURL (sf_config s))"

definition requiresVerification :: "SimpleForm \<Rightarrow> bool" where
  "requiresVerification s \<longleftrightarrow> cf_RequiresOgaVerification (sf_config s) \<or> cf_Callback (sf_config s) \<noteq> None"

text \<open>Any content but an object fails: only objects and null decode into a map, and null is refused first.\<close>

definition parseFormData :: "any \<Rightarrow> obj res" where
  "parseFormData content =
     (case content of
        JNull \<Rightarrow> Err (Errorf ''content is required'' [])
      | JObj m \<Rightarrow> Ok m
      | _ \<Rightarrow> wrap_err ''failed to unmarshal content'' [] (dec_obj content))"

text \<open>The values that were found, and the paths that were not.\<close>

fun parse_mapping :: "obj \<Rightarrow> (string, string) gomap \<Rightarrow> obj \<Rightarrow> string list \<Rightarrow> obj \<times> string list" where
  "parse_mapping responseData [] parsedData missingFields = (parsedData, missingFields)"
| "parse_mapping responseData ((k, v) # mapping) parsedData missingFields =
     (case GetValueByPath responseData k of
        None \<Rightarrow> parse_mapping responseData mapping parsedData (missingFields @ [k])
      | Some value \<Rightarrow> parse_mapping responseData mapping (map_put v value parsedData) missingFields)"

definition sf_parseResponseData :: "obj \<Rightarrow> (string, string) gomap \<Rightarrow> obj \<times> go_error option" where
  "sf_parseResponseData responseData mapping =
     (case parse_mapping responseData mapping [] [] of
        (parsedData, missingFields) \<Rightarrow>
          (parsedData, if missingFields \<noteq> [] then Some (Errorf ''expected response field(s) not found'' missingFields) else None))"

definition populateFromRegistry :: "TaskEnv \<Rightarrow> unit sform" where
  "populateFromRegistry env =
     bindS the_plugin (\<lambda>s.
       if \<not> sf_formService s then failS (Errorf ''form service is required to populate form definition'' [])
       else bindS (wrapS ''failed to get form definition for formId'' [cf_FormID (sf_config s)]
                     (on_world (GetFormByID env (cf_FormID (sf_config s))))) (\<lambda>def.
            set_plugin (\<lambda>s. s\<lparr>sf_config := (sf_config s)\<lparr>cf_Title := fr_Name def, cf_Schema := fr_Schema def,
                                cf_UISchema := fr_UISchema def\<rparr>\<rparr>)))"

definition readOGAFeedbackHistory :: "TaskEnv \<Rightarrow> 'p Container \<Rightarrow> OGAFeedbackEntry list res" where
  "readOGAFeedbackHistory env c =
     (let raw = ReadFromLocalStore ''ogaFeedback'' c in
      if raw = GJson JNull then Ok []
      else wrap_err ''failed to unmarshal ogaFeedback history'' [] (dec_slice (dec_feedback env) (to_json env raw)))"

text \<open>A value of the local store as the rules see it: a nil map has no members, a struct is no map.\<close>

fun as_value :: "gval \<Rightarrow> any" where
  "as_value (GJson v) = v"
| "as_value GNilMap = JObj []"
| "as_value _ = JNull"

definition localStoreKeys :: "string list" where
  "localStoreKeys = [''trader:form'', ''submissionResponse'', ''ogaResponse'']"

definition buildLocalContext :: "'p Container \<Rightarrow> obj" where
  "buildLocalContext c =
     foldl (\<lambda>ctx key. let val = ReadFromLocalStore key c in
              if val = GJson JNull then ctx else map_put key (as_value val) ctx) [] localStoreKeys"

definition evaluateEmissions :: "SimpleForm Container \<Rightarrow> string option" where
  "evaluateEmissions c =
     (case cf_Emission (sf_config (c_Executable c)) of
        None \<Rightarrow> None
      | Some emission \<Rightarrow> Evaluate emission (buildLocalContext c))"

section \<open>Start and the actions\<close>

definition sf_Start :: "TaskEnv \<Rightarrow> ExecutionResponse option sform" where
  "sf_Start env =
     bindS (getC (container_CanTransition FSMActionStart)) (\<lambda>can.
       if \<not> can then returnS (Some (emptyResponse\<lparr>xr_Message := ''SimpleForm task already started''\<rparr>))
       else bindS the_plugin (\<lambda>s.
            bindS (if cf_FormID (sf_config s) \<noteq> '''' \<and> cf_Schema (sf_config s) = None
                   then wrapS ''failed to populate form from registry'' [] (populateFromRegistry env)
                   else returnS ()) (\<lambda>_.
            bindS (container_Transition env FSMActionStart) (\<lambda>_.
            returnS (Some (emptyResponse\<lparr>xr_Message := ''SimpleForm task started successfully''\<rparr>))))))"

definition decision_field :: "obj \<Rightarrow> string" where
  "decision_field data =
     (case map_get data ''decision'' of Some (JStr s) \<Rightarrow> s | _ \<Rightarrow> '''')"

definition resolveAction :: "SimpleForm \<Rightarrow> ExecutionRequest \<Rightarrow> string res" where
  "resolveAction s request =
     (if req_Action request = SimpleFormActionSubmit then
        Ok (if requiresVerification s then simpleFormFSMSubmitAwaitOGA else simpleFormFSMSubmitComplete)
      else if req_Action request = SimpleFormActionOgaVerify then
        bind_res (wrap_err ''invalid verification data'' [] (parseFormData (req_Content request))) (\<lambda>data.
          case cf_Callback (sf_config s) of
            Some cb \<Rightarrow>
              (case cb_Transition cb of
                 Some t \<Rightarrow> tc_Resolve t data
               | None \<Rightarrow> Ok (if to_upper (decision_field data) = ''APPROVED'' then simpleFormFSMOgaApproved
                             else simpleFormFSMOgaRejected))
          | None \<Rightarrow> Ok (if to_upper (decision_field data) = ''APPROVED'' then simpleFormFSMOgaApproved
                        else simpleFormFSMOgaRejected))
      else if req_Action request = SimpleFormActionOgaFeedback then Ok SimpleFormActionOgaFeedback
      else Ok (req_Action request))"

definition draftHandler :: "TaskEnv \<Rightarrow> any \<Rightarrow> ExecutionResponse option sform" where
  "draftHandler env content =
     bindS (WriteToLocalStore env ''trader:form'' (GJson content)) (\<lambda>_.
     returnS (Some (emptyResponse\<lparr>xr_ApiResponse := Some ok_response\<rparr>)))"

text \<open>The visitor of the submission: every typed leaf that names a global context key must be there.\<close>

definition write_visit :: "obj \<Rightarrow> obj visitor" where
  "write_visit formData path node parent pairs =
     (if sType node \<in> {''string'', ''number'', ''boolean''} then
        (case sXGlobalContext node of
           None \<Rightarrow> Ok pairs
         | Some g \<Rightarrow>
             (case WriteTo g of
                None \<Rightarrow> Ok pairs
              | Some key \<Rightarrow>
                  if trim_space key \<noteq> '''' then
                    (case GetValueByPath formData path of
                       None \<Rightarrow> Err (Errorf ''value for global context path not found in submitted form data'' [key])
                     | Some value \<Rightarrow> Ok (map_put key value pairs))
                  else Ok pairs))
      else Ok pairs)"

definition external_request :: "TaskEnv \<Rightarrow> string \<Rightarrow> string \<Rightarrow> string \<Rightarrow> string \<Rightarrow> obj \<Rightarrow> OGAFeedbackEntry list \<Rightarrow> any" where
  "external_request env taskCode taskID workflowID serviceURL data history =
     JObj ([(''taskCode'', JStr taskCode), (''taskId'', JStr taskID), (''workflowId'', JStr workflowID),
            (''serviceUrl'', JStr serviceURL), (''data'', JObj data)]
           @ (if history = [] then [] else [(''ogaFeedbackHistory'', JArr (map (enc_feedback env) history))]))"

text \<open>The decoded response is a map, or the nil map when the service answers null.\<close>

definition sendFormSubmission :: "TaskEnv \<Rightarrow> string \<Rightarrow> string \<Rightarrow> any \<Rightarrow> obj option sform" where
  "sendFormSubmission env serviceID path payload =
     bindS (on_world (remote_call env (serviceID, path, payload))) (\<lambda>body.
       case body of JObj m \<Rightarrow> returnS (Some m) | JNull \<Rightarrow> returnS None | _ \<Rightarrow> failS type_mismatch)"

definition task_code :: "SimpleForm \<Rightarrow> string" where
  "task_code s =
     (case cf_Submission (sf_config s) of
        None \<Rightarrow> ''''
      | Some sub \<Rightarrow> (case sb_Request sub of None \<Rightarrow> '''' | Some r \<Rightarrow> rq_TaskCode r))"

definition submission_service :: "SimpleForm \<Rightarrow> string" where
  "submission_service s = (case cf_Submission (sf_config s) of None \<Rightarrow> '''' | Some sub \<Rightarrow> sb_ServiceID sub)"

definition submission_mapping :: "SimpleForm \<Rightarrow> (string, string) gomap option" where
  "submission_mapping s =
     (case cf_Submission (sf_config s) of
        None \<Rightarrow> None
      | Some sub \<Rightarrow> (case sb_Response sub of None \<Rightarrow> None | Some r \<Rightarrow> rs_Mapping r))"

definition submit_response :: "obj \<Rightarrow> ExecutionResponse" where
  "submit_response pairs = emptyResponse\<lparr>xr_Outputs := pairs, xr_Message := ''Form submitted successfully'', xr_ApiResponse := Some ok_response\<rparr>"

definition send_submission :: "TaskEnv \<Rightarrow> obj \<Rightarrow> obj \<Rightarrow> ExecutionResponse option sform" where
  "send_submission env formData pairs =
     bindS the_plugin (\<lambda>s.
     bindS (getC (\<lambda>c. (c_TaskID c, c_WorkflowID c, readOGAFeedbackHistory env c))) (\<lambda>(taskID, workflowID, history).
       if task_code s = '''' then failS (Errorf ''taskCode is required in submission request configuration'' [])
       else
         bindS (attemptS (sendFormSubmission env (submission_service s) (submissionUrl s)
                  (external_request env (task_code s) taskID workflowID
                     (trim_right CHR ''/'' (sf_ServiceURL s) @ TasksAPIPath) formData
                     (case history of Ok h \<Rightarrow> h | _ \<Rightarrow> [])))) (\<lambda>res.
           case res of
             Err e \<Rightarrow> failS (Typed submissionFailedErr e)
           | Panic \<Rightarrow> liftS Panic
           | Ok responseData \<Rightarrow>
               bindS (attemptS (WriteToLocalStore env ''submissionResponse''
                        (case responseData of None \<Rightarrow> GNilMap | Some m \<Rightarrow> GJson (JObj m)))) (\<lambda>_.
               returnS (Some (submit_response
                 (case submission_mapping s of
                    None \<Rightarrow> pairs
                  | Some mapping \<Rightarrow>
                      map_copy pairs (fst (sf_parseResponseData (case responseData of None \<Rightarrow> [] | Some m \<Rightarrow> m) mapping)))))))))"

definition submitHandler :: "TaskEnv \<Rightarrow> any \<Rightarrow> ExecutionResponse option sform" where
  "submitHandler env content =
     bindS (liftS (parseFormData content)) (\<lambda>formData.
     bindS (attemptS (WriteToLocalStore env ''trader:form'' (GJson (JObj formData)))) (\<lambda>_.
     bindS (populateFromRegistry env) (\<lambda>_.
     bindS the_plugin (\<lambda>s.
     bindS (liftS (unmarshal dec_schema (cf_Schema (sf_config s)))) (\<lambda>parsedSchema.
     bindS (liftS (Traverse parsedSchema (write_visit formData) [])) (\<lambda>pairs.
       if submissionUrl s = '''' then returnS (Some (submit_response pairs))
       else send_submission env formData pairs))))))"

definition parseAndStoreOgaResponse :: "TaskEnv \<Rightarrow> any \<Rightarrow> obj sform" where
  "parseAndStoreOgaResponse env content =
     bindS (wrapS ''invalid verification data'' [] (liftS (parseFormData content))) (\<lambda>verificationData.
     bindS (WriteToLocalStore env ''ogaResponse'' (GJson (JObj verificationData))) (\<lambda>_.
     returnS verificationData))"

definition callback_mapping :: "SimpleForm \<Rightarrow> (string, string) gomap option" where
  "callback_mapping s =
     (case cf_Callback (sf_config s) of
        None \<Rightarrow> None
      | Some cb \<Rightarrow> (case cb_Response cb of None \<Rightarrow> None | Some r \<Rightarrow> rs_Mapping r))"

definition ogaApprovedHandler :: "TaskEnv \<Rightarrow> any \<Rightarrow> ExecutionResponse option sform" where
  "ogaApprovedHandler env content =
     bindS (parseAndStoreOgaResponse env content) (\<lambda>verificationData.
     bindS the_plugin (\<lambda>s.
     bindS (getC evaluateEmissions) (\<lambda>emission.
       let pairs = (case callback_mapping s of
                      None \<Rightarrow> []
                    | Some mapping \<Rightarrow> map_copy [] (fst (sf_parseResponseData verificationData mapping)))
       in if map_get pairs OutcomeEmitKeySimpleForm \<noteq> None then
            returnS (Some (emptyResponse\<lparr>xr_Outputs := pairs,
              xr_Message := ''Form verified by OGA, but emitted outcome collision detected'',
              xr_ApiResponse := Some (error_response ''EMITTED_OUTCOME_COLLISION'' ''The key is reserved for emitted outcomes'')\<rparr>))
          else
            returnS (Some (emptyResponse\<lparr>
              xr_Outputs := (case emission of None \<Rightarrow> pairs | Some out \<Rightarrow> map_put OutcomeEmitKeySimpleForm (JStr out) pairs),
              xr_EmittedOutcome := emission,
              xr_Message := ''Form verified by OGA, task completed'', xr_ApiResponse := Some ok_response\<rparr>)))))"

definition ogaRejectedHandler :: "TaskEnv \<Rightarrow> any \<Rightarrow> ExecutionResponse option sform" where
  "ogaRejectedHandler env content =
     bindS (parseAndStoreOgaResponse env content) (\<lambda>_.
     bindS (getC evaluateEmissions) (\<lambda>emission.
       case emission of
         Some out \<Rightarrow>
           returnS (Some (emptyResponse\<lparr>xr_Outputs := [(OutcomeEmitKeySimpleForm, JStr out)],
             xr_Message := ''Form rejected by OGA, task failed'', xr_ApiResponse := Some ok_response\<rparr>))
       | None \<Rightarrow>
           returnS (Some (emptyResponse\<lparr>xr_EmittedOutcome := emission,
             xr_Message := ''Verification rejected or invalid'', xr_ApiResponse := Some ok_response\<rparr>))))"

definition feedback_field :: "obj \<Rightarrow> string" where
  "feedback_field data = (case map_get data ''feedback'' of Some (JStr s) \<Rightarrow> s | _ \<Rightarrow> '''')"

definition ogaFeedbackHandler :: "TaskEnv \<Rightarrow> any \<Rightarrow> ExecutionResponse option sform" where
  "ogaFeedbackHandler env content =
     bindS (wrapS ''invalid feedback data'' [] (liftS (parseFormData content))) (\<lambda>data.
       if trim_space (feedback_field data) = '''' then failS (Errorf ''feedback field is required and must not be empty'' [])
       else
         bindS (getC (readOGAFeedbackHistory env)) (\<lambda>read.
         let history = (case read of Ok h \<Rightarrow> h | _ \<Rightarrow> []) in
         bindS (on_world (time_now env)) (\<lambda>now.
         bindS (WriteToLocalStore env ''ogaFeedback'' (GFeedback (history @
                  [\<lparr>fe_Content = data, fe_Timestamp = now, fe_Round = int (length history) + 1\<rparr>]))) (\<lambda>_.
         returnS (Some (emptyResponse\<lparr>xr_ApiResponse := Some ok_response,
           xr_Message := ''OGA feedback provided, awaiting trader correction''\<rparr>))))))"

definition sf_dispatch :: "TaskEnv \<Rightarrow> string \<Rightarrow> any \<Rightarrow> ExecutionResponse option sform" where
  "sf_dispatch env action content =
     (if action = SimpleFormActionDraft then draftHandler env content
      else if action = simpleFormFSMSubmitComplete \<or> action = simpleFormFSMSubmitAwaitOGA then submitHandler env content
      else if action = simpleFormFSMOgaApproved then ogaApprovedHandler env content
      else if action = simpleFormFSMOgaRejected then ogaRejectedHandler env content
      else if action = SimpleFormActionOgaFeedback then ogaFeedbackHandler env content
      else failS (Errorf ''unhandled FSM action'' [action]))"

text \<open>A nil request is dereferenced: the handler panics.\<close>

definition sf_Execute :: "TaskEnv \<Rightarrow> ExecutionRequest option \<Rightarrow> ExecutionResponse option sform" where
  "sf_Execute env request =
     (case request of
        None \<Rightarrow> liftS Panic
      | Some rq \<Rightarrow>
          bindS the_plugin (\<lambda>s.
          bindS (liftS (resolveAction s rq)) (\<lambda>action.
          bindS (getC (container_CanTransition action)) (\<lambda>can.
            if \<not> can then
              bindS (getC GetPluginState) (\<lambda>ps. failS (Errorf ''fsm: action not permitted in state'' [req_Action rq, ps]))
            else
              bindS (attemptS (sf_dispatch env action (req_Content rq))) (\<lambda>res.
                case res of
                  Err e \<Rightarrow>
                    if is_typed submissionFailedErr e
                    then bindS (attemptS (container_Transition env simpleFormFSMSubmitFailed)) (\<lambda>_. failS e)
                    else failS e
                | Panic \<Rightarrow> liftS Panic
                | Ok resp \<Rightarrow> bindS (container_Transition env action) (\<lambda>_. returnS resp))))))"

section \<open>Rendering\<close>

text \<open>\<open>splitPath\<close> and the walk through nested maps.\<close>

fun walk_keys :: "string list \<Rightarrow> any \<Rightarrow> any" where
  "walk_keys [] current = current"
| "walk_keys (k # ks) current =
     (case current of
        JObj m \<Rightarrow> (case map_get m k of None \<Rightarrow> JNull | Some v \<Rightarrow> walk_keys ks v)
      | _ \<Rightarrow> JNull)"

definition sf_lookupValueFromGlobalStore :: "'p Container \<Rightarrow> string \<Rightarrow> any" where
  "sf_lookupValueFromGlobalStore c path =
     (if path = '''' then JNull
      else (case split_on CHR ''.'' path of
              [] \<Rightarrow> JNull
            | k # ks \<Rightarrow> (case ReadFromGlobalStore k c of None \<Rightarrow> JNull | Some value \<Rightarrow> walk_keys ks value)))"

definition read_visit :: "'p Container \<Rightarrow> obj visitor" where
  "read_visit c path node parent formData =
     (case sXGlobalContext node of
        None \<Rightarrow> Ok formData
      | Some g \<Rightarrow>
          (case ReadFrom g of
             None \<Rightarrow> Ok formData
           | Some src \<Rightarrow>
               if trim_space src \<noteq> '''' then
                 (let value = sf_lookupValueFromGlobalStore c src in
                  Ok (if value \<noteq> JNull then SetValueByPath formData path value else formData))
               else Ok formData))"

definition prepopulateFormData :: "SimpleForm Container \<Rightarrow> any option \<Rightarrow> any option res" where
  "prepopulateFormData c existingFormData =
     bind_res (wrap_err ''failed to unmarshal schema'' [] (unmarshal dec_schema (cf_Schema (sf_config (c_Executable c))))) (\<lambda>parsedSchema.
     bind_res (wrap_err ''failed to traverse schema for prepopulation'' [] (Traverse parsedSchema (read_visit c) [])) (\<lambda>formData.
       let merged = (case existingFormData of
                       None \<Rightarrow> formData
                     | Some ex \<Rightarrow> (case dec_obj ex of Ok existingData \<Rightarrow> mergeFormData formData existingData | _ \<Rightarrow> formData))
       in if merged = [] then Ok existingFormData else Ok (Some (JObj merged))))"

definition resolveFormData :: "TaskEnv \<Rightarrow> string \<Rightarrow> SimpleForm Container \<Rightarrow> any res" where
  "resolveFormData env state c =
     (if state = SimpleFormInitialized then
        bind_res (prepopulateFormData c (cf_FormData (sf_config (c_Executable c)))) (\<lambda>d. Ok (raw_json d))
      else if state \<in> {TraderSavedAsDraft, TraderSubmitted, OGAAcknowledged, OGAFeedbackProvided, OGAReviewed, SubmissionFailed} then
        Ok (to_json env (ReadFromLocalStore ''trader:form'' c))
      else Ok (raw_json (cf_FormData (sf_config (c_Executable c)))))"

definition sf_GetRenderInfo :: "TaskEnv \<Rightarrow> ApiResponse sform" where
  "sf_GetRenderInfo env =
     bindS (populateFromRegistry env) (\<lambda>_.
     bindS (getC (\<lambda>c. c)) (\<lambda>c.
       let s = c_Executable c;
           pluginState = GetPluginState c;
           formData = (case resolveFormData env pluginState c of Ok v \<Rightarrow> v | _ \<Rightarrow> raw_json (cf_FormData (sf_config s)));
           content = [(''traderFormInfo'', JObj [(''title'', JStr (cf_Title (sf_config s))),
                        (''uiSchema'', raw_json (cf_UISchema (sf_config s))), (''formData'', formData),
                        (''schema'', raw_json (cf_Schema (sf_config s)))])]
       in bindS (case cf_Submission (sf_config s) of
                   None \<Rightarrow> returnS content
                 | Some sub \<Rightarrow> attachFormDisplay env ''submissionResponse'' (displayFormID (sb_Response sub)) ''submissionResponseForm'' content) (\<lambda>content1.
          bindS (case cf_Callback (sf_config s) of
                   None \<Rightarrow> returnS content1
                 | Some cb \<Rightarrow> attachFormDisplay env ''ogaResponse'' (displayFormID (cb_Response cb)) ''ogaReviewForm'' content1) (\<lambda>content2.
          bindS (getC (ReadFromLocalStore ''ogaFeedback'')) (\<lambda>feedbackData.
          bindS (getC GetTaskState) (\<lambda>state.
          returnS (render_response TaskTypeSimpleForm pluginState state
            (JObj (if feedbackData = GJson JNull then content2
                   else map_put ''ogaFeedback'' (to_json env feedbackData) content2)))))))))"

section \<open>The contract\<close>

lemma populate_conf [conf]: "quiet (populateFromRegistry env)"
  unfolding populateFromRegistry_def by (intro conf)

lemma send_conf [conf]: "quiet (sendFormSubmission env i p b)"
  unfolding sendFormSubmission_def by (intro conf) (auto split: any.splits intro: conf)

lemma send_submission_conf [conf]: "quiet (send_submission env d p)"
  unfolding send_submission_def by (intro conf)

lemma submit_conf [conf]: "quiet (submitHandler env content)"
  unfolding submitHandler_def by (intro conf)

lemma draft_conf [conf]: "quiet (draftHandler env content)"
  unfolding draftHandler_def by (intro conf)

lemma oga_conf [conf]: "quiet (ogaApprovedHandler env content)" "quiet (ogaRejectedHandler env content)"
  unfolding ogaApprovedHandler_def ogaRejectedHandler_def parseAndStoreOgaResponse_def by (intro conf)+

lemma feedback_conf [conf]: "quiet (ogaFeedbackHandler env content)"
  unfolding ogaFeedbackHandler_def by (intro conf)

lemma dispatch_conf [conf]: "quiet (sf_dispatch env action content)"
  unfolding sf_dispatch_def by (intro conf)

lemma start_conf: "conforms env (sf_Start env)"
  unfolding sf_Start_def by (intro conf quiet_conforms [OF populate_conf])

lemma render_conf: "conforms env (sf_GetRenderInfo env)"
  unfolding sf_GetRenderInfo_def by (rule quiet_conforms) (intro conf)

lemma execute_conf: "conforms env (sf_Execute env request)"
  unfolding sf_Execute_def by (intro conf)

interpretation simple_form: plugin_contract env "sf_Start env" "sf_GetRenderInfo env" "sf_Execute env" for env
  by (rule plugin_contract.intro [OF start_conf render_conf execute_conf])

section \<open>Runs of an action\<close>

lemma Execute_resolved:
  assumes "resolveAction (c_Executable (fst s)) rq = Ok action" and "container_CanTransition action (fst s)"
    and "sf_dispatch env action (req_Content rq) s = (r1, s1)"
  shows "sf_Execute env (Some rq) s =
    (case r1 of
       Err e \<Rightarrow> (if is_typed submissionFailedErr e
                then bindS (attemptS (container_Transition env simpleFormFSMSubmitFailed)) (\<lambda>_. failS e) s1 else (Err e, s1))
     | Panic \<Rightarrow> (Panic, s1)
     | Ok resp \<Rightarrow> bindS (container_Transition env action) (\<lambda>_. returnS resp) s1)"
  using assms
  by (cases r1) (simp_all add: sf_Execute_def bindS_def [where m = the_plugin] the_plugin_def getC_def bindS_def [where m = "liftS _"]
      liftS_def bindS_def [where m = "getC _"] bindS_def [where m = "attemptS (sf_dispatch _ _ _)"] attemptS_def [where m = "sf_dispatch _ _ _"] failS_def)

lemma Execute_unresolved:
  assumes "sf_Execute env (Some rq) s = (Ok resp, s')"
  obtains action where "resolveAction (c_Executable (fst s)) rq = Ok action" and "container_CanTransition action (fst s)"
proof -
  show ?thesis
  proof (cases "resolveAction (c_Executable (fst s)) rq")
    case (Ok action)
    moreover have "container_CanTransition action (fst s)"
      using assms Ok by (auto simp: sf_Execute_def bindS_def the_plugin_def getC_def liftS_def failS_def split: if_splits)
    ultimately show ?thesis by (rule that)
  next
    case (Err e)
    then show ?thesis using assms by (simp add: sf_Execute_def bindS_def the_plugin_def getC_def liftS_def)
  next
    case Panic
    then show ?thesis using assms by (simp add: sf_Execute_def bindS_def the_plugin_def getC_def liftS_def)
  qed
qed

text \<open>
  An action on a form task that succeeds takes exactly the one edge of the state machine that the
  action resolves to: plugin state and task state move along it, in memory and, when the row was in
  step before, in the table.
\<close>

theorem form_action_takes_one_edge:
  assumes "sf_Execute env (Some rq) (c, w) = (Ok resp, (c', w'))" and "c_fsm c = Some fsm"
  shows "\<exists>action out. resolveAction (c_Executable c) rq = Ok action \<and> Transition fsm (c_pluginState c) action = Ok out
     \<and> states_of c' = apply_outcome out (states_of c) \<and> (synced (c, w) \<longrightarrow> synced (c', w'))"
proof -
  from Execute_unresolved [OF assms(1)] obtain action where ra: "resolveAction (c_Executable c) rq = Ok action"
    and can: "container_CanTransition action c" by auto
  obtain r1 s1 where d: "sf_dispatch env action (req_Content rq) (c, w) = (r1, s1)"
    by (cases "sf_dispatch env action (req_Content rq) (c, w)")
  note q = quietD [OF dispatch_conf d] and qf = quiet_fsm [OF dispatch_conf d]
  note run = assms(1) [unfolded Execute_resolved [of "(c, w)", simplified, OF ra can d]]
  obtain resp' where r1: "r1 = Ok resp'"
  proof (cases r1)
    case (Err e)
    then show ?thesis using run by (auto simp: failS_def bindS_def split: if_splits prod.splits res.splits)
  qed (use run in auto)
  obtain c1 w1 where s1: "s1 = (c1, w1)" by (cases s1)
  from run r1 obtain u where tr: "container_Transition env action (c1, w1) = (Ok u, (c', w'))"
    by (auto simp: op_simps s1)
  from tr show ?thesis
  proof (cases rule: Transition_cases)
    case 1
    then show ?thesis using qf assms(2) by (simp add: s1)
  next
    case (2 f)
    then show ?thesis by simp
  next
    case (3 f out)
    then have "f = fsm" using qf assms(2) by (simp add: s1)
    moreover have "states_of c' = apply_outcome out (states_of c)" using 3(4) q by (simp add: s1)
    moreover have "Transition fsm (c_pluginState c) action = Ok out" using 3(2) qf \<open>f = fsm\<close> by (simp add: s1)
    moreover have "synced (c, w) \<longrightarrow> synced (c', w')" using 3(5) q by (simp add: s1)
    ultimately show ?thesis using ra by blast
  qed
qed

lemma submit_edges:
  "CanTransition NewSimpleFormFSM ps simpleFormFSMSubmitComplete \<longleftrightarrow> ps \<in> {SimpleFormInitialized, TraderSavedAsDraft, SubmissionFailed}"
  "CanTransition NewSimpleFormFSM ps simpleFormFSMSubmitAwaitOGA \<longleftrightarrow>
     ps \<in> {SimpleFormInitialized, TraderSavedAsDraft, SubmissionFailed, OGAFeedbackProvided}"
  "CanTransition NewSimpleFormFSM ps simpleFormFSMSubmitFailed \<longleftrightarrow>
     ps \<in> {SimpleFormInitialized, TraderSavedAsDraft, OGAFeedbackProvided}"
  by (simp_all add: CanTransition_def fsm_tables)

lemma submit_failed_edge:
  "Transition NewSimpleFormFSM ps simpleFormFSMSubmitFailed = Ok out \<Longrightarrow>
   out = TransitionOutcome SubmissionFailed InProgress \<and> ps \<noteq> SubmissionFailed"
  by (simp add: Transition_def fsm_tables split: if_splits)

text \<open>
  A submission the external service did not accept leaves the task recoverable: the action returns
  the error, the task is in SUBMISSION\_FAILED (in memory, whatever became of the writes), and the
  same submission is permitted again.
\<close>

theorem failed_submission_can_be_retried:
  assumes "c_fsm c = Some NewSimpleFormFSM" and "c_taskStore c"
    and "resolveAction (c_Executable c) rq = Ok action"
    and "action = simpleFormFSMSubmitComplete \<or> action = simpleFormFSMSubmitAwaitOGA"
    and "container_CanTransition action c"
    and "submitHandler env (req_Content rq) (c, w) = (Err (Typed submissionFailedErr e), s1)"
  shows "\<exists>c' w'. sf_Execute env (Some rq) (c, w) = (Err (Typed submissionFailedErr e), (c', w'))
     \<and> c_pluginState c' = SubmissionFailed
     \<and> c_State c' = (if c_pluginState c = SubmissionFailed then c_State c else InProgress)
     \<and> container_CanTransition action c'"
proof -
  have d: "sf_dispatch env action (req_Content rq) (c, w) = (Err (Typed submissionFailedErr e), s1)"
    using assms(4,6) by (auto simp: sf_dispatch_def)
  note qf = quiet_fsm [OF dispatch_conf d]
  obtain c1 w1 where s1: "s1 = (c1, w1)" by (cases s1)
  obtain r2 c' w' where tr: "container_Transition env simpleFormFSMSubmitFailed (c1, w1) = (r2, (c', w'))"
    by (cases "container_Transition env simpleFormFSMSubmitFailed (c1, w1)") auto
  have st: "c_pluginState c \<in> {SimpleFormInitialized, TraderSavedAsDraft, SubmissionFailed, OGAFeedbackProvided}"
    using assms(1,4,5) by (auto simp: container_CanTransition_def GetPluginState_def submit_edges)
  have c': "c_fsm c' = Some NewSimpleFormFSM \<and> r2 \<noteq> Panic \<and> c_pluginState c' = SubmissionFailed
      \<and> c_State c' = (if c_pluginState c = SubmissionFailed then c_State c else InProgress)"
  proof -
    from tr show ?thesis
    proof (cases rule: Transition_cases)
      case 1
      then show ?thesis using qf assms(1) by (simp add: s1)
    next
      case (2 f)
      then have "c_pluginState c = SubmissionFailed"
        using qf assms(1) st by (auto simp: s1 submit_edges)
      then show ?thesis using 2 qf assms(1) by (auto simp: s1 is_err_iff)
    next
      case (3 f out)
      then have f: "f = NewSimpleFormFSM" using qf assms(1) by (simp add: s1)
      have out: "out = TransitionOutcome SubmissionFailed InProgress \<and> c_pluginState c \<noteq> SubmissionFailed"
        using 3(2) qf submit_failed_edge by (simp add: s1 f)
      have "r2 \<noteq> Panic" by (rule Transition_no_panic [OF _ tr]) (use qf assms(2) in \<open>simp add: s1\<close>)
      then show ?thesis using 3(1,4) out f by (simp add: moved_def)
    qed
  qed
  have "sf_Execute env (Some rq) (c, w) = (Err (Typed submissionFailedErr e), (c', w'))"
    using Execute_resolved [of "(c, w)", simplified, OF assms(3,5) d] tr c'
    by (cases r2) (simp_all add: s1 bindS_def attemptS_def failS_def)
  moreover have "container_CanTransition action c'"
    using c' assms(4) by (auto simp: container_CanTransition_def GetPluginState_def submit_edges)
  ultimately show ?thesis using c' by blast
qed

section \<open>What a submission collects\<close>

definition leaf_key :: "JSONSchema \<Rightarrow> string option" where
  "leaf_key node =
     (if sType node \<in> {''string'', ''number'', ''boolean''} then
        (case sXGlobalContext node of
           None \<Rightarrow> None
         | Some g \<Rightarrow> (case WriteTo g of None \<Rightarrow> None | Some key \<Rightarrow> if trim_space key \<noteq> '''' then Some key else None))
      else None)"

lemma write_visit_leaf:
  "write_visit d path node parent pairs =
     (case leaf_key node of
        None \<Rightarrow> Ok pairs
      | Some key \<Rightarrow>
          (case GetValueByPath d path of
             None \<Rightarrow> Err (Errorf ''value for global context path not found in submitted form data'' [key])
           | Some value \<Rightarrow> Ok (map_put key value pairs)))"
  by (simp add: write_visit_def leaf_key_def split: option.splits)

text \<open>The values the leaves of a schema name, in the order of the nodes; the last one of a key wins.\<close>

definition leaf_values :: "obj \<Rightarrow> (string \<times> JSONSchema \<times> JSONSchema option) list \<Rightarrow> (string \<times> any) list" where
  "leaf_values d nodes = concat (map (\<lambda>(path, node, _).
     case leaf_key node of
       None \<Rightarrow> []
     | Some key \<Rightarrow> (case GetValueByPath d path of None \<Rightarrow> [] | Some v \<Rightarrow> [(key, v)])) nodes)"

lemma leaf_fold:
  "foldM (\<lambda>(p, n, q). write_visit d p n q) nodes acc = Ok pairs \<Longrightarrow>
     (\<forall>(path, node, _) \<in> set nodes. leaf_key node \<noteq> None \<longrightarrow> GetValueByPath d path \<noteq> None)
     \<and> (\<forall>k. map_get pairs k = (map_of acc ++ map_of (rev (leaf_values d nodes))) k)"
proof (induction nodes arbitrary: acc)
  case Nil
  then show ?case by (simp add: leaf_values_def)
next
  case (Cons x nodes)
  obtain path node q where x: "x = (path, node, q)" by (cases x)
  have run: "bind_res (write_visit d path node q acc) (foldM (\<lambda>(p, n, q). write_visit d p n q) nodes) = Ok pairs"
    using Cons.prems by (simp add: x)
  show ?case
  proof (cases "leaf_key node")
    case None
    then have "foldM (\<lambda>(p, n, q). write_visit d p n q) nodes acc = Ok pairs"
      using run write_visit_leaf [of d path node q acc] by simp
    from Cons.IH [OF this] show ?thesis by (simp add: x None leaf_values_def)
  next
    case (Some key)
    then obtain v where v: "GetValueByPath d path = Some v"
      and rest: "foldM (\<lambda>(p, n, q). write_visit d p n q) nodes (map_put key v acc) = Ok pairs"
      using run write_visit_leaf [of d path node q acc] by (cases "GetValueByPath d path") simp_all
    have "map_of (map_put key v acc) ++ m = map_of acc ++ (map_of [(key, v)] ++ m)" for m
      by (rule ext) (simp add: map_add_def map_get_put split: option.splits)
    with Cons.IH [OF rest] show ?thesis by (simp add: x Some v leaf_values_def)
  qed
qed

lemma sendFormSubmission_container: "sendFormSubmission env i p b s = (r, s') \<Longrightarrow> fst s' = fst s"
  by (auto simp: sendFormSubmission_def bindS_def on_world_def returnS_def failS_def split: prod.splits res.splits any.splits)

text \<open>
  A submitted form without submission URL yields, under each global context key, the value the submitted
  data has at the path of the schema leaf that names the key (the last such leaf in the schema's
  order), and nothing else; every leaf that names a key has a value; nothing is sent.
\<close>

theorem submission_collects_leaves:
  assumes "submitHandler env content (c, w) = (Ok (Some resp), (c', w'))" and "submissionUrl (c_Executable c') = ''''"
  shows "\<exists>d schema. content = JObj d \<and> unmarshal dec_schema (cf_Schema (sf_config (c_Executable c'))) = Ok schema
     \<and> (\<forall>(path, node, _) \<in> set (schema_nodes schema [] None). leaf_key node \<noteq> None \<longrightarrow> GetValueByPath d path \<noteq> None)
     \<and> map_get (xr_Outputs resp) = map_of (rev (leaf_values d (schema_nodes schema [] None)))
     \<and> w_calls w' = w_calls w"
proof -
  from assms(1) obtain d u1 c1 w1 u2 c2 w2 schema pairs where
    d: "parseFormData content = Ok d"
    and st1: "attemptS (WriteToLocalStore env ''trader:form'' (GJson (JObj d))) (c, w) = (Ok u1, (c1, w1))"
    and st2: "populateFromRegistry env (c1, w1) = (Ok u2, (c2, w2))"
    and sch: "unmarshal dec_schema (cf_Schema (sf_config (c_Executable c2))) = Ok schema"
    and tr: "Traverse schema (write_visit d) [] = Ok pairs"
    and fin: "(if submissionUrl (c_Executable c2) = '''' then returnS (Some (submit_response pairs))
                else send_submission env d pairs) (c2, w2) = (Ok (Some resp), (c', w'))"
    unfolding submitHandler_def by (auto simp: op_simps the_plugin_def getC_def)
  have content: "content = JObj d" using d by (auto simp: parseFormData_def split: any.splits)
  have calls1: "w_calls w1 = w_calls w"
  proof -
    obtain r' m' w'' where l: "lm_SetState env ''trader:form'' (GJson (JObj d)) (c_localState c, w) = (r', (m', w''))"
      by (cases "lm_SetState env ''trader:form'' (GJson (JObj d)) (c_localState c, w)") auto
    have "w1 = w''" using st1 l by (cases r') (auto simp: attemptS_def WriteToLocalStore_def)
    moreover have "w_calls w'' = w_calls w"
    proof (cases "lm_cache (c_localState c)")
      case None
      then show ?thesis using l by (simp add: lm_SetState_def)
    next
      case (Some cc)
      from persist_cases [OF SetState_result(2) [OF Some l]] show ?thesis by auto
    qed
    ultimately show ?thesis by simp
  qed
  have calls2: "w_calls w2 = w_calls w1"
    using st2 by (auto simp: populateFromRegistry_def op_simps the_plugin_def getC_def on_world_def set_plugin_def GetFormByID_def
        task_db_def failS_def Let_def split: if_splits prod.splits res.splits option.splits)
  have "submissionUrl (c_Executable c2) = ''''"
  proof (rule ccontr)
    assume "submissionUrl (c_Executable c2) \<noteq> ''''"
    with fin have s: "send_submission env d pairs (c2, w2) = (Ok (Some resp), (c', w'))" by simp
    have "c_Executable c' = c_Executable c2"
      using s unfolding send_submission_def
      by (auto simp: op_simps the_plugin_def getC_def attemptS_def WriteToLocalStore_def
          split: if_splits prod.splits res.splits dest!: sendFormSubmission_container)
    with \<open>submissionUrl (c_Executable c2) \<noteq> ''''\<close> assms(2) show False by simp
  qed
  with fin have resp: "resp = submit_response pairs" and cw: "c' = c2" "w' = w2" by (auto simp: returnS_def)
  have "foldM (\<lambda>(p, n, q). write_visit d p n q) (schema_nodes schema [] None) [] = Ok pairs"
    using tr by (simp add: Traverse_def traverse_eq_foldM)
  from leaf_fold [OF this] have lf: "\<forall>(path, node, _) \<in> set (schema_nodes schema [] None). leaf_key node \<noteq> None \<longrightarrow> GetValueByPath d path \<noteq> None"
    "map_get pairs = map_of (rev (leaf_values d (schema_nodes schema [] None)))" by (blast, auto)
  show ?thesis
    using content sch lf calls1 calls2 by (intro exI [of _ d] exI [of _ schema]) (simp add: cw resp submit_response_def)
qed

text \<open>
  C39: The default case of \<open>resolveAction\<close> hands any action string to the state machine, its internal ones too:
  on a form that requires verification by the agency, a caller who posts SUBMIT\_FORM\_COMPLETE
  completes the task without it.
\<close>

theorem verification_can_be_bypassed:
  assumes "requiresVerification (c_Executable c)" and "c_fsm c = Some NewSimpleFormFSM"
    and "sf_Execute env (Some \<lparr>req_Action = ''SUBMIT_FORM_COMPLETE'', req_Content = content\<rparr>) (c, w) = (Ok resp, (c', w'))"
  shows "states_of c' = (TraderSubmitted, Completed) \<and> finished (c_State c')"
proof -
  let ?rq = "\<lparr>req_Action = ''SUBMIT_FORM_COMPLETE'', req_Content = content\<rparr>"
  have ra: "resolveAction (c_Executable c) ?rq = Ok simpleFormFSMSubmitComplete" by (simp add: resolveAction_def)
  note run = assms(3)
  from Execute_unresolved [OF run] ra have can: "container_CanTransition simpleFormFSMSubmitComplete c" by auto
  obtain r1 s1 where d: "sf_dispatch env simpleFormFSMSubmitComplete content (c, w) = (r1, s1)"
    by (cases "sf_dispatch env simpleFormFSMSubmitComplete content (c, w)")
  note q = quietD [OF dispatch_conf d] and qf = quiet_fsm [OF dispatch_conf d]
  obtain c1 w1 where s1: "s1 = (c1, w1)" by (cases s1)
  note ex = Execute_resolved [of "(c, w)" ?rq, simplified, OF ra can d]
  obtain resp' where r1: "r1 = Ok resp'"
    using run ex by (cases r1) (auto simp: failS_def bindS_def split: if_splits prod.splits res.splits)
  obtain u where tr: "container_Transition env simpleFormFSMSubmitComplete (c1, w1) = (Ok u, (c', w'))"
    using run ex r1 by (auto simp: op_simps s1)
  from tr show ?thesis
  proof (cases rule: Transition_cases)
    case 1
    then show ?thesis using qf assms(2) by (simp add: s1)
  next
    case (2 f)
    then show ?thesis by simp
  next
    case (3 f out)
    then have "out = TransitionOutcome TraderSubmitted Completed"
      using qf assms(2) by (auto simp: s1 Transition_def fsm_tables split: if_splits)
    then show ?thesis using 3(4) by (simp add: moved_def states_of_def finished_def)
  qed
qed

section \<open>A concrete form task\<close>

definition demo_form :: Form where
  "demo_form = \<lparr>fm_ID = ''f1'', fm_Name = ''Permit'', fm_Schema = Some (JObj [(''type'', JStr ''object''),
      (''properties'', JObj [(''hs'', JObj [(''type'', JStr ''string''), (''x-globalContext'', JObj [(''writeTo'', JStr ''hsCode'')])])])]),
     fm_UISchema = None, fm_Version = ''1'', fm_Active = True\<rparr>"

definition demo_plugin :: "string \<Rightarrow> SimpleForm" where
  "demo_plugin url = \<lparr>sf_config = \<lparr>cf_FormID = ''f1'', cf_Title = '''', cf_Schema = None, cf_UISchema = None, cf_FormData = None,
      cf_SubmissionURL = '''', cf_Submission = Some \<lparr>sb_ServiceID = ''oga'', sb_Url = url,
        sb_Request = Some \<lparr>rq_TaskCode = ''T'', rq_Template = None\<rparr>, sb_Response = None\<rparr>,
      cf_Callback = None, cf_Emission = None, cf_RequiresOgaVerification = True\<rparr>, sf_ServiceURL = ''http://nsw/'', sf_formService = True\<rparr>"

definition demo_form_world :: TaskWorld where
  "demo_form_world = (demo_world [demo_task ''t1'' TaskTypeSimpleForm SimpleFormInitialized])\<lparr>w_forms := [demo_form]\<rparr>"

lemmas form_simps = demo_form_def demo_plugin_def demo_form_world_def sf_Execute_def resolveAction_def sf_dispatch_def
  draftHandler_def submitHandler_def send_submission_def sendFormSubmission_def remote_call_def parseFormData_def populateFromRegistry_def
  GetFormByID_def db_first_def unmarshal_def dec_field_def dec_ptr_def dec_global_context_def dec_struct_def Traverse_def
  submissionUrl_def requiresVerification_def task_code_def

definition demo_form_start :: "string \<Rightarrow> SimpleForm Container \<times> TaskWorld" where
  "demo_form_start url = (demo_container (demo_plugin url) NewSimpleFormFSM SimpleFormInitialized InProgress [], demo_form_world)"

definition demo_content :: any where
  "demo_content = JObj [(''hs'', JStr ''0902'')]"

lemma demo_traverse:
  "traverseRecursive (JSONSchema ''object'' [(''hs'', JSONSchema ''string'' [] None [] None None (Some \<lparr>ReadFrom = None, WriteTo = Some ''hsCode''\<rparr>))]
      None [] None None None) [] None (write_visit [(''hs'', JStr ''0902'')]) [] = Ok [(''hsCode'', JStr ''0902'')]"
  by (simp add: traverseRecursive.simps write_visit_def child_path_def GetValueByPath_def get_segment_def arrayRegex_def Let_def
      trim_space_def is_space_def)

lemma demo_submit:
  "\<exists>s'. submitHandler demo_env demo_content (demo_form_start '''') = (Ok (Some (submit_response [(''hsCode'', JStr ''0902'')])), s')
     \<and> submissionUrl (c_Executable (fst s')) = ''''"
  by (simp add: demo_form_start_def demo_content_def run_simps form_simps demo_traverse del: dec_schema.simps)
    (simp add: dec_field_def dec_ptr_def dec_global_context_def dec_struct_def demo_traverse bindS_def liftS_def returnS_def)

theorem submission_collects_leaves_witness:
  "\<exists>resp s' d schema. submitHandler demo_env demo_content (demo_form_start '''') = (Ok (Some resp), s')
     \<and> unmarshal dec_schema (cf_Schema (sf_config (c_Executable (fst s')))) = Ok schema
     \<and> map_get (xr_Outputs resp) = map_of (rev (leaf_values d (schema_nodes schema [] None)))
     \<and> map_get (xr_Outputs resp) ''hsCode'' = Some (JStr ''0902'')"
proof -
  obtain c w where cw: "demo_form_start '''' = (c, w)" by (cases "demo_form_start ''''")
  from demo_submit obtain c' w' where run: "submitHandler demo_env demo_content (c, w) = (Ok (Some (submit_response [(''hsCode'', JStr ''0902'')])), (c', w'))"
    and url: "submissionUrl (c_Executable c') = ''''" unfolding cw by auto
  from submission_collects_leaves [OF run url] obtain d schema where
    "unmarshal dec_schema (cf_Schema (sf_config (c_Executable c'))) = Ok schema"
    "map_get (xr_Outputs (submit_response [(''hsCode'', JStr ''0902'')])) = map_of (rev (leaf_values d (schema_nodes schema [] None)))"
    by blast
  with run cw show ?thesis
    by (intro exI [of _ "submit_response [(''hsCode'', JStr ''0902'')]"] exI [of _ "(c', w')"] exI [of _ d] exI [of _ schema])
      (simp add: submit_response_def)
qed

definition demo_draft :: ExecutionRequest where
  "demo_draft = \<lparr>req_Action = SimpleFormActionDraft, req_Content = JObj []\<rparr>"

lemma demo_draft_run:
  "\<exists>resp s'. sf_Execute demo_env (Some demo_draft) (demo_form_start '''') = (Ok resp, s')"
  by (simp add: demo_draft_def demo_form_start_def run_simps form_simps)

theorem form_action_takes_one_edge_witness:
  "\<exists>resp c' w'. sf_Execute demo_env (Some demo_draft) (demo_form_start '''') = (Ok resp, (c', w'))
     \<and> states_of c' = (TraderSavedAsDraft, InProgress)"
proof -
  obtain c w where cw: "demo_form_start '''' = (c, w)" by (cases "demo_form_start ''''")
  from demo_draft_run obtain resp c' w' where run: "sf_Execute demo_env (Some demo_draft) (c, w) = (Ok resp, (c', w'))"
    unfolding cw by auto
  have c: "c_fsm c = Some NewSimpleFormFSM" "states_of c = (SimpleFormInitialized, InProgress)"
    using cw by (auto simp: demo_form_start_def demo_container_def states_of_def)
  from form_action_takes_one_edge [OF run c(1)] obtain action out where
    "resolveAction (c_Executable c) demo_draft = Ok action" "Transition NewSimpleFormFSM (c_pluginState c) action = Ok out"
    "states_of c' = apply_outcome out (states_of c)" by blast
  then have "states_of c' = (TraderSavedAsDraft, InProgress)"
    using c(2) by (auto simp: resolveAction_def demo_draft_def Transition_def fsm_tables states_of_def apply_outcome_def)
  with run cw show ?thesis by auto
qed

definition demo_submit_request :: "string \<Rightarrow> ExecutionRequest" where
  "demo_submit_request action = \<lparr>req_Action = action, req_Content = demo_content\<rparr>"

lemma demo_submit_fails:
  "\<exists>s1. submitHandler demo_offline demo_content (demo_form_start ''http://oga'') = (Err (Typed submissionFailedErr (External ''connection refused'')), s1)"
  by (simp add: demo_form_start_def demo_content_def run_simps form_simps demo_traverse del: dec_schema.simps)
    (simp add: dec_field_def dec_ptr_def dec_global_context_def dec_struct_def demo_traverse run_simps form_simps)

theorem failed_submission_can_be_retried_witness:
  "\<exists>c' w'. sf_Execute demo_offline (Some (demo_submit_request SimpleFormActionSubmit)) (demo_form_start ''http://oga'') =
       (Err (Typed submissionFailedErr (External ''connection refused'')), (c', w'))
     \<and> c_pluginState c' = SubmissionFailed \<and> container_CanTransition simpleFormFSMSubmitAwaitOGA c'"
proof -
  obtain c w where cw: "demo_form_start ''http://oga'' = (c, w)" by (cases "demo_form_start ''http://oga''")
  have c: "c_fsm c = Some NewSimpleFormFSM" "c_taskStore c" "c_pluginState c = SimpleFormInitialized"
    "c_Executable c = demo_plugin ''http://oga''"
    using cw by (auto simp: demo_form_start_def demo_container_def)
  let ?rq = "demo_submit_request SimpleFormActionSubmit"
  have ra: "resolveAction (c_Executable c) ?rq = Ok simpleFormFSMSubmitAwaitOGA"
    by (simp add: c resolveAction_def demo_submit_request_def requiresVerification_def demo_plugin_def)
  have can: "container_CanTransition simpleFormFSMSubmitAwaitOGA c"
    by (simp add: container_CanTransition_def c GetPluginState_def submit_edges)
  from demo_submit_fails obtain s1 where
    "submitHandler demo_offline (req_Content ?rq) (c, w) = (Err (Typed submissionFailedErr (External ''connection refused'')), s1)"
    unfolding cw by (auto simp: demo_submit_request_def)
  from failed_submission_can_be_retried [OF c(1,2) ra _ can this] show ?thesis unfolding cw by auto
qed

lemma demo_bypass_run:
  "\<exists>resp s'. sf_Execute demo_env (Some (demo_submit_request ''SUBMIT_FORM_COMPLETE'')) (demo_form_start '''') = (Ok resp, s')"
proof -
  obtain c w where cw: "demo_form_start '''' = (c, w)" by (cases "demo_form_start ''''")
  have c: "c_fsm c = Some NewSimpleFormFSM" "c_pluginState c = SimpleFormInitialized" "c_taskStore c"
    using cw by (auto simp: demo_form_start_def demo_container_def)
  let ?rq = "demo_submit_request ''SUBMIT_FORM_COMPLETE''"
  have ra: "resolveAction (c_Executable c) ?rq = Ok simpleFormFSMSubmitComplete"
    by (simp add: resolveAction_def demo_submit_request_def)
  have can: "container_CanTransition simpleFormFSMSubmitComplete c"
    by (simp add: container_CanTransition_def c GetPluginState_def submit_edges)
  from demo_submit obtain x c1 w1 where
    d: "sf_dispatch demo_env simpleFormFSMSubmitComplete (req_Content ?rq) (c, w) = (Ok (Some x), (c1, w1))"
    unfolding cw by (auto simp: sf_dispatch_def demo_submit_request_def)
  note qf = quiet_fsm [OF dispatch_conf d]
  have "\<exists>s2. container_Transition demo_env simpleFormFSMSubmitComplete (c1, w1) = (Ok (), s2)"
    using qf c by (simp add: run_simps)
  then show ?thesis
    using Execute_resolved [of "(c, w)" ?rq, simplified, OF ra can d] unfolding cw by (auto simp: bindS_def returnS_def)
qed

theorem verification_can_be_bypassed_witness:
  "\<exists>resp c' w'. requiresVerification (c_Executable (fst (demo_form_start '''')))
     \<and> sf_Execute demo_env (Some (demo_submit_request ''SUBMIT_FORM_COMPLETE'')) (demo_form_start '''') = (Ok resp, (c', w'))
     \<and> states_of c' = (TraderSubmitted, Completed)"
proof -
  obtain c w where cw: "demo_form_start '''' = (c, w)" by (cases "demo_form_start ''''")
  have c: "c_fsm c = Some NewSimpleFormFSM" "requiresVerification (c_Executable c)"
    using cw by (auto simp: demo_form_start_def demo_container_def requiresVerification_def demo_plugin_def)
  from demo_bypass_run obtain resp c' w' where
    run: "sf_Execute demo_env (Some (demo_submit_request ''SUBMIT_FORM_COMPLETE'')) (c, w) = (Ok resp, (c', w'))"
    unfolding cw by auto
  from verification_can_be_bypassed [OF c(2,1) run [unfolded demo_submit_request_def]] run c(2) show ?thesis
    unfolding cw by auto
qed

end
