(* ===== verification/WaitForEventPlugin.thy ===== *)
theory WaitForEventPlugin
  imports TaskContainer
begin

text \<open>
  The plugin that notifies an external service and waits for its callback,
  \<open>backend/internal/task/plugin/wait\_for\_event.go\<close>. The nil checks of the remote manager are a
  field of the plugin; the remote exchange is the environment's \<open>te_remote\<close>.
\<close>

section \<open>Configuration\<close>

record WaitForEventDisplay =
  wd_Title :: any
  wd_Description :: any

record WaitForEventConfig =
  wc_Display :: "WaitForEventDisplay option"
  wc_Submission :: "SubmissionConfig option"

record WaitForEventTask =
  wt_config :: WaitForEventConfig
  wt_serviceBaseURL :: string
  wt_remoteManager :: bool

type_synonym 'a wfe = "(WaitForEventTask, 'a) cop"

definition dec_wfe_display :: "WaitForEventDisplay decoder" where
  "dec_wfe_display = dec_struct (\<lambda>m.
     Ok \<lparr>wd_Title = (case map_get m ''title'' of None \<Rightarrow> JNull | Some v \<Rightarrow> v),
         wd_Description = (case map_get m ''description'' of None \<Rightarrow> JNull | Some v \<Rightarrow> v)\<rparr>)"

definition dec_wfe_config :: "WaitForEventConfig decoder" where
  "dec_wfe_config = dec_struct (\<lambda>m.
     bind_res (dec_field (dec_ptr dec_wfe_display) ''display'' m) (\<lambda>d.
     bind_res (dec_field (dec_ptr dec_submission) ''submission'' m) (\<lambda>s.
     Ok \<lparr>wc_Display = d, wc_Submission = s\<rparr>)))"

definition NewWaitForEventTask :: "any option \<Rightarrow> string \<Rightarrow> bool \<Rightarrow> WaitForEventTask res" where
  "NewWaitForEventTask raw serviceBaseURL remoteManager =
     bind_res (unmarshal dec_wfe_config raw) (\<lambda>cfg.
     Ok \<lparr>wt_config = cfg, wt_serviceBaseURL = serviceBaseURL, wt_remoteManager = remoteManager\<rparr>)"

section \<open>Notification\<close>

definition wfe_lookupValueFromGlobalStore :: "'p Container \<Rightarrow> string \<Rightarrow> any" where
  "wfe_lookupValueFromGlobalStore c key =
     (if key = '''' then JNull else (case ReadFromGlobalStore key c of None \<Rightarrow> JNull | Some value \<Rightarrow> value))"

definition resolveInputData :: "WaitForEventTask Container \<Rightarrow> any" where
  "resolveInputData c =
     (case wc_Submission (wt_config (c_Executable c)) of
        None \<Rightarrow> JNull
      | Some sub \<Rightarrow>
          (case sb_Request sub of
             None \<Rightarrow> JNull
           | Some rq \<Rightarrow>
               (case rq_Template rq of
                  None \<Rightarrow> JNull
                | Some template \<Rightarrow> ResolveTemplate template (wfe_lookupValueFromGlobalStore c))))"

text \<open>\<open>WaitForEventExternalServiceRequest\<close> as it is sent.\<close>

definition event_request :: "string \<Rightarrow> string \<Rightarrow> string \<Rightarrow> string \<Rightarrow> any \<Rightarrow> any" where
  "event_request taskCode taskID workflowID serviceURL data =
     JObj [(''taskCode'', JStr taskCode), (''taskId'', JStr taskID), (''workflowId'', JStr workflowID),
           (''serviceUrl'', JStr serviceURL), (''data'', data)]"

definition notifyExternalService :: "TaskEnv \<Rightarrow> string \<Rightarrow> string \<Rightarrow> unit wfe" where
  "notifyExternalService env taskID workflowID =
     bindS (getC (\<lambda>c. c)) (\<lambda>c.
       let t = c_Executable c in
       case wc_Submission (wt_config t) of
         None \<Rightarrow> failS (Errorf ''submission config is missing'' [])
       | Some sub \<Rightarrow>
           let taskCode = (case sb_Request sub of None \<Rightarrow> '''' | Some rq \<Rightarrow> rq_TaskCode rq);
               extReq = event_request taskCode taskID workflowID
                 (trim_right CHR ''/'' (wt_serviceBaseURL t) @ ''/api/v1/tasks'') (resolveInputData c)
           in if taskCode = '''' then failS (Errorf ''taskCode is required for external service submission'' [])
              else if \<not> wt_remoteManager t then failS (Errorf ''remote manager not initialized'' [])
              else bindS (wrapS ''failed to notify external service'' [sb_Url sub]
                            (on_world (remote_call env (sb_ServiceID sub, sb_Url sub, extReq)))) (\<lambda>_. returnS ()))"

definition wfe_Start :: "TaskEnv \<Rightarrow> ExecutionResponse option wfe" where
  "wfe_Start env =
     bindS (getC (\<lambda>c. c)) (\<lambda>c.
       if \<not> container_CanTransition FSMActionStart c
       then returnS (Some (emptyResponse\<lparr>xr_Message := ''WaitForEvent already started''\<rparr>))
       else if (case wc_Submission (wt_config (c_Executable c)) of None \<Rightarrow> True | Some sub \<Rightarrow> sb_Url sub = '''')
       then failS (Errorf ''submission url not configured in task config'' [])
       else
         bindS (attemptS (notifyExternalService env (c_TaskID c) (c_WorkflowID c))) (\<lambda>res.
           case res of
             Panic \<Rightarrow> liftS Panic
           | Err e \<Rightarrow>
               bindS (wrapS ''failed to notify external service and transition to NOTIFY_FAILED'' []
                        (container_Transition env waitForEventFSMStartFailed)) (\<lambda>_.
               returnS (Some (emptyResponse\<lparr>xr_Message := ''Failed to notify external service''\<rparr>)))
           | Ok _ \<Rightarrow>
               bindS (container_Transition env FSMActionStart) (\<lambda>_.
               returnS (Some (emptyResponse\<lparr>xr_Message := ''Notified external service, waiting for callback''\<rparr>)))))"

section \<open>Actions\<close>

text \<open>A content that is neither an object nor null does not decode into a map.\<close>

fun wfe_mapping :: "obj \<Rightarrow> (string, string) gomap \<Rightarrow> obj \<Rightarrow> obj" where
  "wfe_mapping responseData [] parsedData = parsedData"
| "wfe_mapping responseData ((responsePath, targetKey) # mapping) parsedData =
     (case GetValueByPath responseData responsePath of
        None \<Rightarrow> wfe_mapping responseData mapping parsedData
      | Some val \<Rightarrow> wfe_mapping responseData mapping (map_put targetKey val parsedData))"

definition wfe_parseResponseData :: "any \<Rightarrow> (string, string) gomap \<Rightarrow> obj" where
  "wfe_parseResponseData content mapping =
     (if content = JNull \<or> mapping = [] then []
      else (case content of JObj responseData \<Rightarrow> wfe_mapping responseData mapping [] | _ \<Rightarrow> []))"

definition response_mapping :: "WaitForEventTask \<Rightarrow> (string, string) gomap option" where
  "response_mapping t =
     (case wc_Submission (wt_config t) of
        None \<Rightarrow> None
      | Some sub \<Rightarrow> (case sb_Response sub of None \<Rightarrow> None | Some r \<Rightarrow> rs_Mapping r))"

definition wfe_Execute :: "TaskEnv \<Rightarrow> ExecutionRequest option \<Rightarrow> ExecutionResponse option wfe" where
  "wfe_Execute env request =
     (case request of
        None \<Rightarrow> failS (Errorf ''execution request is required'' [])
      | Some rq \<Rightarrow>
          if req_Action rq = waitForEventFSMRetry then
            bindS (getC (\<lambda>c. (c_TaskID c, c_WorkflowID c))) (\<lambda>(taskID, workflowID).
            bindS (attemptS (notifyExternalService env taskID workflowID)) (\<lambda>res.
              case res of
                Panic \<Rightarrow> liftS Panic
              | Err e \<Rightarrow>
                  returnS (Some (emptyResponse\<lparr>xr_Message := ''Failed to notify external service'',
                    xr_ApiResponse := Some (error_response ''EXTERNAL_SERVICE_NOTIFICATION_FAILED'' ''Failed to notify external service'')\<rparr>))
              | Ok _ \<Rightarrow>
                  bindS (container_Transition env waitForEventFSMRetry) (\<lambda>_.
                  returnS (Some (emptyResponse\<lparr>xr_Message := ''Notified external service, waiting for callback'',
                    xr_ApiResponse := Some ok_response\<rparr>)))))
          else if req_Action rq = waitForEventFSMComplete then
            bindS (attemptS (WriteToLocalStore env ''eventResponse'' (GJson (req_Content rq)))) (\<lambda>_.
            bindS the_plugin (\<lambda>t.
            bindS (container_Transition env waitForEventFSMComplete) (\<lambda>_.
            returnS (Some (emptyResponse\<lparr>
              xr_Outputs := (case response_mapping t of None \<Rightarrow> [] | Some mapping \<Rightarrow> wfe_parseResponseData (req_Content rq) mapping),
              xr_Message := ''Task completed by external service'', xr_ApiResponse := Some ok_response\<rparr>)))))
          else failS (Errorf ''unsupported action for WaitForEventTask'' [req_Action rq]))"

section \<open>Rendering\<close>

definition resolveDisplayField :: "any \<Rightarrow> string \<Rightarrow> string \<Rightarrow> any res" where
  "resolveDisplayField field state fieldName =
     (case field of
        JNull \<Rightarrow> Ok JNull
      | JStr s \<Rightarrow> Ok (JStr s)
      | JObj values \<Rightarrow>
          (case map_get values state of
             None \<Rightarrow> Err (Errorf ''value for state not found in display configuration'' [fieldName, state])
           | Some (JStr s) \<Rightarrow> Ok (JStr s)
           | Some _ \<Rightarrow> Err (Errorf ''invalid type for display, expected string'' [fieldName, state]))
      | _ \<Rightarrow> Err (Errorf ''invalid type for display, expected string or map[string]any'' [fieldName]))"

definition getDisplay :: "WaitForEventTask \<Rightarrow> string \<Rightarrow> WaitForEventDisplay res" where
  "getDisplay t state =
     (case wc_Display (wt_config t) of
        None \<Rightarrow> Err (Errorf ''display configuration is missing'' [])
      | Some d \<Rightarrow>
          bind_res (if state = notifiedService then Ok ''waiting''
                    else if state = notifyFailed then Ok ''failed''
                    else if state = receivedCallback then Ok ''completed''
                    else Err (Errorf ''unsupported wait_for_event plugin state'' [state])) (\<lambda>resolvedState.
          bind_res (resolveDisplayField (wd_Title d) resolvedState ''title'') (\<lambda>title.
          bind_res (resolveDisplayField (wd_Description d) resolvedState ''description'') (\<lambda>description.
          Ok \<lparr>wd_Title = title, wd_Description = description\<rparr>))))"

definition display_json :: "WaitForEventDisplay \<Rightarrow> any" where
  "display_json d = JObj [(''title'', wd_Title d), (''description'', wd_Description d)]"

definition wfe_attachFormDisplay :: "TaskEnv \<Rightarrow> string \<Rightarrow> string \<Rightarrow> string \<Rightarrow> obj \<Rightarrow> obj wfe" where
  "wfe_attachFormDisplay env storeKey formID contentKey content =
     (if formID = '''' then returnS content
      else bindS (getC (ReadFromLocalStore storeKey)) (\<lambda>data.
             if data = GJson JNull then returnS content
             else bindS (attemptS (on_world (GetFormByID env formID))) (\<lambda>res.
                    case res of
                      Ok def \<Rightarrow> returnS (map_put contentKey
                        (JObj [(''title'', JStr (fr_Name def)), (''uiSchema'', raw_json (fr_UISchema def)),
                               (''schema'', raw_json (fr_Schema def)), (''formData'', to_json env data)]) content)
                    | _ \<Rightarrow> returnS content)))"

definition renderContent :: "TaskEnv \<Rightarrow> obj wfe" where
  "renderContent env =
     bindS (getC (\<lambda>c. c)) (\<lambda>c.
       let t = c_Executable c;
           content = (case wc_Display (wt_config t) of
                        None \<Rightarrow> []
                      | Some _ \<Rightarrow>
                          [(''display'', display_json (case getDisplay t (GetPluginState c) of
                             Ok d \<Rightarrow> d | _ \<Rightarrow> \<lparr>wd_Title = JNull, wd_Description = JNull\<rparr>))])
       in case wc_Submission (wt_config t) of
            None \<Rightarrow> returnS content
          | Some sub \<Rightarrow>
              (case sb_Response sub of
                 None \<Rightarrow> returnS content
               | Some r \<Rightarrow> wfe_attachFormDisplay env ''eventResponse'' (displayFormID (Some r)) ''eventReviewForm'' content))"

definition wfe_GetRenderInfo :: "TaskEnv \<Rightarrow> ApiResponse wfe" where
  "wfe_GetRenderInfo env =
     bindS (getC (\<lambda>c. (GetPluginState c, GetTaskState c))) (\<lambda>(pluginState, state).
     bindS (renderContent env) (\<lambda>content.
     returnS (render_response TaskTypeWaitForEvent pluginState state (JObj content))))"

section \<open>The contract\<close>

lemma notify_conf [conf]: "quiet (notifyExternalService env i w)"
  unfolding notifyExternalService_def Let_def by (intro conf)

lemma wfe_start_conf: "conforms env (wfe_Start env)"
  unfolding wfe_Start_def by (intro conf)

lemma wfe_execute_conf: "conforms env (wfe_Execute env request)"
  unfolding wfe_Execute_def by (intro conf)

lemma wfe_attach_conf [conf]: "quiet (wfe_attachFormDisplay env a b c d)"
  unfolding wfe_attachFormDisplay_def by (intro conf)

lemma wfe_render_conf: "conforms env (wfe_GetRenderInfo env)"
  unfolding wfe_GetRenderInfo_def renderContent_def Let_def by (rule quiet_conforms) (intro conf)

interpretation wait_for_event: plugin_contract env "wfe_Start env" "wfe_GetRenderInfo env" "wfe_Execute env" for env
  by (rule plugin_contract.intro [OF wfe_start_conf wfe_render_conf wfe_execute_conf])

section \<open>Guards and effects\<close>

lemma Transition_result_refused:
  assumes "c_fsm (fst s) = Some fsm" and "\<not> CanTransition fsm (c_pluginState (fst s)) action"
  shows "\<exists>e. container_Transition env action s = (Err e, s)"
  using Transition_refused [OF assms(1,2), of env "snd s"] by simp

lemma event_edges:
  "CanTransition NewWaitForEventFSM ps waitForEventFSMRetry \<longleftrightarrow> ps = notifyFailed"
  "CanTransition NewWaitForEventFSM ps waitForEventFSMComplete \<longleftrightarrow> ps = notifiedService"
  by (simp_all add: CanTransition_def fsm_tables)

lemma WriteToLocalStore_read:
  assumes "lm_cache (c_localState c) \<noteq> None"
  shows "\<exists>u c' w'. attemptS (WriteToLocalStore env k v) (c, w) = (Ok u, (c', w')) \<and> ReadFromLocalStore k c' = v"
proof -
  obtain r m' w' where l: "lm_SetState env k v (c_localState c, w) = (r, (m', w'))"
    by (cases "lm_SetState env k v (c_localState c, w)") auto
  have live: "live_cache (c_localState c, w)" using assms by (simp add: live_cache_def)
  have "r \<noteq> Panic" "lm_GetState k m' = v"
    using local_state.write_keeps [OF live l] local_state.read_after_write [OF live l, of k] by simp_all
  then show ?thesis using l by (cases r) (auto simp: attemptS_def WriteToLocalStore_def ReadFromLocalStore_def)
qed

text \<open>
  The plugin acts before it asks the state machine: a callback that is not awaited is refused with
  an error and moves no state, yet its content replaces the stored event response; a retry that is
  not permitted is refused too, after the external service has been notified again.
\<close>

theorem event_effects_before_guard:
  assumes "c_fsm c = Some NewWaitForEventFSM" and "lm_cache (c_localState c) \<noteq> None"
  shows "(c_pluginState c \<noteq> notifiedService \<longrightarrow>
      (\<exists>e c' w'. wfe_Execute env (Some \<lparr>req_Action = ''OGA_VERIFICATION'', req_Content = content\<rparr>) (c, w) = (Err e, (c', w'))
         \<and> states_of c' = states_of c \<and> ReadFromLocalStore ''eventResponse'' c' = GJson content))
    \<and> (c_pluginState c \<noteq> notifyFailed \<and> notifyExternalService env (c_TaskID c) (c_WorkflowID c) (c, w) = (Ok (), (c1, w1)) \<longrightarrow>
      (\<exists>e c' w' call. wfe_Execute env (Some \<lparr>req_Action = ''RETRY'', req_Content = content\<rparr>) (c, w) = (Err e, (c', w'))
         \<and> states_of c' = states_of c \<and> w_calls w' = call # w_calls w))"
proof (intro conjI impI)
  assume ps: "c_pluginState c \<noteq> notifiedService"
  obtain u c' w' where wr: "attemptS (WriteToLocalStore env ''eventResponse'' (GJson content)) (c, w) = (Ok u, (c', w'))"
    and rd: "ReadFromLocalStore ''eventResponse'' c' = GJson content" using WriteToLocalStore_read [OF assms(2)] by blast
  note q = quiet_fsm [OF quiet_attemptS [OF quiet_WriteToLocalStore] wr] and q' = quietD [OF quiet_attemptS [OF quiet_WriteToLocalStore] wr]
  have "\<exists>e. container_Transition env waitForEventFSMComplete (c', w') = (Err e, (c', w'))"
    by (rule Transition_result_refused [where fsm = NewWaitForEventFSM]) (use q ps assms(1) event_edges(2) in simp_all)
  then obtain e where tr: "container_Transition env waitForEventFSMComplete (c', w') = (Err e, (c', w'))" by blast
  have "wfe_Execute env (Some \<lparr>req_Action = ''OGA_VERIFICATION'', req_Content = content\<rparr>) (c, w) = (Err e, (c', w'))"
    by (simp add: wfe_Execute_def bindS_def wr tr the_plugin_def getC_def)
  with rd q' show "\<exists>e c' w'. wfe_Execute env (Some \<lparr>req_Action = ''OGA_VERIFICATION'', req_Content = content\<rparr>) (c, w) = (Err e, (c', w'))
         \<and> states_of c' = states_of c \<and> ReadFromLocalStore ''eventResponse'' c' = GJson content" by auto
next
  assume a: "c_pluginState c \<noteq> notifyFailed \<and> notifyExternalService env (c_TaskID c) (c_WorkflowID c) (c, w) = (Ok (), (c1, w1))"
  then have n: "attemptS (notifyExternalService env (c_TaskID c) (c_WorkflowID c)) (c, w) = (Ok (Ok ()), (c1, w1))"
    by (simp add: attemptS_def)
  note q = quiet_fsm [OF notify_conf conjunct2 [OF a]] and q' = quietD [OF notify_conf conjunct2 [OF a]]
  have call: "\<exists>call. w_calls w1 = call # w_calls w"
    using a by (auto simp: notifyExternalService_def op_simps getC_def Let_def on_world_def remote_call_def failS_def
        split: option.splits if_splits prod.splits)
  have "\<exists>e. container_Transition env waitForEventFSMRetry (c1, w1) = (Err e, (c1, w1))"
    by (rule Transition_result_refused [where fsm = NewWaitForEventFSM]) (use q a assms(1) event_edges(1) in simp_all)
  then obtain e where tr: "container_Transition env waitForEventFSMRetry (c1, w1) = (Err e, (c1, w1))" by blast
  have "wfe_Execute env (Some \<lparr>req_Action = ''RETRY'', req_Content = content\<rparr>) (c, w) = (Err e, (c1, w1))"
    by (simp add: wfe_Execute_def bindS_def n tr getC_def)
  with call q' show "\<exists>e c' w' call. wfe_Execute env (Some \<lparr>req_Action = ''RETRY'', req_Content = content\<rparr>) (c, w) = (Err e, (c', w'))
         \<and> states_of c' = states_of c \<and> w_calls w' = call # w_calls w" by auto
qed

text \<open>
  Starting a task that was never started tells by its state whether the external service knows of
  it: the start succeeds with NOTIFIED\_SERVICE if the call was accepted and with NOTIFY\_FAILED if
  it failed, in progress in both cases; only a missing URL or a failing write makes it an error.
\<close>

theorem event_start_states:
  assumes "c_fsm c = Some NewWaitForEventFSM" and "c_pluginState c = ''''"
    and "wfe_Start env (c, w) = (Ok resp, (c', w'))"
  shows "states_of c' = (if is_ok (fst (notifyExternalService env (c_TaskID c) (c_WorkflowID c) (c, w)))
            then (notifiedService, InProgress) else (notifyFailed, InProgress))
     \<and> (synced (c, w) \<longrightarrow> synced (c', w'))"
proof -
  have can: "container_CanTransition FSMActionStart c"
    by (simp add: container_CanTransition_def assms GetPluginState_def CanTransition_def fsm_tables)
  have url: "\<not> (case wc_Submission (wt_config (c_Executable c)) of None \<Rightarrow> True | Some sub \<Rightarrow> sb_Url sub = '''')"
    using assms(3) can by (auto simp: wfe_Start_def bindS_def getC_def failS_def)
  obtain r1 c1 w1 where n: "notifyExternalService env (c_TaskID c) (c_WorkflowID c) (c, w) = (r1, (c1, w1))"
    by (cases "notifyExternalService env (c_TaskID c) (c_WorkflowID c) (c, w)") auto
  note q = quiet_fsm [OF notify_conf n] and q' = quietD [OF notify_conf n]
  have "\<exists>action u. container_Transition env action (c1, w1) = (Ok u, (c', w'))
      \<and> action = (if is_ok r1 then FSMActionStart else waitForEventFSMStartFailed)"
    using assms(3) can url n
    by (cases r1) (auto simp: wfe_Start_def bindS_def [where m = "getC _"] getC_def bindS_def [where m = "attemptS _"] attemptS_def
        liftS_def op_simps)
  then obtain action u where tr: "container_Transition env action (c1, w1) = (Ok u, (c', w'))"
    and act: "action = (if is_ok r1 then FSMActionStart else waitForEventFSMStartFailed)" by blast
  from tr show ?thesis
  proof (cases rule: Transition_cases)
    case 1
    then show ?thesis using q assms(1) by simp
  next
    case (2 f)
    then show ?thesis by simp
  next
    case (3 f out)
    then have "out = TransitionOutcome (if is_ok r1 then notifiedService else notifyFailed) InProgress"
      using q assms(1,2) act by (auto simp: Transition_def fsm_tables split: if_splits)
    moreover have "synced (c, w) \<longrightarrow> synced (c', w')" using 3(5) q' by simp
    ultimately show ?thesis using 3(4) n by (simp add: states_of_def moved_def)
  qed
qed

section \<open>A concrete task\<close>

definition demo_event :: WaitForEventTask where
  "demo_event = \<lparr>wt_config = \<lparr>wc_Display = None, wc_Submission = Some \<lparr>sb_ServiceID = ''oga'', sb_Url = ''http://oga'',
     sb_Request = Some \<lparr>rq_TaskCode = ''T'', rq_Template = None\<rparr>, sb_Response = None\<rparr>\<rparr>,
     wt_serviceBaseURL = ''http://nsw'', wt_remoteManager = True\<rparr>"

definition demo_event_state :: "string \<Rightarrow> WaitForEventTask Container" where
  "demo_event_state ps = demo_container demo_event NewWaitForEventFSM ps InProgress []"

lemma demo_notify:
  "\<exists>s1. notifyExternalService demo_env ''t1'' ''wf'' (demo_event_state ps, demo_world []) = (Ok (), s1)"
  by (simp add: notifyExternalService_def demo_event_state_def demo_event_def run_simps remote_call_def)

theorem event_effects_before_guard_witness:
  "(\<exists>e c' w'. wfe_Execute demo_env (Some \<lparr>req_Action = ''OGA_VERIFICATION'', req_Content = JStr ''x''\<rparr>)
        (demo_event_state notifyFailed, demo_world []) = (Err e, (c', w')) \<and> ReadFromLocalStore ''eventResponse'' c' = GJson (JStr ''x''))
   \<and> (\<exists>e c' w' call. wfe_Execute demo_env (Some \<lparr>req_Action = ''RETRY'', req_Content = JNull\<rparr>)
        (demo_event_state receivedCallback, demo_world []) = (Err e, (c', w')) \<and> w_calls w' = [call])"
proof
  have f: "c_fsm (demo_event_state ps) = Some NewWaitForEventFSM" "lm_cache (c_localState (demo_event_state ps)) \<noteq> None"
    "c_pluginState (demo_event_state ps) = ps" "c_TaskID (demo_event_state ps) = ''t1''" "c_WorkflowID (demo_event_state ps) = ''wf''" for ps
    by (simp_all add: demo_event_state_def demo_container_def)
  show "\<exists>e c' w'. wfe_Execute demo_env (Some \<lparr>req_Action = ''OGA_VERIFICATION'', req_Content = JStr ''x''\<rparr>)
        (demo_event_state notifyFailed, demo_world []) = (Err e, (c', w')) \<and> ReadFromLocalStore ''eventResponse'' c' = GJson (JStr ''x'')"
    using event_effects_before_guard [OF f(1,2), THEN conjunct1, of notifyFailed demo_env "JStr ''x''" "demo_world []"]
    by (auto simp: f(3))
  obtain c1 w1 where "notifyExternalService demo_env ''t1'' ''wf'' (demo_event_state receivedCallback, demo_world []) = (Ok (), (c1, w1))"
    using demo_notify [of receivedCallback] by auto
  then show "\<exists>e c' w' call. wfe_Execute demo_env (Some \<lparr>req_Action = ''RETRY'', req_Content = JNull\<rparr>)
        (demo_event_state receivedCallback, demo_world []) = (Err e, (c', w')) \<and> w_calls w' = [call]"
    using event_effects_before_guard [OF f(1,2), THEN conjunct2, of receivedCallback demo_env "demo_world []" c1 w1 JNull]
    by (auto simp: f(3-5) demo_world_def)
qed

lemma demo_event_started:
  "\<exists>resp s'. wfe_Start demo_env (demo_event_state '''', demo_world []) = (Ok resp, s')"
  by (simp add: wfe_Start_def notifyExternalService_def demo_event_state_def demo_event_def run_simps remote_call_def)

theorem event_start_states_witness:
  "\<exists>resp c' w'. wfe_Start demo_env (demo_event_state '''', demo_world []) = (Ok resp, (c', w')) \<and> states_of c' = (notifiedService, InProgress)"
proof -
  obtain resp c' w' where run: "wfe_Start demo_env (demo_event_state '''', demo_world []) = (Ok resp, (c', w'))"
    using demo_event_started by auto
  have f: "c_fsm (demo_event_state '''') = Some NewWaitForEventFSM" "c_pluginState (demo_event_state '''') = ''''"
    "c_TaskID (demo_event_state '''') = ''t1''" "c_WorkflowID (demo_event_state '''') = ''wf''"
    by (simp_all add: demo_event_state_def demo_container_def)
  from event_start_states [OF f(1,2) run] run demo_notify [of "''''"] show ?thesis by (auto simp: f(3,4))
qed

end
