(* ===== verification/Payments.thy ===== *)
theory Payments
  imports TaskStore
begin

text \<open>
  The payment service, \<open>backend/internal/payments/service.go\<close>, on its table
  (\<open>repository.go\<close>, \<open>models.go\<close>): checkout sessions, the gateway's validation of a reference and
  its webhook. Amounts are exact rationals (\<open>decimal.Decimal\<close>), times are nanoseconds, time stamps
  of rows are left out. The primary key and the unique index on reference numbers make \<open>Create\<close> fail.
\<close>

section \<open>Requests and responses\<close>

abbreviation PaymentStatusPending :: string where "PaymentStatusPending \<equiv> ''PENDING''"
abbreviation PaymentStatusSuccess :: string where "PaymentStatusSuccess \<equiv> ''SUCCESS''"
abbreviation PaymentStatusFailed :: string where "PaymentStatusFailed \<equiv> ''FAILED''"

record CreateCheckoutRequest =
  cq_ReferenceNumber :: string
  cq_Amount :: rat
  cq_Currency :: string
  cq_ReturnURL :: string
  cq_CancelURL :: string
  cq_ExpiresAt :: int
  cq_Metadata :: "(string, string) gomap"

record CreateCheckoutResponse =
  cr_SessionID :: string
  cr_CheckoutURL :: string
  cr_ExpiresIn :: int

record ValidateReferenceResponse =
  vr_Amount :: rat
  vr_Currency :: string
  vr_TraderName :: string
  vr_OGAName :: string
  vr_ExpiryDate :: string
  vr_IsPayable :: bool
  vr_Remarks :: string

record WebhookPayload =
  wh_ReferenceNumber :: string
  wh_SessionID :: string
  wh_GatewayTransactionID :: string
  wh_Status :: string
  wh_PaymentMethod :: string
  wh_Timestamp :: string

section \<open>repository.go\<close>

definition pay_Create :: "TaskEnv \<Rightarrow> PaymentRecord \<Rightarrow> unit wop" where
  "pay_Create env ptx = task_db env (\<lambda>w.
     if \<exists>p \<in> set (w_payments w). py_ID p = py_ID ptx \<or> py_ReferenceNumber p = py_ReferenceNumber ptx
     then (Err (External ''duplicate key value''), w)
     else (Ok (), w\<lparr>w_payments := w_payments w @ [ptx]\<rparr>))"

text \<open>Not found is no error: the pointer is nil.\<close>

definition nil_when_missing :: "'a wop \<Rightarrow> 'a option wop" where
  "nil_when_missing m w =
     (case m w of
        (Ok v, w') \<Rightarrow> (Ok (Some v), w')
      | (Err e, w') \<Rightarrow> if is_not_found e then (Ok None, w') else (Err e, w')
      | (Panic, w') \<Rightarrow> (Panic, w'))"

definition GetByReferenceNumber :: "TaskEnv \<Rightarrow> string \<Rightarrow> PaymentRecord option wop" where
  "GetByReferenceNumber env referenceNumber =
     nil_when_missing (task_db env (\<lambda>w. (db_first (\<lambda>p. py_ReferenceNumber p = referenceNumber) (w_payments w), w)))"

definition GetByTaskID :: "TaskEnv \<Rightarrow> string \<Rightarrow> PaymentRecord option wop" where
  "GetByTaskID env taskID =
     nil_when_missing (task_db env (\<lambda>w. (db_first (\<lambda>p. py_TaskID p = taskID) (w_payments w), w)))"

text \<open>\<open>Save\<close> writes the row with the payment's id, or inserts it.\<close>

definition pay_Update :: "TaskEnv \<Rightarrow> PaymentRecord \<Rightarrow> unit wop" where
  "pay_Update env ptx = task_db env (\<lambda>w.
     if \<exists>p \<in> set (w_payments w). py_ID p = py_ID ptx
     then (Ok (), w\<lparr>w_payments := update_where (\<lambda>p. py_ID p = py_ID ptx) (\<lambda>_. ptx) (w_payments w)\<rparr>)
     else (Ok (), w\<lparr>w_payments := w_payments w @ [ptx]\<rparr>))"

definition pay_UpdateStatus :: "TaskEnv \<Rightarrow> string \<Rightarrow> string \<Rightarrow> unit wop" where
  "pay_UpdateStatus env referenceNumber status = task_db env (\<lambda>w.
     (Ok (), w\<lparr>w_payments := update_where (\<lambda>p. py_ReferenceNumber p = referenceNumber) (\<lambda>p. p\<lparr>py_Status := status\<rparr>) (w_payments w)\<rparr>))"

section \<open>service.go\<close>

definition show_int :: "int \<Rightarrow> string" where
  "show_int i = (if i < 0 then CHR ''-'' # show_nat (nat (- i)) else show_nat (nat i))"

definition quot :: "int \<Rightarrow> int \<Rightarrow> int" where
  "quot a b = (if a < 0 then - ((- a) div b) else a div b)"

definition CreateCheckoutSession :: "TaskEnv \<Rightarrow> CreateCheckoutRequest \<Rightarrow> CreateCheckoutResponse wop" where
  "CreateCheckoutSession env rq =
     bindS (time_now env) (\<lambda>now.
     let sessionID = ''sess_'' @ show_int now in
     case map_get (cq_Metadata rq) ''task_id'' of
       None \<Rightarrow> failS (Errorf ''task_id is required in metadata'' [])
     | Some taskID \<Rightarrow>
         bindS (new_uuid env) (\<lambda>i.
         bindS (wrapS ''failed to create payment transaction'' []
           (pay_Create env \<lparr>py_ID = i, py_ReferenceNumber = cq_ReferenceNumber rq, py_TaskID = taskID, py_SessionID = sessionID,
              py_Amount = cq_Amount rq, py_Currency = cq_Currency rq, py_Status = PaymentStatusPending, py_PaymentMethod = '''',
              py_ExpiryDate = cq_ExpiresAt rq, py_GatewayMetadata = cq_Metadata rq\<rparr>)) (\<lambda>_.
         bindS (time_now env) (\<lambda>now2.
         returnS \<lparr>cr_SessionID = sessionID, cr_CheckoutURL = ''https://sandbox.govpay.lk/checkout/'' @ sessionID,
                  cr_ExpiresIn = quot (cq_ExpiresAt rq - now2) (10 ^ 9)\<rparr>))))"

definition ValidateReference :: "TaskEnv \<Rightarrow> string \<Rightarrow> ValidateReferenceResponse wop" where
  "ValidateReference env paymentReference =
     bindS (wrapS ''failed to retrieve payment reference'' [] (GetByReferenceNumber env paymentReference)) (\<lambda>tx.
       case tx of
         None \<Rightarrow> returnS \<lparr>vr_Amount = 0, vr_Currency = '''', vr_TraderName = '''', vr_OGAName = '''', vr_ExpiryDate = '''',
                         vr_IsPayable = False, vr_Remarks = ''Invalid reference number''\<rparr>
       | Some tx \<Rightarrow>
           bindS (if py_Status tx = PaymentStatusPending
                  then bindS (time_now env) (\<lambda>now. returnS (now < py_ExpiryDate tx)) else returnS False) (\<lambda>isPayable.
           returnS \<lparr>vr_Amount = py_Amount tx, vr_Currency = py_Currency tx, vr_TraderName = ''Sample Trader'',
                    vr_OGAName = ''Sample OGA'', vr_ExpiryDate = te_format env (py_ExpiryDate tx),
                    vr_IsPayable = isPayable, vr_Remarks = ''Current status: '' @ py_Status tx\<rparr>))"

definition webhook_update :: "WebhookPayload \<Rightarrow> PaymentRecord \<Rightarrow> PaymentRecord" where
  "webhook_update payload tx = tx\<lparr>py_Status := wh_Status payload, py_PaymentMethod := wh_PaymentMethod payload,
     py_GatewayMetadata := map_put ''webhook_timestamp'' (wh_Timestamp payload)
       (map_put ''gateway_transaction_id'' (wh_GatewayTransactionID payload) (py_GatewayMetadata tx))\<rparr>"

definition ProcessWebhook :: "TaskEnv \<Rightarrow> WebhookPayload \<Rightarrow> unit wop" where
  "ProcessWebhook env payload =
     bindS (wrapS ''failed to retrieve payment by reference'' [] (GetByReferenceNumber env (wh_ReferenceNumber payload))) (\<lambda>tx.
       case tx of
         None \<Rightarrow> failS (Errorf ''payment reference not found'' [wh_ReferenceNumber payload])
       | Some tx \<Rightarrow>
           if py_Status tx = wh_Status payload \<or> py_Status tx = PaymentStatusSuccess then returnS ()
           else wrapS ''failed to update payment transaction status'' [] (pay_Update env (webhook_update payload tx)))"

section \<open>The table of payments\<close>

definition payments_ok :: "TaskWorld \<Rightarrow> bool" where
  "payments_ok w \<longleftrightarrow> distinct (map py_ID (w_payments w)) \<and> distinct (map py_ReferenceNumber (w_payments w))"

lemma GetByReferenceNumber_cases:
  assumes "GetByReferenceNumber env ref w = (r, w')"
  shows "w' = w\<lparr>w_tick := Suc (w_tick w)\<rparr> \<and> (is_err r \<or> r = Ok (List.find (\<lambda>p. py_ReferenceNumber p = ref) (w_payments w)) \<or> r = Ok None)
     \<and> (te_fault env (w_tick w) = None \<longrightarrow> r = Ok (List.find (\<lambda>p. py_ReferenceNumber p = ref) (w_payments w)))"
  using assms
  by (auto simp: GetByReferenceNumber_def nil_when_missing_def task_db_def db_first_def Let_def split: option.splits if_splits)

lemma pay_Update_rows:
  assumes "pay_Update env p w = (r, w')" and "q \<in> set (w_payments w)" and "py_ID p = py_ID q"
  shows "w_payments w' = (if r = Ok () then update_where (\<lambda>x. py_ID x = py_ID p) (\<lambda>_. p) (w_payments w) else w_payments w)"
  using assms by (auto simp: pay_Update_def task_db_def Let_def split: option.splits if_splits)

text \<open>
  The webhook is idempotent and success is final: a payload either leaves every payment alone or
  rewrites the one payment with its reference, whose status was neither SUCCESS nor the status
  reported; once a payment is SUCCESS no webhook changes any payment with its reference; the keys
  of the table stay unique; a failing call changes nothing.
\<close>

theorem webhook_changes:
  assumes "payments_ok w" and "ProcessWebhook env payload w = (r, w')"
  shows "(w_payments w' = w_payments w \<or>
      (r = Ok () \<and> (\<exists>p \<in> set (w_payments w). py_ReferenceNumber p = wh_ReferenceNumber payload
         \<and> py_Status p \<noteq> PaymentStatusSuccess \<and> py_Status p \<noteq> wh_Status payload
         \<and> w_payments w' = map (\<lambda>q. if q = p then webhook_update payload p else q) (w_payments w))))
    \<and> payments_ok w'"
proof -
  obtain r1 w1 where g: "GetByReferenceNumber env (wh_ReferenceNumber payload) w = (r1, w1)"
    by (cases "GetByReferenceNumber env (wh_ReferenceNumber payload) w")
  note gc = GetByReferenceNumber_cases [OF g]
  have w1: "w_payments w1 = w_payments w" using gc by simp
  consider "w_payments w' = w_payments w"
    | p where "r1 = Ok (Some p)" "py_Status p \<noteq> PaymentStatusSuccess" "py_Status p \<noteq> wh_Status payload"
      "wrapS ''failed to update payment transaction status'' [] (pay_Update env (webhook_update payload p)) w1 = (r, w')"
    using assms(2) g w1
    by (cases r1) (auto simp: ProcessWebhook_def bindS_def wrapS_def returnS_def failS_def split: option.splits if_splits)
  then show ?thesis
  proof cases
    case 1
    then show ?thesis using assms(1) by (simp add: payments_ok_def)
  next
    case (2 p)
    then have "List.find (\<lambda>p. py_ReferenceNumber p = wh_ReferenceNumber payload) (w_payments w) = Some p" using gc by auto
    then have p: "p \<in> set (w_payments w)" "py_ReferenceNumber p = wh_ReferenceNumber payload" using find_Some_mem by fast+
    obtain r2 where up: "pay_Update env (webhook_update payload p) w1 = (r2, w')" and r: "r2 = Ok () \<longleftrightarrow> r = Ok ()"
      using wrapS_Pair [OF 2(4)] by auto
    have id: "py_ID (webhook_update payload p) = py_ID p" "py_ReferenceNumber (webhook_update payload p) = py_ReferenceNumber p"
      by (simp_all add: webhook_update_def)
    note rows = pay_Update_rows [OF up _ id(1), unfolded w1, OF p(1)]
    show ?thesis
    proof (cases "r2 = Ok ()")
      case False
      then show ?thesis using rows assms(1) by (simp add: payments_ok_def)
    next
      case True
      have "py_ID q = py_ID p \<longleftrightarrow> q = p" if "q \<in> set (w_payments w)" for q
        using assms(1) that p(1) by (auto simp: payments_ok_def distinct_map inj_on_def)
      then have "w_payments w' = map (\<lambda>q. if q = p then webhook_update payload p else q) (w_payments w)"
        using rows True by (auto simp: update_where_def id)
      moreover from this have "map py_ID (w_payments w') = map py_ID (w_payments w)"
        "map py_ReferenceNumber (w_payments w') = map py_ReferenceNumber (w_payments w)"
        using id by auto
      then have "payments_ok w'" using assms(1) by (simp add: payments_ok_def)
      ultimately show ?thesis using p 2(2,3) r True by blast
    qed
  qed
qed

definition demo_payment :: PaymentRecord where
  "demo_payment = \<lparr>py_ID = ''p1'', py_ReferenceNumber = ''NSW-1'', py_TaskID = ''t1'', py_SessionID = ''s'', py_Amount = 100,
     py_Currency = ''LKR'', py_Status = ''PENDING'', py_PaymentMethod = '''', py_ExpiryDate = 10, py_GatewayMetadata = []\<rparr>"

definition demo_webhook :: WebhookPayload where
  "demo_webhook = \<lparr>wh_ReferenceNumber = ''NSW-1'', wh_SessionID = ''s'', wh_GatewayTransactionID = ''g'', wh_Status = ''SUCCESS'',
     wh_PaymentMethod = ''CC'', wh_Timestamp = ''now''\<rparr>"

theorem webhook_changes_witness:
  "\<exists>w'. ProcessWebhook demo_env demo_webhook ((demo_world [])\<lparr>w_payments := [demo_payment]\<rparr>) = (Ok (), w')
     \<and> w_payments w' = [webhook_update demo_webhook demo_payment] \<and> payments_ok w'"
proof -
  let ?w = "(demo_world [])\<lparr>w_payments := [demo_payment]\<rparr>"
  have ok: "payments_ok ?w" by (simp add: payments_ok_def)
  have run: "\<exists>w'. ProcessWebhook demo_env demo_webhook ?w = (Ok (), w') \<and> w_payments w' = [webhook_update demo_webhook demo_payment]"
    by (simp add: ProcessWebhook_def GetByReferenceNumber_def nil_when_missing_def task_db_def db_first_def demo_env_def demo_world_def
        demo_payment_def demo_webhook_def bindS_def wrapS_def pay_Update_def webhook_update_def update_where_def returnS_def Let_def)
  then obtain w' where w': "ProcessWebhook demo_env demo_webhook ?w = (Ok (), w')" "w_payments w' = [webhook_update demo_webhook demo_payment]"
    by blast
  from webhook_changes [OF ok w'(1)] w' show ?thesis by blast
qed

end
