(* ===== verification/PaymentPlugin.thy ===== *)
theory PaymentPlugin
  imports TaskContainer Payments
begin

text \<open>
  The payment plugin, \<open>backend/internal/task/plugin/payment.go\<close>: the price breakdown with its
  placeholders, the payment session with its time to live, and the handlers. The decimal
  library and the formatting and parsing of values are the fields of \<open>PayEnv\<close>; a \<open>decimal.Decimal\<close>
  is the rational it denotes. Replacing placeholders is a loop that need not end: it is an option,
  and a handler whose breakdown does not end does not return, which is the outcome \<open>Panic\<close> here.
  \<open>time.Duration\<close> is a 64-bit integer that wraps around.
\<close>

section \<open>Configuration\<close>

record BreakdownItem =
  bi_Description :: string
  bi_Category :: string
  bi_Type :: string
  bi_Quantity :: string
  bi_UnitPrice :: string
  bi_Value :: string

record ResolvedBreakdownItem =
  ri_Description :: string
  ri_Category :: string
  ri_Type :: string
  ri_Quantity :: rat
  ri_UnitPrice :: rat
  ri_Amount :: rat

record PaymentConfig =
  pc_Currency :: string
  pc_TTL :: int
  pc_OrgID :: string
  pc_ServiceType :: string
  pc_Breakdown :: "BreakdownItem list"

record PaymentTask =
  pt_config :: PaymentConfig

record PayEnv =
  pe_parse :: "string \<Rightarrow> rat option"      \<comment> \<open>\<open>decimal.NewFromString\<close>\<close>
  pe_float :: "rat \<Rightarrow> rat"                \<comment> \<open>\<open>decimal.NewFromFloat\<close>\<close>
  pe_div :: "rat \<Rightarrow> rat \<Rightarrow> rat"          \<comment> \<open>\<open>Div\<close>, to the library's precision\<close>
  pe_round2 :: "rat \<Rightarrow> rat"               \<comment> \<open>\<open>Round(2)\<close>\<close>
  pe_print :: "any \<Rightarrow> string"             \<comment> \<open>\<open>fmt.Sprintf("%v", v)\<close>\<close>
  pe_parse3339 :: "string \<Rightarrow> int option"  \<comment> \<open>\<open>time.Parse(time.RFC3339, s)\<close>\<close>
  pe_show :: "rat \<Rightarrow> any"                 \<comment> \<open>a decimal in JSON\<close>

type_synonym 'a pay = "(PaymentTask, 'a) cop"

definition dec_breakdown :: "BreakdownItem decoder" where
  "dec_breakdown = dec_struct (\<lambda>m.
     bind_res (dec_field dec_string ''description'' m) (\<lambda>d.
     bind_res (dec_field dec_string ''category'' m) (\<lambda>c.
     bind_res (dec_field dec_string ''type'' m) (\<lambda>t.
     bind_res (dec_field dec_string ''quantity'' m) (\<lambda>q.
     bind_res (dec_field dec_string ''unitPrice'' m) (\<lambda>u.
     bind_res (dec_field dec_string ''value'' m) (\<lambda>v.
     Ok \<lparr>bi_Description = d, bi_Category = c, bi_Type = t, bi_Quantity = q, bi_UnitPrice = u, bi_Value = v\<rparr>)))))))"

definition dec_payment_config :: "PaymentConfig decoder" where
  "dec_payment_config = dec_struct (\<lambda>m.
     bind_res (dec_field dec_string ''currency'' m) (\<lambda>c.
     bind_res (dec_field dec_int ''ttl'' m) (\<lambda>t.
     bind_res (dec_field dec_string ''orgId'' m) (\<lambda>og.
     bind_res (dec_field dec_string ''serviceType'' m) (\<lambda>s.
     bind_res (dec_field (dec_slice dec_breakdown) ''breakdown'' m) (\<lambda>b.
     Ok \<lparr>pc_Currency = c, pc_TTL = t, pc_OrgID = og, pc_ServiceType = s, pc_Breakdown = b\<rparr>))))))"

definition NewPaymentTask :: "any option \<Rightarrow> PaymentTask res" where
  "NewPaymentTask raw =
     bind_res (wrap_err ''payment: invalid config'' [] (unmarshal dec_payment_config raw)) (\<lambda>cfg. Ok \<lparr>pt_config = cfg\<rparr>)"

section \<open>Placeholders and the breakdown\<close>

fun lookup_nested :: "string list \<Rightarrow> any \<Rightarrow> any" where
  "lookup_nested [] current = current"
| "lookup_nested (k # ks) current =
     (case current of
        JObj m \<Rightarrow> (case map_get m k of None \<Rightarrow> JNull | Some v \<Rightarrow> lookup_nested ks v)
      | _ \<Rightarrow> JNull)"

definition lookupGlobal :: "'p Container \<Rightarrow> string \<Rightarrow> any" where
  "lookupGlobal c path =
     (case split_on CHR ''.'' path of
        [] \<Rightarrow> JNull
      | k # ks \<Rightarrow> (case ReadFromGlobalStore k c of None \<Rightarrow> JNull | Some val \<Rightarrow> lookup_nested ks val))"

definition resolveValue :: "PayEnv \<Rightarrow> (string \<Rightarrow> any) \<Rightarrow> string \<Rightarrow> rat \<Rightarrow> rat" where
  "resolveValue pe lookup val fallback =
     (if val = '''' then fallback
      else if hd val = CHR ''{'' \<and> last val = CHR ''}'' then
        (let inner = butlast (tl val);
             parts = split_on CHR '':'' inner;
             fallback' = (if length parts > 1 then (case pe_parse pe (parts ! 1) of Some d \<Rightarrow> d | None \<Rightarrow> fallback) else fallback)
         in case lookup (hd parts) of
              JNum v \<Rightarrow> pe_float pe v
            | JStr v \<Rightarrow> (case pe_parse pe v of Some d \<Rightarrow> d | None \<Rightarrow> fallback')
            | _ \<Rightarrow> fallback')
      else (case pe_parse pe val of Some d \<Rightarrow> d | None \<Rightarrow> fallback))"

text \<open>The first opening and closing brace; the text of the placeholder between them.\<close>

definition index_of :: "char \<Rightarrow> string \<Rightarrow> nat" where
  "index_of c s = length (takeWhile (\<lambda>x. x \<noteq> c) s)"

definition placeholder_text :: "PayEnv \<Rightarrow> (string \<Rightarrow> any) \<Rightarrow> string \<Rightarrow> string" where
  "placeholder_text pe lookup inner =
     (let parts = split_on CHR '':'' inner;
          resolved = lookup (hd parts)
      in if resolved \<noteq> JNull then pe_print pe resolved else if length parts > 1 then parts ! 1 else '''')"

definition no_placeholder :: "string \<Rightarrow> bool" where
  "no_placeholder val \<longleftrightarrow> CHR ''{'' \<notin> set val \<or> CHR ''}'' \<notin> set val \<or> index_of CHR ''}'' val < index_of CHR ''{'' val"

definition replace_first :: "PayEnv \<Rightarrow> (string \<Rightarrow> any) \<Rightarrow> string \<Rightarrow> string" where
  "replace_first pe lookup val =
     (let start = index_of CHR ''{'' val; fin = index_of CHR ''}'' val
      in take start val @ placeholder_text pe lookup (take (fin - start - 1) (drop (Suc start) val)) @ drop (Suc fin) val)"

partial_function (option) resolveString :: "PayEnv \<Rightarrow> (string \<Rightarrow> any) \<Rightarrow> string \<Rightarrow> string option" where
  "resolveString pe lookup val =
     (if no_placeholder val then Some val else resolveString pe lookup (replace_first pe lookup val))"

fun fixed_items :: "PayEnv \<Rightarrow> (string \<Rightarrow> any) \<Rightarrow> BreakdownItem list \<Rightarrow> ResolvedBreakdownItem list \<Rightarrow> rat \<Rightarrow>
    (ResolvedBreakdownItem list \<times> rat) option" where
  "fixed_items pe lookup [] resolved subtotal = Some (resolved, subtotal)"
| "fixed_items pe lookup (item # items) resolved subtotal =
     (if bi_Type item \<noteq> ''FIXED'' then fixed_items pe lookup items resolved subtotal
      else
        let qty = resolveValue pe lookup (bi_Quantity item) 1;
            price = resolveValue pe lookup (bi_UnitPrice item) 0;
            amount = qty * price;
            subtotal' = (if bi_Category item = ''ADDITION'' then subtotal + amount else subtotal - amount)
        in case resolveString pe lookup (bi_Description item) of
             None \<Rightarrow> None
           | Some description \<Rightarrow>
               fixed_items pe lookup items
                 (resolved @ [\<lparr>ri_Description = description, ri_Category = bi_Category item, ri_Type = bi_Type item,
                    ri_Quantity = qty, ri_UnitPrice = price, ri_Amount = pe_round2 pe amount\<rparr>]) subtotal')"

fun percentage_items :: "PayEnv \<Rightarrow> (string \<Rightarrow> any) \<Rightarrow> BreakdownItem list \<Rightarrow> ResolvedBreakdownItem list \<Rightarrow> rat \<Rightarrow>
    (ResolvedBreakdownItem list \<times> rat) option" where
  "percentage_items pe lookup [] resolved finalTotal = Some (resolved, finalTotal)"
| "percentage_items pe lookup (item # items) resolved finalTotal =
     (if bi_Type item \<noteq> ''PERCENTAGE'' then percentage_items pe lookup items resolved finalTotal
      else
        let percentage = resolveValue pe lookup (bi_Value item) 0;
            amount = pe_div pe (finalTotal * percentage) 100;
            finalTotal' = (if bi_Category item = ''ADDITION'' then finalTotal + amount else finalTotal - amount)
        in case resolveString pe lookup (bi_Description item) of
             None \<Rightarrow> None
           | Some description \<Rightarrow>
               percentage_items pe lookup items
                 (resolved @ [\<lparr>ri_Description = description, ri_Category = bi_Category item, ri_Type = bi_Type item,
                    ri_Quantity = 0, ri_UnitPrice = 0, ri_Amount = pe_round2 pe amount\<rparr>]) finalTotal')"

definition calculateBreakdown :: "PayEnv \<Rightarrow> PaymentTask Container \<Rightarrow> (ResolvedBreakdownItem list \<times> rat) option" where
  "calculateBreakdown pe c =
     (let items = pc_Breakdown (pt_config (c_Executable c)) in
      case fixed_items pe (lookupGlobal c) items [] 0 of
        None \<Rightarrow> None
      | Some (resolved, subtotal) \<Rightarrow>
          (case percentage_items pe (lookupGlobal c) items resolved subtotal of
             None \<Rightarrow> None
           | Some (resolved', finalTotal) \<Rightarrow> Some (resolved', pe_round2 pe finalTotal)))"

section \<open>Sessions and history\<close>

abbreviation paymentStoreSession :: string where "paymentStoreSession \<equiv> ''payment:session''"
abbreviation paymentStoreTransactions :: string where "paymentStoreTransactions \<equiv> ''payment:transactions''"

definition wrap64 :: "int \<Rightarrow> int" where
  "wrap64 n = (n + 2 ^ 63) mod 2 ^ 64 - 2 ^ 63"

definition PaymentThreshold :: int where
  "PaymentThreshold = 30 * 10 ^ 9"

definition ttlDuration :: "PaymentTask \<Rightarrow> int" where
  "ttlDuration t = wrap64 (pc_TTL (pt_config t) * 10 ^ 9)"

definition newSession :: "TaskEnv \<Rightarrow> PaymentSession wop" where
  "newSession env =
     bindS (new_uuid env) (\<lambda>tid.
     bindS (new_uuid env) (\<lambda>ref.
     bindS (time_now env) (\<lambda>now.
     returnS \<lparr>ps_TransactionID = tid, ps_ReferenceNumber = ''NSW-PAY-'' @ take 8 ref, ps_CheckoutURL = '''', ps_OrgName = '''',
              ps_SelectedMethodID = '''', ps_GeneratedAt = now, ps_InitiatedAt = None\<rparr>)))"

text \<open>Sessions are stored as pointers, so the type assertion of the fast path never holds.\<close>

definition readSession :: "TaskEnv \<Rightarrow> 'p Container \<Rightarrow> PaymentSession res" where
  "readSession env c =
     (let raw = ReadFromLocalStore paymentStoreSession c in
      if raw = GJson JNull then Err (Errorf ''no active payment session'' [])
      else wrap_err ''payment: failed to unmarshal stored session'' [] (dec_session env (to_json env raw)))"

definition readTransactionHistory :: "TaskEnv \<Rightarrow> 'p Container \<Rightarrow> PaymentTransaction list res" where
  "readTransactionHistory env c =
     (let raw = ReadFromLocalStore paymentStoreTransactions c in
      if raw = GJson JNull then Ok []
      else (case raw of
              GTransactions h \<Rightarrow> Ok h
            | _ \<Rightarrow> wrap_err ''payment: failed to unmarshal stored transactions'' []
                     (dec_slice (dec_payment_transaction env) (to_json env raw))))"

definition recordTransaction :: "TaskEnv \<Rightarrow> string \<Rightarrow> string \<Rightarrow> int \<Rightarrow> string \<Rightarrow> unit pay" where
  "recordTransaction env transactionID referenceNumber initiatedAt status =
     bindS (getC (readTransactionHistory env)) (\<lambda>read.
     bindS (wrapS ''payment: failed to read transaction history'' [] (liftS read)) (\<lambda>history.
     bindS (on_world (time_now env)) (\<lambda>now.
     wrapS ''payment: failed to persist transaction history'' []
       (WriteToLocalStore env paymentStoreTransactions (GTransactions (history @
          [\<lparr>px_TransactionID = transactionID, px_ReferenceNumber = referenceNumber, px_InitiatedAt = initiatedAt,
            px_ResolvedAt = now, px_Status = status, px_Round = int (length history) + 1\<rparr>]))))))"

text \<open>\<open>time.Now().After(t)\<close>.\<close>

definition now_after :: "TaskEnv \<Rightarrow> int \<Rightarrow> bool pay" where
  "now_after env t = bindS (on_world (time_now env)) (\<lambda>now. returnS (t < now))"

section \<open>Start and rendering\<close>

definition pay_Start :: "TaskEnv \<Rightarrow> ExecutionResponse option pay" where
  "pay_Start env =
     bindS (getC (container_CanTransition FSMActionStart)) (\<lambda>can.
       if \<not> can then returnS (Some (emptyResponse\<lparr>xr_Message := ''Payment task already started''\<rparr>))
       else
         bindS (on_world (newSession env)) (\<lambda>session.
         bindS (wrapS ''payment: failed to persist initial session'' [] (WriteToLocalStore env paymentStoreSession (GSession session))) (\<lambda>_.
         bindS (container_Transition env FSMActionStart) (\<lambda>_.
         returnS (Some (emptyResponse\<lparr>xr_Message := ''Payment task started''\<rparr>))))))"

definition item_json :: "PayEnv \<Rightarrow> ResolvedBreakdownItem \<Rightarrow> any" where
  "item_json pe r = JObj [(''description'', JStr (ri_Description r)), (''category'', JStr (ri_Category r)), (''type'', JStr (ri_Type r)),
     (''quantity'', pe_show pe (ri_Quantity r)), (''unitPrice'', pe_show pe (ri_UnitPrice r)), (''amount'', pe_show pe (ri_Amount r))]"

text \<open>\<open>PaymentRenderContent\<close>; a nil slice of items is null.\<close>

definition render_content :: "PayEnv \<Rightarrow> PaymentConfig \<Rightarrow> string \<Rightarrow> rat \<Rightarrow> string \<Rightarrow> ResolvedBreakdownItem list \<Rightarrow> string \<Rightarrow> any" where
  "render_content pe cfg gatewayURL totalAmount reference items method =
     JObj (omit_empty ''gatewayUrl'' gatewayURL
       @ [(''totalAmount'', pe_show pe totalAmount), (''currency'', JStr (pc_Currency cfg)), (''referenceNumber'', JStr reference),
          (''breakdown'', if items = [] then JNull else JArr (map (item_json pe) items))]
       @ omit_empty ''orgId'' (pc_OrgID cfg) @ [(''service'', JStr (pc_ServiceType cfg))] @ omit_empty ''selectedMethodId'' method)"

definition expire_payment :: "TaskEnv \<Rightarrow> string \<Rightarrow> PaymentSession \<Rightarrow> string pay" where
  "expire_payment env pluginState session =
     (case ps_InitiatedAt session of
        None \<Rightarrow> returnS pluginState
      | Some initiatedAt \<Rightarrow>
          if pluginState \<noteq> paymentInProgress then returnS pluginState
          else
            bindS the_plugin (\<lambda>t.
            bindS (now_after env (initiatedAt + wrap64 (ttlDuration t + PaymentThreshold))) (\<lambda>late.
              if \<not> late then returnS pluginState
              else
                bindS (wrapS ''payment: failed to record timeout transaction'' []
                  (recordTransaction env (ps_TransactionID session) (ps_ReferenceNumber session) initiatedAt ''TIMEOUT'')) (\<lambda>_.
                bindS (wrapS ''payment: failed timeout transition'' [] (container_Transition env paymentFSMTimeout)) (\<lambda>_.
                getC GetPluginState)))))"

definition rotate_session :: "TaskEnv \<Rightarrow> PaymentSession \<Rightarrow> PaymentSession pay" where
  "rotate_session env session =
     bindS the_plugin (\<lambda>t.
     bindS (now_after env (ps_GeneratedAt session + ttlDuration t)) (\<lambda>expired.
       if \<not> expired then returnS session
       else
         bindS (on_world (newSession env)) (\<lambda>newSess.
         bindS (wrapS ''payment: failed to persist rotated session'' [] (WriteToLocalStore env paymentStoreSession (GSession newSess))) (\<lambda>_.
         returnS newSess))))"

definition pay_GetRenderInfo :: "TaskEnv \<Rightarrow> PayEnv \<Rightarrow> ApiResponse pay" where
  "pay_GetRenderInfo env pe =
     bindS (getC (\<lambda>c. c)) (\<lambda>c.
       let pluginState = GetPluginState c; cfg = pt_config (c_Executable c) in
       case calculateBreakdown pe c of
         None \<Rightarrow> liftS Panic
       | Some (resolvedBreakdown, totalAmount) \<Rightarrow>
           if pluginState = paymentCompleted then
             bindS (getC GetTaskState) (\<lambda>state.
             returnS (render_response TaskTypePayment pluginState state (render_content pe cfg '''' totalAmount '''' resolvedBreakdown '''')))
           else
             bindS (wrapS ''payment: failed to read session'' [] (liftS (readSession env c))) (\<lambda>session.
             bindS (expire_payment env pluginState session) (\<lambda>pluginState2.
             bindS (rotate_session env session) (\<lambda>session2.
             bindS (getC GetTaskState) (\<lambda>state.
             returnS (render_response TaskTypePayment pluginState2 state
               (render_content pe cfg (ps_CheckoutURL session2) totalAmount (ps_ReferenceNumber session2) resolvedBreakdown
                  (ps_SelectedMethodID session2))))))))"

section \<open>Actions\<close>

definition content_string :: "string \<Rightarrow> any \<Rightarrow> string option" where
  "content_string k content =
     (case content of JObj m \<Rightarrow> (case map_get m k of Some (JStr s) \<Rightarrow> Some s | _ \<Rightarrow> None) | _ \<Rightarrow> None)"

text \<open>The last part of \<open>initiateHandler\<close>: the checkout session, the stored session, the transition.\<close>

definition open_checkout :: "TaskEnv \<Rightarrow> PayEnv \<Rightarrow> any \<Rightarrow> PaymentTask Container \<Rightarrow> PaymentSession \<Rightarrow> rat \<Rightarrow> ExecutionResponse option pay" where
  "open_checkout env pe content c session totalAmount =
     (let t = c_Executable c;
          methodID = (case content_string ''methodId'' content of Some i \<Rightarrow> i | None \<Rightarrow> ''lankapay'')
      in
        bindS (on_world (time_now env)) (\<lambda>now0.
        bindS (wrapS ''payment: failed to create checkout session'' []
          (on_world (CreateCheckoutSession env \<lparr>cq_ReferenceNumber = ps_ReferenceNumber session, cq_Amount = totalAmount,
             cq_Currency = pc_Currency (pt_config t), cq_ReturnURL = '''', cq_CancelURL = '''', cq_ExpiresAt = now0 + ttlDuration t,
             cq_Metadata = [(''task_id'', c_TaskID c), (''method_id'', methodID), (''org_id'', pc_OrgID (pt_config t)),
                            (''service_type'', pc_ServiceType (pt_config t))]\<rparr>))) (\<lambda>resp.
        bindS (on_world (time_now env)) (\<lambda>now1.
        bindS (wrapS ''payment: failed to persist initiated session'' []
          (WriteToLocalStore env paymentStoreSession (GSession (session\<lparr>
             ps_InitiatedAt := Some (case content_string ''initiatedAt'' content of
                                       None \<Rightarrow> now1
                                     | Some s \<Rightarrow> (case pe_parse3339 pe s of Some parsed \<Rightarrow> parsed | None \<Rightarrow> now1)),
             ps_CheckoutURL := cr_CheckoutURL resp, ps_SelectedMethodID := methodID\<rparr>)))) (\<lambda>_.
        bindS (getC GetPluginState) (\<lambda>ps.
        bindS (if ps \<noteq> paymentInProgress then container_Transition env PaymentActionInitiate else returnS ()) (\<lambda>_.
        returnS (Some (emptyResponse\<lparr>xr_Message := ''Payment initiated'',
          xr_ApiResponse := Some \<lparr>ar_Success = True, ar_Data = JObj [(''message'', JStr ''Payment initiated''),
             (''checkoutUrl'', JStr (cr_CheckoutURL resp)), (''methodId'', JStr methodID)], ar_Error = None\<rparr>\<rparr>)))))))))"

definition initiateHandler :: "TaskEnv \<Rightarrow> PayEnv \<Rightarrow> any \<Rightarrow> ExecutionResponse option pay" where
  "initiateHandler env pe content =
     bindS (getC (\<lambda>c. c)) (\<lambda>c.
       if \<not> container_CanTransition PaymentActionInitiate c
       then failS (Errorf ''payment: action not permitted in state'' [PaymentActionInitiate, GetPluginState c])
       else
         bindS (wrapS ''payment: failed to read session'' [] (liftS (readSession env c))) (\<lambda>session.
         bindS (now_after env (ps_GeneratedAt session + ttlDuration (c_Executable c))) (\<lambda>expired.
           if expired then failS (Errorf ''payment: session expired, cannot initiate payment'' [])
           else (case calculateBreakdown pe c of
                   None \<Rightarrow> liftS Panic
                 | Some (_, totalAmount) \<Rightarrow> open_checkout env pe content c session totalAmount))))"

definition message_response :: "string \<Rightarrow> string \<Rightarrow> ExecutionResponse" where
  "message_response msg data = emptyResponse\<lparr>xr_Message := msg,
     xr_ApiResponse := Some \<lparr>ar_Success = True, ar_Data = JObj [(''message'', JStr data)], ar_Error = None\<rparr>\<rparr>"

definition successHandler :: "TaskEnv \<Rightarrow> ExecutionResponse option pay" where
  "successHandler env =
     bindS (getC (\<lambda>c. c)) (\<lambda>c.
       if \<not> container_CanTransition PaymentActionSuccess c
       then failS (Errorf ''payment: action not permitted in state'' [PaymentActionSuccess, GetPluginState c])
       else
         bindS (container_Transition env PaymentActionSuccess) (\<lambda>_.
         returnS (Some (message_response ''Payment completed successfully'' ''Payment completed successfully''))))"

definition failedHandler :: "TaskEnv \<Rightarrow> ExecutionResponse option pay" where
  "failedHandler env =
     bindS (getC (\<lambda>c. c)) (\<lambda>c.
       if \<not> container_CanTransition PaymentActionFailed c
       then failS (Errorf ''payment: action not permitted in state'' [PaymentActionFailed, GetPluginState c])
       else
         bindS (wrapS ''payment: failed to read session'' [] (liftS (readSession env c))) (\<lambda>session.
         bindS (on_world (time_now env)) (\<lambda>now.
         bindS (wrapS ''payment: failed to record failed transaction'' []
           (recordTransaction env (ps_TransactionID session) (ps_ReferenceNumber session)
              (case ps_InitiatedAt session of Some t \<Rightarrow> t | None \<Rightarrow> now) ''FAILED'')) (\<lambda>_.
         bindS (on_world (newSession env)) (\<lambda>newSess.
         bindS (wrapS ''payment: failed to persist new session after failure'' []
           (WriteToLocalStore env paymentStoreSession (GSession newSess))) (\<lambda>_.
         bindS (container_Transition env PaymentActionFailed) (\<lambda>_.
         returnS (Some (message_response ''Payment failed, new session generated''
           ''Payment failed. A new payment session is available.'')))))))))"

definition pay_Execute :: "TaskEnv \<Rightarrow> PayEnv \<Rightarrow> ExecutionRequest option \<Rightarrow> ExecutionResponse option pay" where
  "pay_Execute env pe request =
     (case request of
        None \<Rightarrow> failS (Errorf ''payment: execution request is required'' [])
      | Some rq \<Rightarrow>
          if req_Action rq = PaymentActionInitiate then initiateHandler env pe (req_Content rq)
          else if req_Action rq = PaymentActionSuccess then successHandler env
          else if req_Action rq = PaymentActionFailed then failedHandler env
          else failS (Errorf ''payment: unknown action'' [req_Action rq]))"

section \<open>The contract\<close>

lemma world_quiet_let [conf]: "world_quiet (f v) \<Longrightarrow> world_quiet (let x = v in f x)"
  by simp

lemma world_quiet_option [conf]: "world_quiet m \<Longrightarrow> (\<And>v. world_quiet (f v)) \<Longrightarrow> world_quiet (case ov of None \<Rightarrow> m | Some v \<Rightarrow> f v)"
  by (cases ov) simp_all

lemma session_conf [conf]: "world_quiet (newSession env)"
  unfolding newSession_def by (intro conf)

lemma pay_Create_conf [conf]: "world_quiet (pay_Create env p)"
  unfolding pay_Create_def by (rule world_quiet_db) (simp add: world_quiet_def)

lemma checkout_conf [conf]: "world_quiet (CreateCheckoutSession env rq)"
  unfolding CreateCheckoutSession_def by (intro conf)

lemma now_after_conf [conf]: "quiet (now_after env t)" "conforms env (now_after env t)"
proof -
  show "quiet (now_after env t)" unfolding now_after_def by (intro conf)
  then show "conforms env (now_after env t)" by (rule quiet_conforms)
qed

lemma record_conf [conf]: "quiet (recordTransaction env a b i s)" "conforms env (recordTransaction env a b i s)"
proof -
  show "quiet (recordTransaction env a b i s)" unfolding recordTransaction_def by (intro conf)
  then show "conforms env (recordTransaction env a b i s)" by (rule quiet_conforms)
qed

lemma expire_conf [conf]: "conforms env (expire_payment env p s)"
  unfolding expire_payment_def by (intro conf)

lemma rotate_conf [conf]: "conforms env (rotate_session env s)"
  unfolding rotate_session_def by (intro conf)

lemma pay_start_conf: "conforms env (pay_Start env)"
  unfolding pay_Start_def by (intro conf)

lemma pay_render_conf: "conforms env (pay_GetRenderInfo env pe)"
  unfolding pay_GetRenderInfo_def by (intro conf)

lemma handlers_conf [conf]:
  "conforms env (initiateHandler env pe content)" "conforms env (successHandler env)" "conforms env (failedHandler env)"
  unfolding initiateHandler_def open_checkout_def successHandler_def failedHandler_def by (intro conf)+

lemma pay_execute_conf: "conforms env (pay_Execute env pe request)"
  unfolding pay_Execute_def by (intro conf)

interpretation payment: plugin_contract env "pay_Start env" "pay_GetRenderInfo env pe" "pay_Execute env pe" for env pe
  by (rule plugin_contract.intro [OF pay_start_conf pay_render_conf pay_execute_conf])

section \<open>The placeholder loop\<close>

lemma takeWhile_first: "c \<notin> set xs \<Longrightarrow> takeWhile (\<lambda>x. x \<noteq> c) (xs @ c # ys) = xs"
  by (induction xs) auto

lemma index_of_split:
  assumes "c \<in> set s"
  shows "s = take (index_of c s) s @ c # drop (Suc (index_of c s)) s" and "c \<notin> set (take (index_of c s) s)"
    and "index_of c s < length s"
proof -
  from assms obtain xs ys where s: "s = xs @ c # ys" "c \<notin> set xs" by (meson split_list_first)
  then have "takeWhile (\<lambda>x. x \<noteq> c) s = xs" by (simp add: takeWhile_first)
  then have i: "index_of c s = length xs" by (simp add: index_of_def)
  show "s = take (index_of c s) s @ c # drop (Suc (index_of c s)) s" using s i by simp
  show "c \<notin> set (take (index_of c s) s)" "index_of c s < length s" using s i by simp_all
qed

lemma split_on_no_char: "d \<notin> set s \<Longrightarrow> p \<in> set (split_on c s) \<Longrightarrow> d \<notin> set p"
  by (induction s arbitrary: p) (fastforce split: if_splits list.splits)+

lemma placeholder_text_closed:
  assumes "\<And>p. lookup p \<noteq> JNull \<Longrightarrow> CHR ''}'' \<notin> set (pe_print pe (lookup p))" and "CHR ''}'' \<notin> set inner"
  shows "CHR ''}'' \<notin> set (placeholder_text pe lookup inner)"
proof -
  have "CHR ''}'' \<notin> set (split_on CHR '':'' inner ! 1)" if "length (split_on CHR '':'' inner) > 1"
    using split_on_no_char [OF assms(2)] nth_mem [OF that] by blast
  then show ?thesis using assms(1) by (simp add: placeholder_text_def Let_def)
qed

lemma replace_first_decreases:
  assumes "\<not> no_placeholder val" and "\<And>p. lookup p \<noteq> JNull \<Longrightarrow> CHR ''}'' \<notin> set (pe_print pe (lookup p))"
  shows "count_list (replace_first pe lookup val) CHR ''}'' < count_list val CHR ''}''"
proof -
  let ?s = "index_of CHR ''{'' val" and ?f = "index_of CHR ''}'' val"
  have mem: "CHR ''{'' \<in> set val" "CHR ''}'' \<in> set val" and le: "?s \<le> ?f" using assms(1) by (auto simp: no_placeholder_def)
  note f = index_of_split [OF mem(2)]
  have pre: "CHR ''}'' \<notin> set (take ?s val)" using f(2) le by (meson in_mono set_take_subset_set_take)
  have "?f < length val" by (rule f(3))
  then have inner: "CHR ''}'' \<notin> set (take (?f - ?s - 1) (drop (Suc ?s) val))"
  proof -
    have "set (take (?f - ?s - 1) (drop (Suc ?s) val)) \<subseteq> set (take ?f val)"
    proof
      fix x
      assume "x \<in> set (take (?f - ?s - 1) (drop (Suc ?s) val))"
      then obtain i where i: "i < ?f - ?s - 1" "x = val ! (Suc ?s + i)" "Suc ?s + i < length val"
        by (auto simp: in_set_conv_nth)
      then have "Suc ?s + i < ?f" by simp
      then show "x \<in> set (take ?f val)" using i by (auto simp: in_set_conv_nth intro!: exI [of _ "Suc ?s + i"])
    qed
    then show ?thesis using f(2) by blast
  qed
  have "count_list (replace_first pe lookup val) CHR ''}'' = count_list (drop (Suc ?f) val) CHR ''}''"
    using pre placeholder_text_closed [OF assms(2) inner] by (simp add: replace_first_def Let_def count_notin)
  also have "\<dots> < count_list val CHR ''}''"
    by (subst (2) f(1)) (simp add: f(2) count_notin)
  finally show ?thesis .
qed

lemma resolveString_done: "no_placeholder val \<Longrightarrow> resolveString pe lookup val = Some val"
  by (subst resolveString.simps) simp

lemma resolveString_returns:
  assumes "\<And>p. lookup p \<noteq> JNull \<Longrightarrow> CHR ''}'' \<notin> set (pe_print pe (lookup p))"
  shows "\<exists>y. resolveString pe lookup val = Some y \<and> no_placeholder y"
proof (induction "count_list val CHR ''}''" arbitrary: val rule: less_induct)
  case less
  show ?case
  proof (cases "no_placeholder val")
    case True
    then show ?thesis by (subst resolveString.simps) simp
  next
    case False
    from less [OF replace_first_decreases [OF False assms]] show ?thesis
      using False by (subst resolveString.simps) simp
  qed
qed

lemma resolveString_loops:
  assumes "replace_first pe lookup val = val" and "\<not> no_placeholder val"
  shows "resolveString pe lookup val = None"
proof -
  have "\<not> (pe' = pe \<and> lookup' = lookup \<and> v = val)" if run: "resolveString pe' lookup' v = Some y" for pe' lookup' v y
  proof (rule resolveString.raw_induct [OF _ run])
    fix f pe' lookup' v y
    assume ih: "\<And>pe' lookup' v y. f pe' lookup' v = Some y \<Longrightarrow> \<not> (pe' = pe \<and> lookup' = lookup \<and> v = val)"
      and eq: "(if no_placeholder v then Some v else f pe' lookup' (replace_first pe' lookup' v)) = Some y"
    show "\<not> (pe' = pe \<and> lookup' = lookup \<and> v = val)"
    proof
      assume "pe' = pe \<and> lookup' = lookup \<and> v = val"
      then have "f pe lookup val = Some y" using eq assms by simp
      then show False using ih by blast
    qed
  qed
  then show ?thesis by (cases "resolveString pe lookup val") blast+
qed

text \<open>
  C40: A description with no opening brace before a closing one comes back as it is, in particular one without
  braces. When no global value that is found is printed with a closing brace, the loop that fills in the
  placeholders returns, with no placeholder left, whatever the description. A placeholder whose value is
  printed as that placeholder makes it run forever.
\<close>

theorem placeholder_loop:
  "(no_placeholder val \<or> CHR ''{'' \<notin> set val \<or> CHR ''}'' \<notin> set val \<longrightarrow> resolveString pe lookup val = Some val)
   \<and> ((\<forall>p. lookup p \<noteq> JNull \<longrightarrow> CHR ''}'' \<notin> set (pe_print pe (lookup p)))
      \<longrightarrow> (\<exists>y. resolveString pe lookup val = Some y \<and> no_placeholder y))
   \<and> (CHR ''{'' \<notin> set p \<and> CHR ''}'' \<notin> set p \<and> CHR '':'' \<notin> set p \<and> lookup p \<noteq> JNull \<and> pe_print pe (lookup p) = ''{'' @ p @ ''}''
      \<longrightarrow> resolveString pe lookup (''{'' @ p @ ''}'') = None)"
proof (intro conjI impI)
  assume "no_placeholder val \<or> CHR ''{'' \<notin> set val \<or> CHR ''}'' \<notin> set val"
  then show "resolveString pe lookup val = Some val" by (intro resolveString_done) (auto simp: no_placeholder_def)
next
  assume "\<forall>p. lookup p \<noteq> JNull \<longrightarrow> CHR ''}'' \<notin> set (pe_print pe (lookup p))"
  then show "\<exists>y. resolveString pe lookup val = Some y \<and> no_placeholder y" by (intro resolveString_returns) blast
next
  assume a: "CHR ''{'' \<notin> set p \<and> CHR ''}'' \<notin> set p \<and> CHR '':'' \<notin> set p \<and> lookup p \<noteq> JNull \<and> pe_print pe (lookup p) = ''{'' @ p @ ''}''"
  let ?v = "''{'' @ p @ ''}''"
  have i: "index_of CHR ''{'' ?v = 0" "index_of CHR ''}'' ?v = Suc (length p)"
    using a takeWhile_first [of "CHR ''}''" "''{'' @ p" "[]"] by (auto simp: index_of_def)
  show "resolveString pe lookup ?v = None"
  proof (rule resolveString_loops)
    show "\<not> no_placeholder ?v" by (simp add: no_placeholder_def i [simplified])
    show "replace_first pe lookup ?v = ?v"
      using a by (simp add: replace_first_def i [simplified] placeholder_text_def split_on_no_sep)
  qed
qed

definition demo_pay :: PayEnv where
  "demo_pay = \<lparr>pe_parse = (\<lambda>s. if s = ''2'' then Some 2 else if s = ''10'' then Some 10 else None), pe_float = (\<lambda>r. r),
     pe_div = (\<lambda>a b. a / b), pe_round2 = (\<lambda>r. r), pe_print = (\<lambda>v. case v of JStr s \<Rightarrow> s | _ \<Rightarrow> ''?''), pe_parse3339 = (\<lambda>_. None),
     pe_show = JNum\<rparr>"

theorem placeholder_loop_witness:
  "resolveString demo_pay (\<lambda>_. JStr ''{goods}'') ''{goods}'' = None
   \<and> resolveString demo_pay (\<lambda>_. JStr ''{goods}'') ''Phytosanitary fee'' = Some ''Phytosanitary fee''
   \<and> (\<exists>y. resolveString demo_pay (\<lambda>p. if p = ''goods'' then JStr ''tea'' else JNull) ''{goods} of {year:2024}'' = Some y \<and> no_placeholder y)"
proof (intro conjI)
  show "resolveString demo_pay (\<lambda>_. JStr ''{goods}'') ''{goods}'' = None"
    using placeholder_loop [THEN conjunct2, THEN conjunct2, of "''goods''" "\<lambda>_. JStr ''{goods}''" demo_pay] by (simp add: demo_pay_def)
  show "resolveString demo_pay (\<lambda>_. JStr ''{goods}'') ''Phytosanitary fee'' = Some ''Phytosanitary fee''"
    by (rule placeholder_loop [THEN conjunct1, THEN mp]) simp
  show "\<exists>y. resolveString demo_pay (\<lambda>p. if p = ''goods'' then JStr ''tea'' else JNull) ''{goods} of {year:2024}'' = Some y \<and> no_placeholder y"
    by (rule placeholder_loop [THEN conjunct2, THEN conjunct1, THEN mp]) (simp add: demo_pay_def)
qed

section \<open>Initiating twice\<close>

lemma SetState_world:
  assumes "lm_SetState env k v (m, w) = (r, (m', w'))"
  shows "w_payments w' = w_payments w \<and> w_calls w' = w_calls w"
proof (cases "lm_cache m")
  case None
  then show ?thesis using assms by (simp add: lm_SetState_def)
next
  case (Some cc)
  from persist_cases [OF SetState_result(2) [OF Some assms]] show ?thesis by auto
qed

lemma Write_payments: "WriteToLocalStore env k v s = (r, s') \<Longrightarrow> w_payments (snd s') = w_payments (snd s)"
  by (auto simp: WriteToLocalStore_def split: prod.splits dest: SetState_world)

lemma Write_read:
  assumes "WriteToLocalStore env k v (c, w) = (Ok u, (c', w'))"
  shows "ReadFromLocalStore k' c' = (if k' = k then v else ReadFromLocalStore k' c)"
proof -
  obtain r m' w2 where l: "lm_SetState env k v (c_localState c, w) = (r, (m', w2))"
    by (cases "lm_SetState env k v (c_localState c, w)") auto
  then have "live_cache (c_localState c, w)"
    using assms by (auto simp: WriteToLocalStore_def live_cache_def lm_SetState_def split: option.splits)
  from local_state.read_after_write [OF this l] show ?thesis
    using assms l by (auto simp: WriteToLocalStore_def ReadFromLocalStore_def)
qed

lemma store_call_payments: "store_call (task_update env i f) s = (r, s') \<Longrightarrow> w_payments (snd s') = w_payments (snd s)"
  using task_update_cases [of env i f "snd s"] by (fastforce simp: store_call_def on_world_def split: if_splits prod.splits)

lemma Transition_payments:
  assumes "container_Transition env a s = (r, s')"
  shows "w_payments (snd s') = w_payments (snd s) \<and> c_localState (fst s') = c_localState (fst s)"
proof -
  obtain c w where s: "s = (c, w)" by (cases s)
  from assms [unfolded s] have "c_localState (fst s') = c_localState c"
    by (cases rule: Transition_cases) simp_all
  moreover have "w_payments (snd s') = w_payments w"
    using assms
    by (auto simp: s container_Transition_def Let_def bindS_def returnS_def ts_UpdatePluginState_def ts_UpdateStatus_def
        split: option.splits res.splits prod.splits if_splits dest!: store_call_payments)
  ultimately show ?thesis by (simp add: s)
qed

lemma dec_session_reference: "dec_session env (enc_session env s) = Ok s' \<Longrightarrow> ps_ReferenceNumber s' = ps_ReferenceNumber s"
  by (auto simp: dec_session_def enc_session_def dec_struct_def dec_field_def res_simps)

lemma checkout_unique:
  assumes "CreateCheckoutSession env rq w = (Ok resp, w')"
  shows "(\<forall>p \<in> set (w_payments w). py_ReferenceNumber p \<noteq> cq_ReferenceNumber rq)
     \<and> (\<exists>p \<in> set (w_payments w'). py_ReferenceNumber p = cq_ReferenceNumber rq)"
  using assms
  by (auto simp: CreateCheckoutSession_def op_simps Let_def time_now_def new_uuid_def pay_Create_def task_db_def failS_def
      split: option.splits if_splits)

lemma checkout_chain:
  assumes t0: "on_world (time_now env) (c1, w1) = (Ok now0, s1)"
    and cc: "wrapS a b (on_world (CreateCheckoutSession env rq)) s1 = (Ok resp, s2)"
    and t1: "on_world (time_now env) s2 = (Ok now1, s3)"
    and wr: "wrapS d e (WriteToLocalStore env paymentStoreSession (GSession v)) s3 = (Ok u, s4)"
    and ps: "getC GetPluginState s4 = (Ok st, s5)"
    and tr: "(if st \<noteq> paymentInProgress then container_Transition env PaymentActionInitiate else returnS ()) s5 = (Ok u2, s6)"
    and fin: "returnS y s6 = (Ok x, (c', w'))"
    and ref: "cq_ReferenceNumber rq = reference" "ps_ReferenceNumber v = reference"
  shows "(\<forall>p \<in> set (w_payments w1). py_ReferenceNumber p \<noteq> reference)
     \<and> (\<exists>p \<in> set (w_payments w'). py_ReferenceNumber p = reference)
     \<and> (\<exists>s2. ReadFromLocalStore paymentStoreSession c' = GSession s2 \<and> ps_ReferenceNumber s2 = reference)"
proof -
  have tick: "on_world (time_now env) s = (Ok n, s') \<Longrightarrow> w_payments (snd s') = w_payments (snd s)" for n and s s' :: "'a Container \<times> TaskWorld"
    by (auto simp: on_world_def time_now_def)
  have cc': "CreateCheckoutSession env rq (snd s1) = (Ok resp, snd s2)"
    using cc by (auto simp: op_simps on_world_def split: prod.splits)
  obtain c3 w3 c4 w4 where s34: "s3 = (c3, w3)" "s4 = (c4, w4)" by (cases s3; cases s4)
  have wr': "WriteToLocalStore env paymentStoreSession (GSession v) (c3, w3) = (Ok u, (c4, w4))"
    using wr s34 by (simp add: op_simps)
  have s56: "s5 = s4" "s6 = (c', w')" using ps fin by (auto simp: getC_def returnS_def)
  have "w_payments w' = w_payments w4 \<and> c_localState c' = c_localState c4"
    using tr Transition_payments [of env PaymentActionInitiate s5 "Ok u2" s6]
    by (cases "st \<noteq> paymentInProgress") (simp_all add: s56 s34 returnS_def)
  moreover have "w_payments w4 = w_payments (snd s2)"
    using Write_payments [OF wr'] tick [OF t1] s34 by simp
  moreover have "w_payments (snd s1) = w_payments w1" using tick [OF t0] by simp
  ultimately show ?thesis
    using checkout_unique [OF cc'] Write_read [OF wr', of paymentStoreSession] ref by (simp add: ReadFromLocalStore_def)
qed

lemma open_checkout_parts:
  assumes "open_checkout env pe content c session totalAmount (c1, w1) = (Ok x, (c', w'))"
  shows "(\<forall>p \<in> set (w_payments w1). py_ReferenceNumber p \<noteq> ps_ReferenceNumber session)
     \<and> (\<exists>p \<in> set (w_payments w'). py_ReferenceNumber p = ps_ReferenceNumber session)
     \<and> (\<exists>s2. ReadFromLocalStore paymentStoreSession c' = GSession s2 \<and> ps_ReferenceNumber s2 = ps_ReferenceNumber session)"
  using assms unfolding open_checkout_def Let_def
  by (elim bindS_OkE) (rule checkout_chain, assumption+, simp_all)

lemma initiate_parts:
  assumes "initiateHandler env pe content (c, w) = (Ok x, (c', w'))"
  shows "\<exists>session. readSession env c = Ok session \<and> (\<forall>p \<in> set (w_payments w). py_ReferenceNumber p \<noteq> ps_ReferenceNumber session)
     \<and> (\<exists>p \<in> set (w_payments w'). py_ReferenceNumber p = ps_ReferenceNumber session)
     \<and> (\<exists>s2. ReadFromLocalStore paymentStoreSession c' = GSession s2 \<and> ps_ReferenceNumber s2 = ps_ReferenceNumber session)"
proof -
  from assms have can: "container_CanTransition PaymentActionInitiate c"
    and run: "bindS (wrapS ''payment: failed to read session'' [] (liftS (readSession env c))) (\<lambda>session.
         bindS (now_after env (ps_GeneratedAt session + ttlDuration (c_Executable c))) (\<lambda>expired.
           if expired then failS (Errorf ''payment: session expired, cannot initiate payment'' [])
           else (case calculateBreakdown pe c of
                   None \<Rightarrow> liftS Panic
                 | Some (_, totalAmount) \<Rightarrow> open_checkout env pe content c session totalAmount))) (c, w) = (Ok x, (c', w'))"
    by (auto simp: initiateHandler_def bindS_def [where m = "getC _"] getC_def failS_def split: if_splits)
  from run obtain session s1 where rs: "readSession env c = Ok session" and s1: "s1 = (c, w)"
    and run2: "bindS (now_after env (ps_GeneratedAt session + ttlDuration (c_Executable c))) (\<lambda>expired.
           if expired then failS (Errorf ''payment: session expired, cannot initiate payment'' [])
           else (case calculateBreakdown pe c of
                   None \<Rightarrow> liftS Panic
                 | Some (_, totalAmount) \<Rightarrow> open_checkout env pe content c session totalAmount)) s1 = (Ok x, (c', w'))"
    by (elim bindS_OkE) (auto simp: op_simps)
  from run2 obtain w2 items totalAmount where "open_checkout env pe content c session totalAmount (c, w2) = (Ok x, (c', w'))"
    and "w_payments w2 = w_payments w"
    by (elim bindS_OkE)
      (auto simp: s1 now_after_def bindS_def returnS_def on_world_def time_now_def failS_def liftS_def split: if_splits option.splits)
  with open_checkout_parts rs show ?thesis by fastforce
qed

text \<open>
  A payment session can be initiated once: the reference number of a session is unique in the table of
  payments, so after a successful INITIATE\_PAYMENT another one on the same session (the state
  machine permits it, to switch the payment method) fails, whatever its content.
\<close>

theorem second_initiation_fails:
  assumes "initiateHandler env pe content (c, w) = (Ok x, (c1, w1))"
    and "initiateHandler env' pe' content' (c1, w1) = (r, s2)"
  shows "\<not> is_ok r"
proof
  assume "is_ok r"
  then obtain y where r: "r = Ok y" by (auto simp: is_ok_iff)
  obtain c2 w2 where s2: "s2 = (c2, w2)" by (cases s2)
  from initiate_parts [OF assms(1)] obtain s ref where st: "ReadFromLocalStore paymentStoreSession c1 = GSession s" "ps_ReferenceNumber s = ref"
    and ex: "\<exists>p \<in> set (w_payments w1). py_ReferenceNumber p = ref" by blast
  from initiate_parts [OF assms(2) [unfolded r s2]] obtain session where rs: "readSession env' c1 = Ok session"
    and un: "\<forall>p \<in> set (w_payments w1). py_ReferenceNumber p \<noteq> ps_ReferenceNumber session" by blast
  have "dec_session env' (enc_session env' s) = Ok session" using rs st(1) by (simp add: readSession_def)
  then have "ps_ReferenceNumber session = ref" using dec_session_reference st(2) by simp
  with un ex show False by auto
qed

section \<open>A failed payment\<close>

lemma newSession_fresh: "newSession env w = (Ok s, w') \<Longrightarrow> ps_InitiatedAt s = None \<and> ps_CheckoutURL s = ''''"
  by (auto simp: newSession_def op_simps new_uuid_def time_now_def)

lemma payment_edges:
  "CanTransition NewPaymentFSM ps PaymentActionFailed \<longleftrightarrow> ps = paymentInProgress"
  "CanTransition NewPaymentFSM ps PaymentActionSuccess \<longleftrightarrow> ps = paymentInProgress"
  "CanTransition NewPaymentFSM ps PaymentActionInitiate \<longleftrightarrow> ps \<in> {paymentIdle, paymentInProgress}"
  "CanTransition NewPaymentFSM ps paymentFSMTimeout \<longleftrightarrow> ps = paymentInProgress"
  by (simp_all add: CanTransition_def fsm_tables)

definition transaction_of :: "PaymentSession \<Rightarrow> string \<Rightarrow> int \<Rightarrow> nat \<Rightarrow> PaymentTransaction \<Rightarrow> bool" where
  "transaction_of session status initiated n p \<longleftrightarrow> px_TransactionID p = ps_TransactionID session
     \<and> px_ReferenceNumber p = ps_ReferenceNumber session \<and> px_Status p = status \<and> px_InitiatedAt p = initiated \<and> px_Round p = int n"

lemma recordTransaction_read:
  assumes "recordTransaction env tid ref i status (c, w) = (Ok u, (c', w'))"
  shows "\<exists>h p. readTransactionHistory env c = Ok h \<and> ReadFromLocalStore paymentStoreTransactions c' = GTransactions (h @ [p])
     \<and> px_TransactionID p = tid \<and> px_ReferenceNumber p = ref \<and> px_Status p = status \<and> px_InitiatedAt p = i \<and> px_Round p = int (length h) + 1
     \<and> ReadFromLocalStore paymentStoreSession c' = ReadFromLocalStore paymentStoreSession c"
proof -
  from assms obtain h now w2 where h: "readTransactionHistory env c = Ok h"
    and wr: "WriteToLocalStore env paymentStoreTransactions (GTransactions (h @
          [\<lparr>px_TransactionID = tid, px_ReferenceNumber = ref, px_InitiatedAt = i, px_ResolvedAt = now, px_Status = status,
            px_Round = int (length h) + 1\<rparr>])) (c, w2) = (Ok u, (c', w'))"
    by (auto simp: recordTransaction_def op_simps getC_def on_world_def time_now_def)
  show ?thesis using Write_read [OF wr] h by auto
qed

text \<open>
  A PAYMENT\_FAILED that succeeds was in progress, ends in IDLE with the task INITIALIZED again, appends
  exactly one FAILED entry for the session to the history, numbered next, and leaves a fresh session
  that was not initiated.
\<close>

theorem failed_payment_recorded:
  assumes "failedHandler env (c, w) = (Ok resp, (c', w'))" and "c_fsm c = Some NewPaymentFSM"
  shows "c_pluginState c = paymentInProgress \<and> states_of c' = (paymentIdle, Initialized)
     \<and> (\<exists>session h p initiated s'. readSession env c = Ok session \<and> readTransactionHistory env c = Ok h
         \<and> ReadFromLocalStore paymentStoreTransactions c' = GTransactions (h @ [p])
         \<and> transaction_of session ''FAILED'' initiated (length h + 1) p
         \<and> (\<forall>t. ps_InitiatedAt session = Some t \<longrightarrow> initiated = t)
         \<and> ReadFromLocalStore paymentStoreSession c' = GSession s' \<and> ps_InitiatedAt s' = None)"
proof -
  from assms have can: "container_CanTransition PaymentActionFailed c"
    and run: "bindS (wrapS ''payment: failed to read session'' [] (liftS (readSession env c))) (\<lambda>session.
         bindS (on_world (time_now env)) (\<lambda>now.
         bindS (wrapS ''payment: failed to record failed transaction'' []
           (recordTransaction env (ps_TransactionID session) (ps_ReferenceNumber session)
              (case ps_InitiatedAt session of Some t \<Rightarrow> t | None \<Rightarrow> now) ''FAILED'')) (\<lambda>_.
         bindS (on_world (newSession env)) (\<lambda>newSess.
         bindS (wrapS ''payment: failed to persist new session after failure'' []
           (WriteToLocalStore env paymentStoreSession (GSession newSess))) (\<lambda>_.
         bindS (container_Transition env PaymentActionFailed) (\<lambda>_.
         returnS (Some (message_response ''Payment failed, new session generated''
           ''Payment failed. A new payment session is available.'')))))))) (c, w) = (Ok resp, (c', w'))"
    by (auto simp: failedHandler_def bindS_def [where m = "getC _"] getC_def failS_def split: if_splits)
  from run obtain session now wa u2 s2 newSess wb u4 s4 u5 where
    rs: "readSession env c = Ok session"
    and rec: "recordTransaction env (ps_TransactionID session) (ps_ReferenceNumber session)
              (case ps_InitiatedAt session of Some t \<Rightarrow> t | None \<Rightarrow> now) ''FAILED'' (c, wa) = (Ok u2, s2)"
    and ns: "newSession env (snd s2) = (Ok newSess, wb)"
    and wr: "WriteToLocalStore env paymentStoreSession (GSession newSess) (fst s2, wb) = (Ok u4, s4)"
    and tr: "container_Transition env PaymentActionFailed s4 = (Ok u5, (c', w'))"
    by (elim bindS_OkE) (auto simp: op_simps on_world_def time_now_def split: prod.splits)
  obtain c2 w2 c4 w4 where s: "s2 = (c2, w2)" "s4 = (c4, w4)" by (cases s2; cases s4)
  from recordTransaction_read [OF rec [unfolded s]] obtain h p where hist: "readTransactionHistory env c = Ok h"
    "ReadFromLocalStore paymentStoreTransactions c2 = GTransactions (h @ [p])"
    "transaction_of session ''FAILED'' (case ps_InitiatedAt session of Some t \<Rightarrow> t | None \<Rightarrow> now) (length h + 1) p"
    unfolding transaction_of_def by auto
  note q1 = quiet_fsm [OF record_conf(1) rec] and q2 = quiet_fsm [OF quiet_WriteToLocalStore wr]
  have ps: "c_pluginState c = paymentInProgress"
    using can assms(2) by (simp add: container_CanTransition_def GetPluginState_def payment_edges)
  have keep: "c_localState c' = c_localState c4" using Transition_payments [OF tr] s by simp
  have "ReadFromLocalStore k c' = (if k = paymentStoreSession then GSession newSess else ReadFromLocalStore k c2)" for k
    using Write_read [OF wr [unfolded s fst_conv]] keep by (simp add: ReadFromLocalStore_def)
  moreover have "states_of c' = (paymentIdle, Initialized)"
    using tr [unfolded s]
  proof (cases rule: Transition_cases)
    case (3 f out)
    then have "out = TransitionOutcome paymentIdle Initialized"
      using q1 q2 assms(2) ps by (auto simp: s Transition_def fsm_tables)
    then show ?thesis using 3(4) by (simp add: moved_def states_of_def)
  qed (use q1 q2 assms(2) s in auto)
  ultimately show ?thesis using ps rs hist newSession_fresh [OF ns] by (intro conjI exI) (auto split: option.splits)
qed

section \<open>The total of a breakdown\<close>

definition signed :: "BreakdownItem \<Rightarrow> rat \<Rightarrow> rat" where
  "signed item x = (if bi_Category item = ''ADDITION'' then x else - x)"

definition fixed_of :: "BreakdownItem list \<Rightarrow> BreakdownItem list" where
  "fixed_of items = filter (\<lambda>i. bi_Type i = ''FIXED'') items"

definition percentage_of :: "BreakdownItem list \<Rightarrow> BreakdownItem list" where
  "percentage_of items = filter (\<lambda>i. bi_Type i = ''PERCENTAGE'') items"

definition fixed_sum :: "PayEnv \<Rightarrow> (string \<Rightarrow> any) \<Rightarrow> BreakdownItem list \<Rightarrow> rat" where
  "fixed_sum pe lookup items =
     (\<Sum>i \<leftarrow> fixed_of items. signed i (resolveValue pe lookup (bi_Quantity i) 1 * resolveValue pe lookup (bi_UnitPrice i) 0))"

definition rate :: "PayEnv \<Rightarrow> (string \<Rightarrow> any) \<Rightarrow> BreakdownItem \<Rightarrow> rat" where
  "rate pe lookup i = 1 + signed i (resolveValue pe lookup (bi_Value i) 0) / 100"

definition rates :: "PayEnv \<Rightarrow> (string \<Rightarrow> any) \<Rightarrow> BreakdownItem list \<Rightarrow> rat list" where
  "rates pe lookup items = map (rate pe lookup) (percentage_of items)"

text \<open>
  The lines of the breakdown: description, category, type, quantity, unit price and amount. A percentage is taken
  of the running total, the total so far.
\<close>

type_synonym line = "string option \<times> string \<times> string \<times> rat \<times> rat \<times> rat"

definition line_of :: "ResolvedBreakdownItem \<Rightarrow> line" where
  "line_of r = (Some (ri_Description r), ri_Category r, ri_Type r, ri_Quantity r, ri_UnitPrice r, ri_Amount r)"

definition fixed_line :: "PayEnv \<Rightarrow> (string \<Rightarrow> any) \<Rightarrow> BreakdownItem \<Rightarrow> line" where
  "fixed_line pe lookup i =
     (let qty = resolveValue pe lookup (bi_Quantity i) 1; price = resolveValue pe lookup (bi_UnitPrice i) 0
      in (resolveString pe lookup (bi_Description i), bi_Category i, ''FIXED'', qty, price, pe_round2 pe (qty * price)))"

definition charge :: "PayEnv \<Rightarrow> (string \<Rightarrow> any) \<Rightarrow> BreakdownItem \<Rightarrow> rat \<Rightarrow> rat" where
  "charge pe lookup i running = pe_div pe (running * resolveValue pe lookup (bi_Value i) 0) 100"

fun percentage_lines :: "PayEnv \<Rightarrow> (string \<Rightarrow> any) \<Rightarrow> BreakdownItem list \<Rightarrow> rat \<Rightarrow> line list" where
  "percentage_lines pe lookup [] running = []"
| "percentage_lines pe lookup (i # items) running =
     (resolveString pe lookup (bi_Description i), bi_Category i, ''PERCENTAGE'', 0, 0, pe_round2 pe (charge pe lookup i running))
       # percentage_lines pe lookup items (running + signed i (charge pe lookup i running))"

fun running_total :: "PayEnv \<Rightarrow> (string \<Rightarrow> any) \<Rightarrow> BreakdownItem list \<Rightarrow> rat \<Rightarrow> rat" where
  "running_total pe lookup [] running = running"
| "running_total pe lookup (i # items) running = running_total pe lookup items (running + signed i (charge pe lookup i running))"

text \<open>What a division error of at most \<open>eps\<close> in every step can add up to.\<close>

fun error_bound :: "rat \<Rightarrow> rat list \<Rightarrow> rat \<Rightarrow> rat" where
  "error_bound eps [] e = e"
| "error_bound eps (r # rs) e = error_bound eps rs (e * \<bar>r\<bar> + eps)"

lemma fixed_items_lines:
  "fixed_items pe lookup items acc t = Some (resolved, s) \<Longrightarrow>
     s = t + fixed_sum pe lookup items \<and> map line_of resolved = map line_of acc @ map (fixed_line pe lookup) (fixed_of items)"
proof (induction items arbitrary: acc t)
  case Nil
  then show ?case by (simp add: fixed_sum_def fixed_of_def)
next
  case (Cons i items)
  show ?case
  proof (cases "bi_Type i = ''FIXED''")
    case False
    then show ?thesis using Cons by (simp add: fixed_sum_def fixed_of_def)
  next
    case True
    let ?a = "resolveValue pe lookup (bi_Quantity i) 1 * resolveValue pe lookup (bi_UnitPrice i) 0"
    have "\<exists>acc'. fixed_items pe lookup items acc' (t + signed i ?a) = Some (resolved, s) \<and> map line_of acc' = map line_of acc @ [fixed_line pe lookup i]"
      using True Cons.prems by (auto simp: Let_def signed_def line_of_def fixed_line_def split: option.splits)
    then obtain acc' where run: "fixed_items pe lookup items acc' (t + signed i ?a) = Some (resolved, s)"
      and acc': "map line_of acc' = map line_of acc @ [fixed_line pe lookup i]" by blast
    from Cons.IH [OF run] acc' True show ?thesis by (simp add: fixed_sum_def fixed_of_def)
  qed
qed

lemma mult_error: "\<bar>a - b\<bar> \<le> e \<Longrightarrow> \<bar>(a :: rat) * r - b * r\<bar> \<le> e * \<bar>r\<bar>"
proof -
  assume "\<bar>a - b\<bar> \<le> e"
  then have "\<bar>a - b\<bar> * \<bar>r\<bar> \<le> e * \<bar>r\<bar>" by (rule mult_right_mono) simp
  then show ?thesis by (simp add: abs_mult [symmetric] left_diff_distrib)
qed

lemma percentage_items_lines:
  "percentage_items pe lookup items acc t = Some (resolved, s) \<Longrightarrow>
     s = running_total pe lookup (percentage_of items) t
     \<and> map line_of resolved = map line_of acc @ percentage_lines pe lookup (percentage_of items) t"
proof (induction items arbitrary: acc t)
  case Nil
  then show ?case by (simp add: percentage_of_def)
next
  case (Cons i items)
  show ?case
  proof (cases "bi_Type i = ''PERCENTAGE''")
    case False
    then show ?thesis using Cons by (simp add: percentage_of_def)
  next
    case True
    let ?t2 = "t + signed i (charge pe lookup i t)"
    let ?line = "(resolveString pe lookup (bi_Description i), bi_Category i, ''PERCENTAGE'', 0, 0, pe_round2 pe (charge pe lookup i t))"
    have "\<exists>acc'. percentage_items pe lookup items acc' ?t2 = Some (resolved, s) \<and> map line_of acc' = map line_of acc @ [?line]"
      using True Cons.prems by (auto simp: Let_def signed_def charge_def line_of_def split: option.splits)
    then obtain acc' where run: "percentage_items pe lookup items acc' ?t2 = Some (resolved, s)"
      and acc': "map line_of acc' = map line_of acc @ [?line]" by blast
    from Cons.IH [OF run] acc' True show ?thesis by (simp add: percentage_of_def)
  qed
qed

lemma running_total_error:
  assumes "\<And>x. \<bar>pe_div pe x 100 - x / 100\<bar> \<le> eps"
  shows "\<bar>t' - t\<bar> \<le> e \<Longrightarrow> \<bar>running_total pe lookup items t' - t * prod_list (map (rate pe lookup) items)\<bar>
     \<le> error_bound eps (map (rate pe lookup) items) e"
proof (induction items arbitrary: t t' e)
  case Nil
  then show ?case by simp
next
  case (Cons i items)
  let ?p = "resolveValue pe lookup (bi_Value i) 0"
  let ?r = "rate pe lookup i"
  let ?t2 = "t' + signed i (charge pe lookup i t')"
  have "\<bar>?t2 - t' * ?r\<bar> \<le> eps"
  proof -
    have "?t2 - t' * ?r = signed i (pe_div pe (t' * ?p) 100 - t' * ?p / 100)"
      by (simp add: rate_def signed_def charge_def field_simps)
    then show ?thesis using assms [of "t' * ?p"] by (cases "bi_Category i = ''ADDITION''") (auto simp: signed_def abs_minus_commute)
  qed
  moreover have "\<bar>t' * ?r - t * ?r\<bar> \<le> e * \<bar>?r\<bar>" by (rule mult_error) (rule Cons.prems)
  ultimately have step: "\<bar>?t2 - t * ?r\<bar> \<le> e * \<bar>?r\<bar> + eps" by linarith
  from Cons.IH [OF step] show ?case by (simp add: mult.assoc)
qed

text \<open>
  C38: The breakdown lists the fixed items first and then the percentages, each group in its configured order,
  and drops items of any other type. Each line has the item's category and type and its description with the
  placeholders filled in; a fixed line has the resolved quantity and unit price and their rounded product,
  a percentage line the rounded percentage of the total so far. The total is the rounded running total, and that
  is the sum of the fixed items times one plus each percentage in turn, up to the error the decimal
  library's division makes (at most eps a division).
\<close>

theorem breakdown_total:
  assumes "calculateBreakdown pe c = Some (resolved, totalAmount)" and "\<forall>x. \<bar>pe_div pe x 100 - x / 100\<bar> \<le> eps"
  defines "items \<equiv> pc_Breakdown (pt_config (c_Executable c))" and "lookup \<equiv> lookupGlobal c"
  defines "exact \<equiv> running_total pe lookup (percentage_of items) (fixed_sum pe lookup items)"
  shows "map line_of resolved = map (fixed_line pe lookup) (fixed_of items)
       @ percentage_lines pe lookup (percentage_of items) (fixed_sum pe lookup items)
     \<and> totalAmount = pe_round2 pe exact
     \<and> \<bar>exact - fixed_sum pe lookup items * prod_list (rates pe lookup items)\<bar> \<le> error_bound eps (rates pe lookup items) 0"
proof -
  from assms(1) obtain r1 s1 s2 where f: "fixed_items pe lookup items [] 0 = Some (r1, s1)"
    and p: "percentage_items pe lookup items r1 s1 = Some (resolved, s2)" and t: "totalAmount = pe_round2 pe s2"
    by (auto simp: calculateBreakdown_def items_def lookup_def Let_def split: option.splits)
  note fs = fixed_items_lines [OF f] and ps = percentage_items_lines [OF p]
  show ?thesis
    using fs ps t running_total_error [of pe eps "fixed_sum pe lookup items" "fixed_sum pe lookup items" 0 lookup "percentage_of items"] assms(2)
    by (simp add: exact_def rates_def)
qed

section \<open>A concrete payment task\<close>

definition demo_payment_task :: PaymentTask where
  "demo_payment_task = \<lparr>pt_config = \<lparr>pc_Currency = ''LKR'', pc_TTL = 600, pc_OrgID = ''npqs'', pc_ServiceType = ''permit'',
     pc_Breakdown = [\<lparr>bi_Description = ''Tax'', bi_Category = ''ADDITION'', bi_Type = ''PERCENTAGE'', bi_Quantity = '''', bi_UnitPrice = '''', bi_Value = ''10''\<rparr>,
        \<lparr>bi_Description = ''Fee'', bi_Category = ''ADDITION'', bi_Type = ''FIXED'', bi_Quantity = ''2'', bi_UnitPrice = ''10'', bi_Value = ''''\<rparr>]\<rparr>\<rparr>"

definition demo_session :: PaymentSession where
  "demo_session = \<lparr>ps_TransactionID = ''x'', ps_ReferenceNumber = ''NSW-1'', ps_CheckoutURL = '''', ps_OrgName = '''', ps_SelectedMethodID = '''',
     ps_GeneratedAt = 0, ps_InitiatedAt = None\<rparr>"

definition demo_pay_state :: "string \<Rightarrow> PaymentTask Container \<times> TaskWorld" where
  "demo_pay_state ps = (demo_container demo_payment_task NewPaymentFSM ps InProgress [(paymentStoreSession, GSession demo_session)], demo_world [])"

lemma no_braces: "CHR ''{'' \<notin> set s \<Longrightarrow> resolveString pe lookup s = Some s"
  by (rule resolveString_done) (simp add: no_placeholder_def)

lemma demo_breakdown:
  "\<exists>resolved. calculateBreakdown demo_pay (fst (demo_pay_state ps)) = Some (resolved, 22)"
  by (simp add: calculateBreakdown_def demo_pay_state_def demo_container_def demo_payment_task_def resolveValue_def demo_pay_def
      no_braces Let_def)

theorem breakdown_total_witness:
  "\<exists>resolved. calculateBreakdown demo_pay (fst (demo_pay_state paymentIdle)) = Some (resolved, 22)
     \<and> map line_of resolved = [(Some ''Fee'', ''ADDITION'', ''FIXED'', 2, 10, 20), (Some ''Tax'', ''ADDITION'', ''PERCENTAGE'', 0, 0, 2)]"
proof -
  obtain resolved where run: "calculateBreakdown demo_pay (fst (demo_pay_state paymentIdle)) = Some (resolved, 22)"
    using demo_breakdown by blast
  have "\<forall>x. \<bar>pe_div demo_pay x 100 - x / 100\<bar> \<le> 0" by (simp add: demo_pay_def)
  from breakdown_total [OF run this, THEN conjunct1] run show ?thesis
    by (auto simp: demo_pay_state_def demo_container_def demo_payment_task_def fixed_of_def percentage_of_def fixed_sum_def fixed_line_def
        charge_def signed_def resolveValue_def demo_pay_def no_braces Let_def)
qed

lemmas pay_simps = demo_pay_state_def demo_session_def readSession_def now_after_def time_now_def container_CanTransition_def
  ttlDuration_def wrap64_def open_checkout_def content_string_def CreateCheckoutSession_def new_uuid_def pay_Create_def

lemma demo_read_session: "readSession demo_env (fst (demo_pay_state ps)) = Ok demo_session"
  using session_roundtrip [of demo_env demo_session] demo_time_ok
  by (simp add: readSession_def demo_pay_state_def demo_container_def ReadFromLocalStore_def lm_GetState_def demo_session_def)

lemma demo_initiate:
  "\<exists>x s1. initiateHandler demo_env demo_pay JNull (demo_pay_state paymentInProgress) = (Ok x, s1)"
proof -
  obtain c w where cw: "demo_pay_state paymentInProgress = (c, w)" by (cases "demo_pay_state paymentInProgress")
  obtain resolved where b: "calculateBreakdown demo_pay c = Some (resolved, 22)" using demo_breakdown [of paymentInProgress] cw by auto
  have r: "readSession demo_env c = Ok demo_session" using demo_read_session [of paymentInProgress] cw by simp
  have can: "container_CanTransition PaymentActionInitiate c"
    using cw by (auto simp: demo_pay_state_def demo_container_def container_CanTransition_def GetPluginState_def payment_edges)
  have "\<exists>x s1. open_checkout demo_env demo_pay JNull c demo_session 22 (c, w\<lparr>w_tick := 1\<rparr>) = (Ok x, s1)"
    using cw by (auto simp: pay_simps run_simps demo_payment_task_def demo_pay_def)
  then show ?thesis
    using cw can r b by (auto simp: initiateHandler_def run_simps now_after_def time_now_def ttlDuration_def wrap64_def
        demo_pay_state_def demo_session_def demo_payment_task_def)
qed

theorem second_initiation_fails_witness:
  "\<exists>x s1. initiateHandler demo_env demo_pay JNull (demo_pay_state paymentInProgress) = (Ok x, s1)
     \<and> \<not> is_ok (fst (initiateHandler demo_env demo_pay (JObj [(''methodId'', JStr ''card'')]) s1))"
proof -
  obtain c w where cw: "demo_pay_state paymentInProgress = (c, w)" by (cases "demo_pay_state paymentInProgress")
  obtain x c1 w1 where run: "initiateHandler demo_env demo_pay JNull (c, w) = (Ok x, (c1, w1))"
    using demo_initiate cw by (metis surj_pair)
  obtain r s2 where "initiateHandler demo_env demo_pay (JObj [(''methodId'', JStr ''card'')]) (c1, w1) = (r, s2)"
    by (cases "initiateHandler demo_env demo_pay (JObj [(''methodId'', JStr ''card'')]) (c1, w1)")
  with second_initiation_fails [OF run this] run cw show ?thesis by auto
qed

lemma demo_failed:
  "\<exists>resp s1. failedHandler demo_env (demo_pay_state paymentInProgress) = (Ok resp, s1)"
  using demo_read_session [of paymentInProgress]
  by (simp add: failedHandler_def demo_pay_state_def run_simps recordTransaction_def readTransactionHistory_def newSession_def new_uuid_def
      time_now_def demo_payment_task_def)

theorem failed_payment_recorded_witness:
  "\<exists>resp c' w'. failedHandler demo_env (demo_pay_state paymentInProgress) = (Ok resp, (c', w')) \<and> states_of c' = (paymentIdle, Initialized)"
proof -
  obtain c w where cw: "demo_pay_state paymentInProgress = (c, w)" by (cases "demo_pay_state paymentInProgress")
  obtain resp c' w' where run: "failedHandler demo_env (c, w) = (Ok resp, (c', w'))" using demo_failed cw by (metis surj_pair)
  have f: "c_fsm c = Some NewPaymentFSM" using cw by (auto simp: demo_pay_state_def demo_container_def)
  from failed_payment_recorded [OF run f] run cw show ?thesis by auto
qed

end
