(* ===== verification/TaskManager.thy ===== *)
theory TaskManager
  imports ContainerCache SimpleFormPlugin WaitForEventPlugin PaymentPlugin
begin

text \<open>
  The task manager, \<open>backend/internal/task/manager/manager.go\<close>, with the factory of executors
  (\<open>task/plugin/factory.go\<close>) and its HTTP handlers (\<open>http\_handler.go\<close>). Containers are cells of a
  store and the LRU cache keeps their addresses, so a container that was evicted and rebuilt is
  another cell than the old one. The callbacks of the workflow side are the list of the
  notifications sent through them. An operation runs alone: the mutex around the rebuilding
  only matters between goroutines, and the second look at the cache under it finds what the
  first one found. The map of global values is copied by value; a nil map is the empty one.
\<close>

section \<open>Plugins and executors\<close>

datatype Plugin = PSimpleForm SimpleForm | PWaitForEvent WaitForEventTask | PPayment PaymentTask

text \<open>A container whose plugin is seen at its own type, and an operation of that plugin run on it.\<close>

definition retype :: "'q \<Rightarrow> 'p Container \<Rightarrow> 'q Container" where
  "retype q c = \<lparr>c_TaskID = c_TaskID c, c_WorkflowID = c_WorkflowID c, c_WorkflowNodeTemplateID = c_WorkflowNodeTemplateID c,
     c_State = c_State c, c_Executable = q, c_globalState = c_globalState c, c_localState = c_localState c,
     c_taskStore = c_taskStore c, c_pluginState = c_pluginState c, c_fsm = c_fsm c\<rparr>"

definition as_plugin :: "('q \<Rightarrow> Plugin) \<Rightarrow> 'q \<Rightarrow> ('q, 'a) cop \<Rightarrow> (Plugin, 'a) cop" where
  "as_plugin con p m s =
     (case m (retype p (fst s), snd s) of (r, (c', w')) \<Rightarrow> (r, (retype (con (c_Executable c')) c', w')))"

definition plugin_Start :: "TaskEnv \<Rightarrow> (Plugin, ExecutionResponse option) cop" where
  "plugin_Start env s =
     (case c_Executable (fst s) of
        PSimpleForm p \<Rightarrow> as_plugin PSimpleForm p (sf_Start env) s
      | PWaitForEvent p \<Rightarrow> as_plugin PWaitForEvent p (wfe_Start env) s
      | PPayment p \<Rightarrow> as_plugin PPayment p (pay_Start env) s)"

definition plugin_GetRenderInfo :: "TaskEnv \<Rightarrow> PayEnv \<Rightarrow> (Plugin, ApiResponse) cop" where
  "plugin_GetRenderInfo env pe s =
     (case c_Executable (fst s) of
        PSimpleForm p \<Rightarrow> as_plugin PSimpleForm p (sf_GetRenderInfo env) s
      | PWaitForEvent p \<Rightarrow> as_plugin PWaitForEvent p (wfe_GetRenderInfo env) s
      | PPayment p \<Rightarrow> as_plugin PPayment p (pay_GetRenderInfo env pe) s)"

definition plugin_Execute ::
    "TaskEnv \<Rightarrow> PayEnv \<Rightarrow> ExecutionRequest option \<Rightarrow> (Plugin, ExecutionResponse option) cop" where
  "plugin_Execute env pe request s =
     (case c_Executable (fst s) of
        PSimpleForm p \<Rightarrow> as_plugin PSimpleForm p (sf_Execute env request) s
      | PWaitForEvent p \<Rightarrow> as_plugin PWaitForEvent p (wfe_Execute env request) s
      | PPayment p \<Rightarrow> as_plugin PPayment p (pay_Execute env pe request) s)"

record Executor =
  ex_Plugin :: Plugin
  ex_FSM :: PluginFSM

record taskFactory =
  fa_ServiceURL :: string          \<comment> \<open>\<open>config.Server.ServiceURL\<close>\<close>
  fa_formService :: bool
  fa_remoteManager :: bool

text \<open>The factory always has a form service and a remote manager, loaded or not.\<close>

definition NewTaskFactory :: "string \<Rightarrow> taskFactory" where
  "NewTaskFactory serviceURL = \<lparr>fa_ServiceURL = serviceURL, fa_formService = True, fa_remoteManager = True\<rparr>"

definition BuildExecutor :: "taskFactory \<Rightarrow> TaskType \<Rightarrow> any option \<Rightarrow> Executor res" where
  "BuildExecutor f taskType config =
     (if taskType = TaskTypeSimpleForm then
        bind_res (NewSimpleForm config (fa_ServiceURL f) (fa_formService f)) (\<lambda>p.
        Ok \<lparr>ex_Plugin = PSimpleForm p, ex_FSM = NewSimpleFormFSM\<rparr>)
      else if taskType = TaskTypeWaitForEvent then
        bind_res (NewWaitForEventTask config (fa_ServiceURL f) (fa_remoteManager f)) (\<lambda>p.
        Ok \<lparr>ex_Plugin = PWaitForEvent p, ex_FSM = NewWaitForEventFSM\<rparr>)
      else if taskType = TaskTypePayment then
        bind_res (NewPaymentTask config) (\<lambda>p. Ok \<lparr>ex_Plugin = PPayment p, ex_FSM = NewPaymentFSM\<rparr>)
      else Err (Errorf ''unknown task type: %s'' [taskType]))"

section \<open>The manager\<close>

text \<open>A notification: task id, state, extended state, outputs, outcome; or workflow id, task id, outputs.\<close>

datatype Notice =
    NUpdate string "State option" "string option" obj "string option"
  | NDone string string obj

record taskManager =
  tm_factory :: taskFactory
  tm_updateHandler :: bool                  \<comment> \<open>an update callback is registered\<close>
  tm_doneHandler :: bool
  tm_cache :: "nat containerCache"
  tm_containers :: "Plugin Container list"
  tm_sent :: "Notice list"                  \<comment> \<open>the latest last\<close>

definition NewTaskManager :: "bool \<Rightarrow> taskFactory \<Rightarrow> taskManager res" where
  "NewTaskManager has_db factory =
     bind_res (wrap_err ''failed to create task store: %w'' [] (NewTaskStore has_db)) (\<lambda>_.
     Ok \<lparr>tm_factory = factory, tm_updateHandler = False, tm_doneHandler = False, tm_cache = newContainerCache 100,
         tm_containers = [], tm_sent = []\<rparr>)"

definition RegisterUpstreamUpdateCallback :: "bool \<Rightarrow> taskManager \<Rightarrow> taskManager" where
  "RegisterUpstreamUpdateCallback callback tm = tm\<lparr>tm_updateHandler := callback\<rparr>"

definition RegisterUpstreamDoneCallback :: "bool \<Rightarrow> taskManager \<Rightarrow> taskManager" where
  "RegisterUpstreamDoneCallback callback tm = tm\<lparr>tm_doneHandler := callback\<rparr>"

type_synonym 'a mop = "(taskManager \<times> TaskWorld, 'a) op"

definition of_world :: "'a wop \<Rightarrow> 'a mop" where
  "of_world m s = (case m (snd s) of (r, w') \<Rightarrow> (r, (fst s, w')))"

definition getM :: "(taskManager \<Rightarrow> 'a) \<Rightarrow> 'a mop" where
  "getM f s = (Ok (f (fst s)), s)"

definition cached :: "string \<Rightarrow> nat option mop" where
  "cached taskID s =
     (case cache_Get taskID (tm_cache (fst s)) of (found, cache') \<Rightarrow> (Ok found, ((fst s)\<lparr>tm_cache := cache'\<rparr>, snd s)))"

text \<open>A new container is put in the store and its address in the cache.\<close>

definition add_container :: "string \<Rightarrow> Plugin Container \<Rightarrow> nat mop" where
  "add_container taskID c s =
     (let tm = fst s; a = length (tm_containers tm)
      in (Ok a, (tm\<lparr>tm_containers := tm_containers tm @ [c], tm_cache := cache_Set taskID a (tm_cache tm)\<rparr>, snd s)))"

definition on_container :: "nat \<Rightarrow> (Plugin, 'a) cop \<Rightarrow> 'a mop" where
  "on_container a m s =
     (case m (tm_containers (fst s) ! a, snd s) of
        (r, (c', w')) \<Rightarrow> (r, ((fst s)\<lparr>tm_containers := (tm_containers (fst s))[a := c']\<rparr>, w')))"

definition send :: "(taskManager \<Rightarrow> bool) \<Rightarrow> Notice \<Rightarrow> unit mop" where
  "send handler n s = (Ok (), (if handler (fst s) then (fst s)\<lparr>tm_sent := tm_sent (fst s) @ [n]\<rparr> else fst s, snd s))"

definition notifyWorkflowUpdateHandler ::
    "string \<Rightarrow> State option \<Rightarrow> string option \<Rightarrow> obj \<Rightarrow> string option \<Rightarrow> unit mop" where
  "notifyWorkflowUpdateHandler taskID state extendedState outputs outcome =
     send tm_updateHandler (NUpdate taskID state extendedState outputs outcome)"

definition notifyWorkflowDoneHandler :: "string \<Rightarrow> string \<Rightarrow> obj \<Rightarrow> unit mop" where
  "notifyWorkflowDoneHandler workflowID taskID outputs = send tm_doneHandler (NDone workflowID taskID outputs)"

definition start_task :: "TaskEnv \<Rightarrow> nat \<Rightarrow> InitTaskResponse mop" where
  "start_task env activeTask =
     bindS (wrapS ''failed to start task: %w'' [] (on_container activeTask (container_Start (plugin_Start env)))) (\<lambda>result.
     bindS (getM (\<lambda>tm. c_TaskID (tm_containers tm ! activeTask))) (\<lambda>taskID.
     bindS (notifyWorkflowUpdateHandler taskID (xr_NewState result) (xr_ExtendedState result) (xr_Outputs result) (xr_EmittedOutcome result)) (\<lambda>_.
     returnS \<lparr>itr_Success = True, itr_Result = JNull, itr_Error = ''''\<rparr>)))"

definition execute_task :: "TaskEnv \<Rightarrow> PayEnv \<Rightarrow> nat \<Rightarrow> ExecutionRequest option \<Rightarrow> ExecutionResponse mop" where
  "execute_task env pe activeTask payload =
     bindS (on_container activeTask (container_Execute (plugin_Execute env pe) payload)) (\<lambda>result.
     bindS (getM (\<lambda>tm. tm_containers tm ! activeTask)) (\<lambda>c.
     bindS (case xr_NewState result of
              None \<Rightarrow> returnS ()
            | Some newState \<Rightarrow>
                if newState = Completed \<or> newState = Failed
                then notifyWorkflowDoneHandler (c_WorkflowID c) (c_TaskID c) (xr_Outputs result)
                else notifyWorkflowUpdateHandler (c_TaskID c) (xr_NewState result) (xr_ExtendedState result)
                       (xr_Outputs result) (xr_EmittedOutcome result)) (\<lambda>_.
     returnS result)))"

text \<open>The rebuilding of a container from its row, and \<open>getTask\<close> around it.\<close>

definition rebuild :: "TaskEnv \<Rightarrow> string \<Rightarrow> nat mop" where
  "rebuild env taskID =
     bindS (of_world (ts_GetByID env taskID)) (\<lambda>execution.
     bindS (getM tm_factory) (\<lambda>factory.
     bindS (wrapS ''failed to rebuild executor: %w'' [] (liftS (BuildExecutor factory (ti_Type execution) (ti_Config execution)))) (\<lambda>exec.
     bindS (wrapS ''failed to create local state manager: %w'' []
              (liftS (NewLocalStateManagerWithCache (ti_ID execution) (ti_LocalState execution)))) (\<lambda>localState.
     bindS (wrapS ''failed to unmarshal global context: %w'' []
              (liftS (case ti_GlobalContext execution of None \<Rightarrow> Ok [] | Some v \<Rightarrow> dec_obj v))) (\<lambda>globalContext.
     bindS (of_world (NewContainer env (ti_ID execution) (ti_WorkflowID execution) (ti_WorkflowNodeTemplateID execution)
              (ti_State execution) globalContext localState True (ex_Plugin exec) (Some (ex_FSM exec)))) (\<lambda>activeContainer.
     add_container taskID activeContainer))))))"

definition getTask :: "TaskEnv \<Rightarrow> string \<Rightarrow> nat mop" where
  "getTask env taskID =
     bindS (cached taskID) (\<lambda>hit. case hit of Some a \<Rightarrow> returnS a | None \<Rightarrow> rebuild env taskID)"

definition GetTaskRenderInfo :: "TaskEnv \<Rightarrow> PayEnv \<Rightarrow> string \<Rightarrow> ApiResponse mop" where
  "GetTaskRenderInfo env pe taskID =
     (if taskID = '''' then failS (Errorf ''taskID is required'' [])
      else bindS (wrapS ''task %s not found: %w'' [taskID] (getTask env taskID)) (\<lambda>activeTask.
           wrapS ''failed to get render info for task %s: %w'' [taskID]
             (on_container activeTask (plugin_GetRenderInfo env pe))))"

definition ExecuteTask :: "TaskEnv \<Rightarrow> PayEnv \<Rightarrow> ExecuteTaskRequest \<Rightarrow> ExecutionResponse mop" where
  "ExecuteTask env pe req =
     (if et_TaskID req = '''' then failS (Errorf ''task_id is required'' [])
      else bindS (wrapS ''task %s not found: %w'' [et_TaskID req] (getTask env (et_TaskID req))) (\<lambda>activeTask.
           wrapS ''failed to execute task: %w'' [] (execute_task env pe activeTask (et_Payload req))))"

text \<open>The row and the container \<open>InitTask\<close> makes for a request.\<close>

definition new_row :: "InitTaskRequest \<Rightarrow> TaskInfo" where
  "new_row request = \<lparr>ti_ID = it_TaskID request, ti_WorkflowID = it_WorkflowID request,
     ti_WorkflowNodeTemplateID = it_WorkflowNodeTemplateID request, ti_Type = it_Type request, ti_State = Initialized,
     ti_PluginState = '''', ti_Config = Some (raw_json (it_Config request)), ti_LocalState = None,
     ti_GlobalContext = Some (JObj (it_GlobalState request))\<rparr>"

definition InitTask :: "TaskEnv \<Rightarrow> InitTaskRequest \<Rightarrow> InitTaskResponse mop" where
  "InitTask env request =
     bindS (cached (it_TaskID request)) (\<lambda>hit.
     case hit of
       Some existing \<Rightarrow> start_task env existing
     | None \<Rightarrow>
         bindS (getM tm_factory) (\<lambda>factory.
         bindS (wrapS ''failed to build executor: %w'' [] (liftS (BuildExecutor factory (it_Type request) (it_Config request)))) (\<lambda>exec.
         bindS (wrapS ''failed to create local state manager: %w'' []
                  (of_world (NewLocalStateManager env (it_TaskID request)))) (\<lambda>localStateManager.
         bindS (of_world (NewContainer env (it_TaskID request) (it_WorkflowID request) (it_WorkflowNodeTemplateID request)
                  Initialized (it_GlobalState request) localStateManager True (ex_Plugin exec) (Some (ex_FSM exec)))) (\<lambda>activeTask.
         bindS (wrapS ''failed to store task info: %w'' [] (of_world (ts_Create env (new_row request)))) (\<lambda>_.
         bindS (add_container (it_TaskID request) activeTask) (start_task env)))))))"

section \<open>http\_handler.go\<close>

text \<open>
  A request has a method, the path value \<open>id\<close> and a body (\<open>None\<close> when it is no JSON); a response has a
  status and a body. The message of an error is compared at its beginning: the formats of this
  theory are those of the source, so the constant text before the first verb decides.
\<close>

record HttpRequest =
  hr_Method :: string
  hr_id :: string
  hr_Body :: "any option"

datatype HttpBody = JsonBody any | ErrorBody string "go_error option" | TextBody string

record HttpResponse =
  rsp_Status :: nat
  rsp_Body :: HttpBody

fun error_head :: "go_error \<Rightarrow> string" where
  "error_head (Errorf fmt args) = fmt"
| "error_head (Wrapf fmt args e) = fmt"
| "error_head (Typed ty e) = error_head e"
| "error_head RecordNotFound = ''record not found''"
| "error_head (External s) = s"

definition enc_api_error :: "ApiError \<Rightarrow> any" where
  "enc_api_error e = JObj ([(''code'', JStr (ae_Code e)), (''message'', JStr (ae_Message e))]
     @ (if ae_Details e = JNull then [] else [(''details'', ae_Details e)]))"

definition enc_api_response :: "ApiResponse \<Rightarrow> any" where
  "enc_api_response r = JObj ([(''success'', JBool (ar_Success r))]
     @ (if ar_Data r = JNull then [] else [(''data'', ar_Data r)])
     @ (case ar_Error r of None \<Rightarrow> [] | Some e \<Rightarrow> [(''error'', enc_api_error e)]))"

definition dec_execution_request :: "ExecutionRequest decoder" where
  "dec_execution_request = dec_struct (\<lambda>m.
     bind_res (dec_field dec_string ''action'' m) (\<lambda>a.
     bind_res (dec_field dec_any ''content'' m) (\<lambda>c.
     Ok \<lparr>req_Action = a, req_Content = c\<rparr>)))"

definition dec_execute_task_request :: "ExecuteTaskRequest decoder" where
  "dec_execute_task_request = dec_struct (\<lambda>m.
     bind_res (dec_field dec_string ''workflow_id'' m) (\<lambda>w.
     bind_res (dec_field dec_string ''task_id'' m) (\<lambda>t.
     bind_res (dec_field (dec_ptr dec_execution_request) ''payload'' m) (\<lambda>p.
     Ok \<lparr>et_WorkflowID = w, et_TaskID = t, et_Payload = p\<rparr>))))"

definition writeJSONResponse :: "nat \<Rightarrow> any \<Rightarrow> HttpResponse mop" where
  "writeJSONResponse status data = returnS \<lparr>rsp_Status = status, rsp_Body = JsonBody data\<rparr>"

text \<open>\<open>ExecuteTaskResponse\<close> with \<open>success\<close> false and the message: a text and the error printed after it.\<close>

definition writeJSONError :: "nat \<Rightarrow> string \<Rightarrow> go_error option \<Rightarrow> HttpResponse mop" where
  "writeJSONError status message e = returnS \<lparr>rsp_Status = status, rsp_Body = ErrorBody message e\<rparr>"

definition HandleGetTask :: "TaskEnv \<Rightarrow> PayEnv \<Rightarrow> HttpRequest \<Rightarrow> HttpResponse mop" where
  "HandleGetTask env pe r =
     (if hr_id r = '''' then writeJSONError 400 ''taskId is required'' None
      else bindS (attemptS (GetTaskRenderInfo env pe (hr_id r))) (\<lambda>result.
           case result of
             Err e \<Rightarrow>
               writeJSONError (if prefix ''taskID is invalid'' (error_head e) then 400
                               else if prefix ''task '' (error_head e) then 404 else 500) '''' (Some e)
           | Ok resp \<Rightarrow> writeJSONResponse 200 (enc_api_response resp)
           | Panic \<Rightarrow> liftS Panic))"

definition HandleExecuteTask :: "TaskEnv \<Rightarrow> PayEnv \<Rightarrow> HttpRequest \<Rightarrow> HttpResponse mop" where
  "HandleExecuteTask env pe r =
     (if hr_Method r \<noteq> ''POST'' then returnS \<lparr>rsp_Status = 405, rsp_Body = TextBody ''Method not allowed''\<rparr>
      else case unmarshal dec_execute_task_request (hr_Body r) of
        Err e \<Rightarrow> writeJSONError 400 ''Invalid request body: '' (Some e)
      | Panic \<Rightarrow> liftS Panic
      | Ok req \<Rightarrow>
          bindS (attemptS (ExecuteTask env pe req)) (\<lambda>result.
          case result of
            Err e \<Rightarrow>
              writeJSONError (if e = Errorf ''task_id is required'' [] then 400
                              else if prefix ''task '' (error_head e) then 404 else 500) '''' (Some e)
          | Ok resp \<Rightarrow> writeJSONResponse 200 (case xr_ApiResponse resp of None \<Rightarrow> JNull | Some a \<Rightarrow> enc_api_response a)
          | Panic \<Rightarrow> liftS Panic))"

section \<open>Every plugin keeps to the contract\<close>

lemma retype_simps [simp]:
  "c_TaskID (retype q c) = c_TaskID c" "c_WorkflowID (retype q c) = c_WorkflowID c"
  "c_WorkflowNodeTemplateID (retype q c) = c_WorkflowNodeTemplateID c" "c_State (retype q c) = c_State c"
  "c_Executable (retype q c) = q" "c_globalState (retype q c) = c_globalState c" "c_localState (retype q c) = c_localState c"
  "c_taskStore (retype q c) = c_taskStore c" "c_pluginState (retype q c) = c_pluginState c" "c_fsm (retype q c) = c_fsm c"
  "states_of (retype q c) = states_of c" "retype q (retype p c) = retype q c"
  by (simp_all add: retype_def states_of_def)

lemma conforms_as_plugin:
  assumes "conforms env m"
  shows "conforms env (as_plugin con p m)"
  unfolding conforms_def
proof (intro allI impI)
  fix s r s'
  assume "as_plugin con p m s = (r, s')"
  then obtain c' w' where run: "m (retype p (fst s), snd s) = (r, (c', w'))" and s': "s' = (retype (con (c_Executable c')) c', w')"
    by (auto simp: as_plugin_def split: prod.splits)
  from assms run have ev: "evolves (retype p (fst s), snd s) (c', w')"
    and sy: "is_ok r \<or> no_faults env \<longrightarrow> synced (retype p (fst s), snd s) \<longrightarrow> synced (c', w')" unfolding conforms_def by blast+
  have "evolves s s'" using ev by (simp add: s' evolves_def same_identity_def)
  moreover have "synced (retype p (fst s), snd s) = synced s" "synced s' = synced (c', w')" by (simp_all add: s' synced_def)
  ultimately show "evolves s s' \<and> (is_ok r \<or> no_faults env \<longrightarrow> synced s \<longrightarrow> synced s')" using sy by simp
qed

lemma conforms_cases:
  assumes "\<And>q. conforms env (f q)" and "\<And>s. m s = f (c_Executable (fst s)) s"
  shows "conforms env m"
  using assms unfolding conforms_def by metis

interpretation any_plugin: plugin_contract env "plugin_Start env" "plugin_GetRenderInfo env pe" "plugin_Execute env pe" for env pe
proof
  show "conforms env (plugin_Start env)"
    by (rule conforms_cases [where f = "\<lambda>q. case q of PSimpleForm p \<Rightarrow> as_plugin PSimpleForm p (sf_Start env)
          | PWaitForEvent p \<Rightarrow> as_plugin PWaitForEvent p (wfe_Start env) | PPayment p \<Rightarrow> as_plugin PPayment p (pay_Start env)"])
      (auto simp: plugin_Start_def intro: conforms_as_plugin simple_form.start wait_for_event.start payment.start split: Plugin.splits)
  show "conforms env (plugin_GetRenderInfo env pe)"
    by (rule conforms_cases [where f = "\<lambda>q. case q of PSimpleForm p \<Rightarrow> as_plugin PSimpleForm p (sf_GetRenderInfo env)
          | PWaitForEvent p \<Rightarrow> as_plugin PWaitForEvent p (wfe_GetRenderInfo env)
          | PPayment p \<Rightarrow> as_plugin PPayment p (pay_GetRenderInfo env pe)"])
      (auto simp: plugin_GetRenderInfo_def intro: conforms_as_plugin simple_form.render wait_for_event.render payment.render split: Plugin.splits)
  show "conforms env (plugin_Execute env pe request)" for request
    by (rule conforms_cases [where f = "\<lambda>q. case q of PSimpleForm p \<Rightarrow> as_plugin PSimpleForm p (sf_Execute env request)
          | PWaitForEvent p \<Rightarrow> as_plugin PWaitForEvent p (wfe_Execute env request)
          | PPayment p \<Rightarrow> as_plugin PPayment p (pay_Execute env pe request)"])
      (auto simp: plugin_Execute_def intro: conforms_as_plugin simple_form.execute wait_for_event.execute payment.execute split: Plugin.splits)
qed

section \<open>Containers in step with the table\<close>

definition row_backs :: "TaskInfo \<Rightarrow> Plugin Container \<Rightarrow> bool" where
  "row_backs t c \<longleftrightarrow> ti_ID t = c_TaskID c \<and> ti_WorkflowID t = c_WorkflowID c
     \<and> ti_WorkflowNodeTemplateID t = c_WorkflowNodeTemplateID c
     \<and> (case ti_GlobalContext t of None \<Rightarrow> Ok [] | Some v \<Rightarrow> dec_obj v) = Ok (c_globalState c)
     \<and> (\<exists>fsm. executor_fsm (ti_Type t) = Ok fsm \<and> c_fsm c = Some fsm)"

definition in_step :: "TaskWorld \<Rightarrow> Plugin Container \<Rightarrow> bool" where
  "in_step w c \<longleftrightarrow> synced (c, w) \<and> c_taskStore c \<and> lm_taskID (c_localState c) = c_TaskID c \<and> (\<exists>t \<in> set (w_tasks w). row_backs t c)"

text \<open>The cache points into the store, each address to the container of its task, which is in step.\<close>

definition entry_ok :: "taskManager \<Rightarrow> TaskWorld \<Rightarrow> string \<times> nat \<Rightarrow> bool" where
  "entry_ok tm w e \<longleftrightarrow> snd e < length (tm_containers tm) \<and> c_TaskID (tm_containers tm ! snd e) = fst e
     \<and> in_step w (tm_containers tm ! snd e)"

definition coherent :: "taskManager \<times> TaskWorld \<Rightarrow> bool" where
  "coherent s \<longleftrightarrow> cc_inv (tm_cache (fst s)) \<and> distinct (map ti_ID (w_tasks (snd s)))
     \<and> (\<forall>e \<in> set (cc_entries (tm_cache (fst s))). entry_ok (fst s) (snd s) e)"

definition holds_task :: "string \<Rightarrow> nat \<Rightarrow> taskManager \<times> TaskWorld \<Rightarrow> bool" where
  "holds_task k a s \<longleftrightarrow> coherent s \<and> (k, a) \<in> set (cc_entries (tm_cache (fst s)))"

lemma row_backs_frame:
  assumes "row_frame t' = row_frame t" and "same_identity c c'" and "row_backs t c"
  shows "row_backs t' c'"
proof -
  have "ti_ID t' = ti_ID t \<and> ti_WorkflowID t' = ti_WorkflowID t \<and> ti_WorkflowNodeTemplateID t' = ti_WorkflowNodeTemplateID t
      \<and> ti_GlobalContext t' = ti_GlobalContext t \<and> ti_Type t' = ti_Type t"
    using assms(1) by (cases t; cases t') (simp add: row_frame_def)
  with assms(2,3) show ?thesis by (simp add: row_backs_def same_identity_def)
qed

lemma evolves_rows:
  assumes "evolves (c, w) (c', w')" and "in_step w c"
  shows "map row_frame (w_tasks w') = map row_frame (w_tasks w)"
    and "other_rows (c_TaskID c) w' = other_rows (c_TaskID c) w" and "same_identity c c'"
  using assms by (auto simp: evolves_def in_step_def)

lemma in_step_own:
  assumes "evolves (c, w) (c', w')" and "in_step w c" and "synced (c', w')"
  shows "in_step w' c'"
proof -
  note e = evolves_rows [OF assms(1,2)]
  from assms(2) obtain t where t: "t \<in> set (w_tasks w)" "row_backs t c" by (auto simp: in_step_def)
  then have "row_frame t \<in> set (map row_frame (w_tasks w'))" using e(1) by simp
  then obtain t' where t': "t' \<in> set (w_tasks w')" "row_frame t' = row_frame t" by auto
  have "row_backs t' c'" by (rule row_backs_frame [OF t'(2) e(3) t(2)])
  with t'(1) assms(2,3) e(3) show ?thesis by (auto simp: in_step_def same_identity_def)
qed

lemma in_step_other:
  assumes "evolves (c, w) (c', w')" and "in_step w c" and "in_step w d" and "c_TaskID d \<noteq> c_TaskID c"
  shows "in_step w' d"
proof -
  have "{t \<in> set (w_tasks w'). ti_ID t \<noteq> c_TaskID c} = {t \<in> set (w_tasks w). ti_ID t \<noteq> c_TaskID c}"
    using evolves_rows(2) [OF assms(1,2)] unfolding other_rows_def by (metis set_filter)
  then have mem: "t \<in> set (w_tasks w') \<and> ti_ID t \<noteq> c_TaskID c \<longleftrightarrow> t \<in> set (w_tasks w) \<and> ti_ID t \<noteq> c_TaskID c" for t by blast
  have "\<forall>t. ti_ID t = c_TaskID d \<longrightarrow> (t \<in> set (w_tasks w') \<longleftrightarrow> t \<in> set (w_tasks w))"
    using assms(4) by (intro allI impI) (metis mem)
  moreover from assms(3) obtain t where "t \<in> set (w_tasks w)" "row_backs t d" by (auto simp: in_step_def)
  moreover have "ti_ID t = c_TaskID d" using \<open>row_backs t d\<close> by (simp add: row_backs_def)
  ultimately have "\<exists>t \<in> set (w_tasks w'). row_backs t d"
    and same: "\<forall>t. ti_ID t = c_TaskID d \<longrightarrow> (t \<in> set (w_tasks w') \<longleftrightarrow> t \<in> set (w_tasks w))" by blast+
  moreover have "synced (d, w')" using assms(3) same unfolding in_step_def synced_def fst_conv snd_conv by blast
  ultimately have "\<exists>t \<in> set (w_tasks w'). row_backs t d" "synced (d, w')" by blast+
  with assms(3) show ?thesis by (simp add: in_step_def)
qed

lemma frame_ids: "map row_frame rows' = map row_frame rows \<Longrightarrow> map ti_ID rows' = map ti_ID rows"
proof -
  assume "map row_frame rows' = map row_frame rows"
  then have "map ti_ID (map row_frame rows') = map ti_ID (map row_frame rows)" by simp
  then show ?thesis by (simp add: row_frame_def comp_def)
qed

lemma holds_entry: "holds_task k a s \<Longrightarrow> entry_ok (fst s) (snd s) (k, a)"
  by (auto simp: holds_task_def coherent_def)

lemma on_container_triple:
  assumes "conforms env m" and "no_faults env"
  shows "triple (holds_task k a) (on_container a m) (\<lambda>v. holds_task k a) (holds_task k a)"
proof (rule tripleI)
  fix s r s'
  assume pre: "holds_task k a s" and run: "on_container a m s = (r, s')"
  obtain tm w where s: "s = (tm, w)" by (cases s)
  let ?c = "tm_containers tm ! a"
  obtain c' w' where m: "m (?c, w) = (r, (c', w'))" and s': "s' = (tm\<lparr>tm_containers := (tm_containers tm)[a := c']\<rparr>, w')"
    using run by (auto simp: on_container_def s split: prod.splits)
  from assms m have ev: "evolves (?c, w) (c', w')" and sy: "synced (?c, w) \<Longrightarrow> synced (c', w')"
    unfolding conforms_def by blast+
  from holds_entry [OF pre] have a: "a < length (tm_containers tm)" "c_TaskID ?c = k" "in_step w ?c" by (simp_all add: entry_ok_def s)
  have own: "in_step w' c'" "c_TaskID c' = k"
    using in_step_own [OF ev a(3)] sy a(2,3) evolves_rows(3) [OF ev a(3)] by (auto simp: in_step_def same_identity_def)
  have co: "coherent (tm, w)" and ka: "(k, a) \<in> set (cc_entries (tm_cache tm))" using pre by (simp_all add: holds_task_def s)
  have "entry_ok (fst s') w' e" if e: "e \<in> set (cc_entries (tm_cache tm))" for e
  proof -
    from co e have eo: "entry_ok tm w e" by (auto simp: coherent_def)
    show ?thesis
    proof (cases "snd e = a")
      case True
      then show ?thesis using eo own a by (auto simp: entry_ok_def s')
    next
      case False
      have "fst e \<noteq> k"
      proof
        assume "fst e = k"
        moreover have "distinct (map fst (cc_entries (tm_cache tm)))" using co lru.keys by (auto simp: coherent_def)
        ultimately have "e = (k, a)" using e ka by (metis eq_key_imp_eq_value prod.collapse)
        then show False using False by simp
      qed
      then show ?thesis using eo False in_step_other [OF ev a(3)] a(2) by (auto simp: entry_ok_def s')
    qed
  qed
  then have "coherent s'"
    using co frame_ids [OF evolves_rows(1) [OF ev a(3)]] by (simp add: coherent_def s')
  then show "(\<forall>v. r = Ok v \<longrightarrow> holds_task k a s') \<and> (\<not> is_ok r \<longrightarrow> holds_task k a s')"
    using ka by (simp add: holds_task_def s')
qed

lemma coherent_world: "w_tasks w' = w_tasks w \<Longrightarrow> coherent (tm, w') \<longleftrightarrow> coherent (tm, w)"
  by (simp add: coherent_def entry_ok_def in_step_def synced_def)

lemma coherent_fields: "tm_cache tm' = tm_cache tm \<Longrightarrow> tm_containers tm' = tm_containers tm \<Longrightarrow> coherent (tm', w) \<longleftrightarrow> coherent (tm, w)"
  by (simp add: coherent_def entry_ok_def)

lemma set_touch:
  fixes xs :: "(string \<times> 'c) list"
  assumes "map_of xs k = Some v" and "distinct (map fst xs)"
  shows "set (lru_touch k v xs) = set xs"
proof (rule set_eqI)
  fix x :: "string \<times> 'c"
  obtain i and u :: 'c where x: "x = (i, u)" by (cases x)
  have kv: "(k, v) \<in> set xs" using assms(1) by (rule map_of_SomeD)
  have uniq: "u = v" if "(k, u) \<in> set xs" using map_of_is_SomeI [OF assms(2) that] assms(1) by simp
  show "x \<in> set (lru_touch k v xs) \<longleftrightarrow> x \<in> set xs"
    unfolding x lru_touch_def by (cases "i = k") (use kv uniq in simp_all, blast)
qed

lemma cached_cases:
  assumes "coherent s" and "cached k s = (r, s')"
  obtains "r = Ok None" "s' = s" "map_of (cc_entries (tm_cache (fst s))) k = None"
  | a where "r = Ok (Some a)" "holds_task k a s" "holds_task k a s'" "snd s' = snd s"
      "\<exists>cache'. fst s' = (fst s)\<lparr>tm_cache := cache'\<rparr>"
proof -
  obtain tm w where s: "s = (tm, w)" by (cases s)
  have inv: "cc_inv (tm_cache tm)" using assms(1) by (simp add: coherent_def s)
  show ?thesis
  proof (cases "map_of (cc_entries (tm_cache tm)) k")
    case None
    then show ?thesis using that(1) assms(2) lru.get_miss [OF inv None] by (simp add: s cached_def)
  next
    case (Some a)
    from lru.get_hit [OF inv Some] obtain m' where m': "cache_Get k (tm_cache tm) = (Some a, m')" "cc_inv m'"
      "cc_entries m' = lru_touch k a (cc_entries (tm_cache tm))" by blast
    have same: "set (cc_entries m') = set (cc_entries (tm_cache tm))"
      using set_touch [OF Some] lru.keys [OF inv] m'(3) by simp
    have run: "r = Ok (Some a)" "s' = (tm\<lparr>tm_cache := m'\<rparr>, w)" using assms(2) m' by (simp_all add: s cached_def)
    have "(k, a) \<in> set (cc_entries (tm_cache tm))" using Some by (rule map_of_SomeD)
    moreover have "coherent s'" using assms(1) same m'(2) run by (simp add: coherent_def s entry_ok_def)
    ultimately show ?thesis using that(2) [of a] run same assms(1) by (auto simp: holds_task_def s)
  qed
qed

lemma add_container_holds:
  assumes "coherent (tm, w)" and "in_step w c" and "c_TaskID c = k" and "add_container k c (tm, w) = (r, s')"
  shows "r = Ok (length (tm_containers tm)) \<and> holds_task k (length (tm_containers tm)) s' \<and> snd s' = w"
proof -
  let ?a = "length (tm_containers tm)" and ?n = "cc_bound (tm_cache tm)"
  have inv: "cc_inv (tm_cache tm)" using assms(1) by (simp add: coherent_def)
  note put = lru.put_entries [OF inv, of k ?a]
  have sub: "set (cc_entries (cache_Set k ?a (tm_cache tm))) \<subseteq> insert (k, ?a) (set (cc_entries (tm_cache tm)))"
    using put set_take_subset [of ?n "lru_touch k ?a (cc_entries (tm_cache tm))"] by (auto simp: lru_touch_def)
  have new: "(k, ?a) \<in> set (cc_entries (cache_Set k ?a (tm_cache tm)))"
    using put lru.keys [OF inv] by (cases ?n) (simp_all add: lru_touch_def)
  have s': "r = Ok ?a" "s' = (tm\<lparr>tm_containers := tm_containers tm @ [c], tm_cache := cache_Set k ?a (tm_cache tm)\<rparr>, w)"
    using assms(4) by (simp_all add: add_container_def Let_def)
  have "entry_ok (fst s') w e" if "e \<in> set (cc_entries (cache_Set k ?a (tm_cache tm)))" for e
  proof (cases "e = (k, ?a)")
    case True
    then show ?thesis using assms(2,3) by (simp add: entry_ok_def s')
  next
    case False
    then have "entry_ok tm w e" using that sub assms(1) by (auto simp: coherent_def)
    then show ?thesis by (auto simp: entry_ok_def s' nth_append)
  qed
  then show ?thesis using s' new put assms(1) by (simp add: holds_task_def coherent_def)
qed

text \<open>Reading the table.\<close>

lemma GetByID_no_faults:
  assumes "no_faults env"
  shows "ts_GetByID env k w = (db_first (\<lambda>t. ti_ID t = k) (w_tasks w), w\<lparr>w_tick := Suc (w_tick w)\<rparr>)"
  using assms by (simp add: ts_GetByID_def task_db_def no_faults_def Let_def)

lemma NewContainer_no_faults:
  assumes "no_faults env"
  shows "NewContainer env k wfID tp st g ls True p fsm w =
    (Ok \<lparr>c_TaskID = k, c_WorkflowID = wfID, c_WorkflowNodeTemplateID = tp, c_State = st, c_Executable = p, c_globalState = g,
         c_localState = ls, c_taskStore = True,
         c_pluginState = (case List.find (\<lambda>t. ti_ID t = k) (w_tasks w) of None \<Rightarrow> '''' | Some t \<Rightarrow> ti_PluginState t), c_fsm = fsm\<rparr>,
     w\<lparr>w_tick := Suc (w_tick w)\<rparr>)"
  using assms by (simp add: NewContainer_def ts_GetPluginState_def task_db_def no_faults_def Let_def bindS_def db_first_def returnS_def
      split: option.splits)

lemma BuildExecutor_fsm: "BuildExecutor f ty config = Ok ex \<Longrightarrow> executor_fsm ty = Ok (ex_FSM ex)"
  by (auto simp: BuildExecutor_def executor_fsm_def res_simps split: if_splits)

lemma WithCache_task: "NewLocalStateManagerWithCache k v = Ok m \<Longrightarrow> lm_taskID m = k"
  by (auto simp: NewLocalStateManagerWithCache_def split: option.splits any.splits)

lemma rebuild_triple:
  assumes nf: "no_faults env"
  shows "triple coherent (rebuild env k) (\<lambda>a. holds_task k a) coherent"
proof (rule tripleI)
  fix s r s'
  assume co: "coherent s" and run: "rebuild env k s = (r, s')"
  obtain tm w where s: "s = (tm, w)" by (cases s)
  show "(\<forall>a. r = Ok a \<longrightarrow> holds_task k a s') \<and> (\<not> is_ok r \<longrightarrow> coherent s')"
  proof (cases "List.find (\<lambda>t. ti_ID t = k) (w_tasks w)")
    case None
    then have "r = Err RecordNotFound \<and> w_tasks (snd s') = w_tasks w \<and> fst s' = tm"
      using run by (auto simp: rebuild_def bindS_def of_world_def GetByID_no_faults [OF nf] db_first_def s)
    then show ?thesis using co coherent_world [of "snd s'" w tm] by (cases s') (auto simp: s)
  next
    case (Some t)
    let ?w1 = "w\<lparr>w_tick := Suc (w_tick w)\<rparr>"
    have run1: "bindS (wrapS ''failed to rebuild executor: %w'' [] (liftS (BuildExecutor (tm_factory tm) (ti_Type t) (ti_Config t)))) (\<lambda>exec.
        bindS (wrapS ''failed to create local state manager: %w'' [] (liftS (NewLocalStateManagerWithCache (ti_ID t) (ti_LocalState t)))) (\<lambda>localState.
        bindS (wrapS ''failed to unmarshal global context: %w'' []
              (liftS (case ti_GlobalContext t of None \<Rightarrow> Ok [] | Some v \<Rightarrow> dec_obj v))) (\<lambda>globalContext.
        bindS (of_world (NewContainer env (ti_ID t) (ti_WorkflowID t) (ti_WorkflowNodeTemplateID t)
              (ti_State t) globalContext localState True (ex_Plugin exec) (Some (ex_FSM exec)))) (\<lambda>activeContainer.
        add_container k activeContainer)))) (tm, ?w1) = (r, s')"
      using run Some by (simp add: rebuild_def bindS_def [where m = "of_world _"] bindS_def [where m = "getM _"] of_world_def getM_def
          GetByID_no_faults [OF nf] db_first_def s)
    have t: "t \<in> set (w_tasks w)" "ti_ID t = k" using find_Some_mem [OF Some] by simp_all
    have co1: "coherent (tm, ?w1)" using co coherent_world [of ?w1 w tm] by (simp add: s)
    obtain ex where ex: "BuildExecutor (tm_factory tm) (ti_Type t) (ti_Config t) = ex" by simp
    obtain ls where ls: "NewLocalStateManagerWithCache (ti_ID t) (ti_LocalState t) = ls" by simp
    obtain g where g: "(case ti_GlobalContext t of None \<Rightarrow> Ok [] | Some v \<Rightarrow> dec_obj v) = g" by simp
    show ?thesis
    proof (cases "is_ok ex \<and> is_ok ls \<and> is_ok g")
      case False
      then have "\<not> is_ok r" "s' = (tm, ?w1)" using run1 unfolding ex ls g
        by (cases ex; cases ls; cases g; auto simp: bindS_def wrapS_def liftS_def)+
      then show ?thesis using co1 by auto
    next
      case True
      then obtain ex' ls' g' where v: "ex = Ok ex'" "ls = Ok ls'" "g = Ok g'" by (auto simp: is_ok_iff)
      let ?w2 = "?w1\<lparr>w_tick := Suc (Suc (w_tick w))\<rparr>"
      let ?c = "\<lparr>c_TaskID = ti_ID t, c_WorkflowID = ti_WorkflowID t, c_WorkflowNodeTemplateID = ti_WorkflowNodeTemplateID t,
         c_State = ti_State t, c_Executable = ex_Plugin ex', c_globalState = g', c_localState = ls', c_taskStore = True,
         c_pluginState = ti_PluginState t, c_fsm = Some (ex_FSM ex')\<rparr>"
      have add: "add_container k ?c (tm, ?w2) = (r, s')"
        using run1 unfolding ex ls g
        by (simp add: v bindS_def wrapS_def liftS_def of_world_def NewContainer_no_faults [OF nf] t(2) Some)
      have "row_backs t ?c" using g v BuildExecutor_fsm ex by (simp add: row_backs_def)
      moreover have "synced (?c, ?w2)"
        unfolding synced_def
      proof (intro impI ballI)
        fix u
        assume "u \<in> set (w_tasks (snd (?c, ?w2)))" "ti_ID u = c_TaskID (fst (?c, ?w2))"
        then have "u = t" using co t by (auto simp: coherent_def s distinct_map dest: inj_onD)
        then show "(ti_PluginState u, ti_State u) = states_of (fst (?c, ?w2))" by (simp add: states_of_def)
      qed
      ultimately have "in_step ?w2 ?c" using t WithCache_task ls v by (auto simp: in_step_def)
      from add_container_holds [OF _ this _ add] co1 coherent_world [of ?w2 ?w1 tm] t(2) show ?thesis by auto
    qed
  qed
qed

lemma getTask_triple:
  assumes "no_faults env"
  shows "triple coherent (getTask env k) (\<lambda>a. holds_task k a) coherent"
  unfolding getTask_def
proof (rule triple_bindS)
  show "triple coherent (cached k) (\<lambda>hit s. case hit of None \<Rightarrow> coherent s | Some a \<Rightarrow> holds_task k a s) coherent"
  proof (rule tripleI)
    fix s r s'
    assume co: "coherent s" and run: "cached k s = (r, s')"
    show "(\<forall>v. r = Ok v \<longrightarrow> (case v of None \<Rightarrow> coherent s' | Some a \<Rightarrow> holds_task k a s')) \<and> (\<not> is_ok r \<longrightarrow> coherent s')"
      by (rule cached_cases [OF co run]) (use co in auto)
  qed
  show "triple (\<lambda>s. case hit of None \<Rightarrow> coherent s | Some a \<Rightarrow> holds_task k a s)
      (case hit of None \<Rightarrow> rebuild env k | Some a \<Rightarrow> returnS a) (\<lambda>a. holds_task k a) coherent" for hit
    by (cases hit) (auto intro: rebuild_triple [OF assms] triple_returnS)
qed

lemma send_triple: "triple (holds_task k a) (send h n) (\<lambda>_. holds_task k a) (holds_task k a)"
  by (rule tripleI) (auto simp: send_def holds_task_def coherent_def entry_ok_def)

lemma getM_triple: "triple P (getM f) (\<lambda>v s. P s \<and> v = f (fst s)) E"
  by (rule tripleI) (auto simp: getM_def)

lemma holds_coherent: "holds_task k a s \<Longrightarrow> coherent s"
  by (simp add: holds_task_def)

lemma start_task_triple:
  assumes "no_faults env"
  shows "triple (holds_task k a) (start_task env a) (\<lambda>_. coherent) coherent"
  unfolding start_task_def notifyWorkflowUpdateHandler_def
proof (intro triples)
  show "triple (holds_task k a) (on_container a (container_Start (plugin_Start env))) (\<lambda>_. holds_task k a) coherent"
    by (rule triple_conseq [OF on_container_triple [OF any_plugin.container_start assms]]) (auto simp: holds_coherent)
  show "triple (holds_task k a) (getM (\<lambda>tm. c_TaskID (tm_containers tm ! a))) (\<lambda>_. holds_task k a) coherent"
    by (rule triple_conseq [OF getM_triple]) auto
  show "triple (holds_task k a) (send tm_updateHandler (NUpdate taskID (xr_NewState result) (xr_ExtendedState result)
      (xr_Outputs result) (xr_EmittedOutcome result))) (\<lambda>_. coherent) coherent" for taskID result
    by (rule triple_conseq [OF send_triple]) (auto simp: holds_coherent)
  show "triple coherent (returnS \<lparr>itr_Success = True, itr_Result = JNull, itr_Error = ''''\<rparr>) (\<lambda>_. coherent) coherent"
    by (rule triple_returnS)
qed

lemma execute_task_triple:
  assumes "no_faults env"
  shows "triple (holds_task k a) (execute_task env pe a payload) (\<lambda>_. coherent) coherent"
  unfolding execute_task_def notifyWorkflowUpdateHandler_def notifyWorkflowDoneHandler_def
proof (intro triples)
  show "triple (holds_task k a) (on_container a (container_Execute (plugin_Execute env pe) payload)) (\<lambda>_. holds_task k a) coherent"
    by (rule triple_conseq [OF on_container_triple [OF any_plugin.container_execute assms]]) (auto simp: holds_coherent)
  show "triple (holds_task k a) (getM (\<lambda>tm. tm_containers tm ! a)) (\<lambda>_. holds_task k a) coherent"
    by (rule triple_conseq [OF getM_triple]) auto
  show "triple (holds_task k a) (returnS ()) (\<lambda>_. coherent) coherent" by (rule triple_returnS) (rule holds_coherent)
  show "triple (holds_task k a) (if newState = Completed \<or> newState = Failed
      then send tm_doneHandler (NDone (c_WorkflowID c) (c_TaskID c) (xr_Outputs result))
      else send tm_updateHandler (NUpdate (c_TaskID c) (xr_NewState result) (xr_ExtendedState result) (xr_Outputs result)
        (xr_EmittedOutcome result))) (\<lambda>_. coherent) coherent" for c result newState
    by (cases "newState = Completed \<or> newState = Failed")
      (auto intro!: triple_conseq [OF send_triple, where P = "holds_task k a"] simp: holds_coherent)
  show "triple coherent (returnS result) (\<lambda>_. coherent) coherent" for result :: ExecutionResponse by (rule triple_returnS)
qed

lemma ExecuteTask_triple:
  assumes "no_faults env"
  shows "triple coherent (ExecuteTask env pe req) (\<lambda>_. coherent) coherent"
proof (cases "et_TaskID req = ''''")
  case True
  then show ?thesis by (simp add: ExecuteTask_def triple_failS)
next
  case False
  then show ?thesis
    by (simp add: ExecuteTask_def) (intro triple_bindS [OF triple_wrapS [OF getTask_triple]] triple_wrapS execute_task_triple assms)
qed

lemma GetTaskRenderInfo_triple:
  assumes "no_faults env"
  shows "triple coherent (GetTaskRenderInfo env pe k) (\<lambda>_. coherent) coherent"
proof (cases "k = ''''")
  case True
  then show ?thesis by (simp add: GetTaskRenderInfo_def triple_failS)
next
  case False
  have "triple (holds_task k a) (on_container a (plugin_GetRenderInfo env pe)) (\<lambda>_. coherent) coherent" for a
    by (rule triple_conseq [OF on_container_triple [OF any_plugin.render assms]]) (auto simp: holds_coherent)
  then show ?thesis using False
    by (simp add: GetTaskRenderInfo_def) (intro triple_bindS [OF triple_wrapS [OF getTask_triple]] triple_wrapS assms)
qed

text \<open>A new task.\<close>

lemma NewLocalStateManager_frame:
  assumes "NewLocalStateManager env k w = (r, w')"
  shows "w_tasks w' = w_tasks w \<and> (\<forall>m. r = Ok m \<longrightarrow> lm_taskID m = k)"
proof -
  obtain q w1 where q: "ts_GetLocalState env k w = (q, w1)" by (cases "ts_GetLocalState env k w")
  have "w_tasks w1 = w_tasks w"
    using q by (auto simp: ts_GetLocalState_def bindS_def task_db_def returnS_def Let_def split: option.splits res.splits prod.splits)
  then show ?thesis
    using assms q by (auto simp: NewLocalStateManager_def wrapS_def loadFromDB_def split: prod.splits res.splits option.splits any.splits if_splits)
qed

lemma new_row_in_step:
  assumes "coherent (tm, w)" and "\<forall>t \<in> set (w_tasks w). ti_ID t \<noteq> ti_ID row"
    and "row_backs row c" and "(ti_PluginState row, ti_State row) = states_of c" and "c_taskStore c"
    and "lm_taskID (c_localState c) = c_TaskID c" and "w_tasks w' = w_tasks w @ [row]"
  shows "coherent (tm, w')" and "in_step w' c"
proof -
  have id: "ti_ID row = c_TaskID c" using assms(3) by (simp add: row_backs_def)
  show "in_step w' c" using assms(2-7) id by (auto simp: in_step_def synced_def)
  have "in_step w' d" if "in_step w d" for d
  proof -
    from that obtain t where "t \<in> set (w_tasks w)" "row_backs t d" by (auto simp: in_step_def)
    then have "c_TaskID d \<noteq> ti_ID row" using assms(2) by (auto simp: row_backs_def)
    then show ?thesis using that assms(7) by (auto simp: in_step_def synced_def)
  qed
  then show "coherent (tm, w')" using assms(1,2,7) by (auto simp: coherent_def entry_ok_def)
qed

lemma Create_triple:
  assumes "no_faults env" and "ti_GlobalContext row = Some (JObj g)" and "ti_ID row = k" and "ti_PluginState row = ''''"
  shows "triple (\<lambda>s. coherent s \<and> row_backs row c \<and> c_taskStore c \<and> lm_taskID (c_localState c) = k \<and> c_State c = ti_State row
           \<and> c_pluginState c = (case List.find (\<lambda>t. ti_ID t = k) (w_tasks (snd s)) of None \<Rightarrow> '''' | Some t \<Rightarrow> ti_PluginState t))
    (of_world (ts_Create env row)) (\<lambda>_ s. coherent s \<and> in_step (snd s) c \<and> c_TaskID c = k) coherent"
proof (rule tripleI)
  fix s r s'
  let ?row = "row\<lparr>ti_Config := json_column (ti_Config row), ti_LocalState := json_column (ti_LocalState row),
      ti_GlobalContext := json_column (ti_GlobalContext row)\<rparr>"
  assume P: "coherent s \<and> row_backs row c \<and> c_taskStore c \<and> lm_taskID (c_localState c) = k \<and> c_State c = ti_State row
      \<and> c_pluginState c = (case List.find (\<lambda>t. ti_ID t = k) (w_tasks (snd s)) of None \<Rightarrow> '''' | Some t \<Rightarrow> ti_PluginState t)"
    and run: "of_world (ts_Create env row) s = (r, s')"
  obtain tm w where s: "s = (tm, w)" by (cases s)
  show "(\<forall>v. r = Ok v \<longrightarrow> coherent s' \<and> in_step (snd s') c \<and> c_TaskID c = k) \<and> (\<not> is_ok r \<longrightarrow> coherent s')"
  proof (cases "\<exists>t \<in> set (w_tasks w). ti_ID t = ti_ID row")
    case True
    then have "\<not> is_ok r" "s' = (tm, w\<lparr>w_tick := Suc (w_tick w)\<rparr>)"
      using run assms(1) by (auto simp: s of_world_def ts_Create_def task_db_def no_faults_def Let_def)
    then show ?thesis using P coherent_world [of "w\<lparr>w_tick := Suc (w_tick w)\<rparr>" w tm] by (auto simp: s)
  next
    case False
    let ?w = "w\<lparr>w_tick := Suc (w_tick w), w_tasks := w_tasks w @ [?row]\<rparr>"
    have s': "r = Ok ()" "s' = (tm, ?w)"
      using run assms(1) False by (auto simp: s of_world_def ts_Create_def task_db_def no_faults_def Let_def)
    have "List.find (\<lambda>t. ti_ID t = k) (w_tasks w) = None" using False assms(3) by (simp add: find_None_all)
    then have "(ti_PluginState ?row, ti_State ?row) = states_of c" using P assms(4) by (simp add: states_of_def s)
    moreover have "row_backs ?row c" using P assms(2) by (simp add: row_backs_def json_column_def)
    ultimately show ?thesis
      using new_row_in_step [of tm w ?row c ?w] P False assms(3) s' by (auto simp: s row_backs_def)
  qed
qed

lemma of_world_triple:
  assumes "\<And>w r w'. m w = (r, w') \<Longrightarrow> w_tasks w' = w_tasks w \<and> (\<forall>v. r = Ok v \<longrightarrow> Q v (w_tasks w))"
  shows "triple coherent (of_world m) (\<lambda>v s. coherent s \<and> Q v (w_tasks (snd s))) coherent"
proof (rule tripleI)
  fix s r s'
  assume co: "coherent s" and run: "of_world m s = (r, s')"
  obtain tm w where s: "s = (tm, w)" by (cases s)
  obtain w' where w': "m w = (r, w')" "s' = (tm, w')" using run by (auto simp: of_world_def s split: prod.splits)
  from assms [OF w'(1)] co coherent_world [of w' w tm]
  show "(\<forall>v. r = Ok v \<longrightarrow> coherent s' \<and> Q v (w_tasks (snd s'))) \<and> (\<not> is_ok r \<longrightarrow> coherent s')" by (auto simp: s w')
qed

lemma triple_pure: "(F \<Longrightarrow> triple P m Q E) \<Longrightarrow> triple (\<lambda>s. P s \<and> F) m Q E"
  unfolding triple_def by blast

lemma InitTask_triple:
  assumes nf: "no_faults env"
  shows "triple coherent (InitTask env request) (\<lambda>_. coherent) coherent"
proof -
  let ?k = "it_TaskID request" and ?row = "new_row request"
  let ?fresh = "\<lambda>c rows. row_backs ?row c \<and> c_taskStore c \<and> lm_taskID (c_localState c) = ?k \<and> c_State c = ti_State ?row
       \<and> c_pluginState c = (case List.find (\<lambda>t. ti_ID t = ?k) rows of None \<Rightarrow> '''' | Some t \<Rightarrow> ti_PluginState t)"
  have lookup: "triple coherent (cached ?k) (\<lambda>hit s. case hit of None \<Rightarrow> coherent s | Some a \<Rightarrow> holds_task ?k a s) coherent"
  proof (rule tripleI)
    fix s r s'
    assume co: "coherent s" and run: "cached ?k s = (r, s')"
    show "(\<forall>v. r = Ok v \<longrightarrow> (case v of None \<Rightarrow> coherent s' | Some a \<Rightarrow> holds_task ?k a s')) \<and> (\<not> is_ok r \<longrightarrow> coherent s')"
      by (rule cached_cases [OF co run]) (use co in auto)
  qed
  have exec: "triple coherent (wrapS ''failed to build executor: %w'' [] (liftS (BuildExecutor factory (it_Type request) (it_Config request))))
      (\<lambda>exec s. coherent s \<and> executor_fsm (it_Type request) = Ok (ex_FSM exec)) coherent" for factory
    by (intro triples triple_liftS) (auto dest: BuildExecutor_fsm)
  have lsm: "triple coherent (wrapS ''failed to create local state manager: %w'' [] (of_world (NewLocalStateManager env ?k)))
      (\<lambda>m s. coherent s \<and> lm_taskID m = ?k) coherent"
    by (intro triples of_world_triple) (auto dest: NewLocalStateManager_frame)
  have cont: "triple coherent (of_world (NewContainer env ?k (it_WorkflowID request) (it_WorkflowNodeTemplateID request)
        Initialized (it_GlobalState request) m True (ex_Plugin exec) (Some (ex_FSM exec))))
      (\<lambda>c s. coherent s \<and> ?fresh c (w_tasks (snd s))) coherent"
    if "executor_fsm (it_Type request) = Ok (ex_FSM exec)" "lm_taskID m = ?k" for exec m
    by (rule of_world_triple) (auto simp: NewContainer_no_faults [OF nf] row_backs_def new_row_def that)
  have create: "triple (\<lambda>s. coherent s \<and> ?fresh c (w_tasks (snd s))) (wrapS ''failed to store task info: %w'' [] (of_world (ts_Create env ?row)))
      (\<lambda>_ s. coherent s \<and> in_step (snd s) c \<and> c_TaskID c = ?k) coherent" for c
    by (intro triples Create_triple [OF nf]) (simp_all add: new_row_def)
  have add: "triple (\<lambda>s. coherent s \<and> in_step (snd s) c \<and> c_TaskID c = ?k) (add_container ?k c) (holds_task ?k) coherent" for c
  proof (rule tripleI)
    fix s r s'
    assume P: "coherent s \<and> in_step (snd s) c \<and> c_TaskID c = ?k" and run: "add_container ?k c s = (r, s')"
    show "(\<forall>v. r = Ok v \<longrightarrow> holds_task ?k v s') \<and> (\<not> is_ok r \<longrightarrow> coherent s')"
      using add_container_holds [of "fst s" "snd s" c ?k r s'] P run by auto
  qed
  note stored = triple_bindS [OF create triple_bindS [OF add start_task_triple [OF nf]]]
  have built: "triple (\<lambda>s. coherent s \<and> executor_fsm (it_Type request) = Ok (ex_FSM exec))
      (bindS (wrapS ''failed to create local state manager: %w'' [] (of_world (NewLocalStateManager env ?k))) (\<lambda>m.
       bindS (of_world (NewContainer env ?k (it_WorkflowID request) (it_WorkflowNodeTemplateID request)
            Initialized (it_GlobalState request) m True (ex_Plugin exec) (Some (ex_FSM exec)))) (\<lambda>c.
       bindS (wrapS ''failed to store task info: %w'' [] (of_world (ts_Create env ?row))) (\<lambda>_.
       bindS (add_container ?k c) (start_task env))))) (\<lambda>_. coherent) coherent" for exec
    by (rule triple_pure, rule triple_bindS [OF lsm], rule triple_pure, rule triple_bindS [OF cont stored])
  have factory: "triple coherent (getM tm_factory) (\<lambda>_. coherent) coherent"
    by (rule triple_conseq [OF getM_triple]) auto
  show ?thesis
    unfolding InitTask_def
  proof (rule triple_bindS [OF lookup])
    fix hit
    show "triple (\<lambda>s. case hit of None \<Rightarrow> coherent s | Some a \<Rightarrow> holds_task ?k a s)
        (case hit of Some existing \<Rightarrow> start_task env existing
         | None \<Rightarrow> bindS (getM tm_factory) (\<lambda>factory.
             bindS (wrapS ''failed to build executor: %w'' [] (liftS (BuildExecutor factory (it_Type request) (it_Config request)))) (\<lambda>exec.
             bindS (wrapS ''failed to create local state manager: %w'' [] (of_world (NewLocalStateManager env ?k))) (\<lambda>m.
             bindS (of_world (NewContainer env ?k (it_WorkflowID request) (it_WorkflowNodeTemplateID request)
                  Initialized (it_GlobalState request) m True (ex_Plugin exec) (Some (ex_FSM exec)))) (\<lambda>c.
             bindS (wrapS ''failed to store task info: %w'' [] (of_world (ts_Create env ?row))) (\<lambda>_.
             bindS (add_container ?k c) (start_task env))))))) (\<lambda>_. coherent) coherent"
    proof (cases hit)
      case None
      show ?thesis
        unfolding None option.case by (rule triple_bindS [OF factory triple_bindS [OF exec built]])
    next
      case (Some a)
      show ?thesis unfolding Some option.case by (rule start_task_triple [OF nf])
    qed
  qed
qed

section \<open>Runs of the manager\<close>

text \<open>The states from a fresh manager on any table without double ids, whatever the operations answer.\<close>

inductive tm_reachable :: "TaskEnv \<Rightarrow> PayEnv \<Rightarrow> taskManager \<times> TaskWorld \<Rightarrow> bool" for env :: TaskEnv and pe :: PayEnv where
  fresh: "NewTaskManager True factory = Ok tm \<Longrightarrow> distinct (map ti_ID (w_tasks w)) \<Longrightarrow> tm_reachable env pe (tm, w)"
| register_update: "tm_reachable env pe (tm, w) \<Longrightarrow> tm_reachable env pe (RegisterUpstreamUpdateCallback b tm, w)"
| register_done: "tm_reachable env pe (tm, w) \<Longrightarrow> tm_reachable env pe (RegisterUpstreamDoneCallback b tm, w)"
| init: "tm_reachable env pe s \<Longrightarrow> InitTask env request s = (r, s') \<Longrightarrow> tm_reachable env pe s'"
| execute: "tm_reachable env pe s \<Longrightarrow> ExecuteTask env pe req s = (x, s') \<Longrightarrow> tm_reachable env pe s'"
| render: "tm_reachable env pe s \<Longrightarrow> GetTaskRenderInfo env pe k s = (y, s') \<Longrightarrow> tm_reachable env pe s'"

lemma triple_coherent: "triple coherent m (\<lambda>_. coherent) coherent \<Longrightarrow> coherent s \<Longrightarrow> m s = (r, s') \<Longrightarrow> coherent s'"
  using tripleD [of coherent m "\<lambda>_. coherent" coherent s r s'] by (cases r) auto

lemma reachable_coherent: "tm_reachable env pe s \<Longrightarrow> no_faults env \<Longrightarrow> coherent s"
proof (induction rule: tm_reachable.induct)
  case (fresh factory tm w)
  then have tm: "tm_cache tm = newContainerCache 100" by (auto simp: NewTaskManager_def NewTaskStore_def)
  have "cc_inv (newContainerCache 100 :: nat containerCache)" "cc_entries (newContainerCache 100 :: nat containerCache) = []"
    using new_refines [where 'c = nat, of 100] by simp_all
  then show ?case using fresh by (simp add: coherent_def tm)
next
  case (register_update tm w b)
  then show ?case using coherent_fields [of "RegisterUpstreamUpdateCallback b tm" tm w] by (simp add: RegisterUpstreamUpdateCallback_def)
next
  case (register_done tm w b)
  then show ?case using coherent_fields [of "RegisterUpstreamDoneCallback b tm" tm w] by (simp add: RegisterUpstreamDoneCallback_def)
next
  case (init s request r s')
  show ?case by (rule triple_coherent [OF InitTask_triple [OF init.prems] init.IH [OF init.prems] init.hyps(2)])
next
  case (execute s req x s')
  show ?case by (rule triple_coherent [OF ExecuteTask_triple [OF execute.prems] execute.IH [OF execute.prems] execute.hyps(2)])
next
  case (render s k y s')
  show ?case by (rule triple_coherent [OF GetTaskRenderInfo_triple [OF render.prems] render.IH [OF render.prems] render.hyps(2)])
qed

end
