(* ===== verification/TaskEngine.thy ===== *)
theory TaskEngine
  imports TaskManager
begin

text \<open>
  What the task manager, its cache, the containers and the plugins guarantee together, in every run
  of \<open>TaskManager\<close>: containers stay in step with the table, an evicted container is rebuilt as it
  was, a finished task stays finished, completions are notified, and the answers over HTTP.
\<close>

section \<open>In step with the table\<close>

text \<open>
  C8: In every run of the manager in which the database answers, whatever the plugins, callers and remote
  services do and whether operations succeed, fail or panic, every cached container belongs to the
  task it is cached under, and its row exists, is the only one, and has the container's plugin
  state, task state, workflow, global context and the state machine of its type.
\<close>

theorem cached_containers_in_step:
  assumes "tm_reachable env pe (tm, w)" and "no_faults env" and "(k, a) \<in> set (cc_entries (tm_cache tm))"
  defines "c \<equiv> tm_containers tm ! a"
  shows "a < length (tm_containers tm) \<and> c_TaskID c = k
    \<and> (\<exists>t. {u \<in> set (w_tasks w). ti_ID u = k} = {t} \<and> row_backs t c \<and> (ti_PluginState t, ti_State t) = states_of c)"
proof -
  have co: "coherent (tm, w)" by (rule reachable_coherent [OF assms(1,2)])
  then have e: "entry_ok tm w (k, a)" using assms(3) by (auto simp: coherent_def)
  then obtain t where t: "t \<in> set (w_tasks w)" "row_backs t c" by (auto simp: entry_ok_def in_step_def c_def)
  have id: "ti_ID t = k" using t(2) e by (simp add: row_backs_def entry_ok_def c_def)
  have "{u \<in> set (w_tasks w). ti_ID u = k} = {t}"
    using t(1) id co by (auto simp: coherent_def distinct_map dest: inj_onD)
  moreover have "(ti_PluginState t, ti_State t) = states_of c"
    using e t(1) id by (auto simp: entry_ok_def in_step_def synced_def c_def)
  ultimately show ?thesis using e t(2) by (auto simp: entry_ok_def c_def)
qed

section \<open>Eviction is invisible\<close>

lemma same_row:
  assumes "in_step w c" and "in_step w d" and "c_TaskID c = c_TaskID d" and "distinct (map ti_ID (w_tasks w))"
  shows "same_identity c d \<and> states_of c = states_of d"
proof -
  from assms(1,2) obtain t u where t: "t \<in> set (w_tasks w)" "row_backs t c" and u: "u \<in> set (w_tasks w)" "row_backs u d"
    by (auto simp: in_step_def)
  have "ti_ID t = ti_ID u" using t(2) u(2) assms(3) by (simp add: row_backs_def)
  then have "t = u" using t(1) u(1) assms(4) by (auto simp: distinct_map dest: inj_onD)
  moreover have "states_of c = (ti_PluginState t, ti_State t)" "states_of d = (ti_PluginState u, ti_State u)"
    using t u assms(1,2) by (auto simp: in_step_def synced_def row_backs_def)
  ultimately show ?thesis
    using t(2) u(2) assms(1,2,3) by (auto simp: same_identity_def row_backs_def in_step_def)
qed

definition same_rows :: "taskManager \<Rightarrow> TaskWorld \<Rightarrow> taskManager \<times> TaskWorld \<Rightarrow> bool" where
  "same_rows tm w s \<longleftrightarrow> w_tasks (snd s) = w_tasks w \<and> tm_containers (fst s) = tm_containers tm \<and> tm_sent (fst s) = tm_sent tm
     \<and> tm_doneHandler (fst s) = tm_doneHandler tm \<and> tm_updateHandler (fst s) = tm_updateHandler tm"

definition grown :: "taskManager \<Rightarrow> TaskWorld \<Rightarrow> taskManager \<times> TaskWorld \<Rightarrow> bool" where
  "grown tm w s \<longleftrightarrow> w_tasks (snd s) = w_tasks w \<and> (\<exists>cs. tm_containers (fst s) = tm_containers tm @ cs) \<and> tm_sent (fst s) = tm_sent tm
     \<and> tm_doneHandler (fst s) = tm_doneHandler tm \<and> tm_updateHandler (fst s) = tm_updateHandler tm"

lemma rebuild_grows:
  assumes nf: "no_faults env"
  shows "triple (same_rows tm w) (rebuild env k) (\<lambda>_. grown tm w) (grown tm w)"
proof -
  let ?I = "same_rows tm w" and ?J = "grown tm w"
  have read: "triple ?I (of_world (ts_GetByID env k)) (\<lambda>_. ?I) ?J"
    by (rule tripleI) (auto simp: of_world_def GetByID_no_faults [OF nf] same_rows_def grown_def)
  have fac: "triple ?I (getM tm_factory) (\<lambda>_. ?I) ?J" by (rule triple_conseq [OF getM_triple]) auto
  have lift: "triple ?I (wrapS fmt args (liftS x)) (\<lambda>_. ?I) ?J" for fmt args and x :: "'x res"
    by (intro triples triple_liftS) (auto simp: same_rows_def grown_def)
  have new: "triple ?I (of_world (NewContainer env i wfID tp st g ls True p fsm)) (\<lambda>_. ?I) ?J"
    for i wfID tp st g ls fsm and p :: Plugin
    by (rule tripleI) (auto simp: of_world_def NewContainer_no_faults [OF nf] same_rows_def grown_def)
  have add: "triple ?I (add_container k c) (\<lambda>_. ?J) ?J" for c
    by (rule tripleI) (auto simp: add_container_def Let_def same_rows_def grown_def)
  show ?thesis
    unfolding rebuild_def by (intro triple_bindS [OF read] triple_bindS [OF fac] triple_bindS [OF lift] triple_bindS [OF new] add)
qed

lemma rebuild_frame:
  assumes "no_faults env" and "rebuild env k (tm, w) = (r, s')"
  shows "grown tm w s'"
  using tripleD [OF rebuild_grows [OF assms(1)] _ assms(2), of tm w] by (cases r) (auto simp: same_rows_def)

text \<open>
  C12: Eviction from the cache is invisible as long as the database answers: in every run without a database fault, when
  a task that is cached is rebuilt from its row, the new container has the same ids, plugin state, task
  state, global values and state machine as the cached one. (After a read that failed, a rebuilt container can
  start with an empty plugin state.)
\<close>

theorem rebuilt_equals_cached:
  assumes "tm_reachable env pe (tm, w)" and "no_faults env" and "map_of (cc_entries (tm_cache tm)) k = Some a"
    and "rebuild env k (tm, w) = (Ok b, s')"
  shows "same_identity (tm_containers tm ! a) (tm_containers (fst s') ! b)
    \<and> states_of (tm_containers (fst s') ! b) = states_of (tm_containers tm ! a)"
proof -
  have co: "coherent (tm, w)" by (rule reachable_coherent [OF assms(1,2)])
  have "entry_ok tm w (k, a)" using co map_of_SomeD [OF assms(3)] by (auto simp: coherent_def)
  then have a: "in_step w (tm_containers tm ! a)" "c_TaskID (tm_containers tm ! a) = k" by (simp_all add: entry_ok_def)
  have "holds_task k b s'" using tripleD [OF rebuild_triple [OF assms(2)] co assms(4)] by simp
  then have "entry_ok (fst s') (snd s') (k, b)" by (rule holds_entry)
  then have b: "in_step w (tm_containers (fst s') ! b)" "c_TaskID (tm_containers (fst s') ! b) = k"
    using rebuild_frame [OF assms(2,4)] by (auto simp: entry_ok_def in_step_def synced_def grown_def)
  from same_row [OF a(1) b(1)] a(2) b(2) co show ?thesis by (simp add: coherent_def)
qed


section \<open>Finished tasks and notifications\<close>

lemma cached_frame: "cached k s = (r, s') \<Longrightarrow> coherent s \<Longrightarrow> grown (fst s) (snd s) s'"
  by (erule cached_cases [rotated]) (auto simp: grown_def)

lemma grown_trans: "grown tm w s \<Longrightarrow> grown (fst s) (snd s) s' \<Longrightarrow> grown tm w s'"
  by (auto simp: grown_def)

lemma getTask_frame:
  assumes "no_faults env" and "coherent (tm, w)" and "getTask env k (tm, w) = (r, s')"
  shows "grown tm w s'"
proof -
  obtain hit s1 where c: "cached k (tm, w) = (Ok hit, s1)" by (cases "cache_Get k (tm_cache tm)") (simp add: cached_def)
  have g: "grown tm w s1" using cached_frame [OF c assms(2)] by simp
  have run: "(case hit of Some a \<Rightarrow> returnS a | None \<Rightarrow> rebuild env k) s1 = (r, s')"
    using assms(3) c by (simp add: getTask_def bindS_def)
  show ?thesis
  proof (cases hit)
    case None
    then show ?thesis using run rebuild_frame [OF assms(1), of k "fst s1" "snd s1" r s'] grown_trans [OF g] by simp
  next
    case (Some a)
    then show ?thesis using run g by (simp add: returnS_def)
  qed
qed

text \<open>What \<open>ExecuteTask\<close> does once the container is found.\<close>

lemma ExecuteTask_found:
  assumes "ExecuteTask env pe req s = (x, s')" and "et_TaskID req \<noteq> ''''" and "getTask env (et_TaskID req) s = (Ok a, s1)"
  obtains y where "execute_task env pe a (et_Payload req) s1 = (y, s')" "\<And>v. x = Ok v \<Longrightarrow> y = Ok v"
  using assms by (auto simp: ExecuteTask_def bindS_def wrapS_def split: prod.splits)

definition notices :: "taskManager \<Rightarrow> Plugin Container \<Rightarrow> ExecutionResponse \<Rightarrow> Notice list" where
  "notices tm c resp =
     (if c_State c = Completed \<or> c_State c = Failed
      then (if tm_doneHandler tm then [NDone (c_WorkflowID c) (c_TaskID c) (xr_Outputs resp)] else [])
      else (if tm_updateHandler tm then [NUpdate (c_TaskID c) (Some (c_State c)) (Some (c_pluginState c)) (xr_Outputs resp) (xr_EmittedOutcome resp)]
            else []))"

lemma execute_task_cases:
  assumes "execute_task env pe a payload s = (y, s')" and "a < length (tm_containers (fst s))"
  obtains r c' w' where "container_Execute (plugin_Execute env pe) payload (tm_containers (fst s) ! a, snd s) = (r, (c', w'))"
    "tm_containers (fst s') ! a = c'" "snd s' = w'" "\<And>resp. y = Ok resp \<Longrightarrow> r = Ok resp \<and>
       (c_pluginState c' \<noteq> c_pluginState (tm_containers (fst s) ! a) \<longrightarrow> tm_sent (fst s') = tm_sent (fst s) @ notices (fst s) c' resp)"
    "length (tm_sent (fst s')) \<le> Suc (length (tm_sent (fst s)))"
proof -
  obtain tm w where s: "s = (tm, w)" by (cases s)
  obtain r c' w' where run: "container_Execute (plugin_Execute env pe) payload (tm_containers tm ! a, w) = (r, (c', w'))"
    by (cases "container_Execute (plugin_Execute env pe) payload (tm_containers tm ! a, w)") (metis prod.collapse)
  let ?tm = "tm\<lparr>tm_containers := (tm_containers tm)[a := c']\<rparr>"
  have a: "(tm_containers tm)[a := c'] ! a = c'" using assms(2) s by simp
  have on: "on_container a (container_Execute (plugin_Execute env pe) payload) (tm, w) = (r, (?tm, w'))"
    by (simp add: on_container_def run)
  have new: "c_pluginState c' \<noteq> c_pluginState (tm_containers tm ! a) \<Longrightarrow> r = Ok resp \<Longrightarrow>
      xr_NewState resp = Some (c_State c') \<and> xr_ExtendedState resp = Some (c_pluginState c')" for resp
    using with_new_state_result [OF run [unfolded container_Execute_def]] by simp
  show ?thesis
  proof (cases r)
    case (Ok resp)
    let ?ns = "case xr_NewState resp of None \<Rightarrow> [] | Some st \<Rightarrow>
        if st = Completed \<or> st = Failed then (if tm_doneHandler tm then [NDone (c_WorkflowID c') (c_TaskID c') (xr_Outputs resp)] else [])
        else (if tm_updateHandler tm then [NUpdate (c_TaskID c') (xr_NewState resp) (xr_ExtendedState resp) (xr_Outputs resp) (xr_EmittedOutcome resp)] else [])"
    have "y = Ok resp \<and> s' = (?tm\<lparr>tm_sent := tm_sent tm @ ?ns\<rparr>, w')"
      using assms(1) a
      by (auto simp: execute_task_def s bindS_def [where m = "on_container _ _"] on Ok getM_def returnS_def bindS_def send_def
          notifyWorkflowDoneHandler_def notifyWorkflowUpdateHandler_def split: option.splits)
    moreover have "?ns = notices tm c' resp" if "c_pluginState c' \<noteq> c_pluginState (tm_containers tm ! a)"
      using new [OF that Ok] by (simp add: notices_def)
    moreover have "length ?ns \<le> 1" by (simp split: option.splits)
    ultimately show ?thesis using that [of r c' w'] run a Ok by (auto simp: s)
  next
    case (Err e)
    then have "y = Err e \<and> s' = (?tm, w')" using assms(1) by (simp add: execute_task_def s bindS_def on)
    then show ?thesis using that [of r c' w'] run a by (simp add: s)
  next
    case Panic
    then have "y = Panic \<and> s' = (?tm, w')" using assms(1) by (simp add: execute_task_def s bindS_def on)
    then show ?thesis using that [of r c' w'] run a by (simp add: s)
  qed
qed



lemma getTask_row:
  assumes "coherent (tm, w)" and "no_faults env" and "getTask env k (tm, w) = (Ok a, (tm1, w1))"
    and "t \<in> set (w_tasks w)" and "ti_ID t = k" and "executor_fsm (ti_Type t) = Ok fsm"
  shows "a < length (tm_containers tm1) \<and> states_of (tm_containers tm1 ! a) = (ti_PluginState t, ti_State t)
    \<and> c_fsm (tm_containers tm1 ! a) = Some fsm"
proof -
  let ?c = "tm_containers tm1 ! a"
  have h: "holds_task k a (tm1, w1)" using tripleD [OF getTask_triple [OF assms(2)] assms(1,3)] by simp
  have i: "a < length (tm_containers tm1)" "in_step w1 ?c" "c_TaskID ?c = k" using holds_entry [OF h] by (simp_all add: entry_ok_def)
  have w1: "w_tasks w1 = w_tasks w" using getTask_frame [OF assms(2,1,3)] by (simp add: grown_def)
  obtain u where u: "u \<in> set (w_tasks w)" "row_backs u ?c" using i(2) w1 by (auto simp: in_step_def)
  then have "ti_ID u = ti_ID t" using assms(5) i(3) by (simp add: row_backs_def)
  moreover have "distinct (map ti_ID (w_tasks w))" using assms(1) by (simp add: coherent_def)
  ultimately have "u = t" using u(1) assms(4) by (metis distinct_map inj_onD)
  then have "c_fsm ?c = Some fsm" using u(2) assms(6) by (auto simp: row_backs_def)
  moreover have "states_of ?c = (ti_PluginState t, ti_State t)"
    using i(2,3) assms(4,5) w1 by (simp add: in_step_def synced_def)
  ultimately show ?thesis using i(1) by simp
qed

text \<open>
  C13: A finished task stays finished: once its plugin state has no way out in the state machine of its
  type, no execution of any task, successful or not, changes its plugin state or task state, in
  every run in which the database answers.
\<close>

theorem finished_task_is_final:
  assumes "tm_reachable env pe (tm, w)" and "no_faults env" and "ExecuteTask env pe req (tm, w) = (x, (tm', w'))"
    and "t \<in> set (w_tasks w)" and "executor_fsm (ti_Type t) = Ok fsm" and "final_state fsm (ti_PluginState t)"
  shows "\<exists>u \<in> set (w_tasks w'). ti_ID u = ti_ID t \<and> ti_PluginState u = ti_PluginState t \<and> ti_State u = ti_State t"
proof (cases "\<exists>a tm1 w1. et_TaskID req \<noteq> '''' \<and> getTask env (et_TaskID req) (tm, w) = (Ok a, (tm1, w1))")
  case False
  have co: "coherent (tm, w)" by (rule reachable_coherent [OF assms(1,2)])
  obtain g s1 where g: "getTask env (et_TaskID req) (tm, w) = (g, s1)" by (cases "getTask env (et_TaskID req) (tm, w)")
  have "w_tasks w' = w_tasks w"
  proof (cases "et_TaskID req = ''''")
    case True
    then show ?thesis using assms(3) by (simp add: ExecuteTask_def failS_def)
  next
    case ne: False
    then have "\<not> is_ok g" using False g by (cases s1) (auto simp: is_ok_iff)
    then have "s1 = (tm', w')" using assms(3) ne g by (cases g) (auto simp: ExecuteTask_def bindS_def wrapS_def)
    then show ?thesis using getTask_frame [OF assms(2) co g] by (simp add: grown_def)
  qed
  then show ?thesis using assms(4) by auto
next
  case True
  then obtain a tm1 w1 where ne: "et_TaskID req \<noteq> ''''" and gt: "getTask env (et_TaskID req) (tm, w) = (Ok a, (tm1, w1))" by blast
  let ?k = "et_TaskID req" and ?c = "tm_containers tm1 ! a"
  have co: "coherent (tm, w)" by (rule reachable_coherent [OF assms(1,2)])
  have h: "holds_task ?k a (tm1, w1)" using tripleD [OF getTask_triple [OF assms(2)] co gt] by simp
  have i: "a < length (tm_containers (fst (tm1, w1)))" "in_step w1 ?c" "c_TaskID ?c = ?k" using holds_entry [OF h] by (simp_all add: entry_ok_def)
  have w1: "w_tasks w1 = w_tasks w" using getTask_frame [OF assms(2) co gt] by (simp add: grown_def)
  from ExecuteTask_found [OF assms(3) ne gt] obtain y where y: "execute_task env pe a (et_Payload req) (tm1, w1) = (y, (tm', w'))" by blast
  from y i(1) obtain r c' where run: "container_Execute (plugin_Execute env pe) (et_Payload req) (?c, w1) = (r, (c', w'))"
    by (rule execute_task_cases) auto
  have "conforms env (container_Execute (plugin_Execute env pe) (et_Payload req))" by (rule any_plugin.container_execute)
  then have ev: "evolves (?c, w1) (c', w')" "synced (?c, w1) \<longrightarrow> synced (c', w')"
    using run assms(2) unfolding conforms_def by blast+
  show ?thesis
  proof (cases "ti_ID t = ?k")
    case False
    then have "t \<in> set (other_rows ?k w1)" using assms(4) w1 by (simp add: other_rows_def)
    then have "t \<in> set (other_rows ?k w')" using evolves_rows(2) [OF ev(1) i(2)] i(3) by simp
    then have "t \<in> set (w_tasks w')" by (simp add: other_rows_def)
    then show ?thesis by auto
  next
    case True
    have tc: "states_of ?c = (ti_PluginState t, ti_State t)" "c_fsm ?c = Some fsm"
      using getTask_row [OF co assms(2) gt assms(4) True assms(5)] by simp_all
    have "states_of c' = states_of ?c"
      using any_plugin.finished_is_final [OF run, of fsm] tc assms(6) by (simp add: states_of_def)
    moreover have "in_step w' c'" using in_step_own [OF ev(1) i(2)] ev(2) i(2) by (simp add: in_step_def)
    moreover have "c_TaskID c' = ?k" using evolves_rows(3) [OF ev(1) i(2)] i(3) by (simp add: same_identity_def)
    ultimately obtain u where u: "u \<in> set (w_tasks w')" "row_backs u c'" "synced (c', w')" "c_taskStore c'" "c_TaskID c' = ?k"
      "states_of c' = states_of ?c" by (auto simp: in_step_def)
    then have "ti_ID u = ?k" "(ti_PluginState u, ti_State u) = states_of c'" by (simp_all add: synced_def row_backs_def)
    with u(1,6) tc(1) True show ?thesis by auto
  qed
qed

section \<open>Initializing a task\<close>

text \<open>
  InitTask never overwrites a task: for a task that has a row but no cached container it fails, leaves
  every row as it was and notifies nobody. So a redelivered initialization after an eviction or a
  restart is an error, not a no-op.
\<close>

theorem init_never_overwrites:
  assumes "tm_reachable env pe (tm, w)" and "no_faults env" and "t \<in> set (w_tasks w)" and "ti_ID t = it_TaskID request"
    and "map_of (cc_entries (tm_cache tm)) (it_TaskID request) = None" and "InitTask env request (tm, w) = (r, (tm', w'))"
  shows "\<not> is_ok r \<and> w_tasks w' = w_tasks w \<and> tm_sent tm' = tm_sent tm"
proof -
  let ?k = "it_TaskID request"
  have co: "coherent (tm, w)" by (rule reachable_coherent [OF assms(1,2)])
  have miss: "cached ?k (tm, w) = (Ok None, (tm, w))"
    using lru.get_miss [of "tm_cache tm" ?k] co assms(5) by (simp add: cached_def coherent_def)
  obtain ex where ex: "BuildExecutor (tm_factory tm) (it_Type request) (it_Config request) = ex" by simp
  obtain q w1 where q: "NewLocalStateManager env ?k w = (q, w1)" by (cases "NewLocalStateManager env ?k w")
  have rows: "w_tasks w1 = w_tasks w" using NewLocalStateManager_frame [OF q] by simp
  have dup: "ts_Create env (new_row request) w2 = (Err (External ''duplicate key value''), w2\<lparr>w_tick := Suc (w_tick w2)\<rparr>)"
    if "w_tasks w2 = w_tasks w" for w2
    using assms(2,3,4) that by (auto simp: ts_Create_def task_db_def no_faults_def new_row_def Let_def)
  show ?thesis
    using assms(6) rows
    by (cases ex; cases q) (auto simp: InitTask_def bindS_def miss getM_def wrapS_def liftS_def ex of_world_def q NewContainer_no_faults [OF assms(2)] dup)
qed


section \<open>A failed read\<close>

text \<open>
  When the database answers the read of the row but fails the separate read of its plugin state, the
  rebuilding reports success and caches a container whose plugin state is empty, whatever the
  row holds: the error is dropped by NewContainer and the task looks as if it never started.
\<close>

theorem unread_state_is_reset:
  assumes "te_fault env (w_tick w) = None" and "te_fault env (Suc (w_tick w)) = Some e"
    and "List.find (\<lambda>t. ti_ID t = k) (w_tasks w) = Some t" and "rebuild env k (tm, w) = (Ok b, (tm', w'))"
    and inv: "cc_inv (tm_cache tm)"
  shows "c_pluginState (tm_containers tm' ! b) = '''' \<and> c_State (tm_containers tm' ! b) = ti_State t
    \<and> w_tasks w' = w_tasks w \<and> fst (cache_Get k (tm_cache tm')) = Some b"
proof -
  let ?w1 = "w\<lparr>w_tick := Suc (w_tick w)\<rparr>" and ?w2 = "w\<lparr>w_tick := Suc (Suc (w_tick w))\<rparr>"
  have read: "ts_GetByID env k w = (Ok t, ?w1)" using assms(1,3) by (simp add: ts_GetByID_def task_db_def db_first_def Let_def)
  have new: "NewContainer env i wfID tp st g ls True p fsm ?w1 = (Ok \<lparr>c_TaskID = i, c_WorkflowID = wfID, c_WorkflowNodeTemplateID = tp,
      c_State = st, c_Executable = p, c_globalState = g, c_localState = ls, c_taskStore = True, c_pluginState = '''', c_fsm = fsm\<rparr>, ?w2)"
    for i wfID tp st g ls fsm and p :: Plugin
    using assms(2) by (simp add: NewContainer_def ts_GetPluginState_def task_db_def bindS_def Let_def)
  from assms(4) obtain u1 s1 u2 s2 ex s3 ls s4 g s5 c s6 where
    ch: "of_world (ts_GetByID env k) (tm, w) = (Ok u1, s1)" "getM tm_factory s1 = (Ok u2, s2)"
      "wrapS ''failed to rebuild executor: %w'' [] (liftS (BuildExecutor u2 (ti_Type u1) (ti_Config u1))) s2 = (Ok ex, s3)"
      "wrapS ''failed to create local state manager: %w'' [] (liftS (NewLocalStateManagerWithCache (ti_ID u1) (ti_LocalState u1))) s3 = (Ok ls, s4)"
      "wrapS ''failed to unmarshal global context: %w'' []
         (liftS (case ti_GlobalContext u1 of None \<Rightarrow> Ok [] | Some v \<Rightarrow> dec_obj v)) s4 = (Ok g, s5)"
      "of_world (NewContainer env (ti_ID u1) (ti_WorkflowID u1) (ti_WorkflowNodeTemplateID u1) (ti_State u1) g ls True
         (ex_Plugin ex) (Some (ex_FSM ex))) s5 = (Ok c, s6)"
      "add_container k c s6 = (Ok b, (tm', w'))"
    unfolding rebuild_def by (elim bindS_OkE)
  from ch(1-5) have s5: "u1 = t" "s5 = (tm, ?w1)" by (auto simp: of_world_def read getM_def op_simps)
  have "add_container k \<lparr>c_TaskID = ti_ID t, c_WorkflowID = ti_WorkflowID t, c_WorkflowNodeTemplateID = ti_WorkflowNodeTemplateID t,
      c_State = ti_State t, c_Executable = ex_Plugin ex, c_globalState = g, c_localState = ls, c_taskStore = True, c_pluginState = '''',
      c_fsm = Some (ex_FSM ex)\<rparr> (tm, ?w2) = (Ok b, (tm', w'))"
    using ch(6,7) by (auto simp: s5 of_world_def new)
  then have b: "b = length (tm_containers tm)" "w' = ?w2"
    "tm' = tm\<lparr>tm_containers := tm_containers tm @ [\<lparr>c_TaskID = ti_ID t, c_WorkflowID = ti_WorkflowID t,
        c_WorkflowNodeTemplateID = ti_WorkflowNodeTemplateID t, c_State = ti_State t, c_Executable = ex_Plugin ex, c_globalState = g,
        c_localState = ls, c_taskStore = True, c_pluginState = '''', c_fsm = Some (ex_FSM ex)\<rparr>],
        tm_cache := cache_Set k (length (tm_containers tm)) (tm_cache tm)\<rparr>"
    by (auto simp: add_container_def Let_def)
  have "fst (cache_Get k (cache_Set k b (tm_cache tm))) = Some b" by (rule lru.get_after_put [OF inv])
  then show ?thesis using b by simp
qed

section \<open>Answers over HTTP\<close>

lemma getTask_error_head:
  "ExecuteTask env pe req s = (Err e, s') \<Longrightarrow> et_TaskID req \<noteq> '''' \<Longrightarrow>
     prefix ''task '' (error_head e) \<longleftrightarrow> \<not> is_ok (fst (getTask env (et_TaskID req) s))"
  "ExecuteTask env pe req s = (Err e, s') \<Longrightarrow> e = Errorf ''task_id is required'' [] \<longleftrightarrow> et_TaskID req = ''''"
  "GetTaskRenderInfo env pe k s = (Err e, s') \<Longrightarrow> k \<noteq> '''' \<Longrightarrow>
     prefix ''task '' (error_head e) \<longleftrightarrow> \<not> is_ok (fst (getTask env k s))"
  "GetTaskRenderInfo env pe k s = (Err e, s') \<Longrightarrow> \<not> prefix ''taskID is invalid'' (error_head e)"
proof -
  have w: "wrap_err fmt args r = Err e \<longleftrightarrow> (\<exists>e'. r = Err e' \<and> e = Wrapf fmt args e')" for fmt args e and r :: "'x res"
    by (cases r) auto
  show "ExecuteTask env pe req s = (Err e, s') \<Longrightarrow> et_TaskID req \<noteq> '''' \<Longrightarrow>
     prefix ''task '' (error_head e) \<longleftrightarrow> \<not> is_ok (fst (getTask env (et_TaskID req) s))"
    by (auto simp: ExecuteTask_def bindS_def wrapS_def w split: prod.splits res.splits)
  show "ExecuteTask env pe req s = (Err e, s') \<Longrightarrow> e = Errorf ''task_id is required'' [] \<longleftrightarrow> et_TaskID req = ''''"
    by (auto simp: ExecuteTask_def bindS_def wrapS_def w failS_def split: prod.splits res.splits if_splits)
  show "GetTaskRenderInfo env pe k s = (Err e, s') \<Longrightarrow> k \<noteq> '''' \<Longrightarrow>
     prefix ''task '' (error_head e) \<longleftrightarrow> \<not> is_ok (fst (getTask env k s))"
    by (auto simp: GetTaskRenderInfo_def bindS_def wrapS_def w split: prod.splits res.splits)
  show "GetTaskRenderInfo env pe k s = (Err e, s') \<Longrightarrow> \<not> prefix ''taskID is invalid'' (error_head e)"
    by (auto simp: GetTaskRenderInfo_def bindS_def wrapS_def w failS_def split: prod.splits res.splits if_splits)
qed

text \<open>
  The status of an answer: for an execution 405 unless it is a POST, 400 for a body that does not decode
  or names no task, 404 exactly when the task cannot be loaded (a database failure included), 500
  when the plugin fails and 200 otherwise; for rendering 400 without an id, then 404, 500 and 200
  in the same way.
\<close>

theorem http_statuses:
  "(HandleExecuteTask env pe r s = (Ok resp, s') \<longrightarrow>
     rsp_Status resp = (if hr_Method r \<noteq> ''POST'' then 405
       else case unmarshal dec_execute_task_request (hr_Body r) of
         Ok req \<Rightarrow> (if et_TaskID req = '''' then 400
                    else if \<not> is_ok (fst (getTask env (et_TaskID req) s)) then 404
                    else if \<not> is_ok (fst (ExecuteTask env pe req s)) then 500 else 200)
       | _ \<Rightarrow> 400)) \<and>
   (HandleGetTask env pe r s = (Ok resp, s') \<longrightarrow>
     rsp_Status resp = (if hr_id r = '''' then 400
       else if \<not> is_ok (fst (getTask env (hr_id r) s)) then 404
       else if \<not> is_ok (fst (GetTaskRenderInfo env pe (hr_id r) s)) then 500 else 200))"
proof (intro conjI impI)
  assume run: "HandleExecuteTask env pe r s = (Ok resp, s')"
  show "rsp_Status resp = (if hr_Method r \<noteq> ''POST'' then 405
       else case unmarshal dec_execute_task_request (hr_Body r) of
         Ok req \<Rightarrow> (if et_TaskID req = '''' then 400
                    else if \<not> is_ok (fst (getTask env (et_TaskID req) s)) then 404
                    else if \<not> is_ok (fst (ExecuteTask env pe req s)) then 500 else 200)
       | _ \<Rightarrow> 400)"
  proof (cases "hr_Method r = ''POST'' \<and> is_ok (unmarshal dec_execute_task_request (hr_Body r))")
    case False
    then show ?thesis using run
      by (auto simp: HandleExecuteTask_def writeJSONError_def returnS_def liftS_def split: res.splits if_splits)
  next
    case True
    then obtain req where req: "unmarshal dec_execute_task_request (hr_Body r) = Ok req" by (auto simp: is_ok_iff)
    obtain x s1 where x: "ExecuteTask env pe req s = (x, s1)" by (cases "ExecuteTask env pe req s")
    note heads = getTask_error_head(1,2) [of env pe req s _ s1]
    have ok: "is_ok x \<Longrightarrow> et_TaskID req \<noteq> '''' \<and> is_ok (fst (getTask env (et_TaskID req) s))"
      using x by (auto simp: ExecuteTask_def bindS_def wrapS_def failS_def is_ok_iff split: prod.splits res.splits if_splits)
    show ?thesis
      using run True req x ok heads
      by (cases x) (auto simp: HandleExecuteTask_def bindS_def attemptS_def writeJSONError_def writeJSONResponse_def returnS_def liftS_def)
  qed
next
  assume run: "HandleGetTask env pe r s = (Ok resp, s')"
  obtain x s1 where x: "GetTaskRenderInfo env pe (hr_id r) s = (x, s1)" by (cases "GetTaskRenderInfo env pe (hr_id r) s")
  note heads = getTask_error_head(3,4) [of env pe "hr_id r" s _ s1]
  have ok: "is_ok x \<Longrightarrow> hr_id r \<noteq> '''' \<Longrightarrow> is_ok (fst (getTask env (hr_id r) s))"
    using x by (auto simp: GetTaskRenderInfo_def bindS_def wrapS_def is_ok_iff split: prod.splits res.splits if_splits)
  show "rsp_Status resp = (if hr_id r = '''' then 400
       else if \<not> is_ok (fst (getTask env (hr_id r) s)) then 404
       else if \<not> is_ok (fst (GetTaskRenderInfo env pe (hr_id r) s)) then 500 else 200)"
    using run x ok heads
    by (cases x) (auto simp: HandleGetTask_def bindS_def attemptS_def writeJSONError_def writeJSONResponse_def returnS_def liftS_def)
qed

section \<open>A concrete run\<close>

definition demo_tm :: taskManager where
  "demo_tm = \<lparr>tm_factory = NewTaskFactory ''http://nsw'', tm_updateHandler = False, tm_doneHandler = True,
     tm_cache = newContainerCache 100, tm_containers = [], tm_sent = []\<rparr>"

definition demo_rows :: "string \<Rightarrow> TaskWorld" where
  "demo_rows ps = demo_world [demo_task ''t1'' TaskTypePayment ps]"

definition demo_exec :: "string \<Rightarrow> ExecuteTaskRequest" where
  "demo_exec action = \<lparr>et_WorkflowID = ''wf'', et_TaskID = ''t1'', et_Payload = Some \<lparr>req_Action = action, req_Content = JNull\<rparr>\<rparr>"

lemma demo_no_faults: "no_faults demo_env"
  by (simp add: no_faults_def demo_env_def)

lemma demo_reachable: "tm_reachable demo_env demo_pay (demo_tm, demo_rows ps)"
proof -
  have "NewTaskManager True (NewTaskFactory ''http://nsw'') = Ok (demo_tm\<lparr>tm_doneHandler := False\<rparr>)"
    by (simp add: NewTaskManager_def NewTaskStore_def demo_tm_def)
  from tm_reachable.register_done [OF tm_reachable.fresh [OF this, of "demo_rows ps"], of demo_env demo_pay True]
  show ?thesis by (simp add: demo_rows_def demo_world_def RegisterUpstreamDoneCallback_def demo_tm_def)
qed

lemmas engine_simps = getTask_def cached_def rebuild_def of_world_def getM_def ts_GetByID_def db_first_def BuildExecutor_def
  NewPaymentTask_def unmarshal_def dec_payment_config_def dec_struct_def dec_field_def NewLocalStateManagerWithCache_def NewContainer_def
  ts_GetPluginState_def add_container_def cache_Get_def cache_Set_def newContainerCache_def addToFront_def set_node_def node_at_def

definition demo_plug :: "string \<Rightarrow> State \<Rightarrow> Plugin Container" where
  "demo_plug ps st = \<lparr>c_TaskID = ''t1'', c_WorkflowID = ''wf'', c_WorkflowNodeTemplateID = ''tpl'', c_State = st,
     c_Executable = PPayment \<lparr>pt_config = \<lparr>pc_Currency = '''', pc_TTL = 0, pc_OrgID = '''', pc_ServiceType = '''', pc_Breakdown = []\<rparr>\<rparr>,
     c_globalState = [], c_localState = \<lparr>lm_taskID = ''t1'', lm_cache = Some []\<rparr>, c_taskStore = True,
     c_pluginState = ps, c_fsm = Some NewPaymentFSM\<rparr>"

definition demo_tm1 :: "string \<Rightarrow> taskManager" where
  "demo_tm1 ps = demo_tm\<lparr>tm_containers := [demo_plug ps Initialized], tm_cache := \<lparr>cc_capacity = 100, cc_cache = [(''t1'', 0)],
     cc_head = Some 0, cc_tail = Some 0, cc_store = [\<lparr>cn_taskID = ''t1'', cn_container = 0, cn_prev = None, cn_next = None\<rparr>]\<rparr>\<rparr>"

lemma demo_rebuild: "rebuild demo_env ''t1'' (demo_tm, demo_rows ps) = (Ok 0, (demo_tm1 ps, (demo_rows ps)\<lparr>w_tick := 2\<rparr>))"
  by (simp add: engine_simps demo_tm_def demo_rows_def demo_tm1_def demo_plug_def run_simps)

lemma demo_getTask: "getTask demo_env ''t1'' (demo_tm, demo_rows ps) = (Ok 0, (demo_tm1 ps, (demo_rows ps)\<lparr>w_tick := 2\<rparr>))"
proof -
  have "cached ''t1'' (demo_tm, demo_rows ps) = (Ok None, (demo_tm, demo_rows ps))"
    by (simp add: cached_def cache_Get_def demo_tm_def newContainerCache_def)
  then show ?thesis by (simp add: getTask_def bindS_def demo_rebuild)
qed

lemma demo_exec_found:
  "ExecuteTask demo_env demo_pay (demo_exec act) (demo_tm, demo_rows ps) =
     wrapS ''failed to execute task: %w'' [] (execute_task demo_env demo_pay 0 (Some \<lparr>req_Action = act, req_Content = JNull\<rparr>))
       (demo_tm1 ps, (demo_rows ps)\<lparr>w_tick := 2\<rparr>)"
  by (simp add: ExecuteTask_def demo_exec_def bindS_def wrapS_def demo_getTask)


lemma demo_refused:
  "ExecuteTask demo_env demo_pay (demo_exec ''x'') (demo_tm, demo_rows ps) =
     (Err (Wrapf ''failed to execute task: %w'' [] (Errorf ''payment: unknown action'' [''x''])), (demo_tm1 ps, (demo_rows ps)\<lparr>w_tick := 2\<rparr>))"
  unfolding demo_exec_found
  by (simp add: execute_task_def on_container_def container_Execute_def with_new_state_def plugin_Execute_def as_plugin_def retype_def
      pay_Execute_def demo_tm1_def demo_plug_def bindS_def getC_def failS_def wrapS_def)

lemma demo_entries: "cc_entries (tm_cache (demo_tm1 ps)) = [(''t1'', 0)]"
  by (simp add: demo_tm1_def cc_entries_def cc_list_def label_at_def label_def node_at_def)

lemma demo_cached_reachable: "tm_reachable demo_env demo_pay (demo_tm1 ps, (demo_rows ps)\<lparr>w_tick := 2\<rparr>)"
  by (rule tm_reachable.execute [OF demo_reachable demo_refused])

theorem cached_containers_in_step_witness:
  "\<exists>t. {u \<in> set (w_tasks ((demo_rows paymentInProgress)\<lparr>w_tick := 2\<rparr>)). ti_ID u = ''t1''} = {t}
     \<and> (ti_PluginState t, ti_State t) = states_of (tm_containers (demo_tm1 paymentInProgress) ! 0)"
  using cached_containers_in_step [OF demo_cached_reachable [of paymentInProgress] demo_no_faults, where k = "''t1''" and a = 0]
  by (auto simp: demo_entries)

theorem rebuilt_equals_cached_witness:
  "\<exists>b s'. rebuild demo_env ''t1'' (demo_tm1 paymentInProgress, (demo_rows paymentInProgress)\<lparr>w_tick := 2\<rparr>) = (Ok b, s')
     \<and> states_of (tm_containers (fst s') ! b) = (paymentInProgress, Initialized)"
proof -
  have run: "\<exists>b s'. rebuild demo_env ''t1'' (demo_tm1 paymentInProgress, (demo_rows paymentInProgress)\<lparr>w_tick := 2\<rparr>) = (Ok b, s')"
    by (simp add: engine_simps demo_tm1_def demo_tm_def demo_rows_def demo_plug_def run_simps)
  then obtain b s' where r: "rebuild demo_env ''t1'' (demo_tm1 paymentInProgress, (demo_rows paymentInProgress)\<lparr>w_tick := 2\<rparr>) = (Ok b, s')" by blast
  have "map_of (cc_entries (tm_cache (demo_tm1 paymentInProgress))) ''t1'' = Some 0" by (simp add: demo_entries)
  from rebuilt_equals_cached [OF demo_cached_reachable demo_no_faults this r] r show ?thesis
    by (simp add: demo_tm1_def demo_plug_def states_of_def)
qed


theorem finished_task_is_final_witness:
  "\<exists>x tm' w'. ExecuteTask demo_env demo_pay (demo_exec PaymentActionFailed) (demo_tm, demo_rows paymentCompleted) = (x, (tm', w'))
     \<and> (\<exists>u \<in> set (w_tasks w'). ti_ID u = ''t1'' \<and> ti_PluginState u = paymentCompleted)"
proof -
  obtain x tm' w' where run: "ExecuteTask demo_env demo_pay (demo_exec PaymentActionFailed) (demo_tm, demo_rows paymentCompleted) = (x, (tm', w'))"
    by (metis surj_pair)
  let ?t = "demo_task ''t1'' TaskTypePayment paymentCompleted"
  have "?t \<in> set (w_tasks (demo_rows paymentCompleted))" by (simp add: demo_rows_def demo_world_def)
  moreover have "executor_fsm (ti_Type ?t) = Ok NewPaymentFSM" by (simp add: executor_fsm_def demo_task_def)
  moreover have "final_state NewPaymentFSM (ti_PluginState ?t)" by (simp add: final_state_def demo_task_def fsm_tables)
  ultimately have "\<exists>u \<in> set (w_tasks w'). ti_ID u = ti_ID ?t \<and> ti_PluginState u = ti_PluginState ?t \<and> ti_State u = ti_State ?t"
    by (rule finished_task_is_final [OF demo_reachable demo_no_faults run])
  then have "\<exists>u \<in> set (w_tasks w'). ti_ID u = ''t1'' \<and> ti_PluginState u = paymentCompleted" by (auto simp: demo_task_def)
  with run show ?thesis by blast
qed

definition demo_init :: InitTaskRequest where
  "demo_init = \<lparr>it_TaskID = ''t1'', it_WorkflowID = ''wf'', it_WorkflowNodeTemplateID = ''tpl'', it_Type = TaskTypePayment,
     it_GlobalState = [], it_Config = Some (JObj [])\<rparr>"

theorem init_never_overwrites_witness:
  "\<exists>r tm' w'. InitTask demo_env demo_init (demo_tm, demo_rows paymentCompleted) = (r, (tm', w'))
     \<and> \<not> is_ok r \<and> w_tasks w' = [demo_task ''t1'' TaskTypePayment paymentCompleted]"
proof -
  obtain r tm' w' where run: "InitTask demo_env demo_init (demo_tm, demo_rows paymentCompleted) = (r, (tm', w'))" by (metis surj_pair)
  let ?t = "demo_task ''t1'' TaskTypePayment paymentCompleted"
  have t: "?t \<in> set (w_tasks (demo_rows paymentCompleted))" "ti_ID ?t = it_TaskID demo_init"
    by (simp_all add: demo_rows_def demo_world_def demo_task_def demo_init_def)
  have "map_of (cc_entries (tm_cache demo_tm)) (it_TaskID demo_init) = None"
    by (simp add: demo_tm_def newContainerCache_def cc_entries_def cc_list_def)
  from init_never_overwrites [OF demo_reachable demo_no_faults t this run] run show ?thesis
    by (auto simp: demo_rows_def demo_world_def)
qed

definition demo_flaky :: TaskEnv where
  "demo_flaky = demo_env\<lparr>te_fault := (\<lambda>n. if n = 1 then Some (External ''connection reset'') else None)\<rparr>"

theorem unread_state_is_reset_witness:
  "\<exists>b tm' w'. rebuild demo_flaky ''t1'' (demo_tm, demo_rows paymentCompleted) = (Ok b, (tm', w'))
     \<and> c_pluginState (tm_containers tm' ! b) = '''' \<and> ti_PluginState (hd (w_tasks w')) = paymentCompleted"
proof -
  have "\<exists>b tm' w'. rebuild demo_flaky ''t1'' (demo_tm, demo_rows paymentCompleted) = (Ok b, (tm', w'))"
    by (simp add: engine_simps demo_tm_def demo_rows_def demo_plug_def run_simps demo_flaky_def)
  then obtain b tm' w' where r: "rebuild demo_flaky ''t1'' (demo_tm, demo_rows paymentCompleted) = (Ok b, (tm', w'))" by blast
  have "te_fault demo_flaky (w_tick (demo_rows paymentCompleted)) = None"
    "te_fault demo_flaky (Suc (w_tick (demo_rows paymentCompleted))) = Some (External ''connection reset'')"
    "List.find (\<lambda>t. ti_ID t = ''t1'') (w_tasks (demo_rows paymentCompleted)) = Some (demo_task ''t1'' TaskTypePayment paymentCompleted)"
    by (simp_all add: demo_flaky_def demo_env_def demo_rows_def demo_world_def demo_task_def)
  moreover have "cc_inv (tm_cache demo_tm)" using new_refines(1) [where 'c = nat, of 100] by (simp add: demo_tm_def)
  ultimately show ?thesis
    using unread_state_is_reset [OF _ _ _ r] r by (auto simp: demo_rows_def demo_world_def demo_task_def)
qed

definition demo_post :: "string \<Rightarrow> HttpRequest" where
  "demo_post k = \<lparr>hr_Method = ''POST'', hr_id = '''', hr_Body = Some (JObj [(''task_id'', JStr k)])\<rparr>"

theorem http_statuses_witness:
  "(\<exists>resp s'. HandleExecuteTask demo_env demo_pay (demo_post ''nope'') (demo_tm, demo_rows paymentIdle) = (Ok resp, s') \<and> rsp_Status resp = 404)
   \<and> (\<exists>resp s'. HandleGetTask demo_env demo_pay (demo_post ''t1'') (demo_tm, demo_rows paymentIdle) = (Ok resp, s') \<and> rsp_Status resp = 400)"
proof (intro conjI)
  have miss: "getTask demo_env ''nope'' (demo_tm, demo_rows paymentIdle) = (Err RecordNotFound, (demo_tm, (demo_rows paymentIdle)\<lparr>w_tick := 1\<rparr>))"
    by (simp add: engine_simps demo_tm_def demo_rows_def run_simps)
  have dec: "unmarshal dec_execute_task_request (hr_Body (demo_post ''nope'')) = Ok \<lparr>et_WorkflowID = '''', et_TaskID = ''nope'', et_Payload = None\<rparr>"
    by (simp add: demo_post_def unmarshal_def dec_execute_task_request_def dec_struct_def dec_field_def dec_ptr_def)
  have "\<exists>resp s'. HandleExecuteTask demo_env demo_pay (demo_post ''nope'') (demo_tm, demo_rows paymentIdle) = (Ok resp, s')"
    unfolding HandleExecuteTask_def dec
    by (simp add: demo_post_def ExecuteTask_def miss bindS_def wrapS_def attemptS_def writeJSONError_def returnS_def)
  then obtain resp s' where run: "HandleExecuteTask demo_env demo_pay (demo_post ''nope'') (demo_tm, demo_rows paymentIdle) = (Ok resp, s')" by blast
  from http_statuses [THEN conjunct1, THEN mp, OF run] run
  show "\<exists>resp s'. HandleExecuteTask demo_env demo_pay (demo_post ''nope'') (demo_tm, demo_rows paymentIdle) = (Ok resp, s') \<and> rsp_Status resp = 404"
    unfolding dec by (simp add: demo_post_def miss)
  have "\<exists>resp s'. HandleGetTask demo_env demo_pay (demo_post ''t1'') (demo_tm, demo_rows paymentIdle) = (Ok resp, s')"
    by (simp add: HandleGetTask_def demo_post_def writeJSONError_def returnS_def)
  then obtain resp s' where run: "HandleGetTask demo_env demo_pay (demo_post ''t1'') (demo_tm, demo_rows paymentIdle) = (Ok resp, s')" by blast
  from http_statuses [THEN conjunct2, THEN mp, OF run] run
  show "\<exists>resp s'. HandleGetTask demo_env demo_pay (demo_post ''t1'') (demo_tm, demo_rows paymentIdle) = (Ok resp, s') \<and> rsp_Status resp = 400"
    by (auto simp: demo_post_def)
qed

end
