(* ===== verification/Pagination.thy ===== *)
theory Pagination
  imports Json "HOL-Library.Word"
begin

text \<open>
  Pages of a query: \<open>backend/utils/pagination.go\<close>, \<open>strconv.Atoi\<close> on query parameters, and the
  OFFSET and LIMIT clauses the two services add to a query. An \<open>int\<close> of Go is a 64-bit word where
  it is computed with and an \<open>int\<close> in its range where it is only compared.
\<close>

section \<open>Numbers in a query\<close>

text \<open>\<open>strconv.Atoi\<close>: an optional sign, digits, and the range of an \<open>int\<close>.\<close>

definition strconv_Atoi :: "string \<Rightarrow> 64 word res" where
  "strconv_Atoi s =
     (let neg = (s \<noteq> [] \<and> hd s = CHR ''-'');
          digits = (if s \<noteq> [] \<and> hd s \<in> {CHR ''-'', CHR ''+''} then tl s else s);
          n = digits_value 0 digits
      in if digits = [] \<or> \<not> list_all digit_char digits then Err (External ''invalid syntax'')
         else if (if neg then n > 2 ^ 63 else n \<ge> 2 ^ 63) then Err (External ''value out of range'')
         else Ok (if neg then - of_nat n else of_nat n))"

lemma sint_small: "n < 2 ^ 63 \<Longrightarrow> sint (of_nat n :: 64 word) = int n"
  by (simp add: signed_of_nat signed_take_bit_int_eq_self)

section \<open>OFFSET and LIMIT\<close>

text \<open>GORM writes an OFFSET only for a positive number; the LIMITs of the program are positive.\<close>

definition db_page :: "int \<Rightarrow> int \<Rightarrow> 'a list \<Rightarrow> 'a list" where
  "db_page offset limit xs = take (nat limit) (drop (nat offset) xs)"

section \<open>pagination.go\<close>

abbreviation pageSizeDefault :: int where "pageSizeDefault \<equiv> 50"
abbreviation pageSizeMax :: int where "pageSizeMax \<equiv> 100"

definition GetPaginationParams :: "int option \<Rightarrow> int option \<Rightarrow> int \<times> int" where
  "GetPaginationParams offset limit =
     ((case offset of Some n \<Rightarrow> if n \<ge> 0 then n else 0 | None \<Rightarrow> 0),
      (case limit of Some n \<Rightarrow> if n > 0 then min n pageSizeMax else pageSizeDefault | None \<Rightarrow> pageSizeDefault))"

text \<open>The first value of a query parameter, empty when it is absent.\<close>

definition query_value :: "(string, string) gomap \<Rightarrow> string \<Rightarrow> string" where
  "query_value q k = (case map_get q k of None \<Rightarrow> '''' | Some v \<Rightarrow> v)"

definition ParsePaginationParams :: "(string, string) gomap \<Rightarrow> (int option \<times> int option) res" where
  "ParsePaginationParams q =
     bind_res
       (if query_value q ''offset'' = '''' then Ok None
        else case strconv_Atoi (query_value q ''offset'') of
          Ok n \<Rightarrow> if sint n < 0 then Err (Errorf ''invalid 'offset' query parameter, must be a non-negative integer'' []) else Ok (Some (sint n))
        | _ \<Rightarrow> Err (Errorf ''invalid 'offset' query parameter, must be an integer'' [])) (\<lambda>offset.
     bind_res
       (if query_value q ''limit'' = '''' then Ok None
        else case strconv_Atoi (query_value q ''limit'') of
          Ok n \<Rightarrow> if sint n < 1 then Err (Errorf ''invalid 'limit' query parameter, must be at least 1'' [])
                 else if sint n > pageSizeMax then Err (Errorf ''invalid 'limit' query parameter, maximum allowed is %d'' [''100''])
                 else Ok (Some (sint n))
        | _ \<Rightarrow> Err (Errorf ''invalid 'limit' query parameter, must be an integer'' [])) (\<lambda>limit.
     Ok (offset, limit)))"

lemma pagination_bounds:
  "fst (GetPaginationParams offset limit) \<ge> 0 \<and> 1 \<le> snd (GetPaginationParams offset limit) \<and> snd (GetPaginationParams offset limit) \<le> pageSizeMax"
  by (auto simp: GetPaginationParams_def split: option.splits)

lemma parsed_pagination_kept:
  "ParsePaginationParams q = Ok (offset, limit) \<Longrightarrow> GetPaginationParams offset limit =
     ((case offset of Some n \<Rightarrow> n | None \<Rightarrow> 0), (case limit of Some n \<Rightarrow> n | None \<Rightarrow> pageSizeDefault))"
  by (auto simp: ParsePaginationParams_def GetPaginationParams_def res_simps split: if_splits res.splits option.splits)

lemma length_db_page: "length (db_page offset limit xs) \<le> nat limit"
  by (simp add: db_page_def)

text \<open>Consecutive pages of one size put together.\<close>

lemma concat_pages: "concat (map (\<lambda>p. take k (drop ((p - 1) * k) xs)) [1..<Suc n]) = take (n * k) xs"
proof (induction n)
  case (Suc n)
  have "[1..<Suc (Suc n)] = [1..<Suc n] @ [Suc n]" by simp
  then show ?case using Suc by (simp add: take_add [symmetric] add.commute)
qed simp

end
