(* ===== verification/PreConsignments.thy ===== *)
theory PreConsignments
  imports WorkflowManager Pagination
begin

text \<open>
  Pre-consignments: \<open>model/pre\_consignment.go\<close> and
  \<open>backend/internal/workflow/service/pre\_consignment\_service.go\<close>, on the tables of the workflow
  engine extended by their own, with the workflow manager whose \<open>StartWorkflowInstance\<close> they
  call. A transaction of the service covers its own tables and those of the workflow; what the
  task manager and the manager's handler map took while it was open stays after a rollback.
  Names are ordered byte by byte; time stamps and the descriptions of node templates are left out.
\<close>

section \<open>Tables\<close>

abbreviation PreConsignmentStateLocked :: string where "PreConsignmentStateLocked \<equiv> ''LOCKED''"
abbreviation PreConsignmentStateReady :: string where "PreConsignmentStateReady \<equiv> ''READY''"
abbreviation PreConsignmentStateInProgress :: string where "PreConsignmentStateInProgress \<equiv> ''IN_PROGRESS''"
abbreviation PreConsignmentStateCompleted :: string where "PreConsignmentStateCompleted \<equiv> ''COMPLETED''"

text \<open>A nil \<open>DependsOn\<close> is \<open>None\<close>.\<close>

record PreConsignmentTemplate =
  pct_ID :: string
  pct_Name :: string
  pct_Description :: string
  pct_WorkflowTemplateID :: string
  pct_DependsOn :: "string list option"

record PreConsignment =
  pc_ID :: string
  pc_TraderID :: string
  pc_TemplateID :: string
  pc_State :: string

record DomainDB = WorkflowDB +
  db_workflow_templates :: "WorkflowTemplate list"
  db_pc_templates :: "PreConsignmentTemplate list"
  db_pcs :: "PreConsignment list"

type_synonym ('z, 'a) domain = "('z DomainDB_scheme, 'a) op"

text \<open>The response types.\<close>

record WorkflowNodeResponseDTO =
  wd_ID :: string
  wd_TemplateName :: string
  wd_TemplateType :: string
  wd_State :: WorkflowNodeState
  wd_ExtendedState :: "string option"
  wd_Outcome :: "string option"
  wd_DependsOn :: "string list"

record TraderPreConsignmentResponseDTO =
  td_ID :: string
  td_Name :: string
  td_Description :: string
  td_DependsOn :: "string list option"
  td_State :: string
  td_PreConsignment :: "PreConsignment option"

record 'a ListResult =
  lr_TotalCount :: nat
  lr_Items :: "'a list"
  lr_Offset :: int
  lr_Limit :: int

record PreConsignmentResponseDTO =
  pd_ID :: string
  pd_TraderID :: string
  pd_State :: string
  pd_TraderContext :: "obj option"
  pd_TemplateID :: string
  pd_TemplateName :: string
  pd_TemplateDescription :: string
  pd_TemplateDependsOn :: "string list"
  pd_WorkflowNodes :: "WorkflowNodeResponseDTO list"

text \<open>\<open>template\_service.go\<close>.\<close>

definition GetWorkflowTemplateByID :: "DBEnv \<Rightarrow> string \<Rightarrow> ('z, WorkflowTemplate) domain" where
  "GetWorkflowTemplateByID env i = db_call env (\<lambda>db. (db_first (\<lambda>t. wt_ID t = i) (db_workflow_templates db), db))"

section \<open>The lifecycle callback\<close>

text \<open>\<open>Save\<close> of a row that was read: an update of all its columns.\<close>

definition save_pc :: "DBEnv \<Rightarrow> PreConsignment \<Rightarrow> ('z, unit) domain" where
  "save_pc env pc = db_call env (\<lambda>db. (Ok (), db\<lparr>db_pcs := update_where (\<lambda>p. pc_ID p = pc_ID pc) (\<lambda>_. pc) (db_pcs db)\<rparr>))"

definition syncTraderContextToAuth :: "PreConsignment \<Rightarrow> obj option \<Rightarrow> ('z, unit) domain" where
  "syncTraderContextToAuth pc context = returnS ()"

definition pc_OnWorkflowStatusChanged ::
    "DBEnv \<Rightarrow> string \<Rightarrow> string \<Rightarrow> string \<Rightarrow> Workflow option \<Rightarrow> ('z, unit) domain" where
  "pc_OnWorkflowStatusChanged env workflowID fromStatus toStatus workflow =
     bindS (wrapS ''failed to retrieve pre-consignment %s: %w'' [workflowID]
       (db_call env (\<lambda>db. (db_first (\<lambda>p. pc_ID p = workflowID) (db_pcs db), db)))) (\<lambda>preConsignment.
     if toStatus = WorkflowStatusCompleted then
       bindS (wrapS ''failed to update pre-consignment %s state to COMPLETED: %w'' [workflowID]
         (save_pc env (preConsignment\<lparr>pc_State := PreConsignmentStateCompleted\<rparr>))) (\<lambda>_.
       case workflow of
         None \<Rightarrow> failS (Errorf ''workflow payload cannot be nil for completed state'' [])
       | Some w \<Rightarrow> wrapS ''failed to sync trader context to auth: %w'' []
                    (syncTraderContextToAuth (preConsignment\<lparr>pc_State := PreConsignmentStateCompleted\<rparr>) (wf_GlobalContext w)))
     else returnS ())"

definition pc_handler :: "DBEnv \<Rightarrow> 'z DomainDB_scheme WorkflowEventHandler" where
  "pc_handler env = (\<lambda>i from to w. pc_OnWorkflowStatusChanged env i from to (Some w))"

section \<open>The list of a trader\<close>

text \<open>The map from template to pre-consignment: a later row of the query overwrites an earlier one.\<close>

definition by_template :: "PreConsignment list \<Rightarrow> string \<Rightarrow> PreConsignment option" where
  "by_template pcs = map_of (rev (map (\<lambda>p. (pc_TemplateID p, p)) pcs))"

definition dependency_met :: "PreConsignment list \<Rightarrow> string \<Rightarrow> bool" where
  "dependency_met pcs dep =
     (case by_template pcs dep of None \<Rightarrow> False | Some p \<Rightarrow> pc_State p = PreConsignmentStateCompleted)"

definition deps :: "PreConsignmentTemplate \<Rightarrow> string list" where
  "deps t = (case pct_DependsOn t of None \<Rightarrow> [] | Some ds \<Rightarrow> ds)"

definition trader_entry :: "PreConsignment list \<Rightarrow> PreConsignmentTemplate \<Rightarrow> TraderPreConsignmentResponseDTO" where
  "trader_entry pcs t =
     (case by_template pcs (pct_ID t) of
        Some pc \<Rightarrow>
          \<lparr>td_ID = pct_ID t, td_Name = pct_Name t, td_Description = pct_Description t, td_DependsOn = pct_DependsOn t,
           td_State = pc_State pc, td_PreConsignment = Some pc\<rparr>
      | None \<Rightarrow>
          \<lparr>td_ID = pct_ID t, td_Name = pct_Name t, td_Description = pct_Description t, td_DependsOn = Some (deps t),
           td_State = (if list_all (dependency_met pcs) (deps t) then PreConsignmentStateReady else PreConsignmentStateLocked),
           td_PreConsignment = None\<rparr>)"

definition GetTraderPreConsignments ::
    "DBEnv \<Rightarrow> string \<Rightarrow> int option \<Rightarrow> int option \<Rightarrow> ('z, TraderPreConsignmentResponseDTO ListResult) domain" where
  "GetTraderPreConsignments env traderID offset limit =
     (let (finalOffset, finalLimit) = GetPaginationParams offset limit in
      bindS (wrapS ''failed to count pre-consignment templates: %w'' []
        (db_call env (\<lambda>db. (Ok (length (db_pc_templates db)), db)))) (\<lambda>totalCount.
      if totalCount = 0 then returnS \<lparr>lr_TotalCount = 0, lr_Items = [], lr_Offset = finalOffset, lr_Limit = finalLimit\<rparr>
      else
        bindS (wrapS ''failed to retrieve pre-consignment templates: %w'' []
          (db_call env (\<lambda>db. (Ok (db_page finalOffset finalLimit
             (sort_key pct_Name (db_find env (db_tick db) pct_ID (\<lambda>_. True) (db_pc_templates db)))), db)))) (\<lambda>templates.
        bindS (wrapS ''failed to retrieve completed pre-consignments for trader %s: %w'' [traderID]
          (db_call env (\<lambda>db. (Ok (db_find env (db_tick db) pc_ID (\<lambda>p. pc_TraderID p = traderID) (db_pcs db)), db)))) (\<lambda>preConsignments.
        returnS \<lparr>lr_TotalCount = totalCount, lr_Items = map (trader_entry preConsignments) templates,
                 lr_Offset = finalOffset, lr_Limit = finalLimit\<rparr>))))"

section \<open>Responses\<close>

definition node_response :: "WorkflowNode \<times> WorkflowNodeTemplate option \<Rightarrow> WorkflowNodeResponseDTO" where
  "node_response nt =
     \<lparr>wd_ID = n_ID (fst nt), wd_TemplateName = (case snd nt of None \<Rightarrow> '''' | Some t \<Rightarrow> t_Name t),
      wd_TemplateType = (case snd nt of None \<Rightarrow> '''' | Some t \<Rightarrow> t_Type t), wd_State = n_State (fst nt),
      wd_ExtendedState = n_ExtendedState (fst nt), wd_Outcome = n_Outcome (fst nt), wd_DependsOn = n_DependsOn (fst nt)\<rparr>"

text \<open>The pre-consignment with its preloaded template (zero when there is none) and its workflow.\<close>

definition buildPreConsignmentResponseDTO ::
    "PreConsignment \<Rightarrow> PreConsignmentTemplate option \<Rightarrow> (Workflow \<times> (WorkflowNode \<times> WorkflowNodeTemplate option) list) option
       \<Rightarrow> PreConsignmentResponseDTO" where
  "buildPreConsignmentResponseDTO pc t workflow =
     \<lparr>pd_ID = pc_ID pc, pd_TraderID = pc_TraderID pc, pd_State = pc_State pc,
      pd_TraderContext = (case workflow of None \<Rightarrow> None | Some w \<Rightarrow> wf_GlobalContext (fst w)),
      pd_TemplateID = (case t of None \<Rightarrow> '''' | Some t \<Rightarrow> pct_ID t),
      pd_TemplateName = (case t of None \<Rightarrow> '''' | Some t \<Rightarrow> pct_Name t),
      pd_TemplateDescription = (case t of None \<Rightarrow> '''' | Some t \<Rightarrow> pct_Description t),
      pd_TemplateDependsOn = (case t of None \<Rightarrow> [] | Some t \<Rightarrow> deps t),
      pd_WorkflowNodes = (case workflow of None \<Rightarrow> [] | Some w \<Rightarrow> map node_response (snd w))\<rparr>"

text \<open>\<open>Preload("PreConsignmentTemplate")\<close> is a second query.\<close>

definition preload_template :: "DBEnv \<Rightarrow> PreConsignment \<Rightarrow> ('z, PreConsignmentTemplate option) domain" where
  "preload_template env pc = db_call env (\<lambda>db. (Ok (List.find (\<lambda>t. pct_ID t = pc_TemplateID pc) (db_pc_templates db)), db))"

definition get_pc :: "DBEnv \<Rightarrow> string \<Rightarrow> ('z, PreConsignment \<times> PreConsignmentTemplate option) domain" where
  "get_pc env i =
     bindS (db_call env (\<lambda>db. (db_first (\<lambda>p. pc_ID p = i) (db_pcs db), db))) (\<lambda>pc.
     bindS (preload_template env pc) (\<lambda>t. returnS (pc, t)))"

definition GetPreConsignmentByID :: "DBEnv \<Rightarrow> string \<Rightarrow> ('z, PreConsignmentResponseDTO) domain" where
  "GetPreConsignmentByID env i =
     bindS (wrapS ''failed to retrieve pre-consignment with ID %s: %w'' [i] (get_pc env i)) (\<lambda>(pc, t).
     bindS (wrapS ''failed to get workflow details: %w'' [] (GetWorkflowInstance env (pc_ID pc))) (\<lambda>wf.
     returnS (buildPreConsignmentResponseDTO pc t (Some wf))))"

fun build_all :: "DBEnv \<Rightarrow> (PreConsignment \<times> PreConsignmentTemplate option) list \<Rightarrow> ('z, PreConsignmentResponseDTO list) domain" where
  "build_all env [] = returnS []"
| "build_all env ((pc, t) # rest) =
     bindS (wrapS ''failed to get workflow details for pre-consignment %s: %w'' [pc_ID pc] (GetWorkflowInstance env (pc_ID pc))) (\<lambda>wf.
     bindS (build_all env rest) (\<lambda>dtos. returnS (buildPreConsignmentResponseDTO pc t (Some wf) # dtos)))"

definition GetPreConsignmentsByTraderID :: "DBEnv \<Rightarrow> string \<Rightarrow> ('z, PreConsignmentResponseDTO list) domain" where
  "GetPreConsignmentsByTraderID env traderID =
     bindS (wrapS ''failed to retrieve pre-consignments for trader %s: %w'' [traderID]
       (bindS (db_call env (\<lambda>db. (Ok (db_find env (db_tick db) pc_ID
            (\<lambda>p. pc_TraderID p = traderID \<and> pc_State p \<noteq> PreConsignmentStateLocked) (db_pcs db)), db))) (\<lambda>pcs.
        if pcs = [] then returnS []
        else db_call env (\<lambda>db. (Ok (map (\<lambda>p. (p, List.find (\<lambda>t. pct_ID t = pc_TemplateID p) (db_pc_templates db))) pcs), db))))) (\<lambda>pcs.
     build_all env pcs)"

section \<open>Initialization\<close>

text \<open>Operations on the manager together with the database, and one that only needs the latter.\<close>

type_synonym ('z, 'a) managed = "('z DomainDB_scheme WorkflowManager \<times> 'z DomainDB_scheme, 'a) op"

definition on_db :: "('z, 'a) domain \<Rightarrow> ('z, 'a) managed" where
  "on_db m s = (case m (snd s) of (r, db) \<Rightarrow> (r, (fst s, db)))"

text \<open>A rollback takes back the tables the transaction wrote, not what other connections did meanwhile.\<close>

definition undo_tables :: "'z DomainDB_scheme \<Rightarrow> 'z DomainDB_scheme \<Rightarrow> 'z DomainDB_scheme" where
  "undo_tables before after =
     after\<lparr>db_nodes := db_nodes before, db_workflows := db_workflows before, db_pcs := db_pcs before\<rparr>"

definition create_pc :: "DBEnv \<Rightarrow> string \<Rightarrow> string \<Rightarrow> ('z, PreConsignment) domain" where
  "create_pc env traderId templateID =
     db_call env (\<lambda>db.
       let pc = \<lparr>pc_ID = newUUID env (db_tick db) 0, pc_TraderID = traderId, pc_TemplateID = templateID,
                 pc_State = PreConsignmentStateInProgress\<rparr>
       in if \<exists>p \<in> set (db_pcs db). pc_ID p = pc_ID pc
          then (Err (External ''duplicate key value violates unique constraint''), db)
          else (Ok pc, db\<lparr>db_pcs := db_pcs db @ [pc]\<rparr>))"

definition completed_deps :: "string \<Rightarrow> string list \<Rightarrow> PreConsignment list \<Rightarrow> PreConsignment list" where
  "completed_deps traderId ds pcs =
     filter (\<lambda>p. pc_TraderID p = traderId \<and> pc_TemplateID p \<in> set ds \<and> pc_State p = PreConsignmentStateCompleted) pcs"

text \<open>The template, its dependencies and its workflow template, before the transaction.\<close>

definition check_template :: "DBEnv \<Rightarrow> string \<Rightarrow> string \<Rightarrow> ('z, WorkflowTemplate) domain" where
  "check_template env templateID traderId =
     bindS (wrapS ''pre-consignment template %s not found: %w'' [templateID]
       (db_call env (\<lambda>db. (db_first (\<lambda>t. pct_ID t = templateID) (db_pc_templates db), db)))) (\<lambda>pcTemplate.
     bindS (if deps pcTemplate = [] then returnS ()
            else bindS (wrapS ''failed to check dependency completion: %w'' []
                   (db_call env (\<lambda>db. (Ok (length (completed_deps traderId (deps pcTemplate) (db_pcs db))), db)))) (\<lambda>completedCount.
                 if completedCount < length (deps pcTemplate)
                 then failS (Errorf ''dependency pre-consignments are not all completed'' []) else returnS ())) (\<lambda>_.
     wrapS ''failed to get workflow template %s: %w'' [pct_WorkflowTemplateID pcTemplate]
       (GetWorkflowTemplateByID env (pct_WorkflowTemplateID pcTemplate))))"

text \<open>The body of the transaction, its commit and the rollbacks; a panic is recovered and gives \<open>(nil, nil)\<close>.\<close>

definition pc_transaction ::
    "DBEnv \<Rightarrow> string \<Rightarrow> string \<Rightarrow> WorkflowTemplate \<Rightarrow> obj \<Rightarrow> ('z, PreConsignment option) managed" where
  "pc_transaction env templateID traderId workflowTemplate context s =
     (case bindS (wrapS ''failed to create pre-consignment: %w'' [] (on_db (create_pc env traderId templateID))) (\<lambda>pc.
           bindS (wrapS ''failed to register workflow: %w'' []
             (StartWorkflowInstance env (pc_ID pc) [workflowTemplate] (Some context) (Some (pc_handler env)))) (\<lambda>_.
           bindS (wrapS ''failed to commit transaction: %w'' [] (on_db (db_call env (\<lambda>d. (Ok (), d))))) (\<lambda>_.
           returnS pc))) s of
        (Ok pc, s') \<Rightarrow> (Ok (Some pc), s')
      | (Err e, (m, db)) \<Rightarrow> (Err e, (m, undo_tables (snd s) db))
      | (Panic, (m, db)) \<Rightarrow> (Ok None, (m, undo_tables (snd s) db)))"

definition initializePreConsignmentInTx ::
    "DBEnv \<Rightarrow> string \<Rightarrow> string \<Rightarrow> obj \<Rightarrow> ('z, PreConsignmentResponseDTO option) managed" where
  "initializePreConsignmentInTx env templateID traderId context =
     bindS (on_db (check_template env templateID traderId)) (\<lambda>workflowTemplate.
     bindS (pc_transaction env templateID traderId workflowTemplate context) (\<lambda>created.
     case created of
       None \<Rightarrow> returnS None
     | Some pc0 \<Rightarrow>
         bindS (wrapS ''failed to reload pre-consignment: %w'' [] (on_db (get_pc env (pc_ID pc0)))) (\<lambda>(pc, t).
         bindS (wrapS ''failed to get workflow details: %w'' [] (on_db (GetWorkflowInstance env (pc_ID pc)))) (\<lambda>wf.
         returnS (Some (buildPreConsignmentResponseDTO pc t (Some wf)))))))"

text \<open>A nil request is \<open>None\<close>.\<close>

definition InitializePreConsignment ::
    "DBEnv \<Rightarrow> string option \<Rightarrow> string \<Rightarrow> obj option \<Rightarrow> ('z, PreConsignmentResponseDTO option) managed" where
  "InitializePreConsignment env createReq traderId initialTraderContext =
     (case createReq of
        None \<Rightarrow> failS (Errorf ''create request cannot be nil'' [])
      | Some templateID \<Rightarrow>
          if traderId = '''' then failS (Errorf ''trader ID cannot be empty'' [])
          else initializePreConsignmentInTx env templateID traderId
                 (case initialTraderContext of None \<Rightarrow> [] | Some c \<Rightarrow> c))"

end
