(* ===== verification/PreConsignmentProperties.thy ===== *)
theory PreConsignmentProperties
  imports PreConsignments
begin

text \<open>
  Pre-consignments and their workflows agree: what every operation of the service and every update
  of the engine keeps of the two tables, what one operation may complete, and when the gate of the list and the gate of the
  initialization let a trader begin.
\<close>

section \<open>Operations that leave workflows and pre-consignments alone\<close>

text \<open>A predicate that does not depend on the nodes and on the number of calls.\<close>

definition node_only :: "('z WorkflowDB_scheme \<Rightarrow> bool) \<Rightarrow> bool" where
  "node_only I \<longleftrightarrow> (\<forall>db t ns. I db \<longrightarrow> I (db\<lparr>db_tick := t\<rparr>) \<and> I (db\<lparr>db_nodes := ns\<rparr>))"

lemma keeps_db_call: "node_only I \<Longrightarrow> keeps I stmt \<Longrightarrow> keeps I (db_call env stmt)"
  unfolding keeps_def [of I "db_call env stmt"]
proof (intro allI impI)
  fix s r s'
  assume I: "node_only I" "keeps I stmt" "I s" and run: "db_call env stmt s = (r, s')"
  then have t: "I (s\<lparr>db_tick := Suc (db_tick s)\<rparr>)" by (simp add: node_only_def)
  show "I s'"
    using run t keepsD [OF I(2) t] by (auto simp: db_call_def Let_def split: option.splits)
qed

lemma keeps_read: "node_only I \<Longrightarrow> keeps I (db_call env (\<lambda>db. (g db, db)))"
  by (rule keeps_db_call) (simp_all add: keeps_def)

lemma keeps_write_nodes: "node_only I \<Longrightarrow> keeps I (db_call env (\<lambda>db. (g db, db\<lparr>db_nodes := f db\<rparr>)))"
  by (rule keeps_db_call) (simp_all add: keeps_def node_only_def)

lemma keeps_create_nodes: "node_only I \<Longrightarrow> keeps I (CreateWorkflowNodesInTx env ns)"
  unfolding CreateWorkflowNodesInTx_def
  by (intro keep keeps_db_call) (auto simp: keeps_def node_only_def Let_def)

lemma keeps_update_nodes: "node_only I \<Longrightarrow> keeps I (UpdateWorkflowNodesInTx env ns)"
  unfolding UpdateWorkflowNodesInTx_def update_one_def by (intro keep keeps_read keeps_write_nodes)

lemma keeps_node_service:
  assumes "node_only I"
  shows "keeps I (repo_GetByID (NewWorkflowNodeService env) i)"
    and "keeps I (repo_GetByWorkflowID (NewWorkflowNodeService env) w)"
    and "keeps I (repo_Create (NewWorkflowNodeService env) ns)"
    and "keeps I (repo_Update (NewWorkflowNodeService env) ns)"
  using assms
  by (auto simp: NewWorkflowNodeService_def GetWorkflowNodeByIDInTx_def GetWorkflowNodesByWorkflowIDInTx_def
      intro!: keep keeps_read keeps_create_nodes keeps_update_nodes)

lemma keeps_state_machine:
  assumes "node_only I"
  shows "keeps I (TransitionToCompleted (NewWorkflowNodeService env) n u cs)"
    and "keeps I (TransitionToFailed (NewWorkflowNodeService env) n u)"
    and "keeps I (TransitionToInProgress (NewWorkflowNodeService env) b n u)"
    and "keeps I (InitializeNodesFromTemplates (NewWorkflowNodeService env) i ts)"
  unfolding TransitionToCompleted_def TransitionToFailed_def TransitionToInProgress_def
    InitializeNodesFromTemplates_def Let_def getSiblingNodes_def
  by (intro keep keeps_node_service [OF assms])+

lemma keeps_template_reads:
  assumes "node_only I"
  shows "keeps I (GetWorkflowNodeTemplateByID env i)" and "keeps I (GetWorkflowNodeTemplatesByIDs env is)"
    and "keeps I (GetEndNodeTemplate env)"
  unfolding GetWorkflowNodeTemplateByID_def GetWorkflowNodeTemplatesByIDs_def GetEndNodeTemplate_def
  by (rule keeps_read [OF assms])+

text \<open>Registration runs the task manager's callback, which keeps what the callback keeps.\<close>

definition init_keeps :: "('z WorkflowDB_scheme \<Rightarrow> bool) \<Rightarrow> 'z WorkflowDB_scheme WorkflowManager \<Rightarrow> bool" where
  "init_keeps I m \<longleftrightarrow> (\<forall>cb req. mgr_initTaskCallback m = Some cb \<longrightarrow> keeps I (cb req))"

lemma keeps_register:
  assumes "node_only I" and "init_keeps I m"
  shows "keeps I (registerNodesWithTaskManager env m ns ctx)"
proof (cases "mgr_initTaskCallback m")
  case None
  then show ?thesis by (simp add: registerNodesWithTaskManager_def keeps_failS)
next
  case (Some cb)
  with assms(2) have "keeps I (cb req)" for req by (simp add: init_keeps_def)
  then show ?thesis
    unfolding registerNodesWithTaskManager_def Some option.case register_node_def
    by (intro keep keeps_template_reads [OF assms(1)])
qed

section \<open>Workflows and pre-consignments that agree\<close>

text \<open>
  A pre-consignment is completed only with its workflow, and a failed workflow leaves it as it was:
  in progress, or completed when the failure came after the completion.
\<close>

definition agrees :: "Workflow \<Rightarrow> PreConsignment \<Rightarrow> bool" where
  "agrees w p \<longleftrightarrow>
     (wf_Status w = WorkflowStatusInProgress \<and> pc_State p = PreConsignmentStateInProgress)
     \<or> (wf_Status w = WorkflowStatusCompleted \<and> pc_State p = PreConsignmentStateCompleted)
     \<or> (wf_Status w = WorkflowStatusFailed
         \<and> (pc_State p = PreConsignmentStateInProgress \<or> pc_State p = PreConsignmentStateCompleted))"

text \<open>The ids of \<open>fresh\<close> may lack a workflow, those of \<open>busy\<close> may disagree with theirs.\<close>

definition linked :: "string set \<Rightarrow> string set \<Rightarrow> 'z DomainDB_scheme \<Rightarrow> bool" where
  "linked fresh busy db \<longleftrightarrow>
     distinct (map pc_ID (db_pcs db)) \<and> distinct (map wf_ID (db_workflows db))
     \<and> (\<forall>p \<in> set (db_pcs db).
          (pc_State p = PreConsignmentStateInProgress \<or> pc_State p = PreConsignmentStateCompleted)
          \<and> (pc_ID p \<in> fresh \<or> (\<exists>w \<in> set (db_workflows db). wf_ID w = pc_ID p))
          \<and> (\<forall>w \<in> set (db_workflows db). wf_ID w = pc_ID p \<longrightarrow> pc_ID p \<in> busy \<or> agrees w p))"

lemma linked_agrees:
  "linked {} {} db \<Longrightarrow> p \<in> set (db_pcs db) \<Longrightarrow> w \<in> set (db_workflows db) \<Longrightarrow> wf_ID w = pc_ID p \<Longrightarrow> agrees w p"
  by (simp add: linked_def)

lemma agrees_context [simp]: "agrees (w\<lparr>wf_GlobalContext := c\<rparr>) p = agrees w p"
  by (simp add: agrees_def)

lemma node_only_linked: "node_only (linked fresh busy)"
  by (simp add: node_only_def linked_def)

lemma triple_db_call:
  assumes "node_only P" and "\<And>db v db'. P db \<Longrightarrow> stmt db = (Ok v, db') \<Longrightarrow> Q v db'"
  shows "triple P (db_call env stmt) Q (\<lambda>_. True)"
proof (rule tripleI)
  fix s r s'
  assume P: "P s" and run: "db_call env stmt s = (r, s')"
  then have t: "P (s\<lparr>db_tick := Suc (db_tick s)\<rparr>)" using assms(1) by (simp add: node_only_def)
  show "(\<forall>v. r = Ok v \<longrightarrow> Q v s') \<and> (\<not> is_ok r \<longrightarrow> True)"
    using run assms(2) [OF t] by (auto simp: db_call_def Let_def split: option.splits)
qed

lemma triple_keeps: "keeps I m \<Longrightarrow> triple I m (\<lambda>_. I) (\<lambda>_. True)"
  unfolding keeps_triple by (erule triple_conseq) simp_all

lemma linked_save:
  assumes "linked fresh busy db" and "busy \<subseteq> insert (wf_ID w) busy'"
    and "\<And>p. p \<in> set (db_pcs db) \<Longrightarrow> pc_ID p = wf_ID w \<Longrightarrow> wf_ID w \<in> busy' \<or> agrees w p"
  shows "linked fresh busy' (db\<lparr>db_workflows := update_where (\<lambda>r. wf_ID r = wf_ID w) (\<lambda>_. w) (db_workflows db)\<rparr>)"
proof -
  let ?ws = "update_where (\<lambda>r. wf_ID r = wf_ID w) (\<lambda>_. w) (db_workflows db)"
  have ids: "map wf_ID ?ws = map wf_ID (db_workflows db)" by (rule update_where_map_same) simp
  have "(\<exists>r \<in> set ?ws. wf_ID r = i) \<longleftrightarrow> (\<exists>r \<in> set (db_workflows db). wf_ID r = i)" for i
    using arg_cong [OF ids, of set] by (simp add: set_eq_iff image_iff) metis
  moreover have "wf_ID r \<in> busy' \<or> agrees r p"
    if "p \<in> set (db_pcs db)" "r \<in> set ?ws" "wf_ID r = pc_ID p" for r p
    using that assms by (fastforce simp: update_where_def linked_def)
  ultimately show ?thesis
    using assms(1) ids unfolding linked_def by (simp (no_asm_simp)) (metis ids)
qed

lemma linked_complete:
  assumes "linked {} {i} db" and "p \<in> set (db_pcs db)" and "pc_ID p = i"
    and "\<And>w. w \<in> set (db_workflows db) \<Longrightarrow> wf_ID w = i \<Longrightarrow> wf_Status w = WorkflowStatusCompleted"
  shows "linked {} {} (db\<lparr>db_pcs := update_where (\<lambda>r. pc_ID r = i) (\<lambda>_. p\<lparr>pc_State := PreConsignmentStateCompleted\<rparr>) (db_pcs db)\<rparr>)"
proof -
  let ?ps = "update_where (\<lambda>r. pc_ID r = i) (\<lambda>_. p\<lparr>pc_State := PreConsignmentStateCompleted\<rparr>) (db_pcs db)"
  have ids: "map pc_ID ?ps = map pc_ID (db_pcs db)" by (rule update_where_map_same) (simp add: assms)
  have "(pc_State q = PreConsignmentStateInProgress \<or> pc_State q = PreConsignmentStateCompleted)
      \<and> (\<exists>w \<in> set (db_workflows db). wf_ID w = pc_ID q)
      \<and> (\<forall>w \<in> set (db_workflows db). wf_ID w = pc_ID q \<longrightarrow> agrees w q)" if q: "q \<in> set ?ps" for q
  proof -
    obtain r where r: "r \<in> set (db_pcs db)"
      "q = (if pc_ID r = i then p\<lparr>pc_State := PreConsignmentStateCompleted\<rparr> else r)"
      using q by (auto simp: update_where_def)
    show ?thesis
    proof (cases "pc_ID r = i")
      case True
      with r assms show ?thesis by (auto simp: linked_def agrees_def)
    next
      case False
      with r assms(1) show ?thesis by (auto simp: linked_def)
    qed
  qed
  with assms(1) ids show ?thesis by (simp add: linked_def)
qed

section \<open>What the operations keep\<close>

text \<open>The callback: it may end a disagreement of its own workflow, and starts none.\<close>

lemma callback_keeps_linked:
  assumes "to \<noteq> WorkflowStatusCompleted"
  shows "keeps (linked {} {}) (pc_handler env i from to w)"
  unfolding pc_handler_def pc_OnWorkflowStatusChanged_def using assms
  by (auto intro!: keep keeps_read node_only_linked)

lemma callback_completes:
  "triple (\<lambda>db. linked {} {i} db \<and> (\<forall>w \<in> set (db_workflows db). wf_ID w = i \<longrightarrow> wf_Status w = WorkflowStatusCompleted))
     (pc_handler env i from WorkflowStatusCompleted w) (\<lambda>_. linked {} {}) (\<lambda>_. True)" (is "triple ?P _ _ _")
proof -
  have P: "node_only ?P" by (simp add: node_only_def linked_def)
  have Q: "node_only (\<lambda>db. ?P db \<and> p \<in> set (db_pcs db) \<and> pc_ID p = i)" for p
    by (simp add: node_only_def linked_def)
  have "triple ?P (db_call env (\<lambda>db. (db_first (\<lambda>p. pc_ID p = i) (db_pcs db), db)))
      (\<lambda>p db. ?P db \<and> p \<in> set (db_pcs db) \<and> pc_ID p = i) (\<lambda>_. True)"
    by (rule triple_db_call [OF P]) (auto dest: db_first_Ok)
  moreover have "triple (\<lambda>db. ?P db \<and> p \<in> set (db_pcs db) \<and> pc_ID p = i)
      (save_pc env (p\<lparr>pc_State := PreConsignmentStateCompleted\<rparr>)) (\<lambda>_. linked {} {}) (\<lambda>_. True)" for p
    unfolding save_pc_def by (rule triple_db_call [OF Q]) (auto intro!: linked_complete)
  ultimately show ?thesis
    unfolding pc_handler_def pc_OnWorkflowStatusChanged_def syncTraderContextToAuth_def simp_thms if_True option.case
    by (intro triple_bindS triple_wrapS) (auto intro: triple_returnS)
qed

lemma save_agreeing:
  assumes "node_only P" and "\<And>db. P db \<Longrightarrow> linked {} {} db"
    and "\<And>db p. P db \<Longrightarrow> p \<in> set (db_pcs db) \<Longrightarrow> pc_ID p = wf_ID w \<Longrightarrow> agrees w p"
  shows "triple P (save_workflow env w) (\<lambda>_. linked {} {}) (\<lambda>_. True)"
  unfolding save_workflow_def
proof (rule triple_db_call [OF assms(1)])
  fix db :: "'a DomainDB_scheme" and v db'
  assume "P db" and "(Ok (), db\<lparr>db_workflows := update_where (\<lambda>r. wf_ID r = wf_ID w) (\<lambda>_. w) (db_workflows db)\<rparr>) = (Ok v, db')"
  then show "linked {} {} db'" using linked_save [OF assms(2) [of db], of w "{}"] assms(3) by auto
qed

lemma save_failed:
  assumes "wf_Status w = WorkflowStatusFailed"
  shows "triple (linked {} {}) (save_workflow env w) (\<lambda>_. linked {} {}) (\<lambda>_. True)"
  by (rule save_agreeing [OF node_only_linked]) (use assms in \<open>auto simp: linked_def agrees_def\<close>)

lemma save_completed:
  assumes "wf_Status w = WorkflowStatusCompleted"
  shows "triple (linked {} {}) (save_workflow env w)
     (\<lambda>_ db. linked {} {wf_ID w} db \<and> (\<forall>r \<in> set (db_workflows db). wf_ID r = wf_ID w \<longrightarrow> wf_Status r = WorkflowStatusCompleted))
     (\<lambda>_. True)"
  unfolding save_workflow_def
proof (rule triple_db_call [OF node_only_linked])
  fix db :: "'a DomainDB_scheme" and v db'
  assume db: "linked {} {} db"
    and "(Ok (), db\<lparr>db_workflows := update_where (\<lambda>r. wf_ID r = wf_ID w) (\<lambda>_. w) (db_workflows db)\<rparr>) = (Ok v, db')"
  then show "linked {} {wf_ID w} db'
      \<and> (\<forall>r \<in> set (db_workflows db'). wf_ID r = wf_ID w \<longrightarrow> wf_Status r = WorkflowStatusCompleted)"
    using linked_save [OF db, of w "{wf_ID w}"] by (auto simp: assms update_where_def split: if_splits)
qed

lemma change_status_linked:
  assumes "status = WorkflowStatusFailed \<or> status = WorkflowStatusCompleted" and "wf_ID w = i"
  shows "triple (linked {} {}) (change_status env m1 m2 (pc_handler env) i status w) (\<lambda>_. linked {} {}) (\<lambda>_. True)"
proof (cases "status = WorkflowStatusCompleted")
  case True
  have "triple (linked {} {}) (save_workflow env (w\<lparr>wf_Status := status\<rparr>))
     (\<lambda>_ db. linked {} {i} db \<and> (\<forall>r \<in> set (db_workflows db). wf_ID r = i \<longrightarrow> wf_Status r = WorkflowStatusCompleted))
     (\<lambda>_. True)"
    using save_completed [of "w\<lparr>wf_Status := status\<rparr>"] True assms(2) by simp
  then show ?thesis
    unfolding change_status_def True by (rule triple_bindS [OF triple_wrapS triple_wrapS [OF callback_completes]])
next
  case False
  with assms(1) have "status = WorkflowStatusFailed" by simp
  then show ?thesis
    unfolding change_status_def
    by (intro triple_bindS [OF triple_wrapS [OF save_failed]] triple_wrapS triple_keeps callback_keeps_linked) simp_all
qed

text \<open>The saved workflow of \<open>append\_context\<close> is the loaded one but for its context.\<close>

lemma append_context_linked:
  "triple (\<lambda>db. linked {} {} db \<and> w \<in> set (db_workflows db)) (append_context env req w)
     (\<lambda>w' db. linked {} {} db \<and> wf_ID w' = wf_ID w) (\<lambda>_. True)" (is "triple ?P _ _ _")
proof -
  have P: "node_only ?P" by (simp add: node_only_def linked_def)
  have "triple ?P (save_workflow env (w\<lparr>wf_GlobalContext := c\<rparr>)) (\<lambda>_. linked {} {}) (\<lambda>_. True)" for c
    by (rule save_agreeing [OF P]) (auto dest: linked_agrees)
  then have "triple ?P (bindS (wrapS m [] (save_workflow env (w\<lparr>wf_GlobalContext := c\<rparr>)))
      (\<lambda>_. returnS (w\<lparr>wf_GlobalContext := c\<rparr>))) (\<lambda>w' db. linked {} {} db \<and> wf_ID w' = wf_ID w) (\<lambda>_. True)" for c m
    by (intro triple_bindS triple_wrapS) (auto intro: triple_returnS)
  then show ?thesis
    by (auto simp: append_context_def Let_def intro: triple_returnS)
qed

lemma load_workflow_linked:
  "triple (linked {} {}) (db_call env (\<lambda>db. (db_first (\<lambda>w. wf_ID w = i) (db_workflows db), db)))
     (\<lambda>w db. (linked {} {} db \<and> w \<in> set (db_workflows db)) \<and> wf_ID w = i) (\<lambda>_. True)"
  by (rule triple_db_call [OF node_only_linked]) (auto dest: db_first_Ok)

lemma triple_fact: "(A \<Longrightarrow> triple P m Q E) \<Longrightarrow> triple (\<lambda>s. P s \<and> A) m Q E"
  by (cases A) (simp_all add: triple_def)

lemma triple_prod: "(\<And>a b. triple P (f a b) Q E) \<Longrightarrow> triple P (case p of (a, b) \<Rightarrow> f a b) Q E"
  by (cases p) simp

lemma transition_linked:
  "triple (linked {} {}) (transition_body env i req (pc_handler env)) (\<lambda>_. linked {} {}) (\<lambda>_. True)"
proof -
  note kept = keeps_node_service(1) [OF node_only_linked] keeps_state_machine(1-3) [OF node_only_linked]
  note run = kept [THEN triple_keeps, THEN triple_wrapS, THEN triple_bindS]
  show ?thesis
    unfolding transition_body_def
    apply (rule triple_bindS [OF triple_wrapS [OF load_workflow_linked]], rule triple_fact)
    apply (rule triple_bindS [OF append_context_linked], rule triple_fact)
    apply (rule run(1), rule triple_bindS [where R = "\<lambda>_. linked {} {}"])
    subgoal
      by (cases "u_State req") (auto intro!: run(2-4) triple_bindS [OF change_status_linked] triple_returnS)
    subgoal by (simp add: triple_returnS)
    done
qed

section \<open>Transactions of the engine and of the service\<close>

lemma keeps_transaction:
  assumes I: "node_only I" and body: "triple I body (\<lambda>_. I) (\<lambda>_. True)"
  shows "keeps I (in_transaction env zero body)"
  unfolding keeps_def
proof (intro allI impI)
  fix s r s'
  assume s: "I s" and run: "in_transaction env zero body s = (r, s')"
  obtain r1 s1 where b: "body s = (r1, s1)" by (cases "body s")
  have undone: "I (rollback s t)" for t using I s by (simp add: rollback_def node_only_def)
  have commit: "I t" if "I s1" "db_call env (\<lambda>d. (Ok (), d)) s1 = (q, t)" for q t
    using that I by (auto simp: db_call_def node_only_def Let_def split: option.splits)
  have "r1 = Ok v \<Longrightarrow> I s1" for v using tripleD [OF body s b] by simp
  then show "I s'"
    using run undone commit by (auto simp: in_transaction_def b wrapS_iff split: res.splits prod.splits)
qed

text \<open>The task manager writes neither workflows nor pre-consignments.\<close>

definition quiet_tasks :: "'z DomainDB_scheme WorkflowManager \<Rightarrow> bool" where
  "quiet_tasks m \<longleftrightarrow>
     (\<forall>cb req s r s'. mgr_initTaskCallback m = Some cb \<longrightarrow> cb req s = (r, s') \<longrightarrow>
        db_workflows s' = db_workflows s \<and> db_pcs s' = db_pcs s)"

definition pc_manager :: "DBEnv \<Rightarrow> 'z DomainDB_scheme WorkflowManager \<Rightarrow> bool" where
  "pc_manager env m \<longleftrightarrow> quiet_tasks m \<and> (\<forall>i h. findHandler m i = Some h \<longrightarrow> h = pc_handler env)"

lemma linked_cong:
  "db_workflows db' = db_workflows db \<Longrightarrow> db_pcs db' = db_pcs db \<Longrightarrow> linked fresh busy db' = linked fresh busy db"
  by (simp add: linked_def)

lemma quiet_init: "quiet_tasks m \<Longrightarrow> init_keeps (linked fresh busy) m"
  unfolding quiet_tasks_def init_keeps_def keeps_def using linked_cong by blast

lemma update_keeps_linked:
  assumes "pc_manager env m"
  shows "keeps (linked {} {}) (HandleTaskUpdate env m update)"
proof -
  note service = keeps_node_service(1) [OF node_only_linked]
  have reg: "keeps (linked {} {}) (registerNodesWithTaskManager env m ns c)" for ns c
    using assms by (intro keeps_register [OF node_only_linked] quiet_init) (simp add: pc_manager_def)
  have "keeps (linked {} {}) (processStateTransition env n req (pc_handler env))" for n req
    unfolding processStateTransition_def by (rule keeps_transaction [OF node_only_linked transition_linked])
  then have step: "keeps (linked {} {}) (processStateTransition env n req h)" if "findHandler m i = Some h" for n req h i
    using assms that by (auto simp: pc_manager_def)
  show ?thesis
    unfolding HandleTaskUpdate_def Let_def
    by (intro keep service reg) (auto intro: step)
qed

text \<open>A workflow that has just begun, with its pre-consignment.\<close>

definition begun :: "string \<Rightarrow> 'z DomainDB_scheme \<Rightarrow> bool" where
  "begun i db \<longleftrightarrow> (\<forall>p \<in> set (db_pcs db). pc_ID p = i \<longrightarrow> pc_State p = PreConsignmentStateInProgress)"

lemma create_workflow_linked:
  assumes "wf_ID w = i" and "wf_Status w = WorkflowStatusInProgress"
  shows "triple (\<lambda>db. linked {i} {i} db \<and> begun i db) (create_workflow env w) (\<lambda>_ db. linked {} {} db \<and> begun i db) (\<lambda>_. True)"
  unfolding create_workflow_def
proof (rule triple_db_call)
  fix db :: "'a DomainDB_scheme" and v db'
  assume db: "linked {i} {i} db \<and> begun i db"
    and run: "(if wf_ID w \<in> set (map wf_ID (db_workflows db))
        then (Err (External ''duplicate key value violates unique constraint''), db)
        else (Ok (), db\<lparr>db_workflows := db_workflows db @ [w]\<rparr>)) = (Ok v, db')"
  then have new: "\<forall>r \<in> set (db_workflows db). wf_ID r \<noteq> i" and db': "db' = db\<lparr>db_workflows := db_workflows db @ [w]\<rparr>"
    using assms(1) by (auto simp: image_iff split: if_splits)
  have "agrees w p" if "p \<in> set (db_pcs db)" "pc_ID p = i" for p
    using that db assms(2) by (auto simp: begun_def agrees_def)
  then show "linked {} {} db' \<and> begun i db'"
    using db new assms(1) unfolding db' by (fastforce simp: linked_def begun_def)
qed (simp add: node_only_def linked_def begun_def)

lemma save_begun:
  assumes "wf_ID w = i" and "wf_Status w = WorkflowStatusInProgress"
  shows "triple (\<lambda>db. linked {} {} db \<and> begun i db) (save_workflow env w) (\<lambda>_. linked {} {}) (\<lambda>_. True)"
  by (rule save_agreeing) (use assms in \<open>auto simp: node_only_def linked_def begun_def agrees_def\<close>)

lemma start_linked:
  assumes "i \<noteq> ''''" and "quiet_tasks m"
  shows "triple (\<lambda>db. linked {i} {i} db \<and> begun i db) (start_instance env m i ts ctx) (\<lambda>_. linked {} {}) (\<lambda>_. True)"
proof -
  let ?B = "\<lambda>db. linked {} {} db \<and> begun i db"
  let ?w = "\<lparr>wf_ID = i, wf_Status = WorkflowStatusInProgress, wf_GlobalContext = Some ctx, wf_EndNodeID = None\<rparr>"
  have B: "node_only ?B" by (simp add: node_only_def linked_def begun_def)
  note reads = keeps_template_reads [OF B, THEN keeps_wrapS] keeps_state_machine(4) [OF B, THEN keeps_wrapS]
  have first: "triple P (\<lambda>db. (Ok (BeforeCreate_workflow env (db_tick db) ?w), db)) (\<lambda>w db. P db \<and> w = ?w) (\<lambda>_. True)" for P
    using assms(1) by (simp add: triple_def BeforeCreate_workflow_def)
  have templates: "keeps ?B (if end_template_ids ts \<noteq> []
      then bindS (wrapS ''failed to get end node template'' [] (GetEndNodeTemplate env)) (\<lambda>e.
        returnS (nts @ [e\<lparr>t_DependsOn := end_template_ids ts\<rparr>])) else returnS nts)" for nts
    by (intro keep reads)
  have saved: "triple ?B (case e of Some e \<Rightarrow>
        (let w' = ?w\<lparr>wf_EndNodeID := Some e\<rparr> in
         bindS (wrapS ''failed to update workflow end node'' [] (save_workflow env w')) (\<lambda>_. returnS w'))
      | None \<Rightarrow> returnS ?w) (\<lambda>_. linked {} {}) (\<lambda>_. True)" for e
    by (cases e) (auto simp: Let_def intro!: triple_returnS triple_bindS [OF triple_wrapS [OF save_begun]])
  have reg: "keeps (linked {} {}) (registerNodesWithTaskManager env m ns c)" for ns c
    by (intro keeps_register [OF node_only_linked] quiet_init assms(2))
  show ?thesis
    unfolding start_instance_def
    apply (rule triple_bindS [OF first], rule triple_fact, simp only:)
    apply (rule triple_bindS [OF triple_wrapS [OF create_workflow_linked]], simp, simp)
    apply (rule triple_bindS [OF triple_keeps [OF reads(2)]])
    apply (rule triple_bindS [OF triple_keeps [OF templates]])
    apply (rule triple_bindS [OF triple_keeps [OF reads(4)]])
    apply (rule triple_prod, rule triple_prod)
    apply (rule triple_bindS [OF saved])
    apply (rule triple_keeps, intro keep reg)
    done
qed

text \<open>A state of the service: the manager has only its callback, and the tables agree.\<close>

definition pc_inv :: "DBEnv \<Rightarrow> 'z DomainDB_scheme WorkflowManager \<times> 'z DomainDB_scheme \<Rightarrow> bool" where
  "pc_inv env s \<longleftrightarrow> pc_manager env (fst s) \<and> linked {} {} (snd s)"

lemma on_db_keeps: "keeps (linked {} {}) op \<Longrightarrow> keeps (pc_inv env) (on_db op)"
  by (auto simp: keeps_def on_db_def pc_inv_def split: prod.splits)

lemma linked_undo:
  "linked fresh busy before \<Longrightarrow> linked fresh busy (undo_tables before after)"
  by (rule iffD2 [OF linked_cong, of _ before]) (simp_all add: undo_tables_def)

lemma create_pc_linked:
  assumes "\<And>t. newUUID env t 0 \<noteq> ''''"
  shows "triple (linked {} {}) (create_pc env traderId templateID)
     (\<lambda>pc db. pc_ID pc \<noteq> '''' \<and> linked {pc_ID pc} {pc_ID pc} db \<and> begun (pc_ID pc) db) (\<lambda>_. True)"
  unfolding create_pc_def Let_def
  by (rule triple_db_call [OF node_only_linked])
    (auto simp: linked_def begun_def assms image_iff split: if_splits)

lemma pc_handler_first:
  "keeps (linked {} {}) (pc_handler env i from WorkflowStatusInProgress w)"
  by (rule callback_keeps_linked) simp

lemma StartWorkflowInstance_inv:
  assumes "StartWorkflowInstance env i ts c (Some (pc_handler env)) (m, db) = (r, (m', db'))"
    and "pc_manager env m" and "i \<noteq> ''''" and "linked {i} {i} db" and "begun i db"
  shows "pc_manager env m'" and "r = Ok () \<Longrightarrow> linked {} {} db'"
proof -
  let ?ctx = "case c of None \<Rightarrow> [] | Some g \<Rightarrow> g"
  let ?m = "m\<lparr>mgr_handlerMap := map_put i (pc_handler env) (mgr_handlerMap m)\<rparr>"
  have m: "pc_manager env ?m"
    using assms(2) by (auto simp: pc_manager_def quiet_tasks_def findHandler_def map_simps split: if_splits)
  obtain r1 db1 where s: "start_instance env m i ts ?ctx db = (r1, db1)" by fastforce
  have quiet: "quiet_tasks m" using assms(2) by (simp add: pc_manager_def)
  have ok: "r1 = Ok w \<Longrightarrow> linked {} {} db1" for w
    using tripleD [OF start_linked [OF assms(3) quiet] _ s] assms(4,5) by simp
  have "pc_manager env m' \<and> (r = Ok () \<longrightarrow> linked {} {} db')"
  proof (cases r1)
    case (Ok w)
    obtain r2 db2 where h: "pc_handler env i '''' WorkflowStatusInProgress w db1 = (r2, db2)" by fastforce
    have "linked {} {} db2" using keepsD [OF pc_handler_first ok [OF Ok] h] .
    with assms(1) s Ok h m show ?thesis by (auto simp: StartWorkflowInstance_def Let_def wrapS_def)
  qed (use assms(1,2) s in \<open>auto simp: StartWorkflowInstance_def Let_def\<close>)
  then show "pc_manager env m'" and "r = Ok () \<Longrightarrow> linked {} {} db'" by blast+
qed

lemma pc_transaction_inv:
  assumes "\<And>t. newUUID env t 0 \<noteq> ''''"
  shows "keeps (pc_inv env) (pc_transaction env templateID traderId wt ctx :: ('z, PreConsignment option) managed)"
  unfolding keeps_def
proof (intro allI impI)
  fix s :: "'z DomainDB_scheme WorkflowManager \<times> 'z DomainDB_scheme" and r s'
  assume inv: "pc_inv env s" and run: "pc_transaction env templateID traderId wt ctx s = (r, s')"
  obtain m db where s: "s = (m, db)" by (cases s)
  have pre: "pc_manager env m" "linked {} {} db" using inv s by (simp_all add: pc_inv_def)
  define body :: "('z, PreConsignment) managed" where "body =
    bindS (wrapS ''failed to create pre-consignment: %w'' [] (on_db (create_pc env traderId templateID))) (\<lambda>pc.
    bindS (wrapS ''failed to register workflow: %w'' []
      (StartWorkflowInstance env (pc_ID pc) [wt] (Some ctx) (Some (pc_handler env)))) (\<lambda>_.
    bindS (wrapS ''failed to commit transaction: %w'' [] (on_db (db_call env (\<lambda>d. (Ok (), d))))) (\<lambda>_.
    returnS pc)))"
  obtain r1 m1 db1 where b: "body (m, db) = (r1, (m1, db1))" by (metis surj_pair)
  have "pc_manager env m1 \<and> (\<forall>pc. r1 = Ok pc \<longrightarrow> linked {} {} db1)"
  proof -
    obtain rc dc where c: "create_pc env traderId templateID db = (rc, dc)" by fastforce
    show ?thesis
    proof (cases rc)
      case (Ok pc)
      have fresh: "pc_ID pc \<noteq> ''''" "linked {pc_ID pc} {pc_ID pc} dc" "begun (pc_ID pc) dc"
        using tripleD [OF create_pc_linked [OF assms] pre(2) c] Ok by simp_all
      obtain rs ms ds where st: "StartWorkflowInstance env (pc_ID pc) [wt] (Some ctx) (Some (pc_handler env)) (m, dc) = (rs, (ms, ds))"
        by (metis surj_pair)
      note started = StartWorkflowInstance_inv [OF st pre(1) fresh]
      have commit: "linked {} {} d'" if "db_call env (\<lambda>d. (Ok (), d)) d = (q, d')" "linked {} {} d" for d d' q
        by (rule keepsD [OF keeps_read [OF node_only_linked, of "{}" "{}" env "\<lambda>_. Ok ()"] that(2,1)])
      show ?thesis
        using b c Ok st started commit
        by (cases rs) (auto simp: body_def bindS_def wrapS_def on_db_def returnS_def split: prod.splits res.splits)
    qed (use b c pre in \<open>auto simp: body_def bindS_def wrapS_def on_db_def\<close>)
  qed
  then show "pc_inv env s'"
    using run linked_undo [OF pre(2)] unfolding pc_transaction_def body_def [symmetric] s
    by (cases r1) (auto simp: b pc_inv_def)
qed

lemma get_pc_keeps: "keeps (linked {} {}) (get_pc env i)"
  unfolding get_pc_def preload_template_def by (intro keep keeps_read node_only_linked)

lemma instance_keeps: "keeps (linked {} {}) (GetWorkflowInstance env i)"
  unfolding GetWorkflowInstance_def by (intro keep keeps_read node_only_linked)

lemma initialize_inv:
  assumes "\<And>t. newUUID env t 0 \<noteq> ''''"
  shows "keeps (pc_inv env) (InitializePreConsignment env req traderId ctx)"
proof -
  have "keeps (linked {} {}) (check_template env templateID traderId)" for templateID
    unfolding check_template_def GetWorkflowTemplateByID_def by (intro keep keeps_read node_only_linked)
  then show ?thesis
    unfolding InitializePreConsignment_def initializePreConsignmentInTx_def
    by (intro keep on_db_keeps pc_transaction_inv [OF assms] get_pc_keeps instance_keeps)
qed

text \<open>The runs of the service and the engine from empty tables.\<close>

inductive pc_reachable :: "DBEnv \<Rightarrow> 'z DomainDB_scheme WorkflowManager \<times> 'z DomainDB_scheme \<Rightarrow> bool" for env where
  start: "pc_reachable env (NewManager\<lparr>mgr_initTaskCallback := cb\<rparr>, db)"
    if "quiet_tasks (NewManager\<lparr>mgr_initTaskCallback := cb\<rparr>)" and "db_pcs db = []" and "db_workflows db = []"
| initialize: "pc_reachable env s'"
    if "pc_reachable env s" and "InitializePreConsignment env req traderId ctx s = (r, s')"
| update: "pc_reachable env (m, db')"
    if "pc_reachable env (m, db)" and "HandleTaskUpdate env m update db = (r, db')"

lemma reachable_inv:
  assumes "pc_reachable env s" and "\<And>t. newUUID env t 0 \<noteq> ''''"
  shows "pc_inv env s"
  using assms(1)
proof (induction rule: pc_reachable.induct)
  case (start cb db)
  then show ?case by (simp add: pc_inv_def pc_manager_def NewManager_def findHandler_def linked_def)
next
  case (initialize s req traderId ctx r s')
  show ?case by (rule keepsD [OF initialize_inv [OF assms(2)] initialize.IH initialize.hyps(2)])
next
  case (update m db upd r db')
  then have "pc_manager env m" "linked {} {} db" by (simp_all add: pc_inv_def)
  with keepsD [OF update_keeps_linked _ update.hyps(2)] show ?case by (simp add: pc_inv_def)
qed

section \<open>Completed with its workflow only\<close>

text \<open>
  Of the completed rows: all among \<open>D\<close>, those completed before; and those that are not
  among \<open>D\<close> earned, with a workflow that is completed now.
\<close>

definition known :: "string set \<Rightarrow> 'z DomainDB_scheme \<Rightarrow> bool" where
  "known D db \<longleftrightarrow> (\<forall>p \<in> set (db_pcs db). pc_State p = PreConsignmentStateCompleted \<longrightarrow> pc_ID p \<in> D)"

definition workflow_done :: "string \<Rightarrow> 'z DomainDB_scheme \<Rightarrow> bool" where
  "workflow_done i db \<longleftrightarrow> (\<forall>w \<in> set (db_workflows db). wf_ID w = i \<longrightarrow> wf_Status w = WorkflowStatusCompleted)"

definition earned :: "string set \<Rightarrow> 'z DomainDB_scheme \<Rightarrow> bool" where
  "earned D db \<longleftrightarrow> (\<forall>p \<in> set (db_pcs db). pc_State p = PreConsignmentStateCompleted \<longrightarrow> pc_ID p \<in> D \<or> workflow_done (pc_ID p) db)"

lemma known_earned: "known D db \<Longrightarrow> earned D db"
  by (simp add: known_def earned_def)

lemma node_only_known: "node_only (known D)" "node_only (earned D)" "node_only (\<lambda>db. known D db \<and> workflow_done i db)"
  by (simp_all add: node_only_def known_def earned_def workflow_done_def)

lemma keeps_rows:
  assumes "\<And>db. db_pcs (snd (stmt db)) = db_pcs db"
  shows "keeps (known D) (db_call env stmt)"
proof (rule keeps_db_call [OF node_only_known(1)])
  have "known D db'" if "known D db" "stmt db = (r, db')" for db r db'
    using that assms [of db] by (simp add: known_def)
  then show "keeps (known D) stmt" by (auto simp: keeps_def)
qed

lemma save_keeps_known: "keeps (known D) (save_workflow env w)" "keeps (known D) (create_workflow env w)"
  unfolding save_workflow_def create_workflow_def by (rule keeps_rows; simp)+

lemma callback_keeps_known:
  assumes "to \<noteq> WorkflowStatusCompleted"
  shows "keeps (known D) (pc_handler env i from to w)"
  unfolding pc_handler_def pc_OnWorkflowStatusChanged_def using assms
  by (auto intro!: keep keeps_read node_only_known)

lemma callback_earns:
  "triple (\<lambda>db. known D db \<and> workflow_done i db) (pc_handler env i from WorkflowStatusCompleted w) (\<lambda>_. earned D) (\<lambda>_. True)"
  (is "triple ?P _ _ _")
proof -
  have Q: "node_only (\<lambda>db. ?P db \<and> pc_ID p = i)" for p by (simp add: node_only_def known_def workflow_done_def)
  have "triple ?P (db_call env (\<lambda>db. (db_first (\<lambda>p. pc_ID p = i) (db_pcs db), db))) (\<lambda>p db. ?P db \<and> pc_ID p = i) (\<lambda>_. True)"
    by (rule triple_db_call [OF node_only_known(3)]) (auto dest: db_first_Ok)
  moreover have "triple (\<lambda>db. ?P db \<and> pc_ID p = i) (save_pc env (p\<lparr>pc_State := PreConsignmentStateCompleted\<rparr>)) (\<lambda>_. earned D) (\<lambda>_. True)"
    for p unfolding save_pc_def
    by (rule triple_db_call [OF Q]) (auto simp: known_def earned_def workflow_done_def update_where_def)
  ultimately show ?thesis
    unfolding pc_handler_def pc_OnWorkflowStatusChanged_def syncTraderContextToAuth_def simp_thms if_True option.case
    by (intro triple_bindS triple_wrapS) (auto intro: triple_returnS)
qed

lemma change_status_earns:
  assumes "wf_ID w = i"
  shows "triple (known D) (change_status env m1 m2 (pc_handler env) i status w) (\<lambda>_. earned D) (\<lambda>_. True)"
proof (cases "status = WorkflowStatusCompleted")
  case True
  have "triple (known D) (save_workflow env (w\<lparr>wf_Status := status\<rparr>)) (\<lambda>_ db. known D db \<and> workflow_done i db) (\<lambda>_. True)"
    unfolding save_workflow_def
    by (rule triple_db_call [OF node_only_known(1)]) (auto simp: True assms known_def workflow_done_def update_where_def)
  then show ?thesis
    unfolding change_status_def True by (rule triple_bindS [OF triple_wrapS triple_wrapS [OF callback_earns]])
next
  case False
  then show ?thesis
    unfolding change_status_def
    by (intro triple_bindS [OF triple_wrapS [OF triple_keeps [OF save_keeps_known(1)]]] triple_wrapS
        triple_conseq [OF triple_keeps [OF callback_keeps_known]]) (auto intro: known_earned)
qed

lemma append_context_known:
  "triple (known D) (append_context env req w) (\<lambda>w' db. known D db \<and> wf_ID w' = wf_ID w) (\<lambda>_. True)"
  by (auto simp: append_context_def Let_def intro!: triple_returnS triple_bindS [OF triple_wrapS [OF triple_keeps [OF save_keeps_known(1)]]])

lemma transition_earns:
  "triple (known D) (transition_body env i req (pc_handler env)) (\<lambda>_. earned D) (\<lambda>_. True)"
proof -
  note kept = keeps_node_service(1) [OF node_only_known(1)] keeps_state_machine(1-3) [OF node_only_known(1)]
  note run = kept [THEN triple_keeps, THEN triple_wrapS, THEN triple_bindS]
  have load: "triple (known D) (db_call env (\<lambda>db. (db_first (\<lambda>w. wf_ID w = i) (db_workflows db), db)))
      (\<lambda>w db. known D db \<and> wf_ID w = i) (\<lambda>_. True)"
    by (rule triple_db_call [OF node_only_known(1)]) (auto dest: db_first_Ok)
  show ?thesis
    unfolding transition_body_def
    apply (rule triple_bindS [OF triple_wrapS [OF load]], rule triple_fact)
    apply (rule triple_bindS [OF append_context_known], rule triple_fact)
    apply (rule run(1), rule triple_bindS [where R = "\<lambda>_. earned D"])
    subgoal
      by (cases "u_State req") (auto intro!: run(2-4) triple_bindS [OF change_status_earns] triple_returnS known_earned)
    subgoal by (simp add: triple_returnS)
    done
qed

text \<open>A transaction that fails undoes what it did.\<close>

lemma transaction_earns:
  assumes body: "triple (known D) body (\<lambda>_. earned D) (\<lambda>_. True)"
  shows "triple (known D) (in_transaction env zero body) (\<lambda>_. earned D) (earned D)"
proof (rule tripleI)
  fix s :: "'a DomainDB_scheme" and r s'
  assume s: "known D s" and run: "in_transaction env zero body s = (r, s')"
  obtain r1 s1 where b: "body s = (r1, s1)" by (cases "body s")
  have undone: "earned D (rollback s t)" for t
    using s by (intro known_earned) (simp add: rollback_def known_def)
  have commit: "earned D t" if "earned D s1" "db_call env (\<lambda>d. (Ok (), d)) s1 = (q, t)" for q t
    using that by (auto simp: db_call_def earned_def workflow_done_def Let_def split: option.splits)
  have "r1 = Ok v \<Longrightarrow> earned D s1" for v using tripleD [OF body s b] by simp
  then show "(\<forall>v. r = Ok v \<longrightarrow> earned D s') \<and> (\<not> is_ok r \<longrightarrow> earned D s')"
    using run undone commit by (auto simp: in_transaction_def b wrapS_iff split: res.splits prod.splits)
qed

lemma quiet_rows: "quiet_tasks m \<Longrightarrow> init_keeps (known D) m" "quiet_tasks m \<Longrightarrow> init_keeps (earned D) m"
  unfolding quiet_tasks_def init_keeps_def keeps_def known_def earned_def workflow_done_def by metis+

lemma keeps_weaken: "keeps I m \<Longrightarrow> (\<And>s. I s \<Longrightarrow> J s) \<Longrightarrow> triple I m (\<lambda>_. I) J"
  unfolding keeps_triple by (erule triple_conseq) simp_all

lemma update_earns:
  assumes "pc_manager env m"
  shows "triple (known D) (HandleTaskUpdate env m update) (\<lambda>_. earned D) (earned D)"
proof -
  note weak = known_earned [of D]
  have reg: "triple (earned D) (registerNodesWithTaskManager env m ns c) (\<lambda>_. earned D) (earned D)" for ns c
    unfolding keeps_triple [symmetric]
    using assms by (intro keeps_register [OF node_only_known(2)] quiet_rows(2)) (simp add: pc_manager_def)
  have step: "triple (known D) (processStateTransition env n req h) (\<lambda>_. earned D) (earned D)" if "findHandler m i = Some h" for n req h i
  proof -
    have "h = pc_handler env" using assms that by (auto simp: pc_manager_def)
    then show ?thesis by (simp only: processStateTransition_def transaction_earns [OF transition_earns])
  qed
  show ?thesis
    unfolding HandleTaskUpdate_def Let_def
    apply (rule triple_option, rule triple_failS, erule weak)
    apply (rule triple_bindS [OF triple_wrapS [OF keeps_weaken [OF keeps_liftS weak]]], assumption)
    apply (rule triple_bindS [OF triple_wrapS [OF keeps_weaken [OF keeps_node_service(1) [OF node_only_known(1)] weak]]], assumption)
    apply (rule triple_option, rule triple_failS, erule weak)
    apply (rule triple_bindS [OF triple_wrapS [OF step]], assumption)
    apply (auto intro!: triple_wrapS reg triple_returnS split: prod.splits)
    done
qed

text \<open>An initialization completes nothing.\<close>

definition known_state :: "string set \<Rightarrow> 'z DomainDB_scheme WorkflowManager \<times> 'z DomainDB_scheme \<Rightarrow> bool" where
  "known_state D s \<longleftrightarrow> quiet_tasks (fst s) \<and> known D (snd s)"

lemma on_db_known: "keeps (known D) op \<Longrightarrow> keeps (known_state D) (on_db op)"
  by (auto simp: keeps_def on_db_def known_state_def split: prod.splits)

lemma start_known:
  assumes "quiet_tasks m"
  shows "keeps (known D) (start_instance env m i ts ctx)"
proof -
  note N = node_only_known(1)
  have "keeps (known D) (registerNodesWithTaskManager env m ns c)" for ns c
    by (intro keeps_register [OF N] quiet_rows(1) assms)
  moreover have "keeps (known D) (\<lambda>db. (Ok (f db), db))" for f :: "'a DomainDB_scheme \<Rightarrow> Workflow" by (simp add: keeps_def)
  ultimately show ?thesis
    unfolding start_instance_def Let_def
    by (intro keep save_keeps_known keeps_template_reads [OF N] keeps_state_machine(4) [OF N])
qed

lemma StartWorkflowInstance_known: "keeps (known_state D) (StartWorkflowInstance env i ts c (Some (pc_handler env)))"
  unfolding keeps_def
proof (intro allI impI)
  fix s :: "'a DomainDB_scheme WorkflowManager \<times> 'a DomainDB_scheme" and r s'
  assume s: "known_state D s" and run: "StartWorkflowInstance env i ts c (Some (pc_handler env)) s = (r, s')"
  obtain m db where sm: "s = (m, db)" by (cases s)
  obtain r1 db1 where st: "start_instance env m i ts (case c of None \<Rightarrow> [] | Some g \<Rightarrow> g) db = (r1, db1)" by fastforce
  have m: "quiet_tasks m" "quiet_tasks (m\<lparr>mgr_handlerMap := h\<rparr>)" for h using s sm by (simp_all add: known_state_def quiet_tasks_def)
  have db1: "known D db1" using keepsD [OF start_known [OF m(1)] _ st] s sm by (simp add: known_state_def)
  have cb: "known D db2" if "wrapS a b (pc_handler env i '''' WorkflowStatusInProgress w) db1 = (q, db2)" for a b w q db2
    by (rule keepsD [OF keeps_wrapS [OF callback_keeps_known] db1 that]) simp
  show "known_state D s'"
    using run st m db1 cb
    by (cases r1) (auto simp: StartWorkflowInstance_def sm Let_def known_state_def split: prod.splits)
qed

lemma initialize_known: "keeps (known_state D) (InitializePreConsignment env req traderId ctx)"
proof -
  note N = node_only_known(1)
  have create: "keeps (known D) (create_pc env traderId templateID)" for templateID
    unfolding create_pc_def by (rule keeps_db_call [OF N]) (auto simp: keeps_def known_def Let_def split: if_splits)
  have "keeps (known_state D) (pc_transaction env templateID traderId wt c :: ('z, PreConsignment option) managed)" for templateID wt c
    unfolding keeps_def
  proof (intro allI impI)
    fix s :: "'z DomainDB_scheme WorkflowManager \<times> 'z DomainDB_scheme" and r s'
    assume s: "known_state D s" and run: "pc_transaction env templateID traderId wt c s = (r, s')"
    define body :: "('z, PreConsignment) managed" where "body =
      bindS (wrapS ''failed to create pre-consignment: %w'' [] (on_db (create_pc env traderId templateID))) (\<lambda>pc.
      bindS (wrapS ''failed to register workflow: %w'' []
        (StartWorkflowInstance env (pc_ID pc) [wt] (Some c) (Some (pc_handler env)))) (\<lambda>_.
      bindS (wrapS ''failed to commit transaction: %w'' [] (on_db (db_call env (\<lambda>d. (Ok (), d))))) (\<lambda>_.
      returnS pc)))"
    have kept: "keeps (known_state D) body"
      unfolding body_def by (intro keep on_db_known create StartWorkflowInstance_known keeps_read N)
    obtain r1 m1 db1 where b: "body s = (r1, (m1, db1))" by (metis surj_pair)
    have "known_state D (m1, db1)" by (rule keepsD [OF kept s b])
    then show "known_state D s'"
      using run s unfolding pc_transaction_def body_def [symmetric]
      by (cases r1) (auto simp: b known_state_def undo_tables_def known_def)
  qed
  moreover have "keeps (known D) (check_template env templateID traderId)" for templateID
    unfolding check_template_def GetWorkflowTemplateByID_def by (intro keep keeps_read N)
  moreover have "keeps (known D) (get_pc env i)" "keeps (known D) (GetWorkflowInstance env i)" for i
    unfolding get_pc_def preload_template_def GetWorkflowInstance_def by (intro keep keeps_read N)+
  ultimately show ?thesis
    unfolding InitializePreConsignment_def initializePreConsignmentInTx_def by (intro keep on_db_known)
qed

text \<open>One operation of the service or of the engine, whatever it returns.\<close>

inductive pc_step :: "DBEnv \<Rightarrow> 'z DomainDB_scheme WorkflowManager \<times> 'z DomainDB_scheme
    \<Rightarrow> 'z DomainDB_scheme WorkflowManager \<times> 'z DomainDB_scheme \<Rightarrow> bool" for env where
  initialize: "pc_step env s s'" if "InitializePreConsignment env req traderId ctx s = (r, s')"
| update: "pc_step env (m, db) (m, db')" if "HandleTaskUpdate env m update db = (r, db')"

lemma pc_step_reachable: "pc_step env s s' \<Longrightarrow> pc_reachable env s \<Longrightarrow> pc_reachable env s'"
  by (induction rule: pc_step.induct) (blast intro: pc_reachable.intros)+

lemma pc_step_earns:
  assumes "pc_step env s s'" and "pc_manager env (fst s)" and "known D (snd s)"
  shows "earned D (snd s')"
  using assms(1)
proof (cases rule: pc_step.cases)
  case (initialize req traderId ctx r)
  have "known_state D s" using assms(2,3) by (simp add: known_state_def pc_manager_def)
  from keepsD [OF initialize_known this initialize] show ?thesis by (simp add: known_state_def known_earned)
next
  case update
  then show ?thesis using assms(2,3) tripleD [OF update_earns [of env "fst s" D]] by (auto simp: is_ok_iff)
qed

section \<open>The two gates\<close>

text \<open>One pre-consignment per template: what the map of the list presumes.\<close>

definition one_each :: "string \<Rightarrow> PreConsignment list \<Rightarrow> bool" where
  "one_each traderId pcs \<longleftrightarrow> distinct (map pc_TemplateID (filter (\<lambda>p. pc_TraderID p = traderId) pcs))"

lemma by_template_Some:
  assumes "distinct (map pc_TemplateID pcs)"
  shows "by_template pcs d = Some p \<longleftrightarrow> p \<in> set pcs \<and> pc_TemplateID p = d"
proof -
  let ?kv = "rev (map (\<lambda>p. (pc_TemplateID p, p)) pcs)"
  have "map fst ?kv = rev (map pc_TemplateID pcs)" by (simp add: rev_map comp_def)
  with assms have "distinct (map fst ?kv)" by (simp only: distinct_rev)
  then show ?thesis unfolding by_template_def by (auto simp: map_of_eq_Some_iff)
qed

lemma distinct_db_find:
  assumes "one_each traderId pcs"
  shows "distinct (map pc_TemplateID (db_find env t pc_ID (\<lambda>p. pc_TraderID p = traderId) pcs))"
proof -
  have "mset (map pc_TemplateID (db_find env t pc_ID (\<lambda>p. pc_TraderID p = traderId) pcs))
      = mset (map pc_TemplateID (filter (\<lambda>p. pc_TraderID p = traderId) pcs))"
    by (simp only: mset_map mset_db_find)
  then show ?thesis using assms unfolding one_each_def by (metis mset_eq_imp_distinct_iff)
qed

definition completed_for :: "string \<Rightarrow> PreConsignment list \<Rightarrow> string \<Rightarrow> bool" where
  "completed_for traderId pcs d \<longleftrightarrow>
     (\<exists>p \<in> set pcs. pc_TraderID p = traderId \<and> pc_TemplateID p = d \<and> pc_State p = PreConsignmentStateCompleted)"

lemma dependency_met_iff:
  assumes "one_each traderId pcs"
  shows "dependency_met (db_find env t pc_ID (\<lambda>p. pc_TraderID p = traderId) pcs) d \<longleftrightarrow> completed_for traderId pcs d"
proof -
  let ?ps = "db_find env t pc_ID (\<lambda>p. pc_TraderID p = traderId) pcs"
  have set: "p \<in> set ?ps \<longleftrightarrow> p \<in> set pcs \<and> pc_TraderID p = traderId" for p by (auto simp: db_find_def)
  note found = by_template_Some [OF distinct_db_find [OF assms, of env t], of d]
  show ?thesis
  proof (cases "by_template ?ps d")
    case None
    then have "\<not> (p \<in> set pcs \<and> pc_TraderID p = traderId \<and> pc_TemplateID p = d)" for p
      using found [of p] set by auto
    with None show ?thesis by (auto simp: dependency_met_def completed_for_def)
  next
    case (Some p)
    have "q = p" if "q \<in> set pcs" "pc_TraderID q = traderId" "pc_TemplateID q = d" for q
      using found [of q] set that Some by auto
    moreover have "p \<in> set pcs \<and> pc_TraderID p = traderId \<and> pc_TemplateID p = d"
      using found [of p] set Some by auto
    ultimately show ?thesis using Some unfolding dependency_met_def completed_for_def by auto
  qed
qed

text \<open>The number of completed rows reaches that of the dependencies exactly when each has one.\<close>

lemma completed_count:
  assumes "one_each traderId pcs" and "distinct ds"
  shows "length ds \<le> length (completed_deps traderId ds pcs) \<longleftrightarrow> list_all (completed_for traderId pcs) ds"
proof -
  let ?c = "completed_deps traderId ds pcs"
  have "?c = filter (\<lambda>p. pc_TemplateID p \<in> set ds \<and> pc_State p = PreConsignmentStateCompleted)
      (filter (\<lambda>p. pc_TraderID p = traderId) pcs)"
    by (simp add: completed_deps_def conj_commute conj_left_commute)
  then have dist: "distinct (map pc_TemplateID ?c)"
    using assms(1) unfolding one_each_def by (simp only: distinct_map_filter)
  have set: "set (map pc_TemplateID ?c) = {d \<in> set ds. completed_for traderId pcs d}"
    by (auto simp: completed_deps_def completed_for_def)
  have "length ?c = card {d \<in> set ds. completed_for traderId pcs d}"
    using distinct_card [OF dist] set by simp
  moreover have "length ds = card (set ds)" using assms(2) by (simp add: distinct_card)
  moreover have "card (set ds) \<le> card {d \<in> set ds. completed_for traderId pcs d}
      \<longleftrightarrow> {d \<in> set ds. completed_for traderId pcs d} = set ds"
    using card_seteq [of "set ds" "{d \<in> set ds. completed_for traderId pcs d}"] by auto
  ultimately show ?thesis by (auto simp: list_all_iff)
qed

lemma check_template_runs:
  assumes "\<And>t. dbFault env t = None" and "List.find (\<lambda>t. pct_ID t = templateID) (db_pc_templates db) = Some t"
    and "List.find (\<lambda>w. wt_ID w = pct_WorkflowTemplateID t) (db_workflow_templates db) = Some w"
  shows "fst (check_template env templateID traderId db) =
     (if length (completed_deps traderId (deps t) (db_pcs db)) < length (deps t)
      then Err (Errorf ''dependency pre-consignments are not all completed'' []) else Ok w)"
  by (simp add: check_template_def GetWorkflowTemplateByID_def bindS_def wrapS_def db_call_def db_first_def Let_def
      returnS_def failS_def assms)

lemma trader_list_items:
  assumes "GetTraderPreConsignments env traderID offset limit db = (Ok page, db')" and "e \<in> set (lr_Items page)"
  obtains t n where "t \<in> set (db_pc_templates db)" and "db_pcs db' = db_pcs db" and "db_pc_templates db' = db_pc_templates db"
    and "db_workflow_templates db' = db_workflow_templates db"
    and "e = trader_entry (db_find env n pc_ID (\<lambda>p. pc_TraderID p = traderID) (db_pcs db)) t"
proof -
  obtain o' l' where pg: "GetPaginationParams offset limit = (o', l')" by fastforce
  let ?n = "Suc (Suc (Suc (db_tick db)))"
  let ?ts = "db_page o' l' (sort_key pct_Name (db_find env (Suc (Suc (db_tick db))) pct_ID (\<lambda>_. True) (db_pc_templates db)))"
  from assms have items: "lr_Items page = [] \<or> lr_Items page =
      map (trader_entry (db_find env ?n pc_ID (\<lambda>p. pc_TraderID p = traderID) (db_pcs db))) ?ts"
    and same: "db_pcs db' = db_pcs db" "db_pc_templates db' = db_pc_templates db"
      "db_workflow_templates db' = db_workflow_templates db"
    by (auto simp: GetTraderPreConsignments_def pg op_simps db_call_def Let_def split: if_splits option.splits)
  with assms(2) obtain t where "t \<in> set ?ts" "e = trader_entry (db_find env ?n pc_ID (\<lambda>p. pc_TraderID p = traderID) (db_pcs db)) t" by auto
  moreover from this(1) have "t \<in> set (db_pc_templates db)"
    by (fastforce simp: db_page_def db_find_def dest: in_set_takeD in_set_dropD split: if_splits)
  ultimately show thesis using that same by blast
qed

section \<open>Properties\<close>

text \<open>
  C10: a pre-consignment follows its workflow: in every state the service and the engine reach, each
  pre-consignment has one workflow with its id, is in progress or completed, and is completed once that
  workflow is. It becomes completed only with that workflow: after any operation of the service or the engine,
  whatever it returns, a completed pre-consignment was completed before or its workflow is COMPLETED
  now. So one that is completed has a workflow that is completed, or that failed after the completion.
\<close>

theorem pre_consignment_follows_workflow:
  assumes "pc_reachable env (m, db)" and "\<And>t. newUUID env t 0 \<noteq> ''''"
  shows "(\<forall>p \<in> set (db_pcs db). \<exists>w. {w \<in> set (db_workflows db). wf_ID w = pc_ID p} = {w}
      \<and> (pc_State p = PreConsignmentStateInProgress \<or> pc_State p = PreConsignmentStateCompleted)
      \<and> (wf_Status w = WorkflowStatusCompleted \<longrightarrow> pc_State p = PreConsignmentStateCompleted)
      \<and> (pc_State p = PreConsignmentStateCompleted \<longrightarrow> wf_Status w = WorkflowStatusCompleted \<or> wf_Status w = WorkflowStatusFailed))
    \<and> (\<forall>m' db'. pc_step env (m, db) (m', db') \<longrightarrow> (\<forall>p' \<in> set (db_pcs db'). pc_State p' = PreConsignmentStateCompleted \<longrightarrow>
        (\<exists>p \<in> set (db_pcs db). pc_ID p = pc_ID p' \<and> pc_State p = PreConsignmentStateCompleted)
        \<or> (\<exists>w \<in> set (db_workflows db'). wf_ID w = pc_ID p' \<and> wf_Status w = WorkflowStatusCompleted)))"
proof (intro conjI ballI allI impI)
  fix p
  assume p: "p \<in> set (db_pcs db)"
  have linked: "linked {} {} db" using reachable_inv [OF assms] by (simp add: pc_inv_def)
  then obtain w where w: "w \<in> set (db_workflows db)" "wf_ID w = pc_ID p" using p by (auto simp: linked_def)
  have "distinct (map wf_ID (db_workflows db))" using linked by (simp add: linked_def)
  with w have "{w \<in> set (db_workflows db). wf_ID w = pc_ID p} = {w}"
    by (auto simp: distinct_map dest: inj_onD [of wf_ID "set (db_workflows db)" _ w])
  then show "\<exists>w. {w \<in> set (db_workflows db). wf_ID w = pc_ID p} = {w}
      \<and> (pc_State p = PreConsignmentStateInProgress \<or> pc_State p = PreConsignmentStateCompleted)
      \<and> (wf_Status w = WorkflowStatusCompleted \<longrightarrow> pc_State p = PreConsignmentStateCompleted)
      \<and> (pc_State p = PreConsignmentStateCompleted \<longrightarrow> wf_Status w = WorkflowStatusCompleted \<or> wf_Status w = WorkflowStatusFailed)"
    using linked_agrees [OF linked p w] by (auto simp: agrees_def intro!: exI [of _ w])
next
  fix m' db' p'
  assume step: "pc_step env (m, db) (m', db')" and p': "p' \<in> set (db_pcs db')" "pc_State p' = PreConsignmentStateCompleted"
  let ?D = "{pc_ID p | p. p \<in> set (db_pcs db) \<and> pc_State p = PreConsignmentStateCompleted}"
  have "pc_manager env m" using reachable_inv [OF assms] by (simp add: pc_inv_def)
  moreover have "known ?D db" by (auto simp: known_def)
  ultimately have "earned ?D db'" using pc_step_earns [OF step, of ?D] by simp
  with p' have "(\<exists>p \<in> set (db_pcs db). pc_ID p = pc_ID p' \<and> pc_State p = PreConsignmentStateCompleted) \<or> workflow_done (pc_ID p') db'"
    unfolding earned_def mem_Collect_eq by metis
  moreover have "linked {} {} db'"
    using reachable_inv [OF pc_step_reachable [OF step assms(1)] assms(2)] by (simp add: pc_inv_def)
  then obtain w where "w \<in> set (db_workflows db')" "wf_ID w = pc_ID p'" using p' by (auto simp: linked_def)
  ultimately show "(\<exists>p \<in> set (db_pcs db). pc_ID p = pc_ID p' \<and> pc_State p = PreConsignmentStateCompleted)
      \<or> (\<exists>w \<in> set (db_workflows db'). wf_ID w = pc_ID p' \<and> wf_Status w = WorkflowStatusCompleted)"
    by (auto simp: workflow_done_def)
qed

text \<open>
  C30: the two gates agree when the database answers, the trader has at most one pre-consignment per template, the
  ids of the templates and the dependencies of each are distinct and their workflow templates exist: an entry the
  trader's list shows without a pre-consignment is READY exactly when the checks of the initialization
  let the trader begin it. (With two pre-consignments of one template they disagree, see below.)
\<close>

theorem listed_ready_iff_startable:
  assumes "\<And>t. dbFault env t = None" and "distinct (map pct_ID (db_pc_templates db))"
    and "one_each traderID (db_pcs db)"
    and "\<And>t. t \<in> set (db_pc_templates db) \<Longrightarrow> distinct (deps t)"
    and "\<And>t. t \<in> set (db_pc_templates db) \<Longrightarrow> pct_WorkflowTemplateID t \<in> set (map wt_ID (db_workflow_templates db))"
    and "GetTraderPreConsignments env traderID offset limit db = (Ok page, db')"
    and "e \<in> set (lr_Items page)" and "td_PreConsignment e = None"
  shows "td_State e = PreConsignmentStateReady \<longleftrightarrow> is_ok (fst (check_template env (td_ID e) traderID db'))"
proof -
  obtain t n where t: "t \<in> set (db_pc_templates db)" and same: "db_pcs db' = db_pcs db"
    "db_pc_templates db' = db_pc_templates db" "db_workflow_templates db' = db_workflow_templates db"
    and e: "e = trader_entry (db_find env n pc_ID (\<lambda>p. pc_TraderID p = traderID) (db_pcs db)) t"
    by (rule trader_list_items [OF assms(6,7)])
  have none: "by_template (db_find env n pc_ID (\<lambda>p. pc_TraderID p = traderID) (db_pcs db)) (pct_ID t) = None"
    using assms(8) e by (auto simp: trader_entry_def split: option.splits)
  have found: "List.find (\<lambda>x. pct_ID x = td_ID e) (db_pc_templates db') = Some t"
    using find_key_unique [OF assms(2) t] by (simp add: same e trader_entry_def none)
  have "List.find (\<lambda>w. wt_ID w = pct_WorkflowTemplateID t) (db_workflow_templates db') \<noteq> None"
    using assms(5) [OF t] by (auto simp: same find_None_all)
  then obtain w where "List.find (\<lambda>w. wt_ID w = pct_WorkflowTemplateID t) (db_workflow_templates db') = Some w"
    by blast
  from check_template_runs [OF assms(1) found this, of traderID]
  have "is_ok (fst (check_template env (td_ID e) traderID db')) \<longleftrightarrow>
      length (deps t) \<le> length (completed_deps traderID (deps t) (db_pcs db))"
    by (auto simp: same)
  also have "\<dots> \<longleftrightarrow> list_all (completed_for traderID (db_pcs db)) (deps t)"
    by (rule completed_count [OF assms(3) assms(4) [OF t]])
  also have "\<dots> \<longleftrightarrow> td_State e = PreConsignmentStateReady"
    by (simp add: e trader_entry_def none list_all_iff dependency_met_iff [OF assms(3)])
  finally show ?thesis by simp
qed

text \<open>
  the gate of the initialization counts rows, not dependencies: as many completed
  pre-consignments of a single dependency as the template has dependencies let the trader begin it,
  even when none of the other dependencies was ever begun.
\<close>

theorem repetition_opens_the_gate:
  assumes "\<And>t. dbFault env t = None" and "List.find (\<lambda>t. pct_ID t = templateID) (db_pc_templates db) = Some t"
    and "List.find (\<lambda>w. wt_ID w = pct_WorkflowTemplateID t) (db_workflow_templates db) = Some w" and "d \<in> set (deps t)"
    and "length (deps t) \<le> length (filter (\<lambda>p. pc_TraderID p = traderID \<and> pc_TemplateID p = d
           \<and> pc_State p = PreConsignmentStateCompleted) (db_pcs db))"
  shows "fst (check_template env templateID traderID db) = Ok w"
proof -
  have "length (filter (\<lambda>p. pc_TraderID p = traderID \<and> pc_TemplateID p = d \<and> pc_State p = PreConsignmentStateCompleted) ps)
      \<le> length (completed_deps traderID (deps t) ps)" for ps
    using assms(4) by (induction ps) (auto simp: completed_deps_def)
  from this [of "db_pcs db"] assms(5) show ?thesis by (simp add: check_template_runs [OF assms(1-3)])
qed

section \<open>Witnesses\<close>

text \<open>A template of one form with no dependencies, and one that depends on it.\<close>

definition pc_env :: DBEnv where
  "pc_env = \<lparr>dbFault = (\<lambda>_. None), newUUID = (\<lambda>t i. ''id-'' @ show_nat t @ show_nat i), rowRank = (\<lambda>_ _. 0)\<rparr>"

definition pc_demo_db :: DomainDB where
  "pc_demo_db =
     \<lparr>db_nodes = [], db_workflows = [],
      db_node_templates = [\<lparr>t_ID = ''form'', t_Name = ''Form'', t_Type = ''SIMPLE_FORM'', t_Config = None, t_DependsOn = [],
        t_UnlockConfiguration = None\<rparr>], db_tick = 0,
      db_workflow_templates = [\<lparr>wt_ID = ''w'', wt_NodeTemplates = [''form''], wt_EndNodeTemplateID = None\<rparr>],
      db_pc_templates =
        [\<lparr>pct_ID = ''licence'', pct_Name = ''Licence'', pct_Description = [], pct_WorkflowTemplateID = ''w'', pct_DependsOn = None\<rparr>,
         \<lparr>pct_ID = ''permit'', pct_Name = ''Permit'', pct_Description = [], pct_WorkflowTemplateID = ''w'',
          pct_DependsOn = Some [''licence'']\<rparr>],
      db_pcs = []\<rparr>"

definition pc_demo_manager :: "DomainDB WorkflowManager" where
  "pc_demo_manager = NewManager\<lparr>mgr_initTaskCallback :=
     Some (\<lambda>req. returnS \<lparr>itr_Success = True, itr_Result = JNull, itr_Error = []\<rparr>)\<rparr>"

definition pc_begun :: "DomainDB WorkflowManager \<times> DomainDB" where
  "pc_begun = snd (InitializePreConsignment pc_env (Some ''licence'') ''trader'' None (pc_demo_manager, pc_demo_db))"

definition pc_done :: DomainDB where
  "pc_done = snd (HandleTaskUpdate pc_env (fst pc_begun)
     \<lparr>wn_TaskID = n_ID (hd (db_nodes (snd pc_begun))), wn_UpdatedState = Some Completed, wn_AppendGlobalContext = [],
      wn_ExtendedState = None, wn_Outcome = None\<rparr> (snd pc_begun))"

lemma pc_done_rows: "map (\<lambda>p. (pc_TemplateID p, pc_State p)) (db_pcs pc_done) = [(''licence'', ''COMPLETED'')]"
  by code_simp

lemma pc_env_ids: "newUUID pc_env t i \<noteq> ''''"
  by (simp add: pc_env_def)

lemma pc_begun_reachable: "pc_reachable pc_env (fst pc_begun, snd pc_begun)"
proof -
  have quiet: "quiet_tasks pc_demo_manager" by (simp add: quiet_tasks_def pc_demo_manager_def returnS_def)
  have "pc_reachable pc_env (pc_demo_manager, pc_demo_db)"
    using quiet unfolding pc_demo_manager_def by (rule pc_reachable.start) (simp_all add: pc_demo_db_def)
  then have "pc_reachable pc_env pc_begun"
    unfolding pc_begun_def by (rule pc_reachable.initialize) (rule prod.collapse [symmetric])
  then show ?thesis by simp
qed

lemma pc_done_step: "pc_step pc_env (fst pc_begun, snd pc_begun) (fst pc_begun, pc_done)"
  unfolding pc_done_def by (rule pc_step.update) (rule prod.collapse [symmetric])

lemma pc_begun_rows: "map pc_State (db_pcs (snd pc_begun)) = [''IN_PROGRESS'']"
  by code_simp

theorem pre_consignment_follows_workflow_witness:
  "\<exists>p w. db_pcs pc_done = [p] \<and> {w \<in> set (db_workflows pc_done). wf_ID w = pc_ID p} = {w}
     \<and> pc_State p = PreConsignmentStateCompleted
     \<and> (\<exists>w \<in> set (db_workflows pc_done). wf_ID w = pc_ID p \<and> wf_Status w = WorkflowStatusCompleted)"
proof -
  obtain p where p: "db_pcs pc_done = [p]" and fin: "pc_State p = PreConsignmentStateCompleted"
    using pc_done_rows by (cases "db_pcs pc_done") auto
  have "\<not> (\<exists>q \<in> set (db_pcs (snd pc_begun)). pc_State q = PreConsignmentStateCompleted)"
    using pc_begun_rows by (cases "db_pcs (snd pc_begun)") auto
  then have "\<exists>w \<in> set (db_workflows pc_done). wf_ID w = pc_ID p \<and> wf_Status w = WorkflowStatusCompleted"
    using pre_consignment_follows_workflow [OF pc_begun_reachable pc_env_ids] pc_done_step p fin by fastforce
  moreover have "\<exists>w. {w \<in> set (db_workflows pc_done). wf_ID w = pc_ID p} = {w}"
    using pre_consignment_follows_workflow [OF pc_step_reachable [OF pc_done_step pc_begun_reachable] pc_env_ids] p by auto
  ultimately show ?thesis using p fin by auto
qed

definition pc_page :: "TraderPreConsignmentResponseDTO ListResult res \<times> DomainDB" where
  "pc_page = GetTraderPreConsignments pc_env ''trader'' None None pc_done"

lemma pc_page_ok:
  "(case fst pc_page of Ok page \<Rightarrow> map (\<lambda>e. (td_ID e, td_State e, td_PreConsignment e = None)) (lr_Items page) | _ \<Rightarrow> [])
   = [(''licence'', ''COMPLETED'', False), (''permit'', ''READY'', True)]"
  by code_simp

lemma pc_done_tables:
  "map pct_ID (db_pc_templates pc_done) = [''licence'', ''permit'']"
  "map deps (db_pc_templates pc_done) = [[], [''licence'']]"
  "map pct_WorkflowTemplateID (db_pc_templates pc_done) = [''w'', ''w'']"
  "map wt_ID (db_workflow_templates pc_done) = [''w'']"
  by code_simp+

theorem listed_ready_iff_startable_witness:
  "\<exists>page db' e. GetTraderPreConsignments pc_env ''trader'' None None pc_done = (Ok page, db') \<and> e \<in> set (lr_Items page)
     \<and> td_ID e = ''permit'' \<and> is_ok (fst (check_template pc_env ''permit'' ''trader'' db'))"
proof -
  obtain r db' where run: "GetTraderPreConsignments pc_env ''trader'' None None pc_done = (r, db')" by fastforce
  with pc_page_ok obtain page where page: "r = Ok page"
    "map (\<lambda>e. (td_ID e, td_State e, td_PreConsignment e = None)) (lr_Items page)
      = [(''licence'', ''COMPLETED'', False), (''permit'', ''READY'', True)]"
    by (cases r) (auto simp: pc_page_def)
  then obtain e where e: "e \<in> set (lr_Items page)" "td_ID e = ''permit''" "td_State e = ''READY''" "td_PreConsignment e = None"
    by (cases "lr_Items page"; cases "tl (lr_Items page)") auto
  have d: "set (map deps (db_pc_templates pc_done)) = {[], [''licence'']}"
    and w: "set (map pct_WorkflowTemplateID (db_pc_templates pc_done)) = {''w''}" by (simp_all only: pc_done_tables) simp_all
  have "one_each ''trader'' (db_pcs pc_done)"
    using pc_done_rows by (cases "db_pcs pc_done") (auto simp: one_each_def)
  moreover have "distinct (deps t)" "pct_WorkflowTemplateID t \<in> set (map wt_ID (db_workflow_templates pc_done))"
    if "t \<in> set (db_pc_templates pc_done)" for t
  proof -
    have "deps t \<in> {[], [''licence'']}" "pct_WorkflowTemplateID t \<in> {''w''}"
      using that unfolding d [symmetric] w [symmetric] by simp_all
    then show "distinct (deps t)" "pct_WorkflowTemplateID t \<in> set (map wt_ID (db_workflow_templates pc_done))"
      by (auto simp: pc_done_tables)
  qed
  ultimately have "td_State e = PreConsignmentStateReady \<longleftrightarrow> is_ok (fst (check_template pc_env (td_ID e) ''trader'' db'))"
    using run e page
    by (intro listed_ready_iff_startable [where db = pc_done and offset = None and limit = None and page = page])
      (simp_all add: pc_env_def pc_done_tables)
  with run page e show ?thesis by auto
qed

text \<open>A third template that needs a licence and a permit, for a trader with two licences and no permit.\<close>

definition pc_repeated :: DomainDB where
  "pc_repeated = pc_demo_db
     \<lparr>db_pc_templates := db_pc_templates pc_demo_db @
        [\<lparr>pct_ID = ''export'', pct_Name = ''Export'', pct_Description = [], pct_WorkflowTemplateID = ''w'',
          pct_DependsOn = Some [''licence'', ''permit'']\<rparr>],
      db_pcs := map (\<lambda>i. \<lparr>pc_ID = i, pc_TraderID = ''trader'', pc_TemplateID = ''licence'', pc_State = ''COMPLETED''\<rparr>)
        [''p1'', ''p2'']\<rparr>"

theorem repetition_opens_the_gate_witness:
  "is_ok (fst (check_template pc_env ''export'' ''trader'' pc_repeated))
     \<and> (\<forall>p \<in> set (db_pcs pc_repeated). pc_TemplateID p \<noteq> ''permit'')
     \<and> td_State (trader_entry (db_pcs pc_repeated) (db_pc_templates pc_repeated ! 2)) = PreConsignmentStateLocked"
  using repetition_opens_the_gate [of pc_env "''export''" pc_repeated "db_pc_templates pc_repeated ! 2"
      "hd (db_workflow_templates pc_repeated)" "''licence''" "''trader''"]
  by (simp add: pc_env_def pc_repeated_def pc_demo_db_def deps_def trader_entry_def by_template_def dependency_met_def)

end
