(* ===== verification/Consignments.thy ===== *)
theory Consignments
  imports PreConsignments
begin

text \<open>
  Consignments, which the application runs on the workflow library: \<open>model/consignment.go\<close>,
  \<open>model/hs\_code.go\<close>, \<open>model/cha.go\<close>, \<open>service/consignment\_service.go\<close>, \<open>service/hs\_code\_service.go\<close>,
  \<open>service/cha\_service.go\<close>, the remaining queries of \<open>service/template\_service.go\<close> and the callbacks of
  \<open>runtime/runtime.go\<close>. The library \<open>go-temporal-workflow\<close> is not part of the repository: its manager
  is a record of operations on a state of its own, given to the definitions. The tables are those of
  the workflow engine and of pre-consignments with four more. Time stamps appear where rows are
  ordered by them, not in the responses. Strings are ordered byte by byte.
\<close>

section \<open>Tables and messages\<close>

abbreviation ConsignmentFlowImport :: string where "ConsignmentFlowImport \<equiv> ''IMPORT''"
abbreviation ConsignmentFlowExport :: string where "ConsignmentFlowExport \<equiv> ''EXPORT''"
abbreviation ConsignmentStateInitialized :: string where "ConsignmentStateInitialized \<equiv> ''INITIALIZED''"
abbreviation ConsignmentStateInProgress :: string where "ConsignmentStateInProgress \<equiv> ''IN_PROGRESS''"
abbreviation ConsignmentStateFinished :: string where "ConsignmentStateFinished \<equiv> ''FINISHED''"

text \<open>An item is the id of its HS code.\<close>

record Consignment =
  c_ID :: string
  c_Flow :: string
  c_TraderID :: string
  c_State :: string
  c_Items :: "string list"
  c_CHAID :: string
  c_CreatedAt :: int

record HSCode =
  hs_ID :: string
  hs_HSCode :: string
  hs_Description :: string
  hs_Category :: string

record CHA =
  cha_ID :: string
  cha_Name :: string
  cha_Description :: string
  cha_Email :: string

record WorkflowTemplateV2 =
  v2_ID :: string
  v2_Name :: string
  v2_Version :: string
  v2_WorkflowDefinition :: any

text \<open>The two tables of maps have the same columns.\<close>

record WorkflowTemplateMap =
  mp_HSCodeID :: string
  mp_ConsignmentFlow :: string
  mp_WorkflowTemplateID :: string

record ConsignmentDB = DomainDB +
  db_consignments :: "Consignment list"
  db_chas :: "CHA list"
  db_hs_codes :: "HSCode list"
  db_template_maps :: "WorkflowTemplateMap list"
  db_templates_v2 :: "WorkflowTemplateV2 list"
  db_template_maps_v2 :: "WorkflowTemplateMap list"

type_synonym ('z, 'a) cdb = "('z ConsignmentDB_scheme, 'a) op"

record HSCodeResponseDTO =
  hd_HSCodeID :: string
  hd_HSCode :: string
  hd_Description :: string
  hd_Category :: string

text \<open>A node of a consignment; an unknown status of the library leaves the state empty (\<open>None\<close>).\<close>

record ConsignmentNodeDTO =
  cn_ID :: string
  cn_TemplateName :: string
  cn_TemplateType :: string
  cn_State :: "WorkflowNodeState option"

record WorkflowEdgeResponseDTO =
  we_ID :: string
  we_SourceID :: string
  we_TargetID :: string
  we_Condition :: string

record ConsignmentDetailDTO =
  cd_ID :: string
  cd_Flow :: string
  cd_TraderID :: string
  cd_ChaID :: string
  cd_State :: string
  cd_Items :: "HSCodeResponseDTO list"
  cd_WorkflowNodes :: "ConsignmentNodeDTO list"
  cd_Edges :: "WorkflowEdgeResponseDTO list"

record ConsignmentSummaryDTO =
  sm_ID :: string
  sm_Flow :: string
  sm_TraderID :: string
  sm_ChaID :: string
  sm_State :: string
  sm_Items :: "HSCodeResponseDTO list"
  sm_WorkflowNodeCount :: int
  sm_CompletedWorkflowNodeCount :: int

record ConsignmentFilter =
  cf_TraderID :: "string option"
  cf_ChaID :: "string option"
  cf_Flow :: "string option"
  cf_State :: "string option"
  cf_Offset :: "int option"
  cf_Limit :: "int option"

record CreateConsignmentDTO =
  cc_Flow :: string
  cc_ChaID :: string
  cc_Items :: "string list"

definition Validate_create :: "CreateConsignmentDTO \<Rightarrow> unit res" where
  "Validate_create d =
     (if cc_ChaID d = '''' then Err (Errorf ''chaId is required'' [])
      else if cc_Flow d \<noteq> ConsignmentFlowImport \<and> cc_Flow d \<noteq> ConsignmentFlowExport
        then Err (Errorf ''flow must be IMPORT or EXPORT'' [])
      else Ok ())"

section \<open>The workflow library\<close>

datatype NodeType = NodeTypeTask | OtherNodeType string

datatype NodeStatus =
    NodeStatusNotStarted | NodeStatusRunning | NodeStatusCompleted | NodeStatusFailed | OtherNodeStatus string

record NodeInfo =
  ni_ID :: string
  ni_Type :: NodeType
  ni_TaskTemplateID :: string
  ni_Status :: NodeStatus

record EdgeInfo =
  ei_ID :: string
  ei_SourceID :: string
  ei_TargetID :: string
  ei_Condition :: string

record WorkflowInstance =
  wi_NodeInfo :: "NodeInfo list"
  wi_Edges :: "EdgeInfo list"

record TaskPayload =
  tp_WorkflowID :: string
  tp_NodeID :: string
  tp_TaskTemplateID :: string
  tp_Inputs :: obj

text \<open>The manager of the library: a nil instance is \<open>None\<close>, a nil context is \<open>None\<close>.\<close>

record 'w TemporalManager =
  lib_StartWorkflow :: "string \<Rightarrow> any \<Rightarrow> obj option \<Rightarrow> ('w, unit) op"
  lib_GetStatus :: "string \<Rightarrow> ('w, WorkflowInstance option) op"
  lib_TaskDone :: "string \<Rightarrow> string \<Rightarrow> string \<Rightarrow> obj \<Rightarrow> ('w, unit) op"
  lib_StartWorker :: "('w, unit) op"
  lib_StopWorker :: "('w, unit) op"

section \<open>hs\_code\_service.go\<close>

text \<open>SQL's \<open>LIKE\<close>: a percent sign stands for any text, an underscore for a character, a backslash quotes.\<close>

fun sql_like :: "string \<Rightarrow> string \<Rightarrow> bool" where
  "sql_like [] s \<longleftrightarrow> s = []"
| "sql_like (p # ps) s \<longleftrightarrow>
     (if p = CHR ''%'' then sql_like ps s \<or> (case s of [] \<Rightarrow> False | _ # cs \<Rightarrow> sql_like (p # ps) cs)
      else if p = CHR ''_'' then (case s of [] \<Rightarrow> False | _ # cs \<Rightarrow> sql_like ps cs)
      else if p = CHR 0x5C \<and> ps \<noteq> [] then (case s of [] \<Rightarrow> False | c # cs \<Rightarrow> c = hd ps \<and> sql_like (tl ps) cs)
      else (case s of [] \<Rightarrow> False | c # cs \<Rightarrow> c = p \<and> sql_like ps cs))"

record HSCodeFilter =
  hf_HSCodeStartsWith :: "string option"
  hf_Offset :: "int option"
  hf_Limit :: "int option"

definition hs_matches :: "HSCodeFilter \<Rightarrow> HSCode \<Rightarrow> bool" where
  "hs_matches f h =
     (case hf_HSCodeStartsWith f of
        Some p \<Rightarrow> p = '''' \<or> sql_like (p @ ''%'') (hs_HSCode h)
      | None \<Rightarrow> True)"

definition GetAllHSCodes :: "DBEnv \<Rightarrow> HSCodeFilter \<Rightarrow> ('z, HSCode ListResult) cdb" where
  "GetAllHSCodes env f =
     bindS (wrapS ''failed to count HS codes: %w'' []
       (db_call env (\<lambda>db. (Ok (length (filter (hs_matches f) (db_hs_codes db))), db)))) (\<lambda>totalCount.
     if totalCount = 0 then returnS \<lparr>lr_TotalCount = 0, lr_Items = [], lr_Offset = 0, lr_Limit = 0\<rparr>
     else
       let (finalOffset, finalLimit) = GetPaginationParams (hf_Offset f) (hf_Limit f) in
       bindS (wrapS ''failed to retrieve HS codes: %w'' []
         (db_call env (\<lambda>db. (Ok (db_page finalOffset finalLimit
            (sort_key hs_HSCode (db_find env (db_tick db) hs_ID (hs_matches f) (db_hs_codes db)))), db)))) (\<lambda>hsCodes.
       returnS \<lparr>lr_TotalCount = totalCount, lr_Items = hsCodes, lr_Offset = finalOffset, lr_Limit = finalLimit\<rparr>))"

definition GetHSCodeByID :: "DBEnv \<Rightarrow> string \<Rightarrow> ('z, HSCode) cdb" where
  "GetHSCodeByID env i =
     bindS (attemptS (db_call env (\<lambda>db. (db_first (\<lambda>h. hs_ID h = i) (db_hs_codes db), db)))) (\<lambda>result.
     case result of
       Ok h \<Rightarrow> returnS h
     | Err e \<Rightarrow> failS (if is_not_found e then Errorf ''HS code with ID %s not found'' [i]
                      else Wrapf ''failed to retrieve HS code: %w'' [] e)
     | Panic \<Rightarrow> liftS Panic)"

section \<open>cha\_service.go\<close>

definition ListCHAs :: "DBEnv \<Rightarrow> ('z, CHA list) cdb" where
  "ListCHAs env =
     wrapS ''failed to retrieve customs house agents: %w'' []
       (db_call env (\<lambda>db. (Ok (sort_key cha_Name (db_find env (db_tick db) cha_ID (\<lambda>_. True) (db_chas db))), db)))"

text \<open>\<open>First\<close> orders by the primary key: the first of the rows in the order of their ids.\<close>

definition GetCHAByEmail :: "DBEnv \<Rightarrow> string \<Rightarrow> ('z, CHA) cdb" where
  "GetCHAByEmail env email =
     wrapS ''failed to find CHA with email %q: %w'' [email]
       (db_call env (\<lambda>db. (db_first (\<lambda>c. cha_Email c = email) (sort_key cha_ID (db_chas db)), db)))"

section \<open>template\_service.go\<close>

definition maps_to :: "WorkflowTemplateMap list \<Rightarrow> string \<Rightarrow> string \<Rightarrow> string \<Rightarrow> bool" where
  "maps_to maps hsCodeID flow templateID \<longleftrightarrow>
     list_ex (\<lambda>m. mp_WorkflowTemplateID m = templateID \<and> mp_HSCodeID m = hsCodeID \<and> mp_ConsignmentFlow m = flow) maps"

definition GetWorkflowTemplateByHSCodeIDAndFlow :: "DBEnv \<Rightarrow> string \<Rightarrow> string \<Rightarrow> ('z, WorkflowTemplate) cdb" where
  "GetWorkflowTemplateByHSCodeIDAndFlow env hsCodeID flow =
     db_call env (\<lambda>db.
       (db_first (\<lambda>t. maps_to (db_template_maps db) hsCodeID flow (wt_ID t)) (sort_key wt_ID (db_workflow_templates db)), db))"

text \<open>By version, which is text, from the last to the first; then by id.\<close>

definition by_version :: "WorkflowTemplateV2 list \<Rightarrow> WorkflowTemplateV2 list" where
  "by_version ts = rev (sort_key v2_Version (rev (sort_key v2_ID ts)))"

definition GetWorkflowTemplateByHSCodeIDAndFlowV2 ::
    "DBEnv \<Rightarrow> string \<Rightarrow> string \<Rightarrow> ('z, WorkflowTemplateV2 option) cdb" where
  "GetWorkflowTemplateByHSCodeIDAndFlowV2 env hsCodeID flow =
     bindS (attemptS (db_call env (\<lambda>db.
       (db_first (\<lambda>t. maps_to (db_template_maps_v2 db) hsCodeID flow (v2_ID t)) (by_version (db_templates_v2 db)), db))))
       (\<lambda>result. case result of
          Ok t \<Rightarrow> returnS (Some t)
        | Err e \<Rightarrow> if is_not_found e then returnS None else failS e
        | Panic \<Rightarrow> liftS Panic)"

definition GetWorkflowTemplateByIDV2 :: "DBEnv \<Rightarrow> string \<Rightarrow> ('z, WorkflowTemplateV2) cdb" where
  "GetWorkflowTemplateByIDV2 env i = db_call env (\<lambda>db. (db_first (\<lambda>t. v2_ID t = i) (db_templates_v2 db), db))"

section \<open>HS codes of items\<close>

text \<open>\<open>collectFromItems\<close> and \<open>load\<close> of \<open>hsCodeBatchLoader\<close>; the set of ids as a list without repetition.\<close>

definition collectFromItems :: "string list \<Rightarrow> string list \<Rightarrow> string list" where
  "collectFromItems ids items = fold List.insert items ids"

definition load_hs :: "DBEnv \<Rightarrow> string list \<Rightarrow> ('z, (string, HSCode) gomap) cdb" where
  "load_hs env ids =
     (if ids = [] then returnS []
      else wrapS ''failed to batch load HS codes: %w'' []
        (db_call env (\<lambda>db. (Ok (map (\<lambda>h. (hs_ID h, h)) (filter (\<lambda>h. hs_ID h \<in> set ids) (db_hs_codes db))), db))))"

definition get_hs :: "(string, HSCode) gomap \<Rightarrow> string \<Rightarrow> HSCode res" where
  "get_hs hsCodeMap i =
     (case map_get hsCodeMap i of Some h \<Rightarrow> Ok h | None \<Rightarrow> Err (Errorf ''HS code not found for ID %s'' [i]))"

definition buildConsignmentItemResponseDTOs :: "(string, HSCode) gomap \<Rightarrow> string list \<Rightarrow> HSCodeResponseDTO list res" where
  "buildConsignmentItemResponseDTOs hsCodeMap items =
     mapM_res (\<lambda>i. bind_res (get_hs hsCodeMap i) (\<lambda>h.
       Ok \<lparr>hd_HSCodeID = hs_ID h, hd_HSCode = hs_HSCode h, hd_Description = hs_Description h, hd_Category = hs_Category h\<rparr>)) items"

section \<open>Responses\<close>

definition node_state_of :: "NodeStatus \<Rightarrow> WorkflowNodeState option" where
  "node_state_of st =
     (case st of
        NodeStatusRunning \<Rightarrow> Some IN_PROGRESS
      | NodeStatusCompleted \<Rightarrow> Some COMPLETED
      | NodeStatusFailed \<Rightarrow> Some FAILED
      | NodeStatusNotStarted \<Rightarrow> Some LOCKED
      | OtherNodeStatus s \<Rightarrow> None)"

definition consignment_node :: "(string, WorkflowNodeTemplate) gomap \<Rightarrow> NodeInfo \<Rightarrow> ConsignmentNodeDTO res" where
  "consignment_node taskTemplateMap node =
     (case ni_Type node of
        NodeTypeTask \<Rightarrow>
          (case map_get taskTemplateMap (ni_TaskTemplateID node) of
             None \<Rightarrow> Err (Errorf ''failed to retrieve workflow node template %s for node %s'' [ni_TaskTemplateID node, ni_ID node])
           | Some t \<Rightarrow> Ok \<lparr>cn_ID = ni_ID node, cn_TemplateName = t_Name t, cn_TemplateType = t_Type t,
                          cn_State = node_state_of (ni_Status node)\<rparr>)
      | OtherNodeType ty \<Rightarrow> Ok \<lparr>cn_ID = ni_ID node, cn_TemplateName = '''', cn_TemplateType = ty,
                               cn_State = node_state_of (ni_Status node)\<rparr>)"

definition edge_response :: "EdgeInfo \<Rightarrow> WorkflowEdgeResponseDTO" where
  "edge_response e = \<lparr>we_ID = ei_ID e, we_SourceID = ei_SourceID e, we_TargetID = ei_TargetID e, we_Condition = ei_Condition e\<rparr>"

definition task_template_ids :: "NodeInfo list \<Rightarrow> string list" where
  "task_template_ids nodes = map ni_TaskTemplateID (filter (\<lambda>n. ni_Type n = NodeTypeTask) nodes)"

definition buildConsignmentDetailDTO ::
    "DBEnv \<Rightarrow> Consignment \<Rightarrow> WorkflowInstance option \<Rightarrow> (string, HSCode) gomap \<Rightarrow> ('z, ConsignmentDetailDTO) cdb" where
  "buildConsignmentDetailDTO env c workflowV2 hsCodeMap =
     bindS (liftS (buildConsignmentItemResponseDTOs hsCodeMap (c_Items c))) (\<lambda>items.
     bindS (case workflowV2 of
              None \<Rightarrow> returnS ([], [])
            | Some wi \<Rightarrow>
                bindS (wrapS ''failed to retrieve workflow node templates for consignment %s: %w'' [c_ID c]
                  (GetWorkflowNodeTemplatesByIDs env (task_template_ids (wi_NodeInfo wi)))) (\<lambda>taskTemplates.
                bindS (liftS (mapM_res (consignment_node (template_map taskTemplates [])) (wi_NodeInfo wi))) (\<lambda>nodes.
                returnS (nodes, map edge_response (wi_Edges wi))))) (\<lambda>(nodes, edges).
     returnS \<lparr>cd_ID = c_ID c, cd_Flow = c_Flow c, cd_TraderID = c_TraderID c, cd_ChaID = c_CHAID c, cd_State = c_State c,
              cd_Items = items, cd_WorkflowNodes = nodes, cd_Edges = edges\<rparr>))"

section \<open>The service\<close>

text \<open>The service runs on the library's state and the database; \<open>ce\_now\<close> is its clock.\<close>

type_synonym ('w, 'z, 'a) csv = "('w \<times> 'z ConsignmentDB_scheme, 'a) op"

record ConsignmentEnv =
  ce_db :: DBEnv
  ce_now :: "nat \<Rightarrow> int"

record 'w ConsignmentService =
  cs_wm :: "'w TemporalManager option"

definition on_tables :: "('z, 'a) cdb \<Rightarrow> ('w, 'z, 'a) csv" where
  "on_tables m s = (case m (snd s) of (r, db) \<Rightarrow> (r, (fst s, db)))"

text \<open>A call of the registered manager; a nil one panics.\<close>

definition on_library :: "'w ConsignmentService \<Rightarrow> ('w TemporalManager \<Rightarrow> ('w, 'a) op) \<Rightarrow> ('w, 'z, 'a) csv" where
  "on_library cs f s =
     (case cs_wm cs of
        None \<Rightarrow> (Panic, s)
      | Some lib \<Rightarrow> (case f lib (fst s) of (r, w) \<Rightarrow> (r, (w, snd s))))"

definition RegisterWorkflowManager :: "'w TemporalManager option \<Rightarrow> ('w ConsignmentService, unit) op" where
  "RegisterWorkflowManager lib s =
     (if cs_wm s \<noteq> None then (Err (Errorf ''workflow manager already registered for ConsignmentService'' []), s)
      else if lib = None then (Err (Errorf ''workflow manager cannot be nil'' []), s)
      else (Ok (), s\<lparr>cs_wm := lib\<rparr>))"

definition get_consignment :: "DBEnv \<Rightarrow> string \<Rightarrow> ('z, Consignment) cdb" where
  "get_consignment env i = db_call env (\<lambda>db. (db_first (\<lambda>c. c_ID c = i) (db_consignments db), db))"

definition save_consignment :: "DBEnv \<Rightarrow> Consignment \<Rightarrow> ('z, unit) cdb" where
  "save_consignment env c =
     db_call env (\<lambda>db. (Ok (), db\<lparr>db_consignments := update_where (\<lambda>r. c_ID r = c_ID c) (\<lambda>_. c) (db_consignments db)\<rparr>))"

definition markConsignmentAsFinished :: "DBEnv \<Rightarrow> string \<Rightarrow> ('z, unit) cdb" where
  "markConsignmentAsFinished env i =
     bindS (wrapS ''failed to retrieve consignment %s: %w'' [i] (get_consignment env i)) (\<lambda>c.
     wrapS ''failed to update consignment %s state to FINISHED: %w'' [i]
       (save_consignment env (c\<lparr>c_State := ConsignmentStateFinished\<rparr>)))"

definition c_OnWorkflowStatusChanged ::
    "DBEnv \<Rightarrow> string \<Rightarrow> string \<Rightarrow> string \<Rightarrow> Workflow option \<Rightarrow> ('z, unit) cdb" where
  "c_OnWorkflowStatusChanged env workflowID fromStatus toStatus workflow =
     (if toStatus = WorkflowStatusCompleted then markConsignmentAsFinished env workflowID else returnS ())"

definition CompletionHandler :: "DBEnv \<Rightarrow> string \<Rightarrow> obj \<Rightarrow> ('z, unit) cdb" where
  "CompletionHandler env workflowID finalContext =
     c_OnWorkflowStatusChanged env workflowID WorkflowStatusInProgress WorkflowStatusCompleted None"

section \<open>Creation and initialization\<close>

definition create_consignment :: "ConsignmentEnv \<Rightarrow> Consignment \<Rightarrow> ('z, Consignment) cdb" where
  "create_consignment env c0 =
     db_call (ce_db env) (\<lambda>db.
       let c = c0\<lparr>c_ID := newUUID (ce_db env) (db_tick db) 0, c_CreatedAt := ce_now env (db_tick db)\<rparr> in
       if \<exists>r \<in> set (db_consignments db). c_ID r = c_ID c
       then (Err (External ''duplicate key value violates unique constraint''), db)
       else (Ok c, db\<lparr>db_consignments := db_consignments db @ [c]\<rparr>))"

definition CreateConsignmentShell :: "ConsignmentEnv \<Rightarrow> string \<Rightarrow> string \<Rightarrow> string \<Rightarrow> ('z, ConsignmentDetailDTO) cdb" where
  "CreateConsignmentShell env flow chaID traderID =
     bindS (wrapS ''CHA not found: %w'' []
       (db_call (ce_db env) (\<lambda>db. (db_first (\<lambda>c. cha_ID c = chaID) (db_chas db), db)))) (\<lambda>_.
     bindS (wrapS ''failed to create consignment: %w'' []
       (create_consignment env
         \<lparr>c_ID = '''', c_Flow = flow, c_TraderID = traderID, c_State = ConsignmentStateInitialized, c_Items = [],
          c_CHAID = chaID, c_CreatedAt = 0\<rparr>)) (\<lambda>c.
     bindS (wrapS ''failed to reload consignment: %w'' [] (get_consignment (ce_db env) (c_ID c))) (\<lambda>c'.
     buildConsignmentDetailDTO (ce_db env) c' None [])))"

text \<open>The body of the transaction; a rollback takes the row back, not what the library was told.\<close>

definition initialize_body ::
    "ConsignmentEnv \<Rightarrow> 'w ConsignmentService \<Rightarrow> Consignment \<Rightarrow> string list \<Rightarrow> obj option \<Rightarrow> ('w, 'z, unit) csv" where
  "initialize_body env cs c hsCodeIDs globalContext =
     bindS (wrapS ''failed to update consignment: %w'' []
       (on_tables (save_consignment (ce_db env) (c\<lparr>c_Items := hsCodeIDs, c_State := ConsignmentStateInProgress\<rparr>)))) (\<lambda>_.
     if length hsCodeIDs > 1 then failS (Errorf ''workflow manager currently supports only one HS code'' [])
     else
       bindS (wrapS ''failed to get workflow template: %w'' []
         (on_tables (GetWorkflowTemplateByHSCodeIDAndFlowV2 (ce_db env) (hd hsCodeIDs) (c_Flow c)))) (\<lambda>wt.
       case wt of
         None \<Rightarrow> failS (Errorf ''no workflow template found for HS code %s and flow %s'' [hd hsCodeIDs, c_Flow c])
       | Some t \<Rightarrow>
           bindS (wrapS ''failed to register workflow: %w'' []
             (on_library cs (\<lambda>lib. lib_StartWorkflow lib (c_ID c) (v2_WorkflowDefinition t) globalContext))) (\<lambda>_.
           wrapS ''failed to commit: %w'' [] (on_tables (db_call (ce_db env) (\<lambda>d. (Ok (), d)))))))"

definition undo_consignments :: "'z ConsignmentDB_scheme \<Rightarrow> 'z ConsignmentDB_scheme \<Rightarrow> 'z ConsignmentDB_scheme" where
  "undo_consignments before after = after\<lparr>db_consignments := db_consignments before\<rparr>"

definition initialize_tx ::
    "ConsignmentEnv \<Rightarrow> 'w ConsignmentService \<Rightarrow> Consignment \<Rightarrow> string list \<Rightarrow> obj option \<Rightarrow> ('w, 'z, unit) csv" where
  "initialize_tx env cs c hsCodeIDs globalContext s =
     (case initialize_body env cs c hsCodeIDs globalContext s of
        (Ok v, s') \<Rightarrow> (Ok v, s')
      | (Err e, (w, db)) \<Rightarrow> (Err e, (w, undo_consignments (snd s) db))
      | (Panic, (w, db)) \<Rightarrow> (Panic, (w, undo_consignments (snd s) db)))"

text \<open>The status of the library and the HS codes of the items, for the response.\<close>

definition consignment_response ::
    "ConsignmentEnv \<Rightarrow> Consignment \<Rightarrow> WorkflowInstance option \<Rightarrow> ('z, ConsignmentDetailDTO) cdb" where
  "consignment_response env c workflowInstance =
     bindS (wrapS ''failed to load HS codes: %w'' [] (load_hs (ce_db env) (collectFromItems [] (c_Items c)))) (\<lambda>hsCodes.
     buildConsignmentDetailDTO (ce_db env) c workflowInstance hsCodes)"

definition initialize_response ::
    "ConsignmentEnv \<Rightarrow> 'w ConsignmentService \<Rightarrow> string \<Rightarrow> ('w, 'z, ConsignmentDetailDTO) csv" where
  "initialize_response env cs consignmentID =
     bindS (wrapS ''failed to reload consignment: %w'' [] (on_tables (get_consignment (ce_db env) consignmentID))) (\<lambda>c.
     bindS (wrapS ''failed to get workflow details: %w'' [] (on_library cs (\<lambda>lib. lib_GetStatus lib (c_ID c)))) (\<lambda>wi.
     on_tables (consignment_response env c wi)))"

text \<open>The deferred \<open>recover\<close>: a panic returns a nil response and no error.\<close>

definition recovered :: "('s, 'a) op \<Rightarrow> ('s, 'a option) op" where
  "recovered m s = (case m s of (Ok v, s') \<Rightarrow> (Ok (Some v), s') | (Err e, s') \<Rightarrow> (Err e, s') | (Panic, s') \<Rightarrow> (Ok None, s'))"

definition InitializeConsignmentByID ::
    "ConsignmentEnv \<Rightarrow> 'w ConsignmentService \<Rightarrow> string \<Rightarrow> string list \<Rightarrow> obj option
       \<Rightarrow> ('w, 'z, ConsignmentDetailDTO option) csv" where
  "InitializeConsignmentByID env cs consignmentID hsCodeIDs globalContext =
     (if hsCodeIDs = [] then failS (Errorf ''at least one HS code ID is required'' [])
      else
        bindS (wrapS ''consignment not found: %w'' [] (on_tables (get_consignment (ce_db env) consignmentID))) (\<lambda>c.
        if c_State c \<noteq> ConsignmentStateInitialized
        then failS (Errorf ''consignment must be in INITIALIZED (current state: %s)'' [c_State c])
        else recovered (bindS (initialize_tx env cs c hsCodeIDs globalContext) (\<lambda>_. initialize_response env cs (c_ID c)))))"

section \<open>Queries\<close>

definition GetConsignmentByID :: "ConsignmentEnv \<Rightarrow> 'w ConsignmentService \<Rightarrow> string \<Rightarrow> ('w, 'z, ConsignmentDetailDTO) csv" where
  "GetConsignmentByID env cs consignmentID =
     bindS (wrapS ''failed to retrieve consignment with ID %s: %w'' [consignmentID]
       (on_tables (get_consignment (ce_db env) consignmentID))) (\<lambda>c.
     bindS (if c_State c \<noteq> ConsignmentStateInitialized
            then wrapS ''failed to get workflow details: %w'' [] (on_library cs (\<lambda>lib. lib_GetStatus lib (c_ID c)))
            else returnS None) (\<lambda>wi.
     bindS (wrapS ''failed to load HS codes: %w'' []
       (on_tables (load_hs (ce_db env) (collectFromItems [] (c_Items c))))) (\<lambda>hsCodes.
     wrapS ''failed to build consignment response DTO: %w'' []
       (on_tables (buildConsignmentDetailDTO (ce_db env) c wi hsCodes)))))"

text \<open>The rows of \<open>GROUP BY workflow\_id\<close>: total and completed nodes of each workflow that has any.\<close>

definition node_counts :: "WorkflowNode list \<Rightarrow> string list \<Rightarrow> (string, int \<times> int) gomap" where
  "node_counts nodes ids =
     map (\<lambda>i. (i, int (length (filter (\<lambda>n. n_WorkflowID n = i) nodes)),
                  int (length (filter (\<lambda>n. n_WorkflowID n = i \<and> n_State n = COMPLETED) nodes))))
       (remdups (filter (\<lambda>i. i \<in> set ids) (map n_WorkflowID nodes)))"

definition end_nodes :: "Workflow list \<Rightarrow> string list \<Rightarrow> string list" where
  "end_nodes flows ids = map wf_ID (filter (\<lambda>w. wf_ID w \<in> set ids \<and> wf_EndNodeID w \<noteq> None) flows)"

text \<open>The total without the end node, and the number of completed nodes.\<close>

definition shown_counts :: "(string, int \<times> int) gomap \<Rightarrow> string list \<Rightarrow> string \<Rightarrow> int \<times> int" where
  "shown_counts counts ends i =
     (let (total, completed) = (case map_get counts i of None \<Rightarrow> (0, 0) | Some c \<Rightarrow> c)
      in (if i \<in> set ends \<and> total > 0 then total - 1 else total, completed))"

definition summary_of ::
    "(string, HSCode) gomap \<Rightarrow> (string, int \<times> int) gomap \<Rightarrow> string list \<Rightarrow> Consignment \<Rightarrow> ConsignmentSummaryDTO res" where
  "summary_of hsCodes counts ends c =
     bind_res (wrap_err ''failed to load HS code for item in consignment %s: %w'' [c_ID c]
       (buildConsignmentItemResponseDTOs hsCodes (c_Items c))) (\<lambda>items.
     Ok \<lparr>sm_ID = c_ID c, sm_Flow = c_Flow c, sm_TraderID = c_TraderID c, sm_ChaID = c_CHAID c, sm_State = c_State c,
         sm_Items = items, sm_WorkflowNodeCount = fst (shown_counts counts ends (c_ID c)),
         sm_CompletedWorkflowNodeCount = snd (shown_counts counts ends (c_ID c))\<rparr>)"

definition newest_first :: "Consignment list \<Rightarrow> Consignment list" where
  "newest_first = sort_key (\<lambda>c. - c_CreatedAt c)"

definition listConsignmentsWithBaseQuery ::
    "DBEnv \<Rightarrow> (Consignment \<Rightarrow> bool) \<Rightarrow> ConsignmentFilter \<Rightarrow> ('z, ConsignmentSummaryDTO ListResult) cdb" where
  "listConsignmentsWithBaseQuery env base f =
     (let (finalOffset, finalLimit) = GetPaginationParams (cf_Offset f) (cf_Limit f);
          query = (\<lambda>c. base c \<and> (case cf_State f of None \<Rightarrow> True | Some st \<Rightarrow> c_State c = st)
                             \<and> (case cf_Flow f of None \<Rightarrow> True | Some fl \<Rightarrow> c_Flow c = fl)) in
      bindS (wrapS ''failed to count filtered consignments: %w'' []
        (db_call env (\<lambda>db. (Ok (length (filter query (db_consignments db))), db)))) (\<lambda>totalCount.
      if totalCount = 0
      then returnS \<lparr>lr_TotalCount = 0, lr_Items = [], lr_Offset = finalOffset, lr_Limit = finalLimit\<rparr>
      else
        bindS (wrapS ''failed to retrieve consignments: %w'' []
          (db_call env (\<lambda>db. (Ok (db_page finalOffset finalLimit
             (newest_first (db_find env (db_tick db) c_ID query (db_consignments db)))), db)))) (\<lambda>consignments.
        bindS (wrapS ''failed to fetch workflow node counts: %w'' []
          (db_call env (\<lambda>db. (Ok (node_counts (db_nodes db) (map c_ID consignments)), db)))) (\<lambda>counts.
        bindS (wrapS ''failed to fetch workflow end nodes: %w'' []
          (db_call env (\<lambda>db. (Ok (end_nodes (db_workflows db) (map c_ID consignments)), db)))) (\<lambda>ends.
        bindS (wrapS ''failed to load HS codes: %w'' []
          (load_hs env (fold (\<lambda>c ids. collectFromItems ids (c_Items c)) consignments []))) (\<lambda>hsCodes.
        bindS (liftS (mapM_res (summary_of hsCodes counts ends) consignments)) (\<lambda>dtos.
        returnS \<lparr>lr_TotalCount = totalCount, lr_Items = dtos, lr_Offset = finalOffset, lr_Limit = finalLimit\<rparr>)))))))"

definition ListConsignments :: "DBEnv \<Rightarrow> ConsignmentFilter \<Rightarrow> ('z, ConsignmentSummaryDTO ListResult) cdb" where
  "ListConsignments env f =
     (case cf_ChaID f of
        Some cha \<Rightarrow> listConsignmentsWithBaseQuery env (\<lambda>c. c_CHAID c = cha) f
      | None \<Rightarrow>
          (case cf_TraderID f of
             Some trader \<Rightarrow> listConsignmentsWithBaseQuery env (\<lambda>c. c_TraderID c = trader) f
           | None \<Rightarrow> failS (Errorf ''either TraderID or ChaID must be set in filter'' [])))"

definition GetConsignmentsByTraderID ::
    "DBEnv \<Rightarrow> string \<Rightarrow> int option \<Rightarrow> int option \<Rightarrow> ConsignmentFilter \<Rightarrow> ('z, ConsignmentSummaryDTO ListResult) cdb" where
  "GetConsignmentsByTraderID env traderID offset limit f =
     ListConsignments env (f\<lparr>cf_TraderID := Some traderID, cf_Offset := offset, cf_Limit := limit\<rparr>)"

section \<open>runtime.go\<close>

text \<open>
  What the runtime hands to the library: the activation of a node starts a task with the type and
  the configuration of its template, the completion of a workflow goes to the upstream service, and
  a done task is reported to the library, whose error is only logged. \<open>initTask\<close> is the task
  manager's operation on the same state.
\<close>

definition activationHandler ::
    "DBEnv \<Rightarrow> (InitTaskRequest \<Rightarrow> ('z WorkflowDB_scheme, InitTaskResponse) op) \<Rightarrow> TaskPayload
       \<Rightarrow> ('z WorkflowDB_scheme, unit) op" where
  "activationHandler env initTask payload =
     bindS (wrapS ''error getting workflow node template: %w'' []
       (GetWorkflowNodeTemplateByID env (tp_TaskTemplateID payload))) (\<lambda>template.
     bindS (wrapS ''error initializing task manager: %w'' []
       (initTask \<lparr>it_TaskID = tp_NodeID payload, it_WorkflowID = tp_WorkflowID payload,
          it_WorkflowNodeTemplateID = t_ID template, it_Type = t_Type template,
          it_GlobalState = tp_Inputs payload, it_Config = t_Config template\<rparr>)) (\<lambda>_. returnS ()))"

definition completionHandler :: "(string \<Rightarrow> obj \<Rightarrow> ('s, unit) op) option \<Rightarrow> string \<Rightarrow> obj \<Rightarrow> ('s, unit) op" where
  "completionHandler upstream workflowID finalContext =
     (case upstream of
        None \<Rightarrow> returnS ()
      | Some h \<Rightarrow> wrapS ''error calling upstream completion handler: %w'' [] (h workflowID finalContext))"

definition taskDoneWrapper :: "'w TemporalManager \<Rightarrow> string \<Rightarrow> string \<Rightarrow> obj \<Rightarrow> ('w, unit) op" where
  "taskDoneWrapper lib workflowID taskID outputs =
     bindS (attemptS (lib_TaskDone lib workflowID '''' taskID outputs)) (\<lambda>_. returnS ())"

record 'w Runtime =
  rt_manager :: "'w TemporalManager option"
  rt_running :: bool

text \<open>The worker is started before the task manager learns of the callback; \<open>done\<close> is what it registers.\<close>

definition newRuntimeWithFactory ::
    "'w TemporalManager \<Rightarrow> ('w, 'w Runtime \<times> (string \<Rightarrow> string \<Rightarrow> obj \<Rightarrow> ('w, unit) op)) op" where
  "newRuntimeWithFactory lib =
     bindS (wrapS ''failed to start workflow manager worker: %w'' [] (lib_StartWorker lib)) (\<lambda>_.
     returnS (\<lparr>rt_manager = Some lib, rt_running = True\<rparr>, taskDoneWrapper lib))"

definition Close :: "'w Runtime option \<Rightarrow> ('w, 'w Runtime option) op" where
  "Close r =
     (case r of
        None \<Rightarrow> returnS None
      | Some rt \<Rightarrow>
          bindS (case rt_manager rt of None \<Rightarrow> returnS () | Some lib \<Rightarrow> lib_StopWorker lib) (\<lambda>_.
          returnS (Some (rt\<lparr>rt_running := False\<rparr>))))"

end
