(* ===== verification/HttpApi.thy ===== *)
theory HttpApi
  imports JsonDecode Pagination
begin

text \<open>
  What the HTTP handlers of the backend share: the authentication context of \<open>auth/context.go\<close> that the
  middleware puts into a request, the parts of a request a handler reads, and replies with a status
  and a value or a status and a message (with the error it ends in, where the code appends one).
  The body of a request is the JSON value it holds, \<open>None\<close> when it is empty.
\<close>

record UserContext =
  uc_ID :: string
  uc_IDPUserID :: string
  uc_Email :: string
  uc_PhoneNumber :: string
  uc_OUID :: string
  uc_Roles :: "string list"

record ClientContext =
  cl_ClientID :: string

record AuthContext =
  ax_User :: "UserContext option"
  ax_Client :: "ClientContext option"

record Request =
  hq_Auth :: "AuthContext option"
  hq_Path :: "(string, string) gomap"
  hq_Query :: "(string, string) gomap"
  hq_Body :: "any option"
  hq_Header :: "(string, string) gomap"

datatype 'v Reply = Reply nat 'v | ErrorReply nat string "go_error option"

fun status_of :: "'v Reply \<Rightarrow> nat" where
  "status_of (Reply n v) = n"
| "status_of (ErrorReply n m e) = n"

text \<open>\<open>GetAuthContext(ctx)\<close> and the check \<open>authCtx == nil || authCtx.User == nil\<close>.\<close>

definition GetAuthContext :: "Request \<Rightarrow> AuthContext option" where
  "GetAuthContext r = hq_Auth r"

definition with_user :: "Request \<Rightarrow> (UserContext \<Rightarrow> ('s, 'v Reply) op) \<Rightarrow> ('s, 'v Reply) op" where
  "with_user r f =
     (case GetAuthContext r of
        None \<Rightarrow> returnS (ErrorReply 401 ''Unauthorized'' None)
      | Some ctx \<Rightarrow> (case ax_User ctx of None \<Rightarrow> returnS (ErrorReply 401 ''Unauthorized'' None) | Some u \<Rightarrow> f u))"

definition path_value :: "Request \<Rightarrow> string \<Rightarrow> string" where
  "path_value r k = query_value (hq_Path r) k"

text \<open>The reply to the outcome of a service call.\<close>

definition respond :: "(go_error \<Rightarrow> 'v Reply) \<Rightarrow> nat \<Rightarrow> ('s, 'v) op \<Rightarrow> ('s, 'v Reply) op" where
  "respond failure status m =
     bindS (attemptS m) (\<lambda>result.
     case result of Ok v \<Rightarrow> returnS (Reply status v) | Err e \<Rightarrow> returnS (failure e) | Panic \<Rightarrow> liftS Panic)"

lemma respond_run:
  "respond failure status m s = (case m s of
     (Ok v, s') \<Rightarrow> (Ok (Reply status v), s') | (Err e, s') \<Rightarrow> (Ok (failure e), s') | (Panic, s') \<Rightarrow> (Panic, s'))"
  by (auto simp: respond_def bindS_def attemptS_def returnS_def split: prod.splits res.splits)

lemma with_user_Ok:
  "with_user r f s = (Ok reply, s') \<Longrightarrow>
     (reply = ErrorReply 401 ''Unauthorized'' None \<and> s' = s)
     \<or> (\<exists>ctx u. hq_Auth r = Some ctx \<and> ax_User ctx = Some u \<and> f u s = (Ok reply, s'))"
  by (auto simp: with_user_def GetAuthContext_def returnS_def split: option.splits)

end
