(* ===== verification/WorkflowRouters.thy ===== *)
theory WorkflowRouters
  imports Consignments HttpApi
begin

text \<open>
  The HTTP handlers of consignments, HS codes, customs house agents and pre-consignments:
  \<open>backend/internal/workflow/router/\<close>. Encoding a response does not fail.
\<close>

section \<open>consignment\_router.go\<close>

text \<open>An item of the request is decoded but never read.\<close>

definition dec_create_consignment :: "CreateConsignmentDTO decoder" where
  "dec_create_consignment = dec_struct (\<lambda>m.
     bind_res (dec_field dec_string ''flow'' m) (\<lambda>f.
     bind_res (dec_field dec_string ''chaId'' m) (\<lambda>c.
     bind_res (dec_field (dec_slice (dec_struct (dec_field dec_string ''hsCodeId''))) ''items'' m) (\<lambda>items.
     Ok \<lparr>cc_Flow = f, cc_ChaID = c, cc_Items = items\<rparr>))))"

definition HandleCreateConsignment :: "ConsignmentEnv \<Rightarrow> Request \<Rightarrow> ('z, ConsignmentDetailDTO Reply) cdb" where
  "HandleCreateConsignment env r =
     with_user r (\<lambda>user.
       case unmarshal dec_create_consignment (hq_Body r) of
         Err e \<Rightarrow> returnS (ErrorReply 400 ''invalid request body: '' (Some e))
       | Panic \<Rightarrow> liftS Panic
       | Ok req \<Rightarrow>
           (case Validate_create req of
              Err e \<Rightarrow> returnS (ErrorReply 400 '''' (Some e))
            | Panic \<Rightarrow> liftS Panic
            | Ok _ \<Rightarrow>
                respond (\<lambda>e. if is_not_found e then ErrorReply 404 ''CHA not found'' None
                             else ErrorReply 500 ''failed to create consignment: '' (Some e))
                  201 (CreateConsignmentShell env (cc_Flow req) (cc_ChaID req) (uc_ID user))))"

definition nonempty :: "string \<Rightarrow> string option" where
  "nonempty s = (if s = '''' then None else Some s)"

definition consignment_filter :: "Request \<Rightarrow> int option \<Rightarrow> int option \<Rightarrow> ConsignmentFilter" where
  "consignment_filter r offset limit =
     \<lparr>cf_TraderID = None, cf_ChaID = None, cf_Flow = nonempty (query_value (hq_Query r) ''flow''),
      cf_State = nonempty (query_value (hq_Query r) ''state''), cf_Offset = offset, cf_Limit = limit\<rparr>"

definition HandleGetConsignments :: "DBEnv \<Rightarrow> Request \<Rightarrow> ('z, ConsignmentSummaryDTO ListResult Reply) cdb" where
  "HandleGetConsignments env r =
     with_user r (\<lambda>user.
       let role = (if query_value (hq_Query r) ''role'' = '''' then ''trader'' else query_value (hq_Query r) ''role'');
           list = (\<lambda>f. respond (\<lambda>e. ErrorReply 500 ''failed to retrieve consignments'' None) 200 (ListConsignments env f)) in
       case ParsePaginationParams (hq_Query r) of
         Err e \<Rightarrow> returnS (ErrorReply 400 '''' (Some e))
       | Panic \<Rightarrow> liftS Panic
       | Ok (offset, limit) \<Rightarrow>
           if role = ''cha'' then
             bindS (attemptS (GetCHAByEmail env (uc_Email user))) (\<lambda>result.
             case result of
               Err e \<Rightarrow> returnS (if is_not_found e then ErrorReply 403 ''CHA profile not found'' None
                               else ErrorReply 500 ''failed to resolve default CHA profile'' None)
             | Panic \<Rightarrow> liftS Panic
             | Ok cha \<Rightarrow> list ((consignment_filter r offset limit)\<lparr>cf_ChaID := Some (cha_ID cha)\<rparr>))
           else if role = ''trader'' then list ((consignment_filter r offset limit)\<lparr>cf_TraderID := Some (uc_ID user)\<rparr>)
           else returnS (ErrorReply 400 ''query param role must be trader or cha'' None))"

definition dec_initialize :: "string list decoder" where
  "dec_initialize = dec_struct (dec_field (dec_slice dec_string) ''hsCodeIds'')"

definition HandleInitializeConsignment ::
    "ConsignmentEnv \<Rightarrow> 'w ConsignmentService \<Rightarrow> Request \<Rightarrow> ('w, 'z, ConsignmentDetailDTO option Reply) csv" where
  "HandleInitializeConsignment env cs r =
     with_user r (\<lambda>user.
       if path_value r ''id'' = '''' then returnS (ErrorReply 400 ''consignment ID is required'' None)
       else case unmarshal dec_initialize (hq_Body r) of
         Err e \<Rightarrow> returnS (ErrorReply 400 ''invalid request body: '' (Some e))
       | Panic \<Rightarrow> liftS Panic
       | Ok ids \<Rightarrow>
           if ids = [] then returnS (ErrorReply 400 ''hsCodeIds must contain at least one ID'' None)
           else respond (\<lambda>e. ErrorReply 500 ''failed to initialize consignment: '' (Some e)) 200
                  (InitializeConsignmentByID env cs (path_value r ''id'') ids None))"

definition HandleGetConsignmentByID ::
    "ConsignmentEnv \<Rightarrow> 'w ConsignmentService \<Rightarrow> Request \<Rightarrow> ('w, 'z, ConsignmentDetailDTO Reply) csv" where
  "HandleGetConsignmentByID env cs r =
     with_user r (\<lambda>user.
       if path_value r ''id'' = '''' then returnS (ErrorReply 400 ''consignment ID is required'' None)
       else respond (\<lambda>e. ErrorReply 500 ''failed to retrieve consignment: '' (Some e)) 200
              (GetConsignmentByID env cs (path_value r ''id'')))"

section \<open>hs\_code\_router.go, cha\_router.go\<close>

definition query_number :: "Request \<Rightarrow> string \<Rightarrow> int option res" where
  "query_number r k =
     (if query_value (hq_Query r) k = '''' then Ok None
      else bind_res (strconv_Atoi (query_value (hq_Query r) k)) (\<lambda>n. Ok (Some (sint n))))"

definition HandleGetAllHSCodes :: "DBEnv \<Rightarrow> Request \<Rightarrow> ('z, HSCode ListResult Reply) cdb" where
  "HandleGetAllHSCodes env r =
     (case query_number r ''limit'' of
        Ok limit \<Rightarrow>
          (case query_number r ''offset'' of
             Ok offset \<Rightarrow>
               respond (\<lambda>e. ErrorReply 500 '''' (Some e)) 200
                 (GetAllHSCodes env \<lparr>hf_HSCodeStartsWith = nonempty (query_value (hq_Query r) ''hsCodeStartsWith''),
                    hf_Offset = offset, hf_Limit = limit\<rparr>)
           | _ \<Rightarrow> returnS (ErrorReply 400 ''invalid 'offset' query parameter, must be an integer'' None))
      | _ \<Rightarrow> returnS (ErrorReply 400 ''invalid 'limit' query parameter, must be an integer'' None))"

definition HandleGetCHAs :: "DBEnv \<Rightarrow> Request \<Rightarrow> ('z, CHA list Reply) cdb" where
  "HandleGetCHAs env r = respond (\<lambda>e. ErrorReply 500 ''failed to retrieve CHAs: '' (Some e)) 200 (ListCHAs env)"

section \<open>pre\_consignment\_router.go\<close>

definition HandleGetTraderPreConsignments ::
    "DBEnv \<Rightarrow> Request \<Rightarrow> ('z, TraderPreConsignmentResponseDTO ListResult Reply) domain" where
  "HandleGetTraderPreConsignments env r =
     with_user r (\<lambda>user.
       case ParsePaginationParams (hq_Query r) of
         Err e \<Rightarrow> returnS (ErrorReply 400 '''' (Some e))
       | Panic \<Rightarrow> liftS Panic
       | Ok (offset, limit) \<Rightarrow>
           respond (\<lambda>e. ErrorReply 500 ''failed to retrieve pre-consignment templates: '' (Some e)) 200
             (GetTraderPreConsignments env (uc_ID user) offset limit))"

definition HandleCreatePreConsignment :: "DBEnv \<Rightarrow> Request \<Rightarrow> ('z, PreConsignmentResponseDTO option Reply) managed" where
  "HandleCreatePreConsignment env r =
     with_user r (\<lambda>user.
       case unmarshal (dec_struct (dec_field dec_string ''preConsignmentTemplateId'')) (hq_Body r) of
         Err e \<Rightarrow> returnS (ErrorReply 400 ''invalid request body: '' (Some e))
       | Panic \<Rightarrow> liftS Panic
       | Ok templateID \<Rightarrow>
           respond (\<lambda>e. ErrorReply 500 ''failed to create pre-consignment: '' (Some e)) 201
             (InitializePreConsignment env (Some templateID) (uc_ID user) None))"

definition HandleGetPreConsignmentsByTraderID :: "DBEnv \<Rightarrow> Request \<Rightarrow> ('z, PreConsignmentResponseDTO list Reply) domain" where
  "HandleGetPreConsignmentsByTraderID env r =
     with_user r (\<lambda>user.
       respond (\<lambda>e. ErrorReply 500 ''failed to retrieve pre-consignments: '' (Some e)) 200
         (GetPreConsignmentsByTraderID env (uc_ID user)))"

definition HandleGetPreConsignmentByID :: "DBEnv \<Rightarrow> Request \<Rightarrow> ('z, PreConsignmentResponseDTO Reply) domain" where
  "HandleGetPreConsignmentByID env r =
     with_user r (\<lambda>user.
       if path_value r ''preConsignmentId'' = '''' then returnS (ErrorReply 400 ''pre-consignment ID is required'' None)
       else respond (\<lambda>e. ErrorReply 500 ''failed to retrieve pre-consignment: '' (Some e)) 200
              (GetPreConsignmentByID env (path_value r ''preConsignmentId'')))"

end
