(* ===== verification/ConsignmentProperties.thy ===== *)
theory ConsignmentProperties
  imports WorkflowRouters PreConsignmentProperties
begin

text \<open>
  What the operations on consignments do: the exact effect of an initialization on the tables and on
  the workflow library, the way of a consignment through its states, the pages of the list, and the
  search for HS codes.
\<close>

section \<open>Calls\<close>

lemma db_call_cases:
  assumes "db_call env stmt db = (r, db')"
  obtains e where "r = Err e" and "same_tables db db'"
    | "stmt (db\<lparr>db_tick := Suc (db_tick db)\<rparr>) = (r, db')"
  using assms by (auto simp: db_call_def Let_def split: option.splits)

lemma on_tables_run: "on_tables m (w, db) = (r, s') \<longleftrightarrow> (\<exists>db'. m db = (r, db') \<and> s' = (w, db'))"
  by (auto simp: on_tables_def split: prod.splits)

lemma get_consignment_run:
  assumes "get_consignment env i db = (r, db')"
  shows "same_tables db db' \<and> (\<forall>c. r = Ok c \<longrightarrow> c \<in> set (db_consignments db) \<and> c_ID c = i)"
  using assms unfolding get_consignment_def
  by (elim db_call_cases) (auto simp: db_first_def split: option.splits dest: find_Some_mem)

definition put_consignment :: "Consignment \<Rightarrow> 'z ConsignmentDB_scheme \<Rightarrow> 'z ConsignmentDB_scheme" where
  "put_consignment c db = db\<lparr>db_consignments := update_where (\<lambda>r. c_ID r = c_ID c) (\<lambda>_. c) (db_consignments db)\<rparr>"

lemma put_same: "same_tables db d1 \<Longrightarrow> same_tables (put_consignment c d1) d2 \<Longrightarrow> same_tables (put_consignment c db) d2"
proof -
  assume "same_tables db d1" "same_tables (put_consignment c d1) d2"
  then obtain t u where "d1 = db\<lparr>db_tick := t\<rparr>" "d2 = put_consignment c d1\<lparr>db_tick := u\<rparr>"
    unfolding same_tables_def by metis
  then show ?thesis by (simp add: same_tables_def put_consignment_def)
qed

lemma save_consignment_run:
  assumes "save_consignment env c db = (r, db')"
  shows "(r = Ok () \<and> same_tables (put_consignment c db) db')
     \<or> ((\<exists>e. r = Err e) \<and> same_tables db db')"
  using assms unfolding save_consignment_def
  by (elim db_call_cases) (auto simp: same_tables_def put_consignment_def)

lemma template_run:
  assumes "GetWorkflowTemplateByHSCodeIDAndFlowV2 env h f db = (r, db')"
  shows "same_tables db db'"
  using assms unfolding GetWorkflowTemplateByHSCodeIDAndFlowV2_def
  by (auto simp: bindS_iff attemptS_def returnS_def failS_def liftS_def split: prod.splits res.splits if_splits
      dest: read_same_tables)

lemma same_tables_consignments:
  "same_tables db db' \<Longrightarrow> db_consignments db' = db_consignments db"
  unfolding same_tables_def by (erule ssubst) simp

section \<open>The transaction\<close>

text \<open>The row an initialization writes.\<close>

definition initialized :: "Consignment \<Rightarrow> string list \<Rightarrow> Consignment" where
  "initialized c hsCodeIDs = c\<lparr>c_Items := hsCodeIDs, c_State := ConsignmentStateInProgress\<rparr>"

definition the_template :: "'z ConsignmentDB_scheme \<Rightarrow> string \<Rightarrow> string \<Rightarrow> WorkflowTemplateV2 option" where
  "the_template db h flow =
     List.find (\<lambda>t. maps_to (db_template_maps_v2 db) h flow (v2_ID t)) (by_version (db_templates_v2 db))"

lemma undo_same: "same_tables db db' \<or> same_tables (put_consignment c db) db' \<Longrightarrow> same_tables db (undo_consignments db db')"
  unfolding same_tables_def put_consignment_def undo_consignments_def by (elim disjE; erule ssubst; simp)

lemma template_found:
  assumes "GetWorkflowTemplateByHSCodeIDAndFlowV2 env h f db = (Ok (Some t), db')"
  shows "the_template db h f = Some t"
proof -
  have "the_template (db\<lparr>db_tick := Suc (db_tick db)\<rparr>) h f = the_template db h f" by (simp add: the_template_def)
  with assms show ?thesis
    by (auto simp: GetWorkflowTemplateByHSCodeIDAndFlowV2_def op_simps attemptS_def the_template_def db_first_def db_call_def Let_def
        failS_def liftS_def returnS_def split: prod.splits res.splits if_splits option.splits)
qed

lemma the_template_same: "same_tables (put_consignment c db) db' \<Longrightarrow> the_template db' h f = the_template db h f"
  unfolding same_tables_def by (erule ssubst) (simp add: the_template_def put_consignment_def)

text \<open>Whether the library was told to start the workflow of the one HS code's template, and its answer.\<close>

definition told ::
    "'w ConsignmentService \<Rightarrow> Consignment \<Rightarrow> string list \<Rightarrow> obj option \<Rightarrow> 'z ConsignmentDB_scheme \<Rightarrow> 'w \<Rightarrow> unit res \<Rightarrow> 'w \<Rightarrow> bool" where
  "told cs c ids ctx db w q w' \<longleftrightarrow>
     (\<exists>h t lib. ids = [h] \<and> the_template db h (c_Flow c) = Some t \<and> cs_wm cs = Some lib
        \<and> lib_StartWorkflow lib (c_ID c) (v2_WorkflowDefinition t) ctx w = (q, w'))"

lemma initialize_body_run:
  assumes run: "initialize_body env cs c ids ctx (w, db) = (r, (w', db'))" and "ids \<noteq> []"
  shows "(r = Ok () \<and> same_tables (put_consignment (initialized c ids) db) db' \<and> told cs c ids ctx db w (Ok ()) w')
    \<or> (r \<noteq> Ok () \<and> (same_tables db db' \<or> same_tables (put_consignment (initialized c ids) db) db')
        \<and> (w' = w \<or> (\<exists>q. told cs c ids ctx db w q w')))"
proof -
  let ?c = "initialized c ids"
  obtain rs d1 where save: "save_consignment (ce_db env) ?c db = (rs, d1)" by fastforce
  note saved = save_consignment_run [OF save]
  note run' = run [unfolded initialize_body_def bindS_def wrapS_def on_tables_def]
  show ?thesis
  proof (cases "rs = Ok ()")
    case False
    then obtain e where "rs = Err e" "same_tables db d1" using saved by blast
    with run' save show ?thesis by (auto simp: initialized_def)
  next
    case True
    then have put: "same_tables (put_consignment ?c db) d1" using saved by auto
    show ?thesis
    proof (cases "length ids > 1")
      case True
      with run' save \<open>rs = Ok ()\<close> put show ?thesis by (auto simp: initialized_def failS_def)
    next
      case False
      with assms(2) obtain h where h: "ids = [h]" by (cases ids) auto
      obtain rt d2 where tmpl: "GetWorkflowTemplateByHSCodeIDAndFlowV2 (ce_db env) h (c_Flow c) d1 = (rt, d2)" by fastforce
      have put2: "same_tables (put_consignment ?c db) d2" using put template_run [OF tmpl] same_tables_trans by blast
      show ?thesis
      proof (cases "\<exists>t. rt = Ok (Some t)")
        case False
        with run' save \<open>rs = Ok ()\<close> h tmpl put2 show ?thesis
          by (cases rt) (auto simp: initialized_def failS_def split: option.splits)
      next
        case True
        then obtain t where t: "rt = Ok (Some t)" by blast
        have the_t: "the_template db h (c_Flow c) = Some t"
          using template_found [OF tmpl [unfolded t]] the_template_same [OF put] by simp
        show ?thesis
        proof (cases "cs_wm cs")
          case None
          with run' save \<open>rs = Ok ()\<close> h tmpl t put2 show ?thesis by (auto simp: initialized_def on_library_def)
        next
          case (Some lib)
          obtain q w1 where lib: "lib_StartWorkflow lib (c_ID c) (v2_WorkflowDefinition t) ctx w = (q, w1)" by fastforce
          have told: "told cs c ids ctx db w q w1" using h the_t Some lib by (auto simp: told_def)
          obtain rc d3 where commit: "db_call (ce_db env) (\<lambda>d. (Ok (), d)) d2 = (rc, d3)" by fastforce
          have put3: "same_tables (put_consignment ?c db) d3"
            using put2 read_same_tables [OF commit] same_tables_trans by blast
          show ?thesis
          proof (cases q)
            case (Ok u)
            with run' save \<open>rs = Ok ()\<close> h tmpl t Some lib commit put3 told show ?thesis
              by (cases rc) (auto simp: initialized_def on_library_def)
          qed (use run' save \<open>rs = Ok ()\<close> h tmpl t Some lib put2 told in
            \<open>auto simp: initialized_def on_library_def\<close>)
        qed
      qed
    qed
  qed
qed

lemma initialize_tx_run:
  assumes run: "initialize_tx env cs c ids ctx (w, db) = (r, (w', db'))" and "ids \<noteq> []"
  shows "(r = Ok () \<and> same_tables (put_consignment (initialized c ids) db) db' \<and> told cs c ids ctx db w (Ok ()) w')
    \<or> (r \<noteq> Ok () \<and> same_tables db db' \<and> (w' = w \<or> (\<exists>q. told cs c ids ctx db w q w')))"
proof -
  obtain r0 w0 db0 where b: "initialize_body env cs c ids ctx (w, db) = (r0, (w0, db0))" by (metis surj_pair)
  from initialize_body_run [OF b assms(2)] run undo_same [of db db0 "initialized c ids"] show ?thesis
    by (cases r0) (auto simp: initialize_tx_def b)
qed

section \<open>The response\<close>

lemma item_responses:
  assumes "buildConsignmentItemResponseDTOs m items = Ok dtos" and "\<And>i h. map_get m i = Some h \<Longrightarrow> hs_ID h = i"
  shows "map hd_HSCodeID dtos = items"
  using assms(1)
proof (induction items arbitrary: dtos)
  case Nil
  then show ?case by (simp add: buildConsignmentItemResponseDTOs_def)
next
  case (Cons i items)
  from Cons.prems obtain h ds where h: "map_get m i = Some h"
    and ds: "buildConsignmentItemResponseDTOs m items = Ok ds"
    and "dtos = \<lparr>hd_HSCodeID = hs_ID h, hd_HSCode = hs_HSCode h, hd_Description = hs_Description h, hd_Category = hs_Category h\<rparr> # ds"
    by (auto simp: buildConsignmentItemResponseDTOs_def res_simps get_hs_def split: option.splits)
  with Cons.IH [OF ds] assms(2) [OF h] show ?case by simp
qed

lemma load_hs_ids: "load_hs env ids db = (Ok m, db') \<Longrightarrow> map_get m i = Some h \<Longrightarrow> hs_ID h = i"
  by (auto simp: load_hs_def op_simps db_call_def Let_def dest!: map_of_SomeD split: if_splits option.splits)

lemma load_hs_same: "load_hs env ids db = (r, db') \<Longrightarrow> same_tables db db'"
  by (auto simp: load_hs_def returnS_def wrapS_iff split: if_splits dest: read_same_tables)

lemma detail_run:
  assumes "buildConsignmentDetailDTO env c wi m db = (r, db')"
  shows "same_tables db db'"
  using assms unfolding buildConsignmentDetailDTO_def GetWorkflowNodeTemplatesByIDs_def
  by (auto simp: bindS_iff wrapS_iff returnS_def liftS_def split: option.splits prod.splits dest: read_same_tables)

lemma detail_Ok:
  assumes "buildConsignmentDetailDTO env c wi m db = (Ok dto, db')" and "\<And>i h. map_get m i = Some h \<Longrightarrow> hs_ID h = i"
  shows "cd_ID dto = c_ID c \<and> cd_State dto = c_State c \<and> cd_TraderID dto = c_TraderID c
    \<and> map hd_HSCodeID (cd_Items dto) = c_Items c"
  using assms(1) item_responses [OF _ assms(2)] unfolding buildConsignmentDetailDTO_def
  by (fastforce simp: op_simps split: prod.splits)

lemma response_run:
  assumes "consignment_response env c wi db = (r, db')"
  shows "same_tables db db' \<and> (\<forall>dto. r = Ok dto \<longrightarrow> cd_ID dto = c_ID c \<and> cd_State dto = c_State c
    \<and> cd_TraderID dto = c_TraderID c \<and> map hd_HSCodeID (cd_Items dto) = c_Items c)"
proof -
  obtain rm d where load: "load_hs (ce_db env) (collectFromItems [] (c_Items c)) db = (rm, d)" by fastforce
  note s1 = load_hs_same [OF load]
  show ?thesis
  proof (cases rm)
    case (Ok m)
    with assms load have b: "buildConsignmentDetailDTO (ce_db env) c wi m d = (r, db')"
      by (simp add: consignment_response_def bindS_def wrapS_def)
    have ids: "\<And>i h. map_get m i = Some h \<Longrightarrow> hs_ID h = i" using load_hs_ids load Ok by blast
    from same_tables_trans [OF s1 detail_run [OF b]] detail_Ok [OF _ ids] b show ?thesis by blast
  qed (use assms load s1 in \<open>auto simp: consignment_response_def bindS_def wrapS_def\<close>)
qed

lemma initialize_response_run:
  assumes run: "initialize_response env cs i (w, db) = (r, (w', db'))"
    and rows: "\<And>c. c \<in> set (db_consignments db) \<Longrightarrow> c_ID c = i \<Longrightarrow> c = c0"
  shows "same_tables db db' \<and> (w' = w \<or> (\<exists>lib q. cs_wm cs = Some lib \<and> lib_GetStatus lib i w = (q, w')))
    \<and> (\<forall>dto. r = Ok dto \<longrightarrow> cd_ID dto = c_ID c0 \<and> cd_State dto = c_State c0
    \<and> cd_TraderID dto = c_TraderID c0 \<and> map hd_HSCodeID (cd_Items dto) = c_Items c0)"
proof -
  note run' = run [unfolded initialize_response_def bindS_def wrapS_def on_tables_def]
  obtain rc d1 where get: "get_consignment (ce_db env) i db = (rc, d1)" by fastforce
  note got = get_consignment_run [OF get]
  show ?thesis
  proof (cases rc)
    case (Ok c)
    then have c: "c = c0" using got rows by blast
    obtain q w1 where st: "on_library cs (\<lambda>lib. lib_GetStatus lib (c_ID c)) (w, d1) = (q, (w1, d1))"
      and w1: "w1 = w \<or> (\<exists>lib q. cs_wm cs = Some lib \<and> lib_GetStatus lib i w = (q, w1))"
      using got Ok by (cases "cs_wm cs"; cases "lib_GetStatus (the (cs_wm cs)) (c_ID c) w") (auto simp: on_library_def)
    show ?thesis
    proof (cases q)
      case (Ok wi)
      obtain d2 r2 where b: "consignment_response env c wi d1 = (r2, d2)" by fastforce
      from run' get \<open>rc = Ok c\<close> st Ok b have "r = r2" "db' = d2" "w' = w1" by simp_all
      with response_run [OF b] got c w1 same_tables_trans show ?thesis by blast
    qed (use run' get \<open>rc = Ok c\<close> st w1 got in auto)
  qed (use run' get got in auto)
qed

lemma put_rows:
  "c \<in> set (db_consignments (put_consignment c' db)) \<longleftrightarrow>
     (c = c' \<and> (\<exists>r \<in> set (db_consignments db). c_ID r = c_ID c')) \<or> (c \<in> set (db_consignments db) \<and> c_ID c \<noteq> c_ID c')"
  by (auto simp: put_consignment_def update_where_def)

lemma initialized_ID [simp]: "c_ID (initialized c ids) = c_ID c"
  by (simp add: initialized_def)

section \<open>Initialization\<close>

text \<open>
  C7: initializing a consignment writes exactly one row: on success the consignment was INITIALIZED,
  one HS code was given, the library accepted the definition of the template mapped to that code
  and the consignment's flow, the row has the code and is IN_PROGRESS, every other row and table is
  as before, and the response shows that row. When it fails the tables are as before, unless only
  the response could not be read after the commit.
\<close>

theorem initialize_effect:
  assumes "InitializeConsignmentByID env cs i ids ctx (w, db) = (r, (w', db'))"
  shows "(\<exists>c w1. c \<in> set (db_consignments db) \<and> c_ID c = i \<and> c_State c = ConsignmentStateInitialized
        \<and> told cs c ids ctx db w (Ok ()) w1 \<and> (w' = w1 \<or> (\<exists>lib q. cs_wm cs = Some lib \<and> lib_GetStatus lib i w1 = (q, w')))
        \<and> same_tables (put_consignment (initialized c ids) db) db'
        \<and> (\<forall>dto. r = Ok (Some dto) \<longrightarrow> cd_ID dto = i \<and> cd_State dto = ConsignmentStateInProgress
             \<and> cd_TraderID dto = c_TraderID c \<and> map hd_HSCodeID (cd_Items dto) = ids))
    \<or> ((\<forall>dto. r \<noteq> Ok (Some dto)) \<and> same_tables db db'
        \<and> (w' = w \<or> (\<exists>c q. c \<in> set (db_consignments db) \<and> c_ID c = i \<and> c_State c = ConsignmentStateInitialized
              \<and> told cs c ids ctx db w q w')))"
proof (cases "ids = []")
  case True
  with assms show ?thesis by (auto simp: InitializeConsignmentByID_def failS_def)
next
  case False
  note run = assms [unfolded InitializeConsignmentByID_def if_not_P [OF False]]
  obtain rc d1 where get: "get_consignment (ce_db env) i db = (rc, d1)" by fastforce
  note got = get_consignment_run [OF get]
  show ?thesis
  proof (cases "\<exists>c. rc = Ok c \<and> c_State c = ConsignmentStateInitialized")
    case False
    with run get got show ?thesis
      by (cases rc) (auto simp: bindS_def wrapS_def on_tables_def failS_def split: if_splits)
  next
    case True
    then obtain c where c: "rc = Ok c" "c \<in> set (db_consignments db)" "c_ID c = i" "c_State c = ConsignmentStateInitialized"
      using got by blast
    from run get c have rec: "recovered (bindS (initialize_tx env cs c ids ctx) (\<lambda>_. initialize_response env cs (c_ID c))) (w, d1)
        = (r, (w', db'))"
      by (simp add: bindS_def wrapS_def on_tables_def)
    obtain rt wt dt where tx: "initialize_tx env cs c ids ctx (w, d1) = (rt, (wt, dt))" by (metis surj_pair)
    have "db_consignments d1 = db_consignments db" "the_template d1 = the_template db"
      using got unfolding same_tables_def by (auto simp: the_template_def fun_eq_iff elim!: ssubst)
    then have same: "told cs c ids ctx d1 = told cs c ids ctx db"
      "same_tables (put_consignment x d1) y \<Longrightarrow> same_tables (put_consignment x db) y" for x y
      using got put_same by (auto simp: told_def fun_eq_iff)
    note txr = initialize_tx_run [OF tx False]
    show ?thesis
    proof (cases "rt = Ok ()")
      case True
      with txr same have t: "told cs c ids ctx db w (Ok ()) wt" "same_tables (put_consignment (initialized c ids) db) dt" by auto
      obtain rr wr dr where resp: "initialize_response env cs (c_ID c) (wt, dt) = (rr, (wr, dr))" by (metis surj_pair)
      have rows: "x = initialized c ids" if "x \<in> set (db_consignments dt)" "c_ID x = c_ID c" for x
        using that put_rows [of x "initialized c ids" db] same_tables_consignments [OF t(2)] by auto
      note rr = initialize_response_run [OF resp rows]
      have "same_tables (put_consignment (initialized c ids) db) db'" "w' = wr" "\<And>dto. r = Ok (Some dto) \<Longrightarrow> rr = Ok dto"
        using rec tx True resp same_tables_trans [OF t(2)] rr
        by (auto simp: recovered_def bindS_def split: res.splits)
      moreover have "cd_ID dto = i \<and> cd_State dto = ConsignmentStateInProgress
          \<and> cd_TraderID dto = c_TraderID c \<and> map hd_HSCodeID (cd_Items dto) = ids" if "rr = Ok dto" for dto
        using rr that c(3) by (simp add: initialized_def)
      ultimately show ?thesis using t(1) c rr by blast
    next
      case False
      with rec tx have "w' = wt" "db' = dt" "\<And>dto. r \<noteq> Ok (Some dto)"
        by (auto simp: recovered_def bindS_def split: res.splits)
      moreover have "same_tables d1 dt" and "wt = w \<or> (\<exists>q. told cs c ids ctx db w q wt)" using txr False same(1) by auto
      moreover have "same_tables db dt" using got \<open>same_tables d1 dt\<close> same_tables_trans by blast
      ultimately show ?thesis using c by blast
    qed
  qed
qed

section \<open>The life of a consignment\<close>

text \<open>The steps of the system: the three operations that write, and the library on its own.\<close>

inductive c_step ::
    "ConsignmentEnv \<Rightarrow> 'w ConsignmentService \<Rightarrow> ('w \<Rightarrow> string set) \<Rightarrow> 'w \<times> 'z ConsignmentDB_scheme
       \<Rightarrow> 'w \<times> 'z ConsignmentDB_scheme \<Rightarrow> bool" for env cs started where
  shell: "c_step env cs started (w, db) (w, db')" if "CreateConsignmentShell env flow chaID traderID db = (r, db')"
| init: "c_step env cs started s s'" if "InitializeConsignmentByID env cs i ids ctx s = (r, s')"
| complete: "c_step env cs started (w, db) (w, db')" if "CompletionHandler (ce_db env) i finalContext db = (r, db')"
| library: "c_step env cs started (w, db) (w', db)" if "started w \<subseteq> started w'"

inductive c_reachable ::
    "ConsignmentEnv \<Rightarrow> 'w ConsignmentService \<Rightarrow> ('w \<Rightarrow> string set) \<Rightarrow> 'w \<times> 'z ConsignmentDB_scheme \<Rightarrow> bool"
  for env cs started where
  empty: "c_reachable env cs started (w, db)" if "db_consignments db = []"
| step: "c_reachable env cs started s'" if "c_reachable env cs started s" and "c_step env cs started s s'"

text \<open>What the library says of the workflows it started, through \<open>started\<close>: it forgets none.\<close>

definition records_starts :: "'w ConsignmentService \<Rightarrow> ('w \<Rightarrow> string set) \<Rightarrow> bool" where
  "records_starts cs started \<longleftrightarrow>
     (\<forall>lib i d x w q w'. cs_wm cs = Some lib \<longrightarrow> lib_StartWorkflow lib i d x w = (q, w') \<longrightarrow>
        started w \<subseteq> started w' \<and> (q = Ok () \<longrightarrow> i \<in> started w'))
     \<and> (\<forall>lib i w q w'. cs_wm cs = Some lib \<longrightarrow> lib_GetStatus lib i w = (q, w') \<longrightarrow> started w \<subseteq> started w')"

definition row_ok :: "string set \<Rightarrow> Consignment \<Rightarrow> bool" where
  "row_ok ids c \<longleftrightarrow>
     (c_State c = ConsignmentStateInitialized \<and> c_Items c = [])
     \<or> (c_State c = ConsignmentStateInProgress \<and> length (c_Items c) = 1 \<and> c_ID c \<in> ids)
     \<or> (c_State c = ConsignmentStateFinished \<and> length (c_Items c) \<le> 1)"

definition rows_ok :: "string set \<Rightarrow> Consignment list \<Rightarrow> bool" where
  "rows_ok ids cs \<longleftrightarrow> distinct (map c_ID cs) \<and> (\<forall>c \<in> set cs. row_ok ids c)"

lemma row_ok_mono: "row_ok ids c \<Longrightarrow> ids \<subseteq> ids' \<Longrightarrow> row_ok ids' c"
  by (auto simp: row_ok_def)

lemma rows_ok_mono: "rows_ok ids cs \<Longrightarrow> ids \<subseteq> ids' \<Longrightarrow> rows_ok ids' cs"
  using row_ok_mono by (auto simp: rows_ok_def)

lemma put_IDs: "map c_ID (db_consignments (put_consignment c db)) = map c_ID (db_consignments db)"
  unfolding put_consignment_def by (simp add: update_where_map_same)

lemma put_rows_ok:
  "rows_ok ids (db_consignments db) \<Longrightarrow> row_ok ids c \<Longrightarrow> rows_ok ids (db_consignments (put_consignment c db))"
  unfolding rows_ok_def put_IDs by (auto simp: put_rows)

text \<open>The first creation of a row, and the rows after a completion.\<close>

lemma shell_rows:
  assumes "CreateConsignmentShell env flow chaID traderID db = (r, db')"
  shows "db_consignments db' = db_consignments db \<or>
    (\<exists>c. db_consignments db' = db_consignments db @ [c] \<and> c_ID c \<notin> set (map c_ID (db_consignments db))
       \<and> c_State c = ConsignmentStateInitialized \<and> c_Items c = [] \<and> c_TraderID c = traderID \<and> c_CHAID c = chaID
       \<and> c_Flow c = flow \<and> (\<exists>a \<in> set (db_chas db). cha_ID a = chaID))"
proof -
  note run = assms [unfolded CreateConsignmentShell_def bindS_def wrapS_def]
  let ?c0 = "\<lparr>c_ID = '''', c_Flow = flow, c_TraderID = traderID, c_State = ConsignmentStateInitialized, c_Items = [],
          c_CHAID = chaID, c_CreatedAt = 0\<rparr>"
  obtain ra d1 where cha: "db_call (ce_db env) (\<lambda>db. (db_first (\<lambda>c. cha_ID c = chaID) (db_chas db), db)) db = (ra, d1)"
    by fastforce
  note s1 = same_tables_consignments [OF read_same_tables [OF cha]]
  show ?thesis
  proof (cases ra)
    case (Ok a)
    have a: "\<exists>a \<in> set (db_chas db). cha_ID a = chaID"
      using cha Ok by (auto simp: op_simps dest: db_first_Ok)
    obtain rc d2 where create: "create_consignment env ?c0 d1 = (rc, d2)" by fastforce
    show ?thesis
    proof (cases rc)
      case (Ok c)
      have new: "db_consignments d2 = db_consignments db @ [c] \<and> c_ID c \<notin> set (map c_ID (db_consignments db))
         \<and> c_State c = ConsignmentStateInitialized \<and> c_Items c = [] \<and> c_TraderID c = traderID \<and> c_CHAID c = chaID \<and> c_Flow c = flow"
        using create Ok s1 by (auto simp: create_consignment_def op_simps Let_def image_iff split: if_splits)
      obtain rr d3 where reload: "get_consignment (ce_db env) (c_ID c) d2 = (rr, d3)" by fastforce
      have "db_consignments db' = db_consignments d2"
      proof (cases rr)
        case (Ok c')
        from run cha \<open>ra = Ok a\<close> create \<open>rc = Ok c\<close> reload Ok
        have "buildConsignmentDetailDTO (ce_db env) c' None [] d3 = (r, db')" by simp
        then show ?thesis
          using same_tables_consignments detail_run get_consignment_run [OF reload] by metis
      qed (use run cha \<open>ra = Ok a\<close> create \<open>rc = Ok c\<close> reload get_consignment_run [OF reload]
          in \<open>auto dest: same_tables_consignments\<close>)
      with new a show ?thesis by auto
    next
      case (Err e)
      with create s1 have "db_consignments d2 = db_consignments db"
        by (auto simp: create_consignment_def db_call_def Let_def split: option.splits if_splits)
      with run cha \<open>ra = Ok a\<close> create Err show ?thesis by simp
    next
      case Panic
      with create show ?thesis by (auto simp: create_consignment_def db_call_def Let_def split: option.splits if_splits)
    qed
  qed (use run cha s1 in auto)
qed

lemma completion_rows:
  assumes "CompletionHandler env i x db = (r, db')"
  shows "same_tables db db' \<or>
    (\<exists>c \<in> set (db_consignments db). c_ID c = i \<and> same_tables (put_consignment (c\<lparr>c_State := ConsignmentStateFinished\<rparr>) db) db')"
proof -
  note run = assms [unfolded CompletionHandler_def c_OnWorkflowStatusChanged_def markConsignmentAsFinished_def bindS_def wrapS_def]
  obtain rc d1 where get: "get_consignment env i db = (rc, d1)" by fastforce
  note got = get_consignment_run [OF get]
  show ?thesis
  proof (cases rc)
    case (Ok c)
    obtain rs d2 where save: "save_consignment env (c\<lparr>c_State := ConsignmentStateFinished\<rparr>) d1 = (rs, d2)" by fastforce
    have "db' = d2" using run get Ok save by simp
    moreover have "same_tables (put_consignment (c\<lparr>c_State := ConsignmentStateFinished\<rparr>) db) d2 \<or> same_tables db d2"
      using save_consignment_run [OF save] got put_same same_tables_trans by blast
    ultimately show ?thesis using got Ok by blast
  qed (use run get got in auto)
qed

lemma reachable_rows:
  assumes "c_reachable env cs started s" and "records_starts cs started"
  shows "rows_ok (started (fst s)) (db_consignments (snd s))"
  using assms(1)
proof (induction rule: c_reachable.induct)
  case (empty db w)
  then show ?case by (simp add: rows_ok_def)
next
  case (step s s')
  note ok = step.IH
  from step.hyps(2) show ?case
  proof (cases rule: c_step.cases)
    case (shell flow chaID traderID db r db' w)
    with shell_rows [OF shell(3)] ok show ?thesis by (auto simp: rows_ok_def row_ok_def)
  next
    case (init i ids ctx r)
    obtain w db w' db' where s: "s = (w, db)" "s' = (w', db')" by (metis surj_pair)
    have mono: "told cs c ids ctx db w q v \<Longrightarrow> started w \<subseteq> started v" for c q v
      using assms(2) unfolding told_def records_starts_def by blast
    consider (ok) c w1 where "c \<in> set (db_consignments db)" and "told cs c ids ctx db w (Ok ()) w1"
        and "same_tables (put_consignment (initialized c ids) db) db'"
        and "w' = w1 \<or> (\<exists>lib q. cs_wm cs = Some lib \<and> lib_GetStatus lib i w1 = (q, w'))"
      | (failed) "same_tables db db'" and "w' = w \<or> (\<exists>c q. told cs c ids ctx db w q w')"
      using initialize_effect [OF init [unfolded s]] by blast
    then show ?thesis
    proof cases
      case ok': (ok c w1)
      note c = ok'(1) and t = ok'(2) and put = ok'(3) and w' = ok'(4)
      have "started w1 \<subseteq> started w'" using w' assms(2) unfolding records_starts_def by blast
      moreover have "c_ID c \<in> started w1" using t assms(2) unfolding told_def records_starts_def by blast
      ultimately have "row_ok (started w') (initialized c ids)"
        using t by (auto simp: row_ok_def initialized_def told_def)
      moreover have "rows_ok (started w') (db_consignments db)"
        using rows_ok_mono [OF ok, of "started w'"] mono [OF t] \<open>started w1 \<subseteq> started w'\<close> s by auto
      ultimately show ?thesis using put_rows_ok same_tables_consignments [OF put] s by (metis fst_conv snd_conv)
    next
      case failed
      then show ?thesis
        using rows_ok_mono [OF ok, of "started w'"] mono same_tables_consignments [of db db'] s by auto
    qed
  next
    case (complete i x db r db' w)
    from completion_rows [OF complete(3)] show ?thesis
    proof
      assume "same_tables db db'"
      then show ?thesis using ok complete same_tables_consignments [of db db'] by simp
    next
      assume "\<exists>c \<in> set (db_consignments db). c_ID c = i
        \<and> same_tables (put_consignment (c\<lparr>c_State := ConsignmentStateFinished\<rparr>) db) db'"
      then obtain c where c: "c \<in> set (db_consignments db)"
        and put: "same_tables (put_consignment (c\<lparr>c_State := ConsignmentStateFinished\<rparr>) db) db'" by blast
      have "row_ok (started w) c" using ok c complete by (auto simp: rows_ok_def)
      then have "row_ok (started w) (c\<lparr>c_State := ConsignmentStateFinished\<rparr>)" by (auto simp: row_ok_def)
      then show ?thesis using ok complete put_rows_ok same_tables_consignments [OF put] by auto
    qed
  next
    case (library w w' db)
    with ok rows_ok_mono show ?thesis by auto
  qed
qed

definition c_rank :: "string \<Rightarrow> nat" where
  "c_rank st = (if st = ConsignmentStateInitialized then 0 else if st = ConsignmentStateInProgress then 1 else 2)"

lemma step_forward:
  assumes "c_step env cs started s s'" and "distinct (map c_ID (db_consignments (snd s)))"
    and c: "c \<in> set (db_consignments (snd s))"
  shows "\<exists>c' \<in> set (db_consignments (snd s')). c_ID c' = c_ID c \<and> c_Flow c' = c_Flow c \<and> c_TraderID c' = c_TraderID c
    \<and> c_CHAID c' = c_CHAID c \<and> c_CreatedAt c' = c_CreatedAt c \<and> c_rank (c_State c) \<le> c_rank (c_State c')
    \<and> (c_Items c' = c_Items c \<or> c_State c = ConsignmentStateInitialized)"
proof -
  have put: ?thesis if "db_consignments (snd s') = db_consignments (put_consignment x (snd s))"
    and "x0 \<in> set (db_consignments (snd s))" "c_ID x = c_ID x0"
    and "x = initialized x0 ids \<and> c_State x0 = ConsignmentStateInitialized \<or> x = x0\<lparr>c_State := ConsignmentStateFinished\<rparr>" for x x0 ids
  proof (cases "c_ID c = c_ID x0")
    case True
    then have "c = x0" using assms(2) c that(2) by (metis distinct_map inj_onD)
    with that c show ?thesis
      by (intro bexI [of _ x]) (auto simp: put_rows initialized_def c_rank_def)
  next
    case False
    with that c show ?thesis by (intro bexI [of _ c]) (auto simp: put_rows)
  qed
  have same: ?thesis if "db_consignments (snd s') = db_consignments (snd s) @ ys" for ys
    using that c by (intro bexI [of _ c]) auto
  from assms(1) show ?thesis
  proof (cases rule: c_step.cases)
    case (shell flow chaID traderID db r db' w)
    from shell_rows [OF shell(3)] same [of "[]"] same shell(1,2) show ?thesis by auto
  next
    case (init i ids ctx r)
    obtain w db w' db' where s: "s = (w, db)" "s' = (w', db')" by (metis surj_pair)
    have "(\<exists>x \<in> set (db_consignments db). c_State x = ConsignmentStateInitialized
        \<and> same_tables (put_consignment (initialized x ids) db) db') \<or> same_tables db db'"
      using initialize_effect [OF init [unfolded s]] by blast
    then show ?thesis
    proof (elim disjE bexE conjE)
      fix x
      assume "x \<in> set (db_consignments db)" "c_State x = ConsignmentStateInitialized"
        "same_tables (put_consignment (initialized x ids) db) db'"
      then show ?thesis
        using put [of "initialized x ids" x ids] same_tables_consignments [of "put_consignment (initialized x ids) db" db'] s by auto
    next
      assume "same_tables db db'"
      then show ?thesis using same [of "[]"] same_tables_consignments [of db db'] s by auto
    qed
  next
    case (complete i x db r db' w)
    from completion_rows [OF complete(3)] show ?thesis
    proof
      assume "same_tables db db'"
      then show ?thesis using same [of "[]"] same_tables_consignments [of db db'] complete(1,2) by auto
    next
      assume "\<exists>c \<in> set (db_consignments db). c_ID c = i
        \<and> same_tables (put_consignment (c\<lparr>c_State := ConsignmentStateFinished\<rparr>) db) db'"
      then obtain c0 where "c0 \<in> set (db_consignments db)"
        "same_tables (put_consignment (c0\<lparr>c_State := ConsignmentStateFinished\<rparr>) db) db'" by blast
      then show ?thesis
        using put [of "c0\<lparr>c_State := ConsignmentStateFinished\<rparr>" c0] same_tables_consignments [of _ db'] complete(1,2) by auto
    qed
  next
    case (library w w' db)
    then show ?thesis using same [of "[]"] by auto
  qed
qed

section \<open>Lists\<close>

definition list_query :: "(Consignment \<Rightarrow> bool) \<Rightarrow> ConsignmentFilter \<Rightarrow> Consignment \<Rightarrow> bool" where
  "list_query base f c \<longleftrightarrow> base c \<and> (\<forall>st. cf_State f = Some st \<longrightarrow> c_State c = st) \<and> (\<forall>fl. cf_Flow f = Some fl \<longrightarrow> c_Flow c = fl)"

text \<open>An item of a list shows a row.\<close>

definition shows_row :: "'z ConsignmentDB_scheme \<Rightarrow> ConsignmentSummaryDTO \<Rightarrow> Consignment \<Rightarrow> bool" where
  "shows_row db sm c \<longleftrightarrow>
     sm_ID sm = c_ID c \<and> sm_Flow sm = c_Flow c \<and> sm_TraderID sm = c_TraderID c \<and> sm_ChaID sm = c_CHAID c
     \<and> sm_State sm = c_State c \<and> map hd_HSCodeID (sm_Items sm) = c_Items c
     \<and> sm_CompletedWorkflowNodeCount sm =
         int (length (filter (\<lambda>n. n_WorkflowID n = c_ID c \<and> n_State n = COMPLETED) (db_nodes db)))
     \<and> sm_WorkflowNodeCount sm =
         (let total = int (length (filter (\<lambda>n. n_WorkflowID n = c_ID c) (db_nodes db)))
          in if (\<exists>w \<in> set (db_workflows db). wf_ID w = c_ID c \<and> wf_EndNodeID w \<noteq> None) \<and> total > 0 then total - 1 else total)"

lemma node_counts_get:
  assumes "i \<in> set ids"
  shows "(case map_get (node_counts nodes ids) i of None \<Rightarrow> (0, 0) | Some c \<Rightarrow> c)
    = (int (length (filter (\<lambda>n. n_WorkflowID n = i) nodes)),
       int (length (filter (\<lambda>n. n_WorkflowID n = i \<and> n_State n = COMPLETED) nodes)))"
proof -
  have get: "map_of (map (\<lambda>k. (k, f k)) ks) i = (if i \<in> set ks then Some (f i) else None)" for f :: "string \<Rightarrow> int \<times> int" and ks
    by (induction ks) auto
  have none: "i \<notin> set (map n_WorkflowID nodes) \<Longrightarrow> filter (\<lambda>n. n_WorkflowID n = i \<and> P n) nodes = []" for P
    by (auto simp: filter_empty_conv)
  show ?thesis
    using assms none [of "\<lambda>_. True"] none [of "\<lambda>n. n_State n = COMPLETED"]
    by (auto simp: node_counts_def get split: option.splits)
qed

lemma summaries_show:
  assumes "mapM_res (summary_of m (node_counts (db_nodes db) ids) (end_nodes (db_workflows db) ids)) cs = Ok dtos"
    and "set (map c_ID cs) \<subseteq> set ids" and "\<And>i h. map_get m i = Some h \<Longrightarrow> hs_ID h = i"
  shows "list_all2 (shows_row db) dtos cs"
  using assms(1,2)
proof (induction cs arbitrary: dtos)
  case Nil
  then show ?case by simp
next
  case (Cons c cs)
  let ?counts = "node_counts (db_nodes db) ids" and ?ends = "end_nodes (db_workflows db) ids"
  from Cons.prems obtain sm ds where parts: "summary_of m ?counts ?ends c = Ok sm"
    "mapM_res (summary_of m ?counts ?ends) cs = Ok ds" "dtos = sm # ds"
    by (auto simp: res_simps)
  then obtain items where items: "buildConsignmentItemResponseDTOs m (c_Items c) = Ok items"
    by (auto simp: res_simps summary_of_def)
  have i: "c_ID c \<in> set ids" using Cons.prems(2) by simp
  have "(c_ID c \<in> set ?ends) = (\<exists>w \<in> set (db_workflows db). wf_ID w = c_ID c \<and> wf_EndNodeID w \<noteq> None)"
    using i by (force simp: end_nodes_def)
  then have "shows_row db sm c"
    using parts(1) items item_responses [OF items assms(3)] node_counts_get [OF i, of "db_nodes db"]
    by (auto simp: summary_of_def shows_row_def shown_counts_def Let_def; blast)
  with Cons.IH [OF parts(2)] Cons.prems(2) parts(3) show ?case by simp
qed

lemma newest_first_sorted: "sorted_wrt (\<lambda>a b. c_CreatedAt a \<ge> c_CreatedAt b) (newest_first rows)"
proof -
  have "sorted (map (\<lambda>c. - c_CreatedAt c) (newest_first rows))" by (simp add: newest_first_def)
  then show ?thesis by (simp add: sorted_wrt_map)
qed

lemma list_page:
  assumes "listConsignmentsWithBaseQuery env base f db = (Ok page, db')"
  shows "\<exists>rows. mset rows = mset (filter (list_query base f) (db_consignments db))
    \<and> sorted_wrt (\<lambda>a b. c_CreatedAt a \<ge> c_CreatedAt b) rows
    \<and> lr_TotalCount page = length rows
    \<and> (lr_Offset page, lr_Limit page) = GetPaginationParams (cf_Offset f) (cf_Limit f)
    \<and> list_all2 (shows_row db) (lr_Items page) (db_page (lr_Offset page) (lr_Limit page) rows)"
proof -
  obtain off lim where pg: "GetPaginationParams (cf_Offset f) (cf_Limit f) = (off, lim)" by fastforce
  have query: "(\<lambda>c. base c \<and> (case cf_State f of None \<Rightarrow> True | Some st \<Rightarrow> c_State c = st)
        \<and> (case cf_Flow f of None \<Rightarrow> True | Some fl \<Rightarrow> c_Flow c = fl)) = list_query base f"
    by (auto simp: list_query_def fun_eq_iff split: option.splits)
  note run = assms [unfolded listConsignmentsWithBaseQuery_def pg Let_def prod.case query]
  show ?thesis
  proof (cases "filter (list_query base f) (db_consignments db) = []")
    case True
    with run have "page = \<lparr>lr_TotalCount = 0, lr_Items = [], lr_Offset = off, lr_Limit = lim\<rparr>"
      by (auto simp: op_simps db_call_def Let_def split: option.splits if_splits)
    with True pg show ?thesis by (intro exI [of _ "[]"]) (simp add: db_page_def)
  next
    case False
    let ?rows = "newest_first (db_find env (Suc (Suc (db_tick db))) c_ID (list_query base f) (db_consignments db))"
    let ?shown = "db_page off lim ?rows"
    from run False obtain m dtos where
      m: "load_hs env (fold (\<lambda>c ids. collectFromItems ids (c_Items c)) ?shown [])
        (db\<lparr>db_tick := Suc (Suc (Suc (Suc (db_tick db))))\<rparr>) = (Ok m, db')"
      and dtos: "mapM_res (summary_of m (node_counts (db_nodes db) (map c_ID ?shown)) (end_nodes (db_workflows db) (map c_ID ?shown))) ?shown = Ok dtos"
      and page: "page = \<lparr>lr_TotalCount = length (filter (list_query base f) (db_consignments db)), lr_Items = dtos,
        lr_Offset = off, lr_Limit = lim\<rparr>"
      by (auto simp: op_simps db_call_def Let_def split: option.splits if_splits)
    have "list_all2 (shows_row db) dtos ?shown"
      by (rule summaries_show [OF dtos order_refl]) (rule load_hs_ids [OF m])
    moreover have perm: "mset ?rows = mset (filter (list_query base f) (db_consignments db))"
      by (simp add: newest_first_def mset_db_find)
    moreover have "length ?rows = length (filter (list_query base f) (db_consignments db))"
      using perm by (rule mset_eq_length)
    ultimately show ?thesis
      using newest_first_sorted page pg by (intro exI [of _ ?rows]) simp
  qed
qed

section \<open>Properties\<close>

text \<open>
  C6: a consignment only moves forward: in every state the service and the library reach, an
  INITIALIZED consignment has no HS code, one IN_PROGRESS has one and its workflow was started by
  the library, a FINISHED one has at most one; and no operation, whatever it returns, takes a
  consignment away, back to an earlier state, or changes its trader, agent, flow or chosen code. The
  state IN_PROGRESS may be skipped: an INITIALIZED consignment becomes FINISHED, without a code, when a workflow
  that was started but whose commit failed completes.
\<close>

theorem consignment_moves_forward:
  assumes "c_reachable env cs started s" and "records_starts cs started"
    and "c_step env cs started s s'" and "c \<in> set (db_consignments (snd s))"
  shows "((c_State c = ConsignmentStateInitialized \<and> c_Items c = [])
      \<or> (c_State c = ConsignmentStateInProgress \<and> length (c_Items c) = 1 \<and> c_ID c \<in> started (fst s))
      \<or> (c_State c = ConsignmentStateFinished \<and> length (c_Items c) \<le> 1))
    \<and> (\<exists>c' \<in> set (db_consignments (snd s')). c_ID c' = c_ID c \<and> c_Flow c' = c_Flow c \<and> c_TraderID c' = c_TraderID c
        \<and> c_CHAID c' = c_CHAID c \<and> c_CreatedAt c' = c_CreatedAt c \<and> c_rank (c_State c) \<le> c_rank (c_State c')
        \<and> (c_Items c' = c_Items c \<or> c_State c = ConsignmentStateInitialized))"
proof -
  have "rows_ok (started (fst s)) (db_consignments (snd s))" by (rule reachable_rows [OF assms(1,2)])
  then have "row_ok (started (fst s)) c" "distinct (map c_ID (db_consignments (snd s)))"
    using assms(4) by (simp_all add: rows_ok_def)
  then show ?thesis using step_forward [OF assms(3) _ assms(4)] unfolding row_ok_def by blast
qed

lemma wrap_err_eq_Err: "wrap_err fmt args r = Err e \<longleftrightarrow> (\<exists>x. r = Err x \<and> e = Wrapf fmt args x)"
  by (cases r) auto

text \<open>Only the commit fails with this message, after the library accepted the workflow.\<close>

lemma commit_error_told:
  assumes "initialize_body env cs c ids ctx (w, db) = (Err (Wrapf ''failed to commit: %w'' [] e), (w', db'))" and "ids \<noteq> []"
  shows "told cs c ids ctx db w (Ok ()) w'"
proof -
  obtain rs d1 where save: "save_consignment (ce_db env) (initialized c ids) db = (rs, d1)" by fastforce
  note run = assms(1) [unfolded initialize_body_def initialized_def [symmetric] bindS_def wrapS_def on_tables_def failS_def]
  have rs: "rs = Ok ()" using run save by (cases rs) auto
  have put: "same_tables (put_consignment (initialized c ids) db) d1"
    using save_consignment_run [OF save] rs by auto
  have len: "\<not> 1 < length ids" using run save rs by auto
  then obtain h where h: "ids = [h]" using assms(2) by (cases ids) auto
  obtain rt d2 where tmpl: "GetWorkflowTemplateByHSCodeIDAndFlowV2 (ce_db env) h (c_Flow c) d1 = (rt, d2)" by fastforce
  obtain t where t: "rt = Ok (Some t)" using run save rs h tmpl by (cases rt) (auto split: option.splits)
  obtain lib where lib: "cs_wm cs = Some lib" using run save rs h tmpl t by (cases "cs_wm cs") (auto simp: on_library_def)
  obtain q w1 where start: "lib_StartWorkflow lib (c_ID c) (v2_WorkflowDefinition t) ctx w = (q, w1)" by fastforce
  have "q = Ok ()" "w1 = w'"
    using run save rs h tmpl t lib start by (cases q; auto simp: on_library_def split: prod.splits)+
  moreover have "the_template db h (c_Flow c) = Some t"
    using template_found [OF tmpl [unfolded t]] the_template_same [OF put] by simp
  ultimately show ?thesis using h lib start by (auto simp: told_def)
qed

text \<open>
  C31: the workflow is started before the commit: when the commit fails the consignment stays
  INITIALIZED without an HS code although the library runs its workflow, and when that workflow
  completes the consignment becomes FINISHED without ever having had a code.
\<close>

theorem failed_commit_orphans_workflow:
  assumes "distinct (map c_ID (db_consignments db))" and "c \<in> set (db_consignments db)"
    and "c_State c = ConsignmentStateInitialized" and "c_Items c = []" and "ids \<noteq> []"
    and "initialize_tx env cs c ids ctx (w, db) = (Err (Wrapf ''failed to commit: %w'' [] e), (w', db'))"
    and "CompletionHandler env' (c_ID c) finalContext db' = (Ok (), db'')"
  shows "told cs c ids ctx db w (Ok ()) w' \<and> c \<in> set (db_consignments db')
    \<and> (\<exists>c' \<in> set (db_consignments db''). c_ID c' = c_ID c \<and> c_State c' = ConsignmentStateFinished \<and> c_Items c' = [])"
proof -
  obtain db0 where body: "initialize_body env cs c ids ctx (w, db) = (Err (Wrapf ''failed to commit: %w'' [] e), (w', db0))"
    using assms(6) by (auto simp: initialize_tx_def split: prod.splits res.splits)
  have same: "same_tables db db'" using initialize_tx_run [OF assms(6,5)] by simp
  note rows = same_tables_consignments [OF same]
  obtain rc d1 where get: "get_consignment env' (c_ID c) db' = (rc, d1)" by fastforce
  note run = assms(7) [unfolded CompletionHandler_def c_OnWorkflowStatusChanged_def markConsignmentAsFinished_def bindS_def wrapS_def]
  obtain x where x: "rc = Ok x" using run get by (cases rc) auto
  have "x = c"
    using get_consignment_run [OF get] x rows assms(1,2) by (metis distinct_map inj_onD)
  obtain rs d2 where save: "save_consignment env' (c\<lparr>c_State := ConsignmentStateFinished\<rparr>) d1 = (rs, d2)" by fastforce
  have "rs = Ok ()" "db'' = d2" using run get x \<open>x = c\<close> save by (cases rs; simp)+
  then have "same_tables (put_consignment (c\<lparr>c_State := ConsignmentStateFinished\<rparr>) db') db''"
    using save_consignment_run [OF save] get_consignment_run [OF get] put_same by blast
  note final = same_tables_consignments [OF this]
  have "c\<lparr>c_State := ConsignmentStateFinished\<rparr> \<in> set (db_consignments db'')"
    unfolding final put_rows using assms(2) rows by auto
  then have "\<exists>c' \<in> set (db_consignments db''). c_ID c' = c_ID c \<and> c_State c' = ConsignmentStateFinished \<and> c_Items c' = []"
    using assms(4) by (intro bexI [of _ "c\<lparr>c_State := ConsignmentStateFinished\<rparr>"]) simp_all
  with commit_error_told [OF body assms(5)] assms(2) rows show ?thesis by simp
qed

text \<open>What the filters of a request for a list ask for.\<close>

definition asks_for :: "Request \<Rightarrow> Consignment \<Rightarrow> bool" where
  "asks_for r c \<longleftrightarrow>
     (query_value (hq_Query r) ''state'' = '''' \<or> c_State c = query_value (hq_Query r) ''state'')
     \<and> (query_value (hq_Query r) ''flow'' = '''' \<or> c_Flow c = query_value (hq_Query r) ''flow'')"

lemma asks_for_filter: "list_query base (consignment_filter r offset limit) = (\<lambda>c. base c \<and> asks_for r c)"
  by (auto simp: list_query_def consignment_filter_def asks_for_def nonempty_def fun_eq_iff)

text \<open>
  C14: a list of consignments is the caller's own and the page the request asks for: a successful answer
  (status 200) to the role trader, which is the default, has the consignments of the calling trader, and to the
  role cha those assigned to the agent with the caller's email, of the state and the flow the request names; no
  other role gets a list. They come newest first, from the offset and up to the limit of the request's query, each
  with its HS codes and the numbers of its nodes in the tables of the first workflow engine; the total counts all of
  them.
\<close>

theorem consignment_list_is_own:
  assumes "HandleGetConsignments env r db = (Ok (Reply n page), db')"
  defines "role \<equiv> query_value (hq_Query r) ''role''"
  shows "\<exists>ctx u own off lim rows. hq_Auth r = Some ctx \<and> ax_User ctx = Some u \<and> n = 200
    \<and> (role \<in> {'''', ''trader''} \<and> own = (\<lambda>c. c_TraderID c = uc_ID u)
       \<or> role = ''cha'' \<and> (\<exists>a \<in> set (db_chas db). cha_Email a = uc_Email u \<and> own = (\<lambda>c. c_CHAID c = cha_ID a)))
    \<and> mset rows = mset (filter (\<lambda>c. own c \<and> asks_for r c) (db_consignments db))
    \<and> sorted_wrt (\<lambda>a b. c_CreatedAt a \<ge> c_CreatedAt b) rows \<and> lr_TotalCount page = length rows
    \<and> ParsePaginationParams (hq_Query r) = Ok (off, lim) \<and> (lr_Offset page, lr_Limit page) = GetPaginationParams off lim
    \<and> list_all2 (shows_row db) (lr_Items page) (db_page (lr_Offset page) (lr_Limit page) rows)"
proof -
  obtain ctx u where u: "hq_Auth r = Some ctx" "ax_User ctx = Some u"
    using with_user_Ok [OF assms(1) [unfolded HandleGetConsignments_def]] by auto
  note run = assms(1) [unfolded HandleGetConsignments_def with_user_def GetAuthContext_def u option.case Let_def]
  obtain off lim where pg: "ParsePaginationParams (hq_Query r) = Ok (off, lim)"
    using run by (cases "ParsePaginationParams (hq_Query r)") (auto simp: returnS_def liftS_def)
  let ?role = "if query_value (hq_Query r) ''role'' = '''' then ''trader'' else query_value (hq_Query r) ''role''"
  have q: "list_query b (f\<lparr>cf_ChaID := x\<rparr>) = list_query b f" "list_query b (f\<lparr>cf_TraderID := x\<rparr>) = list_query b f" for b f x
    by (simp_all add: list_query_def fun_eq_iff)
  have f: "cf_ChaID (consignment_filter r off lim) = None" "cf_Offset (consignment_filter r off lim) = off"
    "cf_Limit (consignment_filter r off lim) = lim" by (simp_all add: consignment_filter_def)
  show ?thesis
  proof (cases "?role = ''cha''")
    case True
    obtain ra d1 where cha: "GetCHAByEmail env (uc_Email u) db = (ra, d1)" by fastforce
    have same: "same_tables db d1" using cha by (auto simp: GetCHAByEmail_def wrapS_iff dest: read_same_tables)
    obtain a where a: "ra = Ok a" using run pg True cha
      by (cases ra) (auto simp: bindS_def attemptS_def returnS_def liftS_def split: if_splits)
    have mem: "a \<in> set (db_chas db) \<and> cha_Email a = uc_Email u"
      using cha a by (auto simp: GetCHAByEmail_def op_simps dest: db_first_Ok)
    have list: "listConsignmentsWithBaseQuery env (\<lambda>c. c_CHAID c = cha_ID a)
        ((consignment_filter r off lim)\<lparr>cf_ChaID := Some (cha_ID a)\<rparr>) d1 = (Ok page, db') \<and> n = 200"
      using run pg True cha a
      by (auto simp: bindS_def attemptS_def respond_run ListConsignments_def split: prod.splits res.splits)
    have role: "role = ''cha''" using True by (auto simp: role_def split: if_splits)
    note page = list_page [OF conjunct1 [OF list]]
    have "shows_row d1 = shows_row db"
      using same_tables_fields [OF same] by (simp add: shows_row_def fun_eq_iff)
    then show ?thesis
      using page u mem f pg role list unfolding q same_tables_consignments [OF same] asks_for_filter by auto
  next
    case False
    then have trader: "?role = ''trader''" using run pg by (auto simp: returnS_def split: if_splits)
    then have role: "role \<in> {'''', ''trader''}" by (auto simp: role_def split: if_splits)
    from trader have list: "listConsignmentsWithBaseQuery env (\<lambda>c. c_TraderID c = uc_ID u)
        ((consignment_filter r off lim)\<lparr>cf_TraderID := Some (uc_ID u)\<rparr>) db = (Ok page, db') \<and> n = 200"
      using run pg f by (auto simp: respond_run ListConsignments_def split: prod.splits res.splits)
    from list_page [OF conjunct1 [OF list]] show ?thesis
      unfolding q asks_for_filter using u f pg role list by auto
  qed
qed

lemma like_all: "sql_like ''%'' s"
  by (induction s) simp_all

lemma like_prefix: "set p \<inter> {CHR ''%'', CHR ''_'', CHR 0x5C} = {} \<Longrightarrow> sql_like (p @ ''%'') s \<longleftrightarrow> prefix p s"
proof (induction p arbitrary: s)
  case Nil
  then show ?case using like_all by simp
next
  case (Cons c p)
  then show ?case by (cases s) auto
qed

text \<open>
  the search for HS codes finds prefixes: for a text without \<open>%\<close>, \<open>_\<close> and backslash the
  service returns the requested page of the codes that begin with the text, ordered by code, and
  their number; with \<open>%\<close> every code matches.
\<close>

theorem hs_search_finds_prefixes:
  assumes "set p \<inter> {CHR ''%'', CHR ''_'', CHR 0x5C} = {}"
    and "GetAllHSCodes env \<lparr>hf_HSCodeStartsWith = Some p, hf_Offset = offset, hf_Limit = limit\<rparr> db = (Ok page, db')"
  shows "\<exists>rows. mset rows = mset (filter (\<lambda>h. prefix p (hs_HSCode h)) (db_hs_codes db))
    \<and> sorted (map hs_HSCode rows) \<and> lr_TotalCount page = length rows
    \<and> (rows \<noteq> [] \<longrightarrow> (lr_Offset page, lr_Limit page) = GetPaginationParams offset limit)
    \<and> lr_Items page = db_page (lr_Offset page) (lr_Limit page) rows"
proof -
  let ?f = "\<lparr>hf_HSCodeStartsWith = Some p, hf_Offset = offset, hf_Limit = limit\<rparr>"
  obtain o' l' where pg: "GetPaginationParams offset limit = (o', l')" by fastforce
  have m: "hs_matches ?f h = prefix p (hs_HSCode h)" for h
    by (auto simp: hs_matches_def like_prefix [OF assms(1)])
  define Q where "Q = hs_matches ?f"
  define rows where "rows = sort_key hs_HSCode (db_find env (Suc (Suc (db_tick db))) hs_ID Q (db_hs_codes db))"
  have perm: "mset rows = mset (filter Q (db_hs_codes db))"
    unfolding rows_def by (simp only: mset_sort mset_db_find)
  have len: "length rows = length (filter Q (db_hs_codes db))" using perm by (rule mset_eq_length)
  note run = assms(2) [unfolded GetAllHSCodes_def Q_def [symmetric]]
  have "if filter Q (db_hs_codes db) = [] then page = \<lparr>lr_TotalCount = 0, lr_Items = [], lr_Offset = 0, lr_Limit = 0\<rparr>
      else page = \<lparr>lr_TotalCount = length (filter Q (db_hs_codes db)), lr_Items = db_page o' l' rows, lr_Offset = o', lr_Limit = l'\<rparr>"
    using run by (auto simp: op_simps db_call_def Let_def pg rows_def split: option.splits if_splits)
  moreover have "rows = [] \<longleftrightarrow> filter Q (db_hs_codes db) = []" using len by (metis length_0_conv)
  moreover have "filter Q (db_hs_codes db) = filter (\<lambda>h. prefix p (hs_HSCode h)) (db_hs_codes db)"
    unfolding Q_def by (rule filter_cong [OF refl m])
  ultimately show ?thesis
    using perm len pg by (intro exI [of _ rows]) (auto simp: db_page_def rows_def split: if_splits)
qed

section \<open>Witnesses\<close>

text \<open>A library that remembers what it started and shows one node of each workflow.\<close>

definition c_lib :: "string list TemporalManager" where
  "c_lib =
     \<lparr>lib_StartWorkflow = (\<lambda>i d x w. (Ok (), i # w)),
      lib_GetStatus = (\<lambda>i w. (Ok (Some \<lparr>wi_NodeInfo = [\<lparr>ni_ID = ''n'', ni_Type = NodeTypeTask, ni_TaskTemplateID = ''form'',
        ni_Status = NodeStatusRunning\<rparr>], wi_Edges = []\<rparr>), w)),
      lib_TaskDone = (\<lambda>i r n outs w. (Ok (), w)), lib_StartWorker = returnS (), lib_StopWorker = returnS ()\<rparr>"

definition c_service :: "string list ConsignmentService" where
  "c_service = \<lparr>cs_wm = Some c_lib\<rparr>"

definition c_env :: "(nat \<Rightarrow> go_error option) \<Rightarrow> ConsignmentEnv" where
  "c_env faults = \<lparr>ce_db = pc_env\<lparr>dbFault := faults\<rparr>, ce_now = int\<rparr>"

definition c_row :: Consignment where
  "c_row = \<lparr>c_ID = ''c1'', c_Flow = ''IMPORT'', c_TraderID = ''trader'', c_State = ''INITIALIZED'', c_Items = [], c_CHAID = ''agent'',
     c_CreatedAt = 1\<rparr>"

definition c_demo_db :: "Consignment list \<Rightarrow> ConsignmentDB" where
  "c_demo_db rows =
     \<lparr>db_nodes = [], db_workflows = [],
      db_node_templates = [\<lparr>t_ID = ''form'', t_Name = ''Form'', t_Type = ''SIMPLE_FORM'', t_Config = None, t_DependsOn = [],
        t_UnlockConfiguration = None\<rparr>], db_tick = 0, db_workflow_templates = [], db_pc_templates = [], db_pcs = [],
      db_consignments = rows, db_chas = [\<lparr>cha_ID = ''agent'', cha_Name = ''Agent'', cha_Description = [], cha_Email = ''a@b''\<rparr>],
      db_hs_codes = [\<lparr>hs_ID = ''h1'', hs_HSCode = ''0902.10'', hs_Description = ''Tea'', hs_Category = ''Food''\<rparr>],
      db_template_maps = [], db_templates_v2 = [\<lparr>v2_ID = ''t'', v2_Name = ''T'', v2_Version = ''1'', v2_WorkflowDefinition = JNull\<rparr>],
      db_template_maps_v2 = [\<lparr>mp_HSCodeID = ''h1'', mp_ConsignmentFlow = ''IMPORT'', mp_WorkflowTemplateID = ''t''\<rparr>]\<rparr>"

lemma demo_initialized:
  "(case InitializeConsignmentByID (c_env (\<lambda>_. None)) c_service ''c1'' [''h1''] None ([], c_demo_db [c_row]) of
      (Ok (Some dto), (w, db)) \<Rightarrow> cd_State dto = ''IN_PROGRESS'' \<and> map hd_HSCode (cd_Items dto) = [''0902.10''] \<and> w = [''c1'']
    | _ \<Rightarrow> False)"
  by code_simp

theorem initialize_effect_witness:
  "\<exists>dto w db. InitializeConsignmentByID (c_env (\<lambda>_. None)) c_service ''c1'' [''h1''] None ([], c_demo_db [c_row]) = (Ok (Some dto), (w, db))
     \<and> cd_State dto = ConsignmentStateInProgress \<and> map hd_HSCodeID (cd_Items dto) = [''h1'']"
proof -
  obtain r w db where run: "InitializeConsignmentByID (c_env (\<lambda>_. None)) c_service ''c1'' [''h1''] None ([], c_demo_db [c_row]) = (r, (w, db))"
    by (metis surj_pair)
  with demo_initialized obtain dto where "r = Ok (Some dto)" by (auto split: res.splits option.splits)
  with initialize_effect [OF run] run show ?thesis by auto
qed

text \<open>The creation of a shell, then its initialization, from empty tables.\<close>

definition c_shell :: ConsignmentDB where
  "c_shell = snd (CreateConsignmentShell (c_env (\<lambda>_. None)) ''IMPORT'' ''agent'' ''trader'' (c_demo_db []))"

lemma c_shell_rows:
  "map (\<lambda>c. (c_ID c, c_State c, c_Items c)) (db_consignments c_shell) = [(''id-20'', ''INITIALIZED'', [])]"
  by code_simp

definition c_started :: "string list \<times> ConsignmentDB" where
  "c_started = snd (InitializeConsignmentByID (c_env (\<lambda>_. None)) c_service ''id-20'' [''h1''] None ([], c_shell))"

lemma c_started_rows:
  "map (\<lambda>c. (c_ID c, c_State c, c_Items c)) (db_consignments (snd c_started)) = [(''id-20'', ''IN_PROGRESS'', [''h1''])]"
  by code_simp

theorem consignment_moves_forward_witness:
  "\<exists>c. db_consignments (snd c_started) = [c] \<and> c_State c = ConsignmentStateInProgress \<and> c_ID c \<in> set (fst c_started)
     \<and> (\<exists>c' \<in> set (db_consignments (snd (CompletionHandler pc_env (c_ID c) [] (snd c_started)))). c_Items c' = c_Items c)"
proof -
  let ?env = "c_env (\<lambda>_. None)"
  have rec: "records_starts c_service set" by (auto simp: records_starts_def c_service_def c_lib_def)
  have "c_reachable ?env c_service set ([], c_demo_db [])" by (rule c_reachable.empty) (simp add: c_demo_db_def)
  moreover have "c_step ?env c_service set ([], c_demo_db []) ([], c_shell)"
    unfolding c_shell_def by (rule c_step.shell) (rule prod.collapse [symmetric])
  ultimately have "c_reachable ?env c_service set ([], c_shell)" by (rule c_reachable.step)
  moreover have "c_step ?env c_service set ([], c_shell) c_started"
    unfolding c_started_def by (rule c_step.init) (rule prod.collapse [symmetric])
  ultimately have reach: "c_reachable ?env c_service set c_started" by (rule c_reachable.step)
  obtain c where c: "db_consignments (snd c_started) = [c]" "c_State c = ''IN_PROGRESS''"
    using c_started_rows by (cases "db_consignments (snd c_started)") auto
  have "c_step ?env c_service set (fst c_started, snd c_started)
      (fst c_started, snd (CompletionHandler (ce_db ?env) (c_ID c) [] (snd c_started)))"
    by (rule c_step.complete) (rule prod.collapse [symmetric])
  moreover have "ce_db ?env = pc_env" by (simp add: c_env_def pc_env_def)
  ultimately have step: "c_step ?env c_service set c_started
      (fst c_started, snd (CompletionHandler pc_env (c_ID c) [] (snd c_started)))" by simp
  from consignment_moves_forward [OF reach rec step, of c] c show ?thesis by auto
qed

text \<open>The commit, the third statement of the transaction, fails.\<close>

definition c_broken :: "unit res \<times> string list \<times> ConsignmentDB" where
  "c_broken = initialize_tx (c_env (\<lambda>t. if t = 2 then Some (External ''connection lost'') else None)) c_service c_row [''h1''] None
     ([], c_demo_db [c_row])"

lemma c_broken_result: "fst c_broken = Err (Wrapf ''failed to commit: %w'' [] (External ''connection lost''))"
  by code_simp

lemma c_broken_completes: "fst (CompletionHandler pc_env ''c1'' [] (snd (snd c_broken))) = Ok ()"
  by code_simp

theorem failed_commit_orphans_workflow_witness:
  "c_row \<in> set (db_consignments (snd (snd c_broken)))
     \<and> (\<exists>c' \<in> set (db_consignments (snd (CompletionHandler pc_env ''c1'' [] (snd (snd c_broken))))).
          c_State c' = ConsignmentStateFinished \<and> c_Items c' = [])"
proof -
  obtain w db where run: "c_broken = (Err (Wrapf ''failed to commit: %w'' [] (External ''connection lost'')), (w, db))"
    by (metis c_broken_result prod.collapse)
  obtain db2 where complete: "CompletionHandler pc_env ''c1'' [] db = (Ok (), db2)"
    using c_broken_completes run by (metis prod.collapse snd_conv)
  have "c_row \<in> set (db_consignments (c_demo_db [c_row]))" "distinct (map c_ID (db_consignments (c_demo_db [c_row])))"
    "c_State c_row = ''INITIALIZED''" "c_Items c_row = []" "c_ID c_row = ''c1''" by (simp_all add: c_demo_db_def c_row_def)
  with complete have "c_row \<in> set (db_consignments db)
      \<and> (\<exists>c' \<in> set (db_consignments db2). c_State c' = ConsignmentStateFinished \<and> c_Items c' = [])"
    using failed_commit_orphans_workflow [OF _ _ _ _ _ run [unfolded c_broken_def], of pc_env "[]" db2] by auto
  then show ?thesis by (simp add: run complete)
qed

definition c_request :: "(string \<times> string) list \<Rightarrow> Request" where
  "c_request q = \<lparr>hq_Auth = Some \<lparr>ax_User = Some \<lparr>uc_ID = ''trader'', uc_IDPUserID = ''idp'', uc_Email = ''t@b'', uc_PhoneNumber = [],
     uc_OUID = [], uc_Roles = []\<rparr>, ax_Client = None\<rparr>, hq_Path = [], hq_Query = q, hq_Body = None, hq_Header = []\<rparr>"

lemma c_listed:
  "(case fst (HandleGetConsignments pc_env (c_request []) (c_demo_db [c_row, c_row\<lparr>c_ID := ''c2'', c_TraderID := ''other''\<rparr>])) of
      Ok (Reply n page) \<Rightarrow> map sm_ID (lr_Items page) = [''c1''] | _ \<Rightarrow> False)"
  by code_simp

theorem consignment_list_is_own_witness:
  "\<exists>page db'. HandleGetConsignments pc_env (c_request []) (c_demo_db [c_row, c_row\<lparr>c_ID := ''c2'', c_TraderID := ''other''\<rparr>])
       = (Ok (Reply 200 page), db') \<and> map sm_ID (lr_Items page) = [''c1'']
     \<and> (lr_Offset page, lr_Limit page) = GetPaginationParams None None"
proof -
  obtain r db' where run: "HandleGetConsignments pc_env (c_request []) (c_demo_db [c_row, c_row\<lparr>c_ID := ''c2'', c_TraderID := ''other''\<rparr>]) = (r, db')"
    by fastforce
  with c_listed obtain n page where page: "r = Ok (Reply n page)" "map sm_ID (lr_Items page) = [''c1'']"
    by (auto split: res.splits Reply.splits)
  have "ParsePaginationParams (hq_Query (c_request [])) = Ok (None, None)"
    by (simp add: c_request_def query_value_def ParsePaginationParams_def)
  then have "n = 200 \<and> (lr_Offset page, lr_Limit page) = GetPaginationParams None None"
    using consignment_list_is_own [OF run [unfolded page(1)]] by auto
  then show ?thesis using run page by simp
qed

lemma c_hs_found:
  "(case fst (GetAllHSCodes pc_env \<lparr>hf_HSCodeStartsWith = Some ''0902'', hf_Offset = None, hf_Limit = None\<rparr> (c_demo_db [])) of
      Ok page \<Rightarrow> map hs_ID (lr_Items page) = [''h1''] | _ \<Rightarrow> False)"
  by code_simp

theorem hs_search_finds_prefixes_witness:
  "\<exists>page rows. fst (GetAllHSCodes pc_env \<lparr>hf_HSCodeStartsWith = Some ''0902'', hf_Offset = None, hf_Limit = None\<rparr> (c_demo_db [])) = Ok page
     \<and> map hs_ID (lr_Items page) = [''h1''] \<and> lr_Items page = db_page (lr_Offset page) (lr_Limit page) rows"
proof -
  obtain r db' where run: "GetAllHSCodes pc_env \<lparr>hf_HSCodeStartsWith = Some ''0902'', hf_Offset = None, hf_Limit = None\<rparr> (c_demo_db []) = (r, db')"
    by fastforce
  with c_hs_found obtain page where page: "r = Ok page" "map hs_ID (lr_Items page) = [''h1'']" by (auto split: res.splits)
  have "set ''0902'' \<inter> {CHR ''%'', CHR ''_'', CHR 0x5C} = {}" by simp
  from hs_search_finds_prefixes [OF this run [unfolded page(1)]] run page show ?thesis by auto
qed

end
