(* ===== verification/UserProfiles.thy ===== *)
theory UserProfiles
  imports Consignments
begin

text \<open>
  The service of user profiles, \<open>backend/internal/profile/user/\<close>, on the tables of the backend. Other
  sessions may sign the same user in at the same moment: \<open>ue_others\<close> gives the rows they have
  inserted since the last statement, each subject to the unique columns of the table.
\<close>

record UserRecord =
  ur_ID :: string
  ur_IDPUserID :: string
  ur_Email :: string
  ur_PhoneNumber :: string
  ur_OUID :: string
  ur_Data :: any

record UserDB = ConsignmentDB +
  db_users :: "UserRecord list"

type_synonym ('z, 'a) udb = "('z UserDB_scheme, 'a) op"

record UserEnv =
  ue_db :: DBEnv
  ue_others :: "nat \<Rightarrow> UserRecord list"

definition ErrInvalidUserID :: go_error where
  "ErrInvalidUserID = Errorf ''invalid user ID'' []"

definition ErrUserNotFound :: go_error where
  "ErrUserNotFound = Errorf ''user not found'' []"

section \<open>Statements\<close>

definition insert_user :: "UserRecord \<Rightarrow> UserRecord list \<Rightarrow> UserRecord list" where
  "insert_user u rows =
     (if \<exists>r \<in> set rows. ur_ID r = ur_ID u \<or> ur_IDPUserID r = ur_IDPUserID u then rows else rows @ [u])"

definition arrive :: "UserRecord list \<Rightarrow> UserRecord list \<Rightarrow> UserRecord list" where
  "arrive us rows = fold insert_user us rows"

definition user_call :: "UserEnv \<Rightarrow> ('z, 'a) udb \<Rightarrow> ('z, 'a) udb" where
  "user_call env stmt db =
     db_call (ue_db env) stmt (db\<lparr>db_users := arrive (ue_others env (db_tick db)) (db_users db)\<rparr>)"

definition first_user :: "UserEnv \<Rightarrow> (UserRecord \<Rightarrow> bool) \<Rightarrow> ('z, UserRecord) udb" where
  "first_user env p = user_call env (\<lambda>db. (db_first p (db_users db), db))"

text \<open>\<open>INSERT \<dots> ON CONFLICT (idp_user_id) DO NOTHING\<close>, with the number of rows it affected.\<close>

definition create_user :: "UserEnv \<Rightarrow> UserRecord \<Rightarrow> ('z, nat) udb" where
  "create_user env u =
     user_call env (\<lambda>db.
       if \<exists>r \<in> set (db_users db). ur_IDPUserID r = ur_IDPUserID u then (Ok 0, db)
       else if \<exists>r \<in> set (db_users db). ur_ID r = ur_ID u
            then (Err (External ''duplicate key value violates unique constraint''), db)
       else (Ok 1, db\<lparr>db_users := db_users db @ [u]\<rparr>))"

section \<open>The service\<close>

definition GetUser :: "UserEnv \<Rightarrow> string \<Rightarrow> ('z, UserRecord) udb" where
  "GetUser env i =
     (if i = '''' then failS ErrInvalidUserID
      else bindS (attemptS (first_user env (\<lambda>r. ur_ID r = i))) (\<lambda>result.
        case result of
          Ok record \<Rightarrow> returnS record
        | Err e \<Rightarrow> failS (if is_not_found e then ErrUserNotFound else Wrapf ''database query failed: %w'' [] e)
        | Panic \<Rightarrow> liftS Panic))"

definition getUserIDByIDP :: "UserEnv \<Rightarrow> string \<Rightarrow> ('z, string option) udb" where
  "getUserIDByIDP env idpUserID =
     (if idpUserID = '''' then failS ErrInvalidUserID
      else bindS (attemptS (first_user env (\<lambda>r. ur_IDPUserID r = idpUserID))) (\<lambda>result.
        case result of
          Ok record \<Rightarrow> returnS (Some (ur_ID record))
        | Err e \<Rightarrow> if is_not_found e then returnS None else failS (Wrapf ''database query failed: %w'' [] e)
        | Panic \<Rightarrow> liftS Panic))"

definition new_user :: "UserEnv \<Rightarrow> nat \<Rightarrow> string \<Rightarrow> string \<Rightarrow> string \<Rightarrow> string \<Rightarrow> UserRecord" where
  "new_user env t idpUserID email phone ouID =
     \<lparr>ur_ID = newUUID (ue_db env) t 0, ur_IDPUserID = idpUserID, ur_Email = email, ur_PhoneNumber = phone,
      ur_OUID = ouID, ur_Data = JObj []\<rparr>"

definition GetOrCreateUser ::
    "UserEnv \<Rightarrow> string \<Rightarrow> string \<Rightarrow> string \<Rightarrow> string \<Rightarrow> ('z, string option) udb" where
  "GetOrCreateUser env idpUserID email phone ouID =
     (if idpUserID = '''' then failS ErrInvalidUserID
      else bindS (getUserIDByIDP env idpUserID) (\<lambda>existingID.
        case existingID of
          Some i \<Rightarrow> returnS (Some i)
        | None \<Rightarrow>
            bindS (\<lambda>db. (Ok (new_user env (db_tick db) idpUserID email phone ouID), db)) (\<lambda>record.
            bindS (wrapS ''database insert failed: %w'' [] (create_user env record)) (\<lambda>affected.
            if affected = 0 then
              bindS (getUserIDByIDP env idpUserID) (\<lambda>duplicateID.
              case duplicateID of
                Some i \<Rightarrow> returnS (Some i)
              | None \<Rightarrow> failS (Errorf ''user record insert skipped but existing record not found'' []))
            else returnS (Some (ur_ID record))))))"

text \<open>The bytes of the data, when they are JSON; the column takes nothing else.\<close>

definition UpdateUserData :: "UserEnv \<Rightarrow> string \<Rightarrow> any option \<Rightarrow> ('z, unit) udb" where
  "UpdateUserData env i data =
     (if i = '''' then failS ErrInvalidUserID
      else bindS (wrapS ''database update failed: %w'' [] (user_call env (\<lambda>db.
          case data of
            None \<Rightarrow> (Err (External ''invalid input syntax for type json''), db)
          | Some d \<Rightarrow> (Ok (length (filter (\<lambda>r. ur_ID r = i) (db_users db))),
                       db\<lparr>db_users := update_where (\<lambda>r. ur_ID r = i) (\<lambda>r. r\<lparr>ur_Data := d\<rparr>) (db_users db)\<rparr>)))) (\<lambda>affected.
        if affected = 0 then failS ErrUserNotFound else returnS ()))"

definition user_Health :: "UserEnv \<Rightarrow> ('z, unit) udb" where
  "user_Health env = wrapS ''user service health check failed: %w'' [] (user_call env (\<lambda>db. (Ok (), db)))"

end
