(* ===== verification/Authentication.thy ===== *)
theory Authentication
  imports HttpApi UserProfiles
begin

text \<open>
  \<open>backend/internal/auth/\<close>: the extraction of a principal from a bearer token, with the cache of the
  identity provider's keys, and the middleware that puts an authentication context into a request.
  The JWT library is a parameter of the definitions that use it; the clock and the exchange with the
  keys' endpoint are answered by \<open>AuthEnv\<close>, each reading of the clock and each exchange taking a tick. Times and
  durations are in nanoseconds.
\<close>

section \<open>token\_parser.go: types\<close>

record tokenClaims =
  tc_Issuer :: string
  tc_Subject :: string
  tc_ExpiresAt :: "int option"
  tc_ClientID :: string
  tc_GrantType :: string
  tc_Email :: "string option"
  tc_PhoneNumber :: "string option"
  tc_OUID :: "string option"
  tc_Roles :: "string list"

definition AuthorizationCodeGrant :: string where "AuthorizationCodeGrant = ''authorization_code''"
definition ClientCredentialsGrant :: string where "ClientCredentialsGrant = ''client_credentials''"

datatype PrincipalType = UserPrincipalType | ClientPrincipalType

record UserPrincipal =
  up_UserID :: string
  up_Email :: string
  up_PhoneNumber :: "string option"
  up_OUID :: string
  up_Roles :: "string list"

record ClientPrincipal =
  cp_ClientID :: string

record Principal =
  pr_Type :: PrincipalType
  pr_UserPrincipal :: "UserPrincipal option"
  pr_ClientPrincipal :: "ClientPrincipal option"

record jwk =
  jk_Kid :: string
  jk_Kty :: string
  jk_Alg :: string
  jk_Use :: string
  jk_N :: string
  jk_E :: string

record HttpClient =
  hc_Timeout :: int
  hc_InsecureSkipVerify :: bool

record TokenExtractor =
  te_jwksURL :: string
  te_expIssuer :: string
  te_expAudience :: string
  te_expClientIDs :: "string list"
  te_httpClient :: "HttpClient option"
  te_cachedJWKS :: "jwk list option"
  te_lastJWKSFetch :: int
  te_jwksCacheTTL :: int

definition seconds :: "int \<Rightarrow> int" where "seconds n = n * 10 ^ 9"

definition defaultJWKSCacheTTL :: int where "defaultJWKSCacheTTL = 5 * seconds 60"

section \<open>Construction\<close>

definition validateConfig :: "TokenExtractor \<Rightarrow> unit res" where
  "validateConfig te =
     (if te_jwksURL te = '''' then Err (Errorf ''jwks url is not configured'' [])
      else if te_expIssuer te = '''' then Err (Errorf ''issuer is not configured'' [])
      else if te_expAudience te = '''' then Err (Errorf ''audience is not configured'' [])
      else if te_expClientIDs te = [] then Err (Errorf ''client ids are not configured'' [])
      else if te_httpClient te = None then Err (Errorf ''http client is not configured'' [])
      else Ok ())"

definition NewTokenExtractorWithClient ::
    "string \<Rightarrow> string \<Rightarrow> string \<Rightarrow> string list \<Rightarrow> HttpClient option \<Rightarrow> TokenExtractor res" where
  "NewTokenExtractorWithClient jwksURL issuer audience expectedClientIDs httpClient =
     (let extractor = \<lparr>te_jwksURL = trim_space jwksURL, te_expIssuer = trim_space issuer, te_expAudience = trim_space audience,
        te_expClientIDs = expectedClientIDs,
        te_httpClient = (case httpClient of None \<Rightarrow> Some \<lparr>hc_Timeout = seconds 10, hc_InsecureSkipVerify = False\<rparr> | Some c \<Rightarrow> Some c),
        te_cachedJWKS = None, te_lastJWKSFetch = 0, te_jwksCacheTTL = defaultJWKSCacheTTL\<rparr>
      in bind_res (validateConfig extractor) (\<lambda>_. Ok extractor))"

definition NewTokenExtractor :: "string \<Rightarrow> string \<Rightarrow> string \<Rightarrow> string list \<Rightarrow> TokenExtractor res" where
  "NewTokenExtractor jwksURL issuer audience expectedClientIDs =
     NewTokenExtractorWithClient jwksURL issuer audience expectedClientIDs None"

section \<open>utils.go: keys\<close>

text \<open>
  \<open>base64.RawURLEncoding\<close>: no padding, line breaks are skipped, the unused bits of the last character are not
  looked at. \<open>big.Int.Int64\<close> keeps the low 64 bits.
\<close>

definition b64_value :: "char \<Rightarrow> nat option" where
  "b64_value c =
     (let n = of_char c :: nat in
      if 65 \<le> n \<and> n \<le> 90 then Some (n - 65)
      else if 97 \<le> n \<and> n \<le> 122 then Some (n - 71)
      else if 48 \<le> n \<and> n \<le> 57 then Some (n + 4)
      else if c = CHR ''-'' then Some 62
      else if c = CHR ''_'' then Some 63
      else None)"

fun b64_bytes :: "nat list \<Rightarrow> nat list option" where
  "b64_bytes [] = Some []"
| "b64_bytes [a] = None"
| "b64_bytes [a, b] = Some [4 * a + b div 16]"
| "b64_bytes [a, b, c] = Some [4 * a + b div 16, 16 * (b mod 16) + c div 4]"
| "b64_bytes (a # b # c # d # rest) =
     map_option (\<lambda>bs. (4 * a + b div 16) # (16 * (b mod 16) + c div 4) # (64 * (c mod 4) + d) # bs) (b64_bytes rest)"

definition raw_url_decode :: "string \<Rightarrow> nat list res" where
  "raw_url_decode s =
     (case Option.bind (those (map b64_value (filter (\<lambda>c. c \<noteq> CHR 0x0A \<and> c \<noteq> CHR 0x0D) s))) b64_bytes of
        None \<Rightarrow> Err (External ''illegal base64 data'') | Some bs \<Rightarrow> Ok bs)"

definition set_bytes :: "nat list \<Rightarrow> nat" where
  "set_bytes bs = foldl (\<lambda>n b. 256 * n + b) 0 bs"

definition big_int64 :: "nat \<Rightarrow> int" where
  "big_int64 n = sint (of_nat n :: 64 word)"

record PublicKey =
  pk_N :: nat
  pk_E :: int

definition parseRSAPublicKey :: "jwk \<Rightarrow> PublicKey res" where
  "parseRSAPublicKey key =
     (if jk_Kty key \<noteq> ''RSA'' then Err (Errorf ''unsupported jwk key type: %s'' [jk_Kty key])
      else bind_res (wrap_err ''failed to decode jwk modulus: %w'' [] (raw_url_decode (jk_N key))) (\<lambda>modulusBytes.
           bind_res (wrap_err ''failed to decode jwk exponent: %w'' [] (raw_url_decode (jk_E key))) (\<lambda>exponentBytes.
           if modulusBytes = [] \<or> exponentBytes = [] then Err (Errorf ''invalid jwk key data'' [])
           else let exponentInt = big_int64 (set_bytes exponentBytes) in
             if exponentInt \<le> 0 then Err (Errorf ''invalid jwk exponent'' [])
             else Ok \<lparr>pk_N = set_bytes modulusBytes, pk_E = exponentInt\<rparr>)))"

section \<open>The cache of the keys\<close>

record AuthEnv =
  ae_now :: "nat \<Rightarrow> int"
  ae_request :: "string \<Rightarrow> go_error option"
  ae_get :: "HttpClient \<Rightarrow> string \<Rightarrow> nat \<Rightarrow> (nat \<times> any res) res"

record AuthState =
  as_extractor :: TokenExtractor
  as_tick :: nat

type_synonym 'a auth = "(AuthState, 'a) op"

definition tick :: "(nat \<Rightarrow> 'a res) \<Rightarrow> 'a auth" where
  "tick f st = (f (as_tick st), st\<lparr>as_tick := Suc (as_tick st)\<rparr>)"

definition clock :: "AuthEnv \<Rightarrow> int auth" where
  "clock env = tick (\<lambda>t. Ok (ae_now env t))"

definition dec_jwk :: "jwk decoder" where
  "dec_jwk = dec_struct (\<lambda>m.
     bind_res (dec_field dec_string ''kid'' m) (\<lambda>kid.
     bind_res (dec_field dec_string ''kty'' m) (\<lambda>kty.
     bind_res (dec_field dec_string ''alg'' m) (\<lambda>alg.
     bind_res (dec_field dec_string ''use'' m) (\<lambda>use.
     bind_res (dec_field dec_string ''n'' m) (\<lambda>n.
     bind_res (dec_field dec_string ''e'' m) (\<lambda>e.
     Ok \<lparr>jk_Kid = kid, jk_Kty = kty, jk_Alg = alg, jk_Use = use, jk_N = n, jk_E = e\<rparr>)))))))"

definition dec_jwks :: "jwk list decoder" where
  "dec_jwks = dec_struct (dec_field (dec_slice dec_jwk) ''keys'')"

text \<open>What \<open>fetchJWKS\<close> makes of the answer of an exchange.\<close>

definition jwks_answer :: "(nat \<times> any res) res \<Rightarrow> jwk list res" where
  "jwks_answer answer =
     bind_res (wrap_err ''failed to fetch jwks: %w'' [] answer) (\<lambda>(status, body).
     if status \<noteq> 200 then Err (Errorf ''jwks endpoint returned status %d'' [show_nat status])
     else bind_res (wrap_err ''failed to decode jwks response: %w'' [] (bind_res body dec_jwks)) (\<lambda>keys.
          if keys = [] then Err (Errorf ''jwks response has no keys'' []) else Ok keys))"

definition fetchJWKS :: "AuthEnv \<Rightarrow> jwk list auth" where
  "fetchJWKS env st =
     (let te = as_extractor st in
      case ae_request env (te_jwksURL te) of
        Some e \<Rightarrow> (Err (Wrapf ''failed to build jwks request: %w'' [] e), st)
      | None \<Rightarrow>
          (case te_httpClient te of
             None \<Rightarrow> (Panic, st)
           | Some client \<Rightarrow> tick (\<lambda>t. jwks_answer (ae_get env client (te_jwksURL te) t)) st))"

definition cache_valid :: "TokenExtractor \<Rightarrow> int \<Rightarrow> bool" where
  "cache_valid te now \<longleftrightarrow>
     te_cachedJWKS te \<noteq> None \<and> te_jwksCacheTTL te > 0 \<and> now - te_lastJWKSFetch te < te_jwksCacheTTL te"

definition store_keys :: "jwk list \<Rightarrow> int \<Rightarrow> jwk list auth" where
  "store_keys keys now st =
     (Ok keys, st\<lparr>as_extractor := (as_extractor st)\<lparr>te_cachedJWKS := Some keys, te_lastJWKSFetch := now\<rparr>\<rparr>)"

text \<open>The clock is read before the read lock and again under the write lock.\<close>

definition getJWKS :: "AuthEnv \<Rightarrow> bool \<Rightarrow> jwk list auth" where
  "getJWKS env forceRefresh =
     bindS (clock env) (\<lambda>now st.
       if \<not> forceRefresh \<and> cache_valid (as_extractor st) now then (Ok (the (te_cachedJWKS (as_extractor st))), st)
       else bindS (clock env) (\<lambda>now st.
         if \<not> forceRefresh \<and> cache_valid (as_extractor st) now then (Ok (the (te_cachedJWKS (as_extractor st))), st)
         else bindS (fetchJWKS env) (\<lambda>jwks. store_keys jwks now) st) st)"

section \<open>The key of a token\<close>

datatype SigningMethod = SigningMethodRSA string | OtherMethod string

fun method_Alg :: "SigningMethod \<Rightarrow> string" where
  "method_Alg (SigningMethodRSA a) = a"
| "method_Alg (OtherMethod a) = a"

record Token =
  tk_Method :: SigningMethod
  tk_Header :: obj

text \<open>The loop over the keys: \<open>None\<close> when none has the id.\<close>

fun find_key :: "string \<Rightarrow> jwk list \<Rightarrow> PublicKey res option" where
  "find_key kid [] = None"
| "find_key kid (key # keys) = (if jk_Kid key \<noteq> kid then find_key kid keys else Some (parseRSAPublicKey key))"

definition token_kid :: "Token \<Rightarrow> string res" where
  "token_kid token =
     (case tk_Method token of
        OtherMethod a \<Rightarrow> Err (Errorf ''unexpected signing method: %s'' [a])
      | SigningMethodRSA _ \<Rightarrow>
          (case map_get (tk_Header token) ''kid'' of
             None \<Rightarrow> Err (Errorf ''token header missing kid'' [])
           | Some (JStr kid) \<Rightarrow> if trim_space kid = '''' then Err (Errorf ''token header has invalid kid'' []) else Ok kid
           | Some _ \<Rightarrow> Err (Errorf ''token header has invalid kid'' [])))"

definition keyFunc :: "AuthEnv \<Rightarrow> Token \<Rightarrow> PublicKey auth" where
  "keyFunc env token =
     bindS (liftS (token_kid token)) (\<lambda>kid.
     bindS (getJWKS env False) (\<lambda>keySet.
     case find_key kid keySet of
       Some key \<Rightarrow> liftS key
     | None \<Rightarrow>
         bindS (getJWKS env True) (\<lambda>keySet.
         case find_key kid keySet of
           Some key \<Rightarrow> liftS key
         | None \<Rightarrow> failS (Errorf ''no jwk found for kid: %s'' [kid]))))"

section \<open>The principal of a header\<close>

text \<open>\<open>strings.Fields\<close> on ASCII white space.\<close>

definition go_fields :: "string \<Rightarrow> string list" where
  "go_fields s = filter (\<lambda>w. w \<noteq> '''') (split_on CHR '' '' (map (\<lambda>c. if is_space c then CHR '' '' else c) s))"

record ParserOptions =
  po_ValidMethods :: "string list"
  po_Issuer :: string
  po_Leeway :: int

text \<open>\<open>jwt.ParseWithClaims\<close>: the token, the key function, the options; whether the token is valid, and the claims.\<close>

type_synonym ParseWithClaims = "string \<Rightarrow> (Token \<Rightarrow> PublicKey auth) \<Rightarrow> ParserOptions \<Rightarrow> (bool \<times> tokenClaims) auth"

definition userPrincipalFromClaims :: "tokenClaims \<Rightarrow> UserPrincipal res" where
  "userPrincipalFromClaims claims =
     (if tc_Subject claims = '''' then Err (Errorf ''jwt missing sub claim for user principal'' [])
      else case tc_Email claims of
        None \<Rightarrow> Err (Errorf ''jwt missing email claim for user principal'' [])
      | Some email \<Rightarrow>
          (case tc_OUID claims of
             None \<Rightarrow> Err (Errorf ''jwt missing ouId claim for user principal'' [])
           | Some ouID \<Rightarrow>
               if \<exists>p \<in> set_option (tc_PhoneNumber claims). trim_space p = ''''
               then Err (Errorf ''jwt has empty phone_number claim for user principal'' [])
               else Ok \<lparr>up_UserID = tc_Subject claims, up_Email = email, up_PhoneNumber = tc_PhoneNumber claims,
                        up_OUID = ouID, up_Roles = tc_Roles claims\<rparr>))"

definition clientPrincipalFromClaims :: "tokenClaims \<Rightarrow> ClientPrincipal res" where
  "clientPrincipalFromClaims claims =
     (if tc_ClientID claims = '''' then Err (Errorf ''jwt missing client_id claim for client principal'' [])
      else Ok \<lparr>cp_ClientID = tc_ClientID claims\<rparr>)"

definition invalid_format :: go_error where
  "invalid_format = Errorf (''invalid authorization header format: expected 'Bearer <token>'' @ [CHR 0x27]) []"

text \<open>\<open>strings.EqualFold\<close> with a word none of whose letters folds to one outside ASCII.\<close>

definition bearer_token :: "string \<Rightarrow> string res" where
  "bearer_token authHeader =
     (if authHeader = '''' then Err (Errorf ''authorization header is empty'' [])
      else case go_fields (trim_space authHeader) of
        [scheme, token] \<Rightarrow>
          if to_upper scheme \<noteq> ''BEARER''
          then Err invalid_format
          else if trim_space token = '''' then Err (Errorf ''authorization token is empty'' [])
          else Ok (trim_space token)
      | _ \<Rightarrow> Err invalid_format)"

definition parser_options :: "TokenExtractor \<Rightarrow> ParserOptions" where
  "parser_options te = \<lparr>po_ValidMethods = [''RS256'', ''RS384'', ''RS512''], po_Issuer = te_expIssuer te, po_Leeway = seconds 30\<rparr>"

definition principal_of :: "TokenExtractor \<Rightarrow> tokenClaims \<Rightarrow> Principal res" where
  "principal_of te claims =
     (if tc_ExpiresAt claims = None then Err (Errorf ''jwt missing exp claim'' [])
      else if tc_ClientID claims = '''' then Err (Errorf ''jwt missing client_id claim'' [])
      else if tc_ClientID claims \<notin> set (te_expClientIDs te) then Err (Errorf ''unexpected client_id claim: %q'' [tc_ClientID claims])
      else if tc_GrantType claims = AuthorizationCodeGrant then
        bind_res (userPrincipalFromClaims claims) (\<lambda>u. Ok \<lparr>pr_Type = UserPrincipalType, pr_UserPrincipal = Some u, pr_ClientPrincipal = None\<rparr>)
      else if tc_GrantType claims = ClientCredentialsGrant then
        bind_res (clientPrincipalFromClaims claims) (\<lambda>c. Ok \<lparr>pr_Type = ClientPrincipalType, pr_UserPrincipal = None, pr_ClientPrincipal = Some c\<rparr>)
      else Err (Errorf ''unsupported grant type: %q'' [tc_GrantType claims]))"

definition ExtractPrincipalFromHeader :: "AuthEnv \<Rightarrow> ParseWithClaims \<Rightarrow> string \<Rightarrow> Principal option auth" where
  "ExtractPrincipalFromHeader env parse authHeader =
     bindS (liftS (bearer_token authHeader)) (\<lambda>tokenString st.
       bindS (wrapS ''invalid jwt token: %w'' [] (parse tokenString (keyFunc env) (parser_options (as_extractor st)))) (\<lambda>(valid, claims).
       if \<not> valid then failS (Errorf ''invalid jwt token'' [])
       else bindS (\<lambda>st. (principal_of (as_extractor st) claims, st)) (\<lambda>p. returnS (Some p))) st)"

section \<open>utils.go and middleware.go\<close>

definition derefString :: "string option \<Rightarrow> string" where
  "derefString value = (case value of None \<Rightarrow> '''' | Some s \<Rightarrow> s)"

definition buildAuthContext :: "Principal option \<Rightarrow> AuthContext" where
  "buildAuthContext p0 =
     (case p0 of
        None \<Rightarrow> \<lparr>ax_User = None, ax_Client = None\<rparr>
      | Some p \<Rightarrow>
          (case pr_Type p of
             UserPrincipalType \<Rightarrow>
               \<lparr>ax_User = map_option (\<lambda>u. \<lparr>uc_ID = '''', uc_IDPUserID = up_UserID u, uc_Email = up_Email u,
                  uc_PhoneNumber = derefString (up_PhoneNumber u), uc_OUID = up_OUID u, uc_Roles = up_Roles u\<rparr>) (pr_UserPrincipal p),
                ax_Client = None\<rparr>
           | ClientPrincipalType \<Rightarrow>
               \<lparr>ax_User = None, ax_Client = map_option (\<lambda>c. \<lparr>cl_ClientID = cp_ClientID c\<rparr>) (pr_ClientPrincipal p)\<rparr>))"

type_synonym 'd UserProfileService = "string \<Rightarrow> string \<Rightarrow> string \<Rightarrow> string \<Rightarrow> ('d, string option) op"

text \<open>The state of a served request: the extractor, which may be nil, with its tick, and the tables.\<close>

type_synonym ('d, 'a) served = "(AuthState option \<times> 'd, 'a) op"

definition on_data :: "('d, 'a) op \<Rightarrow> ('d, 'a) served" where
  "on_data m s = (case m (snd s) of (r, d) \<Rightarrow> (r, (fst s, d)))"

text \<open>
  The profile of a user principal: an error is logged, the context keeps its empty id. Writing the id
  into a context without a user is a nil dereference.
\<close>

definition resolve_user :: "'d UserProfileService option \<Rightarrow> Principal \<Rightarrow> AuthContext \<Rightarrow> ('d, AuthContext) op" where
  "resolve_user service prin authCtx =
     (case (pr_UserPrincipal prin, service) of
        (Some user, Some getOrCreate) \<Rightarrow>
          bindS (attemptS (getOrCreate (up_UserID user) (up_Email user) (derefString (up_PhoneNumber user)) (up_OUID user))) (\<lambda>result.
          case result of
            Err e \<Rightarrow> returnS authCtx
          | Panic \<Rightarrow> liftS Panic
          | Ok None \<Rightarrow> returnS authCtx
          | Ok (Some userID) \<Rightarrow>
              (case ax_User authCtx of
                 None \<Rightarrow> liftS Panic
               | Some u \<Rightarrow> returnS (authCtx\<lparr>ax_User := Some (u\<lparr>uc_ID := userID\<rparr>)\<rparr>)))
      | _ \<Rightarrow> returnS authCtx)"

definition refuse :: "'v Reply" where
  "refuse = ErrorReply 401 ''invalid authentication token'' None"

definition on_extractor :: "'a auth \<Rightarrow> AuthState \<Rightarrow> ('d, 'a) served" where
  "on_extractor m st s = (case m st of (r, st') \<Rightarrow> (r, (Some st', snd s)))"

definition Middleware ::
    "AuthEnv \<Rightarrow> ParseWithClaims \<Rightarrow> 'd UserProfileService option \<Rightarrow> (Request \<Rightarrow> ('d, 'v Reply) op) \<Rightarrow> Request
     \<Rightarrow> ('d, 'v Reply) served" where
  "Middleware env parse service next r =
     (let authHeader = query_value (hq_Header r) ''Authorization'' in
      if authHeader = '''' then on_data (next r)
      else (\<lambda>s. case fst s of
        None \<Rightarrow> returnS (ErrorReply 500 ''authentication subsystem not initialized'' None) s
      | Some st \<Rightarrow>
          bindS (attemptS (on_extractor (ExtractPrincipalFromHeader env parse authHeader) st)) (\<lambda>result.
          case result of
            Err e \<Rightarrow> returnS refuse
          | Panic \<Rightarrow> liftS Panic
          | Ok None \<Rightarrow> returnS refuse
          | Ok (Some prin) \<Rightarrow>
              if pr_UserPrincipal prin = None \<and> pr_ClientPrincipal prin = None then returnS refuse
              else on_data (bindS (resolve_user service prin (buildAuthContext (Some prin))) (\<lambda>authCtx.
                     next (r\<lparr>hq_Auth := Some authCtx\<rparr>)))) s))"

definition RequireAuth ::
    "AuthEnv \<Rightarrow> ParseWithClaims \<Rightarrow> 'd UserProfileService option \<Rightarrow> (Request \<Rightarrow> ('d, 'v Reply) op) \<Rightarrow> Request
     \<Rightarrow> ('d, 'v Reply) served" where
  "RequireAuth env parse service next =
     Middleware env parse service (\<lambda>r.
       if GetAuthContext r = None then returnS (ErrorReply 401 ''authentication required'' None) else next r)"

section \<open>manager.go\<close>

record AuthConfig =
  ac_JWKSURL :: string
  ac_Issuer :: string
  ac_Audience :: string
  ac_ClientIDs :: "string list"
  ac_InsecureSkipTLSVerify :: bool

record 'd AuthManager =
  am_userProfileService :: "'d UserProfileService option"
  am_tokenExtractor :: "TokenExtractor option"

definition NewManager :: "'d UserProfileService option \<Rightarrow> AuthConfig \<Rightarrow> 'd AuthManager res" where
  "NewManager service authConfig =
     bind_res (wrap_err ''failed to initialize token extractor: %w'' []
       (NewTokenExtractorWithClient (ac_JWKSURL authConfig) (ac_Issuer authConfig) (ac_Audience authConfig) (ac_ClientIDs authConfig)
          (Some \<lparr>hc_Timeout = seconds 10, hc_InsecureSkipVerify = ac_InsecureSkipTLSVerify authConfig\<rparr>))) (\<lambda>tokenExtractor.
     Ok \<lparr>am_userProfileService = service, am_tokenExtractor = Some tokenExtractor\<rparr>)"

definition auth_Health :: "'d AuthManager \<Rightarrow> unit res" where
  "auth_Health m = (if am_tokenExtractor m = None then Err (Errorf ''token extractor not initialized'' []) else Ok ())"

end
