(* ===== verification/AuthenticationProperties.thy ===== *)
theory AuthenticationProperties
  imports Authentication WorkflowRouters
begin

text \<open>
  What the middleware lets through: the identity in a request's context is that of a signed token and of
  one row of the table of users, keys of the identity provider are not older than the cache allows, and a
  failed look-up of the profile gives every user the same empty identity.
\<close>

section \<open>The table of users\<close>

definition id_of :: "UserRecord list \<Rightarrow> string \<Rightarrow> string option" where
  "id_of rows idp = map_option ur_ID (List.find (\<lambda>r. ur_IDPUserID r = idp) rows)"

text \<open>The unique columns, and the users known so far.\<close>

definition users_inv :: "(string \<Rightarrow> string option) \<Rightarrow> 'z UserDB_scheme \<Rightarrow> bool" where
  "users_inv K db \<longleftrightarrow> distinct (map ur_ID (db_users db)) \<and> distinct (map ur_IDPUserID (db_users db)) \<and> K \<subseteq>\<^sub>m id_of (db_users db)"

lemma find_append: "List.find p (xs @ ys) = (case List.find p xs of None \<Rightarrow> List.find p ys | Some x \<Rightarrow> Some x)"
  by (induction xs) auto

lemma id_of_append: "id_of (rows @ us) i = (case id_of rows i of None \<Rightarrow> id_of us i | Some v \<Rightarrow> Some v)"
  by (simp add: id_of_def find_append split: option.splits)

lemma users_inv_snoc:
  assumes "users_inv K db" and "\<not> (\<exists>r \<in> set (db_users db). ur_ID r = ur_ID u \<or> ur_IDPUserID r = ur_IDPUserID u)"
  shows "users_inv K (db\<lparr>db_users := db_users db @ [u]\<rparr>)"
  using assms by (auto simp: users_inv_def map_le_def id_of_append dom_def image_iff split: option.splits)

lemma users_inv_tick [simp]: "users_inv K (db\<lparr>db_tick := n\<rparr>) = users_inv K db"
  by (simp add: users_inv_def)

lemma users_inv_arrive: "users_inv K db \<Longrightarrow> users_inv K (db\<lparr>db_users := arrive us (db_users db)\<rparr>)"
proof (induction us arbitrary: db)
  case Nil
  then show ?case by (simp add: arrive_def)
next
  case (Cons u us)
  have "users_inv K (db\<lparr>db_users := insert_user u (db_users db)\<rparr>)"
    using Cons.prems users_inv_snoc by (auto simp: insert_user_def)
  from Cons.IH [OF this] show ?case by (simp add: arrive_def)
qed

lemma user_call_triple:
  assumes "triple (users_inv K) stmt Q (users_inv K)"
  shows "triple (users_inv K) (user_call env stmt) Q (users_inv K)"
proof (rule tripleI)
  fix db :: "'a UserDB_scheme" and r db'
  assume inv: "users_inv K db" and run: "user_call env stmt db = (r, db')"
  let ?db = "db\<lparr>db_users := arrive (ue_others env (db_tick db)) (db_users db), db_tick := Suc (db_tick db)\<rparr>"
  have "users_inv K ?db" using users_inv_arrive [OF inv] by simp
  moreover have "r = Err e \<and> db' = ?db" if "dbFault (ue_db env) (db_tick db) = Some e" for e
    using run that by (simp add: user_call_def db_call_def Let_def)
  moreover have "stmt ?db = (r, db')" if "dbFault (ue_db env) (db_tick db) = None"
    using run that by (simp add: user_call_def db_call_def Let_def)
  ultimately show "(\<forall>v. r = Ok v \<longrightarrow> Q v db') \<and> (\<not> is_ok r \<longrightarrow> users_inv K db')"
    using tripleD [OF assms, of ?db r db'] by (cases "dbFault (ue_db env) (db_tick db)") auto
qed

definition registered :: "(string \<Rightarrow> string option) \<Rightarrow> string \<Rightarrow> string option \<Rightarrow> 'z UserDB_scheme \<Rightarrow> bool" where
  "registered K idp r db \<longleftrightarrow> users_inv K db \<and> r \<noteq> None \<and> id_of (db_users db) idp = r"

lemma first_user_triple:
  "triple (users_inv K) (first_user env p) (\<lambda>u db. users_inv K db \<and> List.find p (db_users db) = Some u) (users_inv K)"
  unfolding first_user_def
  by (rule user_call_triple, rule tripleI) (auto simp: db_first_def split: option.splits)

lemma getUserIDByIDP_triple:
  "triple (users_inv K) (getUserIDByIDP env idp)
     (\<lambda>r db. users_inv K db \<and> (r \<noteq> None \<longrightarrow> registered K idp r db)) (users_inv K)"
proof (rule tripleI)
  fix db :: "'a UserDB_scheme" and r db'
  assume inv: "users_inv K db" and run: "getUserIDByIDP env idp db = (r, db')"
  obtain q db1 where q: "first_user env (\<lambda>r. ur_IDPUserID r = idp) db = (q, db1)" by fastforce
  show "(\<forall>v. r = Ok v \<longrightarrow> users_inv K db' \<and> (v \<noteq> None \<longrightarrow> registered K idp v db')) \<and> (\<not> is_ok r \<longrightarrow> users_inv K db')"
    using run q inv tripleD [OF first_user_triple inv q]
    by (cases q) (auto simp: getUserIDByIDP_def failS_def bindS_def attemptS_def returnS_def liftS_def registered_def id_of_def
        split: if_splits)
qed

lemma create_user_triple:
  "triple (users_inv K) (create_user env u)
     (\<lambda>n db. users_inv K db \<and> (n \<noteq> 0 \<longrightarrow> registered K (ur_IDPUserID u) (Some (ur_ID u)) db)) (users_inv K)"
  unfolding create_user_def
proof (rule user_call_triple, rule tripleI)
  fix db :: "'a UserDB_scheme" and r db'
  assume inv: "users_inv K db" and run: "(if \<exists>r \<in> set (db_users db). ur_IDPUserID r = ur_IDPUserID u then (Ok 0, db)
       else if \<exists>r \<in> set (db_users db). ur_ID r = ur_ID u
            then (Err (External ''duplicate key value violates unique constraint''), db)
       else (Ok 1, db\<lparr>db_users := db_users db @ [u]\<rparr>)) = (r, db')"
  have "id_of (db_users db) (ur_IDPUserID u) = None" if "\<not> (\<exists>r \<in> set (db_users db). ur_IDPUserID r = ur_IDPUserID u)"
    using that by (simp add: id_of_def find_None_all)
  then show "(\<forall>n. r = Ok n \<longrightarrow> users_inv K db' \<and> (n \<noteq> 0 \<longrightarrow> registered K (ur_IDPUserID u) (Some (ur_ID u)) db'))
      \<and> (\<not> is_ok r \<longrightarrow> users_inv K db')"
    using run inv users_inv_snoc [OF inv, of u] by (auto simp: registered_def id_of_append id_of_def find_append split: if_splits)
qed

lemma GetOrCreateUser_triple:
  "triple (users_inv K) (GetOrCreateUser env idp email phone ou) (\<lambda>r. registered K idp r) (users_inv K)"
proof (cases "idp = ''''")
  case True
  then show ?thesis by (simp add: GetOrCreateUser_def triple_failS)
next
  case False
  let ?look = "\<lambda>r. \<lambda>db. users_inv K db \<and> (r \<noteq> None \<longrightarrow> registered K idp r db)"
  let ?new = "\<lambda>u. \<lambda>db. users_inv K db \<and> ur_IDPUserID u = idp"
  let ?made = "\<lambda>u. \<lambda>n db. users_inv K db \<and> ((n :: nat) \<noteq> 0 \<longrightarrow> registered K idp (Some (ur_ID u)) db)"
  have again: "triple (users_inv K) (bindS (getUserIDByIDP env idp) (\<lambda>duplicateID.
      case duplicateID of Some i \<Rightarrow> returnS (Some i) | None \<Rightarrow> failS e)) (\<lambda>r. registered K idp r) (users_inv K)" for e
    by (rule triple_bindS [of _ _ ?look], rule triple_conseq [OF getUserIDByIDP_triple])
      (auto intro!: triple_option triple_returnS triple_failS)
  have insert: "triple (?new u) (wrapS s a (create_user env u)) (?made u) (users_inv K)" for u s a
  proof (cases "ur_IDPUserID u = idp")
    case True
    then show ?thesis by (intro triple_wrapS triple_conseq [OF create_user_triple]) auto
  qed (auto simp: triple_def)
  have "triple (users_inv K) (bindS (\<lambda>db. (Ok (new_user env (db_tick db) idp email phone ou), db)) (\<lambda>record.
      bindS (wrapS ''database insert failed: %w'' [] (create_user env record)) (\<lambda>affected.
      if affected = 0 then
        bindS (getUserIDByIDP env idp) (\<lambda>duplicateID.
        case duplicateID of
          Some i \<Rightarrow> returnS (Some i)
        | None \<Rightarrow> failS (Errorf ''user record insert skipped but existing record not found'' []))
      else returnS (Some (ur_ID record))))) (\<lambda>r. registered K idp r) (users_inv K)"
    apply (rule triple_bindS [of _ _ ?new])
     apply (rule tripleI)
     apply (auto simp: new_user_def)[1]
    apply (rule triple_bindS [OF insert])
    subgoal for u n by (cases "n = 0") (auto intro!: triple_conseq [OF again] triple_returnS)
    done
  then show ?thesis using False unfolding GetOrCreateUser_def
    by (auto intro!: triple_bindS [OF getUserIDByIDP_triple] triple_option triple_returnS elim!: triple_conseq)
qed

lemma users_inv_update:
  "users_inv K (db\<lparr>db_users := update_where p (\<lambda>r. r\<lparr>ur_Data := d\<rparr>) (db_users db)\<rparr>) = users_inv K db"
proof -
  have "map ur_ID (update_where p (\<lambda>r. r\<lparr>ur_Data := d\<rparr>) rows) = map ur_ID rows"
    "map ur_IDPUserID (update_where p (\<lambda>r. r\<lparr>ur_Data := d\<rparr>) rows) = map ur_IDPUserID rows"
    "id_of (update_where p (\<lambda>r. r\<lparr>ur_Data := d\<rparr>) rows) i = id_of rows i" for rows i
    by (induction rows) (auto simp: update_where_def id_of_def)
  then show ?thesis by (simp add: users_inv_def map_le_def)
qed

lemma UpdateUserData_keeps: "keeps (users_inv K) (UpdateUserData env i data)"
proof -
  have "triple (users_inv K) (user_call env (\<lambda>db. case data of
        None \<Rightarrow> (Err (External ''invalid input syntax for type json''), db)
      | Some d \<Rightarrow> (Ok (length (filter (\<lambda>r. ur_ID r = i) (db_users db))),
          db\<lparr>db_users := update_where (\<lambda>r. ur_ID r = i) (\<lambda>r. r\<lparr>ur_Data := d\<rparr>) (db_users db)\<rparr>))) (\<lambda>_. users_inv K) (users_inv K)"
    by (rule user_call_triple, rule tripleI) (auto simp: users_inv_update split: option.splits)
  then show ?thesis unfolding UpdateUserData_def by (intro keep keeps_triple [THEN iffD2]) auto
qed

lemma GetUser_keeps: "keeps (users_inv K) (GetUser env i)"
proof -
  have "keeps (users_inv K) (first_user env p)" for p
    unfolding keeps_triple by (rule triple_conseq [OF first_user_triple]) auto
  then show ?thesis unfolding GetUser_def by (auto intro!: keep split: res.splits)
qed

lemma user_Health_keeps: "keeps (users_inv K) (user_Health env)"
  unfolding user_Health_def keeps_triple by (intro triple_wrapS user_call_triple) (auto simp: triple_def)

text \<open>The operations of the service, in any order and with any outcome.\<close>

inductive user_step :: "UserEnv \<Rightarrow> 'z UserDB_scheme \<Rightarrow> 'z UserDB_scheme \<Rightarrow> bool" for env where
  get: "GetUser env i db = (r, db') \<Longrightarrow> user_step env db db'"
| sign_in: "GetOrCreateUser env i e p ou db = (r, db') \<Longrightarrow> user_step env db db'"
| update: "UpdateUserData env i d db = (r, db') \<Longrightarrow> user_step env db db'"
| health: "user_Health env db = (r, db') \<Longrightarrow> user_step env db db'"

lemma user_steps_inv: "(user_step env)\<^sup>*\<^sup>* db db' \<Longrightarrow> users_inv K db \<Longrightarrow> users_inv K db'"
proof (induction rule: rtranclp_induct)
  case base
  then show ?case .
next
  case (step db1 db2)
  have sign_in: "keeps (users_inv K) (GetOrCreateUser env i e p ou)" for i e p ou
    unfolding keeps_triple by (rule triple_conseq [OF GetOrCreateUser_triple]) (auto simp: registered_def)
  then show ?case using step
    by (auto elim!: user_step.cases dest: keepsD [OF GetUser_keeps] keepsD [OF UpdateUserData_keeps] keepsD [OF user_Health_keeps] keepsD [OF sign_in])
qed

lemma registered_known: "registered K i r db \<Longrightarrow> users_inv (K(i := r)) db"
  by (auto simp: registered_def users_inv_def map_le_def)

lemma id_of_row:
  "id_of rows i = Some v \<longleftrightarrow> (\<exists>u \<in> set rows. ur_IDPUserID u = i \<and> ur_ID u = v)" if "distinct (map ur_IDPUserID rows)"
  using find_key_unique [OF that] by (fastforce simp: id_of_def dest: find_Some_mem)

lemma id_of_inj:
  "users_inv K db \<Longrightarrow> id_of (db_users db) i = Some v \<Longrightarrow> id_of (db_users db) j = Some v \<Longrightarrow> i = j"
  by (auto simp: users_inv_def id_of_row distinct_map dest: inj_onD)

section \<open>The contract of the profile service\<close>

text \<open>
  What the middleware is told of a profile service: it extends a directory that gives each user of the identity
  provider one id and no two of them the same, and answers with the id in the directory.
\<close>

locale profile_service =
  fixes service :: "'d UserProfileService" and knows :: "(string \<Rightarrow> string option) \<Rightarrow> 'd \<Rightarrow> bool"
  assumes resolves: "triple (knows K) (service idp email phone ou) (\<lambda>r d. r \<noteq> None \<and> knows (K(idp := r)) d \<and> knows K d) (knows K)"
    and one_id: "knows K d \<Longrightarrow> K i = Some v \<Longrightarrow> K j = Some v \<Longrightarrow> i = j"
begin

lemma service_run:
  assumes "knows K d" and "service idp email phone ou d = (r, d')"
  shows "knows K d'" and "\<And>v. r = Ok v \<Longrightarrow> v \<noteq> None \<and> knows (K(idp := v)) d'"
  using tripleD [OF resolves assms] by (cases r, auto)

lemma resolve_user_run:
  assumes "knows K d" and "resolve_user (Some service) p ctx d = (r, d')"
  shows "knows K d'"
    and "\<And>ctx'. r = Ok ctx' \<Longrightarrow> ctx' = ctx \<or> (\<exists>user u v. pr_UserPrincipal p = Some user \<and> ax_User ctx = Some u
      \<and> ctx' = ctx\<lparr>ax_User := Some (u\<lparr>uc_ID := v\<rparr>)\<rparr> \<and> knows (K(up_UserID user := Some v)) d')"
proof -
  have "knows K d' \<and> (\<forall>ctx'. r = Ok ctx' \<longrightarrow> ctx' = ctx \<or> (\<exists>user u v. pr_UserPrincipal p = Some user \<and> ax_User ctx = Some u
      \<and> ctx' = ctx\<lparr>ax_User := Some (u\<lparr>uc_ID := v\<rparr>)\<rparr> \<and> knows (K(up_UserID user := Some v)) d'))"
  proof (cases "pr_UserPrincipal p")
    case None
    then show ?thesis using assms by (auto simp: resolve_user_def returnS_def)
  next
    case (Some user)
    obtain q d1 where q: "service (up_UserID user) (up_Email user) (derefString (up_PhoneNumber user)) (up_OUID user) d = (q, d1)"
      by fastforce
    show ?thesis using assms(2) service_run [OF assms(1) q] q Some
      by (cases q) (auto simp: resolve_user_def bindS_def attemptS_def returnS_def liftS_def split: option.splits)
  qed
  then show "knows K d'" "\<And>ctx'. r = Ok ctx' \<Longrightarrow> ctx' = ctx \<or> (\<exists>user u v. pr_UserPrincipal p = Some user \<and> ax_User ctx = Some u
      \<and> ctx' = ctx\<lparr>ax_User := Some (u\<lparr>uc_ID := v\<rparr>)\<rparr> \<and> knows (K(up_UserID user := Some v)) d')" by blast+
qed

end

interpretation users: profile_service "GetOrCreateUser env" users_inv for env
proof
  show "triple (users_inv K) (GetOrCreateUser env idp email phone ou)
      (\<lambda>r d. r \<noteq> None \<and> users_inv (K(idp := r)) d \<and> users_inv K d) (users_inv K)" for K idp email phone ou
    by (rule triple_conseq [OF GetOrCreateUser_triple]) (auto simp: registered_known, auto simp: registered_def)
  show "users_inv K d \<Longrightarrow> K i = Some v \<Longrightarrow> K j = Some v \<Longrightarrow> i = j" for K and d :: "'a UserDB_scheme" and i v j
    using id_of_inj [of K d i v j] by (auto simp: users_inv_def map_le_def dom_def)
qed

text \<open>
  C16: One identity per user. Whatever else the service does in between, and whatever rows other sessions insert
  at any moment, two sign-ins get the same id exactly when they are of the same user of the identity
  provider, and the table holds exactly one row of that user, with this id.
\<close>

theorem one_identity_per_user:
  assumes "users_inv Map.empty db" and "GetOrCreateUser env i email phone ou db = (Ok r, db1)"
    and "(user_step env)\<^sup>*\<^sup>* db1 db2" and "GetOrCreateUser env j email' phone' ou' db2 = (Ok r', db3)"
  shows "(r = r' \<longleftrightarrow> i = j) \<and> (\<exists>u. {u \<in> set (db_users db3). ur_IDPUserID u = i} = {u} \<and> r = Some (ur_ID u))"
proof -
  from users.service_run(2) [OF assms(1,2)] have r: "r \<noteq> None" "users_inv [i \<mapsto> the r] db1" by auto
  have "users_inv [i \<mapsto> the r] db2" by (rule user_steps_inv [OF assms(3) r(2)])
  from users.service_run [OF this assms(4)] have r': "r' \<noteq> None" "users_inv ([i \<mapsto> the r](j := r')) db3" "users_inv [i \<mapsto> the r] db3" by auto
  then have ids: "id_of (db_users db3) i = r" "id_of (db_users db3) j = r'"
    and dist: "distinct (map ur_IDPUserID (db_users db3))"
    using r(1) by (auto simp: users_inv_def map_le_def dom_def split: if_splits)
  have "r = r' \<longleftrightarrow> i = j" using ids r(1) id_of_inj [OF r'(3)] by (metis option.exhaust)
  moreover obtain u where "u \<in> set (db_users db3)" "ur_IDPUserID u = i" "r = Some (ur_ID u)"
    using ids(1) r(1) id_of_row [OF dist] by (metis option.exhaust)
  moreover from this have "{u \<in> set (db_users db3). ur_IDPUserID u = i} = {u}"
    using dist by (auto simp: distinct_map dest: inj_onD)
  ultimately show ?thesis by blast
qed

text \<open>Another session signs the same user in between the look-up and the insertion.\<close>

definition u_env :: UserEnv where
  "u_env = \<lparr>ue_db = \<lparr>dbFault = (\<lambda>_. None), newUUID = (\<lambda>t k. show_nat t), rowRank = (\<lambda>_ _. 0)\<rparr>,
     ue_others = (\<lambda>t. if t = 1 then [\<lparr>ur_ID = ''first'', ur_IDPUserID = ''alice'', ur_Email = '''', ur_PhoneNumber = '''', ur_OUID = '''', ur_Data = JObj []\<rparr>] else [])\<rparr>"

definition u_db :: "UserRecord list \<Rightarrow> UserDB" where
  "u_db rows = \<lparr>db_nodes = [], db_workflows = [], db_node_templates = [], db_tick = 0, db_workflow_templates = [],
     db_pc_templates = [], db_pcs = [], db_consignments = [], db_chas = [], db_hs_codes = [], db_template_maps = [],
     db_templates_v2 = [], db_template_maps_v2 = [], db_users = rows\<rparr>"

lemma u_db_inv: "users_inv Map.empty (u_db [])"
  by (simp add: users_inv_def u_db_def)

lemma u_signed_in:
  "(case GetOrCreateUser u_env ''alice'' ''a@x'' '''' ''ou'' (u_db []) of
      (r, db1) \<Rightarrow> (r, db_tick db1, fst (GetOrCreateUser u_env ''bob'' ''b@x'' '''' ''ou'' db1))) = (Ok (Some ''first''), 3, Ok (Some ''4''))"
  by code_simp

theorem one_identity_per_user_witness:
  "\<exists>db1 db3 r'. GetOrCreateUser u_env ''alice'' ''a@x'' '''' ''ou'' (u_db []) = (Ok (Some ''first''), db1)
     \<and> GetOrCreateUser u_env ''bob'' ''b@x'' '''' ''ou'' db1 = (Ok r', db3) \<and> Some ''first'' \<noteq> r'
     \<and> (\<exists>u. {u \<in> set (db_users db3). ur_IDPUserID u = ''alice''} = {u} \<and> ur_ID u = ''first'')"
proof -
  obtain r db1 where alice: "GetOrCreateUser u_env ''alice'' ''a@x'' '''' ''ou'' (u_db []) = (r, db1)" by fastforce
  obtain r' db3 where bob: "GetOrCreateUser u_env ''bob'' ''b@x'' '''' ''ou'' db1 = (r', db3)" by fastforce
  have r: "r = Ok (Some ''first'')" "r' = Ok (Some ''4'')" using u_signed_in by (simp_all add: alice bob)
  from one_identity_per_user [OF u_db_inv alice [unfolded r] rtranclp.rtrancl_refl bob [unfolded r]]
  obtain u where "{u \<in> set (db_users db3). ur_IDPUserID u = ''alice''} = {u}" "ur_ID u = ''first''" by auto
  with alice bob r show ?thesis by auto
qed

section \<open>The keys\<close>

text \<open>Keys that the endpoint served in exchange \<open>t\<close>, asked for after the reading \<open>t1\<close> of the clock.\<close>

definition served :: "AuthEnv \<Rightarrow> TokenExtractor \<Rightarrow> nat \<Rightarrow> jwk list \<Rightarrow> bool" where
  "served env te t keys \<longleftrightarrow>
     (\<exists>client. te_httpClient te = Some client \<and> jwks_answer (ae_get env client (te_jwksURL te) t) = Ok keys)"

definition keys_inv :: "AuthEnv \<Rightarrow> TokenExtractor \<Rightarrow> AuthState \<Rightarrow> bool" where
  "keys_inv env te st \<longleftrightarrow>
     (as_extractor st)\<lparr>te_cachedJWKS := None, te_lastJWKSFetch := 0\<rparr> = te\<lparr>te_cachedJWKS := None, te_lastJWKSFetch := 0\<rparr>
     \<and> (\<forall>keys. te_cachedJWKS (as_extractor st) = Some keys \<longrightarrow>
          (\<exists>t1 t. t1 < t \<and> t < as_tick st \<and> te_lastJWKSFetch (as_extractor st) = ae_now env t1 \<and> served env te t keys))"

text \<open>Keys that may be used now: just served, or served at most the life time of the cache ago.\<close>

definition fresh :: "AuthEnv \<Rightarrow> TokenExtractor \<Rightarrow> nat \<Rightarrow> nat \<Rightarrow> jwk list \<Rightarrow> bool" where
  "fresh env te start finish keys \<longleftrightarrow>
     (\<exists>t1 t. t1 < t \<and> t < finish \<and> served env te t keys
        \<and> (start \<le> t \<or> (\<exists>t2. start \<le> t2 \<and> t2 < finish \<and> ae_now env t2 - ae_now env t1 < te_jwksCacheTTL te)))"

lemma keys_inv_config:
  "keys_inv env te st \<Longrightarrow> te_httpClient (as_extractor st) = te_httpClient te \<and> te_jwksURL (as_extractor st) = te_jwksURL te
     \<and> te_jwksCacheTTL (as_extractor st) = te_jwksCacheTTL te \<and> te_expIssuer (as_extractor st) = te_expIssuer te
     \<and> te_expClientIDs (as_extractor st) = te_expClientIDs te"
  unfolding keys_inv_def by (cases "as_extractor st"; cases te) auto

lemma keys_inv_tick: "keys_inv env te st \<Longrightarrow> as_tick st \<le> n \<Longrightarrow> keys_inv env te (st\<lparr>as_tick := n\<rparr>)"
  unfolding keys_inv_def by (auto dest!: spec intro: less_le_trans)

lemma cached_fresh:
  assumes "keys_inv env te st" and "cache_valid (as_extractor st) (ae_now env t2)" and "start \<le> t2" and "t2 < as_tick st"
  shows "fresh env te start (as_tick st) (the (te_cachedJWKS (as_extractor st)))"
proof -
  obtain keys where keys: "te_cachedJWKS (as_extractor st) = Some keys" using assms(2) by (auto simp: cache_valid_def)
  then obtain t1 t where t: "t1 < t" "t < as_tick st" "te_lastJWKSFetch (as_extractor st) = ae_now env t1" "served env te t keys"
    using assms(1) by (auto simp: keys_inv_def)
  moreover have "ae_now env t2 - ae_now env t1 < te_jwksCacheTTL te"
    using assms(2) keys_inv_config [OF assms(1)] t(3) by (simp add: cache_valid_def)
  ultimately show ?thesis using assms(3,4) keys unfolding fresh_def by (auto intro: exI [of _ t1] exI [of _ t])
qed

lemma fetch_run:
  assumes "keys_inv env te st" and "fetchJWKS env st = (r, st')"
  shows "keys_inv env te st' \<and> as_tick st \<le> as_tick st' \<and> as_extractor st' = as_extractor st
    \<and> (\<forall>keys. r = Ok keys \<longrightarrow> served env te (as_tick st) keys \<and> as_tick st' = Suc (as_tick st))"
proof -
  note c = keys_inv_config [OF assms(1)]
  have "st' = st \<or> st' = st\<lparr>as_tick := Suc (as_tick st)\<rparr>" using assms(2)
    by (auto simp: fetchJWKS_def tick_def Let_def split: option.splits)
  then show ?thesis using assms c keys_inv_tick [OF assms(1), of "Suc (as_tick st)"]
    by (auto simp: fetchJWKS_def tick_def Let_def served_def split: option.splits)
qed

lemma clock_bind: "bindS (clock env) f st = f (ae_now env (as_tick st)) (st\<lparr>as_tick := Suc (as_tick st)\<rparr>)"
  by (simp add: bindS_def clock_def tick_def)

lemma getJWKS_cases:
  assumes "getJWKS env force st = (r, st')"
  obtains (hit1) "cache_valid (as_extractor st) (ae_now env (as_tick st))"
      "r = Ok (the (te_cachedJWKS (as_extractor st)))" "st' = st\<lparr>as_tick := Suc (as_tick st)\<rparr>"
    | (hit2) "cache_valid (as_extractor st) (ae_now env (Suc (as_tick st)))"
      "r = Ok (the (te_cachedJWKS (as_extractor st)))" "st' = st\<lparr>as_tick := Suc (Suc (as_tick st))\<rparr>"
    | (fetch) "bindS (fetchJWKS env) (\<lambda>jwks. store_keys jwks (ae_now env (Suc (as_tick st)))) (st\<lparr>as_tick := Suc (Suc (as_tick st))\<rparr>) = (r, st')"
proof (cases "\<not> force \<and> cache_valid (as_extractor st) (ae_now env (as_tick st))")
  case True
  with assms show ?thesis by (intro hit1) (simp_all add: getJWKS_def clock_bind)
next
  case miss: False
  show ?thesis
  proof (cases "\<not> force \<and> cache_valid (as_extractor st) (ae_now env (Suc (as_tick st)))")
    case True
    with assms miss show ?thesis by (intro hit2) (auto simp add: getJWKS_def clock_bind)
  next
    case False
    show ?thesis
    proof (rule fetch)
      show "bindS (fetchJWKS env) (\<lambda>jwks. store_keys jwks (ae_now env (Suc (as_tick st)))) (st\<lparr>as_tick := Suc (Suc (as_tick st))\<rparr>) = (r, st')"
        using assms miss False unfolding getJWKS_def clock_bind by (auto split: if_splits)
    qed
  qed
qed

lemma getJWKS_run:
  assumes inv: "keys_inv env te st" and run: "getJWKS env force st = (r, st')"
  shows "keys_inv env te st' \<and> as_tick st < as_tick st' \<and> (\<forall>keys. r = Ok keys \<longrightarrow> fresh env te (as_tick st) (as_tick st') keys)"
proof -
  let ?n = "as_tick st"
  let ?s1 = "st\<lparr>as_tick := Suc ?n\<rparr>" and ?s2 = "st\<lparr>as_tick := Suc (Suc ?n)\<rparr>"
  have inv1: "keys_inv env te ?s1" and inv2: "keys_inv env te ?s2" using keys_inv_tick [OF inv] by auto
  from run show ?thesis
  proof (cases rule: getJWKS_cases)
    case hit1
    with cached_fresh [OF inv1, of ?n ?n] inv1 show ?thesis by auto
  next
    case hit2
    with cached_fresh [OF inv2, of "Suc ?n" ?n] inv2 show ?thesis by auto
  next
    case fetch
    obtain q s3 where q: "fetchJWKS env ?s2 = (q, s3)" by fastforce
    note got = fetch_run [OF inv2 q]
    show ?thesis
    proof (cases q)
      case (Ok keys)
      with fetch q have "r = Ok keys" "st' = s3\<lparr>as_extractor := (as_extractor s3)\<lparr>te_cachedJWKS := Some keys, te_lastJWKSFetch := ae_now env (Suc ?n)\<rparr>\<rparr>"
        by (auto simp: bindS_def store_keys_def)
      moreover have "served env te (Suc (Suc ?n)) keys" "as_tick s3 = Suc (Suc (Suc ?n))" using got Ok by auto
      moreover have "(as_extractor s3)\<lparr>te_cachedJWKS := None, te_lastJWKSFetch := 0\<rparr> = te\<lparr>te_cachedJWKS := None, te_lastJWKSFetch := 0\<rparr>"
        using conjunct1 [OF got] unfolding keys_inv_def by (rule conjunct1)
      moreover from calculation have "\<exists>t1 t. t1 < t \<and> t < as_tick s3 \<and> ae_now env (Suc ?n) = ae_now env t1 \<and> served env te t keys"
        by (intro exI [of _ "Suc ?n"] exI [of _ "Suc (Suc ?n)"]) simp
      moreover from calculation have "fresh env te ?n (as_tick s3) keys"
        unfolding fresh_def by (intro exI [of _ "Suc ?n"] exI [of _ "Suc (Suc ?n)"]) simp
      ultimately show ?thesis by (simp add: keys_inv_def)
    next
      case (Err e)
      with fetch q got show ?thesis by (auto simp: bindS_def)
    next
      case Panic
      with fetch q got show ?thesis by (auto simp: bindS_def)
    qed
  qed
qed

lemma fresh_mono: "fresh env te b c keys \<Longrightarrow> a \<le> b \<Longrightarrow> fresh env te a c keys"
  unfolding fresh_def by (meson le_trans)

lemma keyFunc_run:
  assumes inv: "keys_inv env te st" and run: "keyFunc env token st = (r, st')"
  shows "keys_inv env te st' \<and> (\<forall>key. r = Ok key \<longrightarrow> (\<exists>kid keys. token_kid token = Ok kid
    \<and> fresh env te (as_tick st) (as_tick st') keys \<and> find_key kid keys = Some (Ok key)))"
proof (cases "token_kid token")
  case (Ok kid)
  obtain q s1 where q: "getJWKS env False st = (q, s1)" by fastforce
  note got = getJWKS_run [OF inv q]
  show ?thesis
  proof (cases "\<exists>keys. q = Ok keys \<and> find_key kid keys = None")
    case False
    with Ok run q got show ?thesis
      by (cases q) (auto simp: keyFunc_def bindS_def liftS_def split: option.splits)
  next
    case True
    then obtain keys where keys: "q = Ok keys" "find_key kid keys = None" by blast
    obtain q2 s2 where q2: "getJWKS env True s1 = (q2, s2)" by fastforce
    note got2 = getJWKS_run [OF conjunct1 [OF got] q2]
    have "r = Ok key \<Longrightarrow> \<exists>keys. q2 = Ok keys \<and> find_key kid keys = Some (Ok key) \<and> st' = s2" "st' = s2" for key
      using Ok run q keys q2 by (cases q2; auto simp: keyFunc_def bindS_def liftS_def failS_def split: option.splits)+
    then show ?thesis using Ok got got2 fresh_mono [of env te "as_tick s1"] by (metis less_imp_le)
  qed
qed (use run inv in \<open>auto simp: keyFunc_def bindS_def liftS_def\<close>)

section \<open>Tokens\<close>

text \<open>
  What the documentation of the JWT library promises of \<open>ParseWithClaims\<close>: a token it reports valid has a
  signature that verifies under the key the key function returned, one of the methods asked for and the issuer asked
  for; the key function is asked at most once. \<open>sig\<close> is the relation of a token to its header, the key
  that verifies it and its claims.
\<close>

definition jwt_documented :: "ParseWithClaims \<Rightarrow> (string \<Rightarrow> Token \<Rightarrow> PublicKey \<Rightarrow> tokenClaims \<Rightarrow> bool) \<Rightarrow> bool" where
  "jwt_documented parse sig \<longleftrightarrow> (\<forall>tok kf opts st r st'. parse tok kf opts st = (r, st') \<longrightarrow>
     (\<forall>claims. r = Ok (True, claims) \<longrightarrow> (\<exists>token key. kf token st = (Ok key, st') \<and> sig tok token key claims
        \<and> method_Alg (tk_Method token) \<in> set (po_ValidMethods opts) \<and> tc_Issuer claims = po_Issuer opts))
     \<and> (st' = st \<or> (\<exists>token q. kf token st = (q, st'))))"

text \<open>A token with these claims, signed under a fresh key of the identity provider.\<close>

definition authentic ::
    "AuthEnv \<Rightarrow> TokenExtractor \<Rightarrow> (string \<Rightarrow> Token \<Rightarrow> PublicKey \<Rightarrow> tokenClaims \<Rightarrow> bool) \<Rightarrow> nat \<Rightarrow> nat \<Rightarrow> string \<Rightarrow> tokenClaims \<Rightarrow> bool" where
  "authentic env te sig start finish tok claims \<longleftrightarrow>
     (\<exists>token key kid keys. sig tok token key claims \<and> token_kid token = Ok kid
        \<and> method_Alg (tk_Method token) \<in> {''RS256'', ''RS384'', ''RS512''}
        \<and> fresh env te start finish keys \<and> find_key kid keys = Some (Ok key)
        \<and> tc_Issuer claims = te_expIssuer te \<and> tc_ExpiresAt claims \<noteq> None \<and> tc_ClientID claims \<in> set (te_expClientIDs te))"

text \<open>The principal that the claims of a token stand for.\<close>

definition stands_for :: "tokenClaims \<Rightarrow> Principal \<Rightarrow> bool" where
  "stands_for claims p \<longleftrightarrow>
     (tc_GrantType claims = AuthorizationCodeGrant \<and> tc_Subject claims \<noteq> '''' \<and> pr_Type p = UserPrincipalType \<and> pr_ClientPrincipal p = None
        \<and> (\<exists>u. pr_UserPrincipal p = Some u \<and> up_UserID u = tc_Subject claims \<and> Some (up_Email u) = tc_Email claims
             \<and> Some (up_OUID u) = tc_OUID claims \<and> up_PhoneNumber u = tc_PhoneNumber claims \<and> up_Roles u = tc_Roles claims))
     \<or> (tc_GrantType claims = ClientCredentialsGrant \<and> pr_Type p = ClientPrincipalType \<and> pr_UserPrincipal p = None
        \<and> pr_ClientPrincipal p = Some \<lparr>cp_ClientID = tc_ClientID claims\<rparr>)"

lemma principal_of_Ok:
  "principal_of te claims = Ok p \<Longrightarrow>
     stands_for claims p \<and> tc_ExpiresAt claims \<noteq> None \<and> tc_ClientID claims \<in> set (te_expClientIDs te)"
  by (auto simp: principal_of_def userPrincipalFromClaims_def clientPrincipalFromClaims_def stands_for_def res_simps
      split: if_splits option.splits)

lemma jwt_valid:
  assumes "jwt_documented parse sig" and "parse tok kf opts st = (Ok (True, claims), st')"
  obtains token key where "kf token st = (Ok key, st')" "sig tok token key claims"
    "method_Alg (tk_Method token) \<in> set (po_ValidMethods opts)" "tc_Issuer claims = po_Issuer opts"
  using assms unfolding jwt_documented_def by blast

lemma jwt_state:
  "jwt_documented parse sig \<Longrightarrow> parse tok kf opts st = (r, st') \<Longrightarrow> st' = st \<or> (\<exists>token q. kf token st = (q, st'))"
  unfolding jwt_documented_def by blast

lemma extract_unfold:
  assumes "ExtractPrincipalFromHeader env parse h st = (r, st')" and "bearer_token h = Ok tok"
    and "parse tok (keyFunc env) (parser_options (as_extractor st)) st = (q, s1)"
  shows "st' = s1 \<and> (\<forall>x. r = Ok x \<longrightarrow> (\<exists>p claims. x = Some p \<and> q = Ok (True, claims) \<and> principal_of (as_extractor s1) claims = Ok p))"
proof -
  have run: "bindS (wrapS ''invalid jwt token: %w'' [] (parse tok (keyFunc env) (parser_options (as_extractor st)))) (\<lambda>(valid, claims).
       if \<not> valid then failS (Errorf ''invalid jwt token'' [])
       else bindS (\<lambda>st. (principal_of (as_extractor st) claims, st)) (\<lambda>p. returnS (Some p))) st = (r, st')"
    using assms(1,2) by (simp add: ExtractPrincipalFromHeader_def bindS_def [of "liftS _"] liftS_def)
  show ?thesis
  proof (cases q)
    case (Ok v)
    obtain valid claims where v: "v = (valid, claims)" by fastforce
    with run Ok assms(3) have "(if \<not> valid then failS (Errorf ''invalid jwt token'' [])
       else bindS (\<lambda>st. (principal_of (as_extractor st) claims, st)) (\<lambda>p. returnS (Some p))) s1 = (r, st')"
      by (simp add: bindS_def [of "wrapS _ _ _"] wrapS_def)
    then show ?thesis using Ok v
      by (cases valid; cases "principal_of (as_extractor s1) claims") (auto simp: bindS_def failS_def returnS_def)
  qed (use run assms(3) in \<open>auto simp: bindS_def wrapS_def\<close>)
qed

lemma extract_run:
  assumes lib: "jwt_documented parse sig" and inv: "keys_inv env te st"
    and run: "ExtractPrincipalFromHeader env parse h st = (r, st')"
  shows "keys_inv env te st' \<and> (\<forall>q. r = Ok q \<longrightarrow> (\<exists>p tok claims. q = Some p \<and> bearer_token h = Ok tok
    \<and> authentic env te sig (as_tick st) (as_tick st') tok claims \<and> stands_for claims p))"
proof (cases "bearer_token h")
  case (Ok tok)
  let ?opts = "parser_options (as_extractor st)"
  obtain q s1 where q: "parse tok (keyFunc env) ?opts st = (q, s1)" by fastforce
  note unf = extract_unfold [OF run Ok q]
  have inv1: "keys_inv env te s1" using jwt_state [OF lib q] inv keyFunc_run [OF inv] by blast
  have "authentic env te sig (as_tick st) (as_tick s1) tok claims \<and> stands_for claims p"
    if claims: "q = Ok (True, claims)" "principal_of (as_extractor s1) claims = Ok p" for claims p
  proof -
    from jwt_valid [OF lib q [unfolded claims]] obtain token key where t: "keyFunc env token st = (Ok key, s1)"
      "sig tok token key claims" "method_Alg (tk_Method token) \<in> set (po_ValidMethods ?opts)" "tc_Issuer claims = po_Issuer ?opts" by blast
    moreover from keyFunc_run [OF inv t(1)] obtain kid keys where "token_kid token = Ok kid"
      "fresh env te (as_tick st) (as_tick s1) keys" "find_key kid keys = Some (Ok key)" by blast
    moreover have "po_Issuer ?opts = te_expIssuer te" "set (po_ValidMethods ?opts) = {''RS256'', ''RS384'', ''RS512''}"
      using keys_inv_config [OF inv] by (simp_all add: parser_options_def)
    ultimately show ?thesis
      using principal_of_Ok [OF claims(2)] keys_inv_config [OF inv1] unfolding authentic_def by auto
  qed
  then show ?thesis using Ok inv1 unf by blast
qed (use run inv in \<open>auto simp: ExtractPrincipalFromHeader_def bindS_def liftS_def\<close>)

text \<open>
  C17: A withdrawn key is soon refused. Once the endpoint has stopped serving a key, and the life time of the cache
  has passed since, no token under this key id gets a key, whatever the cache held.
\<close>

theorem withdrawn_key_is_refused:
  assumes "keys_inv env te st" and "mono (ae_now env)" and "token_kid token = Ok kid"
    and "\<And>t keys. t0 \<le> t \<Longrightarrow> served env te t keys \<Longrightarrow> find_key kid keys = None"
    and "t0 \<le> as_tick st" and "ae_now env t0 + te_jwksCacheTTL te \<le> ae_now env (as_tick st)"
  shows "fst (keyFunc env token st) \<noteq> Ok key"
proof
  obtain r st' where run: "keyFunc env token st = (r, st')" by fastforce
  assume "fst (keyFunc env token st) = Ok key"
  with keyFunc_run [OF assms(1) run] run assms(3) obtain keys where
    keys: "fresh env te (as_tick st) (as_tick st') keys" "find_key kid keys = Some (Ok key)" by auto
  from keys(1) obtain t1 t where t: "t1 < t" "served env te t keys"
    "as_tick st \<le> t \<or> (\<exists>t2 \<ge> as_tick st. ae_now env t2 - ae_now env t1 < te_jwksCacheTTL te)" unfolding fresh_def by blast
  have "t < t0" using assms(4) [OF _ t(2)] keys(2) by (cases "t < t0") auto
  then obtain t2 where "as_tick st \<le> t2" "ae_now env t2 - ae_now env t1 < te_jwksCacheTTL te" using t(3) assms(5) by auto
  moreover have "ae_now env t1 \<le> ae_now env t0" using \<open>t < t0\<close> t(1) by (intro monoD [OF assms(2)]) simp
  moreover have "ae_now env (as_tick st) \<le> ae_now env t2" by (rule monoD [OF assms(2)]) fact
  ultimately show False using assms(6) by linarith
qed

section \<open>What the middleware lets through\<close>

text \<open>The context of a request served for these claims, with the tables it was resolved in.\<close>

definition context_of :: "tokenClaims \<Rightarrow> 'z UserDB_scheme \<Rightarrow> AuthContext \<Rightarrow> bool" where
  "context_of claims db ctx \<longleftrightarrow>
     (if tc_GrantType claims = ClientCredentialsGrant
      then ctx = \<lparr>ax_User = None, ax_Client = Some \<lparr>cl_ClientID = tc_ClientID claims\<rparr>\<rparr>
      else \<exists>u. ax_User ctx = Some u \<and> ax_Client ctx = None \<and> uc_IDPUserID u = tc_Subject claims
        \<and> Some (uc_Email u) = tc_Email claims \<and> Some (uc_OUID u) = tc_OUID claims \<and> uc_Roles u = tc_Roles claims
        \<and> (uc_ID u = '''' \<or> id_of (db_users db) (tc_Subject claims) = Some (uc_ID u)))"

lemma build_stands_for:
  assumes "stands_for claims p"
  shows "context_of claims db (buildAuthContext (Some p))"
    and "\<And>u. pr_UserPrincipal p = Some u \<Longrightarrow> tc_GrantType claims \<noteq> ClientCredentialsGrant \<and> up_UserID u = tc_Subject claims"
    and "\<not> (pr_UserPrincipal p = None \<and> pr_ClientPrincipal p = None)"
    and "pr_UserPrincipal p = None \<or> (\<exists>u. ax_User (buildAuthContext (Some p)) = Some u)"
  using assms by (auto simp: stands_for_def context_of_def buildAuthContext_def AuthorizationCodeGrant_def ClientCredentialsGrant_def)

lemma resolved_context:
  assumes "stands_for claims p" and "users_inv Map.empty db"
    and "resolve_user (Some (GetOrCreateUser env)) p (buildAuthContext (Some p)) db = (Ok ctx, db')"
  shows "context_of claims db' ctx"
proof -
  note run = users.resolve_user_run(2) [OF assms(2,3) refl]
  then consider "ctx = buildAuthContext (Some p)"
    | user u v where "pr_UserPrincipal p = Some user" "ax_User (buildAuthContext (Some p)) = Some u"
      "ctx = (buildAuthContext (Some p))\<lparr>ax_User := Some (u\<lparr>uc_ID := v\<rparr>)\<rparr>" "users_inv [up_UserID user \<mapsto> v] db'" by blast
  then show ?thesis
  proof cases
    case 1
    then show ?thesis using build_stands_for(1) [OF assms(1)] by simp
  next
    case 2
    then have "id_of (db_users db') (tc_Subject claims) = Some v"
      using build_stands_for(2) [OF assms(1)] by (auto simp: users_inv_def map_le_def)
    then show ?thesis using build_stands_for(1) [OF assms(1), of db'] build_stands_for(2) [OF assms(1)] 2
      by (auto simp: context_of_def)
  qed
qed

lemma middleware_cases:
  assumes "query_value (hq_Header r) ''Authorization'' = h" and "h \<noteq> ''''"
    and "Middleware env parse service next r (Some st, d) = (q, (s', d'))"
    and "ExtractPrincipalFromHeader env parse h st = (x, st')"
  shows "s' = Some st' \<and> ((q = Ok refuse \<and> d' = d) \<or> (q = Panic \<and> d' = d \<and> x = Panic)
     \<or> (\<exists>p. x = Ok (Some p) \<and> bindS (resolve_user service p (buildAuthContext (Some p))) (\<lambda>authCtx. next (r\<lparr>hq_Auth := Some authCtx\<rparr>)) d = (q, d')))"
proof (cases "\<exists>p. x = Ok (Some p) \<and> \<not> (pr_UserPrincipal p = None \<and> pr_ClientPrincipal p = None)")
  case True
  then obtain p where p: "x = Ok (Some p)" "\<not> (pr_UserPrincipal p = None \<and> pr_ClientPrincipal p = None)" by blast
  from p(1) have "on_data (bindS (resolve_user service p (buildAuthContext (Some p))) (\<lambda>authCtx. next (r\<lparr>hq_Auth := Some authCtx\<rparr>))) (Some st', d)
      = (q, (s', d'))"
    using assms by (simp add: Middleware_def Let_def bindS_def [of "attemptS _"] attemptS_def on_extractor_def if_not_P [OF p(2)])
  then show ?thesis using p by (auto simp: on_data_def split: prod.splits)
next
  case False
  then show ?thesis using assms
    by (cases x) (auto simp: Middleware_def Let_def bindS_def [of "attemptS _"] attemptS_def on_extractor_def returnS_def liftS_def
        split: option.splits)
qed

text \<open>
  C15: Only authenticated requests carry an identity. A request with an authorization header is refused with 401 and
  nothing changed, or panics, or is served with the identity of the claims of an authentic token: signed under a key
  the endpoint served within the life time of the cache, of the configured issuer, with an expiry, for an accepted
  client. The id of a user is the one in the table, or empty; the cache of the keys keeps its invariant.
\<close>

theorem identity_is_authenticated:
  assumes "jwt_documented parse sig" and "keys_inv env te st" and "users_inv Map.empty db"
    and "query_value (hq_Header r) ''Authorization'' \<noteq> ''''"
    and "Middleware env parse (Some (GetOrCreateUser uenv)) next r (Some st, db) = (q, (s', db'))"
  shows "(\<exists>st'. s' = Some st' \<and> keys_inv env te st'
    \<and> ((q = Ok refuse \<and> db' = db) \<or> q = Panic
     \<or> (\<exists>tok claims ctx db1. bearer_token (query_value (hq_Header r) ''Authorization'') = Ok tok
          \<and> authentic env te sig (as_tick st) (as_tick st') tok claims \<and> context_of claims db1 ctx
          \<and> next (r\<lparr>hq_Auth := Some ctx\<rparr>) db1 = (q, db'))))"
proof -
  let ?h = "query_value (hq_Header r) ''Authorization''"
  obtain x st' where ex: "ExtractPrincipalFromHeader env parse ?h st = (x, st')" by fastforce
  note got = extract_run [OF assms(1,2) ex]
  from middleware_cases [OF refl assms(4,5) ex] consider "q = Ok refuse" "db' = db" | "q = Panic"
    | p where "x = Ok (Some p)" "bindS (resolve_user (Some (GetOrCreateUser uenv)) p (buildAuthContext (Some p)))
        (\<lambda>authCtx. next (r\<lparr>hq_Auth := Some authCtx\<rparr>)) db = (q, db')" by blast
  then have "(q = Ok refuse \<and> db' = db) \<or> q = Panic
     \<or> (\<exists>tok claims ctx db1. bearer_token ?h = Ok tok \<and> authentic env te sig (as_tick st) (as_tick st') tok claims
          \<and> context_of claims db1 ctx \<and> next (r\<lparr>hq_Auth := Some ctx\<rparr>) db1 = (q, db'))"
  proof cases
    case 3
    with got obtain tok claims where t: "bearer_token ?h = Ok tok" "authentic env te sig (as_tick st) (as_tick st') tok claims"
      "stands_for claims p" by auto
    obtain c db1 where c: "resolve_user (Some (GetOrCreateUser uenv)) p (buildAuthContext (Some p)) db = (c, db1)" by fastforce
    have noerr: "c \<noteq> Err e" for e
      using c by (auto simp: resolve_user_def bindS_def attemptS_def returnS_def liftS_def split: option.splits prod.splits res.splits)
    show ?thesis
    proof (cases c)
      case (Ok ctx)
      have "context_of claims db1 ctx" by (rule resolved_context [OF t(3) assms(3) c [unfolded Ok]])
      moreover have "next (r\<lparr>hq_Auth := Some ctx\<rparr>) db1 = (q, db')" using 3(2) c Ok by (simp add: bindS_def)
      ultimately show ?thesis using t by blast
    qed (use 3(2) c noerr in \<open>auto simp: bindS_def\<close>)
  qed blast+
  then show ?thesis using got middleware_cases [OF refl assms(4,5) ex] by blast
qed

text \<open>A request without the header reaches the handler as it is.\<close>

lemma no_header_no_context:
  "query_value (hq_Header r) ''Authorization'' = '''' \<Longrightarrow> Middleware env parse service next r s = on_data (next r) s"
  by (simp add: Middleware_def)

text \<open>Every handler that asks for a user refuses a request without the header.\<close>

lemma no_header_is_refused:
  assumes "query_value (hq_Header r) ''Authorization'' = ''''" and "hq_Auth r = None"
  shows "Middleware env parse service (\<lambda>r. with_user r f) r (st, d) = (Ok (ErrorReply 401 ''Unauthorized'' None), (st, d))"
  using assms by (simp add: Middleware_def on_data_def with_user_def GetAuthContext_def returnS_def)

section \<open>A failed look-up\<close>

text \<open>A request of a user whose profile cannot be looked up: the first statement fails.\<close>

definition lookup_fails ::
    "AuthEnv \<Rightarrow> ParseWithClaims \<Rightarrow> UserEnv \<Rightarrow> string \<Rightarrow> AuthState \<Rightarrow> 'z UserDB_scheme \<Rightarrow> UserPrincipal \<Rightarrow> bool" where
  "lookup_fails env parse uenv h st db u \<longleftrightarrow>
     (\<exists>st'. ExtractPrincipalFromHeader env parse h st = (Ok (Some \<lparr>pr_Type = UserPrincipalType, pr_UserPrincipal = Some u, pr_ClientPrincipal = None\<rparr>), st'))
     \<and> h \<noteq> '''' \<and> up_UserID u \<noteq> '''' \<and> (\<exists>e. dbFault (ue_db uenv) (db_tick db) = Some e \<and> \<not> is_not_found e)"

text \<open>The tables after the failed statement, and the context the request goes on with.\<close>

definition after_fault :: "UserEnv \<Rightarrow> 'z UserDB_scheme \<Rightarrow> 'z UserDB_scheme" where
  "after_fault uenv db = db\<lparr>db_users := arrive (ue_others uenv (db_tick db)) (db_users db), db_tick := Suc (db_tick db)\<rparr>"

definition nameless :: "UserPrincipal \<Rightarrow> AuthContext" where
  "nameless u = \<lparr>ax_User = Some \<lparr>uc_ID = '''', uc_IDPUserID = up_UserID u, uc_Email = up_Email u,
     uc_PhoneNumber = derefString (up_PhoneNumber u), uc_OUID = up_OUID u, uc_Roles = up_Roles u\<rparr>, ax_Client = None\<rparr>"

lemma failed_lookup_run:
  assumes "lookup_fails env parse uenv h st db u" and "query_value (hq_Header r) ''Authorization'' = h"
  shows "\<exists>st'. Middleware env parse (Some (GetOrCreateUser uenv)) next r (Some st, db)
      = (case next (r\<lparr>hq_Auth := Some (nameless u)\<rparr>) (after_fault uenv db) of (q, d) \<Rightarrow> (q, (Some st', d)))"
proof -
  obtain st' e where ex: "ExtractPrincipalFromHeader env parse h st
      = (Ok (Some \<lparr>pr_Type = UserPrincipalType, pr_UserPrincipal = Some u, pr_ClientPrincipal = None\<rparr>), st')"
    and fault: "dbFault (ue_db uenv) (db_tick db) = Some e" "\<not> is_not_found e" and h: "h \<noteq> ''''" "up_UserID u \<noteq> ''''"
    using assms(1) unfolding lookup_fails_def by blast
  have "first_user uenv p db = (Err e, after_fault uenv db)" for p
    using fault(1) by (simp add: first_user_def user_call_def db_call_def Let_def after_fault_def)
  then have "GetOrCreateUser uenv (up_UserID u) m n o' db = (Err (Wrapf ''database query failed: %w'' [] e), after_fault uenv db)" for m n o'
    using fault(2) h(2) by (simp add: GetOrCreateUser_def getUserIDByIDP_def bindS_def attemptS_def failS_def)
  then have "resolve_user (Some (GetOrCreateUser uenv)) \<lparr>pr_Type = UserPrincipalType, pr_UserPrincipal = Some u, pr_ClientPrincipal = None\<rparr> (nameless u) db
      = (Ok (nameless u), after_fault uenv db)"
    by (simp add: resolve_user_def bindS_def attemptS_def returnS_def)
  moreover have "buildAuthContext (Some \<lparr>pr_Type = UserPrincipalType, pr_UserPrincipal = Some u, pr_ClientPrincipal = None\<rparr>) = nameless u"
    by (simp add: buildAuthContext_def nameless_def)
  ultimately show ?thesis using ex h(1) assms(2)
    by (intro exI [of _ st']) (simp add: Middleware_def Let_def bindS_def attemptS_def on_extractor_def on_data_def)
qed

lemma db_call_triple:
  "(\<And>db v db'. stmt db = (Ok v, db') \<Longrightarrow> Q v db') \<Longrightarrow> triple (\<lambda>_. True) (db_call env stmt) Q (\<lambda>_. True)"
  by (intro tripleI) (auto simp: db_call_def Let_def split: option.splits)

lemma shell_dto: "triple (\<lambda>_. True) (CreateConsignmentShell env flow chaID tid) (\<lambda>dto _. cd_TraderID dto = tid) (\<lambda>_. True)"
proof -
  let ?made = "\<lambda>c db. List.find (\<lambda>x. c_ID x = c_ID c) (db_consignments db) = Some c \<and> c_TraderID c = tid"
  have create: "triple (\<lambda>_. True) (create_consignment env
      \<lparr>c_ID = '''', c_Flow = flow, c_TraderID = tid, c_State = s, c_Items = [], c_CHAID = chaID, c_CreatedAt = 0\<rparr>) ?made (\<lambda>_. True)" for s
    unfolding create_consignment_def
    by (rule db_call_triple) (auto simp: Let_def find_append find_None_all dest: find_Some_mem split: if_splits option.splits)
  have reload: "triple (?made c) (get_consignment e (c_ID c)) (\<lambda>c' _. c' = c \<and> c_TraderID c = tid) (\<lambda>_. True)" for c e
    by (rule tripleI) (auto simp: get_consignment_def db_call_def Let_def db_first_def split: option.splits)
  have build: "triple (\<lambda>_. c' = c \<and> c_TraderID c = tid) (buildConsignmentDetailDTO e c' None []) (\<lambda>dto _. cd_TraderID dto = tid) (\<lambda>_. True)" for c' c e
    by (rule tripleI) (auto simp: buildConsignmentDetailDTO_def bindS_def liftS_def returnS_def split: res.splits)
  show ?thesis unfolding CreateConsignmentShell_def
    by (rule triple_bindS [of _ _ "\<lambda>_ _. True"], intro triple_wrapS db_call_triple TrueI,
        rule triple_bindS [OF triple_wrapS [OF create]], rule triple_bindS [OF triple_wrapS [OF reload]], rule build)
qed

lemma created_trader:
  assumes "fst (HandleCreateConsignment env r db) = Ok (Reply 201 dto)" and "\<exists>ctx u. hq_Auth r = Some ctx \<and> ax_User ctx = Some u \<and> uc_ID u = tid"
  shows "cd_TraderID dto = tid"
proof -
  obtain ctx u where u: "hq_Auth r = Some ctx" "ax_User ctx = Some u" "uc_ID u = tid" using assms(2) by blast
  from assms(1) u obtain req where "unmarshal dec_create_consignment (hq_Body r) = Ok req" and
    run: "fst (respond (\<lambda>e. if is_not_found e then ErrorReply 404 ''CHA not found'' None
                             else ErrorReply 500 ''failed to create consignment: '' (Some e))
                  201 (CreateConsignmentShell env (cc_Flow req) (cc_ChaID req) tid) db) = Ok (Reply 201 dto)"
    by (auto simp: HandleCreateConsignment_def with_user_def GetAuthContext_def returnS_def liftS_def split: res.splits)
  then obtain db' where "CreateConsignmentShell env (cc_Flow req) (cc_ChaID req) tid db = (Ok dto, db')"
    by (auto simp: respond_run split: prod.splits res.splits if_splits)
  from tripleD [OF shell_dto TrueI this] show ?thesis by simp
qed

lemma failed_lookup_reply:
  assumes "lookup_fails env parse uenv h st db u" and "query_value (hq_Header r) ''Authorization'' = h"
  shows "fst (Middleware env parse (Some (GetOrCreateUser uenv)) next r (Some st, db))
      = fst (next (r\<lparr>hq_Auth := Some (nameless u)\<rparr>) (after_fault uenv db))"
proof -
  obtain st' where "Middleware env parse (Some (GetOrCreateUser uenv)) next r (Some st, db)
      = (case next (r\<lparr>hq_Auth := Some (nameless u)\<rparr>) (after_fault uenv db) of (q, d) \<Rightarrow> (q, (Some st', d)))"
    using failed_lookup_run [OF assms] by blast
  then show ?thesis by (simp add: case_prod_beta)
qed

text \<open>
  C18: Users without a profile share one identity. While the look-up of profiles fails, requests go on with the empty id:
  what one user creates belongs to the trader with the empty id, and the list of consignments shown to
  any two users whose look-up fails is the same.
\<close>

theorem failed_lookup_shares_consignments:
  assumes "lookup_fails env parse uenv h st db u" and "lookup_fails env parse uenv h' st2 db u'"
  shows "(query_value (hq_Query r) ''role'' \<noteq> ''cha'' \<longrightarrow>
      fst (Middleware env parse (Some (GetOrCreateUser uenv)) (HandleGetConsignments denv) (r\<lparr>hq_Header := [(''Authorization'', h)]\<rparr>) (Some st, db))
      = fst (Middleware env parse (Some (GetOrCreateUser uenv)) (HandleGetConsignments denv) (r\<lparr>hq_Header := [(''Authorization'', h')]\<rparr>) (Some st2, db)))
    \<and> (\<forall>dto. fst (Middleware env parse (Some (GetOrCreateUser uenv)) (HandleCreateConsignment cenv) (r\<lparr>hq_Header := [(''Authorization'', h)]\<rparr>) (Some st, db))
        = Ok (Reply 201 dto) \<longrightarrow> cd_TraderID dto = '''')"
proof (intro conjI impI allI)
  let ?r = "\<lambda>h. r\<lparr>hq_Header := [(''Authorization'', h)]\<rparr>"
  have hdr: "query_value (hq_Header (?r h)) ''Authorization'' = h" for h by (simp add: query_value_def)
  note run = failed_lookup_reply [OF assms(1) hdr] and run' = failed_lookup_reply [OF assms(2) hdr]
  {
    assume "query_value (hq_Query r) ''role'' \<noteq> ''cha''"
    then have "HandleGetConsignments denv ((?r h)\<lparr>hq_Auth := Some (nameless u)\<rparr>) (after_fault uenv db)
        = HandleGetConsignments denv ((?r h')\<lparr>hq_Auth := Some (nameless u')\<rparr>) (after_fault uenv db)"
      by (cases "ParsePaginationParams (hq_Query r)"; cases "query_value (hq_Query r) ''role'' = ''''")
        (auto simp: HandleGetConsignments_def with_user_def GetAuthContext_def nameless_def consignment_filter_def Let_def split: prod.splits)
    then show "fst (Middleware env parse (Some (GetOrCreateUser uenv)) (HandleGetConsignments denv) (?r h) (Some st, db))
      = fst (Middleware env parse (Some (GetOrCreateUser uenv)) (HandleGetConsignments denv) (?r h') (Some st2, db))"
      by (simp only: run run')
  }
  fix dto
  assume "fst (Middleware env parse (Some (GetOrCreateUser uenv)) (HandleCreateConsignment cenv) (?r h) (Some st, db)) = Ok (Reply 201 dto)"
  then have "fst (HandleCreateConsignment cenv ((?r h)\<lparr>hq_Auth := Some (nameless u)\<rparr>) (after_fault uenv db)) = Ok (Reply 201 dto)"
    by (simp only: run)
  then show "cd_TraderID dto = ''''" by (rule created_trader) (simp add: nameless_def)
qed

section \<open>Examples\<close>

text \<open>A token library for the examples: a token is the subject's name, verified by the key with modulus 1.\<close>

definition ex_token :: Token where
  "ex_token = \<lparr>tk_Method = SigningMethodRSA ''RS256'', tk_Header = [(''kid'', JStr ''k1'')]\<rparr>"

definition ex_claims :: "string \<Rightarrow> tokenClaims" where
  "ex_claims s = \<lparr>tc_Issuer = ''idp'', tc_Subject = s, tc_ExpiresAt = Some 0, tc_ClientID = ''app'',
     tc_GrantType = ''authorization_code'', tc_Email = Some (s @ ''@x''), tc_PhoneNumber = None, tc_OUID = Some ''ou'', tc_Roles = []\<rparr>"

definition ex_sig :: "string \<Rightarrow> Token \<Rightarrow> PublicKey \<Rightarrow> tokenClaims \<Rightarrow> bool" where
  "ex_sig tok token key claims \<longleftrightarrow> token = ex_token \<and> pk_N key = 1 \<and> claims = ex_claims tok"

definition ex_parse :: ParseWithClaims where
  "ex_parse tok kf opts =
     bindS (kf ex_token) (\<lambda>key.
       if pk_N key = 1 \<and> ''RS256'' \<in> set (po_ValidMethods opts) \<and> po_Issuer opts = ''idp''
       then returnS (True, ex_claims tok) else failS (External ''token is unverifiable''))"

lemma ex_parse_documented: "jwt_documented ex_parse ex_sig"
  unfolding jwt_documented_def
  by (auto simp: ex_parse_def bindS_def returnS_def failS_def ex_sig_def ex_token_def ex_claims_def split: prod.splits res.splits if_splits)

definition ex_jwks :: any where
  "ex_jwks = JObj [(''keys'', JArr [JObj [(''kid'', JStr ''k1''), (''kty'', JStr ''RSA''), (''n'', JStr ''AQ''), (''e'', JStr ''AQAB'')]])]"

text \<open>The endpoint stops serving the key after the exchange with tick 2; a tick is 100 seconds.\<close>

definition ex_auth :: AuthEnv where
  "ex_auth = \<lparr>ae_now = (\<lambda>t. seconds (100 * int t)), ae_request = (\<lambda>_. None),
     ae_get = (\<lambda>_ _ t. Ok (200, Ok (if t < 3 then ex_jwks else JObj [(''keys'', JArr [JObj [(''kid'', JStr ''k2'')]])])))\<rparr>"

definition ex_extractor :: TokenExtractor where
  "ex_extractor = \<lparr>te_jwksURL = ''https://idp/jwks'', te_expIssuer = ''idp'', te_expAudience = ''aud'', te_expClientIDs = [''app''],
     te_httpClient = Some \<lparr>hc_Timeout = 1, hc_InsecureSkipVerify = False\<rparr>, te_cachedJWKS = None, te_lastJWKSFetch = 0,
     te_jwksCacheTTL = defaultJWKSCacheTTL\<rparr>"

definition ex_state :: AuthState where
  "ex_state = \<lparr>as_extractor = ex_extractor, as_tick = 0\<rparr>"

lemma ex_state_inv: "keys_inv ex_auth ex_extractor ex_state"
  by (simp add: keys_inv_def ex_state_def ex_extractor_def)

lemma new_extractor_inv:
  "NewTokenExtractorWithClient u i a cs c = Ok te \<Longrightarrow> keys_inv env te \<lparr>as_extractor = te, as_tick = n\<rparr>"
  by (auto simp: NewTokenExtractorWithClient_def keys_inv_def Let_def res_simps)

definition ex_keys :: "jwk list" where
  "ex_keys = [\<lparr>jk_Kid = ''k1'', jk_Kty = ''RSA'', jk_Alg = '''', jk_Use = '''', jk_N = ''AQ'', jk_E = ''AQAB''\<rparr>]"

lemma ex_served: "jwks_answer (Ok (200, Ok ex_jwks)) = Ok ex_keys"
  by code_simp

lemma ex_found: "find_key ''k1'' ex_keys = Some (Ok \<lparr>pk_N = 1, pk_E = 65537\<rparr>)"
proof -
  have "raw_url_decode ''AQ'' = Ok [1]" "raw_url_decode ''AQAB'' = Ok [1, 0, 1]"
    by (simp_all add: raw_url_decode_def b64_value_def Let_def)
  then show ?thesis by (simp add: ex_keys_def parseRSAPublicKey_def set_bytes_def big_int64_def Let_def)
qed

text \<open>The first token under the key: the clock twice, one exchange.\<close>

lemma ex_key_run:
  "keyFunc ex_auth ex_token ex_state = (Ok \<lparr>pk_N = 1, pk_E = 65537\<rparr>,
     \<lparr>as_extractor = ex_extractor\<lparr>te_cachedJWKS := Some ex_keys, te_lastJWKSFetch := seconds 100\<rparr>, as_tick = 3\<rparr>)"
proof -
  have "token_kid ex_token = Ok ''k1''" by code_simp
  moreover have "getJWKS ex_auth False ex_state = (Ok ex_keys,
      \<lparr>as_extractor = ex_extractor\<lparr>te_cachedJWKS := Some ex_keys, te_lastJWKSFetch := seconds 100\<rparr>, as_tick = 3\<rparr>)"
    by (simp add: getJWKS_def clock_bind cache_valid_def ex_state_def ex_extractor_def ex_auth_def fetchJWKS_def tick_def
        bindS_def [of "fetchJWKS _"] store_keys_def ex_served Let_def numeral_3_eq_3)
  ultimately show ?thesis by (simp add: keyFunc_def bindS_def liftS_def ex_found)
qed

lemma ex_key_withdrawn: "3 \<le> t \<Longrightarrow> served ex_auth ex_extractor t keys \<Longrightarrow> find_key ''k1'' keys = None"
proof -
  assume "3 \<le> t" "served ex_auth ex_extractor t keys"
  then have "jwks_answer (Ok (200, Ok (JObj [(''keys'', JArr [JObj [(''kid'', JStr ''k2'')]])]))) = Ok keys"
    by (auto simp: served_def ex_auth_def ex_extractor_def)
  moreover have "jwks_answer (Ok (200, Ok (JObj [(''keys'', JArr [JObj [(''kid'', JStr ''k2'')]])])))
      = Ok [\<lparr>jk_Kid = ''k2'', jk_Kty = '''', jk_Alg = '''', jk_Use = '''', jk_N = '''', jk_E = ''''\<rparr>]" by code_simp
  ultimately show ?thesis by auto
qed

theorem withdrawn_key_is_refused_witness:
  "\<exists>st. te_cachedJWKS (as_extractor st) \<noteq> None \<and> keys_inv ex_auth ex_extractor st
     \<and> fst (keyFunc ex_auth ex_token (st\<lparr>as_tick := 6\<rparr>)) \<noteq> Ok \<lparr>pk_N = 1, pk_E = 65537\<rparr>"
proof -
  let ?st = "\<lparr>as_extractor = ex_extractor\<lparr>te_cachedJWKS := Some ex_keys, te_lastJWKSFetch := seconds 100\<rparr>, as_tick = 3\<rparr>"
  have inv: "keys_inv ex_auth ex_extractor ?st" using keyFunc_run [OF ex_state_inv ex_key_run] by blast
  have "mono (ae_now ex_auth)" by (simp add: mono_def ex_auth_def seconds_def)
  moreover have "token_kid ex_token = Ok ''k1''" by code_simp
  moreover have "ae_now ex_auth 3 + te_jwksCacheTTL ex_extractor \<le> ae_now ex_auth (as_tick (?st\<lparr>as_tick := 6\<rparr>))"
    by (simp add: ex_auth_def ex_extractor_def seconds_def defaultJWKSCacheTTL_def)
  ultimately have "fst (keyFunc ex_auth ex_token (?st\<lparr>as_tick := 6\<rparr>)) \<noteq> Ok \<lparr>pk_N = 1, pk_E = 65537\<rparr>"
    by (intro withdrawn_key_is_refused [of ex_auth ex_extractor _ _ _ 3]) (use keys_inv_tick [OF inv, of 6] ex_key_withdrawn in auto)
  then show ?thesis using inv by (intro exI [of _ ?st]) simp
qed

definition ex_request :: "string \<Rightarrow> Request" where
  "ex_request h = \<lparr>hq_Auth = None, hq_Path = [], hq_Query = [], hq_Body = None, hq_Header = [(''Authorization'', h)]\<rparr>"

text \<open>A handler that shows the identity it is given.\<close>

definition who :: "Request \<Rightarrow> (UserDB, string Reply) op" where
  "who r = with_user r (\<lambda>u. returnS (Reply 200 (uc_ID u)))"

lemma ex_parsed:
  "ex_parse tok (keyFunc ex_auth) (parser_options ex_extractor) ex_state = (Ok (True, ex_claims tok), snd (keyFunc ex_auth ex_token ex_state))"
  by (simp add: ex_parse_def bindS_def ex_key_run returnS_def parser_options_def ex_extractor_def)

lemma ex_extracts:
  assumes "bearer_token h = Ok tok" and "tok \<noteq> ''''"
  shows "ExtractPrincipalFromHeader ex_auth ex_parse h ex_state = (Ok (Some \<lparr>pr_Type = UserPrincipalType,
     pr_UserPrincipal = Some \<lparr>up_UserID = tok, up_Email = tok @ ''@x'', up_PhoneNumber = None, up_OUID = ''ou'', up_Roles = []\<rparr>,
     pr_ClientPrincipal = None\<rparr>), snd (keyFunc ex_auth ex_token ex_state))"
proof -
  have "principal_of (ex_extractor\<lparr>te_cachedJWKS := c, te_lastJWKSFetch := l\<rparr>) (ex_claims tok) = Ok \<lparr>pr_Type = UserPrincipalType,
     pr_UserPrincipal = Some \<lparr>up_UserID = tok, up_Email = tok @ ''@x'', up_PhoneNumber = None, up_OUID = ''ou'', up_Roles = []\<rparr>,
     pr_ClientPrincipal = None\<rparr>" for c l
    using assms(2) by (simp add: principal_of_def ex_claims_def ex_extractor_def userPrincipalFromClaims_def AuthorizationCodeGrant_def)
  moreover have "as_extractor ex_state = ex_extractor" by (simp add: ex_state_def)
  ultimately show ?thesis using assms(1)
    by (simp add: ExtractPrincipalFromHeader_def bindS_def liftS_def wrapS_def returnS_def ex_parsed ex_key_run)
qed

lemma ex_who:
  "fst (Middleware ex_auth ex_parse (Some (GetOrCreateUser u_env)) who (ex_request ''bearer alice'') (Some ex_state, u_db []))
     = Ok (Reply 200 ''first'')"
proof -
  have tok: "bearer_token ''bearer alice'' = Ok ''alice''" by code_simp
  have hdr: "query_value (hq_Header (ex_request h)) ''Authorization'' = h" for h
    by (simp add: ex_request_def query_value_def)
  let ?p = "\<lparr>pr_Type = UserPrincipalType, pr_UserPrincipal = Some \<lparr>up_UserID = ''alice'', up_Email = ''alice'' @ ''@x'',
      up_PhoneNumber = None, up_OUID = ''ou'', up_Roles = []\<rparr>, pr_ClientPrincipal = None\<rparr>"
  obtain db1 where created: "GetOrCreateUser u_env ''alice'' ''alice@x'' '''' ''ou'' (u_db []) = (Ok (Some ''first''), db1)"
  proof -
    have "fst (GetOrCreateUser u_env ''alice'' ''alice@x'' '''' ''ou'' (u_db [])) = Ok (Some ''first'')" by code_simp
    then show thesis using that by (metis prod.collapse)
  qed
  have "\<exists>ctx u. ax_User ctx = Some u \<and> uc_ID u = ''first''
      \<and> resolve_user (Some (GetOrCreateUser u_env)) ?p (buildAuthContext (Some ?p)) (u_db []) = (Ok ctx, db1)"
    by (simp add: resolve_user_def bindS_def attemptS_def returnS_def derefString_def buildAuthContext_def created)
  then obtain ctx u where ctx: "ax_User ctx = Some u" "uc_ID u = ''first''"
    "resolve_user (Some (GetOrCreateUser u_env)) ?p (buildAuthContext (Some ?p)) (u_db []) = (Ok ctx, db1)" by blast
  then have "bindS (resolve_user (Some (GetOrCreateUser u_env)) ?p (buildAuthContext (Some ?p)))
      (\<lambda>authCtx. who ((ex_request ''bearer alice'')\<lparr>hq_Auth := Some authCtx\<rparr>)) (u_db []) = (Ok (Reply 200 ''first''), db1)"
    by (simp add: bindS_def who_def with_user_def GetAuthContext_def returnS_def)
  then show ?thesis using ex_extracts [OF tok]
    by (simp add: Middleware_def hdr bindS_def [of "attemptS _"] attemptS_def on_extractor_def on_data_def Let_def)
qed

theorem identity_is_authenticated_witness:
  "\<exists>st' db' claims ctx db1. Middleware ex_auth ex_parse (Some (GetOrCreateUser u_env)) who (ex_request ''bearer alice'') (Some ex_state, u_db [])
       = (Ok (Reply 200 ''first''), (Some st', db'))
     \<and> authentic ex_auth ex_extractor ex_sig 0 (as_tick st') ''alice'' claims \<and> context_of claims (db1 :: UserDB) ctx"
proof -
  obtain q s' db' where run: "Middleware ex_auth ex_parse (Some (GetOrCreateUser u_env)) who (ex_request ''bearer alice'') (Some ex_state, u_db [])
      = (q, (s', db'))" by (metis surj_pair)
  have q: "q = Ok (Reply 200 ''first'')" using ex_who by (simp add: run)
  have hdr: "query_value (hq_Header (ex_request ''bearer alice'')) ''Authorization'' = ''bearer alice''"
    by (simp add: ex_request_def query_value_def)
  have tok: "bearer_token ''bearer alice'' = Ok ''alice''" by code_simp
  have ne: "query_value (hq_Header (ex_request ''bearer alice'')) ''Authorization'' \<noteq> ''''" using hdr by simp
  from identity_is_authenticated [OF ex_parse_documented ex_state_inv u_db_inv ne run] obtain st' where s': "s' = Some st'"
    and rest: "(q = Ok refuse \<and> db' = u_db []) \<or> q = Panic \<or> (\<exists>tok claims ctx db1.
        bearer_token (query_value (hq_Header (ex_request ''bearer alice'')) ''Authorization'') = Ok tok
        \<and> authentic ex_auth ex_extractor ex_sig (as_tick ex_state) (as_tick st') tok claims \<and> context_of claims db1 ctx
        \<and> who ((ex_request ''bearer alice'')\<lparr>hq_Auth := Some ctx\<rparr>) db1 = (q, db'))"
    by (elim exE conjE) (rule that)
  have "q \<noteq> Ok refuse" "q \<noteq> Panic" using q by (simp_all add: refuse_def)
  with rest obtain tok' claims ctx db1 where
    "bearer_token (query_value (hq_Header (ex_request ''bearer alice'')) ''Authorization'') = Ok tok'"
    "authentic ex_auth ex_extractor ex_sig (as_tick ex_state) (as_tick st') tok' claims" "context_of claims (db1 :: UserDB) ctx" by blast
  then have "authentic ex_auth ex_extractor ex_sig 0 (as_tick st') ''alice'' claims" "context_of claims db1 ctx"
    using hdr tok by (simp_all add: ex_state_def)
  with run s' q show ?thesis by blast
qed

definition ex_down :: UserEnv where
  "ex_down = u_env\<lparr>ue_db := (ue_db u_env)\<lparr>dbFault := (\<lambda>t. if t = 0 then Some (External ''connection refused'') else None)\<rparr>\<rparr>"

definition ex_principal :: "string \<Rightarrow> UserPrincipal" where
  "ex_principal s = \<lparr>up_UserID = s, up_Email = s @ ''@x'', up_PhoneNumber = None, up_OUID = ''ou'', up_Roles = []\<rparr>"

lemma ex_lookups_fail:
  "lookup_fails ex_auth ex_parse ex_down ''bearer alice'' ex_state (u_db []) (ex_principal ''alice'')"
  "lookup_fails ex_auth ex_parse ex_down ''bearer bob'' ex_state (u_db []) (ex_principal ''bob'')"
proof -
  have "bearer_token ''bearer alice'' = Ok ''alice''" "bearer_token ''bearer bob'' = Ok ''bob''" by code_simp+
  then show "lookup_fails ex_auth ex_parse ex_down ''bearer alice'' ex_state (u_db []) (ex_principal ''alice'')"
    "lookup_fails ex_auth ex_parse ex_down ''bearer bob'' ex_state (u_db []) (ex_principal ''bob'')"
    by (auto simp: lookup_fails_def ex_extracts ex_down_def u_env_def u_db_def ex_principal_def)
qed

theorem failed_lookup_shares_consignments_witness:
  "fst (Middleware ex_auth ex_parse (Some (GetOrCreateUser ex_down)) (HandleGetConsignments (ue_db u_env)) (ex_request ''bearer alice'') (Some ex_state, u_db []))
   = fst (Middleware ex_auth ex_parse (Some (GetOrCreateUser ex_down)) (HandleGetConsignments (ue_db u_env)) (ex_request ''bearer bob'') (Some ex_state, u_db []))"
proof -
  have h: "(ex_request '''')\<lparr>hq_Header := [(''Authorization'', h)]\<rparr> = ex_request h" for h by (simp add: ex_request_def)
  have q: "query_value (hq_Query (ex_request '''')) ''role'' \<noteq> ''cha''" by code_simp
  from failed_lookup_shares_consignments [OF ex_lookups_fail, of "ex_request ''''" "ue_db u_env"] q
  show ?thesis unfolding h by blast
qed

end
