(* ===== verification/Uploads.thy ===== *)
theory Uploads
  imports HttpApi Payments
begin

text \<open>
  \<open>backend/internal/uploads/\<close>: the store of files, on the local disk or in an object store, its signed links, the
  service and the HTTP handlers. A file system is a finite map from absolute clean paths (lists of
  components) to contents with the directories that exist; each system call takes a tick and may fail without
  effect. The base directory stays where it is. The object store's client is a parameter; \<open>crypto/hmac\<close> with SHA-256
  in hexadecimal is the parameter \<open>mac\<close>. A link is kept as its parts: \<open>net/url\<close> encodes the query and decodes it again. The
  path of a link is formatted without escaping, so the link of a key whose extension has a question mark, a hash or a
  percent sign need not bring that key to the handler; here the handler is given the key as such. The limit of 1 MB on the
  JSON body of an upload request is left out: a body beyond it is refused with the status of a malformed one, 400.
\<close>

section \<open>Keys\<close>

definition hex_char :: "char \<Rightarrow> bool" where
  "hex_char c \<longleftrightarrow> (let n = of_char c :: nat in (48 \<le> n \<and> n \<le> 57) \<or> (97 \<le> n \<and> n \<le> 102) \<or> (65 \<le> n \<and> n \<le> 70))"

definition alnum_char :: "char \<Rightarrow> bool" where
  "alnum_char c \<longleftrightarrow> (let n = of_char c :: nat in (48 \<le> n \<and> n \<le> 57) \<or> (97 \<le> n \<and> n \<le> 122) \<or> (65 \<le> n \<and> n \<le> 90))"

text \<open>The parts of the regular expression: \<open>n\<close> hexadecimal digits, a dash; the extension.\<close>

definition hex_run :: "nat \<Rightarrow> string \<Rightarrow> string option" where
  "hex_run n s = (if n \<le> length s \<and> list_all hex_char (take n s) then Some (drop n s) else None)"

fun dash :: "string \<Rightarrow> string option" where
  "dash (c # s) = (if c = CHR ''-'' then Some s else None)"
| "dash [] = None"

fun match_groups :: "nat list \<Rightarrow> string \<Rightarrow> string option" where
  "match_groups [] s = Some s"
| "match_groups [n] s = hex_run n s"
| "match_groups (n # ns) s = Option.bind (Option.bind (hex_run n s) dash) (match_groups ns)"

fun match_ext :: "string \<Rightarrow> bool" where
  "match_ext [] = True"
| "match_ext (c # s) = (c = CHR ''.'' \<and> s \<noteq> [] \<and> list_all alnum_char s)"

definition storageKeyRx :: "string \<Rightarrow> bool" where
  "storageKeyRx key = (case match_groups [8, 4, 4, 4, 12] key of None \<Rightarrow> False | Some ext \<Rightarrow> match_ext ext)"

definition validStorageKey :: "string \<Rightarrow> bool" where
  "validStorageKey key \<longleftrightarrow> length key \<ge> 36 \<and> storageKeyRx key"

definition allowedContentTypes :: "string list" where
  "allowedContentTypes = [''application/pdf'', ''image/jpeg'', ''image/png'', ''image/gif'', ''image/webp'']"

definition isAllowedContentType :: "string \<Rightarrow> bool" where
  "isAllowedContentType ct \<longleftrightarrow> ct \<in> set allowedContentTypes"

text \<open>\<open>filepath.Ext\<close>: from the last dot of the last element.\<close>

definition filepath_Ext :: "string \<Rightarrow> string" where
  "filepath_Ext path =
     (let elem = last (split_on CHR ''/'' path); parts = split_on CHR ''.'' elem in
      if length parts = 1 then '''' else CHR ''.'' # last parts)"

section \<open>Links and tokens: token.go\<close>

type_synonym mac = "string \<Rightarrow> string \<Rightarrow> string"

definition sign :: "mac \<Rightarrow> string \<Rightarrow> string list \<Rightarrow> string" where
  "sign mac secret parts = mac secret (join_with (CHR 0x00) parts)"

definition verify :: "mac \<Rightarrow> string \<Rightarrow> string \<Rightarrow> string list \<Rightarrow> bool" where
  "verify mac token secret parts = (if token = '''' \<or> secret = '''' then False else token = sign mac secret parts)"

definition GenerateToken :: "mac \<Rightarrow> string \<Rightarrow> string \<Rightarrow> int \<Rightarrow> string \<Rightarrow> int \<Rightarrow> string" where
  "GenerateToken mac key secret expiresAt contentType maxSizeBytes =
     sign mac secret [key, show_int expiresAt, contentType, show_int maxSizeBytes]"

definition VerifyToken :: "mac \<Rightarrow> string \<Rightarrow> string \<Rightarrow> string \<Rightarrow> int \<Rightarrow> string \<Rightarrow> int \<Rightarrow> bool" where
  "VerifyToken mac key token secret expiresAt contentType maxSizeBytes =
     verify mac token secret [key, show_int expiresAt, contentType, show_int maxSizeBytes]"

definition GenerateDownloadToken :: "mac \<Rightarrow> string \<Rightarrow> string \<Rightarrow> int \<Rightarrow> string" where
  "GenerateDownloadToken mac key secret expiresAt = sign mac secret [key, show_int expiresAt]"

definition VerifyDownloadToken :: "mac \<Rightarrow> string \<Rightarrow> string \<Rightarrow> string \<Rightarrow> int \<Rightarrow> bool" where
  "VerifyDownloadToken mac key token secret expiresAt = verify mac token secret [key, show_int expiresAt]"

record Link =
  lk_Base :: string
  lk_Key :: string
  lk_Query :: "(string, string) gomap"

text \<open>A link to the program's own handlers, or a text made elsewhere (the object store, or the bare key).\<close>

datatype Url = OwnLink Link | OtherURL string

section \<open>The file system\<close>

type_synonym path = "string list"

record FileStore =
  fs_files :: "(path, string) gomap"
  fs_dirs :: "path list"
  fs_tick :: nat

record FsEnv =
  fe_fault :: "nat \<Rightarrow> go_error option"
  fe_abs :: "string \<Rightarrow> path res"
  fe_evalSymlinks :: "path \<Rightarrow> path res"
  fe_now :: "nat \<Rightarrow> int"
  fe_newUUID :: "nat \<Rightarrow> string"

type_synonym 'a fs = "(FileStore, 'a) op"

definition ErrNotExist :: go_error where
  "ErrNotExist = External ''file does not exist''"

definition syscall :: "FsEnv \<Rightarrow> 'a fs \<Rightarrow> 'a fs" where
  "syscall env f s =
     (let s' = s\<lparr>fs_tick := Suc (fs_tick s)\<rparr> in
      case fe_fault env (fs_tick s) of Some e \<Rightarrow> (Err e, s') | None \<Rightarrow> f s')"

definition is_file :: "FileStore \<Rightarrow> path \<Rightarrow> bool" where
  "is_file s p \<longleftrightarrow> map_get (fs_files s) p \<noteq> None"

definition is_dir :: "FileStore \<Rightarrow> path \<Rightarrow> bool" where
  "is_dir s p \<longleftrightarrow> p = [] \<or> p \<in> set (fs_dirs s)"

definition os_MkdirAll :: "FsEnv \<Rightarrow> path \<Rightarrow> unit fs" where
  "os_MkdirAll env p = syscall env (\<lambda>s.
     if list_ex (is_file s) (prefixes p) then (Err (External ''not a directory''), s)
     else (Ok (), s\<lparr>fs_dirs := filter (\<lambda>q. \<not> is_dir s q) (prefixes p) @ fs_dirs s\<rparr>))"

text \<open>Opening a file for writing truncates it.\<close>

definition open_write :: "path \<Rightarrow> string \<Rightarrow> unit fs" where
  "open_write p content s =
     (if is_dir s p then (Err (External ''is a directory''), s)
      else if is_dir s (butlast p) then (Ok (), s\<lparr>fs_files := map_put p content (fs_files s)\<rparr>)
      else (Err ErrNotExist, s))"

definition os_Create :: "FsEnv \<Rightarrow> path \<Rightarrow> unit fs" where
  "os_Create env p = syscall env (open_write p '''')"

definition os_WriteFile :: "FsEnv \<Rightarrow> path \<Rightarrow> string \<Rightarrow> unit fs" where
  "os_WriteFile env p content = syscall env (open_write p content)"

text \<open>Removal of a file or of an empty directory.\<close>

definition os_Remove :: "FsEnv \<Rightarrow> path \<Rightarrow> unit fs" where
  "os_Remove env p = syscall env (\<lambda>s.
     if is_file s p then (Ok (), s\<lparr>fs_files := AList.delete p (fs_files s)\<rparr>)
     else if is_dir s p then
       (if list_ex (\<lambda>q. strict_prefix p q) (map fst (fs_files s) @ fs_dirs s) then (Err (External ''directory not empty''), s)
        else (Ok (), s\<lparr>fs_dirs := filter (\<lambda>q. q \<noteq> p) (fs_dirs s)\<rparr>))
     else (Err ErrNotExist, s))"

text \<open>
  A stream: its bytes, and the error a reader gets after them. \<open>http.MaxBytesReader\<close> fails after \<open>n\<close> bytes
  when there are more.
\<close>

record Body =
  bd_bytes :: string
  bd_error :: "go_error option"

definition MaxBytesError :: go_error where
  "MaxBytesError = Typed ''MaxBytesError'' (External ''http: request body too large'')"

definition MaxBytesReader :: "int \<Rightarrow> Body \<Rightarrow> Body" where
  "MaxBytesReader n body =
     (if length (bd_bytes body) \<le> nat n then body
      else \<lparr>bd_bytes = take (nat n) (bd_bytes body), bd_error = Some MaxBytesError\<rparr>)"

definition io_Copy :: "FsEnv \<Rightarrow> path \<Rightarrow> Body \<Rightarrow> unit fs" where
  "io_Copy env p body = syscall env (\<lambda>s.
     (case bd_error body of None \<Rightarrow> Ok () | Some e \<Rightarrow> Err e, s\<lparr>fs_files := map_put p (bd_bytes body) (fs_files s)\<rparr>))"

definition os_Open :: "FsEnv \<Rightarrow> path \<Rightarrow> Body fs" where
  "os_Open env p = syscall env (\<lambda>s.
     case map_get (fs_files s) p of
       Some content \<Rightarrow> (Ok \<lparr>bd_bytes = content, bd_error = None\<rparr>, s)
     | None \<Rightarrow> if is_dir s p then (Ok \<lparr>bd_bytes = '''', bd_error = Some (External ''is a directory'')\<rparr>, s) else (Err ErrNotExist, s))"

definition os_ReadFile :: "FsEnv \<Rightarrow> path \<Rightarrow> string fs" where
  "os_ReadFile env p = syscall env (\<lambda>s.
     case map_get (fs_files s) p of Some content \<Rightarrow> (Ok content, s) | None \<Rightarrow> (Err ErrNotExist, s))"

section \<open>Paths\<close>

definition strings_Contains :: "string \<Rightarrow> string \<Rightarrow> bool" where
  "strings_Contains s sub \<longleftrightarrow> list_ex (\<lambda>t. prefix sub t) (suffixes s)"

text \<open>\<open>filepath.Join\<close> of a clean absolute path and a text: components are cleaned one by one.\<close>

fun clean_onto :: "path \<Rightarrow> string list \<Rightarrow> path" where
  "clean_onto acc [] = rev acc"
| "clean_onto acc (c # cs) =
     (if c = '''' \<or> c = ''.'' then clean_onto acc cs
      else if c = ''..'' then clean_onto (tl acc) cs
      else clean_onto (c # acc) cs)"

definition filepath_Join :: "path \<Rightarrow> string \<Rightarrow> path" where
  "filepath_Join base s = clean_onto (rev base) (split_on CHR ''/'' s)"

fun strip_common :: "path \<Rightarrow> path \<Rightarrow> path \<times> path" where
  "strip_common (a # as) (b # bs) = (if a = b then strip_common as bs else (a # as, b # bs))"
| "strip_common as bs = (as, bs)"

definition filepath_Rel :: "path \<Rightarrow> path \<Rightarrow> string" where
  "filepath_Rel base target =
     (case strip_common base target of
        (up, down) \<Rightarrow> if up = [] \<and> down = [] then ''.''
                      else join_with CHR ''/'' (replicate (length up) ''..'' @ down))"

section \<open>local\_fs.go\<close>

record LocalFSDriver =
  ld_BaseDir :: string
  ld_PublicURL :: string
  ld_secretKey :: string
  ld_presignTTL :: int

definition DefaultPresignTTL :: int where "DefaultPresignTTL = 15 * 60 * 10 ^ 9"
definition DefaultMime :: string where "DefaultMime = ''application/octet-stream''"

definition ErrInvalidPath :: go_error where
  "ErrInvalidPath = Errorf ''invalid path: traversal or invalid key not allowed'' []"

text \<open>The second of two joined errors, which is never looked for, is left out.\<close>

definition NewLocalFSDriver :: "FsEnv \<Rightarrow> string \<Rightarrow> string \<Rightarrow> string \<Rightarrow> int \<Rightarrow> LocalFSDriver fs" where
  "NewLocalFSDriver env baseDir publicURL secretKey presignTTL =
     bindS (wrapS ''failed to create base directory: %w'' [] (bindS (liftS (fe_abs env baseDir)) (os_MkdirAll env))) (\<lambda>_.
     returnS \<lparr>ld_BaseDir = baseDir, ld_PublicURL = publicURL, ld_secretKey = secretKey,
              ld_presignTTL = (if presignTTL = 0 then DefaultPresignTTL else presignTTL)\<rparr>)"

definition getHashedPath :: "string \<Rightarrow> string" where
  "getHashedPath key =
     (if length key < 4 then key else join_with CHR ''/'' [take 2 key, take 2 (drop 2 key), key])"

definition resolveAndValidate :: "FsEnv \<Rightarrow> LocalFSDriver \<Rightarrow> string \<Rightarrow> path res" where
  "resolveAndValidate env d key =
     (if strings_Contains key ''..'' \<or> CHR ''/'' \<in> set key \<or> CHR 0x5C \<in> set key
      then Err (Wrapf ''invalid key: %w'' [] ErrInvalidPath)
      else bind_res (wrap_err ''base directory resolution: %w'' [] (fe_abs env (ld_BaseDir d))) (\<lambda>baseAbs.
        let baseResolved = (case fe_evalSymlinks env baseAbs of Ok p \<Rightarrow> p | _ \<Rightarrow> baseAbs);
            fullAbs = filepath_Join baseResolved (getHashedPath key) in
        if prefix ''..'' (filepath_Rel baseResolved fullAbs) then Err (Wrapf ''path outside base: %w'' [] ErrInvalidPath)
        else Ok fullAbs))"

definition meta_path :: "path \<Rightarrow> path" where
  "meta_path p = (if p = [] then [''.meta''] else butlast p @ [last p @ ''.meta''])"

definition ignoring :: "('s, unit) op \<Rightarrow> ('s, unit) op" where
  "ignoring m = bindS (attemptS m) (\<lambda>_. returnS ())"

definition local_Save :: "FsEnv \<Rightarrow> LocalFSDriver \<Rightarrow> string \<Rightarrow> Body \<Rightarrow> string \<Rightarrow> unit fs" where
  "local_Save env d key body contentType =
     bindS (liftS (resolveAndValidate env d key)) (\<lambda>p.
     bindS (wrapS ''failed to create hashed directory: %w'' [] (os_MkdirAll env (butlast p))) (\<lambda>_.
     bindS (wrapS ''failed to create file: %w'' [] (os_Create env p)) (\<lambda>_.
     bindS (attemptS (io_Copy env p body)) (\<lambda>copied.
     case copied of
       Err e \<Rightarrow> bindS (ignoring (os_Remove env p)) (\<lambda>_. failS (Wrapf ''failed to save file content: %w'' [] e))
     | Panic \<Rightarrow> liftS Panic
     | Ok _ \<Rightarrow>
         bindS (attemptS (os_WriteFile env (meta_path p) contentType)) (\<lambda>written.
         case written of
           Err e \<Rightarrow> bindS (ignoring (os_Remove env p)) (\<lambda>_. failS (Wrapf ''failed to save metadata: %w'' [] e))
         | Panic \<Rightarrow> liftS Panic
         | Ok _ \<Rightarrow> returnS ())))))"

definition local_Get :: "FsEnv \<Rightarrow> LocalFSDriver \<Rightarrow> string \<Rightarrow> (Body \<times> string) fs" where
  "local_Get env d key =
     bindS (liftS (resolveAndValidate env d key)) (\<lambda>p.
     bindS (wrapS ''failed to get file: %w'' [] (os_Open env p)) (\<lambda>f.
     bindS (attemptS (os_ReadFile env (meta_path p))) (\<lambda>metaBytes.
     returnS (f, case metaBytes of Ok m \<Rightarrow> m | _ \<Rightarrow> DefaultMime))))"

definition local_Delete :: "FsEnv \<Rightarrow> LocalFSDriver \<Rightarrow> string \<Rightarrow> unit fs" where
  "local_Delete env d key =
     bindS (liftS (resolveAndValidate env d key)) (\<lambda>p.
     bindS (ignoring (os_Remove env (meta_path p))) (\<lambda>_.
     bindS (attemptS (os_Remove env p)) (\<lambda>removed.
     case removed of
       Err e \<Rightarrow> if e \<noteq> ErrNotExist then failS (Wrapf ''failed to delete file: %w'' [] e) else returnS ()
     | Panic \<Rightarrow> liftS Panic
     | Ok _ \<Rightarrow> returnS ())))"

definition unix :: "int \<Rightarrow> int" where "unix t = t div 10 ^ 9"

definition now :: "FsEnv \<Rightarrow> int fs" where
  "now env s = (Ok (fe_now env (fs_tick s)), s\<lparr>fs_tick := Suc (fs_tick s)\<rparr>)"

definition local_GetDownloadURL :: "mac \<Rightarrow> FsEnv \<Rightarrow> LocalFSDriver \<Rightarrow> string \<Rightarrow> Url fs" where
  "local_GetDownloadURL mac env d key =
     (if ld_PublicURL d = '''' then returnS (OtherURL key)
      else bindS (now env) (\<lambda>t.
        let expiresAt = unix (t + ld_presignTTL d) in
        returnS (OwnLink \<lparr>lk_Base = ld_PublicURL d, lk_Key = key,
          lk_Query = [(''token'', GenerateDownloadToken mac key (ld_secretKey d) expiresAt), (''expiresAt'', show_int expiresAt)]\<rparr>)))"

definition local_GetUploadURL :: "mac \<Rightarrow> FsEnv \<Rightarrow> LocalFSDriver \<Rightarrow> string \<Rightarrow> string \<Rightarrow> int \<Rightarrow> Url fs" where
  "local_GetUploadURL mac env d key contentType maxSizeBytes =
     (if ld_PublicURL d = '''' then failS (Errorf ''public URL not configured for local storage'' [])
      else bindS (now env) (\<lambda>t.
        let expiresAt = unix (t + ld_presignTTL d) in
        returnS (OwnLink \<lparr>lk_Base = ld_PublicURL d, lk_Key = key,
          lk_Query = [(''token'', GenerateToken mac key (ld_secretKey d) expiresAt contentType maxSizeBytes),
            (''expiresAt'', show_int expiresAt), (''contentType'', contentType), (''maxSizeBytes'', show_int maxSizeBytes)]\<rparr>)))"

section \<open>s3\_driver.go\<close>

text \<open>The operations of the object store's client, over its state.\<close>

record 'b S3Client =
  s3_PutObject :: "string \<Rightarrow> string \<Rightarrow> Body \<Rightarrow> string \<Rightarrow> ('b, unit) op"
  s3_GetObject :: "string \<Rightarrow> string \<Rightarrow> ('b, Body \<times> string option) op"
  s3_DeleteObject :: "string \<Rightarrow> string \<Rightarrow> ('b, unit) op"
  s3_PresignGetObject :: "string \<Rightarrow> string \<Rightarrow> int \<Rightarrow> ('b, string) op"
  s3_PresignPutObject :: "string \<Rightarrow> string \<Rightarrow> string \<Rightarrow> int \<Rightarrow> int \<Rightarrow> ('b, string) op"

record 'b S3Driver =
  sd_Client :: "'b S3Client"
  sd_Bucket :: string
  sd_PublicURL :: string
  sd_presignTTL :: int

definition NewS3Driver :: "'b S3Client \<Rightarrow> string \<Rightarrow> string \<Rightarrow> int \<Rightarrow> 'b S3Driver" where
  "NewS3Driver client bucket publicURL presignTTL =
     \<lparr>sd_Client = client, sd_Bucket = bucket, sd_PublicURL = publicURL,
      sd_presignTTL = (if presignTTL = 0 then DefaultPresignTTL else presignTTL)\<rparr>"

definition s3_Save :: "'b S3Driver \<Rightarrow> string \<Rightarrow> Body \<Rightarrow> string \<Rightarrow> ('b, unit) op" where
  "s3_Save d key content contentType =
     wrapS ''failed to upload to S3: %w'' [] (s3_PutObject (sd_Client d) (sd_Bucket d) key content contentType)"

definition s3_Get :: "'b S3Driver \<Rightarrow> string \<Rightarrow> ('b, Body \<times> string) op" where
  "s3_Get d key =
     bindS (wrapS ''failed to get from S3: %w'' [] (s3_GetObject (sd_Client d) (sd_Bucket d) key)) (\<lambda>(body, contentType).
     returnS (body, case contentType of None \<Rightarrow> DefaultMime | Some ct \<Rightarrow> ct))"

definition s3_Delete :: "'b S3Driver \<Rightarrow> string \<Rightarrow> ('b, unit) op" where
  "s3_Delete d key = wrapS ''failed to delete from S3: %w'' [] (s3_DeleteObject (sd_Client d) (sd_Bucket d) key)"

definition presignGet :: "'b S3Driver \<Rightarrow> string \<Rightarrow> ('b, string) op" where
  "presignGet d key =
     wrapS ''failed to presign URL: %w'' [] (s3_PresignGetObject (sd_Client d) (sd_Bucket d) key (sd_presignTTL d))"

definition presignPut :: "'b S3Driver \<Rightarrow> string \<Rightarrow> string \<Rightarrow> int \<Rightarrow> ('b, string) op" where
  "presignPut d key contentType maxSizeBytes =
     wrapS ''failed to presign upload URL: %w'' []
       (s3_PresignPutObject (sd_Client d) (sd_Bucket d) key contentType maxSizeBytes (sd_presignTTL d))"

section \<open>storage.go, factory.go and service.go\<close>

text \<open>The state of a storage: the bucket and the file system.\<close>

datatype 'b StorageDriver = LocalFS LocalFSDriver | S3 "'b S3Driver"

type_synonym ('b, 'a) storage = "('b \<times> FileStore, 'a) op"

definition on_bucket :: "('b, 'a) op \<Rightarrow> ('b, 'a) storage" where
  "on_bucket m s = (case m (fst s) of (r, b) \<Rightarrow> (r, (b, snd s)))"

definition on_files :: "'a fs \<Rightarrow> ('b, 'a) storage" where
  "on_files m s = (case m (snd s) of (r, f) \<Rightarrow> (r, (fst s, f)))"

record StorageConfig =
  sc_Type :: string
  sc_LocalBaseDir :: string
  sc_LocalPublicURL :: string
  sc_LocalPutSecret :: string
  sc_S3Bucket :: string
  sc_S3PublicURL :: string
  sc_PresignTTL :: int

text \<open>Loading the configuration of the object store's library and its client is the library's.\<close>

definition NewStorageFromConfig :: "FsEnv \<Rightarrow> 'b S3Client res \<Rightarrow> StorageConfig \<Rightarrow> ('b, 'b StorageDriver) storage" where
  "NewStorageFromConfig env client cfg =
     (if trim_space (sc_Type cfg) = ''local'' then
        bindS (on_files (NewLocalFSDriver env (sc_LocalBaseDir cfg) (sc_LocalPublicURL cfg) (sc_LocalPutSecret cfg) (sc_PresignTTL cfg)))
          (\<lambda>d. returnS (LocalFS d))
      else if trim_space (sc_Type cfg) = ''s3'' then
        bindS (liftS (wrap_err ''failed to load AWS config: %w'' [] client)) (\<lambda>c.
        returnS (S3 (NewS3Driver c (sc_S3Bucket cfg) (sc_S3PublicURL cfg) (sc_PresignTTL cfg))))
      else failS (Errorf ''unsupported storage type: %s'' [sc_Type cfg]))"

definition drv_Save :: "FsEnv \<Rightarrow> 'b StorageDriver \<Rightarrow> string \<Rightarrow> Body \<Rightarrow> string \<Rightarrow> ('b, unit) storage" where
  "drv_Save env d key body ct =
     (case d of LocalFS l \<Rightarrow> on_files (local_Save env l key body ct) | S3 s \<Rightarrow> on_bucket (s3_Save s key body ct))"

definition drv_Get :: "FsEnv \<Rightarrow> 'b StorageDriver \<Rightarrow> string \<Rightarrow> ('b, Body \<times> string) storage" where
  "drv_Get env d key = (case d of LocalFS l \<Rightarrow> on_files (local_Get env l key) | S3 s \<Rightarrow> on_bucket (s3_Get s key))"

definition drv_Delete :: "FsEnv \<Rightarrow> 'b StorageDriver \<Rightarrow> string \<Rightarrow> ('b, unit) storage" where
  "drv_Delete env d key = (case d of LocalFS l \<Rightarrow> on_files (local_Delete env l key) | S3 s \<Rightarrow> on_bucket (s3_Delete s key))"

definition drv_GetDownloadURL :: "mac \<Rightarrow> FsEnv \<Rightarrow> 'b StorageDriver \<Rightarrow> string \<Rightarrow> ('b, Url) storage" where
  "drv_GetDownloadURL mac env d key =
     (case d of LocalFS l \<Rightarrow> on_files (local_GetDownloadURL mac env l key)
      | S3 s \<Rightarrow> on_bucket (bindS (presignGet s key) (\<lambda>u. returnS (OtherURL u))))"

definition drv_GetUploadURL :: "mac \<Rightarrow> FsEnv \<Rightarrow> 'b StorageDriver \<Rightarrow> string \<Rightarrow> string \<Rightarrow> int \<Rightarrow> ('b, Url) storage" where
  "drv_GetUploadURL mac env d key ct maxSizeBytes =
     (case d of LocalFS l \<Rightarrow> on_files (local_GetUploadURL mac env l key ct maxSizeBytes)
      | S3 s \<Rightarrow> on_bucket (bindS (presignPut s key ct maxSizeBytes) (\<lambda>u. returnS (OtherURL u))))"

record FileMetadata =
  fm_ID :: string
  fm_Name :: string
  fm_Key :: string
  fm_UploadURL :: Url
  fm_Size :: int
  fm_MimeType :: string

definition new_key :: "FsEnv \<Rightarrow> string fs" where
  "new_key env s = (Ok (fe_newUUID env (fs_tick s)), s\<lparr>fs_tick := Suc (fs_tick s)\<rparr>)"

definition svc_Upload :: "mac \<Rightarrow> FsEnv \<Rightarrow> 'b StorageDriver \<Rightarrow> string \<Rightarrow> int \<Rightarrow> string \<Rightarrow> ('b, FileMetadata) storage" where
  "svc_Upload mac env d filename sz mime0 =
     (let mime = (if mime0 = '''' then DefaultMime else mime0) in
      bindS (on_files (new_key env)) (\<lambda>i.
      let key = i @ filepath_Ext filename in
      bindS (wrapS ''failed to generate upload URL: %w'' [] (drv_GetUploadURL mac env d key mime sz)) (\<lambda>url.
      returnS \<lparr>fm_ID = i, fm_Name = filename, fm_Key = key, fm_UploadURL = url, fm_Size = sz, fm_MimeType = mime\<rparr>)))"

definition svc_Delete :: "FsEnv \<Rightarrow> 'b StorageDriver \<Rightarrow> string \<Rightarrow> ('b, unit) storage" where
  "svc_Delete env d key = wrapS ''failed to delete file: %w'' [] (drv_Delete env d key)"

section \<open>http\_handler.go\<close>

record UploadRequest =
  ur_Filename :: string
  ur_MimeType :: string
  ur_Size :: int

definition dec_upload :: "UploadRequest decoder" where
  "dec_upload = dec_struct (\<lambda>m.
     bind_res (dec_field dec_string ''filename'' m) (\<lambda>f.
     bind_res (dec_field dec_string ''mime_type'' m) (\<lambda>t.
     bind_res (dec_field dec_int ''size'' m) (\<lambda>n.
     Ok \<lparr>ur_Filename = f, ur_MimeType = t, ur_Size = n\<rparr>))))"

definition fail_with :: "nat \<Rightarrow> string \<Rightarrow> ('s, 'v Reply) op" where
  "fail_with status msg = returnS (ErrorReply status msg None)"

definition HandleUpload :: "mac \<Rightarrow> FsEnv \<Rightarrow> 'b StorageDriver \<Rightarrow> Request \<Rightarrow> ('b, FileMetadata Reply) storage" where
  "HandleUpload mac env d r =
     (if GetAuthContext r = None then fail_with 401 ''Unauthorized''
      else case unmarshal dec_upload (hq_Body r) of
        Err e \<Rightarrow> fail_with 400 ''invalid request body''
      | Panic \<Rightarrow> liftS Panic
      | Ok req \<Rightarrow>
          if ur_Filename req = '''' then fail_with 400 ''filename is required''
          else if ur_MimeType req = '''' then fail_with 400 ''mime_type is required''
          else if ur_Size req \<le> 0 then fail_with 400 ''size must be greater than 0''
          else if ur_Size req > 32 * 2 ^ 20 then fail_with 400 ''file size exceeds 32MB limit''
          else if \<not> isAllowedContentType (ur_MimeType req) then fail_with 415 ''invalid or prohibited file type''
          else respond (\<lambda>e. ErrorReply 500 ''failed to prepare upload'' None) 200
                 (svc_Upload mac env d (ur_Filename req) (ur_Size req) (ur_MimeType req)))"

text \<open>A request for the content of a key: the method and the raw body; its type is in the headers.\<close>

record ContentRequest = Request +
  cq_Method :: string
  cq_Raw :: Body

text \<open>The \<open>{key}\<close> of the path, checked.\<close>

definition with_key :: "(string, string) gomap \<Rightarrow> (string \<Rightarrow> ('s, 'v Reply) op) \<Rightarrow> ('s, 'v Reply) op" where
  "with_key path f =
     (let key = query_value path ''key'' in
      if key = '''' then fail_with 400 ''key is required''
      else if \<not> validStorageKey key then fail_with 400 ''invalid key format''
      else f key)"

text \<open>\<open>strconv.ParseInt(s, 10, 64)\<close> reads the numbers of \<open>Atoi\<close>.\<close>

definition with_int :: "string \<Rightarrow> string \<Rightarrow> (int \<Rightarrow> ('s, 'v Reply) op) \<Rightarrow> ('s, 'v Reply) op" where
  "with_int s msg f = (case strconv_Atoi s of Ok n \<Rightarrow> f (sint n) | _ \<Rightarrow> fail_with 400 msg)"

definition UploadContentLocal :: "mac \<Rightarrow> FsEnv \<Rightarrow> 'b StorageDriver \<Rightarrow> ContentRequest \<Rightarrow> ('b, unit Reply) storage" where
  "UploadContentLocal mac env drv r =
     (case drv of S3 _ \<Rightarrow> fail_with 404 ''not found'' | LocalFS d \<Rightarrow>
      if cq_Method r \<noteq> ''PUT'' then fail_with 405 ''method not allowed''
      else with_key (hq_Path r) (\<lambda>key.
        let token = query_value (hq_Query r) ''token''; expiresAtStr = query_value (hq_Query r) ''expiresAt'';
            encodedContentType = query_value (hq_Query r) ''contentType''; maxSizeBytesStr = query_value (hq_Query r) ''maxSizeBytes'' in
        if token = '''' \<or> expiresAtStr = '''' \<or> encodedContentType = '''' \<or> maxSizeBytesStr = ''''
        then fail_with 401 ''missing security token or constraints''
        else with_int expiresAtStr ''invalid expiration format'' (\<lambda>expiresAt.
          with_int maxSizeBytesStr ''invalid max size format'' (\<lambda>maxSizeBytes.
            if \<not> VerifyToken mac key token (ld_secretKey d) expiresAt encodedContentType maxSizeBytes
            then fail_with 401 ''invalid security token''
            else bindS (on_files (now env)) (\<lambda>t.
              let contentType = (let h = query_value (hq_Header r) ''Content-Type'' in if h = '''' then DefaultMime else h) in
              if unix t > expiresAt then fail_with 403 ''upload link expired''
              else if contentType \<noteq> encodedContentType then fail_with 415 ''content-type mismatch''
              else respond (\<lambda>e. if is_typed ''MaxBytesError'' e then ErrorReply 413 ''file size exceeds specified limit'' None
                                else ErrorReply 500 ''failed to save file'' None)
                     204 (on_files (local_Save env d key (MaxBytesReader maxSizeBytes (cq_Raw r)) contentType)))))))"

record DownloadReply =
  dr_DownloadURL :: Url
  dr_ExpiresAt :: int

definition HandleDownload :: "mac \<Rightarrow> FsEnv \<Rightarrow> 'b StorageDriver \<Rightarrow> Request \<Rightarrow> ('b, DownloadReply Reply) storage" where
  "HandleDownload mac env d r =
     with_key (hq_Path r) (\<lambda>key.
       respond (\<lambda>e. ErrorReply 500 ''failed to generate access'' None) 200
         (bindS (drv_GetDownloadURL mac env d key) (\<lambda>url.
          bindS (on_files (now env)) (\<lambda>t.
          returnS \<lparr>dr_DownloadURL = url, dr_ExpiresAt = unix (t + DefaultPresignTTL)\<rparr>))))"

text \<open>The body of the reply is copied up to the error of its stream, if it has one.\<close>

definition DownloadContent :: "mac \<Rightarrow> FsEnv \<Rightarrow> 'b StorageDriver \<Rightarrow> Request \<Rightarrow> ('b, (Body \<times> string) Reply) storage" where
  "DownloadContent mac env drv r =
     (case drv of S3 _ \<Rightarrow> fail_with 404 ''not found'' | LocalFS d \<Rightarrow>
      with_key (hq_Path r) (\<lambda>key.
        let token = query_value (hq_Query r) ''token''; expiresAtStr = query_value (hq_Query r) ''expiresAt'' in
        if token = '''' \<or> expiresAtStr = '''' then fail_with 401 ''missing security token or expiration''
        else with_int expiresAtStr ''invalid expiration format'' (\<lambda>expiresAt.
          if \<not> VerifyDownloadToken mac key token (ld_secretKey d) expiresAt then fail_with 401 ''invalid security token''
          else bindS (on_files (now env)) (\<lambda>t.
            if unix t > expiresAt then fail_with 403 ''download link expired''
            else respond (\<lambda>e. ErrorReply 500 ''failed to get file'' None) 200 (drv_Get env drv key)))))"

definition HandleDelete :: "FsEnv \<Rightarrow> 'b StorageDriver \<Rightarrow> Request \<Rightarrow> ('b, unit Reply) storage" where
  "HandleDelete env d r =
     (if GetAuthContext r = None then fail_with 401 ''Unauthorized''
      else with_key (hq_Path r) (\<lambda>key.
        respond (\<lambda>e. ErrorReply 500 ''failed to delete file'' None) 204 (svc_Delete env d key)))"

end
