(* ===== verification/UploadProperties.thy ===== *)
theory UploadProperties
  imports Uploads
begin

text \<open>
  What the store of files promises: files stay under the base directory, what was saved is read back until its key
  is used again, a signed link admits only the upload it was issued for, and an issued link works until it
  expires exactly when the extension of the file's name is one the keys allow.
\<close>

section \<open>Numbers in texts\<close>

lemma digits_value_append: "digits_value acc (xs @ ys) = digits_value (digits_value acc xs) ys"
  by (induction acc xs rule: digits_value.induct) auto

lemma digit_of_char: "n < 10 \<Longrightarrow> (of_char (char_of (48 + n :: nat)) :: nat) = 48 + n"
  by (simp add: of_char_of)

lemma show_nat_digits: "show_nat n \<noteq> [] \<and> list_all digit_char (show_nat n) \<and> digits_value 0 (show_nat n) = n"
proof (induction n rule: show_nat.induct)
  case (1 n)
  show ?case
  proof (cases "n < 10")
    case True
    then show ?thesis by (subst (1 2 3) show_nat.simps) (simp add: digit_char_def digit_of_char)
  next
    case False
    have c: "(of_char (char_of (48 + n mod 10)) :: nat) = 48 + n mod 10" by (rule digit_of_char) simp
    have "digit_char (char_of (48 + n mod 10))" unfolding digit_char_def Let_def c by simp
    moreover have "digits_value 0 (show_nat (n div 10) @ [char_of (48 + n mod 10)]) = n"
      using 1 False unfolding digits_value_append by (simp add: c)
    moreover have "show_nat n = show_nat (n div 10) @ [char_of (48 + n mod 10)]" using False by (subst show_nat.simps) simp
    ultimately show ?thesis using 1 False by simp
  qed
qed

lemma digit_not_special: "digit_char c \<Longrightarrow> c \<noteq> CHR ''-'' \<and> c \<noteq> CHR ''+'' \<and> c \<noteq> CHR 0x00"
  by (auto simp: digit_char_def Let_def)

lemma show_int_no_nul: "CHR 0x00 \<notin> set (show_int i)"
  using show_nat_digits [of "nat i"] show_nat_digits [of "nat (- i)"]
  by (auto simp: show_int_def list_all_iff dest: digit_not_special)

lemma show_int_nonempty [simp]: "show_int i \<noteq> ''''"
  using show_nat_digits [of "nat i"] by (simp add: show_int_def)

lemma show_nat_inj: "show_nat m = show_nat n \<Longrightarrow> m = n"
  using show_nat_digits by metis

lemma show_nat_hd: "hd (show_nat n) \<notin> {CHR ''-'', CHR ''+''}"
proof -
  have "digit_char (hd (show_nat n))" using show_nat_digits [of n] by (cases "show_nat n") auto
  then show ?thesis using digit_not_special by auto
qed

lemma show_int_inj: "show_int i = show_int j \<Longrightarrow> i = j"
  using show_nat_hd [of "nat i"] show_nat_hd [of "nat j"]
  by (auto simp: show_int_def split: if_splits dest: show_nat_inj) (metis list.sel(1))+

lemma atoi_show_int:
  assumes "0 \<le> i" and "i < 2 ^ 63"
  shows "strconv_Atoi (show_int i) = Ok (of_int i)" and "sint (of_int i :: 64 word) = i"
proof -
  obtain n where n: "i = int n" using assms(1) nonneg_int_cases by blast
  with assms(2) have small: "n < 2 ^ 63" by simp
  then show "strconv_Atoi (show_int i) = Ok (of_int i)"
    using show_nat_digits [of n] show_nat_hd [of n] n by (auto simp: strconv_Atoi_def show_int_def Let_def)
  show "sint (of_int i :: 64 word) = i" using sint_small [OF small] n by simp
qed

section \<open>Keys\<close>

lemma hex_no_special: "hex_char c \<Longrightarrow> c \<noteq> CHR ''.'' \<and> c \<noteq> CHR ''/'' \<and> c \<noteq> CHR 0x5C \<and> c \<noteq> CHR 0x00"
  by (auto simp: hex_char_def Let_def)

lemma alnum_no_special: "alnum_char c \<Longrightarrow> c \<noteq> CHR ''.'' \<and> c \<noteq> CHR ''/'' \<and> c \<noteq> CHR 0x5C \<and> c \<noteq> CHR 0x00"
  by (auto simp: alnum_char_def Let_def)

lemma match_groups_split:
  "match_groups ns s = Some ext \<Longrightarrow>
     \<exists>u. s = u @ ext \<and> list_all (\<lambda>c. hex_char c \<or> c = CHR ''-'') u \<and> length u = sum_list ns + (length ns - 1)
       \<and> (\<forall>ext'. match_groups ns (u @ ext') = Some ext')"
proof (induction ns s arbitrary: ext rule: match_groups.induct)
  case (1 s)
  then show ?case by simp
next
  case (2 n s)
  then have "n \<le> length s" "list_all hex_char (take n s)" "ext = drop n s" by (auto simp: hex_run_def split: if_splits)
  then show ?case by (intro exI [of _ "take n s"]) (auto simp: list_all_iff hex_run_def)
next
  case (3 n m ms s)
  then obtain t where t: "n \<le> length s" "list_all hex_char (take n s)" "drop n s = CHR ''-'' # t" "match_groups (m # ms) t = Some ext"
    by (cases "drop n s") (auto simp: hex_run_def Option.bind_eq_Some_conv split: if_splits)
  have b: "Option.bind (hex_run n s) dash = Some t" using t by (simp add: hex_run_def)
  from "3.IH" [OF b t(4)] obtain u where u: "t = u @ ext" "list_all (\<lambda>c. hex_char c \<or> c = CHR ''-'') u"
    "length u = sum_list (m # ms) + (length (m # ms) - 1)" "\<forall>ext'. match_groups (m # ms) (u @ ext') = Some ext'" by blast
  have "s = take n s @ CHR ''-'' # t" using append_take_drop_id [of n s] t(3) by simp
  then show ?case using t u
    by (intro exI [of _ "take n s @ CHR ''-'' # u"]) (auto simp: list_all_iff hex_run_def)
qed

text \<open>A text in the form of a UUID.\<close>

definition is_uuid :: "string \<Rightarrow> bool" where
  "is_uuid u \<longleftrightarrow> match_groups [8, 4, 4, 4, 12] u = Some ''''"

lemma valid_key_parts:
  assumes "validStorageKey key"
  obtains u ext where "key = u @ ext" "is_uuid u" "length u = 36" "list_all (\<lambda>c. hex_char c \<or> c = CHR ''-'') u" "match_ext ext"
proof -
  from assms obtain ext where ext: "match_groups [8, 4, 4, 4, 12] key = Some ext" "match_ext ext"
    by (auto simp: validStorageKey_def storageKeyRx_def split: option.splits)
  from match_groups_split [OF ext(1)] obtain u where u: "key = u @ ext" "list_all (\<lambda>c. hex_char c \<or> c = CHR ''-'') u"
    "length u = sum_list [8, 4, 4, 4, 12] + (length [8, 4, 4, 4, 12 :: nat] - 1)" "\<forall>ext'. match_groups [8, 4, 4, 4, 12] (u @ ext') = Some ext'"
    by blast
  from u(4) [THEN spec, of "[]"] have "is_uuid u" by (simp add: is_uuid_def)
  with u ext(2) that show thesis by simp
qed

lemma uuid_key:
  assumes "is_uuid u"
  shows "validStorageKey (u @ ext) \<longleftrightarrow> match_ext ext"
proof -
  from match_groups_split [OF assms [unfolded is_uuid_def]] have u: "length u = 36" "\<And>ext'. match_groups [8, 4, 4, 4, 12] (u @ ext') = Some ext'"
    by auto
  then show ?thesis by (simp add: validStorageKey_def storageKeyRx_def)
qed

lemma valid_key_chars:
  assumes "validStorageKey key"
  shows "CHR ''/'' \<notin> set key" and "CHR 0x5C \<notin> set key" and "CHR 0x00 \<notin> set key" and "\<not> strings_Contains key ''..''" and "36 \<le> length key"
proof -
  from valid_key_parts [OF assms] obtain u ext where key: "key = u @ ext" "length u = 36"
    "list_all (\<lambda>c. hex_char c \<or> c = CHR ''-'') u" "match_ext ext" by metis
  have u: "c \<noteq> CHR ''.'' \<and> c \<noteq> CHR ''/'' \<and> c \<noteq> CHR 0x5C \<and> c \<noteq> CHR 0x00" if "c \<in> set u" for c
    using key(3) that hex_no_special by (auto simp: list_all_iff)
  have "\<exists>e. (ext = [] \<or> ext = CHR ''.'' # e) \<and> (\<forall>c \<in> set e. alnum_char c)"
    using key(4) by (cases ext) (auto simp: list_all_iff intro: exI [of _ "[]"])
  then obtain e where ext: "ext = [] \<or> ext = CHR ''.'' # e" and e: "\<And>c. c \<in> set e \<Longrightarrow> alnum_char c" by blast
  have "c \<noteq> CHR ''/'' \<and> c \<noteq> CHR 0x5C \<and> c \<noteq> CHR 0x00" if "c \<in> set key" for c
    using that ext u [of c] alnum_no_special [OF e, of c] key(1) by auto
  then show "CHR ''/'' \<notin> set key" "CHR 0x5C \<notin> set key" "CHR 0x00 \<notin> set key" by blast+
  show "36 \<le> length key" using key by simp
  have "filter (\<lambda>c. c = CHR ''.'') u = []" "filter (\<lambda>c. c = CHR ''.'') e = []"
    using u alnum_no_special [OF e] by (auto simp: filter_empty_conv)
  then have one: "length (filter (\<lambda>c. c = CHR ''.'') key) \<le> 1" using ext key(1) by auto
  show "\<not> strings_Contains key ''..''"
  proof
    assume "strings_Contains key ''..''"
    then obtain s t where "key = s @ ''..'' @ t" by (auto simp: strings_Contains_def list_ex_iff prefix_def suffix_def)
    with one show False by simp
  qed
qed

section \<open>Paths\<close>

lemma clean_onto_plain:
  "''..'' \<notin> set cs \<Longrightarrow> clean_onto acc cs = rev acc @ filter (\<lambda>c. c \<noteq> '''' \<and> c \<noteq> ''.'') cs"
  by (induction acc cs rule: clean_onto.induct) auto

lemma split_dots: "c \<in> set (split_on CHR ''/'' s) \<Longrightarrow> \<exists>a b. s = a @ c @ b"
proof (induction s arbitrary: c)
  case Nil
  then show ?case by simp
next
  case (Cons x xs)
  obtain p ps where ps: "split_on CHR ''/'' xs = p # ps" using split_on_nonempty by (cases "split_on CHR ''/'' xs") auto
  have first: "\<exists>b. xs = p @ b"
  proof -
    have "xs = join_with CHR ''/'' (p # ps)" using join_split ps by metis
    then show ?thesis by (cases ps) auto
  qed
  consider "c = []" | "c = x # p" | "c \<in> set (split_on CHR ''/'' xs)" using Cons.prems ps by (auto split: if_splits)
  then show ?case
  proof cases
    case 1
    then show ?thesis by (intro exI [of _ "x # xs"] exI [of _ "[]"]) simp
  next
    case 2
    obtain b where "xs = p @ b" using first by blast
    with 2 show ?thesis by (intro exI [of _ "[]"] exI [of _ b]) simp
  next
    case 3
    from Cons.IH [OF this] obtain a b where "xs = a @ c @ b" by blast
    then show ?thesis by (intro exI [of _ "x # a"] exI [of _ b]) simp
  qed
qed

lemma contains_iff: "strings_Contains s sub \<longleftrightarrow> (\<exists>a b. s = a @ sub @ b)"
proof
  assume "strings_Contains s sub"
  then obtain x z where "s = x @ sub @ z" by (auto simp: strings_Contains_def list_ex_iff suffix_def prefix_def)
  then show "\<exists>a b. s = a @ sub @ b" by blast
next
  assume "\<exists>a b. s = a @ sub @ b"
  then obtain a b where "s = a @ sub @ b" by blast
  then show "strings_Contains s sub" unfolding strings_Contains_def list_ex_iff
    by (intro bexI [of _ "sub @ b"]) (auto simp: suffix_def)
qed

lemma contains_split: "\<not> strings_Contains key ''..'' \<Longrightarrow> ''..'' \<notin> set (split_on CHR ''/'' key)"
  using split_dots [of "''..''" key] by (auto simp: contains_iff)

lemma take_drop_contains: "strings_Contains (take n (drop m key)) sub \<Longrightarrow> strings_Contains key sub"
proof -
  assume "strings_Contains (take n (drop m key)) sub"
  then obtain a b where "take n (drop m key) = a @ sub @ b" by (auto simp: contains_iff)
  then have "key = (take m key @ a) @ sub @ (b @ drop n (drop m key))"
    by (metis append.assoc append_take_drop_id)
  then show ?thesis unfolding contains_iff by blast
qed

lemma contains_self: "strings_Contains s s"
  unfolding contains_iff by (intro exI [of _ "[]"]) simp

lemma hashed_parts:
  assumes "CHR ''/'' \<notin> set key"
  shows "split_on CHR ''/'' (getHashedPath key)
    = (if length key < 4 then [key] else [take 2 key, take 2 (drop 2 key), key])"
proof -
  have "CHR ''/'' \<notin> set (take 2 key)" "CHR ''/'' \<notin> set (take 2 (drop 2 key))" using assms by (meson in_set_takeD in_set_dropD)+
  then have "split_on CHR ''/'' (join_with CHR ''/'' [take 2 key, take 2 (drop 2 key), key]) = [take 2 key, take 2 (drop 2 key), key]"
    using assms by (intro split_join) auto
  then show ?thesis using assms by (simp add: getHashedPath_def split_on_no_sep)
qed

definition base_dir :: "FsEnv \<Rightarrow> LocalFSDriver \<Rightarrow> path res" where
  "base_dir env d = bind_res (fe_abs env (ld_BaseDir d)) (\<lambda>b. Ok (case fe_evalSymlinks env b of Ok p \<Rightarrow> p | _ \<Rightarrow> b))"

lemma resolve_run:
  assumes "resolveAndValidate env d key = Ok p"
  obtains base where "base_dir env d = Ok base"
    and "p = base @ filter (\<lambda>c. c \<noteq> '''' \<and> c \<noteq> ''.'') (if length key < 4 then [key] else [take 2 key, take 2 (drop 2 key), key])"
proof -
  have ok: "\<not> strings_Contains key ''..''" "CHR ''/'' \<notin> set key" using assms by (auto simp: resolveAndValidate_def split: if_splits)
  obtain base where base: "base_dir env d = Ok base" "p = filepath_Join base (getHashedPath key)"
    using assms by (auto simp: resolveAndValidate_def base_dir_def res_simps Let_def split: if_splits res.splits)
  have "\<not> strings_Contains (take 2 key) ''..''" "\<not> strings_Contains (take 2 (drop 2 key)) ''..''"
    using ok(1) take_drop_contains [of 2 0 key] take_drop_contains [of 2 2 key] by auto
  then have "''..'' \<notin> {take 2 key, take 2 (drop 2 key), key}"
    using ok(1) contains_self [of "''..''"] by auto
  then have "''..'' \<notin> set (split_on CHR ''/'' (getHashedPath key))" unfolding hashed_parts [OF ok(2)] by auto
  with base show thesis using that clean_onto_plain hashed_parts [OF ok(2)] unfolding filepath_Join_def by auto
qed

lemma strip_common_prefix: "strip_common base (base @ rest) = ([], rest)"
  by (induction base) auto

lemma resolve_valid:
  assumes "validStorageKey key" and "base_dir env d = Ok base"
  shows "resolveAndValidate env d key = Ok (base @ [take 2 key, take 2 (drop 2 key), key])"
proof -
  note c = valid_key_chars [OF assms(1)]
  have len: "\<not> length key < 4" using c(5) by simp
  have two: "length (take 2 key) = 2" "length (take 2 (drop 2 key)) = 2" "2 < length key" using c(5) by auto
  have plain: "s \<noteq> '''' \<and> s \<noteq> ''.''" if "length s = 2 \<or> 2 < length s" for s :: string using that by auto
  have dots: "\<not> strings_Contains (take 2 key) ''..''" "\<not> strings_Contains (take 2 (drop 2 key)) ''..''"
    using c(4) take_drop_contains [of 2 0 key] take_drop_contains [of 2 2 key] by auto
  then have "''..'' \<notin> set [take 2 key, take 2 (drop 2 key), key]" using c(4) contains_self [of "''..''"] by auto
  moreover have "filter (\<lambda>c. c \<noteq> '''' \<and> c \<noteq> ''.'') [take 2 key, take 2 (drop 2 key), key] = [take 2 key, take 2 (drop 2 key), key]"
    using two plain by simp
  ultimately have join: "filepath_Join base (getHashedPath key) = base @ [take 2 key, take 2 (drop 2 key), key]"
    using clean_onto_plain [of "[take 2 key, take 2 (drop 2 key), key]" "rev base"] len
    unfolding filepath_Join_def hashed_parts [OF c(1)] by simp
  have "\<not> prefix ''..'' (filepath_Rel base (base @ [take 2 key, take 2 (drop 2 key), key]))"
  proof -
    have "filepath_Rel base (base @ [take 2 key, take 2 (drop 2 key), key])
        = take 2 key @ CHR ''/'' # take 2 (drop 2 key) @ CHR ''/'' # key"
      by (simp add: filepath_Rel_def strip_common_prefix)
    moreover have "take 2 key \<noteq> ''..''" using dots(1) contains_self [of "''..''"] by auto
    moreover have "take 2 (take 2 key @ s) = take 2 key" for s using two(1) by simp
    moreover have "prefix ''..'' s \<Longrightarrow> take 2 s = ''..''" for s by (auto simp: prefix_def)
    ultimately show ?thesis by metis
  qed
  moreover from assms(2) obtain b where b: "fe_abs env (ld_BaseDir d) = Ok b" "(case fe_evalSymlinks env b of Ok p \<Rightarrow> p | _ \<Rightarrow> b) = base"
    by (auto simp: base_dir_def res_simps)
  ultimately show ?thesis using c(1,2,4) join by (simp add: resolveAndValidate_def Let_def)
qed

text \<open>
  C26: Files stay in their directory. Whatever the key is, a path the driver resolves is the base directory followed by
  at most three components made of the key, none of them a step upwards; every valid storage key
  resolves, and no two of them to one path.
\<close>

theorem paths_stay_inside:
  "(\<forall>key p. resolveAndValidate env d key = Ok p \<longrightarrow>
      (\<exists>base cs. base_dir env d = Ok base \<and> p = base @ cs \<and> length cs \<le> 3 \<and> ''..'' \<notin> set cs \<and> (\<forall>c \<in> set cs. CHR ''/'' \<notin> set c)))
    \<and> (\<forall>key key' base. base_dir env d = Ok base \<longrightarrow> validStorageKey key \<longrightarrow> validStorageKey key' \<longrightarrow>
      is_ok (resolveAndValidate env d key) \<and> (resolveAndValidate env d key = resolveAndValidate env d key' \<longrightarrow> key = key'))"
proof (intro conjI allI impI)
  fix key p
  assume run: "resolveAndValidate env d key = Ok p"
  have ok: "\<not> strings_Contains key ''..''" "CHR ''/'' \<notin> set key" using run by (auto simp: resolveAndValidate_def split: if_splits)
  from resolve_run [OF run] obtain base where base: "base_dir env d = Ok base"
    "p = base @ filter (\<lambda>c. c \<noteq> '''' \<and> c \<noteq> ''.'') (if length key < 4 then [key] else [take 2 key, take 2 (drop 2 key), key])" by blast
  let ?cs = "filter (\<lambda>c. c \<noteq> '''' \<and> c \<noteq> ''.'') (if length key < 4 then [key] else [take 2 key, take 2 (drop 2 key), key])"
  have dots: "\<not> strings_Contains (take 2 key) ''..''" "\<not> strings_Contains (take 2 (drop 2 key)) ''..''"
    using ok(1) take_drop_contains [of 2 0 key] take_drop_contains [of 2 2 key] by auto
  have "length ?cs \<le> 3" by simp
  moreover have "''..'' \<notin> set ?cs" using dots ok(1) contains_self by (auto split: if_splits)
  moreover have "\<forall>c \<in> set ?cs. CHR ''/'' \<notin> set c" using ok(2) by (auto split: if_splits dest: in_set_takeD in_set_dropD)
  ultimately show "\<exists>base cs. base_dir env d = Ok base \<and> p = base @ cs \<and> length cs \<le> 3 \<and> ''..'' \<notin> set cs \<and> (\<forall>c \<in> set cs. CHR ''/'' \<notin> set c)"
    using base by blast
qed (simp_all add: resolve_valid)

theorem paths_stay_inside_witness:
  "resolveAndValidate \<lparr>fe_fault = (\<lambda>_. None), fe_abs = (\<lambda>_. Ok [''srv'', ''files'']), fe_evalSymlinks = (\<lambda>p. Ok p), fe_now = int, fe_newUUID = show_nat\<rparr>
      \<lparr>ld_BaseDir = ''files'', ld_PublicURL = '''', ld_secretKey = '''', ld_presignTTL = 1\<rparr> ''../etc/passwd'' = Err (Wrapf ''invalid key: %w'' [] ErrInvalidPath)
   \<and> (\<exists>base cs. base_dir \<lparr>fe_fault = (\<lambda>_. None), fe_abs = (\<lambda>_. Ok [''srv'', ''files'']), fe_evalSymlinks = (\<lambda>p. Ok p), fe_now = int, fe_newUUID = show_nat\<rparr>
      \<lparr>ld_BaseDir = ''files'', ld_PublicURL = '''', ld_secretKey = '''', ld_presignTTL = 1\<rparr> = Ok base \<and> [''srv'', ''files'', ''no'', ''te'', ''note''] = base @ cs \<and> ''..'' \<notin> set cs)"
proof -
  let ?env = "\<lparr>fe_fault = (\<lambda>_. None), fe_abs = (\<lambda>_. Ok [''srv'', ''files'']), fe_evalSymlinks = (\<lambda>p. Ok p), fe_now = int, fe_newUUID = show_nat\<rparr>"
  let ?d = "\<lparr>ld_BaseDir = ''files'', ld_PublicURL = '''', ld_secretKey = '''', ld_presignTTL = 1\<rparr>"
  have "resolveAndValidate ?env ?d ''note'' = Ok [''srv'', ''files'', ''no'', ''te'', ''note'']" by code_simp
  moreover have "resolveAndValidate ?env ?d ''../etc/passwd'' = Err (Wrapf ''invalid key: %w'' [] ErrInvalidPath)" by code_simp
  ultimately show ?thesis using paths_stay_inside [of ?env ?d] by blast
qed

section \<open>What a storage holds\<close>

text \<open>
  The contract of a storage driver, for the keys its users may use: a successful save is held, nothing that is done
  under other keys changes it, and a successful read gives the bytes held, with their type or, when its
  reading failed, the default type.
\<close>

datatype StorageOp = SaveOp string Body string | GetOp string | DeleteOp string

fun op_key :: "StorageOp \<Rightarrow> string" where
  "op_key (SaveOp k b ct) = k" | "op_key (GetOp k) = k" | "op_key (DeleteOp k) = k"

fun run_ops :: "(string \<Rightarrow> Body \<Rightarrow> string \<Rightarrow> ('s, unit) op) \<Rightarrow> (string \<Rightarrow> ('s, Body \<times> string) op) \<Rightarrow> (string \<Rightarrow> ('s, unit) op)
    \<Rightarrow> StorageOp list \<Rightarrow> 's \<Rightarrow> 's" where
  "run_ops save get del [] s = s"
| "run_ops save get del (SaveOp k b ct # ops) s = run_ops save get del ops (snd (save k b ct s))"
| "run_ops save get del (GetOp k # ops) s = run_ops save get del ops (snd (get k s))"
| "run_ops save get del (DeleteOp k # ops) s = run_ops save get del ops (snd (del k s))"

locale storage_driver =
  fixes save :: "string \<Rightarrow> Body \<Rightarrow> string \<Rightarrow> ('s, unit) op" and get :: "string \<Rightarrow> ('s, Body \<times> string) op"
    and del :: "string \<Rightarrow> ('s, unit) op" and held :: "'s \<Rightarrow> string \<Rightarrow> (string \<times> string) option" and usable :: "string \<Rightarrow> bool"
  assumes save_held: "usable k \<Longrightarrow> save k body ct s = (Ok (), s') \<Longrightarrow> bd_error body = None \<and> held s' k = Some (bd_bytes body, ct)"
    and save_frame: "usable k \<Longrightarrow> usable k' \<Longrightarrow> k \<noteq> k' \<Longrightarrow> save k body ct s = (r, s') \<Longrightarrow> held s' k' = held s k'"
    and del_frame: "usable k \<Longrightarrow> usable k' \<Longrightarrow> k \<noteq> k' \<Longrightarrow> del k s = (q, s') \<Longrightarrow> held s' k' = held s k'"
    and get_frame: "get k s = (v, s') \<Longrightarrow> held s' k' = held s k'"
    and get_held: "get k s = (Ok (f, ct), s') \<Longrightarrow> held s k = Some (content, m) \<Longrightarrow>
      bd_bytes f = content \<and> bd_error f = None \<and> ct \<in> {m, DefaultMime}"
begin

lemma others_keep:
  "usable k \<Longrightarrow> \<forall>op \<in> set ops. usable (op_key op) \<and> op_key op \<noteq> k \<Longrightarrow> held (run_ops save get del ops s) k = held s k"
proof (induction ops arbitrary: s)
  case Nil
  then show ?case by simp
next
  case (Cons op ops)
  then have k: "usable (op_key op)" "op_key op \<noteq> k" "usable k" and rest: "\<forall>op \<in> set ops. usable (op_key op) \<and> op_key op \<noteq> k" by auto
  show ?case
  proof (cases op)
    case (SaveOp k' b ct)
    then show ?thesis using Cons.IH [OF k(3) rest] save_frame [OF _ k(3) _ prod.collapse [symmetric], of k'] k by simp
  next
    case (GetOp k')
    then show ?thesis using Cons.IH [OF k(3) rest] get_frame [OF prod.collapse [symmetric]] by simp
  next
    case (DeleteOp k')
    then show ?thesis using Cons.IH [OF k(3) rest] del_frame [OF _ k(3) _ prod.collapse [symmetric], of k'] k by simp
  qed
qed

lemma read_back:
  assumes "usable k" and "save k body ct s = (Ok (), s1)" and "\<forall>op \<in> set ops. usable (op_key op) \<and> op_key op \<noteq> k"
    and "get k (run_ops save get del ops s1) = (Ok (f, ct'), s2)"
  shows "f = body \<and> ct' \<in> {ct, DefaultMime}"
proof -
  have h: "bd_error body = None" "held s1 k = Some (bd_bytes body, ct)" using save_held [OF assms(1,2)] by auto
  then have "held (run_ops save get del ops s1) k = Some (bd_bytes body, ct)" using others_keep [OF assms(1,3)] by simp
  from get_held [OF assms(4) this] h(1) show ?thesis by (cases f; cases body) auto
qed

end

section \<open>The local disk\<close>

text \<open>Files other than those at the paths \<open>ps\<close> are as in \<open>F\<close>.\<close>

definition elsewhere :: "(path \<Rightarrow> string option) \<Rightarrow> path set \<Rightarrow> FileStore \<Rightarrow> bool" where
  "elsewhere F ps s \<longleftrightarrow> (\<forall>q. q \<notin> ps \<longrightarrow> map_get (fs_files s) q = F q)"

lemma keeps_syscall [keep]: "keeps (elsewhere F ps) f \<Longrightarrow> keeps (elsewhere F ps) (syscall env f)"
proof -
  assume f: "keeps (elsewhere F ps) f"
  have tick: "elsewhere F ps s \<Longrightarrow> elsewhere F ps (s\<lparr>fs_tick := n\<rparr>)" for s n by (simp add: elsewhere_def)
  show ?thesis unfolding keeps_def
    by (auto simp: syscall_def Let_def tick split: option.splits dest: keepsD [OF f tick])
qed

lemma keeps_MkdirAll [keep]: "keeps (elsewhere F ps) (os_MkdirAll env p)"
  unfolding os_MkdirAll_def by (intro keep) (auto simp: keeps_def elsewhere_def split: if_splits)

lemma keeps_open_write: "p \<in> ps \<Longrightarrow> keeps (elsewhere F ps) (open_write p c)"
  by (auto simp: keeps_def elsewhere_def open_write_def map_simps split: if_splits)

lemma keeps_Create [keep]: "p \<in> ps \<Longrightarrow> keeps (elsewhere F ps) (os_Create env p)"
  unfolding os_Create_def by (intro keep keeps_open_write)

lemma keeps_WriteFile [keep]: "p \<in> ps \<Longrightarrow> keeps (elsewhere F ps) (os_WriteFile env p c)"
  unfolding os_WriteFile_def by (intro keep keeps_open_write)

lemma keeps_Copy [keep]: "p \<in> ps \<Longrightarrow> keeps (elsewhere F ps) (io_Copy env p b)"
  unfolding io_Copy_def by (intro keep) (auto simp: keeps_def elsewhere_def map_simps)

lemma keeps_Remove [keep]: "p \<in> ps \<Longrightarrow> keeps (elsewhere F ps) (os_Remove env p)"
  unfolding os_Remove_def by (intro keep) (auto simp: keeps_def elsewhere_def delete_conv' split: if_splits)

lemma keeps_Open [keep]: "keeps (elsewhere F ps) (os_Open env p)"
  unfolding os_Open_def by (intro keep) (auto simp: keeps_def split: option.splits if_splits)

lemma keeps_ReadFile [keep]: "keeps (elsewhere F ps) (os_ReadFile env p)"
  unfolding os_ReadFile_def by (intro keep) (auto simp: keeps_def split: option.splits)

lemma keeps_ignoring [keep]: "keeps I m \<Longrightarrow> keeps I (ignoring m)"
  unfolding ignoring_def by (intro keep)

lemma keeps_res [keep]:
  "(\<And>v. r = Ok v \<Longrightarrow> keeps I (f v)) \<Longrightarrow> (\<And>e. r = Err e \<Longrightarrow> keeps I (g e)) \<Longrightarrow> (r = Panic \<Longrightarrow> keeps I h) \<Longrightarrow>
   keeps I (case r of Ok v \<Rightarrow> f v | Err e \<Rightarrow> g e | Panic \<Rightarrow> h)"
  by (cases r) auto

text \<open>The two paths of a key.\<close>

definition paths_of :: "FsEnv \<Rightarrow> LocalFSDriver \<Rightarrow> string \<Rightarrow> path set" where
  "paths_of env d key = (case resolveAndValidate env d key of Ok p \<Rightarrow> {p, meta_path p} | _ \<Rightarrow> {})"

lemma keeps_resolved:
  "(\<And>p. resolveAndValidate env d key = Ok p \<Longrightarrow> keeps I (f p)) \<Longrightarrow> keeps I (bindS (liftS (resolveAndValidate env d key)) f)"
  by (cases "resolveAndValidate env d key") (auto simp: keeps_def bindS_def liftS_def)

lemma keeps_Save: "keeps (elsewhere F (paths_of env d key)) (local_Save env d key body ct)"
  unfolding local_Save_def by (rule keeps_resolved, intro keep) (simp_all add: paths_of_def)

lemma keeps_Delete: "keeps (elsewhere F (paths_of env d key)) (local_Delete env d key)"
  unfolding local_Delete_def by (rule keeps_resolved, intro keep) (simp_all add: paths_of_def)

lemma keeps_Get: "keeps (elsewhere F {}) (local_Get env d key)"
  unfolding local_Get_def by (rule keeps_resolved, intro keep)

definition usable_key :: "string \<Rightarrow> bool" where
  "usable_key key \<longleftrightarrow> validStorageKey key \<and> filepath_Ext key \<noteq> ''.meta''"

definition stored :: "FsEnv \<Rightarrow> LocalFSDriver \<Rightarrow> FileStore \<Rightarrow> string \<Rightarrow> (string \<times> string) option" where
  "stored env d s key =
     (case resolveAndValidate env d key of
        Ok p \<Rightarrow> map_option (\<lambda>c. (c, case map_get (fs_files s) (meta_path p) of Some m \<Rightarrow> m | None \<Rightarrow> DefaultMime)) (map_get (fs_files s) p)
      | _ \<Rightarrow> None)"

lemma syscall_cases:
  assumes "syscall env f s = (r, s')"
  obtains (fault) e where "fe_fault env (fs_tick s) = Some e" "r = Err e" "s' = s\<lparr>fs_tick := Suc (fs_tick s)\<rparr>"
    | (run) "fe_fault env (fs_tick s) = None" "f (s\<lparr>fs_tick := Suc (fs_tick s)\<rparr>) = (r, s')"
  using assms by (auto simp: syscall_def Let_def split: option.splits)

lemma meta_path_other: "meta_path p \<noteq> p"
  by (cases p rule: rev_cases) (auto simp: meta_path_def)

lemma last_split: "c \<notin> set y \<Longrightarrow> split_on c (x @ c # y) = split_on c x @ [y]"
proof (induction x)
  case Nil
  then show ?case by (simp add: split_on_no_sep)
next
  case (Cons a x)
  then show ?case using split_on_nonempty [of c x] by (cases "split_on c x") auto
qed

lemma ext_of_append: "CHR ''.'' \<notin> set e \<Longrightarrow> CHR ''/'' \<notin> set e \<Longrightarrow> CHR ''/'' \<notin> set x \<Longrightarrow> filepath_Ext (x @ CHR ''.'' # e) = CHR ''.'' # e"
  using split_on_nonempty [of "CHR ''.''" x]
  by (auto simp: filepath_Ext_def split_on_no_sep last_split Let_def)

lemma usable_paths:
  assumes "usable_key k" and "usable_key k'" and "k \<noteq> k'" and "resolveAndValidate env d k = Ok p" and "resolveAndValidate env d k' = Ok p'"
  shows "{p, meta_path p} \<inter> {p', meta_path p'} = {}"
proof -
  have v: "validStorageKey k" "validStorageKey k'" using assms(1,2) by (simp_all add: usable_key_def)
  from resolve_run [OF assms(4)] obtain base where base: "base_dir env d = Ok base" by blast
  have p: "p = base @ [take 2 k, take 2 (drop 2 k), k]" "p' = base @ [take 2 k', take 2 (drop 2 k'), k']"
    using resolve_valid [OF v(1) base] resolve_valid [OF v(2) base] assms(4,5) by simp_all
  have "filepath_Ext (x @ ''.meta'') = ''.meta''" if "validStorageKey (x @ ''.meta'')" for x
    using valid_key_chars(1) [OF that] ext_of_append [of "''meta''" x] by simp
  then have "k \<noteq> k' @ ''.meta''" "k' \<noteq> k @ ''.meta''" using assms(1,2) v unfolding usable_key_def by metis+
  moreover have "meta_path (b @ [x, y, z]) = b @ [x, y, z @ ''.meta'']" for b :: path and x y z
    by (simp add: meta_path_def butlast_append)
  ultimately show ?thesis using p assms(3) by auto
qed

lemma stored_elsewhere:
  assumes "usable_key k" and "usable_key k'" and "k \<noteq> k'" and "keeps (elsewhere (map_get (fs_files s)) (paths_of env d k)) m" and "m s = (r, s')"
  shows "stored env d s' k' = stored env d s k'"
proof (cases "resolveAndValidate env d k'")
  case (Ok p')
  have same: "map_get (fs_files s') q = map_get (fs_files s) q" if "q \<notin> paths_of env d k" for q
    using keepsD [OF assms(4) _ assms(5)] that by (simp add: elsewhere_def)
  have "p' \<notin> paths_of env d k" "meta_path p' \<notin> paths_of env d k"
    using usable_paths [OF assms(1,2,3) _ Ok] by (auto simp: paths_of_def split: res.splits)
  with same Ok show ?thesis by (simp add: stored_def)
qed (simp_all add: stored_def)

text \<open>The calls of a successful save.\<close>

lemma attemptS_Ok_iff: "attemptS m s = (Ok x, s') \<longleftrightarrow> m s = (x, s') \<and> x \<noteq> Panic"
  by (cases "m s"; cases "fst (m s)") (auto simp: attemptS_def)

lemma unit_res: "\<forall>e. r \<noteq> Err e \<Longrightarrow> r \<noteq> Panic \<Longrightarrow> (r :: unit res) = Ok ()"
  by (cases r) auto

lemma Copy_Ok: "io_Copy env p body s = (Ok u, s') \<Longrightarrow> bd_error body = None \<and> map_get (fs_files s') p = Some (bd_bytes body)"
  unfolding io_Copy_def by (elim syscall_cases) (auto simp: map_simps split: option.splits)

lemma WriteFile_Ok:
  "os_WriteFile env p c s = (Ok u, s') \<Longrightarrow> map_get (fs_files s') p = Some c \<and> (q \<noteq> p \<longrightarrow> map_get (fs_files s') q = map_get (fs_files s) q)"
  unfolding os_WriteFile_def by (elim syscall_cases) (auto simp: open_write_def map_simps split: if_splits)

lemma Save_Ok:
  assumes "local_Save env d key body ct s = (Ok (), s')"
  shows "\<exists>p. resolveAndValidate env d key = Ok p \<and> bd_error body = None
    \<and> map_get (fs_files s') p = Some (bd_bytes body) \<and> map_get (fs_files s') (meta_path p) = Some ct"
proof -
  have "\<exists>p s2 s3. resolveAndValidate env d key = Ok p \<and> io_Copy env p body s2 = (Ok (), s3)
      \<and> os_WriteFile env (meta_path p) ct s3 = (Ok (), s')"
    using assms by (auto simp: local_Save_def op_simps attemptS_Ok_iff dest: unit_res split: res.splits)
  then obtain p s2 s3 where "resolveAndValidate env d key = Ok p" "io_Copy env p body s2 = (Ok (), s3)"
    "os_WriteFile env (meta_path p) ct s3 = (Ok (), s')" by blast
  then show ?thesis using Copy_Ok [of env p body s2 "()" s3] WriteFile_Ok [of env "meta_path p" ct s3 "()" s' p] meta_path_other [of p]
    by (intro exI [of _ p]) auto
qed

lemma Get_Ok:
  assumes "local_Get env d key s = (Ok (f, ct), s')" and "stored env d s key = Some (content, m)"
  shows "bd_bytes f = content \<and> bd_error f = None \<and> ct \<in> {m, DefaultMime}"
proof -
  obtain p where p: "resolveAndValidate env d key = Ok p" "map_get (fs_files s) p = Some content"
    "m = (case map_get (fs_files s) (meta_path p) of Some m \<Rightarrow> m | None \<Rightarrow> DefaultMime)"
    using assms(2) by (auto simp: stored_def split: res.splits)
  from assms(1) p(1) obtain s1 q where opened: "os_Open env p s = (Ok f, s1)" and read: "os_ReadFile env (meta_path p) s1 = (q, s')"
    and ct: "ct = (case q of Ok m \<Rightarrow> m | _ \<Rightarrow> DefaultMime)"
    by (auto simp: local_Get_def op_simps attemptS_Ok_iff)
  from opened [unfolded os_Open_def] p(2) have f: "f = \<lparr>bd_bytes = content, bd_error = None\<rparr>" "fs_files s1 = fs_files s"
    by (elim syscall_cases; auto split: option.splits if_splits)+
  from read [unfolded os_ReadFile_def] f(2) have "q = Ok x \<Longrightarrow> map_get (fs_files s) (meta_path p) = Some x" for x
    by (elim syscall_cases) (auto split: option.splits)
  with f p(3) ct show ?thesis by (cases q) auto
qed

interpretation disk: storage_driver "local_Save env d" "local_Get env d" "local_Delete env d" "stored env d" usable_key for env d
proof
  show "usable_key k \<Longrightarrow> local_Save env d k body ct s = (Ok (), s') \<Longrightarrow> bd_error body = None \<and> stored env d s' k = Some (bd_bytes body, ct)"
    for k body ct s s' using Save_Ok [of env d k body ct s s'] by (auto simp: stored_def)
  show "usable_key k \<Longrightarrow> usable_key k' \<Longrightarrow> k \<noteq> k' \<Longrightarrow> local_Save env d k body ct s = (r, s') \<Longrightarrow> stored env d s' k' = stored env d s k'"
    for k k' body ct s r s' by (rule stored_elsewhere [OF _ _ _ keeps_Save])
  show "usable_key k \<Longrightarrow> usable_key k' \<Longrightarrow> k \<noteq> k' \<Longrightarrow> local_Delete env d k s = (q, s') \<Longrightarrow> stored env d s' k' = stored env d s k'"
    for k k' s q s' by (rule stored_elsewhere [OF _ _ _ keeps_Delete])
  show "local_Get env d k s = (v, s') \<Longrightarrow> stored env d s' k' = stored env d s k'" for k s v s' k'
    using keepsD [OF keeps_Get [of "map_get (fs_files s)" env d k], of s v s'] by (auto simp: elsewhere_def stored_def split: res.splits)
  show "local_Get env d k s = (Ok (f, ct), s') \<Longrightarrow> stored env d s k = Some (content, m) \<Longrightarrow>
      bd_bytes f = content \<and> bd_error f = None \<and> ct \<in> {m, DefaultMime}" for k s f ct s' content m by (rule Get_Ok)
qed

text \<open>
  C25: What was saved under a usable key, a valid one that does not end in \<open>.meta\<close>, is read back. After a successful save,
  and whatever is saved, read or deleted under other usable keys since, with any outcomes, a successful read gives
  exactly the bytes that were saved and their type, or the default type; it gives the type, and succeeds, when no call
  of the operating system fails. (The key U.meta, which the handlers accept, names the file that holds the type of U: the two
  overwrite and delete each other.)
\<close>

theorem saved_is_read_back:
  assumes "usable_key key" and "local_Save env d key body ct s = (Ok (), s1)"
    and "\<forall>op \<in> set ops. usable_key (op_key op) \<and> op_key op \<noteq> key"
    and "local_Get env d key (run_ops (local_Save env d) (local_Get env d) (local_Delete env d) ops s1) = (r, s2)"
  shows "(\<forall>f ct'. r = Ok (f, ct') \<longrightarrow> f = body \<and> ct' \<in> {ct, DefaultMime})
    \<and> ((\<forall>t. fe_fault env t = None) \<longrightarrow> r = Ok (body, ct))"
proof
  show "\<forall>f ct'. r = Ok (f, ct') \<longrightarrow> f = body \<and> ct' \<in> {ct, DefaultMime}"
    using disk.read_back [OF assms(1-3)] assms(4) by blast
  have body: "bd_error body = None" and held1: "stored env d s1 key = Some (bd_bytes body, ct)"
    using disk.save_held [OF assms(1,2)] by auto
  let ?s = "run_ops (local_Save env d) (local_Get env d) (local_Delete env d) ops s1"
  have held: "stored env d ?s key = Some (bd_bytes body, ct)" using disk.others_keep [OF assms(1,3)] held1 by simp
  obtain p where p: "resolveAndValidate env d key = Ok p" "map_get (fs_files ?s) p = Some (bd_bytes body)"
    "(case map_get (fs_files ?s) (meta_path p) of Some m \<Rightarrow> m | None \<Rightarrow> DefaultMime) = ct"
    using held by (auto simp: stored_def split: res.splits)
  have b: "\<lparr>bd_bytes = bd_bytes body, bd_error = None\<rparr> = body" using body by (cases body) simp
  show "(\<forall>t. fe_fault env t = None) \<longrightarrow> r = Ok (body, ct)"
  proof
    assume nofault: "\<forall>t. fe_fault env t = None"
    show "r = Ok (body, ct)" using assms(4) p nofault b
      by (auto simp: local_Get_def bindS_def liftS_def wrapS_def attemptS_def returnS_def os_Open_def os_ReadFile_def syscall_def Let_def
          split: option.splits)
  qed
qed

section \<open>Links\<close>

lemma count_join:
  "ss \<noteq> [] \<Longrightarrow> length (filter (\<lambda>x. x = c) (join_with c ss))
     = length ss - 1 + sum_list (map (\<lambda>s. length (filter (\<lambda>x. x = c) s)) ss)"
  by (induction c ss rule: join_with.induct) auto

text \<open>Parts without the separator are told apart from every other list of as many parts.\<close>

lemma join_determines:
  assumes eq: "join_with c ss = join_with c ts" and len: "length ss = length ts" and ne: "ss \<noteq> []" and no: "\<forall>s \<in> set ss. c \<notin> set s"
  shows "ss = ts"
proof -
  have ne': "ts \<noteq> []" using len ne by auto
  have "map (\<lambda>s. length (filter (\<lambda>x. x = c) s)) ss = map (\<lambda>_. 0) ss" using no by (auto simp: filter_empty_conv)
  then have "sum_list (map (\<lambda>s. length (filter (\<lambda>x. x = c) s)) ss) = 0" by (simp add: sum_list_triv)
  then have "sum_list (map (\<lambda>s. length (filter (\<lambda>x. x = c) s)) ts) = 0"
    using count_join [OF ne, of c] count_join [OF ne', of c] eq len by simp
  then have "\<forall>t \<in> set ts. c \<notin> set t" by (auto simp: filter_empty_conv)
  then show ?thesis using split_join [OF ne no] split_join [OF ne'] eq by metis
qed

definition link_expiry :: "FsEnv \<Rightarrow> LocalFSDriver \<Rightarrow> nat \<Rightarrow> int" where
  "link_expiry env d t = unix (fe_now env t + ld_presignTTL d)"

text \<open>What a successful request for a link gives: the id takes one tick, the clock the next.\<close>

lemma HandleUpload_200:
  assumes "HandleUpload mac env (LocalFS d) r (b, s) = (Ok (Reply 200 fm), s')"
  shows "fm_UploadURL fm = OwnLink \<lparr>lk_Base = ld_PublicURL d, lk_Key = fm_Key fm, lk_Query =
       [(''token'', GenerateToken mac (fm_Key fm) (ld_secretKey d) (link_expiry env d (Suc (fs_tick s))) (fm_MimeType fm) (fm_Size fm)),
        (''expiresAt'', show_int (link_expiry env d (Suc (fs_tick s)))), (''contentType'', fm_MimeType fm), (''maxSizeBytes'', show_int (fm_Size fm))]\<rparr>
     \<and> fm_Key fm = fe_newUUID env (fs_tick s) @ filepath_Ext (fm_Name fm)
     \<and> 0 < fm_Size fm \<and> fm_Size fm \<le> 32 * 2 ^ 20 \<and> fm_MimeType fm \<in> set allowedContentTypes \<and> s' = (b, s\<lparr>fs_tick := Suc (Suc (fs_tick s))\<rparr>)"
proof -
  obtain req where dec: "unmarshal dec_upload (hq_Body r) = Ok req"
    using assms by (cases "unmarshal dec_upload (hq_Body r)") (auto simp: HandleUpload_def fail_with_def returnS_def liftS_def split: if_splits)
  have req: "0 < ur_Size req" "ur_Size req \<le> 32 * 2 ^ 20" "isAllowedContentType (ur_MimeType req)" "ur_MimeType req \<noteq> ''''"
    and run: "respond (\<lambda>e. ErrorReply 500 ''failed to prepare upload'' None) 200
                 (svc_Upload mac env (LocalFS d) (ur_Filename req) (ur_Size req) (ur_MimeType req)) (b, s) = (Ok (Reply 200 fm), s')"
    using assms dec by (auto simp: HandleUpload_def fail_with_def returnS_def split: if_splits)
  from run have "svc_Upload mac env (LocalFS d) (ur_Filename req) (ur_Size req) (ur_MimeType req) (b, s) = (Ok fm, s')"
    by (auto simp: respond_run split: prod.splits res.splits)
  with req show ?thesis
    by (auto simp: svc_Upload_def Let_def bindS_def on_files_def new_key_def drv_GetUploadURL_def local_GetUploadURL_def now_def failS_def
        wrapS_def returnS_def link_expiry_def isAllowedContentType_def split: if_splits)
qed

text \<open>The parts of the message a request presents, its type, and what an accepted upload did.\<close>

definition int_of :: "string \<Rightarrow> int" where
  "int_of s = (case strconv_Atoi s of Ok n \<Rightarrow> sint n | _ \<Rightarrow> 0)"

definition header_type :: "ContentRequest \<Rightarrow> string" where
  "header_type q = (let h = query_value (hq_Header q) ''Content-Type'' in if h = '''' then DefaultMime else h)"

definition presented :: "ContentRequest \<Rightarrow> string list" where
  "presented q = [query_value (hq_Path q) ''key'', show_int (int_of (query_value (hq_Query q) ''expiresAt'')),
     query_value (hq_Query q) ''contentType'', show_int (int_of (query_value (hq_Query q) ''maxSizeBytes''))]"

lemma content_204:
  assumes "UploadContentLocal mac env (LocalFS d) q (b, s) = (Ok (Reply 204 ()), s')"
  shows "validStorageKey (query_value (hq_Path q) ''key'')
    \<and> query_value (hq_Query q) ''token'' = sign mac (ld_secretKey d) (presented q)
    \<and> unix (fe_now env (fs_tick s)) \<le> int_of (query_value (hq_Query q) ''expiresAt'')
    \<and> header_type q = query_value (hq_Query q) ''contentType''
    \<and> local_Save env d (query_value (hq_Path q) ''key'')
        (MaxBytesReader (int_of (query_value (hq_Query q) ''maxSizeBytes'')) (cq_Raw q)) (header_type q)
        (s\<lparr>fs_tick := Suc (fs_tick s)\<rparr>) = (Ok (), snd s')"
  using assms
  by (auto simp: UploadContentLocal_def with_key_def with_int_def fail_with_def returnS_def Let_def on_files_def now_def
      bindS_def [of "\<lambda>s. _ s"] respond_run VerifyToken_def verify_def presented_def int_of_def header_type_def split: if_splits res.splits prod.splits)

text \<open>
  C23: A link admits only what it was issued for. When an upload is accepted under the token of an issued link, then it is
  for the key of the link, of its type, not longer than its size and not after its expiry, and the file now
  holds exactly its bytes; or the request shows two different messages with the same authentication code.
\<close>

theorem upload_link_binds:
  assumes "HandleUpload mac env (LocalFS d) r (b, s) = (Ok (Reply 200 fm), s1)" and "fm_UploadURL fm = OwnLink l"
    and "UploadContentLocal mac env (LocalFS d) q (b2, s2) = (Ok (Reply 204 ()), s3)"
    and "query_value (hq_Query q) ''token'' = query_value (lk_Query l) ''token''" and "CHR 0x00 \<notin> set (header_type q)"
  shows "(query_value (hq_Path q) ''key'' = fm_Key fm \<and> header_type q = fm_MimeType fm
      \<and> length (bd_bytes (cq_Raw q)) \<le> nat (fm_Size fm) \<and> unix (fe_now env (fs_tick s2)) \<le> link_expiry env d (Suc (fs_tick s))
      \<and> stored env d (snd s3) (fm_Key fm) = Some (bd_bytes (cq_Raw q), fm_MimeType fm))
    \<or> (\<exists>issued. presented q \<noteq> issued \<and> sign mac (ld_secretKey d) (presented q) = sign mac (ld_secretKey d) issued
        \<and> join_with (CHR 0x00) (presented q) \<noteq> join_with (CHR 0x00) issued
        \<and> issued = [fm_Key fm, show_int (link_expiry env d (Suc (fs_tick s))), fm_MimeType fm, show_int (fm_Size fm)])"
proof -
  let ?issued = "[fm_Key fm, show_int (link_expiry env d (Suc (fs_tick s))), fm_MimeType fm, show_int (fm_Size fm)]"
  note up = HandleUpload_200 [OF assms(1)] and put = content_204 [OF assms(3)]
  have tok: "sign mac (ld_secretKey d) (presented q) = sign mac (ld_secretKey d) ?issued"
    using up put assms(2,4) by (auto simp: GenerateToken_def query_value_def)
  show ?thesis
  proof (cases "join_with (CHR 0x00) (presented q) = join_with (CHR 0x00) ?issued")
    case False
    then have "presented q \<noteq> ?issued" by auto
    with tok False show ?thesis by blast
  next
    case True
    have "\<forall>p \<in> set (presented q). CHR 0x00 \<notin> set p"
      using put assms(5) valid_key_chars(3) [of "query_value (hq_Path q) ''key''"] by (auto simp: presented_def show_int_no_nul)
    then have "presented q = ?issued" using True by (intro join_determines [OF True]) (simp_all add: presented_def)
    then have same: "query_value (hq_Path q) ''key'' = fm_Key fm" "query_value (hq_Query q) ''contentType'' = fm_MimeType fm"
      "int_of (query_value (hq_Query q) ''expiresAt'') = link_expiry env d (Suc (fs_tick s))"
      "int_of (query_value (hq_Query q) ''maxSizeBytes'') = fm_Size fm"
      by (auto simp: presented_def dest: show_int_inj)
    with put have save: "local_Save env d (fm_Key fm) (MaxBytesReader (fm_Size fm) (cq_Raw q)) (fm_MimeType fm) (s2\<lparr>fs_tick := Suc (fs_tick s2)\<rparr>)
        = (Ok (), snd s3)" by auto
    from Save_Ok [OF save] obtain p where p: "resolveAndValidate env d (fm_Key fm) = Ok p" "bd_error (MaxBytesReader (fm_Size fm) (cq_Raw q)) = None"
      "map_get (fs_files (snd s3)) p = Some (bd_bytes (MaxBytesReader (fm_Size fm) (cq_Raw q)))" "map_get (fs_files (snd s3)) (meta_path p) = Some (fm_MimeType fm)"
      by blast
    moreover have "length (bd_bytes (cq_Raw q)) \<le> nat (fm_Size fm) \<and> MaxBytesReader (fm_Size fm) (cq_Raw q) = cq_Raw q"
      using p(2) by (auto simp: MaxBytesReader_def split: if_splits)
    ultimately show ?thesis using same put by (auto simp: stored_def)
  qed
qed

section \<open>An issued link works\<close>

text \<open>The base directory holds nothing but the files of keys, two directories down.\<close>

definition disk_ok :: "FsEnv \<Rightarrow> LocalFSDriver \<Rightarrow> FileStore \<Rightarrow> bool" where
  "disk_ok env d s \<longleftrightarrow> (\<exists>base. base_dir env d = Ok base \<and> (\<forall>p \<in> set (map fst (fs_files s)). length p = length base + 3)
     \<and> (\<forall>p \<in> set (fs_dirs s). length p \<le> length base + 2))"

lemma save_works:
  assumes "disk_ok env d s" and "\<And>t. fe_fault env t = None" and "validStorageKey key" and "bd_error body = None"
  shows "\<exists>s'. local_Save env d key body ct s = (Ok (), s')"
proof -
  obtain base where base: "base_dir env d = Ok base" "\<forall>p \<in> set (map fst (fs_files s)). length p = length base + 3"
    "\<forall>p \<in> set (fs_dirs s). length p \<le> length base + 2" using assms(1) unfolding disk_ok_def by blast
  let ?dir = "base @ [take 2 key, take 2 (drop 2 key)]" and ?tick = "\<lambda>s. s\<lparr>fs_tick := Suc (fs_tick s)\<rparr>"
  let ?p = "base @ [take 2 key, take 2 (drop 2 key), key]"
  have sys: "syscall env f s = f (?tick s)" for f :: "unit fs" and s by (simp add: syscall_def assms(2) Let_def)
  have res: "resolveAndValidate env d key = Ok ?p" by (rule resolve_valid [OF assms(3) base(1)])
  have nofile: "\<not> list_ex (is_file (?tick s)) (prefixes ?dir)"
  proof
    assume "list_ex (is_file (?tick s)) (prefixes ?dir)"
    then have "\<exists>x. prefix x ?dir \<and> x \<in> set (map fst (fs_files s))"
      by (auto simp: list_ex_iff is_file_def map_of_eq_None_iff) (metis fst_conv image_eqI)
    then obtain x where x: "prefix x ?dir" "x \<in> set (map fst (fs_files s))" by blast
    then have "length x = length base + 3" using base(2) by blast
    with prefix_length_le [OF x(1)] show False by simp
  qed
  let ?s1 = "(?tick s)\<lparr>fs_dirs := filter (\<lambda>x. \<not> is_dir (?tick s) x) (prefixes ?dir) @ fs_dirs s\<rparr>"
  have mk: "os_MkdirAll env (butlast ?p) s = (Ok (), ?s1)" using nofile by (simp add: os_MkdirAll_def sys butlast_append)
  have dirs: "is_dir ?s1 ?dir" "\<forall>x \<in> set (fs_dirs ?s1). length x \<le> length base + 2"
    using base(3) by (auto simp: is_dir_def dest!: prefix_length_le)
  then have short: "length x \<le> length base + 2" if "x \<in> set (fs_dirs ?s1)" for x using that by blast
  have open_ok: "open_write x c s' = (Ok (), s'\<lparr>fs_files := map_put x c (fs_files s')\<rparr>)"
    if "fs_dirs s' = fs_dirs ?s1" "length x = length base + 3" "butlast x = ?dir" for x c and s' :: FileStore
  proof -
    have "is_dir s' ?dir" using dirs(1) that(1) by (simp add: is_dir_def)
    moreover have "x \<notin> set (fs_dirs s')" "x \<noteq> []" using short [of x] that(1,2) by auto
    then have "\<not> is_dir s' x" by (simp add: is_dir_def)
    ultimately show ?thesis using that(3) by (simp add: open_write_def)
  qed
  have p: "length ?p = length base + 3" "butlast ?p = ?dir" "length (meta_path ?p) = length base + 3" "butlast (meta_path ?p) = ?dir"
    by (simp_all add: butlast_append meta_path_def)
  show ?thesis using res mk assms(4) open_ok p
    by (simp add: local_Save_def bindS_def liftS_def wrapS_def attemptS_def os_Create_def os_WriteFile_def io_Copy_def sys returnS_def del: butlast_append)
qed

text \<open>The request a client makes with a link.\<close>

definition put_request :: "Link \<Rightarrow> string \<Rightarrow> Body \<Rightarrow> ContentRequest" where
  "put_request l mime body = \<lparr>hq_Auth = None, hq_Path = [(''key'', lk_Key l)], hq_Query = lk_Query l, hq_Body = None,
     hq_Header = [(''Content-Type'', mime)], cq_Method = ''PUT'', cq_Raw = body\<rparr>"

lemma put_run:
  assumes "HandleUpload mac env (LocalFS d) r (b, s) = (Ok (Reply 200 fm), s1)" and "fm_UploadURL fm = OwnLink l"
    and "is_uuid (fe_newUUID env (fs_tick s))"
    and "\<And>p. mac (ld_secretKey d) p \<noteq> ''''" and "ld_secretKey d \<noteq> ''''"
    and "0 \<le> link_expiry env d (Suc (fs_tick s))" and "link_expiry env d (Suc (fs_tick s)) < 2 ^ 63"
    and "unix (fe_now env (fs_tick s2)) \<le> link_expiry env d (Suc (fs_tick s))"
  shows "UploadContentLocal mac env (LocalFS d) (put_request l (fm_MimeType fm) body) (b2, s2)
    = (if match_ext (filepath_Ext (fm_Name fm))
       then respond (\<lambda>e. if is_typed ''MaxBytesError'' e then ErrorReply 413 ''file size exceeds specified limit'' None
                                else ErrorReply 500 ''failed to save file'' None)
              204 (on_files (local_Save env d (fm_Key fm) (MaxBytesReader (fm_Size fm) body) (fm_MimeType fm))) (b2, s2\<lparr>fs_tick := Suc (fs_tick s2)\<rparr>)
       else (Ok (ErrorReply 400 ''invalid key format'' None), (b2, s2)))"
    and "match_ext (filepath_Ext (fm_Name fm)) \<Longrightarrow> validStorageKey (fm_Key fm)"
proof -
  note up = HandleUpload_200 [OF assms(1)]
  let ?e = "link_expiry env d (Suc (fs_tick s))" and ?k = "fm_Key fm" and ?q = "put_request l (fm_MimeType fm) body"
  have key: "?k = fe_newUUID env (fs_tick s) @ filepath_Ext (fm_Name fm)" using up by simp
  have valid: "validStorageKey ?k \<longleftrightarrow> match_ext (filepath_Ext (fm_Name fm))" unfolding key by (rule uuid_key [OF assms(3)])
  then show "match_ext (filepath_Ext (fm_Name fm)) \<Longrightarrow> validStorageKey (fm_Key fm)" by simp
  have "fe_newUUID env (fs_tick s) \<noteq> ''''" using assms(3) by (auto simp: is_uuid_def hex_run_def)
  then have ne: "?k \<noteq> ''''" using key by simp
  have l: "lk_Key l = ?k" "query_value (lk_Query l) ''token'' = GenerateToken mac ?k (ld_secretKey d) ?e (fm_MimeType fm) (fm_Size fm)"
    "query_value (lk_Query l) ''expiresAt'' = show_int ?e" "query_value (lk_Query l) ''contentType'' = fm_MimeType fm"
    "query_value (lk_Query l) ''maxSizeBytes'' = show_int (fm_Size fm)" using up assms(2) by (auto simp: query_value_def)
  have mime: "fm_MimeType fm \<noteq> ''''" using up by (auto simp: allowedContentTypes_def)
  have nums: "strconv_Atoi (show_int ?e) = Ok (of_int ?e)" "sint (of_int ?e :: 64 word) = ?e"
    "strconv_Atoi (show_int (fm_Size fm)) = Ok (of_int (fm_Size fm))" "sint (of_int (fm_Size fm) :: 64 word) = fm_Size fm"
    using up assms(6,7) by (auto intro!: atoi_show_int)
  have tok: "GenerateToken mac ?k (ld_secretKey d) ?e (fm_MimeType fm) (fm_Size fm) \<noteq> ''''"
    "VerifyToken mac ?k (GenerateToken mac ?k (ld_secretKey d) ?e (fm_MimeType fm) (fm_Size fm)) (ld_secretKey d) ?e (fm_MimeType fm) (fm_Size fm)"
    using assms(4,5) by (auto simp: VerifyToken_def GenerateToken_def verify_def sign_def)
  have path: "query_value (hq_Path ?q) ''key'' = ?k" by (simp add: put_request_def query_value_def l(1))
  have fields: "cq_Method ?q = ''PUT''" "hq_Query ?q = lk_Query l" "cq_Raw ?q = body" "query_value (hq_Header ?q) ''Content-Type'' = fm_MimeType fm"
    by (simp_all add: put_request_def query_value_def)
  show "UploadContentLocal mac env (LocalFS d) ?q (b2, s2)
    = (if match_ext (filepath_Ext (fm_Name fm))
       then respond (\<lambda>e. if is_typed ''MaxBytesError'' e then ErrorReply 413 ''file size exceeds specified limit'' None
                                else ErrorReply 500 ''failed to save file'' None)
              204 (on_files (local_Save env d ?k (MaxBytesReader (fm_Size fm) body) (fm_MimeType fm))) (b2, s2\<lparr>fs_tick := Suc (fs_tick s2)\<rparr>)
       else (Ok (ErrorReply 400 ''invalid key format'' None), (b2, s2)))"
  proof (cases "match_ext (filepath_Ext (fm_Name fm))")
    case False
    then show ?thesis using valid ne
      by (simp add: UploadContentLocal_def with_key_def path fields Let_def fail_with_def returnS_def)
  next
    case True
    then show ?thesis using valid ne tok mime assms(8)
      by (simp add: UploadContentLocal_def with_key_def path with_int_def fields l nums Let_def
          bindS_def [of "on_files (now env)"] on_files_def [of "now env"] now_def)
  qed
qed

text \<open>
  C24: An issued link works, if the file's name has a good extension. A link used before it expires, with the type it was
  issued for and a body of at most its size, is accepted with 204 exactly when the extension of the file's name is empty or
  made of letters and digits; for any other name the service issues a link that is answered with 400.
\<close>

theorem issued_link_works:
  assumes "HandleUpload mac env (LocalFS d) r (b, s) = (Ok (Reply 200 fm), s1)" and "fm_UploadURL fm = OwnLink l"
    and "is_uuid (fe_newUUID env (fs_tick s))"
    and "\<And>p. mac (ld_secretKey d) p \<noteq> ''''" and "ld_secretKey d \<noteq> ''''"
    and "0 \<le> link_expiry env d (Suc (fs_tick s))" and "link_expiry env d (Suc (fs_tick s)) < 2 ^ 63"
    and "unix (fe_now env (fs_tick s2)) \<le> link_expiry env d (Suc (fs_tick s))"
    and "\<And>t. fe_fault env t = None" and "disk_ok env d s2"
    and "bd_error body = None" and "length (bd_bytes body) \<le> nat (fm_Size fm)"
  shows "fst (UploadContentLocal mac env (LocalFS d) (put_request l (fm_MimeType fm) body) (b2, s2))
    = Ok (if match_ext (filepath_Ext (fm_Name fm)) then Reply 204 () else ErrorReply 400 ''invalid key format'' None)"
proof (cases "match_ext (filepath_Ext (fm_Name fm))")
  case True
  have reader: "MaxBytesReader (fm_Size fm) body = body" using assms(12) by (simp add: MaxBytesReader_def)
  have "disk_ok env d (s2\<lparr>fs_tick := Suc (fs_tick s2)\<rparr>)" using assms(10) by (simp add: disk_ok_def)
  from save_works [OF this assms(9) put_run(2) [OF assms(1-8) True] assms(11)] obtain s3 where
    save: "local_Save env d (fm_Key fm) body (fm_MimeType fm) (s2\<lparr>fs_tick := Suc (fs_tick s2)\<rparr>) = (Ok (), s3)" by blast
  show ?thesis using True save by (simp add: put_run(1) [OF assms(1-8)] reader respond_run on_files_def)
qed (simp add: put_run(1) [OF assms(1-8)])

text \<open>
  A refused upload removes the file it was to replace. When an upload ends with 413, because its body is longer than the link
  allows, the key holds no file afterwards, whatever it held before.
\<close>

theorem refused_upload_removes_file:
  assumes "UploadContentLocal mac env (LocalFS d) q (b, s) = (Ok (ErrorReply 413 msg e), (b', s'))" and "\<And>t. fe_fault env t = None"
  shows "stored env d s' (query_value (hq_Path q) ''key'') = None"
proof -
  let ?k = "query_value (hq_Path q) ''key''" and ?m = "MaxBytesReader (int_of (query_value (hq_Query q) ''maxSizeBytes'')) (cq_Raw q)"
    and ?s = "s\<lparr>fs_tick := Suc (fs_tick s)\<rparr>"
  have "\<exists>x. local_Save env d ?k ?m (header_type q) ?s = (Err x, s') \<and> is_typed ''MaxBytesError'' x"
    using assms(1)
    by (auto simp: UploadContentLocal_def with_key_def with_int_def fail_with_def returnS_def Let_def on_files_def now_def
        bindS_def [of "\<lambda>s. _ s"] respond_run int_of_def header_type_def split: if_splits res.splits prod.splits)
  then obtain x where save: "local_Save env d ?k ?m (header_type q) ?s = (Err x, s')" "is_typed ''MaxBytesError'' x" by blast
  have sys: "syscall env f s = f (s\<lparr>fs_tick := Suc (fs_tick s)\<rparr>)" for f :: "unit fs" and s by (simp add: syscall_def assms(2) Let_def)
  have plain: "open_write p c t = (Err y, t') \<Longrightarrow> \<not> is_typed ty y" for p c t y t' ty
    by (auto simp: open_write_def ErrNotExist_def split: if_splits)
  have mk: "os_MkdirAll env p t = (Err y, t') \<Longrightarrow> \<not> is_typed ty y" for p t y t' ty
    by (auto simp: os_MkdirAll_def sys split: if_splits)
  show ?thesis
  proof (cases "resolveAndValidate env d ?k")
    case (Ok p)
    obtain r1 t1 where m: "os_MkdirAll env (butlast p) ?s = (r1, t1)" by fastforce
    obtain r2 t2 where c: "os_Create env p t1 = (r2, t2)" by fastforce
    obtain r3 t3 where cp: "io_Copy env p ?m t2 = (r3, t3)" by fastforce
    obtain r4 t4 where rm: "os_Remove env p t3 = (r4, t4)" by fastforce
    obtain r5 t5 where w: "os_WriteFile env (meta_path p) (header_type q) t3 = (r5, t5)" by fastforce
    have r1: "r1 = Ok ()"
      using save Ok m by (cases r1) (auto simp: local_Save_def bindS_def liftS_def wrapS_def dest: mk)
    have r2: "r2 = Ok ()"
      using save Ok m r1 c by (cases r2) (auto simp: local_Save_def bindS_def liftS_def wrapS_def os_Create_def sys dest: plain)
    have files3: "map_get (fs_files t3) p = Some (bd_bytes ?m)" and r3: "r3 \<noteq> Panic"
      using cp by (auto simp: io_Copy_def sys map_simps split: option.splits)
    have files4: "map_get (fs_files t4) p = None"
      using rm files3 by (auto simp: os_Remove_def sys is_file_def delete_conv' split: if_splits)
    have "s' = t4"
    proof (cases r3)
      case (Err y)
      with save Ok m r1 c r2 cp rm show ?thesis
        by (cases r4) (auto simp: local_Save_def bindS_def liftS_def wrapS_def attemptS_def ignoring_def returnS_def failS_def)
    next
      case (Ok u)
      with save \<open>resolveAndValidate env d ?k = Ok p\<close> m r1 c r2 cp w show ?thesis
        by (cases r5; cases "os_Remove env p t5"; cases "fst (os_Remove env p t5)")
          (auto simp: local_Save_def bindS_def liftS_def wrapS_def attemptS_def ignoring_def returnS_def failS_def os_WriteFile_def sys dest: plain)
    qed (use r3 in simp)
    with files4 Ok show ?thesis by (simp add: stored_def)
  qed (simp_all add: stored_def)
qed

section \<open>Examples\<close>

definition ex_fs :: FsEnv where
  "ex_fs = \<lparr>fe_fault = (\<lambda>_. None), fe_abs = (\<lambda>_. Ok [''srv'']), fe_evalSymlinks = (\<lambda>p. Ok p), fe_now = (\<lambda>t. int t * 10 ^ 9),
     fe_newUUID = (\<lambda>_. ''01234567-89ab-cdef-0123-456789abcdef'')\<rparr>"

definition ex_driver :: LocalFSDriver where
  "ex_driver = \<lparr>ld_BaseDir = ''files'', ld_PublicURL = ''http://nsw'', ld_secretKey = ''k'', ld_presignTTL = 15 * 60 * 10 ^ 9\<rparr>"

definition ex_mac :: mac where "ex_mac secret p = CHR ''t'' # secret @ p"

definition ex_disk :: FileStore where "ex_disk = \<lparr>fs_files = [], fs_dirs = [], fs_tick = 0\<rparr>"

definition ex_meta :: "string \<Rightarrow> FileMetadata" where
  "ex_meta name = (let key = ''01234567-89ab-cdef-0123-456789abcdef'' @ filepath_Ext name in
     \<lparr>fm_ID = ''01234567-89ab-cdef-0123-456789abcdef'', fm_Name = name, fm_Key = key,
      fm_UploadURL = OwnLink \<lparr>lk_Base = ''http://nsw'', lk_Key = key, lk_Query =
        [(''token'', GenerateToken ex_mac key ''k'' 901 ''application/pdf'' 3), (''expiresAt'', show_int 901),
         (''contentType'', ''application/pdf''), (''maxSizeBytes'', show_int 3)]\<rparr>,
      fm_Size = 3, fm_MimeType = ''application/pdf''\<rparr>)"

definition ex_link :: "string \<Rightarrow> Link" where
  "ex_link name = (case fm_UploadURL (ex_meta name) of OwnLink l \<Rightarrow> l)"

definition ex_ask :: "string \<Rightarrow> Request" where
  "ex_ask name = \<lparr>hq_Auth = Some \<lparr>ax_User = None, ax_Client = None\<rparr>, hq_Path = [], hq_Query = [],
     hq_Body = Some (JObj [(''filename'', JStr name), (''mime_type'', JStr ''application/pdf''), (''size'', JNum 3)]), hq_Header = []\<rparr>"

lemma ex_link_issued:
  assumes "name \<noteq> ''''"
  shows "HandleUpload ex_mac ex_fs (LocalFS ex_driver) (ex_ask name) ((), ex_disk) = (Ok (Reply 200 (ex_meta name)), ((), ex_disk\<lparr>fs_tick := 2\<rparr>))"
    and "fm_UploadURL (ex_meta name) = OwnLink (ex_link name)"
proof -
  have "unmarshal dec_upload (hq_Body (ex_ask name)) = Ok \<lparr>ur_Filename = name, ur_MimeType = ''application/pdf'', ur_Size = 3\<rparr>"
    by (simp add: ex_ask_def unmarshal_def dec_upload_def dec_struct_def dec_field_def)
  then show "HandleUpload ex_mac ex_fs (LocalFS ex_driver) (ex_ask name) ((), ex_disk) = (Ok (Reply 200 (ex_meta name)), ((), ex_disk\<lparr>fs_tick := 2\<rparr>))"
    using assms
    by (simp add: HandleUpload_def GetAuthContext_def ex_ask_def isAllowedContentType_def allowedContentTypes_def respond_run svc_Upload_def
        Let_def bindS_def on_files_def new_key_def drv_GetUploadURL_def local_GetUploadURL_def now_def wrapS_def returnS_def
        ex_driver_def ex_disk_def ex_fs_def ex_meta_def unix_def)
  show "fm_UploadURL (ex_meta name) = OwnLink (ex_link name)" by (simp add: ex_link_def ex_meta_def Let_def)
qed

lemma ex_facts: "is_uuid (fe_newUUID ex_fs t)" "ex_mac s p \<noteq> ''''" "ld_secretKey ex_driver \<noteq> ''''" "fe_fault ex_fs t = None"
  "disk_ok ex_fs ex_driver (ex_disk\<lparr>fs_tick := n\<rparr>)" "link_expiry ex_fs ex_driver (Suc (fs_tick ex_disk)) = 901"
proof -
  have "is_uuid ''01234567-89ab-cdef-0123-456789abcdef''"
    by (simp add: is_uuid_def hex_run_def hex_char_def)
  then show "is_uuid (fe_newUUID ex_fs t)" by (simp add: ex_fs_def)
qed (simp_all add: ex_mac_def ex_driver_def ex_fs_def disk_ok_def base_dir_def ex_disk_def link_expiry_def unix_def)

definition ex_body :: "string \<Rightarrow> Body" where "ex_body bytes = \<lparr>bd_bytes = bytes, bd_error = None\<rparr>"

lemma ex_before_expiry: "unix (fe_now ex_fs (fs_tick (ex_disk\<lparr>fs_tick := 2\<rparr>))) \<le> link_expiry ex_fs ex_driver (Suc (fs_tick ex_disk))"
  by (simp add: ex_facts(6)) (simp add: ex_fs_def unix_def)

theorem issued_link_works_witness:
  "fst (UploadContentLocal ex_mac ex_fs (LocalFS ex_driver) (put_request (ex_link ''a.pdf'') ''application/pdf'' (ex_body ''abc'')) ((), ex_disk\<lparr>fs_tick := 2\<rparr>))
     = Ok (Reply 204 ())
   \<and> fst (UploadContentLocal ex_mac ex_fs (LocalFS ex_driver) (put_request (ex_link ''a.p df'') ''application/pdf'' (ex_body ''abc'')) ((), ex_disk\<lparr>fs_tick := 2\<rparr>))
     = Ok (ErrorReply 400 ''invalid key format'' None)"
proof -
  have works: "fst (UploadContentLocal ex_mac ex_fs (LocalFS ex_driver) (put_request (ex_link name) ''application/pdf'' (ex_body ''abc'')) ((), ex_disk\<lparr>fs_tick := 2\<rparr>))
     = Ok (if match_ext (filepath_Ext name) then Reply 204 () else ErrorReply 400 ''invalid key format'' None)" if "name \<noteq> ''''" for name
  proof -
    have "fm_MimeType (ex_meta name) = ''application/pdf''" "fm_Name (ex_meta name) = name" "fm_Size (ex_meta name) = 3"
      by (simp_all add: ex_meta_def Let_def)
    with issued_link_works [OF ex_link_issued(1) [OF that] ex_link_issued(2) [OF that] ex_facts(1) ex_facts(2,3) _ _ ex_before_expiry ex_facts(4,5),
        of "ex_body ''abc''" "()"]
    show ?thesis by (simp add: ex_facts(6) ex_body_def)
  qed
  have "match_ext (filepath_Ext ''a.pdf'')" "\<not> match_ext (filepath_Ext ''a.p df'')" by code_simp+
  with works [of "''a.pdf''"] works [of "''a.p df''"] show ?thesis by simp
qed

theorem upload_link_binds_witness:
  "\<exists>s3. UploadContentLocal ex_mac ex_fs (LocalFS ex_driver) (put_request (ex_link ''a.pdf'') ''application/pdf'' (ex_body ''abc'')) ((), ex_disk\<lparr>fs_tick := 2\<rparr>)
      = (Ok (Reply 204 ()), s3) \<and> stored ex_fs ex_driver (snd s3) (fm_Key (ex_meta ''a.pdf'')) = Some (''abc'', ''application/pdf'')"
proof -
  let ?q = "put_request (ex_link ''a.pdf'') ''application/pdf'' (ex_body ''abc'')"
  have ext: "match_ext (filepath_Ext ''a.pdf'')" by code_simp
  have ne: "''a.pdf'' \<noteq> ''''" by simp
  have meta: "fm_MimeType (ex_meta ''a.pdf'') = ''application/pdf''" "fm_Name (ex_meta ''a.pdf'') = ''a.pdf''" "fm_Size (ex_meta ''a.pdf'') = 3"
    by (simp_all add: ex_meta_def Let_def)
  note run = put_run(1) [OF ex_link_issued(1) [OF ne] ex_link_issued(2) [OF ne] ex_facts(1) ex_facts(2,3) _ _ ex_before_expiry,
      of "ex_body ''abc''" "()", unfolded meta]
  have "validStorageKey (fm_Key (ex_meta ''a.pdf''))" using put_run(2) [OF ex_link_issued(1) [OF ne] ex_link_issued(2) [OF ne] ex_facts(1) ex_facts(2,3) _ _ ex_before_expiry] ext
    by (simp add: ex_facts(6) meta)
  from save_works [OF ex_facts(5) [of 3] ex_facts(4) this, of "ex_body ''abc''"] obtain s where
    "local_Save ex_fs ex_driver (fm_Key (ex_meta ''a.pdf'')) (ex_body ''abc'') ''application/pdf'' (ex_disk\<lparr>fs_tick := 3\<rparr>) = (Ok (), s)"
    by (auto simp: ex_body_def)
  then have put: "UploadContentLocal ex_mac ex_fs (LocalFS ex_driver) ?q ((), ex_disk\<lparr>fs_tick := 2\<rparr>) = (Ok (Reply 204 ()), ((), s))"
    using run ext by (simp add: ex_facts(6) MaxBytesReader_def ex_body_def respond_run on_files_def numeral_3_eq_3 numeral_2_eq_2)
  have hdr: "header_type ?q = ''application/pdf''" by (simp add: header_type_def put_request_def query_value_def)
  have "query_value (hq_Query ?q) ''token'' = query_value (lk_Query (ex_link ''a.pdf'')) ''token''" by (simp add: put_request_def)
  from upload_link_binds [OF ex_link_issued(1) [OF ne] ex_link_issued(2) [OF ne] put this] hdr
  have "stored ex_fs ex_driver s (fm_Key (ex_meta ''a.pdf'')) = Some (bd_bytes (cq_Raw ?q), ''application/pdf'')"
    by (auto simp: sign_def ex_mac_def meta)
  then show ?thesis using put by (simp add: put_request_def ex_body_def)
qed

text \<open>A file is uploaded with the link, then a longer one: the first is gone.\<close>

theorem refused_upload_removes_file_witness:
  "\<exists>b' s'. UploadContentLocal ex_mac ex_fs (LocalFS ex_driver) (put_request (ex_link ''a.pdf'') ''application/pdf'' (ex_body ''abcd'')) ((), ex_disk\<lparr>fs_tick := 2\<rparr>)
      = (Ok (ErrorReply 413 ''file size exceeds specified limit'' None), (b', s')) \<and> stored ex_fs ex_driver s' (fm_Key (ex_meta ''a.pdf'')) = None"
proof -
  let ?q = "put_request (ex_link ''a.pdf'') ''application/pdf'' (ex_body ''abcd'')"
  have ext: "match_ext (filepath_Ext ''a.pdf'')" by code_simp
  have ne: "''a.pdf'' \<noteq> ''''" by simp
  have meta: "fm_MimeType (ex_meta ''a.pdf'') = ''application/pdf''" "fm_Name (ex_meta ''a.pdf'') = ''a.pdf''" "fm_Size (ex_meta ''a.pdf'') = 3"
    by (simp_all add: ex_meta_def Let_def)
  note run = put_run(1) [OF ex_link_issued(1) [OF ne] ex_link_issued(2) [OF ne] ex_facts(1) ex_facts(2,3) _ _ ex_before_expiry,
      of "ex_body ''abcd''" "()", unfolded meta]
  have "(case fst (local_Save ex_fs ex_driver (fm_Key (ex_meta ''a.pdf'')) \<lparr>bd_bytes = ''abc'', bd_error = Some MaxBytesError\<rparr> ''application/pdf''
      (ex_disk\<lparr>fs_tick := 3\<rparr>)) of Err e \<Rightarrow> is_typed ''MaxBytesError'' e | _ \<Rightarrow> False)" by code_simp
  then obtain e s where "local_Save ex_fs ex_driver (fm_Key (ex_meta ''a.pdf'')) \<lparr>bd_bytes = ''abc'', bd_error = Some MaxBytesError\<rparr> ''application/pdf''
      (ex_disk\<lparr>fs_tick := 3\<rparr>) = (Err e, s)" "is_typed ''MaxBytesError'' e"
    by (auto split: res.splits simp: prod_eq_iff)
  then have put: "UploadContentLocal ex_mac ex_fs (LocalFS ex_driver) ?q ((), ex_disk\<lparr>fs_tick := 2\<rparr>)
      = (Ok (ErrorReply 413 ''file size exceeds specified limit'' None), ((), s))"
    using run ext by (simp add: ex_facts(6) MaxBytesReader_def ex_body_def respond_run on_files_def numeral_3_eq_3 numeral_2_eq_2)
  have "query_value (hq_Path ?q) ''key'' = fm_Key (ex_meta ''a.pdf'')"
    by (simp add: put_request_def query_value_def ex_link_def ex_meta_def Let_def)
  with refused_upload_removes_file [OF put ex_facts(4)] put show ?thesis by auto
qed

theorem saved_is_read_back_witness:
  "\<exists>s1 s2. local_Save ex_fs ex_driver ''01234567-89ab-cdef-0123-456789abcdef.pdf'' (ex_body ''abc'') ''application/pdf'' ex_disk = (Ok (), s1)
     \<and> local_Get ex_fs ex_driver ''01234567-89ab-cdef-0123-456789abcdef.pdf''
         (snd (local_Delete ex_fs ex_driver ''00000000-89ab-cdef-0123-456789abcdef'' s1)) = (Ok (ex_body ''abc'', ''application/pdf''), s2)"
proof -
  let ?k = "''01234567-89ab-cdef-0123-456789abcdef.pdf''" and ?k' = "''00000000-89ab-cdef-0123-456789abcdef''"
  have usable: "usable_key ?k" "usable_key ?k'" by code_simp+
  have other: "?k' \<noteq> ?k" by simp
  have "disk_ok ex_fs ex_driver ex_disk" using ex_facts(5) [of 0] by (simp add: ex_disk_def)
  from save_works [OF this ex_facts(4), of ?k "ex_body ''abc''" "''application/pdf''"] usable(1) [unfolded usable_key_def] obtain s1 where
    save: "local_Save ex_fs ex_driver ?k (ex_body ''abc'') ''application/pdf'' ex_disk = (Ok (), s1)"
    unfolding ex_body_def Body.simps by blast
  obtain r s2 where read: "local_Get ex_fs ex_driver ?k (snd (local_Delete ex_fs ex_driver ?k' s1)) = (r, s2)" by fastforce
  then have get: "local_Get ex_fs ex_driver ?k (run_ops (local_Save ex_fs ex_driver) (local_Get ex_fs ex_driver) (local_Delete ex_fs ex_driver)
      [DeleteOp ?k'] s1) = (r, s2)" by (simp only: run_ops.simps)
  have "r = Ok (ex_body ''abc'', ''application/pdf'')"
    using saved_is_read_back [OF usable(1) save _ get] usable(2) other ex_facts(4) by (metis empty_iff empty_set op_key.simps(3) set_ConsD)
  with save read show ?thesis by blast
qed

end
