(* ===== verification/GoNet.thy ===== *)
theory GoNet
  imports Prelude "HOL-Library.Word"
begin

text \<open>
  The parts of Go's \<open>net/url\<close>, \<open>net/textproto\<close> and \<open>time\<close> that the remote client and the configuration rest
  on: \<open>url.Parse\<close> and \<open>url.ParseRequestURI\<close> (without the user's name and password, which nothing reads),
  \<open>Values.Encode\<close>, the canonical form of a header's key, durations of 64 bits and \<open>time.ParseDuration\<close>. Strings are
  their bytes.
\<close>

section \<open>Bytes\<close>

definition code :: "char \<Rightarrow> nat" where "code c = of_char c"

definition digit_byte :: "char \<Rightarrow> bool" where "digit_byte c \<longleftrightarrow> 48 \<le> code c \<and> code c \<le> 57"
definition lower_byte :: "char \<Rightarrow> bool" where "lower_byte c \<longleftrightarrow> 97 \<le> code c \<and> code c \<le> 122"
definition upper_byte :: "char \<Rightarrow> bool" where "upper_byte c \<longleftrightarrow> 65 \<le> code c \<and> code c \<le> 90"
definition alnum_byte :: "char \<Rightarrow> bool" where "alnum_byte c \<longleftrightarrow> digit_byte c \<or> lower_byte c \<or> upper_byte c"

definition lower_char :: "char \<Rightarrow> char" where
  "lower_char c = (if upper_byte c then char_of (code c + 32) else c)"

definition to_lower :: "string \<Rightarrow> string" where
  "to_lower s = map lower_char s"

definition hex_value :: "char \<Rightarrow> nat option" where
  "hex_value c =
     (if digit_byte c then Some (code c - 48)
      else if 97 \<le> code c \<and> code c \<le> 102 then Some (code c - 87)
      else if 65 \<le> code c \<and> code c \<le> 70 then Some (code c - 55)
      else None)"

definition hex_digit :: "nat \<Rightarrow> char" where
  "hex_digit n = (if n < 10 then char_of (48 + n) else char_of (55 + n))"

text \<open>\<open>strings.Cut\<close> at a byte: what stands before it, and what stands after it if it is there.\<close>

fun cut :: "char \<Rightarrow> string \<Rightarrow> string \<times> string option" where
  "cut c [] = ([], None)"
| "cut c (x # s) = (if x = c then ([], Some s) else (case cut c s of (a, b) \<Rightarrow> (x # a, b)))"

definition before :: "char \<Rightarrow> string \<Rightarrow> string" where "before c s = fst (cut c s)"

definition after :: "char \<Rightarrow> string \<Rightarrow> string" where
  "after c s = (case snd (cut c s) of None \<Rightarrow> [] | Some t \<Rightarrow> t)"

text \<open>At the last occurrence.\<close>

definition last_cut :: "char \<Rightarrow> string \<Rightarrow> (string \<times> string) option" where
  "last_cut c s = (case cut c (rev s) of (t, None) \<Rightarrow> None | (t, Some u) \<Rightarrow> Some (rev u, rev t))"

definition trim_prefix :: "string \<Rightarrow> string \<Rightarrow> string" where
  "trim_prefix p s = (if prefix p s then drop (length p) s else s)"

definition trim_suffix :: "string \<Rightarrow> string \<Rightarrow> string" where
  "trim_suffix p s = (if suffix p s then take (length s - length p) s else s)"

fun contains :: "string \<Rightarrow> string \<Rightarrow> bool" where
  "contains [] p = (p = [])"
| "contains (c # s) p = (prefix p (c # s) \<or> contains s p)"

section \<open>net/url\<close>

record URL =
  gu_Scheme :: string
  gu_Opaque :: string
  gu_Host :: string
  gu_Path :: string
  gu_RawQuery :: string
  gu_Fragment :: string

datatype encoding = EncodePath | EncodeHost | EncodeZone | EncodeUserPassword | EncodeFragment

text \<open>\<open>shouldEscape\<close> for the host.\<close>

definition host_byte :: "char \<Rightarrow> bool" where
  "host_byte c \<longleftrightarrow> alnum_byte c \<or> c \<in> set ''!$&()*+,;=:[]<>-_.~'' \<or> code c = 34 \<or> code c = 39"

definition url_error :: "string \<Rightarrow> 'a res" where
  "url_error m = Err (External m)"

fun unescape :: "encoding \<Rightarrow> string \<Rightarrow> string res" where
  "unescape mode [] = Ok []"
| "unescape mode (c # s) =
     (if c = CHR ''%'' then
        (case s of
           a # b # rest \<Rightarrow>
             (case (hex_value a, hex_value b) of
                (Some h, Some l) \<Rightarrow>
                  (if mode = EncodeHost \<and> h < 8 \<and> [a, b] \<noteq> ''25'' then url_error ''invalid URL escape''
                   else if mode = EncodeZone \<and> [a, b] \<noteq> ''25'' \<and> 16 * h + l \<noteq> 32 \<and> \<not> host_byte (char_of (16 * h + l))
                   then url_error ''invalid URL escape''
                   else bind_res (unescape mode rest) (\<lambda>t. Ok (char_of (16 * h + l) # t)))
              | _ \<Rightarrow> url_error ''invalid URL escape'')
         | _ \<Rightarrow> url_error ''invalid URL escape'')
      else if (mode = EncodeHost \<or> mode = EncodeZone) \<and> code c < 128 \<and> \<not> host_byte c
      then url_error ''invalid character in host name''
      else bind_res (unescape mode s) (\<lambda>t. Ok (c # t)))"

text \<open>\<open>getScheme\<close>: \<open>i\<close> is whether a byte has been read, the result the scheme and the rest.\<close>

fun scheme_loop :: "string \<Rightarrow> string \<Rightarrow> string \<Rightarrow> (string \<times> string) res" where
  "scheme_loop raw seen [] = Ok ([], raw)"
| "scheme_loop raw seen (c # s) =
     (if lower_byte c \<or> upper_byte c then scheme_loop raw (seen @ [c]) s
      else if digit_byte c \<or> c \<in> set ''+-.'' then
        (if seen = [] then Ok ([], raw) else scheme_loop raw (seen @ [c]) s)
      else if c = CHR '':'' then (if seen = [] then url_error ''missing protocol scheme'' else Ok (seen, s))
      else Ok ([], raw))"

definition getScheme :: "string \<Rightarrow> (string \<times> string) res" where
  "getScheme raw = scheme_loop raw [] raw"

fun validOptionalPort :: "string \<Rightarrow> bool" where
  "validOptionalPort [] = True"
| "validOptionalPort (c # s) = (c = CHR '':'' \<and> list_all digit_byte s)"

text \<open>The zone of an IPv6 address begins at the first \<open>%25\<close> before the last bracket.\<close>

fun zone_split :: "string \<Rightarrow> (string \<times> string) option" where
  "zone_split [] = None"
| "zone_split (c # s) =
     (if prefix ''%25'' (c # s) then Some ([], c # s)
      else (case zone_split s of None \<Rightarrow> None | Some (a, b) \<Rightarrow> Some (c # a, b)))"

definition parseHost :: "string \<Rightarrow> string res" where
  "parseHost host =
     (if prefix ''['' host then
        (case last_cut CHR '']'' host of
           None \<Rightarrow> url_error ''missing ']' in host''
         | Some (inside, colonPort) \<Rightarrow>
             (if \<not> validOptionalPort colonPort then url_error ''invalid port after host''
              else (case zone_split inside of
                      None \<Rightarrow> unescape EncodeHost host
                    | Some (address, zone) \<Rightarrow>
                        bind_res (unescape EncodeHost address) (\<lambda>host1.
                        bind_res (unescape EncodeZone zone) (\<lambda>host2.
                        bind_res (unescape EncodeHost (CHR '']'' # colonPort)) (\<lambda>host3.
                        Ok (host1 @ host2 @ host3)))))))
      else (case last_cut CHR '':'' host of
              None \<Rightarrow> unescape EncodeHost host
            | Some (_, port) \<Rightarrow>
                (if \<not> validOptionalPort (CHR '':'' # port) then url_error ''invalid port after host''
                 else unescape EncodeHost host)))"

definition validUserinfo :: "string \<Rightarrow> bool" where
  "validUserinfo s \<longleftrightarrow> list_all (\<lambda>c. alnum_byte c \<or> c \<in> set ''-._:~!$&()*+,;=%@'' \<or> code c = 39) s"

definition parseAuthority :: "string \<Rightarrow> string res" where
  "parseAuthority authority =
     (case last_cut CHR ''@'' authority of
        None \<Rightarrow> parseHost authority
      | Some (userinfo, host) \<Rightarrow>
          bind_res (parseHost host) (\<lambda>h.
          if \<not> validUserinfo userinfo then url_error ''invalid userinfo''
          else bind_res (unescape EncodeUserPassword (before CHR '':'' userinfo)) (\<lambda>_.
               bind_res (unescape EncodeUserPassword (after CHR '':'' userinfo)) (\<lambda>_. Ok h))))"

definition ctl_byte :: "char \<Rightarrow> bool" where
  "ctl_byte c \<longleftrightarrow> code c < 32 \<or> code c = 127"

text \<open>What follows the scheme and precedes the query, with the query already taken off.\<close>

definition parse_rest :: "bool \<Rightarrow> string \<Rightarrow> string \<Rightarrow> string \<Rightarrow> URL res" where
  "parse_rest viaRequest scheme query rest =
     (let url = \<lparr>gu_Scheme = scheme, gu_Opaque = [], gu_Host = [], gu_Path = [], gu_RawQuery = query, gu_Fragment = []\<rparr> in
      if \<not> prefix ''/'' rest \<and> scheme \<noteq> [] then Ok (url\<lparr>gu_Opaque := rest\<rparr>)
      else if \<not> prefix ''/'' rest \<and> viaRequest then url_error ''invalid URI for request''
      else if \<not> prefix ''/'' rest \<and> CHR '':'' \<in> set (before CHR ''/'' rest)
      then url_error ''first path segment in URL cannot contain colon''
      else if (scheme \<noteq> [] \<or> (\<not> viaRequest \<and> \<not> prefix ''///'' rest)) \<and> prefix ''//'' rest then
        bind_res (parseAuthority (before CHR ''/'' (drop 2 rest))) (\<lambda>host.
        bind_res (unescape EncodePath (dropWhile (\<lambda>c. c \<noteq> CHR ''/'') (drop 2 rest))) (\<lambda>path.
        Ok (url\<lparr>gu_Host := host, gu_Path := path\<rparr>)))
      else bind_res (unescape EncodePath rest) (\<lambda>path. Ok (url\<lparr>gu_Path := path\<rparr>)))"

definition parse_url :: "string \<Rightarrow> bool \<Rightarrow> URL res" where
  "parse_url raw viaRequest =
     (if list_ex ctl_byte raw then url_error ''invalid control character in URL''
      else if raw = [] \<and> viaRequest then url_error ''empty url''
      else if raw = ''*''
      then Ok \<lparr>gu_Scheme = [], gu_Opaque = [], gu_Host = [], gu_Path = ''*'', gu_RawQuery = [], gu_Fragment = []\<rparr>
      else bind_res (getScheme raw) (\<lambda>(scheme, rest).
           parse_rest viaRequest (to_lower scheme) (after CHR ''?'' rest) (before CHR ''?'' rest)))"

definition ParseRequestURI :: "string \<Rightarrow> URL res" where
  "ParseRequestURI raw = parse_url raw True"

definition url_Parse :: "string \<Rightarrow> URL res" where
  "url_Parse raw =
     bind_res (parse_url (before CHR ''#'' raw) False) (\<lambda>u.
     bind_res (unescape EncodeFragment (after CHR ''#'' raw)) (\<lambda>f. Ok (u\<lparr>gu_Fragment := f\<rparr>)))"

text \<open>\<open>url.QueryEscape\<close> and \<open>Values.Encode\<close>, sorted by key.\<close>

definition query_escape :: "string \<Rightarrow> string" where
  "query_escape s = concat (map (\<lambda>c.
     if alnum_byte c \<or> c \<in> set ''-_.~'' then [c]
     else if c = CHR '' '' then ''+''
     else [CHR ''%'', hex_digit (code c div 16), hex_digit (code c mod 16)]) s)"

definition Values_Encode :: "(string, string list) gomap \<Rightarrow> string" where
  "Values_Encode v =
     join_with CHR ''&'' (concat (map (\<lambda>k.
       map (\<lambda>x. query_escape k @ ''='' @ query_escape x) (case map_get v k of None \<Rightarrow> [] | Some xs \<Rightarrow> xs))
       (sort (remdups (map fst v)))))"

section \<open>Headers\<close>

definition token_byte :: "char \<Rightarrow> bool" where
  "token_byte c \<longleftrightarrow> alnum_byte c \<or> c \<in> set ''!#$%&*+-.^_`|~'' \<or> code c = 39"

fun canonical_loop :: "bool \<Rightarrow> string \<Rightarrow> string" where
  "canonical_loop up [] = []"
| "canonical_loop up (c # s) =
     (if up then upper_char c else lower_char c) # canonical_loop (c = CHR ''-'') s"

definition CanonicalHeaderKey :: "string \<Rightarrow> string" where
  "CanonicalHeaderKey s = (if list_all token_byte s then canonical_loop True s else s)"

type_synonym Header = "(string, string) gomap"

definition header_set :: "string \<Rightarrow> string \<Rightarrow> Header \<Rightarrow> Header" where
  "header_set k v h = map_put (CanonicalHeaderKey k) v h"

section \<open>Durations\<close>

definition int64 :: "int \<Rightarrow> int" where
  "int64 n = sint (word_of_int n :: 64 word)"

definition nanosecond :: int where "nanosecond = 1"
definition millisecond :: int where "millisecond = 1000000"
definition second :: int where "second = 1000000000"
definition minute :: int where "minute = 60 * second"

text \<open>
  \<open>time.ParseDuration\<close>: digits, an optional fraction and a unit, repeated. The fraction is computed exactly where the
  library goes through \<open>float64\<close>; the digits beyond the eighteenth, which the library may ignore, are kept.
\<close>

definition units :: "(string \<times> int) list" where
  "units = [(''ns'', 1), (''us'', 1000), ([CHR 0xC2, CHR 0xB5, CHR ''s''], 1000), ([CHR 0xCE, CHR 0xBC, CHR ''s''], 1000),
     (''ms'', millisecond), (''s'', second), (''m'', minute), (''h'', 60 * minute)]"

definition digits_int :: "string \<Rightarrow> int" where
  "digits_int s = foldl (\<lambda>n c. 10 * n + (of_char c - 48)) 0 s"

definition invalid_duration :: "'a res" where
  "invalid_duration = Err (External ''time: invalid duration'')"

definition unit_byte :: "char \<Rightarrow> bool" where
  "unit_byte c \<longleftrightarrow> \<not> digit_byte c \<and> c \<noteq> CHR ''.''"

definition fraction_of :: "string \<Rightarrow> string \<times> string" where
  "fraction_of s = (if prefix ''.'' s then (takeWhile digit_byte (tl s), dropWhile digit_byte (tl s)) else ([], s))"

definition duration_of :: "string \<Rightarrow> string \<Rightarrow> string \<Rightarrow> int res" where
  "duration_of whole fraction name =
     (if whole = [] \<and> fraction = [] then invalid_duration
      else (case map_of units name of
              None \<Rightarrow> invalid_duration
            | Some unit \<Rightarrow>
                if digits_int whole * unit + digits_int fraction * unit div 10 ^ length fraction > 2 ^ 63 then invalid_duration
                else Ok (digits_int whole * unit + digits_int fraction * unit div 10 ^ length fraction)))"

text \<open>One part \<open>[0-9]*(\.[0-9]*)?[a-z]+\<close> and what follows it.\<close>

definition duration_part :: "string \<Rightarrow> (int \<times> string) res" where
  "duration_part s =
     (case fraction_of (dropWhile digit_byte s) of (fraction, rest) \<Rightarrow>
      bind_res (duration_of (takeWhile digit_byte s) fraction (takeWhile unit_byte rest)) (\<lambda>v.
      Ok (v, dropWhile unit_byte rest)))"

text \<open>Every part takes a byte at least, so as many rounds as there are bytes are enough.\<close>

primrec duration_loop :: "nat \<Rightarrow> int \<Rightarrow> string \<Rightarrow> int res" where
  "duration_loop 0 d s = Ok d"
| "duration_loop (Suc n) d s =
     (if s = [] then Ok d
      else bind_res (duration_part s) (\<lambda>(v, rest).
           if d + v > 2 ^ 63 then invalid_duration else duration_loop n (d + v) rest))"

definition ParseDuration :: "string \<Rightarrow> int res" where
  "ParseDuration s =
     (let neg = prefix ''-'' s; s' = (if prefix ''-'' s \<or> prefix ''+'' s then tl s else s) in
      if s' = ''0'' then Ok 0
      else if s' = [] then invalid_duration
      else bind_res (duration_loop (length s') 0 s') (\<lambda>d.
           if neg then Ok (- d)
           else if d > 2 ^ 63 - 1 then invalid_duration
           else Ok d))"

end
