(* ===== verification/Remote.thy ===== *)
theory Remote
  imports GoNet Payments
begin

text \<open>
  \<open>backend/pkg/remote/\<close>: the client for the services outside the program, its authenticators with their token
  cache, retries with back-off, and the manager that picks a client by id or by URL. What happens outside, the exchange
  with a server, the timers, the clock and the context, is answered by \<open>RemoteEnv\<close>, each question taking a tick. The
  network keeps what was handed to the HTTP client and how long was waited, so that statements can speak of it.
  The body of a request is the JSON value that is marshalled. Redirects are part of an exchange.
\<close>

section \<open>The network\<close>

datatype Body = NoBody | JSONBody any | FormBody string

record OutRequest =
  or_Method :: string
  or_URL :: string
  or_Header :: Header
  or_Body :: Body

text \<open>
  An answer with what a decoder makes of its body, the text of the body, and what the decoder leaves unread of it.
\<close>

record HttpAnswer =
  ra_StatusCode :: int
  ra_Status :: string
  ra_JSON :: "any res"
  ra_Text :: string
  ra_Rest :: string

record RemoteEnv =
  re_now :: "nat \<Rightarrow> int"
  re_ctx :: "nat \<Rightarrow> go_error option"
  re_timer :: "int \<Rightarrow> nat \<Rightarrow> go_error option"
  re_exchange :: "int \<Rightarrow> OutRequest \<Rightarrow> nat \<Rightarrow> HttpAnswer res"
  re_file :: "string \<Rightarrow> nat \<Rightarrow> (any res) res"

record Net =
  nt_tick :: nat
  nt_sent :: "OutRequest list"
  nt_tokens :: "OutRequest list"
  nt_waits :: "int list"

definition ask :: "(nat \<Rightarrow> 'a res) \<Rightarrow> ('s \<times> Net, 'a) op" where
  "ask f s = (case s of (c, w) \<Rightarrow> (f (nt_tick w), (c, w\<lparr>nt_tick := Suc (nt_tick w)\<rparr>)))"

definition note_sent :: "OutRequest \<Rightarrow> ('s \<times> Net, unit) op" where
  "note_sent r s = (case s of (c, w) \<Rightarrow> (Ok (), (c, w\<lparr>nt_sent := nt_sent w @ [r]\<rparr>)))"

definition note_token :: "OutRequest \<Rightarrow> ('s \<times> Net, unit) op" where
  "note_token r s = (case s of (c, w) \<Rightarrow> (Ok (), (c, w\<lparr>nt_tokens := nt_tokens w @ [r]\<rparr>)))"

definition note_wait :: "int \<Rightarrow> ('s \<times> Net, unit) op" where
  "note_wait d s = (case s of (c, w) \<Rightarrow> (Ok (), (c, w\<lparr>nt_waits := nt_waits w @ [d]\<rparr>)))"

definition get_state :: "('s \<times> Net, 's) op" where
  "get_state s = (Ok (fst s), s)"

definition put_state :: "'s \<Rightarrow> ('s \<times> Net, unit) op" where
  "put_state c s = (Ok (), (c, snd s))"

text \<open>\<open>http.NewRequestWithContext\<close>.\<close>

definition NewRequest :: "string \<Rightarrow> string \<Rightarrow> Body \<Rightarrow> OutRequest res" where
  "NewRequest verb url body =
     (let m = (if verb = '''' then ''GET'' else verb) in
      if \<not> list_all token_byte m then Err (External ''net/http: invalid method'')
      else bind_res (url_Parse url) (\<lambda>_. Ok \<lparr>or_Method = m, or_URL = url, or_Header = [], or_Body = body\<rparr>))"

section \<open>auth/: authenticators\<close>

record APIKeyConfig =
  ak_Key :: string
  ak_Value :: string

record BearerConfig =
  bk_Token :: string

record OAuth2Config =
  oc_TokenURL :: string
  oc_ClientID :: string
  oc_ClientSecret :: string
  oc_Scopes :: "string list"

record OAuth2 =
  oa_cfg :: OAuth2Config
  oa_httpClient :: "int option"
  oa_accessToken :: string
  oa_expiry :: int

datatype Authenticator = APIKey APIKeyConfig | Bearer BearerConfig | OAuth2Auth OAuth2

definition NewOAuth2 :: "OAuth2Config \<Rightarrow> OAuth2" where
  "NewOAuth2 cfg = \<lparr>oa_cfg = cfg, oa_httpClient = None, oa_accessToken = '''', oa_expiry = 0\<rparr>"

record oauth2TokenResponse =
  ot_AccessToken :: string
  ot_TokenType :: string
  ot_ExpiresIn :: int

definition dec_token_response :: "oauth2TokenResponse decoder" where
  "dec_token_response = dec_struct (\<lambda>m.
     bind_res (dec_field dec_string ''access_token'' m) (\<lambda>token.
     bind_res (dec_field dec_string ''token_type'' m) (\<lambda>ty.
     bind_res (dec_field dec_int ''expires_in'' m) (\<lambda>n.
     Ok \<lparr>ot_AccessToken = token, ot_TokenType = ty, ot_ExpiresIn = n\<rparr>))))"

definition token_form :: "OAuth2Config \<Rightarrow> string" where
  "token_form cfg =
     Values_Encode ((if oc_Scopes cfg \<noteq> [] then map_put ''scope'' [join_with CHR '' '' (oc_Scopes cfg)] else id)
       (map_put ''client_secret'' [oc_ClientSecret cfg] (map_put ''client_id'' [oc_ClientID cfg]
         (map_put ''grant_type'' [''client_credentials''] []))))"

text \<open>What \<open>refreshToken\<close> makes of an answer.\<close>

definition token_answer :: "HttpAnswer \<Rightarrow> oauth2TokenResponse res" where
  "token_answer a =
     (if ra_StatusCode a \<noteq> 200 then Err (Errorf ''token request returned status %d'' [show_int (ra_StatusCode a)])
      else bind_res (wrap_err ''failed to decode token response: %w'' [] (bind_res (ra_JSON a) dec_token_response)) (\<lambda>t.
           if ot_AccessToken t = '''' then Err (Errorf ''token response contained no access token'' []) else Ok t))"

definition refreshToken :: "RemoteEnv \<Rightarrow> (OAuth2 \<times> Net, string \<times> int) op" where
  "refreshToken env =
     bindS get_state (\<lambda>a.
     let timeout = (case oa_httpClient a of None \<Rightarrow> 10 * second | Some t \<Rightarrow> t) in
     bindS (put_state (a\<lparr>oa_httpClient := Some timeout\<rparr>)) (\<lambda>_.
     bindS (liftS (wrap_err ''failed to create token request: %w'' []
              (NewRequest ''POST'' (oc_TokenURL (oa_cfg a)) (FormBody (token_form (oa_cfg a)))))) (\<lambda>r.
     let r = r\<lparr>or_Header := header_set ''Content-Type'' ''application/x-www-form-urlencoded'' (or_Header r)\<rparr> in
     bindS (note_token r) (\<lambda>_.
     bindS (wrapS ''token request failed: %w'' [] (ask (re_exchange env timeout r))) (\<lambda>answer.
     bindS (liftS (token_answer answer)) (\<lambda>t.
     bindS (ask (\<lambda>n. Ok (re_now env n))) (\<lambda>now.
     returnS (ot_AccessToken t, now + int64 (ot_ExpiresIn t * second)))))))))"

definition getToken :: "RemoteEnv \<Rightarrow> (OAuth2 \<times> Net, string) op" where
  "getToken env =
     bindS get_state (\<lambda>a.
     bindS (if oa_accessToken a \<noteq> '''' then bindS (ask (\<lambda>n. Ok (re_now env n))) (\<lambda>now. returnS (now + minute < oa_expiry a))
            else returnS False) (\<lambda>valid.
     if valid then returnS (oa_accessToken a)
     else bindS (refreshToken env) (\<lambda>(token, expiry).
          bindS get_state (\<lambda>a.
          bindS (put_state (a\<lparr>oa_accessToken := token, oa_expiry := expiry\<rparr>)) (\<lambda>_. returnS token)))))"

definition with_header :: "string \<Rightarrow> string \<Rightarrow> OutRequest \<Rightarrow> OutRequest" where
  "with_header k v r = r\<lparr>or_Header := header_set k v (or_Header r)\<rparr>"

definition apply_oauth2 :: "RemoteEnv \<Rightarrow> OutRequest \<Rightarrow> (OAuth2 \<times> Net, OutRequest) op" where
  "apply_oauth2 env r =
     bindS (wrapS ''remote/auth: oauth2 failed: %w'' [] (getToken env)) (\<lambda>token.
     returnS (with_header ''Authorization'' (''Bearer '' @ token) r))"

definition apply_api_key :: "APIKeyConfig \<Rightarrow> OutRequest \<Rightarrow> OutRequest" where
  "apply_api_key cfg r = with_header (ak_Key cfg) (ak_Value cfg) r"

definition apply_bearer :: "BearerConfig \<Rightarrow> OutRequest \<Rightarrow> OutRequest" where
  "apply_bearer cfg r = with_header ''Authorization'' (''Bearer '' @ bk_Token cfg) r"

fun auth_Apply :: "RemoteEnv \<Rightarrow> OutRequest \<Rightarrow> (Authenticator \<times> Net, OutRequest) op" where
  "auth_Apply env r (APIKey cfg, w) = (Ok (apply_api_key cfg r), (APIKey cfg, w))"
| "auth_Apply env r (Bearer cfg, w) = (Ok (apply_bearer cfg r), (Bearer cfg, w))"
| "auth_Apply env r (OAuth2Auth a, w) =
     (case apply_oauth2 env r (a, w) of (result, (a', w')) \<Rightarrow> (result, (OAuth2Auth a', w')))"

section \<open>errors.go, options.go, client.go\<close>

definition ErrRequestFailed :: go_error where "ErrRequestFailed = Errorf ''remote: request failed'' []"
definition ErrTimeout :: go_error where "ErrTimeout = Errorf ''remote: request timed out'' []"
definition ErrServiceUnavailable :: go_error where "ErrServiceUnavailable = Errorf ''remote: service unavailable'' []"
definition ErrUnauthorized :: go_error where "ErrUnauthorized = Errorf ''remote: unauthorized access'' []"
definition ErrBadRequest :: go_error where "ErrBadRequest = Errorf ''remote: invalid request'' []"
definition ErrNotFound :: go_error where "ErrNotFound = Errorf ''remote: resource not found'' []"

definition RemoteError :: "int \<Rightarrow> string \<Rightarrow> go_error \<Rightarrow> go_error" where
  "RemoteError statusCode message wrapped =
     Typed ''RemoteError'' (Wrapf ''remote error (%d): %s: %v'' [show_int statusCode, message] wrapped)"

record RetryConfig =
  rt_MaxRetries :: int
  rt_InitialBackoff :: int
  rt_MaxBackoff :: int
  rt_RetryableStatus :: "int list"

definition DefaultRetryConfig :: RetryConfig where
  "DefaultRetryConfig =
     \<lparr>rt_MaxRetries = 3, rt_InitialBackoff = 500 * millisecond, rt_MaxBackoff = 10 * second,
      rt_RetryableStatus = [429, 500, 502, 503, 504]\<rparr>"

record RemoteRequest =
  rq_Method :: string
  rq_Path :: string
  rq_Query :: "(string, string list) gomap"
  rq_Body :: "any option"
  rq_Headers :: "(string, string) gomap"
  rq_Retry :: "RetryConfig option"

record Client =
  rc_timeout :: int
  rc_baseURL :: string
  rc_authenticator :: "Authenticator option"
  rc_headers :: "(string, string) gomap"

datatype Option = WithTimeout int | WithAuthenticator Authenticator

fun apply_option :: "Option \<Rightarrow> Client \<Rightarrow> Client" where
  "apply_option (WithTimeout t) c = c\<lparr>rc_timeout := t\<rparr>"
| "apply_option (WithAuthenticator a) c = c\<lparr>rc_authenticator := Some a\<rparr>"

definition NewClient :: "string \<Rightarrow> Option list \<Rightarrow> Client res" where
  "NewClient baseURL opts =
     (if baseURL = '''' then Panic
      else Ok (fold apply_option opts
             \<lparr>rc_timeout = 30 * second, rc_baseURL = trim_suffix ''/'' baseURL, rc_authenticator = None, rc_headers = []\<rparr>))"

text \<open>The URL of a request.\<close>

definition target_url :: "string \<Rightarrow> string \<Rightarrow> string res" where
  "target_url baseURL path =
     (if prefix ''http://'' path \<or> prefix ''https://'' path then
        (if baseURL \<noteq> '''' then
           bind_res (wrap_err ''remote: invalid base URL: %w'' [] (url_Parse baseURL)) (\<lambda>base.
           bind_res (wrap_err ''remote: invalid absolute URL: %w'' [] (url_Parse path)) (\<lambda>provided.
           if gu_Scheme base \<noteq> gu_Scheme provided \<or> gu_Host base \<noteq> gu_Host provided
           then Err (Errorf ''remote: absolute URL host %q does not match configured service host %q'' [gu_Host provided, gu_Host base])
           else Ok path))
         else Ok path)
      else Ok (trim_suffix ''/'' baseURL @ ''/'' @ trim_prefix ''/'' path))"

text \<open>The text of an error that an exchange ends in.\<close>

fun error_text :: "go_error \<Rightarrow> string" where
  "error_text (External m) = m"
| "error_text (Errorf m _) = m"
| "error_text (Wrapf m _ e) = m @ error_text e"
| "error_text (Typed _ e) = error_text e"
| "error_text RecordNotFound = ''record not found''"

definition mapNetworkError :: "go_error \<Rightarrow> go_error" where
  "mapNetworkError e =
     (if contains (error_text e) ''timeout'' \<or> contains (error_text e) ''deadline exceeded'' then ErrTimeout
      else Wrapf ''%w: %v'' [error_text e] ErrRequestFailed)"

fun map_error :: "(go_error \<Rightarrow> go_error) \<Rightarrow> 'a res \<Rightarrow> 'a res" where
  "map_error f (Err e) = Err (f e)"
| "map_error f r = r"

definition set_headers :: "(string, string) gomap \<Rightarrow> OutRequest \<Rightarrow> OutRequest" where
  "set_headers hs r = fold (\<lambda>(k, v). with_header k v) hs r"

text \<open>The authenticator of the client, which may change its cached token.\<close>

definition authenticate :: "RemoteEnv \<Rightarrow> OutRequest \<Rightarrow> (Client \<times> Net, OutRequest) op" where
  "authenticate env r s =
     (case s of (c, w) \<Rightarrow>
      (case rc_authenticator c of
         None \<Rightarrow> (Ok r, s)
       | Some a \<Rightarrow> (case auth_Apply env r (a, w) of
                      (result, (a', w')) \<Rightarrow> (wrap_err ''remote: auth failed: %w'' [] result, (c\<lparr>rc_authenticator := Some a'\<rparr>, w')))))"

definition executeOnce ::
    "RemoteEnv \<Rightarrow> string \<Rightarrow> string \<Rightarrow> any option \<Rightarrow> (string, string) gomap \<Rightarrow> (Client \<times> Net, HttpAnswer) op" where
  "executeOnce env verb path body extraHeaders =
     bindS get_state (\<lambda>c.
     bindS (liftS (target_url (rc_baseURL c) path)) (\<lambda>finalURL.
     bindS (liftS (wrap_err ''remote: failed to create request: %w'' []
              (NewRequest verb finalURL (case body of None \<Rightarrow> NoBody | Some b \<Rightarrow> JSONBody b)))) (\<lambda>r.
     let r = (if body \<noteq> None then with_header ''Content-Type'' ''application/json'' r else r);
       r = set_headers extraHeaders (set_headers (rc_headers c) r) in
     bindS (authenticate env r) (\<lambda>r.
     bindS (note_sent r) (\<lambda>_.
     ask (\<lambda>n. map_error mapNetworkError (re_exchange env (rc_timeout c) r n)))))))"

definition should_retry :: "RetryConfig \<Rightarrow> HttpAnswer res \<Rightarrow> bool" where
  "should_retry retry result =
     (case result of Ok a \<Rightarrow> ra_StatusCode a \<in> set (rt_RetryableStatus retry) | _ \<Rightarrow> True)"

definition next_backoff :: "RetryConfig \<Rightarrow> int \<Rightarrow> int" where
  "next_backoff retry backoff =
     (if int64 (backoff * 2) > rt_MaxBackoff retry then rt_MaxBackoff retry else int64 (backoff * 2))"

definition check_ctx :: "RemoteEnv \<Rightarrow> ('s \<times> Net, unit) op" where
  "check_ctx env = ask (\<lambda>n. case re_ctx env n of None \<Rightarrow> Ok () | Some e \<Rightarrow> Err e)"

definition wait_for :: "RemoteEnv \<Rightarrow> int \<Rightarrow> ('s \<times> Net, unit) op" where
  "wait_for env d = bindS (note_wait d) (\<lambda>_. ask (\<lambda>n. case re_timer env d n of None \<Rightarrow> Ok () | Some e \<Rightarrow> Err e))"

text \<open>The loop with the number of retries that are left; \<open>once\<close> is one attempt.\<close>

primrec retry_loop ::
    "RemoteEnv \<Rightarrow> RetryConfig \<Rightarrow> ('s \<times> Net, HttpAnswer) op \<Rightarrow> nat \<Rightarrow> int \<Rightarrow> ('s \<times> Net, HttpAnswer) op" where
  "retry_loop env retry once 0 backoff = bindS (check_ctx env) (\<lambda>_. once)"
| "retry_loop env retry once (Suc n) backoff =
     bindS (check_ctx env) (\<lambda>_.
     bindS (attemptS once) (\<lambda>result.
     if \<not> should_retry retry result then liftS result
     else bindS (wait_for env backoff) (\<lambda>_.
          retry_loop env retry once n (next_backoff retry backoff))))"

text \<open>\<open>None\<close> is the pair \<open>(nil, nil)\<close>.\<close>

definition executeWithRetry ::
    "RemoteEnv \<Rightarrow> string \<Rightarrow> string \<Rightarrow> any option \<Rightarrow> (string, string) gomap \<Rightarrow> RetryConfig option
      \<Rightarrow> (Client \<times> Net, HttpAnswer option) op" where
  "executeWithRetry env verb path body headers retry =
     (let once = executeOnce env verb path body headers in
      case retry of
        None \<Rightarrow> bindS once (\<lambda>a. returnS (Some a))
      | Some config \<Rightarrow>
          if rt_MaxRetries config < 0 then returnS None
          else bindS (retry_loop env config once (nat (rt_MaxRetries config)) (rt_InitialBackoff config)) (\<lambda>a. returnS (Some a)))"

definition full_path :: "RemoteRequest \<Rightarrow> string" where
  "full_path req =
     (if rq_Query req \<noteq> [] then
        rq_Path req @ (if contains (rq_Path req) ''?'' then ''&'' else ''?'') @ Values_Encode (rq_Query req)
      else rq_Path req)"

definition handleErrorResponse :: "HttpAnswer \<Rightarrow> string \<Rightarrow> go_error" where
  "handleErrorResponse a body =
     RemoteError (ra_StatusCode a) (if body = '''' then ra_Status a else body)
       (let n = ra_StatusCode a in
        if n = 401 \<or> n = 403 then ErrUnauthorized
        else if n = 404 then ErrNotFound
        else if n = 400 then ErrBadRequest
        else if n = 503 \<or> n = 504 then ErrServiceUnavailable
        else ErrRequestFailed)"

text \<open>What \<open>JSONRequest\<close> makes of an answer: the value for a caller that gave a variable to decode into.\<close>

definition json_result :: "'r decoder option \<Rightarrow> HttpAnswer \<Rightarrow> 'r option res" where
  "json_result response a =
     (case response of
        Some d \<Rightarrow>
          if ra_StatusCode a \<noteq> 204 then
            bind_res (wrap_err ''remote: failed to decode response: %w'' [] (bind_res (ra_JSON a) d)) (\<lambda>v.
            if ra_StatusCode a \<ge> 400 then Err (handleErrorResponse a (ra_Rest a)) else Ok (Some v))
          else Ok None
      | None \<Rightarrow> if ra_StatusCode a \<ge> 400 then Err (handleErrorResponse a (ra_Text a)) else Ok None)"

definition JSONRequest :: "RemoteEnv \<Rightarrow> RemoteRequest \<Rightarrow> 'r decoder option \<Rightarrow> (Client \<times> Net, 'r option) op" where
  "JSONRequest env req response =
     bindS (executeWithRetry env (rq_Method req) (full_path req) (rq_Body req) (rq_Headers req) (rq_Retry req)) (\<lambda>resp.
     case resp of None \<Rightarrow> liftS Panic | Some a \<Rightarrow> liftS (json_result response a))"

end
