(* ===== verification/RemoteManager.thy ===== *)
theory RemoteManager
  imports Remote
begin

text \<open>
  \<open>backend/pkg/remote/manager.go\<close>: the registry of services and the clients made from it. A client is shared by
  pointer: the manager's map holds the only copy, and a call runs on it and puts it back. A range over the registry
  visits its association list in order.
\<close>

section \<open>The registry\<close>

record AuthConfig =
  ac_Type :: string
  ac_Options :: "any option"

record ServiceConfig =
  sc_ID :: string
  sc_URL :: string
  sc_Timeout :: string
  sc_Auth :: "AuthConfig option"

record Registry =
  rg_Version :: string
  rg_Services :: "ServiceConfig list"

record Manager =
  mg_configs :: "(string, ServiceConfig) gomap"
  mg_clients :: "(string, Client) gomap"

definition NewManager :: Manager where
  "NewManager = \<lparr>mg_configs = [], mg_clients = []\<rparr>"

type_synonym 'a manager_op = "(Manager \<times> Net, 'a) op"

text \<open>A raw member: absent is the empty message.\<close>

definition dec_raw :: "string \<Rightarrow> obj \<Rightarrow> any option res" where
  "dec_raw k m = Ok (map_get m k)"

definition dec_auth_config :: "AuthConfig decoder" where
  "dec_auth_config = dec_struct (\<lambda>m.
     bind_res (dec_field dec_string ''type'' m) (\<lambda>ty.
     bind_res (dec_raw ''options'' m) (\<lambda>options.
     Ok \<lparr>ac_Type = ty, ac_Options = options\<rparr>)))"

definition dec_service_config :: "ServiceConfig decoder" where
  "dec_service_config = dec_struct (\<lambda>m.
     bind_res (dec_field dec_string ''id'' m) (\<lambda>i.
     bind_res (dec_field dec_string ''url'' m) (\<lambda>url.
     bind_res (dec_field dec_string ''timeout'' m) (\<lambda>timeout.
     bind_res (dec_field (dec_ptr dec_auth_config) ''auth'' m) (\<lambda>auth.
     Ok \<lparr>sc_ID = i, sc_URL = url, sc_Timeout = timeout, sc_Auth = auth\<rparr>)))))"

definition dec_registry :: "Registry decoder" where
  "dec_registry = dec_struct (\<lambda>m.
     bind_res (dec_field dec_string ''version'' m) (\<lambda>version.
     bind_res (dec_field (dec_slice dec_service_config) ''services'' m) (\<lambda>services.
     Ok \<lparr>rg_Version = version, rg_Services = services\<rparr>)))"

definition add_config :: "ServiceConfig \<Rightarrow> (string, ServiceConfig) gomap \<Rightarrow> (string, ServiceConfig) gomap" where
  "add_config cfg configs = map_put (sc_ID cfg) (cfg\<lparr>sc_URL := trim_suffix ''/'' (sc_URL cfg)\<rparr>) configs"

definition LoadServices :: "RemoteEnv \<Rightarrow> string \<Rightarrow> unit manager_op" where
  "LoadServices env filePath =
     bindS (wrapS ''remote: failed to read services file: %w'' [] (ask (re_file env filePath))) (\<lambda>data.
     bindS (liftS (wrap_err ''remote: failed to unmarshal services registry: %w'' [] (bind_res data dec_registry))) (\<lambda>registry.
     put_state \<lparr>mg_configs = fold add_config (rg_Services registry) [], mg_clients = []\<rparr>))"

definition ListServices :: "Manager \<Rightarrow> string list" where
  "ListServices m = map fst (mg_configs m)"

section \<open>Clients\<close>

definition dec_api_key :: "APIKeyConfig decoder" where
  "dec_api_key = dec_struct (\<lambda>m.
     bind_res (dec_field dec_string ''key'' m) (\<lambda>k.
     bind_res (dec_field dec_string ''value'' m) (\<lambda>v. Ok \<lparr>ak_Key = k, ak_Value = v\<rparr>)))"

definition dec_bearer :: "BearerConfig decoder" where
  "dec_bearer = dec_struct (\<lambda>m. bind_res (dec_field dec_string ''token'' m) (\<lambda>t. Ok \<lparr>bk_Token = t\<rparr>))"

definition dec_oauth2 :: "OAuth2Config decoder" where
  "dec_oauth2 = dec_struct (\<lambda>m.
     bind_res (dec_field dec_string ''token_url'' m) (\<lambda>url.
     bind_res (dec_field dec_string ''client_id'' m) (\<lambda>i.
     bind_res (dec_field dec_string ''client_secret'' m) (\<lambda>secret.
     bind_res (dec_field (dec_slice dec_string) ''scopes'' m) (\<lambda>scopes.
     Ok \<lparr>oc_TokenURL = url, oc_ClientID = i, oc_ClientSecret = secret, oc_Scopes = scopes\<rparr>)))))"

definition createAuthenticator :: "AuthConfig \<Rightarrow> Authenticator res" where
  "createAuthenticator cfg =
     (if ac_Type cfg = ''api_key'' then
        bind_res (wrap_err ''invalid api_key options: %w'' [] (unmarshal dec_api_key (ac_Options cfg))) (\<lambda>c. Ok (APIKey c))
      else if ac_Type cfg = ''bearer'' then
        bind_res (wrap_err ''invalid bearer options: %w'' [] (unmarshal dec_bearer (ac_Options cfg))) (\<lambda>c. Ok (Bearer c))
      else if ac_Type cfg = ''oauth2'' then
        bind_res (wrap_err ''invalid oauth2 options: %w'' [] (unmarshal dec_oauth2 (ac_Options cfg))) (\<lambda>c. Ok (OAuth2Auth (NewOAuth2 c)))
      else Err (Errorf ''unsupported auth type: %s'' [ac_Type cfg]))"

text \<open>The options of a new client.\<close>

definition timeout_option :: "ServiceConfig \<Rightarrow> Option list res" where
  "timeout_option cfg =
     (if sc_Timeout cfg \<noteq> '''' then
        bind_res (wrap_err ''remote: invalid timeout %q for service %q: %w'' [sc_Timeout cfg, sc_ID cfg] (ParseDuration (sc_Timeout cfg)))
          (\<lambda>d. Ok [WithTimeout d])
      else Ok [])"

definition auth_option :: "ServiceConfig \<Rightarrow> Option list res" where
  "auth_option cfg =
     (case sc_Auth cfg of
        None \<Rightarrow> Ok []
      | Some a \<Rightarrow>
          bind_res (wrap_err ''remote: failed to create authenticator for %q: %w'' [sc_ID cfg] (createAuthenticator a))
            (\<lambda>x. Ok [WithAuthenticator x]))"

definition new_client :: "ServiceConfig \<Rightarrow> Client res" where
  "new_client cfg =
     bind_res (timeout_option cfg) (\<lambda>o1.
     bind_res (auth_option cfg) (\<lambda>o2.
     NewClient (sc_URL cfg) (o1 @ o2)))"

definition GetClient :: "string \<Rightarrow> Client manager_op" where
  "GetClient i =
     bindS get_state (\<lambda>m.
     case map_get (mg_clients m) i of
       Some client \<Rightarrow> returnS client
     | None \<Rightarrow>
         (case map_get (mg_configs m) i of
            None \<Rightarrow> failS (Errorf ''remote: service %q not found in registry'' [i])
          | Some cfg \<Rightarrow>
              bindS (liftS (new_client cfg)) (\<lambda>client.
              bindS (put_state (m\<lparr>mg_clients := map_put i client (mg_clients m)\<rparr>)) (\<lambda>_.
              returnS client))))"

section \<open>Finding a service by URL\<close>

definition matches_base :: "URL \<Rightarrow> ServiceConfig \<Rightarrow> bool" where
  "matches_base parsedReq cfg =
     (case url_Parse (sc_URL cfg) of
        Ok parsedBase \<Rightarrow> gu_Scheme parsedReq = gu_Scheme parsedBase \<and> gu_Host parsedReq = gu_Host parsedBase
          \<and> prefix (gu_Path parsedBase) (gu_Path parsedReq)
      | _ \<Rightarrow> False)"

fun find_service :: "URL \<Rightarrow> (string, ServiceConfig) gomap \<Rightarrow> string option" where
  "find_service parsedReq [] = None"
| "find_service parsedReq ((i, cfg) # rest) =
     (if matches_base parsedReq cfg then Some i else find_service parsedReq rest)"

definition GetClientByURL :: "string \<Rightarrow> (Client \<times> string) manager_op" where
  "GetClientByURL rawURL =
     (if \<not> prefix ''http'' rawURL
      then failS (Errorf ''remote: cannot resolve service from relative path: %s'' [rawURL])
      else bindS (liftS (wrap_err ''remote: invalid URL: %w'' [] (url_Parse rawURL))) (\<lambda>parsedReq.
           bindS get_state (\<lambda>m.
           case find_service parsedReq (mg_configs m) of
             None \<Rightarrow> failS (Errorf ''remote: no registered service found for URL: %s'' [rawURL])
           | Some i \<Rightarrow>
               bindS (wrapS ''remote: failed to create client for matched service %q: %w'' [i] (GetClient i)) (\<lambda>client.
               returnS (client, i)))))"

text \<open>Running an operation of a client on the manager's client of a service.\<close>

definition on_client :: "string \<Rightarrow> (Client \<times> Net, 'r) op \<Rightarrow> 'r manager_op" where
  "on_client i f s =
     (case s of (m, w) \<Rightarrow>
      (case map_get (mg_clients m) i of
         None \<Rightarrow> (Panic, s)
       | Some c \<Rightarrow> (case f (c, w) of (result, (c', w')) \<Rightarrow> (result, (m\<lparr>mg_clients := map_put i c' (mg_clients m)\<rparr>, w')))))"

definition relative_to :: "(string, ServiceConfig) gomap \<Rightarrow> string \<Rightarrow> RemoteRequest \<Rightarrow> RemoteRequest" where
  "relative_to configs i req =
     (case map_get configs i of None \<Rightarrow> req | Some cfg \<Rightarrow> req\<lparr>rq_Path := trim_prefix (sc_URL cfg) (rq_Path req)\<rparr>)"

definition manager_Call :: "RemoteEnv \<Rightarrow> string \<Rightarrow> RemoteRequest \<Rightarrow> 'r decoder option \<Rightarrow> 'r option manager_op" where
  "manager_Call env serviceID req response =
     (if serviceID \<noteq> '''' then
        bindS (GetClient serviceID) (\<lambda>_. on_client serviceID (JSONRequest env req response))
      else
        bindS (GetClientByURL (rq_Path req)) (\<lambda>(_, resolvedID).
        bindS get_state (\<lambda>m.
        on_client resolvedID (JSONRequest env (relative_to (mg_configs m) resolvedID req) response))))"

end
