(* ===== verification/RemoteProperties.thy ===== *)
theory RemoteProperties
  imports RemoteManager
begin

text \<open>
  What is shown of \<open>pkg/remote\<close>: where the requests of a client go, how often an attempt is repeated and how long is
  waited, when a cached token is used, which answers are errors, and what the manager makes of a URL.
\<close>

section \<open>The origin of a URL\<close>

lemma cut_before: "c \<notin> set (before c s)"
  unfolding before_def by (induction c s rule: cut.induct) (auto split: prod.splits)

lemma before_append [simp]: "c \<notin> set a \<Longrightarrow> before c (a @ s) = a @ before c s"
  unfolding before_def by (induction a) (auto split: prod.splits)

lemma before_Cons [simp]: "before c (c # s) = []"
  by (simp add: before_def)

lemma before_Nil [simp]: "before c [] = []"
  by (simp add: before_def)

lemma before_none: "c \<notin> set s \<Longrightarrow> before c s = s"
  using before_append [of c s "[]"] by simp

lemma before_split: "\<exists>t. s = before c s @ t \<and> (t = [] \<or> hd t = c)"
proof (induction s)
  case Nil
  then show ?case by (simp add: before_def)
next
  case (Cons x s)
  then obtain t where t: "s = before c s @ t" "t = [] \<or> hd t = c"
    by blast
  show ?case
  proof (cases "x = c")
    case True
    then show ?thesis by simp
  next
    case False
    then have "before c (x # s) = x # before c s"
      using before_append [of c "[x]" s] by simp
    with t show ?thesis by auto
  qed
qed

definition scheme_byte :: "char \<Rightarrow> bool" where
  "scheme_byte c \<longleftrightarrow> lower_byte c \<or> upper_byte c \<or> digit_byte c \<or> c \<in> set ''+-.''"

definition letter :: "char \<Rightarrow> bool" where
  "letter c \<longleftrightarrow> lower_byte c \<or> upper_byte c"

definition valid_scheme :: "string \<Rightarrow> bool" where
  "valid_scheme s \<longleftrightarrow> s \<noteq> [] \<and> letter (hd s) \<and> list_all scheme_byte s"

definition scheme_prefix :: "string \<Rightarrow> string" where
  "scheme_prefix s = (if s = [] then [] else s @ '':'')"

definition delimiter :: "char \<Rightarrow> bool" where
  "delimiter c \<longleftrightarrow> c = CHR ''/'' \<or> c = CHR ''?'' \<or> c = CHR ''#''"

text \<open>A URL that begins with a scheme or none, two slashes and an authority that is not empty.\<close>

definition has_origin :: "string \<Rightarrow> string \<Rightarrow> string \<Rightarrow> bool" where
  "has_origin s scheme authority \<longleftrightarrow>
     (scheme = [] \<or> valid_scheme scheme) \<and> authority \<noteq> [] \<and> (\<forall>c \<in> set authority. \<not> delimiter c)
     \<and> (\<exists>tail. s = scheme_prefix scheme @ ''//'' @ authority @ tail \<and> (tail = [] \<or> delimiter (hd tail)))"

lemma origin_of_extension:
  "has_origin s scheme authority \<Longrightarrow> has_origin (s @ CHR ''/'' # q) scheme authority"
  unfolding has_origin_def
  by (elim conjE exE disjE) (auto simp: delimiter_def hd_append intro!: exI [of _ "_ @ CHR ''/'' # q"])

lemma origin_of_trimmed:
  assumes "has_origin (s @ ''/'') scheme authority"
  shows "has_origin s scheme authority"
proof -
  obtain tail where tail: "s @ ''/'' = scheme_prefix scheme @ ''//'' @ authority @ tail" "tail = [] \<or> delimiter (hd tail)"
    and rest: "scheme = [] \<or> valid_scheme scheme" "authority \<noteq> []" "\<forall>c \<in> set authority. \<not> delimiter c"
    using assms by (auto simp: has_origin_def)
  have "last (s @ ''/'') = CHR ''/''"
    by simp
  moreover have "last authority \<noteq> CHR ''/''"
    using rest last_in_set [of authority] by (auto simp: delimiter_def)
  ultimately have ne: "tail \<noteq> []"
    using tail(1) rest(2) by (auto simp: last_append split: if_splits)
  then have "s = scheme_prefix scheme @ ''//'' @ authority @ butlast tail"
    using arg_cong [OF tail(1), of butlast] rest(2) by (simp add: butlast_append split: if_splits)
  moreover have "butlast tail = [] \<or> delimiter (hd (butlast tail))"
    using tail(2) ne by (cases tail) auto
  ultimately show ?thesis
    using rest unfolding has_origin_def by blast
qed

lemma scheme_loop_split:
  "scheme_loop raw seen s = Ok (scheme, rest) \<Longrightarrow> scheme \<noteq> [] \<Longrightarrow>
     \<exists>t. scheme = seen @ t \<and> s = t @ CHR '':'' # rest \<and> list_all scheme_byte t \<and> (seen = [] \<longrightarrow> letter (hd t))"
proof (induction s arbitrary: seen)
  case Nil
  then show ?case by simp
next
  case (Cons c s)
  show ?case
  proof (cases "letter c \<or> (scheme_byte c \<and> seen \<noteq> [])")
    case True
    then have step: "scheme_loop raw seen (c # s) = scheme_loop raw (seen @ [c]) s"
      by (auto simp: letter_def scheme_byte_def)
    then obtain t where "scheme = (seen @ [c]) @ t" "s = t @ CHR '':'' # rest" "list_all scheme_byte t"
      using Cons by fastforce
    moreover have "scheme_byte c" "seen = [] \<longrightarrow> letter c"
      using True by (auto simp: letter_def scheme_byte_def)
    ultimately show ?thesis
      by (intro exI [of _ "c # t"]) simp
  next
    case False
    then show ?thesis
      using Cons.prems by (auto simp: letter_def scheme_byte_def url_error_def split: if_splits)
  qed
qed

lemma scheme_loop_join:
  "list_all scheme_byte t \<Longrightarrow> (if seen = [] then t \<noteq> [] \<and> letter (hd t) else True) \<Longrightarrow>
     scheme_loop raw seen (t @ CHR '':'' # rest) = Ok (seen @ t, rest)"
proof (induction t arbitrary: seen)
  case Nil
  then show ?case
    by (auto simp: letter_def lower_byte_def upper_byte_def digit_byte_def code_def split: if_splits)
next
  case (Cons c t)
  then have "scheme_loop raw seen ((c # t) @ CHR '':'' # rest) = scheme_loop raw (seen @ [c]) (t @ CHR '':'' # rest)"
    by (auto simp: letter_def scheme_byte_def split: if_splits)
  also have "\<dots> = Ok ((seen @ [c]) @ t, rest)"
    using Cons by (intro Cons.IH) auto
  finally show ?case by simp
qed

lemma scheme_loop_none: "scheme_loop raw seen s = Ok ([], rest) \<Longrightarrow> rest = raw"
  by (induction s arbitrary: seen) (auto simp: url_error_def split: if_splits)

lemma scheme_not_delimiter: "scheme_byte c \<Longrightarrow> \<not> delimiter c"
  by (auto simp: scheme_byte_def delimiter_def lower_byte_def upper_byte_def digit_byte_def code_def)

lemma getScheme_prefix:
  assumes "scheme = [] \<or> valid_scheme scheme" "scheme = [] \<longrightarrow> prefix ''//'' rest"
  shows "getScheme (scheme_prefix scheme @ rest) = Ok (scheme, rest)"
proof (cases "scheme = []")
  case True
  then obtain t where "rest = ''//'' @ t"
    using assms(2) by (auto simp: prefix_def)
  with True show ?thesis
    by (simp add: getScheme_def scheme_prefix_def lower_byte_def upper_byte_def digit_byte_def code_def)
next
  case False
  then show ?thesis
    using assms(1) scheme_loop_join [of scheme "[]"] by (simp add: getScheme_def scheme_prefix_def valid_scheme_def)
qed

lemma getScheme_split:
  assumes "getScheme s = Ok (scheme, rest)"
  shows "s = scheme_prefix scheme @ rest \<and> (scheme = [] \<or> valid_scheme scheme)"
proof (cases "scheme = []")
  case True
  then show ?thesis
    using assms scheme_loop_none [of s "[]" s rest] by (simp add: getScheme_def scheme_prefix_def)
next
  case False
  then show ?thesis
    using assms scheme_loop_split [of s "[]" s scheme rest]
    by (auto simp: getScheme_def scheme_prefix_def valid_scheme_def)
qed

text \<open>The host that \<open>url.Parse\<close> finds is that of the authority.\<close>

lemma authority_nonempty: "parseAuthority [] = Ok []"
  by (simp add: parseAuthority_def last_cut_def parseHost_def)

lemma parse_rest_host:
  assumes "parse_rest False scheme query rest = Ok u" "gu_Host u \<noteq> []"
  shows "prefix ''//'' rest \<and> before CHR ''/'' (drop 2 rest) \<noteq> [] \<and> gu_Scheme u = scheme
    \<and> parseAuthority (before CHR ''/'' (drop 2 rest)) = Ok (gu_Host u)"
  using assms authority_nonempty
  by (auto simp: parse_rest_def Let_def res_simps url_error_def split: if_splits)

lemma parse_rest_authority:
  assumes "parse_rest False scheme query rest = Ok u" "prefix ''//'' rest" "before CHR ''/'' (drop 2 rest) \<noteq> []"
  shows "gu_Scheme u = scheme \<and> parseAuthority (before CHR ''/'' (drop 2 rest)) = Ok (gu_Host u)"
proof -
  have "\<not> prefix ''///'' rest"
    using assms(2,3) by (auto simp: prefix_def)
  moreover have "prefix ''/'' rest"
    using assms(2) by (auto simp: prefix_def)
  ultimately show ?thesis
    using assms by (auto simp: parse_rest_def Let_def res_simps url_error_def split: if_splits)
qed

lemma url_Parse_parts:
  assumes "url_Parse s = Ok u"
  shows "before CHR ''#'' s = ''*'' \<and> gu_Host u = [] \<or>
    (\<exists>scheme rest v. getScheme (before CHR ''#'' s) = Ok (scheme, rest)
       \<and> parse_rest False (to_lower scheme) (after CHR ''?'' rest) (before CHR ''?'' rest) = Ok v
       \<and> gu_Scheme u = gu_Scheme v \<and> gu_Host u = gu_Host v)"
  using assms by (auto simp: url_Parse_def parse_url_def res_simps url_error_def split: if_splits)

lemma host_has_origin:
  assumes "url_Parse s = Ok u" "gu_Host u \<noteq> []"
  shows "\<exists>scheme authority. has_origin s scheme authority"
proof -
  obtain scheme rest v where parts: "getScheme (before CHR ''#'' s) = Ok (scheme, rest)"
      "parse_rest False (to_lower scheme) (after CHR ''?'' rest) (before CHR ''?'' rest) = Ok v" "gu_Host v = gu_Host u"
    using url_Parse_parts [OF assms(1)] assms(2) by auto
  define q where "q = before CHR ''?'' rest"
  define authority where "authority = before CHR ''/'' (drop 2 q)"
  have host: "prefix ''//'' q" "authority \<noteq> []"
    using parse_rest_host [OF parts(2)] parts(3) assms(2) by (auto simp: q_def authority_def)
  then obtain q' where q': "q = ''//'' @ q'"
    by (auto simp: prefix_def)
  obtain t1 where t1: "s = before CHR ''#'' s @ t1" "t1 = [] \<or> hd t1 = CHR ''#''"
    using before_split by blast
  obtain t2 where t2: "rest = q @ t2" "t2 = [] \<or> hd t2 = CHR ''?''"
    using before_split unfolding q_def by blast
  obtain t3 where t3: "q' = authority @ t3" "t3 = [] \<or> hd t3 = CHR ''/''"
    using before_split [of q' "CHR ''/''"] q' by (auto simp: authority_def)
  have split: "before CHR ''#'' s = scheme_prefix scheme @ rest" "scheme = [] \<or> valid_scheme scheme"
    using getScheme_split [OF parts(1)] by auto
  have "s = scheme_prefix scheme @ ''//'' @ authority @ (t3 @ t2 @ t1)"
    using t1(1) split(1) t2(1) q' t3(1) by simp
  moreover have "t3 @ t2 @ t1 = [] \<or> delimiter (hd (t3 @ t2 @ t1))"
    using t1(2) t2(2) t3(2) by (auto simp: delimiter_def hd_append)
  moreover have "\<forall>c \<in> set authority. \<not> delimiter c"
  proof -
    have "CHR ''/'' \<notin> set authority"
      unfolding authority_def by (rule cut_before)
    moreover have "CHR ''?'' \<notin> set authority"
      using cut_before [of "CHR ''?''" rest] q' t3(1) by (auto simp: q_def [symmetric])
    moreover have "CHR ''#'' \<notin> set authority"
      using cut_before [of "CHR ''#''" s] split(1) t2(1) q' t3(1) by auto
    ultimately show ?thesis
      by (auto simp: delimiter_def)
  qed
  ultimately show ?thesis
    using split(2) host(2) unfolding has_origin_def by blast
qed

lemma origin_determines_host:
  assumes "has_origin s scheme authority" "url_Parse s = Ok u"
  shows "gu_Scheme u = to_lower scheme \<and> parseAuthority authority = Ok (gu_Host u)"
proof -
  obtain tail where s: "s = scheme_prefix scheme @ ''//'' @ authority @ tail" "tail = [] \<or> delimiter (hd tail)"
    and o: "scheme = [] \<or> valid_scheme scheme" "authority \<noteq> []" "\<forall>c \<in> set authority. \<not> delimiter c"
    using assms(1) by (auto simp: has_origin_def)
  have no: "CHR ''/'' \<notin> set authority" "CHR ''?'' \<notin> set authority" "CHR ''#'' \<notin> set authority"
    using o(3) by (auto simp: delimiter_def)
  have "CHR ''#'' \<notin> set (scheme_prefix scheme)"
    using o(1) scheme_not_delimiter by (auto simp: scheme_prefix_def valid_scheme_def list_all_iff delimiter_def)
  then have b1: "before CHR ''#'' s = scheme_prefix scheme @ ''//'' @ authority @ before CHR ''#'' tail"
    using no s(1) before_append [of "CHR ''#''" "scheme_prefix scheme @ ''//'' @ authority" tail] by simp
  have scheme: "getScheme (before CHR ''#'' s) = Ok (scheme, ''//'' @ authority @ before CHR ''#'' tail)"
    unfolding b1 by (rule getScheme_prefix) (use o(1) in auto)
  have b2: "before CHR ''?'' (''//'' @ authority @ before CHR ''#'' tail)
      = ''//'' @ authority @ before CHR ''?'' (before CHR ''#'' tail)"
    using no before_append [of "CHR ''?''" "''//'' @ authority" "before CHR ''#'' tail"] by simp
  define t where "t = before CHR ''?'' (before CHR ''#'' tail)"
  have "t = [] \<or> hd t = CHR ''/''"
    using s(2) before_append [of "CHR ''#''" "[hd tail]" "tl tail"] before_append [of "CHR ''?''" "[hd tail]"]
    by (cases tail) (auto simp: t_def delimiter_def)
  then have b3: "before CHR ''/'' (authority @ t) = authority"
    using no by (cases t) (auto simp: before_none)
  have "before CHR ''#'' s \<noteq> ''*''"
    using b1 o(1) by (auto simp: scheme_prefix_def split: if_splits)
  then obtain v where v: "parse_rest False (to_lower scheme) (after CHR ''?'' (''//'' @ authority @ before CHR ''#'' tail))
      (''//'' @ authority @ t) = Ok v" "gu_Scheme u = gu_Scheme v" "gu_Host u = gu_Host v"
    using url_Parse_parts [OF assms(2)] scheme b2 by (auto simp: t_def)
  show ?thesis
    using parse_rest_authority [OF v(1)] v(2,3) b3 o(2) by simp
qed

text \<open>Whatever path is put behind a base URL, scheme and host stay those of the base.\<close>

lemma trim_suffix_slash: "trim_suffix ''/'' s = s \<or> s = trim_suffix ''/'' s @ ''/''"
  by (auto simp: trim_suffix_def suffix_def)

lemma joined_keeps_origin:
  assumes "has_origin base scheme authority" "url_Parse (trim_suffix ''/'' base @ CHR ''/'' # q) = Ok u"
  shows "gu_Scheme u = to_lower scheme \<and> parseAuthority authority = Ok (gu_Host u)"
proof -
  have "has_origin (trim_suffix ''/'' base) scheme authority"
    using trim_suffix_slash [of base] assms(1) origin_of_trimmed by metis
  then have "has_origin (trim_suffix ''/'' base @ CHR ''/'' # q) scheme authority"
    by (rule origin_of_extension)
  then show ?thesis
    using origin_determines_host [OF _ assms(2)] by blast
qed

lemma target_keeps_origin:
  assumes "has_origin base scheme authority" "target_url base path = Ok t" "url_Parse t = Ok u"
  shows "gu_Scheme u = to_lower scheme \<and> parseAuthority authority = Ok (gu_Host u)"
proof -
  have "base \<noteq> []"
    using assms(1) by (auto simp: has_origin_def)
  then show ?thesis
    using assms joined_keeps_origin [OF assms(1)] origin_determines_host [OF assms(1)]
    by (fastforce simp: target_url_def res_simps split: if_splits)
qed

section \<open>Authenticators\<close>

text \<open>
  The interface \<open>auth.Authenticator\<close>: an authenticator leaves the target and the body of a request as they are and
  sends nothing but requests for a token.
\<close>

locale authenticator =
  fixes apply_auth :: "RemoteEnv \<Rightarrow> OutRequest \<Rightarrow> ('a \<times> Net, OutRequest) op"
    and token_urls :: "'a \<Rightarrow> string set"
  assumes keeps_request: "apply_auth env r (a, w) = (Ok r', s) \<Longrightarrow> or_URL r' = or_URL r \<and> or_Method r' = or_Method r \<and> or_Body r' = or_Body r"
    and sends_no_request: "apply_auth env r (a, w) = (result, (a', w')) \<Longrightarrow> nt_sent w' = nt_sent w \<and> nt_waits w' = nt_waits w"
    and tokens_only: "apply_auth env r (a, w) = (result, (a', w')) \<Longrightarrow>
      token_urls a' = token_urls a \<and> (\<exists>ts. nt_tokens w' = nt_tokens w @ ts \<and> length ts \<le> 1 \<and> (\<forall>t \<in> set ts. or_URL t \<in> token_urls a))"
begin

lemma keeps_target:
  "apply_auth env r (a, w) = (Ok r', (a', w')) \<Longrightarrow> P (or_URL r) \<Longrightarrow> P (or_URL r') \<and> nt_sent w' = nt_sent w"
  using keeps_request sends_no_request by metis

end

fun auth_token_urls :: "Authenticator \<Rightarrow> string set" where
  "auth_token_urls (OAuth2Auth a) = {oc_TokenURL (oa_cfg a)}"
| "auth_token_urls _ = {}"

lemmas net_defs = ask_def note_sent_def note_token_def note_wait_def get_state_def put_state_def

lemma refreshToken_run:
  assumes "refreshToken env (a, w) = (result, (a', w'))"
  shows "oa_cfg a' = oa_cfg a \<and> oa_accessToken a' = oa_accessToken a \<and> oa_expiry a' = oa_expiry a
    \<and> nt_sent w' = nt_sent w \<and> nt_waits w' = nt_waits w
    \<and> (\<exists>ts. nt_tokens w' = nt_tokens w @ ts \<and> length ts \<le> 1 \<and> (\<forall>t \<in> set ts. or_URL t = oc_TokenURL (oa_cfg a)))"
  using assms
  by (auto simp: refreshToken_def bindS_def liftS_def wrapS_def returnS_def net_defs Let_def NewRequest_def res_simps
      split: prod.splits res.splits option.splits if_splits)

lemma refreshToken_Ok:
  assumes "refreshToken env (a, w) = (Ok (token, expiry), (a', w'))"
  shows "\<exists>r timeout answer t. nt_tokens w' = nt_tokens w @ [r] \<and> or_URL r = oc_TokenURL (oa_cfg a)
    \<and> re_exchange env timeout r (nt_tick w) = Ok answer \<and> token_answer answer = Ok t
    \<and> token = ot_AccessToken t \<and> expiry = re_now env (Suc (nt_tick w)) + int64 (ot_ExpiresIn t * second)"
  using assms
  by (auto simp: refreshToken_def bindS_def liftS_def wrapS_def returnS_def net_defs Let_def NewRequest_def res_simps
      split: prod.splits res.splits option.splits if_splits) blast+

lemma getToken_run:
  assumes "getToken env (a, w) = (result, (a', w'))"
  shows "(\<exists>w1. nt_tokens w1 = nt_tokens w \<and> nt_sent w1 = nt_sent w \<and> nt_waits w1 = nt_waits w \<and> nt_tick w \<le> nt_tick w1 \<and>
      (result = Ok (oa_accessToken a) \<and> a' = a \<and> w' = w1 \<and> oa_accessToken a \<noteq> '''' \<and> re_now env (nt_tick w) + minute < oa_expiry a
       \<or> (\<exists>token expiry a1. refreshToken env (a, w1) = (Ok (token, expiry), (a1, w')) \<and> result = Ok token
            \<and> a' = a1\<lparr>oa_accessToken := token, oa_expiry := expiry\<rparr>)
       \<or> (\<exists>r. refreshToken env (a, w1) = (r, (a', w')) \<and> \<not> is_ok r \<and> \<not> is_ok result)))"
proof -
  define w1 where "w1 = (if oa_accessToken a \<noteq> '''' then w\<lparr>nt_tick := Suc (nt_tick w)\<rparr> else w)"
  define valid where "valid \<longleftrightarrow> oa_accessToken a \<noteq> '''' \<and> re_now env (nt_tick w) + minute < oa_expiry a"
  have w1: "nt_tokens w1 = nt_tokens w" "nt_sent w1 = nt_sent w" "nt_waits w1 = nt_waits w" "nt_tick w \<le> nt_tick w1"
    by (simp_all add: w1_def)
  have "getToken env (a, w) =
      (if valid then (Ok (oa_accessToken a), (a, w1))
       else case refreshToken env (a, w1) of
         (Ok (token, expiry), (a1, w2)) \<Rightarrow> (Ok token, (a1\<lparr>oa_accessToken := token, oa_expiry := expiry\<rparr>, w2))
       | (Err e, s) \<Rightarrow> (Err e, s) | (Panic, s) \<Rightarrow> (Panic, s))"
    by (simp add: getToken_def bindS_def returnS_def net_defs w1_def valid_def split: prod.splits res.splits)
  then show ?thesis
    using assms w1 by (intro exI [of _ w1]) (auto simp: valid_def split: if_splits prod.splits res.splits)
qed

lemma auth_Apply_request:
  "auth_Apply env r (a, w) = (Ok r', s) \<Longrightarrow> or_URL r' = or_URL r \<and> or_Method r' = or_Method r \<and> or_Body r' = or_Body r"
  by (cases a) (auto simp: apply_oauth2_def apply_api_key_def apply_bearer_def with_header_def op_simps split: prod.splits)

lemma apply_oauth2_run:
  assumes "apply_oauth2 env r (a, w) = (result, (a', w'))"
  shows "\<exists>token. getToken env (a, w) = (token, (a', w'))"
  using assms by (auto simp: apply_oauth2_def bindS_def wrapS_def returnS_def split: prod.splits res.splits)

lemma getToken_net:
  assumes "getToken env (a, w) = (result, (a', w'))"
  shows "oa_cfg a' = oa_cfg a \<and> nt_sent w' = nt_sent w \<and> nt_waits w' = nt_waits w
    \<and> (\<exists>ts. nt_tokens w' = nt_tokens w @ ts \<and> length ts \<le> 1 \<and> (\<forall>t \<in> set ts. or_URL t = oc_TokenURL (oa_cfg a)))"
proof -
  obtain w1 where w1: "nt_tokens w1 = nt_tokens w" "nt_sent w1 = nt_sent w" "nt_waits w1 = nt_waits w"
    and c: "a' = a \<and> w' = w1 \<or> (\<exists>token expiry a1. refreshToken env (a, w1) = (Ok (token, expiry), (a1, w'))
            \<and> a' = a1\<lparr>oa_accessToken := token, oa_expiry := expiry\<rparr>)
       \<or> (\<exists>r. refreshToken env (a, w1) = (r, (a', w')))"
    using getToken_run [OF assms] by blast
  from c show ?thesis
    by (elim disjE exE conjE) (use w1 refreshToken_run in fastforce)+
qed

interpretation auths: authenticator auth_Apply auth_token_urls
proof unfold_locales
  fix env r a w r' s
  assume "auth_Apply env r (a, w) = (Ok r', s)"
  then show "or_URL r' = or_URL r \<and> or_Method r' = or_Method r \<and> or_Body r' = or_Body r"
    by (rule auth_Apply_request)
next
  fix env r a w result a' w'
  assume run: "auth_Apply env r (a, w) = (result, (a', w'))"
  show "nt_sent w' = nt_sent w \<and> nt_waits w' = nt_waits w"
    using run by (cases a) (auto split: prod.splits dest!: apply_oauth2_run getToken_net)
  show "auth_token_urls a' = auth_token_urls a \<and> (\<exists>ts. nt_tokens w' = nt_tokens w @ ts \<and> length ts \<le> 1 \<and> (\<forall>t \<in> set ts. or_URL t \<in> auth_token_urls a))"
    using run by (cases a) (auto split: prod.splits dest!: apply_oauth2_run getToken_net)
qed


section \<open>The token cache\<close>

text \<open>A token that the token endpoint gave in exchange \<open>n\<close>, and the time it expires.\<close>

definition token_issued :: "RemoteEnv \<Rightarrow> OAuth2Config \<Rightarrow> nat \<Rightarrow> string \<Rightarrow> int \<Rightarrow> bool" where
  "token_issued env cfg n token expiry \<longleftrightarrow>
     (\<exists>timeout r answer t. or_URL r = oc_TokenURL cfg \<and> re_exchange env timeout r n = Ok answer \<and> token_answer answer = Ok t
        \<and> token = ot_AccessToken t \<and> expiry = re_now env (Suc n) + int64 (ot_ExpiresIn t * second))"

text \<open>The authenticator after calls that other operations on the network may separate.\<close>

inductive token_calls :: "RemoteEnv \<Rightarrow> OAuth2Config \<Rightarrow> OAuth2 \<Rightarrow> nat \<Rightarrow> bool" for env cfg where
  token_start: "token_calls env cfg (NewOAuth2 cfg) n"
| token_call: "token_calls env cfg a n \<Longrightarrow> n \<le> nt_tick w \<Longrightarrow> getToken env (a, w) = (result, (a', w'))
    \<Longrightarrow> token_calls env cfg a' (nt_tick w')"

lemma token_calls_issued:
  assumes "token_calls env cfg a n"
  shows "oa_cfg a = cfg \<and> (oa_accessToken a \<noteq> '''' \<longrightarrow> (\<exists>k. token_issued env cfg k (oa_accessToken a) (oa_expiry a)))"
  using assms
proof induction
  case token_start
  then show ?case by (simp add: NewOAuth2_def)
next
  case (token_call a n w result a' w')
  obtain w1 where c: "a' = a \<and> w' = w1
      \<or> (\<exists>token expiry a1. refreshToken env (a, w1) = (Ok (token, expiry), (a1, w')) \<and> a' = a1\<lparr>oa_accessToken := token, oa_expiry := expiry\<rparr>)
      \<or> (\<exists>r. refreshToken env (a, w1) = (r, (a', w')))"
    using getToken_run [OF token_call.hyps(3)] by blast
  from c show ?case
  proof (elim disjE exE conjE)
    assume "a' = a"
    with token_call.IH show ?thesis by simp
  next
    fix token expiry a1
    assume r: "refreshToken env (a, w1) = (Ok (token, expiry), (a1, w'))" "a' = a1\<lparr>oa_accessToken := token, oa_expiry := expiry\<rparr>"
    then have "token_issued env cfg (nt_tick w1) token expiry"
      using refreshToken_Ok [OF r(1)] token_call.IH unfolding token_issued_def by auto
    with r refreshToken_run [OF r(1)] token_call.IH show ?thesis by auto
  next
    fix r
    assume "refreshToken env (a, w1) = (r, (a', w'))"
    from refreshToken_run [OF this] token_call.IH show ?thesis by auto
  qed
qed

text \<open>
  C20: Every token that an OAuth2 authenticator hands out was issued by its token endpoint, and it was issued either in
  this very call or with an expiry that is more than a minute away: a token is never used in its last minute, whatever the
  endpoint answered and whichever calls failed before.
\<close>

theorem token_is_fresh:
  assumes "token_calls env cfg a n" "n \<le> nt_tick w" "getToken env (a, w) = (Ok token, (a', w'))"
  shows "\<exists>k expiry. token_issued env cfg k token expiry \<and> (nt_tick w \<le> k \<or> re_now env (nt_tick w) + minute < expiry)"
proof -
  note inv = token_calls_issued [OF assms(1)]
  obtain w1 where w1: "nt_tick w \<le> nt_tick w1"
    and c: "token = oa_accessToken a \<and> token \<noteq> '''' \<and> re_now env (nt_tick w) + minute < oa_expiry a
      \<or> (\<exists>expiry a1. refreshToken env (a, w1) = (Ok (token, expiry), (a1, w')))"
    using getToken_run [OF assms(3)] by auto
  from c show ?thesis
  proof (elim disjE exE conjE)
    assume "token = oa_accessToken a" "token \<noteq> ''''" "re_now env (nt_tick w) + minute < oa_expiry a"
    with inv show ?thesis by blast
  next
    fix expiry a1
    assume "refreshToken env (a, w1) = (Ok (token, expiry), (a1, w'))"
    then have "token_issued env cfg (nt_tick w1) token expiry"
      using refreshToken_Ok inv unfolding token_issued_def by fastforce
    with w1 show ?thesis by blast
  qed
qed

definition demo_oauth2 :: OAuth2Config where
  "demo_oauth2 = \<lparr>oc_TokenURL = ''https://idp/token'', oc_ClientID = ''nsw'', oc_ClientSecret = ''s'', oc_Scopes = [''read'', ''write'']\<rparr>"

definition demo_answer :: "int \<Rightarrow> obj \<Rightarrow> HttpAnswer" where
  "demo_answer status m = \<lparr>ra_StatusCode = status, ra_Status = show_int status, ra_JSON = Ok (JObj m), ra_Text = ''{..}'', ra_Rest = ''''\<rparr>"

text \<open>A second per tick; the endpoint gives a token for ninety seconds.\<close>

definition demo_net_env :: RemoteEnv where
  "demo_net_env =
     \<lparr>re_now = (\<lambda>n. int n * second), re_ctx = (\<lambda>_. None), re_timer = (\<lambda>_ _. None),
      re_exchange = (\<lambda>_ r _. Ok (demo_answer 200 [(''access_token'', JStr ''tok''), (''expires_in'', JNum 90)])),
      re_file = (\<lambda>_ _. Err (External ''no file''))\<rparr>"

definition demo_net :: "nat \<Rightarrow> Net" where
  "demo_net n = \<lparr>nt_tick = n, nt_sent = [], nt_tokens = [], nt_waits = []\<rparr>"

definition demo_first :: "string res \<times> (OAuth2 \<times> Net)" where
  "demo_first = getToken demo_net_env (NewOAuth2 demo_oauth2, demo_net 0)"


lemma token_is_fresh_witness:
  "\<exists>k expiry. token_issued demo_net_env demo_oauth2 k ''tok'' expiry
     \<and> (20 \<le> k \<or> re_now demo_net_env 20 + minute < expiry)"
proof -
  have first: "getToken demo_net_env (NewOAuth2 demo_oauth2, demo_net 0) = (fst demo_first, (fst (snd demo_first), snd (snd demo_first)))"
    by (simp add: demo_first_def)
  have calls: "token_calls demo_net_env demo_oauth2 (fst (snd demo_first)) (nt_tick (snd (snd demo_first)))"
    by (rule token_call [OF token_start _ first, of 0]) simp
  have "getToken demo_net_env (fst (snd demo_first), demo_net 20)
      = (Ok ''tok'', (fst (snd demo_first), (demo_net 20)\<lparr>nt_tick := 21\<rparr>)) \<and> nt_tick (snd (snd demo_first)) \<le> 20"
    by code_simp
  then show ?thesis
    using token_is_fresh [OF calls, of "demo_net 20"] by (simp add: demo_net_def)
qed

section \<open>Attempts\<close>

lemma iterates_Cons: "map (\<lambda>i. (f ^^ i) b) [0..<Suc k] = b # map (\<lambda>i. (f ^^ i) (f b)) [0..<k]"
  by (induction k) (simp_all add: funpow_swap1)

lemma retry_loop_0:
  "retry_loop env retry once 0 b (c, w) =
     (case re_ctx env (nt_tick w) of
        Some e \<Rightarrow> (Err e, (c, w\<lparr>nt_tick := Suc (nt_tick w)\<rparr>))
      | None \<Rightarrow> once (c, w\<lparr>nt_tick := Suc (nt_tick w)\<rparr>))"
  by (simp add: bindS_def check_ctx_def ask_def split: option.splits)

lemma retry_loop_Suc:
  "retry_loop env retry once (Suc n) b (c, w) =
     (case re_ctx env (nt_tick w) of
        Some e \<Rightarrow> (Err e, (c, w\<lparr>nt_tick := Suc (nt_tick w)\<rparr>))
      | None \<Rightarrow>
          (case once (c, w\<lparr>nt_tick := Suc (nt_tick w)\<rparr>) of
             (result, (c1, w1)) \<Rightarrow>
               if result = Panic \<or> \<not> should_retry retry result then (result, (c1, w1))
               else (case re_timer env b (nt_tick w1) of
                       Some e \<Rightarrow> (Err e, (c1, w1\<lparr>nt_waits := nt_waits w1 @ [b], nt_tick := Suc (nt_tick w1)\<rparr>))
                     | None \<Rightarrow> retry_loop env retry once n (next_backoff retry b)
                                (c1, w1\<lparr>nt_waits := nt_waits w1 @ [b], nt_tick := Suc (nt_tick w1)\<rparr>))))"
  by (cases "once (c, w\<lparr>nt_tick := Suc (nt_tick w)\<rparr>)"; cases "fst (once (c, w\<lparr>nt_tick := Suc (nt_tick w)\<rparr>))")
    (auto simp: bindS_def attemptS_def check_ctx_def wait_for_def liftS_def net_defs should_retry_def split: option.splits)

text \<open>
  What the loop needs of one attempt: it sends at most one request, a good one, and waits for nothing; a property of the
  client is kept.
\<close>

locale attempt =
  fixes once :: "('s \<times> Net, HttpAnswer) op" and ok :: "'s \<Rightarrow> bool" and good :: "OutRequest \<Rightarrow> bool"
  assumes one: "ok c \<Longrightarrow> once (c, w) = (result, (c', w')) \<Longrightarrow> ok c' \<and> nt_waits w' = nt_waits w
    \<and> (\<exists>xs. nt_sent w' = nt_sent w @ xs \<and> length xs \<le> 1 \<and> (\<forall>x \<in> set xs. good x))"
begin

lemma retries:
  assumes "ok c" "retry_loop env retry once n b (c, w) = (result, (c', w'))"
  shows "\<exists>k xs. ok c' \<and> k \<le> n \<and> nt_waits w' = nt_waits w @ map (\<lambda>i. (next_backoff retry ^^ i) b) [0..<k]
    \<and> nt_sent w' = nt_sent w @ xs \<and> length xs \<le> Suc k \<and> (\<forall>x \<in> set xs. good x)"
  using assms
proof (induction n arbitrary: b c w)
  case 0
  show ?case
  proof (cases "re_ctx env (nt_tick w)")
    case None
    with 0(2) have "once (c, w\<lparr>nt_tick := Suc (nt_tick w)\<rparr>) = (result, (c', w'))"
      unfolding retry_loop_0 by simp
    from one [OF 0(1) this] show ?thesis by (intro exI [of _ 0]) auto
  next
    case (Some e)
    with 0 show ?thesis unfolding retry_loop_0 by (intro exI [of _ 0] exI [of _ "[]"]) auto
  qed
next
  case (Suc n)
  show ?case
  proof (cases "re_ctx env (nt_tick w)")
    case None
    obtain r c1 w1 where o: "once (c, w\<lparr>nt_tick := Suc (nt_tick w)\<rparr>) = (r, (c1, w1))"
      by (metis prod_cases3)
    from one [OF Suc.prems(1) o] obtain xs where xs: "ok c1" "nt_waits w1 = nt_waits w" "nt_sent w1 = nt_sent w @ xs"
        "length xs \<le> 1" "\<forall>x \<in> set xs. good x"
      by auto
    note step = Suc.prems(2) [unfolded retry_loop_Suc None o option.case prod.case]
    let ?w = "w1\<lparr>nt_waits := nt_waits w1 @ [b], nt_tick := Suc (nt_tick w1)\<rparr>"
    consider "c' = c1" "w' = w1" | "c' = c1" "w' = ?w" | "retry_loop env retry once n (next_backoff retry b) (c1, ?w) = (result, (c', w'))"
      using step by (auto split: if_splits option.splits)
    then show ?thesis
    proof cases
      case 1
      with xs show ?thesis by (intro exI [of _ 0] exI [of _ xs]) simp
    next
      case 2
      with xs show ?thesis by (intro exI [of _ 1] exI [of _ xs]) simp
    next
      case 3
      obtain k ys where ys: "ok c'" "k \<le> n" "nt_waits w' = nt_waits ?w @ map (\<lambda>i. (next_backoff retry ^^ i) (next_backoff retry b)) [0..<k]"
          "nt_sent w' = nt_sent ?w @ ys" "length ys \<le> Suc k" "\<forall>x \<in> set ys. good x"
        using Suc.IH [OF xs(1) 3] by blast
      note cons = iterates_Cons [of "next_backoff retry" b k]
      show ?thesis
        by (intro exI [of _ "Suc k"] exI [of _ "xs @ ys"]) (use xs ys cons in \<open>auto simp del: upt_Suc\<close>)
    qed
  next
    case (Some e)
    with Suc.prems show ?thesis unfolding retry_loop_Suc by (intro exI [of _ 0] exI [of _ "[]"]) auto
  qed
qed

end


section \<open>Where requests go and how often\<close>

definition good_request :: "string \<Rightarrow> string \<Rightarrow> OutRequest \<Rightarrow> bool" where
  "good_request base path r \<longleftrightarrow> target_url base path = Ok (or_URL r) \<and> is_ok (url_Parse (or_URL r))"

lemma with_header_URL [simp]: "or_URL (with_header k v r) = or_URL r"
  by (simp add: with_header_def)

lemma set_headers_URL [simp]: "or_URL (set_headers hs r) = or_URL r"
  unfolding set_headers_def by (induction hs arbitrary: r) (auto split: prod.splits)

lemma NewRequest_Ok: "NewRequest verb url body = Ok r \<Longrightarrow> or_URL r = url \<and> is_ok (url_Parse url)"
  by (auto simp: NewRequest_def Let_def res_simps split: if_splits)

lemma authenticate_run:
  assumes "authenticate env r (c, w) = (result, (c', w'))"
  shows "rc_baseURL c' = rc_baseURL c \<and> nt_sent w' = nt_sent w \<and> nt_waits w' = nt_waits w
    \<and> (\<forall>r'. result = Ok r' \<longrightarrow> or_URL r' = or_URL r)"
proof (cases "rc_authenticator c")
  case None
  with assms show ?thesis by (auto simp: authenticate_def)
next
  case (Some a)
  obtain x a1 w1 where run: "auth_Apply env r (a, w) = (x, (a1, w1))"
    by (metis prod_cases3)
  with Some assms have "result = wrap_err ''remote: auth failed: %w'' [] x" "c' = c\<lparr>rc_authenticator := Some a1\<rparr>" "w' = w1"
    by (auto simp: authenticate_def)
  then show ?thesis
    using auths.sends_no_request [OF run] auths.keeps_request run by auto
qed

lemma executeOnce_one:
  assumes "rc_baseURL c = base" "executeOnce env verb path body headers (c, w) = (result, (c', w'))"
  shows "rc_baseURL c' = base \<and> nt_waits w' = nt_waits w
    \<and> (\<exists>xs. nt_sent w' = nt_sent w @ xs \<and> length xs \<le> 1 \<and> (\<forall>x \<in> set xs. good_request base path x))"
proof (cases "(\<exists>t r. target_url base path = Ok t \<and> NewRequest verb t (case body of None \<Rightarrow> NoBody | Some b \<Rightarrow> JSONBody b) = Ok r)")
  case False
  then have "c' = c \<and> w' = w"
    using assms by (auto simp: executeOnce_def bindS_def get_state_def liftS_def split: res.splits prod.splits)
  with assms(1) show ?thesis by auto
next
  case True
  then obtain t r where t: "target_url base path = Ok t" "NewRequest verb t (case body of None \<Rightarrow> NoBody | Some b \<Rightarrow> JSONBody b) = Ok r"
    by blast
  define r1 where "r1 = set_headers headers (set_headers (rc_headers c) (if body \<noteq> None then with_header ''Content-Type'' ''application/json'' r else r))"
  have r1: "or_URL r1 = t" "is_ok (url_Parse t)"
    using NewRequest_Ok [OF t(2)] by (auto simp: r1_def)
  obtain x c1 w1 where a: "authenticate env r1 (c, w) = (x, (c1, w1))"
    by (metis prod_cases3)
  have "executeOnce env verb path body headers (c, w) =
      (case x of Err e \<Rightarrow> (Err e, (c1, w1)) | Panic \<Rightarrow> (Panic, (c1, w1))
       | Ok r2 \<Rightarrow> (map_error mapNetworkError (re_exchange env (rc_timeout c) r2 (nt_tick w1)),
                   (c1, w1\<lparr>nt_sent := nt_sent w1 @ [r2], nt_tick := Suc (nt_tick w1)\<rparr>)))"
    using assms(1) t a by (simp add: executeOnce_def bindS_def net_defs liftS_def r1_def Let_def split: res.splits)
  then show ?thesis
    using assms authenticate_run [OF a] r1 t(1) by (auto simp: good_request_def split: res.splits)
qed

interpretation attempts: attempt "executeOnce env verb path body headers" "\<lambda>c. rc_baseURL c = base" "good_request base path"
  for env verb path body headers base
  by unfold_locales (rule executeOnce_one)

lemma executeWithRetry_run:
  assumes "executeWithRetry env verb path body headers retry (c, w) = (result, (c', w'))"
  shows "rc_baseURL c' = rc_baseURL c \<and> (\<exists>k xs. nt_sent w' = nt_sent w @ xs \<and> length xs \<le> Suc k \<and> (\<forall>x \<in> set xs. good_request (rc_baseURL c) path x)
    \<and> (case retry of None \<Rightarrow> k = 0 \<and> nt_waits w' = nt_waits w
       | Some r \<Rightarrow> k \<le> nat (rt_MaxRetries r)
           \<and> nt_waits w' = nt_waits w @ map (\<lambda>i. (next_backoff r ^^ i) (rt_InitialBackoff r)) [0..<k]))"
proof (cases retry)
  case None
  then have "\<exists>r. executeOnce env verb path body headers (c, w) = (r, (c', w'))"
    using assms by (auto simp: executeWithRetry_def Let_def bindS_def returnS_def split: res.splits prod.splits)
  then obtain r where "executeOnce env verb path body headers (c, w) = (r, (c', w'))" ..
  from executeOnce_one [OF refl this] None show ?thesis by auto
next
  case (Some r)
  show ?thesis
  proof (cases "rt_MaxRetries r < 0")
    case True
    with Some assms show ?thesis
      by (auto simp: executeWithRetry_def returnS_def intro!: exI [of _ 0] exI [of _ "[]"])
  next
    case False
    then have "\<exists>x. retry_loop env r (executeOnce env verb path body headers) (nat (rt_MaxRetries r)) (rt_InitialBackoff r) (c, w) = (x, (c', w'))"
      using Some assms by (auto simp: executeWithRetry_def Let_def bindS_def returnS_def split: res.splits prod.splits)
    then obtain x where
      "retry_loop env r (executeOnce env verb path body headers) (nat (rt_MaxRetries r)) (rt_InitialBackoff r) (c, w) = (x, (c', w'))" ..
    from attempts.retries [OF refl this] Some show ?thesis by auto
  qed
qed

lemma JSONRequest_run:
  assumes "JSONRequest env req response (c, w) = (result, (c', w'))"
  shows "\<exists>a. executeWithRetry env (rq_Method req) (full_path req) (rq_Body req) (rq_Headers req) (rq_Retry req) (c, w) = (a, (c', w'))"
  using assms by (auto simp: JSONRequest_def bindS_def liftS_def split: res.splits prod.splits option.splits)

lemma sent_origin:
  assumes "has_origin (rc_baseURL c) scheme authority" "JSONRequest env req response (c, w) = (result, (c', w'))"
  shows "\<exists>xs. nt_sent w' = nt_sent w @ xs \<and>
    (\<forall>r \<in> set xs. \<exists>u. url_Parse (or_URL r) = Ok u \<and> gu_Scheme u = to_lower scheme \<and> parseAuthority authority = Ok (gu_Host u))"
proof -
  obtain a where "executeWithRetry env (rq_Method req) (full_path req) (rq_Body req) (rq_Headers req) (rq_Retry req) (c, w) = (a, (c', w'))"
    using JSONRequest_run [OF assms(2)] by blast
  from executeWithRetry_run [OF this]
  obtain xs where xs: "nt_sent w' = nt_sent w @ xs" "\<forall>x \<in> set xs. good_request (rc_baseURL c) (full_path req) x"
    by blast
  have "\<exists>u. url_Parse (or_URL r) = Ok u \<and> gu_Scheme u = to_lower scheme \<and> parseAuthority authority = Ok (gu_Host u)"
    if "r \<in> set xs" for r
    using that xs(2) target_keeps_origin [OF assms(1)] by (fastforce simp: good_request_def is_ok_iff)
  with xs(1) show ?thesis by blast
qed

text \<open>
  C19: Credentials go to the configured service only. When the base URL of a client has a host, every request that
  \<open>JSONRequest\<close> hands to the HTTP client, with its headers and its token, has the scheme and the host of the base URL,
  whatever path and query the caller gave: an absolute URL, dots, an at sign, a colon or a question mark in it.
\<close>

theorem requests_stay_on_host:
  assumes "url_Parse (rc_baseURL c) = Ok base" "gu_Host base \<noteq> ''''"
    and "JSONRequest env req response (c, w) = (result, (c', w'))"
  shows "\<exists>xs. nt_sent w' = nt_sent w @ xs \<and>
    (\<forall>r \<in> set xs. \<exists>u. url_Parse (or_URL r) = Ok u \<and> gu_Scheme u = gu_Scheme base \<and> gu_Host u = gu_Host base)"
proof -
  obtain scheme authority where o: "has_origin (rc_baseURL c) scheme authority"
    using host_has_origin [OF assms(1,2)] by blast
  show ?thesis
    using sent_origin [OF o assms(3)] origin_determines_host [OF o assms(1)] by force
qed

definition demo_client :: Client where
  "demo_client =
     \<lparr>rc_timeout = 30 * second, rc_baseURL = ''http://fcau/api'', rc_authenticator = Some (Bearer \<lparr>bk_Token = ''t''\<rparr>), rc_headers = []\<rparr>"

definition demo_request :: "string \<Rightarrow> RemoteRequest" where
  "demo_request path =
     \<lparr>rq_Method = ''POST'', rq_Path = path, rq_Query = [(''id'', [''7''])], rq_Body = Some (JObj []), rq_Headers = [],
      rq_Retry = Some \<lparr>rt_MaxRetries = 2, rt_InitialBackoff = 500, rt_MaxBackoff = 800, rt_RetryableStatus = [503]\<rparr>\<rparr>"

text \<open>A service that answers 503.\<close>

definition demo_busy_env :: RemoteEnv where
  "demo_busy_env = demo_net_env\<lparr>re_exchange := \<lambda>_ _ _. Ok (demo_answer 503 [])\<rparr>"

definition demo_call :: "string \<Rightarrow> any option res \<times> (Client \<times> Net)" where
  "demo_call path = JSONRequest demo_busy_env (demo_request path) (None :: any decoder option) (demo_client, demo_net 0)"

lemma requests_stay_on_host_witness:
  "\<exists>xs. nt_sent (snd (snd (demo_call ''@evil:80//x''))) = xs \<and> length xs = 3 \<and>
    (\<forall>r \<in> set xs. \<exists>u. url_Parse (or_URL r) = Ok u \<and> gu_Scheme u = ''http'' \<and> gu_Host u = ''fcau'')"
proof -
  have base: "url_Parse (rc_baseURL demo_client) = Ok \<lparr>gu_Scheme = ''http'', gu_Opaque = [], gu_Host = ''fcau'', gu_Path = ''/api'', gu_RawQuery = [], gu_Fragment = []\<rparr>"
    by code_simp
  have "length (nt_sent (snd (snd (demo_call ''@evil:80//x'')))) = 3"
    by code_simp
  then show ?thesis
    using requests_stay_on_host [OF base, of demo_busy_env "demo_request ''@evil:80//x''" "None :: any decoder option" "demo_net 0"
        "fst (demo_call ''@evil:80//x'')" "fst (snd (demo_call ''@evil:80//x''))" "snd (snd (demo_call ''@evil:80//x''))"]
    by (simp add: demo_call_def demo_net_def)
qed

section \<open>The waits\<close>

lemma int64_id: "- (2 ^ 63) \<le> n \<Longrightarrow> n < 2 ^ 63 \<Longrightarrow> int64 n = n"
proof -
  assume "- (2 ^ 63) \<le> n" "n < 2 ^ 63"
  moreover have "int64 n = signed_take_bit 63 n"
    unfolding int64_def by transfer simp
  ultimately show ?thesis
    by (simp add: signed_take_bit_int_eq_self)
qed

lemma backoff_closed:
  assumes "0 \<le> rt_InitialBackoff r" "rt_InitialBackoff r \<le> 2 ^ 61" "0 \<le> rt_MaxBackoff r" "rt_MaxBackoff r \<le> 2 ^ 61"
  shows "(next_backoff r ^^ Suc i) (rt_InitialBackoff r) = min (rt_MaxBackoff r) (rt_InitialBackoff r * 2 ^ Suc i)"
proof (induction i)
  case 0
  have "int64 (rt_InitialBackoff r * 2) = rt_InitialBackoff r * 2"
    using assms by (intro int64_id) simp_all
  then show ?case by (simp add: next_backoff_def min_def)
next
  case (Suc i)
  let ?b = "min (rt_MaxBackoff r) (rt_InitialBackoff r * 2 ^ Suc i)"
  have "0 \<le> ?b" "?b \<le> 2 ^ 61"
    using assms by (auto simp: min_def)
  then have "int64 (?b * 2) = ?b * 2"
    by (intro int64_id) simp_all
  then have "next_backoff r ?b = min (rt_MaxBackoff r) (rt_InitialBackoff r * 2 ^ Suc (Suc i))"
    using assms by (auto simp: next_backoff_def min_def)
  with Suc show ?case by simp
qed

text \<open>
  C21: Retries are bounded and spaced. A request with a retry configuration hands at most \<open>MaxRetries + 1\<close> requests to the
  HTTP client and waits at most \<open>MaxRetries\<close> times; the first wait is the initial back-off (which \<open>MaxBackoff\<close> does not
  limit), the \<open>i\<close>-th after it is doubled \<open>i\<close> times and limited by \<open>MaxBackoff\<close>, without overflow for durations up to \<open>2^61\<close>
  nanoseconds (73 years).
\<close>

theorem retries_are_bounded:
  assumes "rq_Retry req = Some r" "0 \<le> rt_MaxRetries r"
    and "0 \<le> rt_InitialBackoff r" "rt_InitialBackoff r \<le> 2 ^ 61" "0 \<le> rt_MaxBackoff r" "rt_MaxBackoff r \<le> 2 ^ 61"
    and "JSONRequest env req response (c, w) = (result, (c', w'))"
  shows "\<exists>k xs. int k \<le> rt_MaxRetries r \<and> nt_sent w' = nt_sent w @ xs \<and> length xs \<le> Suc k
    \<and> nt_waits w' = nt_waits w @ map (\<lambda>i. if i = 0 then rt_InitialBackoff r else min (rt_MaxBackoff r) (rt_InitialBackoff r * 2 ^ i)) [0..<k]"
proof -
  obtain a where "executeWithRetry env (rq_Method req) (full_path req) (rq_Body req) (rq_Headers req) (rq_Retry req) (c, w) = (a, (c', w'))"
    using JSONRequest_run [OF assms(7)] by blast
  from executeWithRetry_run [OF this] assms(1)
  obtain k xs where k: "k \<le> nat (rt_MaxRetries r)" "nt_sent w' = nt_sent w @ xs" "length xs \<le> Suc k"
      "nt_waits w' = nt_waits w @ map (\<lambda>i. (next_backoff r ^^ i) (rt_InitialBackoff r)) [0..<k]"
    by auto
  have "(next_backoff r ^^ i) (rt_InitialBackoff r)
      = (if i = 0 then rt_InitialBackoff r else min (rt_MaxBackoff r) (rt_InitialBackoff r * 2 ^ i))" for i
    using backoff_closed [OF assms(3-6)] by (cases i) simp_all
  with k assms(2) show ?thesis
    by (intro exI [of _ k] exI [of _ xs]) auto
qed

lemma retries_are_bounded_witness:
  "\<exists>k xs. int k \<le> 2 \<and> nt_sent (snd (snd (demo_call ''x''))) = xs \<and> length xs \<le> Suc k
    \<and> [500, 800 :: int] = map (\<lambda>i. if i = 0 then 500 else min 800 (500 * 2 ^ i)) [0..<k]"
proof -
  have "nt_waits (snd (snd (demo_call ''x''))) = [500, 800]"
    by code_simp
  then show ?thesis
    using retries_are_bounded [of "demo_request ''x''" _ demo_busy_env "None :: any decoder option" demo_client "demo_net 0"
        "fst (demo_call ''x'')" "fst (snd (demo_call ''x''))" "snd (snd (demo_call ''x''))"]
    by (simp add: demo_call_def demo_request_def demo_net_def cong: if_cong)
qed


section \<open>Error replies\<close>

text \<open>
  For a caller that decodes the answer, an error reply whose body does not decode ends in the decoder's error: the status
  is lost. One that decodes is reported with the unread rest of its body, which is what remains of the server's message.
\<close>

lemma error_status_lost:
  assumes "executeWithRetry env (rq_Method req) (full_path req) (rq_Body req) (rq_Headers req) (rq_Retry req) s = (Ok (Some a), s')"
    and "ra_StatusCode a \<ge> 400"
  shows "JSONRequest env req (Some d) s =
    ((case bind_res (ra_JSON a) d of
        Ok v \<Rightarrow> Err (handleErrorResponse a (ra_Rest a))
      | Err e \<Rightarrow> Err (Wrapf ''remote: failed to decode response: %w'' [] e)
      | Panic \<Rightarrow> Panic), s')"
  using assms by (auto simp: JSONRequest_def bindS_def liftS_def json_result_def split: res.splits)

end
