(* ===== verification/RemoteManagerProperties.thy ===== *)
theory RemoteManagerProperties
  imports RemoteProperties
begin

text \<open>
  What the manager of \<open>pkg/remote/manager.go\<close> makes of the URL of a call: a call without a service id goes to the
  scheme and the host of its URL, and to that very URL exactly when a slash follows the URL of the service in it.
\<close>

section \<open>Clients and their configurations\<close>

text \<open>Every client was made from the configuration that is registered under its id.\<close>

definition clients_ok :: "Manager \<Rightarrow> bool" where
  "clients_ok m \<longleftrightarrow> (\<forall>i c. map_get (mg_clients m) i = Some c \<longrightarrow>
     (\<exists>cfg. map_get (mg_configs m) i = Some cfg \<and> rc_baseURL c = trim_suffix ''/'' (sc_URL cfg)))"

lemma clients_okD:
  assumes "clients_ok m" "map_get (mg_clients m) i = Some c"
  obtains cfg where "map_get (mg_configs m) i = Some cfg" "rc_baseURL c = trim_suffix ''/'' (sc_URL cfg)"
  using assms by (auto simp: clients_ok_def)

lemma fold_options_baseURL: "rc_baseURL (fold apply_option opts c) = rc_baseURL c"
proof (induction opts arbitrary: c)
  case Nil
  then show ?case by simp
next
  case (Cons x opts)
  then show ?case by (cases x) simp_all
qed

lemma new_client_baseURL: "new_client cfg = Ok c \<Longrightarrow> rc_baseURL c = trim_suffix ''/'' (sc_URL cfg)"
  by (auto simp: new_client_def NewClient_def res_simps fold_options_baseURL split: if_splits)

lemma GetClient_run:
  assumes "GetClient i (m, w) = (result, (m', w'))" "clients_ok m"
  shows "w' = w \<and> mg_configs m' = mg_configs m \<and> clients_ok m' \<and> (\<forall>c. result = Ok c \<longrightarrow> map_get (mg_clients m') i = Some c)"
proof (cases "map_get (mg_clients m) i")
  case (Some c)
  with assms show ?thesis by (auto simp: GetClient_def bindS_def get_state_def returnS_def)
next
  case None
  show ?thesis
  proof (cases "map_get (mg_configs m) i")
    case None
    with \<open>map_get (mg_clients m) i = None\<close> assms show ?thesis
      by (auto simp: GetClient_def bindS_def get_state_def failS_def)
  next
    case (Some cfg)
    show ?thesis
    proof (cases "new_client cfg")
      case (Ok c)
      note base = new_client_baseURL [OF Ok]
      from Ok None Some assms base show ?thesis
        by (auto simp: GetClient_def bindS_def net_defs liftS_def returnS_def clients_ok_def map_simps split: if_splits)
    next
      case (Err e)
      with None Some assms show ?thesis
        by (auto simp: GetClient_def bindS_def get_state_def liftS_def)
    next
      case Panic
      with None Some assms show ?thesis
        by (auto simp: GetClient_def bindS_def get_state_def liftS_def)
    qed
  qed
qed

lemma JSONRequest_baseURL: "JSONRequest env req response (c, w) = (result, (c', w')) \<Longrightarrow> rc_baseURL c' = rc_baseURL c"
  by (metis JSONRequest_run executeWithRetry_run)

lemma on_client_run:
  assumes "on_client i (JSONRequest env req response) (m, w) = (result, (m', w'))" "clients_ok m"
  shows "clients_ok m' \<and> mg_configs m' = mg_configs m \<and>
    (w' = w \<or> (\<exists>c c'. map_get (mg_clients m) i = Some c \<and> JSONRequest env req response (c, w) = (result, (c', w'))))"
proof (cases "map_get (mg_clients m) i")
  case None
  with assms show ?thesis by (auto simp: on_client_def)
next
  case (Some c)
  obtain r c1 w1 where run: "JSONRequest env req response (c, w) = (r, (c1, w1))"
    by (metis prod_cases3)
  with Some assms have "r = result" "w' = w1" "m' = m\<lparr>mg_clients := map_put i c1 (mg_clients m)\<rparr>"
    by (auto simp: on_client_def)
  with Some assms(2) run JSONRequest_baseURL [OF run] show ?thesis
    by (auto simp: clients_ok_def map_simps)
qed

text \<open>
  The managers the program can have: new, loaded, and after calls. Callers decode into a \<open>map[string]any\<close> or not at all.
\<close>

inductive manager_runs :: "RemoteEnv \<Rightarrow> Manager \<Rightarrow> bool" for env where
  run_new: "manager_runs env NewManager"
| run_load: "manager_runs env m \<Longrightarrow> LoadServices env path (m, w) = (result, (m', w')) \<Longrightarrow> manager_runs env m'"
| run_get: "manager_runs env m \<Longrightarrow> GetClient i (m, w) = (result', (m', w')) \<Longrightarrow> manager_runs env m'"
| run_call: "manager_runs env m \<Longrightarrow> manager_Call env i req (response :: obj decoder option) (m, w) = (result'', (m', w')) \<Longrightarrow> manager_runs env m'"

lemma GetClientByURL_run:
  assumes "GetClientByURL raw (m, w) = (result, (m', w'))" "clients_ok m"
  shows "w' = w \<and> mg_configs m' = mg_configs m \<and> clients_ok m'
    \<and> (\<forall>c i. result = Ok (c, i) \<longrightarrow> map_get (mg_clients m') i = Some c
         \<and> (\<exists>v. url_Parse raw = Ok v \<and> find_service v (mg_configs m) = Some i))"
proof (cases "prefix ''http'' raw \<and> (\<exists>v i. url_Parse raw = Ok v \<and> find_service v (mg_configs m) = Some i)")
  case False
  with assms show ?thesis
    by (auto simp: GetClientByURL_def bindS_def get_state_def liftS_def failS_def split: res.splits option.splits if_splits)
next
  case True
  then obtain v i where v: "prefix ''http'' raw" "url_Parse raw = Ok v" "find_service v (mg_configs m) = Some i"
    by blast
  obtain r m1 w1 where run: "GetClient i (m, w) = (r, (m1, w1))"
    by (metis prod_cases3)
  with v assms(1) have "(result, (m', w')) = (case r of Ok c \<Rightarrow> (Ok (c, i), (m1, w1))
      | Err e \<Rightarrow> (Err (Wrapf ''remote: failed to create client for matched service %q: %w'' [i] e), (m1, w1)) | Panic \<Rightarrow> (Panic, (m1, w1)))"
    by (auto simp: GetClientByURL_def bindS_def get_state_def liftS_def returnS_def wrapS_def split: res.splits)
  with GetClient_run [OF run assms(2)] v show ?thesis
    by (auto split: res.splits)
qed

lemma Call_by_id_run:
  assumes "manager_Call env i req response (m, w) = (result, (m', w'))" "clients_ok m" "i \<noteq> ''''"
  shows "clients_ok m' \<and> mg_configs m' = mg_configs m \<and>
    (w' = w \<or> (\<exists>cfg c r c'. map_get (mg_configs m) i = Some cfg \<and> rc_baseURL c = trim_suffix ''/'' (sc_URL cfg)
       \<and> JSONRequest env req response (c, w) = (r, (c', w'))))"
proof -
  obtain x m1 w1 where run: "GetClient i (m, w) = (x, (m1, w1))"
    by (metis prod_cases3)
  note get = GetClient_run [OF run assms(2)]
  show ?thesis
  proof (cases x)
    case (Ok c)
    with run assms(1,3) have "on_client i (JSONRequest env req response) (m1, w1) = (result, (m', w'))"
      by (auto simp: manager_Call_def bindS_def)
    moreover obtain cfg where "map_get (mg_configs m) i = Some cfg" "rc_baseURL c = trim_suffix ''/'' (sc_URL cfg)"
      using get Ok clients_okD [of m1 i c] by auto
    ultimately show ?thesis
      using on_client_run [of i env req response m1 w1 result m' w'] get Ok by fastforce
  next
    case (Err e)
    with run assms(1,3) get show ?thesis by (auto simp: manager_Call_def bindS_def)
  next
    case Panic
    with run assms(1,3) get show ?thesis by (auto simp: manager_Call_def bindS_def)
  qed
qed

lemma Call_by_url_run:
  assumes "manager_Call env '''' req response (m, w) = (result, (m', w'))" "clients_ok m"
  shows "clients_ok m' \<and> mg_configs m' = mg_configs m \<and>
    (w' = w \<or> (\<exists>v i cfg c r c'. url_Parse (rq_Path req) = Ok v \<and> find_service v (mg_configs m) = Some i
       \<and> map_get (mg_configs m) i = Some cfg \<and> rc_baseURL c = trim_suffix ''/'' (sc_URL cfg)
       \<and> JSONRequest env (req\<lparr>rq_Path := trim_prefix (sc_URL cfg) (rq_Path req)\<rparr>) response (c, w) = (r, (c', w'))))"
proof -
  obtain x m1 w1 where run: "GetClientByURL (rq_Path req) (m, w) = (x, (m1, w1))"
    by (metis prod_cases3)
  note get = GetClientByURL_run [OF run assms(2)]
  show ?thesis
  proof (cases x)
    case (Ok y)
    then obtain c i where x: "x = Ok (c, i)"
      by (cases y) simp
    with run assms(1) have "on_client i (JSONRequest env (relative_to (mg_configs m1) i req) response) (m1, w1) = (result, (m', w'))"
      by (auto simp: manager_Call_def bindS_def get_state_def)
    moreover obtain cfg where "map_get (mg_configs m) i = Some cfg" "rc_baseURL c = trim_suffix ''/'' (sc_URL cfg)"
      using get x clients_okD [of m1 i c] by auto
    ultimately show ?thesis
      using on_client_run [of i env _ response m1 w1 result m' w'] get x by (fastforce simp: relative_to_def)
  next
    case (Err e)
    with run assms(1) get show ?thesis by (auto simp: manager_Call_def bindS_def)
  next
    case Panic
    with run assms(1) get show ?thesis by (auto simp: manager_Call_def bindS_def)
  qed
qed

lemma LoadServices_run: "LoadServices env path (m, w) = (result, (m', w')) \<Longrightarrow> m' = m \<or> mg_clients m' = []"
  by (auto simp: LoadServices_def bindS_def wrapS_def liftS_def net_defs split: res.splits prod.splits)

lemma clients_ok_always: "manager_runs env m \<Longrightarrow> clients_ok m"
proof (induction rule: manager_runs.induct)
  case run_new
  then show ?case by (simp add: clients_ok_def NewManager_def)
next
  case (run_load m path w result m' w')
  then show ?case
    using LoadServices_run [OF run_load.hyps(2)] by (auto simp: clients_ok_def)
next
  case (run_get m i w result' m' w')
  then show ?case
    using GetClient_run [OF run_get.hyps(2) run_get.IH] by simp
next
  case (run_call m i req response w result'' m' w')
  then show ?case
    using Call_by_url_run Call_by_id_run by (cases "i = ''''") blast+
qed

section \<open>Calls by URL\<close>

lemma find_service_matches:
  "find_service v configs = Some i \<Longrightarrow> distinct (map fst configs) \<Longrightarrow> \<exists>cfg. map_get configs i = Some cfg \<and> matches_base v cfg"
  by (induction v configs rule: find_service.induct) (auto split: if_splits simp: rev_image_eqI)


lemma fold_add_config_distinct:
  "distinct (map fst configs) \<Longrightarrow> distinct (map fst (fold add_config cfgs configs))"
  by (induction cfgs arbitrary: configs) (auto simp: add_config_def distinct_update)

lemma configs_distinct: "manager_runs env m \<Longrightarrow> distinct (map fst (mg_configs m))"
proof (induction rule: manager_runs.induct)
  case run_new
  then show ?case by (simp add: NewManager_def)
next
  case (run_load m path w result m' w')
  have "m' = m \<or> (\<exists>cfgs. mg_configs m' = fold add_config cfgs [])"
    using run_load.hyps(2) by (auto simp: LoadServices_def bindS_def wrapS_def liftS_def net_defs split: res.splits prod.splits)
  then show ?case
    using run_load.IH fold_add_config_distinct [of "[]"] by auto
next
  case (run_get m i w result' m' w')
  then show ?case
    using GetClient_run [OF run_get.hyps(2) clients_ok_always] by simp
next
  case (run_call m i req response w result'' m' w')
  note ok = clients_ok_always [OF run_call.hyps(1)]
  have "mg_configs m' = mg_configs m"
  proof (cases "i = ''''")
    case True
    with run_call.hyps(2) have "manager_Call env '''' req response (m, w) = (result'', (m', w'))"
      by simp
    from Call_by_url_run [OF this ok] show ?thesis by blast
  next
    case False
    from Call_by_id_run [OF run_call.hyps(2) ok False] show ?thesis by blast
  qed
  with run_call.IH show ?case by simp
qed

lemma matches_base_origin:
  assumes "matches_base v cfg" "gu_Host v \<noteq> ''''"
  obtains scheme authority where "has_origin (trim_suffix ''/'' (sc_URL cfg)) scheme authority"
    "to_lower scheme = gu_Scheme v" "parseAuthority authority = Ok (gu_Host v)"
proof -
  obtain b where b: "url_Parse (sc_URL cfg) = Ok b" "gu_Scheme v = gu_Scheme b" "gu_Host v = gu_Host b"
    using assms(1) by (auto simp: matches_base_def split: res.splits)
  then obtain scheme authority where o: "has_origin (sc_URL cfg) scheme authority"
    using host_has_origin assms(2) by metis
  then have "has_origin (trim_suffix ''/'' (sc_URL cfg)) scheme authority"
    using trim_suffix_slash [of "sc_URL cfg"] origin_of_trimmed by metis
  with that origin_determines_host [OF o b(1)] b show ?thesis by simp
qed

text \<open>
  A call without a service id stays with the server it names. Whatever services are registered, in whatever order
  the registry is visited, every request of such a call has the scheme and the host of the URL of the call.
\<close>

theorem call_by_url_stays_on_host:
  assumes "manager_runs env m" "url_Parse (rq_Path req) = Ok v" "gu_Host v \<noteq> ''''"
    and "manager_Call env '''' req response (m, w) = (result, (m', w'))"
  shows "\<exists>xs. nt_sent w' = nt_sent w @ xs \<and>
    (\<forall>r \<in> set xs. \<exists>u. url_Parse (or_URL r) = Ok u \<and> gu_Scheme u = gu_Scheme v \<and> gu_Host u = gu_Host v)"
proof (cases "w' = w")
  case True
  then show ?thesis by simp
next
  case False
  with Call_by_url_run [OF assms(4) clients_ok_always [OF assms(1)]] assms(2)
  obtain i cfg c r c' where run: "find_service v (mg_configs m) = Some i" "map_get (mg_configs m) i = Some cfg"
      "rc_baseURL c = trim_suffix ''/'' (sc_URL cfg)"
      "JSONRequest env (req\<lparr>rq_Path := trim_prefix (sc_URL cfg) (rq_Path req)\<rparr>) response (c, w) = (r, (c', w'))"
    by auto
  have "matches_base v cfg"
    using find_service_matches [OF run(1) configs_distinct [OF assms(1)]] run(2) by simp
  then obtain scheme authority where "has_origin (rc_baseURL c) scheme authority"
      "to_lower scheme = gu_Scheme v" "parseAuthority authority = Ok (gu_Host v)"
    using matches_base_origin assms(3) run(3) by metis
  with sent_origin [OF _ run(4)] show ?thesis by fastforce
qed

text \<open>
  C22: Take a call without a service id and without query parameters, whose URL is, character by character, the URL of
  the service it resolves to (which does not end in a slash) and a rest that is not itself an absolute http or https
  URL. Whatever is sent is then sent to the URL of the call exactly when the rest begins with a slash. The comparison
  of paths knows no end of a component: a URL of the neighbour \<open>/api-v2\<close> resolves to the service at \<open>/api\<close> and is sent to
  \<open>/api/-v2\<close>, and the service's own URL gets a slash.
\<close>

theorem call_by_url_reaches_url:
  assumes "manager_runs env m" "url_Parse (rq_Path req) = Ok v" "find_service v (mg_configs m) = Some i"
    and "map_get (mg_configs m) i = Some cfg" "\<not> suffix ''/'' (sc_URL cfg)"
    and "rq_Path req = sc_URL cfg @ rest" "rq_Query req = []" "\<not> prefix ''http://'' rest" "\<not> prefix ''https://'' rest"
    and "manager_Call env '''' req response (m, w) = (result, (m', w'))"
  shows "\<exists>xs. nt_sent w' = nt_sent w @ xs \<and> (xs = [] \<or> ((\<forall>r \<in> set xs. or_URL r = rq_Path req) \<longleftrightarrow> prefix ''/'' rest))"
proof (cases "w' = w")
  case True
  then show ?thesis by simp
next
  case False
  with Call_by_url_run [OF assms(10) clients_ok_always [OF assms(1)]] assms(2,3,4)
  obtain c r c' where run: "rc_baseURL c = trim_suffix ''/'' (sc_URL cfg)"
      "JSONRequest env (req\<lparr>rq_Path := trim_prefix (sc_URL cfg) (rq_Path req)\<rparr>) response (c, w) = (r, (c', w'))"
    by auto
  have path: "full_path (req\<lparr>rq_Path := trim_prefix (sc_URL cfg) (rq_Path req)\<rparr>) = rest"
    using assms(6,7) by (simp add: full_path_def trim_prefix_def)
  obtain a where "executeWithRetry env (rq_Method req) rest (rq_Body req) (rq_Headers req) (rq_Retry req) (c, w) = (a, (c', w'))"
    using JSONRequest_run [OF run(2)] path by auto
  from executeWithRetry_run [OF this]
  obtain xs where xs: "nt_sent w' = nt_sent w @ xs" "\<forall>x \<in> set xs. good_request (rc_baseURL c) rest x"
    by blast
  have base: "rc_baseURL c = sc_URL cfg" "trim_suffix ''/'' (sc_URL cfg) = sc_URL cfg"
    using run(1) assms(5) by (simp_all add: trim_suffix_def)
  have "or_URL x = sc_URL cfg @ ''/'' @ trim_prefix ''/'' rest" if "x \<in> set xs" for x
    using that xs(2) base assms(8,9) by (auto simp: good_request_def target_url_def)
  moreover have "sc_URL cfg @ ''/'' @ trim_prefix ''/'' rest = rq_Path req \<longleftrightarrow> prefix ''/'' rest"
    using assms(6) by (cases rest) (auto simp: trim_prefix_def)
  ultimately show ?thesis
    using xs(1) by (cases xs) auto
qed

definition demo_services :: any where
  "demo_services = JObj [(''version'', JStr ''1''), (''services'', JArr [JObj [(''id'', JStr ''fcau''), (''url'', JStr ''http://fcau/api/''),
     (''timeout'', JStr ''5s''), (''auth'', JObj [(''type'', JStr ''api_key''), (''options'', JObj [(''key'', JStr ''x-key''), (''value'', JStr ''k'')])])]])]"

definition demo_registry_env :: RemoteEnv where
  "demo_registry_env = demo_busy_env\<lparr>re_file := \<lambda>_ _. Ok (Ok demo_services)\<rparr>"

definition demo_manager :: Manager where
  "demo_manager = fst (snd (LoadServices demo_registry_env ''services.json'' (NewManager, demo_net 0)))"

definition neighbour_request :: RemoteRequest where
  "neighbour_request = (demo_request ''http://fcau/api-v2/x'')\<lparr>rq_Query := []\<rparr>"

definition demo_manager_call :: "obj option res \<times> (Manager \<times> Net)" where
  "demo_manager_call = manager_Call demo_registry_env '''' neighbour_request None (demo_manager, demo_net 1)"

lemma demo_manager_runs: "manager_runs demo_registry_env demo_manager"
proof -
  obtain r m' w' where l: "LoadServices demo_registry_env ''services.json'' (NewManager, demo_net 0) = (r, (m', w'))"
    by (metis prod_cases3)
  from run_load [OF run_new l] l show ?thesis
    by (simp add: demo_manager_def)
qed

definition neighbour_url :: URL where
  "neighbour_url = \<lparr>gu_Scheme = ''http'', gu_Opaque = [], gu_Host = ''fcau'', gu_Path = ''/api-v2/x'', gu_RawQuery = [], gu_Fragment = []\<rparr>"

lemma neighbour_parsed: "url_Parse (rq_Path neighbour_request) = Ok neighbour_url"
  by code_simp

lemma call_by_url_stays_on_host_witness:
  "\<forall>r \<in> set (nt_sent (snd (snd demo_manager_call))). \<exists>u. url_Parse (or_URL r) = Ok u \<and> gu_Scheme u = ''http'' \<and> gu_Host u = ''fcau''"
  using call_by_url_stays_on_host [OF demo_manager_runs neighbour_parsed, of "None :: obj decoder option" "demo_net 1"
      "fst demo_manager_call" "fst (snd demo_manager_call)" "snd (snd demo_manager_call)"]
  by (auto simp: demo_manager_call_def demo_net_def neighbour_url_def)

lemma call_by_url_reaches_url_witness:
  "nt_sent (snd (snd demo_manager_call)) \<noteq> [] \<and> \<not> (\<forall>r \<in> set (nt_sent (snd (snd demo_manager_call))). or_URL r = ''http://fcau/api-v2/x'')"
proof -
  obtain cfg where cfg: "map_get (mg_configs demo_manager) ''fcau'' = Some cfg" "sc_URL cfg = ''http://fcau/api''"
    "find_service neighbour_url (mg_configs demo_manager) = Some ''fcau''"
  proof -
    have "map_option sc_URL (map_get (mg_configs demo_manager) ''fcau'') = Some ''http://fcau/api''
        \<and> find_service neighbour_url (mg_configs demo_manager) = Some ''fcau''"
      by code_simp
    then show ?thesis using that by auto
  qed
  have sent: "length (nt_sent (snd (snd demo_manager_call))) = 3"
    by code_simp
  have path: "rq_Path neighbour_request = sc_URL cfg @ ''-v2/x''" "rq_Query neighbour_request = []"
    by (simp_all add: neighbour_request_def demo_request_def cfg(2))
  have "\<exists>xs. nt_sent (snd (snd demo_manager_call)) = [] @ xs \<and>
      (xs = [] \<or> ((\<forall>r \<in> set xs. or_URL r = rq_Path neighbour_request) \<longleftrightarrow> prefix ''/'' ''-v2/x''))"
    using call_by_url_reaches_url [OF demo_manager_runs neighbour_parsed cfg(3,1) _ path, of "None :: obj decoder option" "demo_net 1"
        "fst demo_manager_call" "fst (snd demo_manager_call)" "snd (snd demo_manager_call)"]
    by (simp add: demo_manager_call_def demo_net_def cfg(2) suffix_def)
  with sent path(1) cfg(2) show ?thesis by (auto simp: demo_request_def neighbour_request_def)
qed

end
