(* ===== verification/Configuration.thy ===== *)
theory Configuration
  imports GoNet Authentication Uploads
begin

text \<open>
  The configuration of the backend: \<open>internal/config/config.go\<close> with the validations of the packages it configures
  (\<open>internal/validation\<close> and the \<open>config.go\<close> of the database, the storage, the authentication and Temporal), and
  \<open>internal/middleware/cors.go\<close>, which works from it. The environment of the process is a function from names to values, empty
  where a variable is not set.
\<close>

section \<open>Reading the environment\<close>

type_synonym Environment = "string \<Rightarrow> string"

definition getEnvOrDefault :: "Environment \<Rightarrow> string \<Rightarrow> string \<Rightarrow> string" where
  "getEnvOrDefault env key defaultValue = (if trim_space (env key) \<noteq> '''' then trim_space (env key) else defaultValue)"

definition getIntEnvOrDefault :: "Environment \<Rightarrow> string \<Rightarrow> int \<Rightarrow> int" where
  "getIntEnvOrDefault env key defaultValue =
     (if trim_space (env key) \<noteq> '''' then (case strconv_Atoi (trim_space (env key)) of Ok n \<Rightarrow> sint n | _ \<Rightarrow> defaultValue)
      else defaultValue)"

text \<open>\<open>strconv.ParseBool\<close>.\<close>

definition ParseBool :: "string \<Rightarrow> bool option" where
  "ParseBool s =
     (if s \<in> set [''1'', ''t'', ''T'', ''true'', ''TRUE'', ''True''] then Some True
      else if s \<in> set [''0'', ''f'', ''F'', ''false'', ''FALSE'', ''False''] then Some False
      else None)"

definition getBoolOrDefault :: "Environment \<Rightarrow> string \<Rightarrow> bool \<Rightarrow> bool" where
  "getBoolOrDefault env key defaultValue =
     (if trim_space (env key) \<noteq> '''' then (case ParseBool (trim_space (env key)) of Some b \<Rightarrow> b | None \<Rightarrow> defaultValue)
      else defaultValue)"

definition getDurationOrDefault :: "Environment \<Rightarrow> string \<Rightarrow> int \<Rightarrow> int" where
  "getDurationOrDefault env key defaultValue =
     (if trim_space (env key) \<noteq> '''' then (case ParseDuration (trim_space (env key)) of Ok d \<Rightarrow> d | _ \<Rightarrow> defaultValue)
      else defaultValue)"

definition parseCommaSeparated :: "string \<Rightarrow> string list" where
  "parseCommaSeparated s =
     (if s = '''' then [] else filter (\<lambda>p. p \<noteq> '''') (map trim_space (split_on CHR '','' s)))"

datatype LogLevel = LevelDebug | LevelInfo | LevelWarn | LevelError

definition parseLogLevel :: "string \<Rightarrow> LogLevel" where
  "parseLogLevel level =
     (let l = to_lower level in
      if l = ''debug'' then LevelDebug else if l = ''info'' then LevelInfo
      else if l = ''warn'' then LevelWarn else if l = ''error'' then LevelError else LevelInfo)"

section \<open>The structs\<close>

record DatabaseConfig =
  db_Host :: string
  db_Port :: int
  db_Username :: string
  db_Password :: string
  db_Name :: string
  db_SSLMode :: string
  db_MaxIdleConns :: int
  db_MaxOpenConns :: int
  db_MaxConnLifetimeSeconds :: int

record ServerConfig =
  sv_Port :: int
  sv_ServiceURL :: string
  sv_ServicesConfigPath :: string
  sv_Debug :: bool
  sv_LogLevel :: LogLevel

record CORSConfig =
  co_AllowedOrigins :: "string list"
  co_AllowedMethods :: "string list"
  co_AllowedHeaders :: "string list"
  co_AllowCredentials :: bool
  co_MaxAge :: int

text \<open>The fields of the storage that only its validation and the object store's library read.\<close>

record StorageSettings = StorageConfig +
  ss_S3Endpoint :: string
  ss_S3Region :: string
  ss_S3AccessKey :: string
  ss_S3SecretKey :: string
  ss_S3UseSSL :: bool

record NotificationConfig =
  nc_SMTPHost :: string
  nc_SMTPPort :: int
  nc_SMTPUsername :: string
  nc_SMTPPassword :: string
  nc_SMTPSender :: string
  nc_TemplateRoot :: string

record TemporalConfig =
  tp_Host :: string
  tp_Port :: int
  tp_Namespace :: string

record Config =
  cf_Database :: DatabaseConfig
  cf_Server :: ServerConfig
  cf_CORS :: CORSConfig
  cf_Storage :: StorageSettings
  cf_Auth :: AuthConfig
  cf_Notification :: NotificationConfig
  cf_Temporal :: TemporalConfig

section \<open>Validation\<close>

text \<open>A check is an error or nothing; the first error is the result.\<close>

definition require :: "bool \<Rightarrow> string \<Rightarrow> string list \<Rightarrow> unit res" where
  "require holds message args = (if holds then Ok () else Err (Errorf message args))"

fun all_checks :: "unit res list \<Rightarrow> unit res" where
  "all_checks [] = Ok ()"
| "all_checks (c # cs) = bind_res c (\<lambda>_. all_checks cs)"

definition HTTPURL :: "string \<Rightarrow> string \<Rightarrow> unit res" where
  "HTTPURL name v =
     (case ParseRequestURI (trim_space v) of
        Ok parsed \<Rightarrow>
          if gu_Scheme parsed = '''' \<or> gu_Host parsed = '''' then Err (Errorf ''%s must be a valid absolute URL'' [name])
          else if gu_Scheme parsed \<noteq> ''http'' \<and> gu_Scheme parsed \<noteq> ''https'' then Err (Errorf ''%s must use http or https'' [name])
          else Ok ()
      | _ \<Rightarrow> Err (Errorf ''%s must be a valid absolute URL'' [name]))"

definition TCPPort :: "string \<Rightarrow> int \<Rightarrow> unit res" where
  "TCPPort name port =
     (if port < 1 \<or> port > 65535 then Err (Errorf ''%s must be between 1 and 65535'' [name]) else Ok ())"

definition database_Validate :: "DatabaseConfig \<Rightarrow> unit res" where
  "database_Validate c = all_checks
     [require (db_Host c \<noteq> '''') ''DB_HOST is required'' [],
      require (db_Username c \<noteq> '''') ''DB_USERNAME is required'' [],
      require (db_Password c \<noteq> '''') ''DB_PASSWORD is required'' [],
      require (db_Name c \<noteq> '''') ''DB_NAME is required'' []]"

definition storage_Validate :: "StorageSettings \<Rightarrow> unit res" where
  "storage_Validate c =
     bind_res
       (if sc_Type c = ''local'' then all_checks
          [require (sc_LocalBaseDir c \<noteq> '''') ''STORAGE_LOCAL_BASE_DIR is required when STORAGE_TYPE=local'' [],
           require (sc_LocalPublicURL c \<noteq> '''') ''STORAGE_LOCAL_PUBLIC_URL is required when STORAGE_TYPE=local'' [],
           HTTPURL ''STORAGE_LOCAL_PUBLIC_URL'' (sc_LocalPublicURL c),
           require (sc_LocalPutSecret c \<noteq> '''') ''STORAGE_LOCAL_PUT_SECRET is required when STORAGE_TYPE=local'' []]
        else if sc_Type c = ''s3'' then all_checks
          [require (ss_S3Endpoint c \<noteq> '''') ''STORAGE_S3_ENDPOINT is required when STORAGE_TYPE=s3'' [],
           HTTPURL ''STORAGE_S3_ENDPOINT'' (ss_S3Endpoint c),
           require (sc_S3Bucket c \<noteq> '''') ''STORAGE_S3_BUCKET is required when STORAGE_TYPE=s3'' [],
           require (ss_S3Region c \<noteq> '''') ''STORAGE_S3_REGION is required when STORAGE_TYPE=s3'' [],
           require ((ss_S3AccessKey c = '''') = (ss_S3SecretKey c = ''''))
             ''STORAGE_S3_ACCESS_KEY and STORAGE_S3_SECRET_KEY must be configured together'' [],
           (if sc_S3PublicURL c \<noteq> '''' then HTTPURL ''STORAGE_S3_PUBLIC_URL'' (sc_S3PublicURL c) else Ok ())]
        else Err (Errorf ''unsupported STORAGE_TYPE: %s'' [sc_Type c]))
       (\<lambda>_. require (sc_PresignTTL c > 0) ''STORAGE_PRESIGN_TTL must be greater than zero'' [])"

definition auth_Validate :: "AuthConfig \<Rightarrow> unit res" where
  "auth_Validate c = all_checks
     [require (ac_JWKSURL c \<noteq> '''') ''AUTH_JWKS_URL is required'' [],
      HTTPURL ''AUTH_JWKS_URL'' (ac_JWKSURL c),
      require (ac_Issuer c \<noteq> '''') ''AUTH_ISSUER is required'' [],
      HTTPURL ''AUTH_ISSUER'' (ac_Issuer c),
      require (ac_Audience c \<noteq> '''') ''AUTH_AUDIENCE is required'' [],
      require (ac_ClientIDs c \<noteq> []) ''AUTH_CLIENT_IDS is required'' []]"

definition temporal_Validate :: "TemporalConfig \<Rightarrow> unit res" where
  "temporal_Validate c = all_checks
     [require (tp_Host c \<noteq> '''') ''TEMPORAL_HOST is required'' [],
      TCPPort ''TEMPORAL_PORT'' (tp_Port c),
      require (tp_Namespace c \<noteq> '''') ''TEMPORAL_NAMESPACE is required'' []]"

definition check_origin :: "bool \<Rightarrow> string \<Rightarrow> unit res" where
  "check_origin debug origin =
     (if origin = ''*'' then require debug ''CORS_ALLOWED_ORIGINS cannot contain '*' in production (SERVER_DEBUG=false)'' []
      else HTTPURL ''CORS_ALLOWED_ORIGINS'' origin)"

definition Validate :: "Config \<Rightarrow> unit res" where
  "Validate c = all_checks
     ([require (sv_ServiceURL (cf_Server c) \<noteq> '''') ''SERVICE_URL is required'' [],
       HTTPURL ''SERVICE_URL'' (sv_ServiceURL (cf_Server c)),
       wrap_err ''invalid database configuration: %w'' [] (database_Validate (cf_Database c)),
       wrap_err ''invalid storage configuration: %w'' [] (storage_Validate (cf_Storage c)),
       wrap_err ''invalid auth configuration: %w'' [] (auth_Validate (cf_Auth c)),
       wrap_err ''invalid temporal configuration: %w'' [] (temporal_Validate (cf_Temporal c)),
       require (co_AllowedOrigins (cf_CORS c) \<noteq> []) ''CORS_ALLOWED_ORIGINS is required'' []]
      @ map (check_origin (sv_Debug (cf_Server c))) (co_AllowedOrigins (cf_CORS c)))"

section \<open>Load\<close>

definition load_database :: "Environment \<Rightarrow> DatabaseConfig" where
  "load_database env =
     \<lparr>db_Host = getEnvOrDefault env ''DB_HOST'' ''localhost'', db_Port = getIntEnvOrDefault env ''DB_PORT'' 5432,
      db_Username = getEnvOrDefault env ''DB_USERNAME'' ''postgres'', db_Password = env ''DB_PASSWORD'',
      db_Name = getEnvOrDefault env ''DB_NAME'' ''nsw_db'', db_SSLMode = getEnvOrDefault env ''DB_SSLMODE'' ''disable'',
      db_MaxIdleConns = getIntEnvOrDefault env ''DB_MAX_IDLE_CONNS'' 10, db_MaxOpenConns = getIntEnvOrDefault env ''DB_MAX_OPEN_CONNS'' 100,
      db_MaxConnLifetimeSeconds = getIntEnvOrDefault env ''DB_MAX_CONN_LIFETIME_SECONDS'' 3600\<rparr>"

definition load_port :: "Environment \<Rightarrow> int" where
  "load_port env = getIntEnvOrDefault env ''SERVER_PORT'' 8080"

definition service_url :: "Environment \<Rightarrow> string" where
  "service_url env = getEnvOrDefault env ''SERVICE_URL'' (''http://localhost:'' @ show_int (load_port env))"

definition load_server :: "Environment \<Rightarrow> ServerConfig" where
  "load_server env =
     \<lparr>sv_Port = load_port env, sv_ServiceURL = service_url env,
      sv_ServicesConfigPath = getEnvOrDefault env ''SERVICES_CONFIG_PATH'' ''configs/services.json'',
      sv_Debug = getBoolOrDefault env ''SERVER_DEBUG'' True,
      sv_LogLevel = parseLogLevel (getEnvOrDefault env ''SERVER_LOG_LEVEL'' ''info'')\<rparr>"

definition load_cors :: "Environment \<Rightarrow> CORSConfig" where
  "load_cors env =
     \<lparr>co_AllowedOrigins = parseCommaSeparated (getEnvOrDefault env ''CORS_ALLOWED_ORIGINS'' ''*''),
      co_AllowedMethods = parseCommaSeparated (getEnvOrDefault env ''CORS_ALLOWED_METHODS'' ''GET,POST,PUT,DELETE,OPTIONS''),
      co_AllowedHeaders = parseCommaSeparated (getEnvOrDefault env ''CORS_ALLOWED_HEADERS'' ''Content-Type,Authorization''),
      co_AllowCredentials = getBoolOrDefault env ''CORS_ALLOW_CREDENTIALS'' True,
      co_MaxAge = getIntEnvOrDefault env ''CORS_MAX_AGE'' 3600\<rparr>"

definition load_storage :: "Environment \<Rightarrow> StorageSettings" where
  "load_storage env =
     \<lparr>sc_Type = getEnvOrDefault env ''STORAGE_TYPE'' ''local'', sc_LocalBaseDir = getEnvOrDefault env ''STORAGE_LOCAL_BASE_DIR'' ''./bucket'',
      sc_LocalPublicURL = getEnvOrDefault env ''STORAGE_LOCAL_PUBLIC_URL'' (service_url env),
      sc_LocalPutSecret = getEnvOrDefault env ''STORAGE_LOCAL_PUT_SECRET'' ''local-dev-secret'',
      sc_S3Bucket = getEnvOrDefault env ''STORAGE_S3_BUCKET'' ''nsw-uploads'', sc_S3PublicURL = getEnvOrDefault env ''STORAGE_S3_PUBLIC_URL'' '''',
      sc_PresignTTL = getDurationOrDefault env ''STORAGE_PRESIGN_TTL'' (15 * minute),
      ss_S3Endpoint = getEnvOrDefault env ''STORAGE_S3_ENDPOINT'' '''', ss_S3Region = getEnvOrDefault env ''STORAGE_S3_REGION'' ''us-east-1'',
      ss_S3AccessKey = getEnvOrDefault env ''STORAGE_S3_ACCESS_KEY'' '''', ss_S3SecretKey = getEnvOrDefault env ''STORAGE_S3_SECRET_KEY'' '''',
      ss_S3UseSSL = getBoolOrDefault env ''STORAGE_S3_USE_SSL'' True\<rparr>"

definition load_auth :: "Environment \<Rightarrow> AuthConfig" where
  "load_auth env =
     \<lparr>ac_JWKSURL = getEnvOrDefault env ''AUTH_JWKS_URL'' ''https://localhost:8090/oauth2/jwks'',
      ac_Issuer = getEnvOrDefault env ''AUTH_ISSUER'' ''https://localhost:8090'', ac_Audience = getEnvOrDefault env ''AUTH_AUDIENCE'' ''NSW_API'',
      ac_ClientIDs = parseCommaSeparated (getEnvOrDefault env ''AUTH_CLIENT_IDS'' ''TRADER_PORTAL_APP,FCAU_TO_NSW,NPQS_TO_NSW,IRD_TO_NSW''),
      ac_InsecureSkipTLSVerify = getBoolOrDefault env ''AUTH_JWKS_INSECURE_SKIP_VERIFY'' False\<rparr>"

definition load_notification :: "Environment \<Rightarrow> NotificationConfig" where
  "load_notification env =
     \<lparr>nc_SMTPHost = getEnvOrDefault env ''EMAIL_SMTP_HOST'' ''localhost'', nc_SMTPPort = getIntEnvOrDefault env ''EMAIL_SMTP_PORT'' 587,
      nc_SMTPUsername = getEnvOrDefault env ''EMAIL_SMTP_USERNAME'' '''', nc_SMTPPassword = env ''EMAIL_SMTP_PASSWORD'',
      nc_SMTPSender = getEnvOrDefault env ''EMAIL_SMTP_SENDER'' ''noreply@nsw.local'',
      nc_TemplateRoot = getEnvOrDefault env ''EMAIL_TEMPLATE_ROOT'' ''./configs/email-templates''\<rparr>"

definition load_temporal :: "Environment \<Rightarrow> TemporalConfig" where
  "load_temporal env =
     \<lparr>tp_Host = getEnvOrDefault env ''TEMPORAL_HOST'' ''localhost'', tp_Port = getIntEnvOrDefault env ''TEMPORAL_PORT'' 7233,
      tp_Namespace = getEnvOrDefault env ''TEMPORAL_NAMESPACE'' ''default''\<rparr>"

definition Load :: "Environment \<Rightarrow> Config res" where
  "Load env =
     (let cfg = \<lparr>cf_Database = load_database env, cf_Server = load_server env, cf_CORS = load_cors env, cf_Storage = load_storage env,
        cf_Auth = load_auth env, cf_Notification = load_notification env, cf_Temporal = load_temporal env\<rparr>
      in bind_res (Validate cfg) (\<lambda>_. Ok cfg))"

section \<open>middleware/cors.go\<close>

definition isOriginAllowed :: "string \<Rightarrow> string list \<Rightarrow> bool" where
  "isOriginAllowed origin allowedOrigins \<longleftrightarrow> list_ex (\<lambda>allowed. allowed = ''*'' \<or> allowed = origin) allowedOrigins"

text \<open>\<open>strings.Join(parts, ", ")\<close>.\<close>

fun join_comma :: "string list \<Rightarrow> string" where
  "join_comma [] = ''''"
| "join_comma [s] = s"
| "join_comma (s # t # ss) = s @ '', '' @ join_comma (t # ss)"

text \<open>The headers set, and the status if the middleware answers itself; without one the next handler runs.\<close>

definition CORS :: "CORSConfig \<Rightarrow> string \<Rightarrow> string \<Rightarrow> Header \<times> nat option" where
  "CORS cfg verb origin =
     (if origin = '''' then ([], None)
      else
        let h = header_set ''Vary'' ''Origin'' [] in
        if \<not> isOriginAllowed origin (co_AllowedOrigins cfg) then (h, if verb = ''OPTIONS'' then Some 204 else None)
        else
          let h = header_set ''Access-Control-Allow-Origin'' origin h;
            h = (if co_AllowCredentials cfg then header_set ''Access-Control-Allow-Credentials'' ''true'' h else h) in
          if verb = ''OPTIONS'' then
            let h = header_set ''Access-Control-Allow-Methods'' (join_comma (co_AllowedMethods cfg)) h;
              h = header_set ''Access-Control-Allow-Headers'' (join_comma (co_AllowedHeaders cfg)) h;
              h = (if co_MaxAge cfg > 0 then header_set ''Access-Control-Max-Age'' (show_int (co_MaxAge cfg)) h else h)
            in (h, Some 204)
          else (h, None))"


section \<open>What a loaded configuration satisfies\<close>

lemma all_checks_iff: "all_checks cs = Ok () \<longleftrightarrow> (\<forall>c \<in> set cs. c = Ok ())"
  by (induction cs) (auto simp: res_simps)

lemma require_iff [simp]: "require holds message args = Ok () \<longleftrightarrow> holds"
  by (simp add: require_def)

definition http_url :: "string \<Rightarrow> bool" where
  "http_url s \<longleftrightarrow> (\<exists>u. ParseRequestURI (trim_space s) = Ok u \<and> gu_Scheme u \<in> {''http'', ''https''} \<and> gu_Host u \<noteq> '''')"

lemma HTTPURL_iff [simp]: "HTTPURL name v = Ok () \<longleftrightarrow> http_url v"
  by (auto simp: HTTPURL_def http_url_def split: res.splits)

lemma TCPPort_iff [simp]: "TCPPort name port = Ok () \<longleftrightarrow> 1 \<le> port \<and> port \<le> 65535"
  by (auto simp: TCPPort_def)

lemma check_origin_iff: "check_origin debug origin = Ok () \<longleftrightarrow> (if origin = ''*'' then debug else http_url origin)"
  by (simp add: check_origin_def)

lemma http_url_not_blank: "http_url s \<Longrightarrow> trim_space s \<noteq> ''''"
  by (auto simp: http_url_def ParseRequestURI_def parse_url_def url_error_def)

lemma dropWhile_rev_dropWhile: "dropWhile p s = s \<Longrightarrow> dropWhile p (rev (dropWhile p (rev s))) = rev (dropWhile p (rev s))"
proof (cases s)
  case Nil
  then show ?thesis by simp
next
  case (Cons c t)
  assume "dropWhile p s = s"
  with Cons have "\<not> p c"
    by (metis dropWhile_eq_Cons_conv list.inject dropWhile.simps(2) dropWhile_eq_self_iff list.sel(1) list.distinct(1))
  then have "dropWhile p (rev t @ [c]) = dropWhile p (rev t) @ [c]"
    by (induction "rev t" arbitrary: t) (auto simp: dropWhile_append)
  with Cons \<open>\<not> p c\<close> show ?thesis by simp
qed

lemma trim_space_idem [simp]: "trim_space (trim_space s) = trim_space s"
proof -
  let ?d = "dropWhile is_space s"
  have "dropWhile is_space ?d = ?d"
    by (simp add: dropWhile_idem)
  from dropWhile_rev_dropWhile [OF this] show ?thesis
    unfolding trim_space_def by simp
qed

lemma getEnvOrDefault_trimmed: "trim_space d \<noteq> '''' \<Longrightarrow> trim_space (getEnvOrDefault env k d) \<noteq> ''''"
  by (simp add: getEnvOrDefault_def)

text \<open>Durations are those of 64 bits.\<close>

lemma digits_int_nonneg: "list_all digit_byte s \<Longrightarrow> 0 \<le> digits_int s"
proof -
  assume digits: "list_all digit_byte s"
  have byte: "0 \<le> (of_char c - 48 :: int)" if "digit_byte c" for c
  proof -
    have "48 \<le> (of_char c :: nat)"
      using that by (simp add: digit_byte_def code_def)
    then have "int 48 \<le> int (of_char c)"
      by (simp only: of_nat_le_iff)
    then show ?thesis by (simp add: of_nat_of_char)
  qed
  have "0 \<le> n \<Longrightarrow> list_all digit_byte s \<Longrightarrow> 0 \<le> foldl (\<lambda>n c. 10 * n + (of_char c - 48)) (n :: int) s" for n
    using byte by (induction s arbitrary: n) (simp_all add: add_nonneg_nonneg)
  with digits show ?thesis by (simp add: digits_int_def)
qed

lemma takeWhile_digits: "list_all digit_byte (takeWhile digit_byte s)"
  by (auto simp: list_all_iff dest: set_takeWhileD)

lemma unit_nonneg: "map_of units name = Some u \<Longrightarrow> 0 \<le> u"
  by (auto simp: units_def minute_def second_def millisecond_def split: if_splits)

lemma duration_of_nonneg:
  assumes "duration_of whole fraction name = Ok v" "list_all digit_byte whole" "list_all digit_byte fraction"
  shows "0 \<le> v"
proof -
  obtain u where u: "map_of units name = Some u" "v = digits_int whole * u + digits_int fraction * u div 10 ^ length fraction"
    using assms(1) by (auto simp: duration_of_def invalid_duration_def split: if_splits option.splits)
  have "0 \<le> digits_int whole * u" "0 \<le> digits_int fraction * u div 10 ^ length fraction"
    using assms(2,3) digits_int_nonneg unit_nonneg [OF u(1)] by (simp_all add: pos_imp_zdiv_nonneg_iff)
  then show ?thesis unfolding u(2) by simp
qed

lemma duration_part_nonneg: "duration_part s = Ok (v, rest) \<Longrightarrow> 0 \<le> v"
  using takeWhile_digits
  by (auto simp: duration_part_def fraction_of_def res_simps split: if_splits intro: duration_of_nonneg)

lemma duration_loop_bound: "duration_loop n d s = Ok r \<Longrightarrow> 0 \<le> d \<Longrightarrow> d \<le> 2 ^ 63 \<Longrightarrow> 0 \<le> r \<and> r \<le> 2 ^ 63"
proof (induction n arbitrary: d s)
  case (Suc n)
  show ?case
  proof (cases "s = []")
    case False
    with Suc.prems(1) obtain v rest where "duration_part s = Ok (v, rest)" "d + v \<le> 2 ^ 63" "duration_loop n (d + v) rest = Ok r"
      by (auto simp: res_simps invalid_duration_def split: if_splits)
    with Suc.IH Suc.prems(2) duration_part_nonneg show ?thesis by fastforce
  qed (use Suc.prems in simp)
qed simp

lemma ParseDuration_bound: "ParseDuration s = Ok r \<Longrightarrow> - (2 ^ 63) \<le> r \<and> r < 2 ^ 63"
  by (auto simp: ParseDuration_def Let_def res_simps invalid_duration_def dest!: duration_loop_bound split: if_splits)

section \<open>The configuration\<close>

definition storage_usable :: "StorageSettings \<Rightarrow> bool" where
  "storage_usable c \<longleftrightarrow>
     (sc_Type c = ''local'' \<and> sc_LocalBaseDir c \<noteq> '''' \<and> http_url (sc_LocalPublicURL c) \<and> sc_LocalPutSecret c \<noteq> ''''
      \<or> sc_Type c = ''s3'' \<and> http_url (ss_S3Endpoint c) \<and> sc_S3Bucket c \<noteq> '''' \<and> ss_S3Region c \<noteq> ''''
        \<and> (ss_S3AccessKey c = '''' \<longleftrightarrow> ss_S3SecretKey c = '''') \<and> (sc_S3PublicURL c \<noteq> '''' \<longrightarrow> http_url (sc_S3PublicURL c)))
     \<and> 0 < sc_PresignTTL c \<and> sc_PresignTTL c < 2 ^ 63"

lemma storage_Validate_usable: "storage_Validate c = Ok () \<Longrightarrow> sc_PresignTTL c < 2 ^ 63 \<Longrightarrow> storage_usable c"
  by (auto simp: storage_Validate_def storage_usable_def all_checks_iff res_simps split: if_splits)

lemma load_TTL_bound: "sc_PresignTTL (load_storage env) < 2 ^ 63"
  using ParseDuration_bound
  by (auto simp: load_storage_def getDurationOrDefault_def minute_def second_def split: res.splits)

lemma auth_starts:
  assumes "auth_Validate c = Ok ()" "trim_space (ac_Audience c) \<noteq> ''''"
  shows "\<exists>m. NewManager service c = Ok m"
proof -
  have "http_url (ac_JWKSURL c)" "http_url (ac_Issuer c)" "ac_ClientIDs c \<noteq> []"
    using assms(1) unfolding auth_Validate_def all_checks_iff by simp_all
  with assms(2) http_url_not_blank show ?thesis
    by (auto simp: NewManager_def NewTokenExtractorWithClient_def validateConfig_def Let_def)
qed

lemma Validate_parts:
  assumes "Validate cfg = Ok ()"
  shows "http_url (sv_ServiceURL (cf_Server cfg))" "database_Validate (cf_Database cfg) = Ok ()"
    "storage_Validate (cf_Storage cfg) = Ok ()" "auth_Validate (cf_Auth cfg) = Ok ()" "temporal_Validate (cf_Temporal cfg) = Ok ()"
    "co_AllowedOrigins (cf_CORS cfg) \<noteq> []"
    "\<forall>origin \<in> set (co_AllowedOrigins (cf_CORS cfg)). if origin = ''*'' then sv_Debug (cf_Server cfg) else http_url origin"
  using assms unfolding Validate_def all_checks_iff by (simp_all add: ball_Un check_origin_iff)

text \<open>
  C37: A configuration that \<open>Load\<close> returns is well formed, whatever the environment holds: its URLs are http or https with a
  host, the storage is one of the two kinds with what that kind needs and a lifetime of links that is positive and fits
  64 bits, Temporal's port is a port, every accepted origin is a URL (or the star, in debug mode only), the password
  of the database is set, and the authentication manager starts with it.
\<close>

theorem loaded_config_is_usable:
  assumes "Load env = Ok cfg"
  shows "http_url (sv_ServiceURL (cf_Server cfg)) \<and> storage_usable (cf_Storage cfg)
    \<and> http_url (ac_JWKSURL (cf_Auth cfg)) \<and> http_url (ac_Issuer (cf_Auth cfg)) \<and> (\<exists>m. NewManager service (cf_Auth cfg) = Ok m)
    \<and> 1 \<le> tp_Port (cf_Temporal cfg) \<and> tp_Port (cf_Temporal cfg) \<le> 65535
    \<and> co_AllowedOrigins (cf_CORS cfg) \<noteq> []
    \<and> (\<forall>origin \<in> set (co_AllowedOrigins (cf_CORS cfg)). if origin = ''*'' then sv_Debug (cf_Server cfg) else http_url origin)
    \<and> db_Password (cf_Database cfg) \<noteq> ''''"
proof -
  have valid: "Validate cfg = Ok ()" and parts: "cf_Storage cfg = load_storage env" "cf_Auth cfg = load_auth env"
    using assms by (auto simp: Load_def Let_def res_simps)
  note checks = Validate_parts [OF valid]
  have "trim_space (ac_Audience (cf_Auth cfg)) \<noteq> ''''"
    unfolding parts load_auth_def using getEnvOrDefault_trimmed [of "''NSW_API''"] by (simp add: trim_space_def is_space_def)
  then have starts: "\<exists>m. NewManager service (cf_Auth cfg) = Ok m"
    using auth_starts checks(4) by blast
  have storage: "storage_usable (cf_Storage cfg)"
    using storage_Validate_usable checks(3) load_TTL_bound parts(1) by metis
  have rest: "http_url (ac_JWKSURL (cf_Auth cfg))" "http_url (ac_Issuer (cf_Auth cfg))"
      "1 \<le> tp_Port (cf_Temporal cfg)" "tp_Port (cf_Temporal cfg) \<le> 65535" "db_Password (cf_Database cfg) \<noteq> ''''"
    using checks(2,4,5) unfolding auth_Validate_def temporal_Validate_def database_Validate_def all_checks_iff by simp_all
  show ?thesis
    using checks(1,6,7) storage starts rest by blast
qed

text \<open>An environment with nothing but the password of the database.\<close>

definition demo_environment :: Environment where
  "demo_environment key = (if key = ''DB_PASSWORD'' then ''pw'' else '''')"

lemma demo_service_url: "service_url demo_environment = ''http://localhost:8080''"
  by (simp add: service_url_def load_port_def getEnvOrDefault_def getIntEnvOrDefault_def demo_environment_def trim_space_def
      show_int_def show_nat.simps) code_simp

lemma demo_Load: "is_ok (Load demo_environment)"
proof -
  have "HTTPURL ''SERVICE_URL'' ''http://localhost:8080'' = Ok ()"
    by code_simp
  moreover have "storage_Validate (load_storage demo_environment) = Ok ()"
    unfolding load_storage_def demo_service_url by code_simp
  moreover have "database_Validate (load_database demo_environment) = Ok ()"
    by code_simp
  moreover have "auth_Validate (load_auth demo_environment) = Ok ()"
    by code_simp
  moreover have "temporal_Validate (load_temporal demo_environment) = Ok ()"
    by code_simp
  moreover have "co_AllowedOrigins (load_cors demo_environment) = [''*''] \<and> getBoolOrDefault demo_environment ''SERVER_DEBUG'' True"
    by code_simp
  ultimately show ?thesis
    by (simp add: Load_def Let_def Validate_def load_server_def demo_service_url require_def check_origin_def
        del: HTTPURL_iff)
qed

lemma loaded_config_is_usable_witness:
  "\<exists>cfg. Load demo_environment = Ok cfg \<and> storage_usable (cf_Storage cfg) \<and> http_url (ac_Issuer (cf_Auth cfg))"
  using demo_Load loaded_config_is_usable [of demo_environment] by (auto simp: is_ok_iff)

section \<open>Cross-origin requests\<close>

lemma CORS_allow_origin:
  "map_get (fst (CORS cfg verb origin)) ''Access-Control-Allow-Origin'' =
     (if origin \<noteq> '''' \<and> isOriginAllowed origin (co_AllowedOrigins cfg) then Some origin else None)"
proof -
  have keys: "CanonicalHeaderKey ''Vary'' = ''Vary''" "CanonicalHeaderKey ''Access-Control-Allow-Origin'' = ''Access-Control-Allow-Origin''"
      "CanonicalHeaderKey ''Access-Control-Allow-Credentials'' = ''Access-Control-Allow-Credentials''"
      "CanonicalHeaderKey ''Access-Control-Allow-Methods'' = ''Access-Control-Allow-Methods''"
      "CanonicalHeaderKey ''Access-Control-Allow-Headers'' = ''Access-Control-Allow-Headers''"
      "CanonicalHeaderKey ''Access-Control-Max-Age'' = ''Access-Control-Max-Age''"
    by code_simp+
  show ?thesis
    by (simp add: CORS_def header_set_def keys Let_def map_simps)
qed

text \<open>
  In production the middleware names an origin to the browser only if it is in the configured list, and that is an http
  URL; with the environment's defaults it names every origin, and allows it credentials.
\<close>

theorem production_origins_are_listed:
  assumes "Load env = Ok cfg" "\<not> sv_Debug (cf_Server cfg)"
    and "map_get (fst (CORS (cf_CORS cfg) verb origin)) ''Access-Control-Allow-Origin'' = Some origin'"
  shows "origin' = origin \<and> origin \<in> set (co_AllowedOrigins (cf_CORS cfg)) \<and> http_url origin"
proof -
  have "Validate cfg = Ok ()"
    using assms(1) by (auto simp: Load_def Let_def res_simps)
  from Validate_parts(7) [OF this] assms(2)
  have "\<forall>o' \<in> set (co_AllowedOrigins (cf_CORS cfg)). o' \<noteq> ''*'' \<and> http_url o'"
    by (auto split: if_splits)
  moreover have "isOriginAllowed origin (co_AllowedOrigins (cf_CORS cfg))" "origin' = origin"
    using assms(3) by (auto simp: CORS_allow_origin split: if_splits)
  ultimately show ?thesis
    by (auto simp: isOriginAllowed_def list_ex_iff)
qed

theorem default_allows_every_origin:
  "\<exists>cfg. Load demo_environment = Ok cfg \<and> co_AllowCredentials (cf_CORS cfg) \<and>
     (\<forall>verb origin. origin \<noteq> '''' \<longrightarrow> map_get (fst (CORS (cf_CORS cfg) verb origin)) ''Access-Control-Allow-Origin'' = Some origin)"
proof -
  obtain cfg where cfg: "Load demo_environment = Ok cfg"
    using demo_Load by (auto simp: is_ok_iff)
  then have "cf_CORS cfg = load_cors demo_environment"
    by (auto simp: Load_def Let_def res_simps)
  moreover have "co_AllowedOrigins (load_cors demo_environment) = [''*''] \<and> co_AllowCredentials (load_cors demo_environment)"
    by code_simp
  ultimately show ?thesis
    using cfg by (auto simp: CORS_allow_origin isOriginAllowed_def)
qed

end
