(* ===== verification/OgaApplications.thy ===== *)
theory OgaApplications
  imports JsonDecode Pagination
begin

text \<open>
  The backend of the agency portal, \<open>oga/internal\<close>: the table of applications with the operations
  of \<open>store.go\<close>, the task configurations and forms it is started with (\<open>task\_config.go\<close>,
  \<open>form.go\<close>), the service of \<open>service.go\<close> and the HTTP handlers of \<open>handler.go\<close> and
  \<open>feedback/handler.go\<close>. The service an application came from is the peer: a state of any type that
  a POST reads and changes. A nil \<open>map[string]any\<close> is \<open>None\<close>. The database and the clock
  are answered by an environment indexed by a tick that every call takes; the \<open>LIKE\<close> of the database
  (which differs between SQLite and Postgres) is a part of it.
\<close>

section \<open>The table and its environment\<close>

record FeedbackEntry =
  fb_Content :: "obj option"
  fb_Timestamp :: int
  fb_Round :: int

record ApplicationRecord =
  ap_TaskID :: string
  ap_TaskCode :: string
  ap_WorkflowID :: string
  ap_ServiceURL :: string
  ap_Data :: "obj option"
  ap_ReviewerResponse :: "obj option"
  ap_Status :: string
  ap_History :: "FeedbackEntry list"
  ap_ReviewedAt :: "int option"
  ap_CreatedAt :: int
  ap_UpdatedAt :: int

record 'w OgaWorld =
  ow_apps :: "ApplicationRecord list"
  ow_peer :: 'w
  ow_tick :: nat

text \<open>The peer answers a POST with an HTTP status, or the exchange fails.\<close>

record 'w OgaEnv =
  oe_fault :: "nat \<Rightarrow> go_error option"
  oe_now :: "nat \<Rightarrow> int"
  oe_rank :: "nat \<Rightarrow> string \<Rightarrow> nat"
  oe_like :: "string \<Rightarrow> string \<Rightarrow> bool"
  oe_post :: "string \<Rightarrow> any \<Rightarrow> ('w, nat) op"

type_synonym ('w, 'a) oga = "('w OgaWorld, 'a) op"

definition oga_db :: "'w OgaEnv \<Rightarrow> ('w, 'a) oga \<Rightarrow> ('w, 'a) oga" where
  "oga_db env stmt w =
     (let w' = w\<lparr>ow_tick := Suc (ow_tick w)\<rparr> in
      case oe_fault env (ow_tick w) of Some e \<Rightarrow> (Err e, w') | None \<Rightarrow> stmt w')"

definition oga_now :: "'w OgaEnv \<Rightarrow> ('w, int) oga" where
  "oga_now env w = (Ok (oe_now env (ow_tick w)), w\<lparr>ow_tick := Suc (ow_tick w)\<rparr>)"

text \<open>The zero \<open>time.Time\<close>, the first of January of the year 1, in nanoseconds.\<close>

definition zero_time :: int where
  "zero_time = - 62135596800000000000"

section \<open>store.go\<close>

definition app_row :: "string \<Rightarrow> ApplicationRecord \<Rightarrow> bool" where
  "app_row i a \<longleftrightarrow> ap_TaskID a = i"

definition GetByTaskID :: "'w OgaEnv \<Rightarrow> string \<Rightarrow> ('w, ApplicationRecord) oga" where
  "GetByTaskID env i = oga_db env (\<lambda>w. (db_first (app_row i) (ow_apps w), w))"

text \<open>
  \<open>Save\<close>: an UPDATE of every column by the primary key, an INSERT when that found no row. GORM
  fills \<open>UpdatedAt\<close> in both, \<open>CreatedAt\<close> only when it inserts, so the update writes the zero time
  of a record that the caller has just made.
\<close>

definition CreateOrUpdate :: "'w OgaEnv \<Rightarrow> ApplicationRecord \<Rightarrow> ('w, unit) oga" where
  "CreateOrUpdate env a =
     bindS (oga_now env) (\<lambda>now.
     oga_db env (\<lambda>w.
       if \<exists>x \<in> set (ow_apps w). app_row (ap_TaskID a) x
       then (Ok (), w\<lparr>ow_apps := update_where (app_row (ap_TaskID a)) (\<lambda>_. a\<lparr>ap_UpdatedAt := now\<rparr>) (ow_apps w)\<rparr>)
       else (Ok (), w\<lparr>ow_apps := ow_apps w @
              [a\<lparr>ap_CreatedAt := (if ap_CreatedAt a = zero_time then now else ap_CreatedAt a), ap_UpdatedAt := now\<rparr>]\<rparr>)))"

text \<open>OFFSET and LIMIT of words; equal time stamps leave the order to the database.\<close>

definition offset_limit :: "64 word \<Rightarrow> 64 word \<Rightarrow> 'a list \<Rightarrow> 'a list" where
  "offset_limit offset limit xs = db_page (sint offset) (sint limit) xs"

definition app_matches :: "'w OgaEnv \<Rightarrow> string \<Rightarrow> string \<Rightarrow> string \<Rightarrow> ApplicationRecord \<Rightarrow> bool" where
  "app_matches env status workflowID search a \<longleftrightarrow>
     (status = '''' \<or> ap_Status a = status)
     \<and> (workflowID = '''' \<or> ap_WorkflowID a = workflowID)
     \<and> (search = '''' \<or> oe_like env (''%'' @ search @ ''%'') (ap_TaskID a)
                     \<or> oe_like env (''%'' @ search @ ''%'') (ap_WorkflowID a))"

definition by_time :: "(ApplicationRecord \<Rightarrow> int) \<Rightarrow> 'w OgaEnv \<Rightarrow> nat \<Rightarrow> ApplicationRecord list \<Rightarrow> ApplicationRecord list" where
  "by_time key env t rows = sort_key (\<lambda>a. - key a) (sort_key (\<lambda>a. oe_rank env t (ap_TaskID a)) rows)"

definition List_apps ::
    "'w OgaEnv \<Rightarrow> string \<Rightarrow> string \<Rightarrow> string \<Rightarrow> 64 word \<Rightarrow> 64 word \<Rightarrow> ('w, ApplicationRecord list \<times> nat) oga" where
  "List_apps env status workflowID search offset limit =
     bindS (oga_db env (\<lambda>w. (Ok (length (filter (app_matches env status workflowID search) (ow_apps w))), w))) (\<lambda>n.
     bindS (oga_db env (\<lambda>w. (Ok (offset_limit offset limit
        (by_time ap_CreatedAt env (ow_tick w) (filter (app_matches env status workflowID search) (ow_apps w)))), w))) (\<lambda>apps.
     returnS (apps, n)))"

record WorkflowSummary =
  ws_WorkflowID :: string
  ws_UpdatedAt :: int
  ws_Status :: string
  ws_TaskCount :: nat

text \<open>
  The subquery groups the rows by workflow, the join keeps the rows whose \<open>updated\_at\<close> is the
  greatest of their group.
\<close>

definition workflow_matches :: "'w OgaEnv \<Rightarrow> string \<Rightarrow> ApplicationRecord \<Rightarrow> bool" where
  "workflow_matches env search a \<longleftrightarrow> search = '''' \<or> oe_like env (''%'' @ search @ ''%'') (ap_WorkflowID a)"

definition same_workflow :: "ApplicationRecord list \<Rightarrow> ApplicationRecord \<Rightarrow> ApplicationRecord list" where
  "same_workflow rows a = filter (\<lambda>x. ap_WorkflowID x = ap_WorkflowID a) rows"

definition is_latest :: "ApplicationRecord list \<Rightarrow> ApplicationRecord \<Rightarrow> bool" where
  "is_latest rows a \<longleftrightarrow> (\<forall>x \<in> set (same_workflow rows a). ap_UpdatedAt x \<le> ap_UpdatedAt a)"

definition workflow_summary :: "ApplicationRecord list \<Rightarrow> ApplicationRecord \<Rightarrow> WorkflowSummary" where
  "workflow_summary rows a =
     \<lparr>ws_WorkflowID = ap_WorkflowID a, ws_UpdatedAt = ap_UpdatedAt a, ws_Status = ap_Status a,
      ws_TaskCount = length (same_workflow rows a)\<rparr>"

definition ListWorkflows ::
    "'w OgaEnv \<Rightarrow> string \<Rightarrow> 64 word \<Rightarrow> 64 word \<Rightarrow> ('w, WorkflowSummary list \<times> nat) oga" where
  "ListWorkflows env search offset limit =
     bindS (oga_db env (\<lambda>w. (Ok (length (remdups (map ap_WorkflowID (filter (workflow_matches env search) (ow_apps w))))), w))) (\<lambda>n.
     bindS (oga_db env (\<lambda>w.
       let grouped = filter (workflow_matches env search) (ow_apps w)
       in (Ok (offset_limit offset limit (map (workflow_summary grouped)
             (by_time ap_UpdatedAt env (ow_tick w) (filter (is_latest grouped) grouped)))), w))) (\<lambda>summaries.
     returnS (summaries, n)))"

definition update_app :: "string \<Rightarrow> (ApplicationRecord \<Rightarrow> ApplicationRecord) \<Rightarrow> ('w, bool) oga" where
  "update_app i f w =
     (Ok (\<exists>x \<in> set (ow_apps w). app_row i x), w\<lparr>ow_apps := update_where (app_row i) f (ow_apps w)\<rparr>)"

definition UpdateStatus :: "'w OgaEnv \<Rightarrow> string \<Rightarrow> string \<Rightarrow> obj option \<Rightarrow> ('w, unit) oga" where
  "UpdateStatus env i status response =
     bindS (oga_now env) (\<lambda>now.
     bindS (oga_db env (update_app i (\<lambda>a. a\<lparr>ap_Status := status, ap_ReviewedAt := Some now, ap_UpdatedAt := now,
                                          ap_ReviewerResponse := response\<rparr>))) (\<lambda>found.
     if \<not> found then failS (Errorf ''application with task_id %s not found'' [i]) else returnS ()))"

text \<open>
  \<open>db.Transaction\<close>: begin, the body, commit; the tables are put back when the body or the commit
  fails.
\<close>

definition oga_transaction :: "'w OgaEnv \<Rightarrow> ('w, 'a) oga \<Rightarrow> ('w, 'a) oga" where
  "oga_transaction env body w =
     (case oga_db env (\<lambda>w. (Ok (), w)) w of
        (Err e, w1) \<Rightarrow> (Err e, w1)
      | (Panic, w1) \<Rightarrow> (Panic, w1)
      | (Ok _, w1) \<Rightarrow>
          (case body w1 of
             (Ok v, w2) \<Rightarrow>
               (case oga_db env (\<lambda>w. (Ok (), w)) w2 of
                  (Ok _, w3) \<Rightarrow> (Ok v, w3)
                | (Err e, w3) \<Rightarrow> (Err e, w3\<lparr>ow_apps := ow_apps w\<rparr>)
                | (Panic, w3) \<Rightarrow> (Panic, w3\<lparr>ow_apps := ow_apps w\<rparr>))
           | (Err e, w2) \<Rightarrow> (Err e, w2\<lparr>ow_apps := ow_apps w\<rparr>)
           | (Panic, w2) \<Rightarrow> (Panic, w2\<lparr>ow_apps := ow_apps w\<rparr>)))"

definition AppendFeedback :: "'w OgaEnv \<Rightarrow> string \<Rightarrow> FeedbackEntry \<Rightarrow> ('w, unit) oga" where
  "AppendFeedback env i entry =
     oga_transaction env
       (bindS (GetByTaskID env i) (\<lambda>app.
        bindS (oga_now env) (\<lambda>now.
        bindS (oga_db env (update_app i (\<lambda>a. a\<lparr>ap_History := ap_History app @ [entry],
            ap_Status := ''FEEDBACK_REQUESTED'', ap_UpdatedAt := now\<rparr>))) (\<lambda>_.
        returnS ()))))"

definition UpdateDataAndResetStatus :: "'w OgaEnv \<Rightarrow> string \<Rightarrow> obj option \<Rightarrow> ('w, unit) oga" where
  "UpdateDataAndResetStatus env i data =
     bindS (oga_now env) (\<lambda>now.
     bindS (oga_db env (update_app i (\<lambda>a. a\<lparr>ap_Data := data, ap_Status := ''PENDING'', ap_UpdatedAt := now\<rparr>))) (\<lambda>_.
     returnS ()))"

definition Delete_app :: "'w OgaEnv \<Rightarrow> string \<Rightarrow> ('w, unit) oga" where
  "Delete_app env i = oga_db env (\<lambda>w. (Ok (), w\<lparr>ow_apps := filter (\<lambda>a. \<not> app_row i a) (ow_apps w)\<rparr>))"


section \<open>task\_config.go and form.go\<close>

record TaskMeta =
  tm_Title :: string
  tm_Description :: string
  tm_Icon :: string
  tm_Category :: string

record TaskForms =
  tf_View :: string
  tf_Review :: string

text \<open>The default field read from a review; a nil status map is \<open>None\<close>.\<close>

abbreviation DefaultOutcomeField :: string where "DefaultOutcomeField \<equiv> ''review_outcome''"

record TaskBehavior =
  tb_OutcomeField :: string
  tb_StatusMap :: "(string, string) gomap option"

record TaskConfig =
  tc_TaskCode :: string
  tc_Meta :: TaskMeta
  tc_Forms :: TaskForms
  tc_Behavior :: "TaskBehavior option"

record TaskConfigStore =
  cs_configs :: "(string, TaskConfig) gomap"
  cs_default :: string

definition dec_task_meta :: "TaskMeta decoder" where
  "dec_task_meta = dec_struct (\<lambda>m.
     bind_res (dec_field dec_string ''title'' m) (\<lambda>t.
     bind_res (dec_field dec_string ''description'' m) (\<lambda>d.
     bind_res (dec_field dec_string ''icon'' m) (\<lambda>i.
     bind_res (dec_field dec_string ''category'' m) (\<lambda>c.
     Ok \<lparr>tm_Title = t, tm_Description = d, tm_Icon = i, tm_Category = c\<rparr>)))))"

definition dec_task_forms :: "TaskForms decoder" where
  "dec_task_forms = dec_struct (\<lambda>m.
     bind_res (dec_field dec_string ''view'' m) (\<lambda>v.
     bind_res (dec_field dec_string ''review'' m) (\<lambda>r.
     Ok \<lparr>tf_View = v, tf_Review = r\<rparr>)))"

definition dec_task_behavior :: "TaskBehavior decoder" where
  "dec_task_behavior = dec_struct (\<lambda>m.
     bind_res (dec_field dec_string ''outcomeField'' m) (\<lambda>f.
     bind_res (dec_field (dec_ptr (dec_map dec_string)) ''statusMap'' m) (\<lambda>s.
     Ok \<lparr>tb_OutcomeField = f, tb_StatusMap = s\<rparr>)))"

definition dec_task_config :: "TaskConfig decoder" where
  "dec_task_config = dec_struct (\<lambda>m.
     bind_res (dec_field dec_string ''taskCode'' m) (\<lambda>c.
     bind_res (dec_field dec_task_meta ''meta'' m) (\<lambda>me.
     bind_res (dec_field dec_task_forms ''forms'' m) (\<lambda>f.
     bind_res (dec_field (dec_ptr dec_task_behavior) ''behavior'' m) (\<lambda>b.
     Ok \<lparr>tc_TaskCode = c, tc_Meta = me, tc_Forms = f, tc_Behavior = b\<rparr>)))))"

text \<open>An entry of the directory: its name, whether it is a directory, and what reading it gives (text that is no JSON is \<open>None\<close>).\<close>

record DirEntry =
  de_Name :: string
  de_IsDir :: bool
  de_Read :: "any option res"

definition json_file :: "DirEntry \<Rightarrow> bool" where
  "json_file e \<longleftrightarrow> \<not> de_IsDir e \<and> suffix ''.json'' (de_Name e)"

definition trim_json :: "string \<Rightarrow> string" where
  "trim_json name = take (length name - 5) name"

fun load_configs :: "DirEntry list \<Rightarrow> (string, TaskConfig) gomap \<Rightarrow> (string, TaskConfig) gomap res" where
  "load_configs [] configs = Ok configs"
| "load_configs (e # es) configs =
     (if \<not> json_file e then load_configs es configs
      else bind_res (wrap_err ''failed to read task config file %q: %w'' [de_Name e] (de_Read e)) (\<lambda>data.
           bind_res (wrap_err ''task config file %q is invalid: %w'' [de_Name e] (unmarshal dec_task_config data)) (\<lambda>config.
           let i = trim_json (de_Name e);
               config' = (if tc_TaskCode config = '''' then config\<lparr>tc_TaskCode := i\<rparr> else config)
           in load_configs es (map_put i config' configs))))"

definition NewTaskConfigStore :: "DirEntry list res \<Rightarrow> string \<Rightarrow> TaskConfigStore res" where
  "NewTaskConfigStore dir defaultConfigID =
     bind_res (wrap_err ''failed to read task configs directory %q: %w'' [] dir) (\<lambda>entries.
     bind_res (load_configs entries []) (\<lambda>configs.
     Ok \<lparr>cs_configs = configs, cs_default = defaultConfigID\<rparr>))"

definition GetConfig :: "TaskConfigStore \<Rightarrow> string \<Rightarrow> TaskConfig res" where
  "GetConfig ts taskCode =
     (case map_get (cs_configs ts) taskCode of
        Some config \<Rightarrow> Ok config
      | None \<Rightarrow>
          (case (if cs_default ts = '''' then None else map_get (cs_configs ts) (cs_default ts)) of
             Some def \<Rightarrow> Ok def
           | None \<Rightarrow> Err (Errorf ''task config %q not found'' [taskCode])))"

type_synonym FormStore = "(string, any) gomap"

fun load_forms :: "DirEntry list \<Rightarrow> FormStore \<Rightarrow> FormStore res" where
  "load_forms [] forms = Ok forms"
| "load_forms (e # es) forms =
     (if \<not> json_file e then load_forms es forms
      else bind_res (wrap_err ''failed to read form file %q: %w'' [de_Name e] (de_Read e)) (\<lambda>data.
           case data of
             None \<Rightarrow> Err (Errorf ''form file %q contains invalid JSON'' [de_Name e])
           | Some v \<Rightarrow> load_forms es (map_put (trim_json (de_Name e)) v forms)))"

definition NewFormStore :: "DirEntry list res \<Rightarrow> FormStore res" where
  "NewFormStore dir =
     bind_res (wrap_err ''failed to read forms directory %q: %w'' [] dir) (\<lambda>entries. load_forms entries [])"

definition GetForm :: "FormStore \<Rightarrow> string \<Rightarrow> any option" where
  "GetForm fs i = map_get fs i"


section \<open>service.go\<close>

record InjectRequest =
  ir_TaskID :: string
  ir_TaskCode :: string
  ir_WorkflowID :: string
  ir_Data :: "obj option"
  ir_ServiceURL :: string

record Application =
  aq_TaskID :: string
  aq_TaskCode :: string
  aq_WorkflowID :: string
  aq_ServiceURL :: string
  aq_Data :: "obj option"
  aq_OgaActionData :: "obj option"
  aq_Title :: string
  aq_Description :: string
  aq_Icon :: string
  aq_Category :: string
  aq_DataForm :: "any option"
  aq_OgaForm :: "any option"
  aq_Status :: string
  aq_FeedbackHistory :: "FeedbackEntry list"
  aq_ReviewedAt :: "int option"
  aq_CreatedAt :: int
  aq_UpdatedAt :: int

record 'a PagedResponse =
  pr_Items :: "'a list"
  pr_Total :: nat
  pr_Page :: "64 word"
  pr_PageSize :: "64 word"

record ogaService =
  sv_configStore :: TaskConfigStore
  sv_formStore :: FormStore

text \<open>The body of a \<open>TaskResponse\<close>.\<close>

definition task_response :: "string \<Rightarrow> string \<Rightarrow> string \<Rightarrow> obj option \<Rightarrow> any" where
  "task_response taskID workflowID action content =
     JObj [(''task_id'', JStr taskID), (''workflow_id'', JStr workflowID),
           (''payload'', JObj [(''action'', JStr action),
              (''content'', (case content of None \<Rightarrow> JNull | Some m \<Rightarrow> JObj m))])]"

definition new_application :: "InjectRequest \<Rightarrow> ApplicationRecord" where
  "new_application req =
     \<lparr>ap_TaskID = ir_TaskID req, ap_TaskCode = ir_TaskCode req, ap_WorkflowID = ir_WorkflowID req,
      ap_ServiceURL = ir_ServiceURL req, ap_Data = ir_Data req, ap_ReviewerResponse = None, ap_Status = ''PENDING'',
      ap_History = [], ap_ReviewedAt = None, ap_CreatedAt = zero_time, ap_UpdatedAt = zero_time\<rparr>"

definition CreateApplication :: "'w OgaEnv \<Rightarrow> InjectRequest \<Rightarrow> ('w, unit) oga" where
  "CreateApplication env req =
     (if ir_TaskID req = '''' \<or> ir_TaskCode req = '''' \<or> ir_WorkflowID req = '''' \<or> ir_ServiceURL req = ''''
      then failS (Errorf ''missing required fields in InjectRequest'' [])
      else bindS (attemptS (GetByTaskID env (ir_TaskID req))) (\<lambda>existing.
        case existing of
          Err e \<Rightarrow>
            if \<not> is_not_found e then failS (Wrapf ''failed to query existing application: %w'' [] e)
            else CreateOrUpdate env (new_application req)
        | Panic \<Rightarrow> liftS Panic
        | Ok a \<Rightarrow>
            if ap_Status a = ''FEEDBACK_REQUESTED'' then UpdateDataAndResetStatus env (ir_TaskID req) (ir_Data req)
            else CreateOrUpdate env (new_application req)))"

definition clamp_page :: "64 word \<Rightarrow> 64 word" where
  "clamp_page page = (if sint page < 1 then 1 else page)"

definition clamp_size :: "64 word \<Rightarrow> 64 word" where
  "clamp_size pageSize = (if sint pageSize < 1 \<or> sint pageSize > 100 then 20 else pageSize)"

definition list_item :: "ogaService \<Rightarrow> ApplicationRecord \<Rightarrow> Application" where
  "list_item s r =
     (let app = \<lparr>aq_TaskID = ap_TaskID r, aq_TaskCode = ap_TaskCode r, aq_WorkflowID = ap_WorkflowID r,
                 aq_ServiceURL = ap_ServiceURL r, aq_Data = ap_Data r, aq_OgaActionData = None,
                 aq_Title = '''', aq_Description = '''', aq_Icon = '''', aq_Category = '''',
                 aq_DataForm = None, aq_OgaForm = None, aq_Status = ap_Status r, aq_FeedbackHistory = [],
                 aq_ReviewedAt = ap_ReviewedAt r, aq_CreatedAt = ap_CreatedAt r, aq_UpdatedAt = ap_UpdatedAt r\<rparr>
      in case GetConfig (sv_configStore s) (ap_TaskCode r) of
           Ok config \<Rightarrow> app\<lparr>aq_Title := tm_Title (tc_Meta config), aq_Category := tm_Category (tc_Meta config),
                           aq_Icon := tm_Icon (tc_Meta config)\<rparr>
         | _ \<Rightarrow> app)"

definition GetApplications ::
    "'w OgaEnv \<Rightarrow> ogaService \<Rightarrow> string \<Rightarrow> string \<Rightarrow> string \<Rightarrow> 64 word \<Rightarrow> 64 word \<Rightarrow> ('w, Application PagedResponse) oga" where
  "GetApplications env s status workflowID search page0 pageSize0 =
     (let page = clamp_page page0; pageSize = clamp_size pageSize0; offset = (page - 1) * pageSize
      in bindS (List_apps env status workflowID search offset pageSize) (\<lambda>(records, total_count).
         returnS \<lparr>pr_Items = map (list_item s) records, pr_Total = total_count, pr_Page = page, pr_PageSize = pageSize\<rparr>))"

definition GetWorkflows ::
    "'w OgaEnv \<Rightarrow> string \<Rightarrow> 64 word \<Rightarrow> 64 word \<Rightarrow> ('w, WorkflowSummary PagedResponse) oga" where
  "GetWorkflows env search page0 pageSize0 =
     (let page = clamp_page page0; pageSize = clamp_size pageSize0; offset = (page - 1) * pageSize
      in bindS (ListWorkflows env search offset pageSize) (\<lambda>(summaries, total_count).
         returnS \<lparr>pr_Items = summaries, pr_Total = total_count, pr_Page = page, pr_PageSize = pageSize\<rparr>))"

definition form_of :: "ogaService \<Rightarrow> string \<Rightarrow> any option" where
  "form_of s i = (if i = '''' then None else GetForm (sv_formStore s) i)"

abbreviation ErrApplicationNotFound :: go_error where
  "ErrApplicationNotFound \<equiv> Errorf ''application not found'' []"

definition application_of :: "ogaService \<Rightarrow> ApplicationRecord \<Rightarrow> Application" where
  "application_of s r =
     (let app = \<lparr>aq_TaskID = ap_TaskID r, aq_TaskCode = ap_TaskCode r, aq_WorkflowID = ap_WorkflowID r,
                 aq_ServiceURL = ap_ServiceURL r, aq_Data = ap_Data r, aq_OgaActionData = ap_ReviewerResponse r,
                 aq_Title = '''', aq_Description = '''', aq_Icon = '''', aq_Category = '''',
                 aq_DataForm = None, aq_OgaForm = None, aq_Status = ap_Status r, aq_FeedbackHistory = ap_History r,
                 aq_ReviewedAt = ap_ReviewedAt r, aq_CreatedAt = ap_CreatedAt r, aq_UpdatedAt = ap_UpdatedAt r\<rparr>
      in case GetConfig (sv_configStore s) (ap_TaskCode r) of
           Ok config \<Rightarrow> app\<lparr>aq_Title := tm_Title (tc_Meta config), aq_Description := tm_Description (tc_Meta config),
                           aq_Icon := tm_Icon (tc_Meta config), aq_Category := tm_Category (tc_Meta config),
                           aq_DataForm := form_of s (tf_View (tc_Forms config)),
                           aq_OgaForm := form_of s (tf_Review (tc_Forms config))\<rparr>
         | _ \<Rightarrow> app)"

definition GetApplication :: "'w OgaEnv \<Rightarrow> ogaService \<Rightarrow> string \<Rightarrow> ('w, Application) oga" where
  "GetApplication env s i =
     bindS (attemptS (GetByTaskID env i)) (\<lambda>record.
     case record of
       Err e \<Rightarrow> failS (if is_not_found e then ErrApplicationNotFound else Wrapf ''failed to get application: %w'' [] e)
     | Panic \<Rightarrow> liftS Panic
     | Ok r \<Rightarrow> returnS (application_of s r))"

definition sendToService :: "'w OgaEnv \<Rightarrow> string \<Rightarrow> any \<Rightarrow> ('w, unit) oga" where
  "sendToService env serviceURL response w =
     (case oe_post env serviceURL response (ow_peer w) of
        (Ok status, p) \<Rightarrow>
          (if status < 200 \<or> status \<ge> 300 then Err (Errorf ''service returned status %d'' [show_nat status]) else Ok (),
           w\<lparr>ow_peer := p\<rparr>)
      | (Err e, p) \<Rightarrow> (Err e, w\<lparr>ow_peer := p\<rparr>)
      | (Panic, p) \<Rightarrow> (Panic, w\<lparr>ow_peer := p\<rparr>))"

definition review_status :: "ogaService \<Rightarrow> string \<Rightarrow> obj option \<Rightarrow> string" where
  "review_status s taskCode response =
     (case GetConfig (sv_configStore s) taskCode of
        Ok config \<Rightarrow>
          (case tc_Behavior config of
             None \<Rightarrow> ''DONE''
           | Some b \<Rightarrow>
               (case tb_StatusMap b of
                  None \<Rightarrow> ''DONE''
                | Some statusMap \<Rightarrow>
                    (let field = (if tb_OutcomeField b = '''' then DefaultOutcomeField else tb_OutcomeField b)
                     in case Option.bind response (\<lambda>m. Option.bind (map_get m field) as_str) of
                          None \<Rightarrow> ''DONE''
                        | Some outcome \<Rightarrow> (case map_get statusMap outcome of None \<Rightarrow> ''DONE'' | Some mapped \<Rightarrow> mapped))))
      | _ \<Rightarrow> ''DONE'')"

definition ReviewApplication :: "'w OgaEnv \<Rightarrow> ogaService \<Rightarrow> string \<Rightarrow> obj option \<Rightarrow> ('w, unit) oga" where
  "ReviewApplication env s taskID reviewerResponse =
     bindS (GetApplication env s taskID) (\<lambda>app.
     bindS (wrapS ''failed to send response to service: %w'' []
       (sendToService env (aq_ServiceURL app)
         (task_response (aq_TaskID app) (aq_WorkflowID app) ''OGA_VERIFICATION'' reviewerResponse))) (\<lambda>_.
     UpdateStatus env taskID (review_status s (aq_TaskCode app) reviewerResponse) reviewerResponse))"

definition FeedbackApplication :: "'w OgaEnv \<Rightarrow> ogaService \<Rightarrow> string \<Rightarrow> obj option \<Rightarrow> ('w, unit) oga" where
  "FeedbackApplication env s taskID content =
     bindS (GetApplication env s taskID) (\<lambda>app.
     bindS (oga_now env) (\<lambda>now.
     bindS (wrapS ''failed to send feedback to service: %w'' []
       (sendToService env (aq_ServiceURL app)
         (task_response (aq_TaskID app) (aq_WorkflowID app) ''OGA_VERIFICATION_FEEDBACK'' content))) (\<lambda>_.
     AppendFeedback env taskID
       \<lparr>fb_Content = content, fb_Timestamp = now, fb_Round = int (length (aq_FeedbackHistory app)) + 1\<rparr>)))"

section \<open>handler.go and feedback/handler.go\<close>

record OgaRequest =
  oq_Method :: string
  oq_taskId :: string
  oq_query :: "(string, string) gomap"
  oq_Body :: "any option"

datatype 'v OgaReply = OReply nat 'v | OError nat string "go_error option"

fun reply_status :: "'v OgaReply \<Rightarrow> nat" where
  "reply_status (OReply n v) = n"
| "reply_status (OError n m e) = n"

definition dec_inject :: "InjectRequest decoder" where
  "dec_inject = dec_struct (\<lambda>m.
     bind_res (dec_field dec_string ''taskId'' m) (\<lambda>t.
     bind_res (dec_field dec_string ''taskCode'' m) (\<lambda>c.
     bind_res (dec_field dec_string ''workflowId'' m) (\<lambda>w.
     bind_res (dec_field (dec_ptr dec_obj) ''data'' m) (\<lambda>d.
     bind_res (dec_field dec_string ''serviceUrl'' m) (\<lambda>u.
     bind_res (dec_field (dec_slice (dec_ptr dec_obj)) ''ogaFeedbackHistory'' m) (\<lambda>_.
     Ok \<lparr>ir_TaskID = t, ir_TaskCode = c, ir_WorkflowID = w, ir_Data = d, ir_ServiceURL = u\<rparr>)))))))"

definition HandleInjectData :: "'w OgaEnv \<Rightarrow> OgaRequest \<Rightarrow> ('w, string OgaReply) oga" where
  "HandleInjectData env r =
     (if oq_Method r \<noteq> ''POST'' then returnS (OError 405 ''Method not allowed'' None)
      else case unmarshal dec_inject (oq_Body r) of
        Err e \<Rightarrow> returnS (OError 400 ''Invalid request body: '' (Some e))
      | Panic \<Rightarrow> liftS Panic
      | Ok req \<Rightarrow>
          bindS (attemptS (CreateApplication env req)) (\<lambda>result.
          case result of
            Err e \<Rightarrow> returnS (OError 500 ''Failed to create application: '' (Some e))
          | Panic \<Rightarrow> liftS Panic
          | Ok _ \<Rightarrow> returnS (OReply 201 (ir_TaskID req))))"

definition query_get :: "OgaRequest \<Rightarrow> string \<Rightarrow> string" where
  "query_get r k = query_value (oq_query r) k"

text \<open>The number of a parameter, zero when it is absent.\<close>

definition query_int :: "OgaRequest \<Rightarrow> string \<Rightarrow> 64 word res" where
  "query_int r k =
     (case strconv_Atoi (query_get r k) of
        Ok n \<Rightarrow> Ok n
      | Err e \<Rightarrow> if query_get r k \<noteq> '''' then Err e else Ok 0
      | Panic \<Rightarrow> Panic)"

definition paged_handler ::
    "OgaRequest \<Rightarrow> string \<Rightarrow> (64 word \<Rightarrow> 64 word \<Rightarrow> ('w, 'v) oga) \<Rightarrow> ('w, 'v OgaReply) oga" where
  "paged_handler r failure list =
     (if oq_Method r \<noteq> ''GET'' then returnS (OError 405 ''Method not allowed'' None)
      else case query_int r ''page'' of
        Err e \<Rightarrow> returnS (OError 400 ''Invalid page number'' None)
      | Panic \<Rightarrow> liftS Panic
      | Ok page \<Rightarrow>
          (case query_int r ''pageSize'' of
             Err e \<Rightarrow> returnS (OError 400 ''Invalid page size'' None)
           | Panic \<Rightarrow> liftS Panic
           | Ok pageSize \<Rightarrow>
               bindS (attemptS (list page pageSize)) (\<lambda>result.
               case result of
                 Err e \<Rightarrow> returnS (OError 500 failure None)
               | Panic \<Rightarrow> liftS Panic
               | Ok v \<Rightarrow> returnS (OReply 200 v))))"

definition HandleGetApplications :: "'w OgaEnv \<Rightarrow> ogaService \<Rightarrow> OgaRequest \<Rightarrow> ('w, Application PagedResponse OgaReply) oga" where
  "HandleGetApplications env s r =
     paged_handler r ''Failed to get applications''
       (GetApplications env s (query_get r ''status'') (query_get r ''workflowId'') (query_get r ''q''))"

definition HandleGetWorkflows :: "'w OgaEnv \<Rightarrow> OgaRequest \<Rightarrow> ('w, WorkflowSummary PagedResponse OgaReply) oga" where
  "HandleGetWorkflows env r =
     paged_handler r ''Failed to get workflows'' (GetWorkflows env (query_get r ''q''))"

definition HandleGetApplication :: "'w OgaEnv \<Rightarrow> ogaService \<Rightarrow> OgaRequest \<Rightarrow> ('w, Application OgaReply) oga" where
  "HandleGetApplication env s r =
     (if oq_Method r \<noteq> ''GET'' then returnS (OError 405 ''Method not allowed'' None)
      else if oq_taskId r = '''' then returnS (OError 400 ''taskId is required'' None)
      else bindS (attemptS (GetApplication env s (oq_taskId r))) (\<lambda>result.
           case result of
             Err e \<Rightarrow> returnS (if e = ErrApplicationNotFound then OError 404 ''Application not found'' None
                             else OError 500 ''Failed to get application'' None)
           | Panic \<Rightarrow> liftS Panic
           | Ok a \<Rightarrow> returnS (OReply 200 a)))"

definition HandleReviewApplication :: "'w OgaEnv \<Rightarrow> ogaService \<Rightarrow> OgaRequest \<Rightarrow> ('w, unit OgaReply) oga" where
  "HandleReviewApplication env s r =
     (if oq_Method r \<noteq> ''POST'' then returnS (OError 405 ''Method not allowed'' None)
      else if oq_taskId r = '''' then returnS (OError 400 ''taskId is required'' None)
      else case unmarshal (dec_ptr dec_obj) (oq_Body r) of
        Err e \<Rightarrow> returnS (OError 400 ''Invalid request body: '' (Some e))
      | Panic \<Rightarrow> liftS Panic
      | Ok body \<Rightarrow>
          bindS (attemptS (ReviewApplication env s (oq_taskId r) body)) (\<lambda>result.
          case result of
            Err e \<Rightarrow> returnS (if e = ErrApplicationNotFound then OError 404 ''Application not found'' None
                            else OError 500 ''Failed to review application: '' (Some e))
          | Panic \<Rightarrow> liftS Panic
          | Ok _ \<Rightarrow> returnS (OReply 200 ())))"

definition HandleFeedback :: "'w OgaEnv \<Rightarrow> ogaService \<Rightarrow> OgaRequest \<Rightarrow> ('w, unit OgaReply) oga" where
  "HandleFeedback env s r =
     (if trim_space (oq_taskId r) = '''' then returnS (OError 400 ''taskId is required'' None)
      else case unmarshal (dec_ptr dec_obj) (oq_Body r) of
        Err e \<Rightarrow> returnS (OError 400 ''invalid request body: '' (Some e))
      | Panic \<Rightarrow> liftS Panic
      | Ok body \<Rightarrow>
          (case Option.bind body (\<lambda>m. Option.bind (map_get m ''feedback'') as_str) of
             None \<Rightarrow> returnS (OError 400 ''feedback field is required and must be a non-empty string'' None)
           | Some feedback \<Rightarrow>
               if trim_space feedback = '''' then returnS (OError 400 ''feedback field is required and must be a non-empty string'' None)
               else bindS (attemptS (FeedbackApplication env s (oq_taskId r) body)) (\<lambda>result.
                 case result of
                   Err e \<Rightarrow> returnS (OError 500 ''failed to send feedback: '' (Some e))
                 | Panic \<Rightarrow> liftS Panic
                 | Ok _ \<Rightarrow> returnS (OReply 200 ()))))"

end
