(* ===== verification/OgaProperties.thy ===== *)
theory OgaProperties
  imports OgaApplications "HOL-Library.Multiset"
begin

text \<open>
  What the portal's backend guarantees: what a review, a feedback and an injection do to the table
  and to the peer on every branch, the invariant of the table over all sequences of requests,
  the pages of the list and the workflows that are listed.
\<close>

section \<open>Single statements\<close>

definition quiet_oga :: "'w OgaEnv \<Rightarrow> bool" where
  "quiet_oga env \<longleftrightarrow> (\<forall>t. oe_fault env t = None)"

lemma oga_db_cases:
  assumes "oga_db env stmt w = (r, w')"
  obtains e where "r = Err e" "w' = w\<lparr>ow_tick := Suc (ow_tick w)\<rparr>" "oe_fault env (ow_tick w) = Some e"
  | "oe_fault env (ow_tick w) = None" "stmt (w\<lparr>ow_tick := Suc (ow_tick w)\<rparr>) = (r, w')"
  using assms by (auto simp: oga_db_def Let_def split: option.splits)

lemma oga_db_quiet: "quiet_oga env \<Longrightarrow> oga_db env stmt w = stmt (w\<lparr>ow_tick := Suc (ow_tick w)\<rparr>)"
  by (simp add: oga_db_def quiet_oga_def)

lemma GetByTaskID_run:
  assumes "GetByTaskID env i w = (r, w')"
  shows "w' = w\<lparr>ow_tick := Suc (ow_tick w)\<rparr> \<and> (\<forall>a. r = Ok a \<longrightarrow> List.find (app_row i) (ow_apps w) = Some a) \<and> r \<noteq> Panic
     \<and> (r = Err RecordNotFound \<and> oe_fault env (ow_tick w) = None \<longrightarrow> List.find (app_row i) (ow_apps w) = None)"
  using assms unfolding GetByTaskID_def
  by (elim oga_db_cases) (auto simp: db_first_def split: option.splits)

lemma find_app: "List.find (app_row i) rows = Some a \<Longrightarrow> a \<in> set rows \<and> ap_TaskID a = i"
  by (auto dest: find_Some_mem simp: app_row_def)

lemma app_found: "(\<exists>x \<in> set rows. app_row i x) \<longleftrightarrow> List.find (app_row i) rows \<noteq> None"
  by (metis find_None_all)

lemma attemptS_run: "attemptS m s = (r, t) \<longleftrightarrow> (m s = (Panic, t) \<and> r = Panic) \<or> (\<exists>x. m s = (x, t) \<and> x \<noteq> Panic \<and> r = Ok x)"
  by (auto simp: attemptS_def split: prod.splits res.splits)

text \<open>The application a task id names, as the service reads it.\<close>

lemma GetApplication_run:
  assumes "GetApplication env s i w = (r, w')"
  shows "w' = w\<lparr>ow_tick := Suc (ow_tick w)\<rparr>
     \<and> (\<forall>app. r = Ok app \<longrightarrow> (\<exists>a. List.find (app_row i) (ow_apps w) = Some a \<and> app = application_of s a)) \<and> r \<noteq> Panic"
proof -
  obtain r1 w1 where g: "GetByTaskID env i w = (r1, w1)" by (cases "GetByTaskID env i w")
  show ?thesis
    using assms GetByTaskID_run [OF g] g unfolding GetApplication_def
    by (cases r1) (auto simp: bindS_def attemptS_def returnS_def failS_def)
qed

lemma application_of_simps [simp]:
  "aq_TaskID (application_of s a) = ap_TaskID a" "aq_WorkflowID (application_of s a) = ap_WorkflowID a"
  "aq_ServiceURL (application_of s a) = ap_ServiceURL a" "aq_TaskCode (application_of s a) = ap_TaskCode a"
  "aq_FeedbackHistory (application_of s a) = ap_History a" "aq_Status (application_of s a) = ap_Status a"
  by (auto simp: application_of_def Let_def split: res.splits)

lemma sendToService_run:
  assumes "sendToService env url body w = (r, w')"
  shows "\<exists>p. w' = w\<lparr>ow_peer := p\<rparr> \<and> snd (oe_post env url body (ow_peer w)) = p
     \<and> (\<forall>u. r = Ok u \<longrightarrow> (\<exists>st. fst (oe_post env url body (ow_peer w)) = Ok st \<and> 200 \<le> st \<and> st < 300))"
  using assms by (auto simp: sendToService_def split: prod.splits res.splits if_splits)

lemma UpdateStatus_run:
  assumes "UpdateStatus env i st resp w = (r, w')"
  shows "ow_peer w' = ow_peer w \<and>
     (case r of
        Ok _ \<Rightarrow> (\<exists>now. ow_apps w' = update_where (app_row i) (\<lambda>a. a\<lparr>ap_Status := st, ap_ReviewedAt := Some now,
                     ap_UpdatedAt := now, ap_ReviewerResponse := resp\<rparr>) (ow_apps w))
      | _ \<Rightarrow> ow_apps w' = ow_apps w)"
proof -
  let ?now = "oe_now env (ow_tick w)"
  let ?f = "\<lambda>a. a\<lparr>ap_Status := st, ap_ReviewedAt := Some ?now, ap_UpdatedAt := ?now, ap_ReviewerResponse := resp\<rparr>"
  have "ow_peer w' = ow_peer w \<and> (r = Ok () \<longrightarrow> ow_apps w' = update_where (app_row i) ?f (ow_apps w))
      \<and> (r \<noteq> Ok () \<longrightarrow> ow_apps w' = ow_apps w)"
    using assms unfolding UpdateStatus_def bindS_iff oga_now_def
    by (auto elim!: oga_db_cases simp: update_app_def failS_def returnS_def update_where_none split: if_splits)
  then show ?thesis by (cases r) auto
qed

section \<open>Review\<close>

text \<open>
  A review sends the reviewer's answer to the service the application came from and, only when
  the service took it (a status from 200 to 299), writes the mapped status, the answer and the
  time into the row of that task and into no other. Every failure, of the lookup, the exchange
  or the database, leaves the table as it was.
\<close>

lemma review_effect:
  assumes "ReviewApplication env s i resp w = (r, w')"
  shows "case r of
      Ok _ \<Rightarrow> (\<exists>a st now. List.find (app_row i) (ow_apps w) = Some a
          \<and> oe_post env (ap_ServiceURL a) (task_response i (ap_WorkflowID a) ''OGA_VERIFICATION'' resp) (ow_peer w) = (Ok st, ow_peer w')
          \<and> 200 \<le> st \<and> st < 300
          \<and> ow_apps w' = update_where (app_row i) (\<lambda>a'. a'\<lparr>ap_Status := review_status s (ap_TaskCode a) resp,
                ap_ReviewedAt := Some now, ap_UpdatedAt := now, ap_ReviewerResponse := resp\<rparr>) (ow_apps w))
    | _ \<Rightarrow> ow_apps w' = ow_apps w"
proof -
  let ?w1 = "w\<lparr>ow_tick := Suc (ow_tick w)\<rparr>"
  obtain r1 w1 where g: "GetApplication env s i w = (r1, w1)" by (cases "GetApplication env s i w")
  have w1: "w1 = ?w1" and np: "r1 \<noteq> Panic" using GetApplication_run [OF g] by auto
  show ?thesis
  proof (cases "\<exists>app. r1 = Ok app")
    case False
    then obtain e where "r1 = Err e" using np by (cases r1) auto
    then have "r = Err e" "w' = w1" using assms g by (simp_all add: ReviewApplication_def bindS_def)
    then show ?thesis by (simp add: w1)
  next
    case True
    then obtain a where a: "List.find (app_row i) (ow_apps w) = Some a" "r1 = Ok (application_of s a)"
      using GetApplication_run [OF g] by auto
    have ai: "ap_TaskID a = i" using find_app [OF a(1)] by blast
    let ?body = "task_response i (ap_WorkflowID a) ''OGA_VERIFICATION'' resp"
    obtain r2 w2 where sd: "sendToService env (ap_ServiceURL a) ?body ?w1 = (r2, w2)"
      by (cases "sendToService env (ap_ServiceURL a) ?body ?w1")
    from sendToService_run [OF sd] obtain p where p: "w2 = ?w1\<lparr>ow_peer := p\<rparr>"
      "snd (oe_post env (ap_ServiceURL a) ?body (ow_peer w)) = p"
      "\<forall>u. r2 = Ok u \<longrightarrow> (\<exists>st. fst (oe_post env (ap_ServiceURL a) ?body (ow_peer w)) = Ok st \<and> 200 \<le> st \<and> st < 300)" by auto
    show ?thesis
    proof (cases r2)
      case (Ok u)
      then obtain st where st: "oe_post env (ap_ServiceURL a) ?body (ow_peer w) = (Ok st, p)" "200 \<le> st" "st < 300"
        using p(2,3) by (metis prod.collapse)
      have up: "UpdateStatus env i (review_status s (ap_TaskCode a) resp) resp w2 = (r, w')"
        using assms g a(2) sd Ok by (simp add: ReviewApplication_def bindS_def w1 ai wrapS_def)
      from UpdateStatus_run [OF up] have pe: "ow_peer w' = p" and c: "case r of
        Ok _ \<Rightarrow> (\<exists>now. ow_apps w' = update_where (app_row i) (\<lambda>a'. a'\<lparr>ap_Status := review_status s (ap_TaskCode a) resp,
            ap_ReviewedAt := Some now, ap_UpdatedAt := now, ap_ReviewerResponse := resp\<rparr>) (ow_apps w2))
        | _ \<Rightarrow> ow_apps w' = ow_apps w2" by (simp_all add: p(1))
      have w2: "ow_apps w2 = ow_apps w" by (simp add: p(1))
      show ?thesis using a(1) st pe c unfolding w2 by (cases r) auto
    qed (use assms g a(2) sd in \<open>auto simp: ReviewApplication_def bindS_def w1 ai wrapS_def p(1)\<close>)
  qed
qed

section \<open>Feedback\<close>

lemma AppendFeedback_run:
  assumes "AppendFeedback env i entry w = (r, w')"
  shows "ow_peer w' = ow_peer w \<and> r \<noteq> Panic \<and> (r \<noteq> Ok () \<longrightarrow> ow_apps w' = ow_apps w)
     \<and> (r = Ok () \<longrightarrow> (\<exists>b now. List.find (app_row i) (ow_apps w) = Some b
         \<and> ow_apps w' = update_where (app_row i) (\<lambda>a. a\<lparr>ap_History := ap_History b @ [entry],
              ap_Status := ''FEEDBACK_REQUESTED'', ap_UpdatedAt := now\<rparr>) (ow_apps w)))"
proof -
  let ?body = "bindS (GetByTaskID env i) (\<lambda>app. bindS (oga_now env) (\<lambda>now.
        bindS (oga_db env (update_app i (\<lambda>a. a\<lparr>ap_History := ap_History app @ [entry],
            ap_Status := ''FEEDBACK_REQUESTED'', ap_UpdatedAt := now\<rparr>))) (\<lambda>_. returnS ())))"
  have body: "ow_peer v' = ow_peer v \<and> q \<noteq> Panic \<and> (q = Ok () \<longrightarrow> (\<exists>b now. List.find (app_row i) (ow_apps v) = Some b
         \<and> ow_apps v' = update_where (app_row i) (\<lambda>a. a\<lparr>ap_History := ap_History b @ [entry],
              ap_Status := ''FEEDBACK_REQUESTED'', ap_UpdatedAt := now\<rparr>) (ow_apps v)))"
    if run: "?body v = (q, v')" for v q and v' :: "'a OgaWorld"
  proof -
    obtain r1 v1 where g: "GetByTaskID env i v = (r1, v1)" by (cases "GetByTaskID env i v")
    note gr = GetByTaskID_run [OF g]
    then have v1: "ow_apps v1 = ow_apps v" "ow_peer v1 = ow_peer v" by auto
    show ?thesis
    proof (cases r1)
      case (Ok b)
      let ?now = "oe_now env (ow_tick v1)"
      have "(q = Ok () \<and> ow_apps v' = update_where (app_row i) (\<lambda>a. a\<lparr>ap_History := ap_History b @ [entry],
              ap_Status := ''FEEDBACK_REQUESTED'', ap_UpdatedAt := ?now\<rparr>) (ow_apps v) \<or> is_err q) \<and> ow_peer v' = ow_peer v"
        using run g Ok v1
        by (auto simp: bindS_iff oga_now_def returnS_def update_app_def elim!: oga_db_cases)
      then show ?thesis using gr Ok by (auto simp: is_err_iff)
    qed (use run g gr in \<open>auto simp: bindS_def\<close>)
  qed
  show ?thesis
    using assms body [of "w\<lparr>ow_tick := Suc (ow_tick w)\<rparr>"] unfolding AppendFeedback_def
    by (auto simp: oga_transaction_def split: prod.splits res.splits elim!: oga_db_cases)
qed

text \<open>
  A feedback sends the officer's content to the service and, only when the service took it,
  appends one entry, numbered one more than the entries already there, and asks the trader for
  changes (FEEDBACK\_REQUESTED); a failure leaves the table as it was, also one between the read and
  the commit of the transaction.
\<close>

lemma feedback_effect:
  assumes "FeedbackApplication env s i content w = (r, w')"
  shows "case r of
      Ok _ \<Rightarrow> (\<exists>b st ts now. List.find (app_row i) (ow_apps w) = Some b
          \<and> oe_post env (ap_ServiceURL b) (task_response i (ap_WorkflowID b) ''OGA_VERIFICATION_FEEDBACK'' content) (ow_peer w)
              = (Ok st, ow_peer w')
          \<and> 200 \<le> st \<and> st < 300
          \<and> ow_apps w' = update_where (app_row i) (\<lambda>a. a\<lparr>
                ap_History := ap_History b @ [\<lparr>fb_Content = content, fb_Timestamp = ts, fb_Round = int (length (ap_History b)) + 1\<rparr>],
                ap_Status := ''FEEDBACK_REQUESTED'', ap_UpdatedAt := now\<rparr>) (ow_apps w))
    | _ \<Rightarrow> ow_apps w' = ow_apps w"
proof -
  let ?w1 = "w\<lparr>ow_tick := Suc (ow_tick w)\<rparr>"
  let ?w2 = "?w1\<lparr>ow_tick := Suc (Suc (ow_tick w))\<rparr>"
  obtain r1 w1 where g: "GetApplication env s i w = (r1, w1)" by (cases "GetApplication env s i w")
  have w1: "w1 = ?w1" and np: "r1 \<noteq> Panic" using GetApplication_run [OF g] by auto
  show ?thesis
  proof (cases "\<exists>app. r1 = Ok app")
    case False
    then obtain e where "r1 = Err e" using np by (cases r1) auto
    then have "r = Err e" "w' = w1" using assms g by (simp_all add: FeedbackApplication_def bindS_def)
    then show ?thesis by (simp add: w1)
  next
    case True
    then obtain b where b: "List.find (app_row i) (ow_apps w) = Some b" "r1 = Ok (application_of s b)"
      using GetApplication_run [OF g] by auto
    have bi: "ap_TaskID b = i" using find_app [OF b(1)] by blast
    let ?body = "task_response i (ap_WorkflowID b) ''OGA_VERIFICATION_FEEDBACK'' content"
    let ?entry = "\<lparr>fb_Content = content, fb_Timestamp = oe_now env (Suc (ow_tick w)), fb_Round = int (length (ap_History b)) + 1\<rparr>"
    obtain r2 w3 where sd: "sendToService env (ap_ServiceURL b) ?body ?w2 = (r2, w3)"
      by (cases "sendToService env (ap_ServiceURL b) ?body ?w2")
    from sendToService_run [OF sd] obtain p where p: "w3 = ?w2\<lparr>ow_peer := p\<rparr>"
      "snd (oe_post env (ap_ServiceURL b) ?body (ow_peer w)) = p"
      "\<forall>u. r2 = Ok u \<longrightarrow> (\<exists>st. fst (oe_post env (ap_ServiceURL b) ?body (ow_peer w)) = Ok st \<and> 200 \<le> st \<and> st < 300)" by auto
    have w3: "ow_apps w3 = ow_apps w" "ow_peer w3 = p" by (simp_all add: p(1))
    show ?thesis
    proof (cases r2)
      case (Ok u)
      then obtain st where st: "oe_post env (ap_ServiceURL b) ?body (ow_peer w) = (Ok st, p)" "200 \<le> st" "st < 300"
        using p(2,3) by (metis prod.collapse)
      have up: "AppendFeedback env i ?entry w3 = (r, w')"
        using assms g b(2) sd Ok by (simp add: FeedbackApplication_def bindS_def w1 bi wrapS_def oga_now_def)
      from AppendFeedback_run [OF up] have pe: "ow_peer w' = p" "r \<noteq> Panic" "r \<noteq> Ok () \<longrightarrow> ow_apps w' = ow_apps w"
        and upd: "r = Ok () \<longrightarrow> (\<exists>now. ow_apps w' = update_where (app_row i) (\<lambda>a. a\<lparr>ap_History := ap_History b @ [?entry],
              ap_Status := ''FEEDBACK_REQUESTED'', ap_UpdatedAt := now\<rparr>) (ow_apps w))"
        using b(1) by (auto simp: w3)
      show ?thesis
      proof (cases "r = Ok ()")
        case True
        with upd obtain now where "ow_apps w' = update_where (app_row i) (\<lambda>a. a\<lparr>ap_History := ap_History b @ [?entry],
              ap_Status := ''FEEDBACK_REQUESTED'', ap_UpdatedAt := now\<rparr>) (ow_apps w)" by blast
        then show ?thesis using True b(1) st pe(1) by auto
      qed (use pe in \<open>cases r; simp\<close>)
    qed (use assms g b(2) sd w3(1) in \<open>auto simp: FeedbackApplication_def bindS_def w1 bi wrapS_def oga_now_def\<close>)
  qed
qed

section \<open>Injection\<close>

lemma CreateOrUpdate_run:
  assumes "CreateOrUpdate env a w = (r, w')"
  shows "ow_peer w' = ow_peer w \<and> (r \<noteq> Ok () \<longrightarrow> ow_apps w' = ow_apps w)
     \<and> (r = Ok () \<longrightarrow> (let now = oe_now env (ow_tick w) in ow_apps w' =
          (if List.find (app_row (ap_TaskID a)) (ow_apps w) = None
           then ow_apps w @ [a\<lparr>ap_CreatedAt := (if ap_CreatedAt a = zero_time then now else ap_CreatedAt a), ap_UpdatedAt := now\<rparr>]
           else update_where (app_row (ap_TaskID a)) (\<lambda>_. a\<lparr>ap_UpdatedAt := now\<rparr>) (ow_apps w))))"
  using assms unfolding Let_def CreateOrUpdate_def bindS_iff oga_now_def app_found
  by (auto elim!: oga_db_cases split: if_splits)

lemma UpdateData_run:
  assumes "UpdateDataAndResetStatus env i data w = (r, w')"
  shows "ow_peer w' = ow_peer w \<and> (r \<noteq> Ok () \<longrightarrow> ow_apps w' = ow_apps w)
     \<and> (r = Ok () \<longrightarrow> ow_apps w' =
          update_where (app_row i) (\<lambda>a. a\<lparr>ap_Data := data, ap_Status := ''PENDING'', ap_UpdatedAt := oe_now env (ow_tick w)\<rparr>) (ow_apps w))"
  using assms unfolding UpdateDataAndResetStatus_def bindS_iff oga_now_def
  by (auto elim!: oga_db_cases simp: update_app_def returnS_def)

text \<open>A failure of the database is another error than \<open>gorm.ErrRecordNotFound\<close>.\<close>

definition real_faults :: "'w OgaEnv \<Rightarrow> bool" where
  "real_faults env \<longleftrightarrow> (\<forall>t e. oe_fault env t = Some e \<longrightarrow> \<not> is_not_found e)"

lemma inject_effect_core:
  assumes "CreateApplication env req w = (r, w')" and faults: "real_faults env"
  shows "ow_peer w' = ow_peer w \<and>
   (case r of
      Ok _ \<Rightarrow> ir_TaskID req \<noteq> '''' \<and> ir_TaskCode req \<noteq> '''' \<and> ir_WorkflowID req \<noteq> '''' \<and> ir_ServiceURL req \<noteq> '''' \<and>
        (\<exists>now. ow_apps w' =
          (case List.find (app_row (ir_TaskID req)) (ow_apps w) of
             None \<Rightarrow> ow_apps w @ [(new_application req)\<lparr>ap_CreatedAt := now, ap_UpdatedAt := now\<rparr>]
           | Some a \<Rightarrow>
               if ap_Status a = ''FEEDBACK_REQUESTED''
               then update_where (app_row (ir_TaskID req))
                      (\<lambda>a. a\<lparr>ap_Data := ir_Data req, ap_Status := ''PENDING'', ap_UpdatedAt := now\<rparr>) (ow_apps w)
               else update_where (app_row (ir_TaskID req)) (\<lambda>_. (new_application req)\<lparr>ap_UpdatedAt := now\<rparr>) (ow_apps w)))
    | _ \<Rightarrow> ow_apps w' = ow_apps w)"
proof -
  let ?i = "ir_TaskID req"
  have ni [simp]: "ap_TaskID (new_application req) = ?i" "ap_CreatedAt (new_application req) = zero_time"
    by (simp_all add: new_application_def)
  obtain r1 w1 where g: "GetByTaskID env ?i w = (r1, w1)" by (cases "GetByTaskID env ?i w")
  let ?now = "oe_now env (ow_tick w1)"
  note gr = GetByTaskID_run [OF g]
  then have w1: "ow_apps w1 = ow_apps w" "ow_peer w1 = ow_peer w" by auto
  show ?thesis
  proof (cases "?i = '''' \<or> ir_TaskCode req = '''' \<or> ir_WorkflowID req = '''' \<or> ir_ServiceURL req = ''''")
    case True
    then show ?thesis using assms by (auto simp: CreateApplication_def failS_def)
  next
    case False
    show ?thesis
    proof (cases r1)
      case (Ok a)
      then have a: "List.find (app_row ?i) (ow_apps w) = Some a" using gr by blast
      have "(if ap_Status a = ''FEEDBACK_REQUESTED'' then UpdateDataAndResetStatus env ?i (ir_Data req) w1
             else CreateOrUpdate env (new_application req) w1) = (r, w')"
        using assms False g Ok by (auto simp: CreateApplication_def bindS_def attemptS_def)
      then have "ow_peer w' = ow_peer w \<and> (r \<noteq> Ok () \<longrightarrow> ow_apps w' = ow_apps w) \<and>
          (r = Ok () \<longrightarrow> ow_apps w' = (if ap_Status a = ''FEEDBACK_REQUESTED''
             then update_where (app_row ?i) (\<lambda>a. a\<lparr>ap_Data := ir_Data req, ap_Status := ''PENDING'', ap_UpdatedAt := ?now\<rparr>) (ow_apps w)
             else update_where (app_row ?i) (\<lambda>_. (new_application req)\<lparr>ap_UpdatedAt := ?now\<rparr>) (ow_apps w)))"
        using a w1 by (auto simp: Let_def split: if_splits dest!: UpdateData_run CreateOrUpdate_run)
      then show ?thesis using False a by (cases r) (simp_all, (intro conjI impI exI [of _ ?now]; rule refl)?)
    next
      case (Err e)
      show ?thesis
      proof (cases "is_not_found e")
        case True
        then have run: "CreateOrUpdate env (new_application req) w1 = (r, w')"
          using assms False g Err by (auto simp: CreateApplication_def bindS_def attemptS_def)
        have none: "List.find (app_row ?i) (ow_apps w) = None" using g True gr faults Err
          unfolding GetByTaskID_def real_faults_def
          by (elim oga_db_cases) (auto simp: db_first_def split: option.splits)
        have "ow_peer w' = ow_peer w \<and> (r \<noteq> Ok () \<longrightarrow> ow_apps w' = ow_apps w) \<and>
          (r = Ok () \<longrightarrow> ow_apps w' = ow_apps w @ [(new_application req)\<lparr>ap_CreatedAt := ?now, ap_UpdatedAt := ?now\<rparr>])"
          using CreateOrUpdate_run [OF run] w1 none by (simp add: Let_def)
        then show ?thesis using False none by (cases r) (simp_all, (rule exI [of _ ?now], simp)?)
      qed (use assms False g Err w1 in \<open>auto simp: CreateApplication_def bindS_def attemptS_def failS_def\<close>)
    qed (use gr in simp)
  qed
qed

text \<open>
  C29: What an injected application does to the table. A task that is not there gets a PENDING row; a
  task whose officer asked for changes keeps its row, history included, with the new data and
  the status PENDING; any other row of that task, a reviewed one too, is replaced as a whole: the
  feedback history, the reviewer's answer and the time of creation are lost. The peer is not
  asked, and a failed injection changes nothing.
\<close>

theorem inject_effect:
  assumes "CreateApplication env req w = (r, w')" and faults: "real_faults env"
  shows "ow_peer w' = ow_peer w \<and>
   (case r of
      Ok _ \<Rightarrow> ir_TaskID req \<noteq> '''' \<and> ir_TaskCode req \<noteq> '''' \<and> ir_WorkflowID req \<noteq> '''' \<and> ir_ServiceURL req \<noteq> '''' \<and>
        (\<exists>now. ow_apps w' =
          (case List.find (app_row (ir_TaskID req)) (ow_apps w) of
             None \<Rightarrow> ow_apps w @ [(new_application req)\<lparr>ap_CreatedAt := now, ap_UpdatedAt := now\<rparr>]
           | Some a \<Rightarrow>
               if ap_Status a = ''FEEDBACK_REQUESTED''
               then update_where (app_row (ir_TaskID req))
                      (\<lambda>a. a\<lparr>ap_Data := ir_Data req, ap_Status := ''PENDING'', ap_UpdatedAt := now\<rparr>) (ow_apps w)
               else update_where (app_row (ir_TaskID req)) (\<lambda>_. (new_application req)\<lparr>ap_UpdatedAt := now\<rparr>) (ow_apps w)))
    | _ \<Rightarrow> ow_apps w' = ow_apps w)"
  by (rule inject_effect_core [OF assms])

section \<open>The table over all requests\<close>

inductive oga_reachable :: "'w OgaEnv \<Rightarrow> ogaService \<Rightarrow> 'w OgaWorld \<Rightarrow> bool" for env :: "'w OgaEnv" and s :: ogaService where
  start: "ow_apps w = [] \<Longrightarrow> oga_reachable env s w"
| inject: "oga_reachable env s w \<Longrightarrow> CreateApplication env req w = (r, w') \<Longrightarrow> oga_reachable env s w'"
| review: "oga_reachable env s w \<Longrightarrow> ReviewApplication env s i resp w = (r, w') \<Longrightarrow> oga_reachable env s w'"
| feedback: "oga_reachable env s w \<Longrightarrow> FeedbackApplication env s i content w = (r, w') \<Longrightarrow> oga_reachable env s w'"
| delete: "oga_reachable env s w \<Longrightarrow> Delete_app env i w = (r, w') \<Longrightarrow> oga_reachable env s w'"
| peer: "oga_reachable env s w \<Longrightarrow> oga_reachable env s (w\<lparr>ow_peer := p\<rparr>)"

definition rounds_numbered :: "ApplicationRecord \<Rightarrow> bool" where
  "rounds_numbered a \<longleftrightarrow> map fb_Round (ap_History a) = map int [1..<Suc (length (ap_History a))]"

definition app_ok :: "ApplicationRecord \<Rightarrow> bool" where
  "app_ok a \<longleftrightarrow> ap_TaskID a \<noteq> '''' \<and> ap_TaskCode a \<noteq> '''' \<and> ap_WorkflowID a \<noteq> '''' \<and> ap_ServiceURL a \<noteq> '''' \<and> rounds_numbered a
     \<and> (ap_ReviewedAt a = None \<longrightarrow> ap_ReviewerResponse a = None)"

definition table_ok :: "ApplicationRecord list \<Rightarrow> bool" where
  "table_ok rows \<longleftrightarrow> distinct (map ap_TaskID rows) \<and> (\<forall>a \<in> set rows. app_ok a)"

lemma table_ok_update:
  assumes "table_ok rows" and "\<And>a. a \<in> set rows \<Longrightarrow> ap_TaskID a = i \<Longrightarrow> ap_TaskID (f a) = i \<and> app_ok (f a)"
  shows "table_ok (update_where (app_row i) f rows)"
proof -
  have "map ap_TaskID (update_where (app_row i) f rows) = map ap_TaskID rows"
    using assms(2) by (intro update_where_map_same) (auto simp: app_row_def)
  then have "distinct (map ap_TaskID (update_where (app_row i) f rows))" using assms(1) by (simp add: table_ok_def)
  moreover have "app_ok a" if "a \<in> set (update_where (app_row i) f rows)" for a
    using that assms by (auto simp: table_ok_def update_where_def app_row_def split: if_splits)
  ultimately show ?thesis by (simp add: table_ok_def)
qed

lemma table_ok_add:
  "table_ok rows \<Longrightarrow> List.find (app_row (ap_TaskID a)) rows = None \<Longrightarrow> app_ok a \<Longrightarrow> table_ok (rows @ [a])"
  by (auto simp: table_ok_def find_None_all app_row_def)

lemma rounds_append:
  "rounds_numbered a \<Longrightarrow> ap_History a' = ap_History a @ [e] \<Longrightarrow> fb_Round e = int (length (ap_History a)) + 1 \<Longrightarrow> rounds_numbered a'"
  by (simp add: rounds_numbered_def)

lemma find_own: "table_ok rows \<Longrightarrow> List.find (app_row i) rows = Some b \<Longrightarrow> a \<in> set rows \<Longrightarrow> ap_TaskID a = i \<Longrightarrow> a = b"
  unfolding table_ok_def by (metis (no_types, lifting) find_app distinct_map inj_onD)

lemma inject_table_ok:
  assumes "CreateApplication env req w = (r, w')" "real_faults env" "table_ok (ow_apps w)"
  shows "table_ok (ow_apps w')"
proof -
  have new: "app_ok ((new_application req)\<lparr>ap_CreatedAt := c, ap_UpdatedAt := u\<rparr>)" "app_ok ((new_application req)\<lparr>ap_UpdatedAt := u\<rparr>)"
    if "ir_TaskID req \<noteq> ''''" "ir_TaskCode req \<noteq> ''''" "ir_WorkflowID req \<noteq> ''''" "ir_ServiceURL req \<noteq> ''''" for c u
    using that by (auto simp: app_ok_def new_application_def rounds_numbered_def)
  have same: "table_ok (update_where (app_row i) (\<lambda>a. a\<lparr>ap_Data := d, ap_Status := st, ap_UpdatedAt := u\<rparr>) (ow_apps w))" for i d st u
    by (rule table_ok_update [OF assms(3)]) (use assms(3) in \<open>auto simp: table_ok_def app_ok_def rounds_numbered_def\<close>)
  have repl: "table_ok (update_where (app_row (ir_TaskID req)) (\<lambda>_. (new_application req)\<lparr>ap_UpdatedAt := u\<rparr>) (ow_apps w))"
    if "app_ok ((new_application req)\<lparr>ap_UpdatedAt := u\<rparr>)" for u
    by (rule table_ok_update [OF assms(3)]) (use that in \<open>auto simp: new_application_def\<close>)
  have add: "table_ok (ow_apps w @ [(new_application req)\<lparr>ap_CreatedAt := u, ap_UpdatedAt := u\<rparr>])"
    if "app_ok ((new_application req)\<lparr>ap_CreatedAt := u, ap_UpdatedAt := u\<rparr>)" "List.find (app_row (ir_TaskID req)) (ow_apps w) = None" for u
    by (rule table_ok_add [OF assms(3)]) (use that in \<open>auto simp: new_application_def\<close>)
  show ?thesis
  proof (cases r)
    case (Ok u)
    show ?thesis
    proof (cases "List.find (app_row (ir_TaskID req)) (ow_apps w)")
      case None
      then show ?thesis using inject_effect_core [OF assms(1,2)] Ok add new(1) by auto
    next
      case (Some a)
      then show ?thesis using inject_effect_core [OF assms(1,2)] Ok same repl new(2) by (cases "ap_Status a = ''FEEDBACK_REQUESTED''") auto
    qed
  qed (use inject_effect_core [OF assms(1,2)] assms(3) in auto)
qed

lemma review_table_ok:
  assumes "ReviewApplication env s i resp w = (r, w')" "table_ok (ow_apps w)"
  shows "table_ok (ow_apps w')"
proof -
  have "table_ok (update_where (app_row i) (\<lambda>a. a\<lparr>ap_Status := st, ap_ReviewedAt := Some u, ap_UpdatedAt := u, ap_ReviewerResponse := x\<rparr>) (ow_apps w))" for st u x
    by (rule table_ok_update [OF assms(2)]) (use assms(2) in \<open>auto simp: table_ok_def app_ok_def rounds_numbered_def\<close>)
  then show ?thesis using review_effect [OF assms(1)] assms(2) by (cases r) auto
qed

lemma feedback_table_ok:
  assumes "FeedbackApplication env s i content w = (r, w')" "table_ok (ow_apps w)"
  shows "table_ok (ow_apps w')"
proof -
  have "table_ok (update_where (app_row i) (\<lambda>a. a\<lparr>ap_History := ap_History b @ [e], ap_Status := st, ap_UpdatedAt := u\<rparr>) (ow_apps w))"
    if "List.find (app_row i) (ow_apps w) = Some b" "fb_Round e = int (length (ap_History b)) + 1" for b e st u
  proof (rule table_ok_update [OF assms(2)])
    fix a assume a: "a \<in> set (ow_apps w)" "ap_TaskID a = i"
    then have "a = b" using find_own [OF assms(2) that(1)] by blast
    moreover have "app_ok a" using a assms(2) by (auto simp: table_ok_def)
    ultimately show "ap_TaskID (a\<lparr>ap_History := ap_History b @ [e], ap_Status := st, ap_UpdatedAt := u\<rparr>) = i
        \<and> app_ok (a\<lparr>ap_History := ap_History b @ [e], ap_Status := st, ap_UpdatedAt := u\<rparr>)"
      using a(2) that(2) by (auto simp: app_ok_def rounds_numbered_def)
  qed
  then show ?thesis using feedback_effect [OF assms(1)] assms(2) by (cases r) auto
qed

text \<open>
  C27: In every state the requests can reach, over any peer, each task has one row, no row lacks its task,
  code, workflow or service, an answer is recorded only with its time, and the feedback rounds of
  a row are numbered 1, 2, \<dots> without a gap.
\<close>

theorem reachable_table_ok:
  assumes "oga_reachable env s w" and "real_faults env"
  shows "table_ok (ow_apps w)"
  using assms(1)
proof (induction rule: oga_reachable.induct)
  case (start w)
  then show ?case by (simp add: table_ok_def)
next
  case (inject w req r w')
  then show ?case using inject_table_ok assms(2) by blast
next
  case (review w i resp r w')
  then show ?case using review_table_ok by blast
next
  case (feedback w i content r w')
  then show ?case using feedback_table_ok by blast
next
  case (delete w i r w')
  then show ?case by (auto simp: Delete_app_def table_ok_def distinct_map_filter elim!: oga_db_cases)
next
  case (peer w p)
  then show ?case by simp
qed

section \<open>Pages\<close>

lemma offset_word:
  assumes "1 \<le> p" "p \<le> 2 ^ 56" "k \<le> 100"
  shows "sint ((of_nat p - 1) * of_nat k :: 64 word) = int ((p - 1) * k)"
proof -
  have "(of_nat p - 1 :: 64 word) = of_nat (p - 1)" using assms(1) by (simp add: of_nat_diff)
  then have "(of_nat p - 1) * of_nat k = (of_nat ((p - 1) * k) :: 64 word)" by simp
  moreover have "(p - 1) * k \<le> 2 ^ 56 * 100" using assms by (intro mult_mono) auto
  ultimately show ?thesis using sint_small [of "(p - 1) * k"] by simp
qed

lemma clamp_page_small: "1 \<le> p \<Longrightarrow> p \<le> 2 ^ 56 \<Longrightarrow> clamp_page (of_nat p) = of_nat p"
  using sint_small [of p] by (simp add: clamp_page_def)

lemma clamp_size_small: "1 \<le> k \<Longrightarrow> k \<le> 100 \<Longrightarrow> clamp_size (of_nat k) = of_nat k"
  using sint_small [of k] by (simp add: clamp_size_def)

definition steady :: "'w OgaEnv \<Rightarrow> bool" where
  "steady env \<longleftrightarrow> quiet_oga env \<and> (\<forall>t. oe_rank env t = oe_rank env 0)"

lemma by_time_steady: "steady env \<Longrightarrow> by_time key env t rows = by_time key env 0 rows"
  unfolding steady_def by_time_def by metis

lemma GetApplications_page:
  assumes "steady env" "1 \<le> p" "p \<le> 2 ^ 56" "1 \<le> k" "k \<le> 100"
    and "rows = by_time ap_CreatedAt env 0 (filter (app_matches env status flow search) (ow_apps w))"
  shows "fst (GetApplications env s status flow search (of_nat p) (of_nat k) w) =
     Ok \<lparr>pr_Items = map (list_item s) (take k (drop ((p - 1) * k) rows)), pr_Total = length rows,
         pr_Page = of_nat p, pr_PageSize = of_nat k\<rparr>"
proof -
  have q: "quiet_oga env" using assms(1) by (simp add: steady_def)
  have k63: "sint (of_nat k :: 64 word) = int k" using assms(5) by (intro sint_small) simp
  have ol: "offset_limit ((of_nat p - 1) * of_nat k) (of_nat k) xs = take k (drop ((p - 1) * k) xs)" for xs :: "ApplicationRecord list"
    unfolding offset_limit_def db_page_def offset_word [OF assms(2,3,5)] k63 by (simp only: nat_int)
  show ?thesis
    unfolding GetApplications_def clamp_page_small [OF assms(2,3)] clamp_size_small [OF assms(4,5)] Let_def List_apps_def
    using by_time_steady [OF assms(1), of ap_CreatedAt "Suc (Suc (ow_tick w))"]
    by (simp add: bindS_def oga_db_quiet [OF q] returnS_def ol assms(6)) (simp add: by_time_def)
qed

lemma by_time_perm: "mset (by_time key env t rows) = mset rows" and by_time_sorted: "sorted_wrt (\<lambda>a b. key a \<ge> key b) (by_time key env t rows)"
proof -
  show "mset (by_time key env t rows) = mset rows" by (simp add: by_time_def)
  have "sorted (map (\<lambda>a. - key a) (by_time key env t rows))" unfolding by_time_def by (rule sorted_sort_key)
  then show "sorted_wrt (\<lambda>a b. key a \<ge> key b) (by_time key env t rows)" by (simp add: sorted_map)
qed

lemma length_by_time [simp]: "length (by_time key env t rows) = length rows"
  by (simp add: by_time_def)

text \<open>
  Without a failure and with an order that stays the same between the queries, the pages of a list of
  applications, one after the other, are the matching rows in the order of their creation, the
  latest first, each row once; the page size is the requested one from 1 to 100.
\<close>

theorem pages_list_everything:
  assumes "steady env" and "1 \<le> k" "k \<le> 100" and "n \<le> 2 ^ 56"
    and "length (filter (app_matches env status flow search) (ow_apps w)) \<le> n * k"
  shows "\<exists>rows. concat (map (\<lambda>p. case fst (GetApplications env s status flow search (of_nat p) (of_nat k) w) of
                        Ok resp \<Rightarrow> pr_Items resp | _ \<Rightarrow> []) [1..<Suc n]) = map (list_item s) rows
      \<and> mset rows = mset (filter (app_matches env status flow search) (ow_apps w))
      \<and> sorted_wrt (\<lambda>a b. ap_CreatedAt a \<ge> ap_CreatedAt b) rows"
proof (intro exI conjI)
  let ?rows = "by_time ap_CreatedAt env 0 (filter (app_matches env status flow search) (ow_apps w))"
  have "map (\<lambda>p. case fst (GetApplications env s status flow search (of_nat p) (of_nat k) w) of
                        Ok resp \<Rightarrow> pr_Items resp | _ \<Rightarrow> []) [1..<Suc n]
      = map (\<lambda>p. take k (drop ((p - 1) * k) (map (list_item s) ?rows))) [1..<Suc n]"
  proof (intro map_cong refl)
    fix p assume "p \<in> set [1..<Suc n]"
    then have p: "1 \<le> p" "p \<le> 2 ^ 56" using assms(4) by auto
    show "(case fst (GetApplications env s status flow search (of_nat p) (of_nat k) w) of Ok resp \<Rightarrow> pr_Items resp | _ \<Rightarrow> [])
        = take k (drop ((p - 1) * k) (map (list_item s) ?rows))"
      unfolding GetApplications_page [OF assms(1) p assms(2,3) refl] by (simp add: take_map drop_map)
  qed
  then show "concat (map (\<lambda>p. case fst (GetApplications env s status flow search (of_nat p) (of_nat k) w) of
                        Ok resp \<Rightarrow> pr_Items resp | _ \<Rightarrow> []) [1..<Suc n]) = map (list_item s) ?rows"
    using assms(5) by (simp only: concat_pages) simp
qed (rule by_time_perm, rule by_time_sorted)

text \<open>
  The offset is a 64-bit product. A page far out of range wraps around to the beginning of the
  list, so a page that cannot exist is answered with the first one.
\<close>

lemma page_wraps_around:
  "fst (GetApplications env s status flow search (2 ^ 60 + 1) 16 w) = Ok resp \<Longrightarrow> steady env \<Longrightarrow>
   fst (GetApplications env s status flow search 1 16 w) = Ok (resp\<lparr>pr_Page := 1\<rparr>)"
  by (auto simp: GetApplications_def clamp_page_def clamp_size_def List_apps_def bindS_def Let_def returnS_def steady_def
      offset_limit_def db_page_def oga_db_quiet)

section \<open>Workflows\<close>

definition no_ties :: "ApplicationRecord list \<Rightarrow> bool" where
  "no_ties rows \<longleftrightarrow> distinct rows \<and>
     (\<forall>a \<in> set rows. \<forall>b \<in> set rows. ap_WorkflowID a = ap_WorkflowID b \<longrightarrow> ap_UpdatedAt a = ap_UpdatedAt b \<longrightarrow> a = b)"

lemma latest_exists:
  assumes "a \<in> set rows"
  shows "\<exists>b \<in> set rows. ap_WorkflowID b = ap_WorkflowID a \<and> is_latest rows b"
proof -
  let ?g = "same_workflow rows a"
  have ne: "ap_UpdatedAt ` set ?g \<noteq> {}" using assms by (auto simp: same_workflow_def)
  have "Max (ap_UpdatedAt ` set ?g) \<in> ap_UpdatedAt ` set ?g" using ne by (intro Max_in) auto
  then obtain b where b: "b \<in> set ?g" "ap_UpdatedAt b = Max (ap_UpdatedAt ` set ?g)" by auto
  have g: "same_workflow rows b = ?g" using b(1) by (auto simp: same_workflow_def)
  have "ap_UpdatedAt x \<le> ap_UpdatedAt b" if "x \<in> set ?g" for x
    using that unfolding b(2) by (intro Max_ge) auto
  then show ?thesis using b(1) g by (auto simp: is_latest_def same_workflow_def)
qed

lemma latest_unique:
  assumes "no_ties rows" "a \<in> set rows" "b \<in> set rows" "is_latest rows a" "is_latest rows b" "ap_WorkflowID a = ap_WorkflowID b"
  shows "a = b"
proof -
  have "ap_UpdatedAt a = ap_UpdatedAt b"
    using assms(2-6) by (intro order_antisym) (auto simp: is_latest_def same_workflow_def)
  then show ?thesis using assms by (auto simp: no_ties_def)
qed

lemma latest_ids:
  assumes "no_ties rows"
  shows "distinct (map ap_WorkflowID (filter (is_latest rows) rows))"
    and "set (map ap_WorkflowID (filter (is_latest rows) rows)) = ap_WorkflowID ` set rows"
proof -
  show "distinct (map ap_WorkflowID (filter (is_latest rows) rows))"
    using assms latest_unique [OF assms] by (auto simp: distinct_map no_ties_def inj_on_def)
  show "set (map ap_WorkflowID (filter (is_latest rows) rows)) = ap_WorkflowID ` set rows"
  proof
    show "ap_WorkflowID ` set rows \<subseteq> set (map ap_WorkflowID (filter (is_latest rows) rows))"
    proof
      fix x assume "x \<in> ap_WorkflowID ` set rows"
      then obtain a where a: "a \<in> set rows" "x = ap_WorkflowID a" by blast
      from latest_exists [OF a(1)] obtain b where "b \<in> set rows" "ap_WorkflowID b = x" "is_latest rows b"
        unfolding a(2) by blast
      then show "x \<in> set (map ap_WorkflowID (filter (is_latest rows) rows))" by auto
    qed
  qed auto
qed

lemma no_ties_filter: "no_ties rows \<Longrightarrow> no_ties (filter p rows)"
  by (auto simp: no_ties_def)

text \<open>
  Without a failure and without two rows of one workflow updated at the same time, the list of
  workflows names every matching workflow once, with the time and status of its row updated
  last and the number of its rows, and the total is the number of workflows listed.
\<close>

theorem workflows_listed_once:
  assumes "quiet_oga env" and "no_ties (ow_apps w)"
    and "fst (ListWorkflows env search 0 (of_nat k) w) = Ok (ss, n)" and "n \<le> k" and "k < 2 ^ 63"
  shows "length ss = n \<and> distinct (map ws_WorkflowID ss)
    \<and> set (map ws_WorkflowID ss) = ap_WorkflowID ` {a \<in> set (ow_apps w). workflow_matches env search a}
    \<and> (\<forall>x \<in> set ss. \<exists>a \<in> set (ow_apps w). x = workflow_summary (ow_apps w) a \<and> is_latest (ow_apps w) a)"
proof -
  let ?g = "filter (workflow_matches env search) (ow_apps w)"
  let ?l = "by_time ap_UpdatedAt env (Suc (Suc (ow_tick w))) (filter (is_latest ?g) ?g)"
  have nt: "no_ties ?g" using assms(2) by (rule no_ties_filter)
  note ids = latest_ids [OF nt]
  have n: "n = length (remdups (map ap_WorkflowID ?g))" and ss: "ss = take k (map (workflow_summary ?g) ?l)"
    using assms(3) sint_small [OF assms(5)]
    by (simp_all add: ListWorkflows_def bindS_def oga_db_quiet [OF assms(1)] returnS_def offset_limit_def db_page_def Let_def)
  have ml: "mset ?l = mset (filter (is_latest ?g) ?g)" by (rule by_time_perm)
  have wid: "map ws_WorkflowID (map (workflow_summary ?g) ?l) = map ap_WorkflowID ?l"
    by (simp add: workflow_summary_def)
  have d: "distinct (map ap_WorkflowID ?l)"
    using ids(1) ml by (metis mset_eq_imp_distinct_iff mset_map)
  have st: "set (map ap_WorkflowID ?l) = ap_WorkflowID ` set ?g"
    using ids(2) ml by (metis mset_map set_mset_mset)
  have "length ?l = card (ap_WorkflowID ` set ?g)" using distinct_card [OF d] st by simp
  also have "\<dots> = n" unfolding n by (simp add: length_remdups_card_conv)
  finally have len: "length ?l = n" .
  have ss': "ss = map (workflow_summary ?g) ?l" unfolding ss using len assms(4) by simp
  have same: "same_workflow ?g a = same_workflow (ow_apps w) a" if "a \<in> set ?g" for a
    using that by (auto simp: same_workflow_def workflow_matches_def intro!: filter_cong)
  have eq: "workflow_summary ?g a = workflow_summary (ow_apps w) a \<and> is_latest (ow_apps w) a" if "a \<in> set ?l" for a
  proof -
    have a: "a \<in> set ?g" "is_latest ?g a" using that ml by (metis (no_types, lifting) mem_Collect_eq set_filter set_mset_mset)+
    then show ?thesis using same [OF a(1)] by (simp add: workflow_summary_def is_latest_def)
  qed
  have sub: "set ?l \<subseteq> set (ow_apps w)" using ml by (metis filter_is_subset mset_eq_setD order_trans)
  show ?thesis
  proof (intro conjI ballI)
    show "length ss = n" using ss' len by simp
    show "distinct (map ws_WorkflowID ss)" unfolding ss' wid by (rule d)
    show "set (map ws_WorkflowID ss) = ap_WorkflowID ` {a \<in> set (ow_apps w). workflow_matches env search a}"
      unfolding ss' wid st by simp
    fix x assume "x \<in> set ss"
    then obtain a where "a \<in> set ?l" "x = workflow_summary ?g a" unfolding ss' by auto
    then show "\<exists>a \<in> set (ow_apps w). x = workflow_summary (ow_apps w) a \<and> is_latest (ow_apps w) a" using eq sub by auto
  qed
qed


section \<open>Concrete runs\<close>

text \<open>A peer that counts the messages it took.\<close>

definition demo_oga :: "nat OgaEnv" where
  "demo_oga = \<lparr>oe_fault = (\<lambda>_. None), oe_now = (\<lambda>n. int n), oe_rank = (\<lambda>_ _. 0), oe_like = (\<lambda>p s. p = ''%'' @ s @ ''%''),
     oe_post = (\<lambda>url body n. (Ok 200, Suc n))\<rparr>"

definition demo_app :: "string \<Rightarrow> string \<Rightarrow> int \<Rightarrow> ApplicationRecord" where
  "demo_app i flow t = (new_application \<lparr>ir_TaskID = i, ir_TaskCode = ''code'', ir_WorkflowID = flow, ir_Data = None, ir_ServiceURL = ''http://nsw''\<rparr>)
     \<lparr>ap_CreatedAt := t, ap_UpdatedAt := t\<rparr>"

definition demo_table :: "nat OgaWorld" where
  "demo_table = \<lparr>ow_apps = [demo_app ''t1'' ''w1'' 1, demo_app ''t2'' ''w1'' 2, demo_app ''t3'' ''w2'' 3], ow_peer = 0, ow_tick = 0\<rparr>"

definition demo_inject :: InjectRequest where
  "demo_inject = \<lparr>ir_TaskID = ''t1'', ir_TaskCode = ''code'', ir_WorkflowID = ''w1'', ir_Data = Some [], ir_ServiceURL = ''http://nsw''\<rparr>"

lemma demo_oga_steady: "steady demo_oga" and demo_oga_real: "real_faults demo_oga"
  by (simp_all add: steady_def quiet_oga_def real_faults_def demo_oga_def)

lemma demo_injected:
  "CreateApplication demo_oga demo_inject \<lparr>ow_apps = [], ow_peer = 0, ow_tick = 0\<rparr>
     = (Ok (), \<lparr>ow_apps = [(new_application demo_inject)\<lparr>ap_CreatedAt := 1, ap_UpdatedAt := 1\<rparr>], ow_peer = 0, ow_tick = 3\<rparr>)"
  by (simp add: CreateApplication_def demo_inject_def bindS_def attemptS_def GetByTaskID_def oga_db_def demo_oga_def db_first_def
      CreateOrUpdate_def oga_now_def new_application_def)

theorem inject_effect_witness:
  "\<exists>w'. CreateApplication demo_oga demo_inject demo_table = (Ok (), w')
     \<and> (\<exists>now. ow_apps w' = [(new_application demo_inject)\<lparr>ap_UpdatedAt := now\<rparr>, demo_app ''t2'' ''w1'' 2, demo_app ''t3'' ''w2'' 3])"
proof -
  have "fst (CreateApplication demo_oga demo_inject demo_table) = Ok ()"
    by (simp add: CreateApplication_def demo_inject_def bindS_def attemptS_def GetByTaskID_def oga_db_def demo_oga_def db_first_def
        CreateOrUpdate_def oga_now_def new_application_def demo_table_def demo_app_def app_row_def)
  then obtain w' where run: "CreateApplication demo_oga demo_inject demo_table = (Ok (), w')" by (metis prod.collapse)
  from inject_effect [OF run demo_oga_real] run show ?thesis
    by (auto simp: demo_table_def demo_app_def app_row_def demo_inject_def new_application_def update_where_def)
qed

theorem reachable_table_ok_witness:
  "table_ok [(new_application demo_inject)\<lparr>ap_CreatedAt := 1, ap_UpdatedAt := 1\<rparr>]"
proof -
  have "oga_reachable demo_oga s \<lparr>ow_apps = [(new_application demo_inject)\<lparr>ap_CreatedAt := 1, ap_UpdatedAt := 1\<rparr>], ow_peer = 0, ow_tick = 3\<rparr>" for s
    by (rule oga_reachable.inject [OF oga_reachable.start demo_injected]) simp
  from reachable_table_ok [OF this demo_oga_real] show ?thesis by simp
qed

definition demo_service :: ogaService where
  "demo_service = \<lparr>sv_configStore = \<lparr>cs_configs = [], cs_default = ''''\<rparr>, sv_formStore = []\<rparr>"

theorem pages_list_everything_witness:
  "\<exists>rows. concat (map (\<lambda>p. case fst (GetApplications demo_oga demo_service '''' '''' '''' (of_nat p) 2 demo_table) of
        Ok resp \<Rightarrow> pr_Items resp | _ \<Rightarrow> []) [1, 2]) = map (list_item demo_service) rows \<and> mset rows = mset (ow_apps demo_table)"
proof -
  have "[1..<Suc 2] = [1, 2 :: nat]" by (simp add: upt_rec)
  moreover have "length (filter (app_matches demo_oga '''' '''' '''') (ow_apps demo_table)) \<le> 2 * 2"
    "filter (app_matches demo_oga '''' '''' '''') (ow_apps demo_table) = ow_apps demo_table"
    by (simp_all add: app_matches_def demo_table_def)
  ultimately show ?thesis
    using pages_list_everything [OF demo_oga_steady, of 2 2 "''''" "''''" "''''" demo_table demo_service] by auto
qed

theorem workflows_listed_once_witness:
  "\<exists>ss. fst (ListWorkflows demo_oga '''' 0 (of_nat 20) demo_table) = Ok (ss, 2) \<and> length ss = 2
     \<and> set (map ws_WorkflowID ss) = {''w1'', ''w2''}"
proof -
  have q: "quiet_oga demo_oga" using demo_oga_steady by (simp add: steady_def)
  have nt: "no_ties (ow_apps demo_table)"
    by (auto simp: no_ties_def demo_table_def demo_app_def new_application_def)
  obtain ss where run: "fst (ListWorkflows demo_oga '''' 0 (of_nat 20) demo_table) = Ok (ss, 2)"
    by (simp add: ListWorkflows_def bindS_def oga_db_quiet [OF q] returnS_def workflow_matches_def demo_table_def demo_app_def new_application_def Let_def)
  have "ap_WorkflowID ` set (ow_apps demo_table) = {''w1'', ''w2''}"
    by (simp add: demo_table_def demo_app_def new_application_def)
  moreover have "length ss = 2 \<and> set (map ws_WorkflowID ss) = ap_WorkflowID ` {a \<in> set (ow_apps demo_table). workflow_matches demo_oga '''' a}"
    using workflows_listed_once [OF q nt run] by simp
  ultimately show ?thesis using run by (simp add: workflow_matches_def)
qed

text \<open>Two rows of a workflow updated at the same time are both its latest: the workflow is listed twice while the total counts one.\<close>

lemma tie_listed_twice:
  "\<exists>ss. fst (ListWorkflows demo_oga '''' 0 20 \<lparr>ow_apps = [demo_app ''t1'' ''w1'' 1, demo_app ''t2'' ''w1'' 1], ow_peer = 0, ow_tick = 0\<rparr>)
     = Ok (ss, 1) \<and> map ws_WorkflowID ss = [''w1'', ''w1'']"
  by (simp add: ListWorkflows_def bindS_def oga_db_def demo_oga_def returnS_def workflow_matches_def demo_app_def new_application_def Let_def
      is_latest_def same_workflow_def offset_limit_def db_page_def by_time_def workflow_summary_def)

end
