(* ===== verification/OgaExchange.thy ===== *)
theory OgaExchange
  imports TaskEngine OgaProperties
begin

text \<open>
  The portal and the task engine together: the messages each sends are the ones the other decodes,
  and the portal's POST is answered by the task engine's \<open>HandleExecuteTask\<close>. The URL is not
  looked at: the peer is the task engine, whose address the plugins send as the service URL.
\<close>

section \<open>Messages\<close>

definition content_of :: "obj option \<Rightarrow> any" where
  "content_of content = (case content of None \<Rightarrow> JNull | Some m \<Rightarrow> JObj m)"

lemma task_response_decodes:
  "unmarshal dec_execute_task_request (Some (task_response i flow action content)) =
     Ok \<lparr>et_WorkflowID = flow, et_TaskID = i, et_Payload = Some \<lparr>req_Action = action, req_Content = content_of content\<rparr>\<rparr>"
  by (simp add: unmarshal_def dec_execute_task_request_def task_response_def dec_struct_def dec_field_def dec_ptr_def
      dec_execution_request_def content_of_def)

lemma feedback_entries_decode: "\<exists>hs. dec_slice (dec_ptr dec_obj) (JArr (map (enc_feedback env) history)) = Ok hs"
proof (induction history)
  case (Cons f fs)
  then show ?case by (auto simp: dec_ptr_def enc_feedback_def)
qed simp

text \<open>
  C28: The two services understand each other: what a form task posts when it is submitted, and what an
  event task posts when it starts, is decoded by the portal's inject handler into the same task,
  task code, workflow, address and data, and what the portal posts after a review or a feedback
  is decoded by the task engine into an execution of that task with that action and content.
\<close>

theorem messages_round_trip:
  "unmarshal dec_inject (Some (external_request env taskCode taskID workflowID url data history)) =
     Ok \<lparr>ir_TaskID = taskID, ir_TaskCode = taskCode, ir_WorkflowID = workflowID, ir_Data = Some data, ir_ServiceURL = url\<rparr>
   \<and> unmarshal dec_inject (Some (event_request taskCode taskID workflowID url (JObj data))) =
     Ok \<lparr>ir_TaskID = taskID, ir_TaskCode = taskCode, ir_WorkflowID = workflowID, ir_Data = Some data, ir_ServiceURL = url\<rparr>
   \<and> unmarshal dec_execute_task_request (Some (task_response taskID workflowID action content)) =
     Ok \<lparr>et_WorkflowID = workflowID, et_TaskID = taskID, et_Payload = Some \<lparr>req_Action = action, req_Content = content_of content\<rparr>\<rparr>"
proof (intro conjI task_response_decodes)
  obtain hs where hs: "dec_slice (dec_ptr dec_obj) (JArr (map (enc_feedback env) history)) = Ok hs"
    using feedback_entries_decode by blast
  show "unmarshal dec_inject (Some (external_request env taskCode taskID workflowID url data history)) =
     Ok \<lparr>ir_TaskID = taskID, ir_TaskCode = taskCode, ir_WorkflowID = workflowID, ir_Data = Some data, ir_ServiceURL = url\<rparr>"
    using hs by (cases "history = []")
      (simp_all add: unmarshal_def dec_inject_def external_request_def dec_struct_def dec_field_def dec_ptr_def)
  show "unmarshal dec_inject (Some (event_request taskCode taskID workflowID url (JObj data))) =
     Ok \<lparr>ir_TaskID = taskID, ir_TaskCode = taskCode, ir_WorkflowID = workflowID, ir_Data = Some data, ir_ServiceURL = url\<rparr>"
    by (simp add: unmarshal_def dec_inject_def event_request_def dec_struct_def dec_field_def dec_ptr_def)
qed

section \<open>A review that reaches the task engine\<close>

text \<open>\<open>net/http\<close> recovers a panic of a handler and closes the connection.\<close>

definition engine_peer :: "TaskEnv \<Rightarrow> PayEnv \<Rightarrow> string \<Rightarrow> any \<Rightarrow> (taskManager \<times> TaskWorld, nat) op" where
  "engine_peer env pe url body s =
     (case HandleExecuteTask env pe \<lparr>hr_Method = ''POST'', hr_id = '''', hr_Body = Some body\<rparr> s of
        (Ok rsp, s') \<Rightarrow> (Ok (rsp_Status rsp), s')
      | (Err e, s') \<Rightarrow> (Err e, s')
      | (Panic, s') \<Rightarrow> (Err (External ''EOF''), s'))"

definition facing_engine :: "TaskEnv \<Rightarrow> PayEnv \<Rightarrow> (taskManager \<times> TaskWorld) OgaEnv \<Rightarrow> bool" where
  "facing_engine env pe oe \<longleftrightarrow> oe_post oe = engine_peer env pe"

lemma engine_accepts:
  assumes "engine_peer env pe url (task_response i flow action content) s = (Ok st, s')" and "200 \<le> st" "st < 300"
  shows "\<exists>resp. ExecuteTask env pe \<lparr>et_WorkflowID = flow, et_TaskID = i,
     et_Payload = Some \<lparr>req_Action = action, req_Content = content_of content\<rparr>\<rparr> s = (Ok resp, s')"
proof -
  let ?req = "\<lparr>et_WorkflowID = flow, et_TaskID = i, et_Payload = Some \<lparr>req_Action = action, req_Content = content_of content\<rparr>\<rparr>"
  obtain x s1 where run: "ExecuteTask env pe ?req s = (x, s1)" by (cases "ExecuteTask env pe ?req s")
  show ?thesis
    using assms run
    by (cases x) (auto simp: engine_peer_def HandleExecuteTask_def task_response_decodes bindS_def attemptS_def
        writeJSONError_def writeJSONResponse_def returnS_def liftS_def split: if_splits)
qed

section \<open>A finished task refuses the portal\<close>

lemma final_blocks: "c_fsm c = Some fsm \<Longrightarrow> final_state fsm (c_pluginState c) \<Longrightarrow> \<not> container_CanTransition action c"
  by (simp add: container_CanTransition_def final_state_iff GetPluginState_def)

lemma form_final_refuses:
  assumes "c_fsm c = Some fsm" "final_state fsm (c_pluginState c)"
  shows "\<not> is_ok (fst (sf_Execute env (Some rq) (c, w)))"
proof
  assume "is_ok (fst (sf_Execute env (Some rq) (c, w)))"
  then obtain resp s' where "sf_Execute env (Some rq) (c, w) = (Ok resp, s')" by (metis is_ok_iff prod.collapse)
  then show False by (rule Execute_unresolved) (use final_blocks [OF assms] in simp)
qed

lemma event_final_refuses:
  assumes "c_fsm c = Some fsm" "final_state fsm (c_pluginState c)" "req_Action rq \<noteq> waitForEventFSMRetry"
  shows "\<not> is_ok (fst (wfe_Execute env (Some rq) (c, w)))"
proof (cases "req_Action rq = waitForEventFSMComplete")
  case True
  obtain r c' w' where wr: "attemptS (WriteToLocalStore env ''eventResponse'' (GJson (req_Content rq))) (c, w) = (r, (c', w'))"
    by (metis prod_cases3)
  note q = quiet_fsm [OF quiet_attemptS [OF quiet_WriteToLocalStore] wr]
  have "\<exists>e. container_Transition env waitForEventFSMComplete (c', w') = (Err e, (c', w'))"
    by (rule Transition_result_refused [where fsm = fsm]) (use q assms(1,2) in \<open>simp_all add: final_state_iff\<close>)
  then obtain e where "container_Transition env waitForEventFSMComplete (c', w') = (Err e, (c', w'))" by blast
  then show ?thesis
    using True wr by (cases r) (simp_all add: wfe_Execute_def bindS_def the_plugin_def getC_def)
qed (use assms(3) in \<open>simp add: wfe_Execute_def failS_def\<close>)

lemma payment_refuses:
  "req_Action rq \<notin> {PaymentActionInitiate, PaymentActionSuccess, PaymentActionFailed} \<Longrightarrow> \<not> is_ok (fst (pay_Execute env pe (Some rq) s))"
  by (auto simp: pay_Execute_def failS_def)

lemma as_plugin_fst: "fst (as_plugin con p m s) = fst (m (retype p (fst s), snd s))"
  by (simp add: as_plugin_def split: prod.splits)

lemma plugin_final_refuses:
  assumes "c_fsm c = Some fsm" "final_state fsm (c_pluginState c)"
    and "req_Action rq \<in> {SimpleFormActionOgaVerify, SimpleFormActionOgaFeedback}"
  shows "\<not> is_ok (fst (plugin_Execute env pe (Some rq) (c, w)))"
proof (cases "c_Executable c")
  case (PSimpleForm p)
  then show ?thesis
    using form_final_refuses [of "retype p c" fsm env rq w] assms
    by (simp add: plugin_Execute_def as_plugin_fst)
next
  case (PWaitForEvent p)
  have "req_Action rq \<noteq> waitForEventFSMRetry" using assms(3) by auto
  then show ?thesis
    using PWaitForEvent event_final_refuses [of "retype p c" fsm rq env w] assms(1,2)
    by (simp add: plugin_Execute_def as_plugin_fst)
next
  case (PPayment p)
  have "req_Action rq \<notin> {PaymentActionInitiate, PaymentActionSuccess, PaymentActionFailed}" using assms(3) by auto
  then show ?thesis
    using PPayment payment_refuses [of rq env pe "(retype p c, w)"]
    by (simp add: plugin_Execute_def as_plugin_fst)
qed

lemma finished_task_refuses:
  assumes "coherent s" "no_faults env" "t \<in> set (w_tasks (snd s))" "ti_ID t = i"
    and "executor_fsm (ti_Type t) = Ok fsm" "final_state fsm (ti_PluginState t)"
    and "action \<in> {SimpleFormActionOgaVerify, SimpleFormActionOgaFeedback}"
  shows "\<not> is_ok (fst (ExecuteTask env pe \<lparr>et_WorkflowID = flow, et_TaskID = i,
     et_Payload = Some \<lparr>req_Action = action, req_Content = content\<rparr>\<rparr> s))"
proof
  let ?rq = "\<lparr>req_Action = action, req_Content = content\<rparr>"
  let ?req = "\<lparr>et_WorkflowID = flow, et_TaskID = i, et_Payload = Some ?rq\<rparr>"
  assume "is_ok (fst (ExecuteTask env pe ?req s))"
  then obtain resp s' where run: "ExecuteTask env pe ?req s = (Ok resp, s')" by (metis is_ok_iff prod.collapse)
  obtain tm w where s: "s = (tm, w)" by (cases s)
  have ne: "i \<noteq> ''''" using run by (auto simp: ExecuteTask_def failS_def)
  obtain a s1 where gt: "getTask env i s = (Ok a, s1)"
    using run ne by (auto simp: ExecuteTask_def op_simps)
  obtain tm1 w1 where s1: "s1 = (tm1, w1)" by (cases s1)
  let ?c = "tm_containers tm1 ! a"
  have r: "a < length (tm_containers tm1)" "states_of ?c = (ti_PluginState t, ti_State t)" "c_fsm ?c = Some fsm"
    using getTask_row [OF assms(1)[unfolded s] assms(2) gt[unfolded s s1], of t fsm] assms(3-5) by (simp_all add: s)
  have ne': "et_TaskID ?req \<noteq> ''''" "getTask env (et_TaskID ?req) s = (Ok a, s1)" using ne gt by simp_all
  obtain y where y: "execute_task env pe a (et_Payload ?req) s1 = (y, s')" "\<And>v. Ok resp = Ok v \<Longrightarrow> y = Ok v"
    using ExecuteTask_found [OF run ne'] by metis
  obtain c' w' where "container_Execute (plugin_Execute env pe) (et_Payload ?req) (tm_containers (fst s1) ! a, snd s1) = (Ok resp, (c', w'))"
    using execute_task_cases [OF y(1)] r(1) y(2) s1 by (metis fst_conv)
  then have "is_ok (fst (plugin_Execute env pe (Some ?rq) (?c, w1)))"
    using with_new_state_result [of "plugin_Execute env pe (Some ?rq)" "(?c, w1)" "Ok resp" "(c', w')"]
    by (auto simp: container_Execute_def s1)
  then show False
    using plugin_final_refuses [of ?c fsm ?rq env pe w1] r(2,3) assms(6,7) by (simp add: states_of_def)
qed

text \<open>
  C9: A review the portal records was an accepted execution: when the portal faces the task engine and a
  review succeeds, the engine executed exactly that task with the action OGA\_VERIFICATION and the
  reviewer's answer as content, and the portal's row then holds the mapped status and the answer.
\<close>

theorem recorded_review_was_executed:
  assumes "facing_engine env pe oe" and "ReviewApplication oe s i resp w = (Ok (), w')"
  shows "\<exists>a out now. List.find (app_row i) (ow_apps w) = Some a
    \<and> ExecuteTask env pe \<lparr>et_WorkflowID = ap_WorkflowID a, et_TaskID = i,
        et_Payload = Some \<lparr>req_Action = ''OGA_VERIFICATION'', req_Content = content_of resp\<rparr>\<rparr> (ow_peer w) = (Ok out, ow_peer w')
    \<and> ow_apps w' = update_where (app_row i) (\<lambda>a'. a'\<lparr>ap_Status := review_status s (ap_TaskCode a) resp,
          ap_ReviewedAt := Some now, ap_UpdatedAt := now, ap_ReviewerResponse := resp\<rparr>) (ow_apps w)"
proof -
  from review_effect [OF assms(2)] obtain a st now where a: "List.find (app_row i) (ow_apps w) = Some a"
    "oe_post oe (ap_ServiceURL a) (task_response i (ap_WorkflowID a) ''OGA_VERIFICATION'' resp) (ow_peer w) = (Ok st, ow_peer w')"
    "200 \<le> st" "st < 300"
    "ow_apps w' = update_where (app_row i) (\<lambda>a'. a'\<lparr>ap_Status := review_status s (ap_TaskCode a) resp,
          ap_ReviewedAt := Some now, ap_UpdatedAt := now, ap_ReviewerResponse := resp\<rparr>) (ow_apps w)" by auto
  show ?thesis
    using a engine_accepts [OF a(2) [unfolded assms(1) [unfolded facing_engine_def]] a(3,4)] by blast
qed

text \<open>
  C11: The portal has no guard of its own against a second decision, the task engine is the guard: once the
  task is in a final state of its machine, every review and every feedback of it fails, and the portal's
  table keeps the decision that was recorded.
\<close>

theorem second_decision_is_refused:
  assumes "tm_reachable env pe (ow_peer w)" and "no_faults env" and "facing_engine env pe oe"
    and "t \<in> set (w_tasks (snd (ow_peer w)))" and "ti_ID t = i"
    and "executor_fsm (ti_Type t) = Ok fsm" and "final_state fsm (ti_PluginState t)"
  shows "\<not> is_ok (fst (ReviewApplication oe s i resp w)) \<and> ow_apps (snd (ReviewApplication oe s i resp w)) = ow_apps w
    \<and> \<not> is_ok (fst (FeedbackApplication oe s i resp w)) \<and> ow_apps (snd (FeedbackApplication oe s i resp w)) = ow_apps w"
proof -
  have co: "coherent (ow_peer w)" by (rule reachable_coherent [OF assms(1,2)])
  note refuses = finished_task_refuses [OF co assms(2,4,5,6,7)]
  have no: "\<not> (oe_post oe url (task_response i flow action content) (ow_peer w) = (Ok st, p) \<and> 200 \<le> st \<and> st < 300)"
    if "action \<in> {SimpleFormActionOgaVerify, SimpleFormActionOgaFeedback}" for url flow action content st p
    using engine_accepts [of env pe url i flow action content "ow_peer w" st p] refuses [OF that] assms(3)
    unfolding facing_engine_def by (metis fst_conv is_ok.simps(1))
  obtain r w' where rv: "ReviewApplication oe s i resp w = (r, w')" by (cases "ReviewApplication oe s i resp w")
  have 1: "\<not> is_ok r \<and> ow_apps w' = ow_apps w" using review_effect [OF rv] no [of SimpleFormActionOgaVerify] by (cases r) (simp, blast, simp_all)
  obtain q v where fb: "FeedbackApplication oe s i resp w = (q, v)" by (cases "FeedbackApplication oe s i resp w")
  have "\<not> is_ok q \<and> ow_apps v = ow_apps w" using feedback_effect [OF fb] no [of SimpleFormActionOgaFeedback] by (cases q) (simp, blast, simp_all)
  with 1 rv fb show ?thesis by simp
qed


section \<open>A run of both\<close>

definition event_rows :: "string \<Rightarrow> TaskWorld" where
  "event_rows ps = demo_world [demo_task ''t1'' TaskTypeWaitForEvent ps]"

definition portal_env :: "(taskManager \<times> TaskWorld) OgaEnv" where
  "portal_env = \<lparr>oe_fault = (\<lambda>_. None), oe_now = (\<lambda>n. int n), oe_rank = (\<lambda>_ _. 0), oe_like = (\<lambda>p s. p = ''%'' @ s @ ''%''),
     oe_post = engine_peer demo_env demo_pay\<rparr>"

definition portal_row :: ApplicationRecord where
  "portal_row = (new_application \<lparr>ir_TaskID = ''t1'', ir_TaskCode = ''code'', ir_WorkflowID = ''wf'', ir_Data = None, ir_ServiceURL = ''http://nsw''\<rparr>)"

definition portal_service :: ogaService where
  "portal_service = \<lparr>sv_configStore = \<lparr>cs_configs = [], cs_default = ''''\<rparr>, sv_formStore = []\<rparr>"

definition portal_world :: "string \<Rightarrow> (taskManager \<times> TaskWorld) OgaWorld" where
  "portal_world ps = \<lparr>ow_apps = [portal_row], ow_peer = (demo_tm, event_rows ps), ow_tick = 0\<rparr>"

lemma event_reachable: "tm_reachable demo_env demo_pay (demo_tm, event_rows ps)"
proof -
  have "NewTaskManager True (NewTaskFactory ''http://nsw'') = Ok (demo_tm\<lparr>tm_doneHandler := False\<rparr>)"
    by (simp add: NewTaskManager_def NewTaskStore_def demo_tm_def)
  from tm_reachable.register_done [OF tm_reachable.fresh [OF this, of "event_rows ps"], of demo_env demo_pay True]
  show ?thesis by (simp add: event_rows_def demo_world_def RegisterUpstreamDoneCallback_def demo_tm_def)
qed

lemma portal_faces: "facing_engine demo_env demo_pay portal_env"
  by (simp add: facing_engine_def portal_env_def)

definition event_plug :: "Plugin Container" where
  "event_plug = \<lparr>c_TaskID = ''t1'', c_WorkflowID = ''wf'', c_WorkflowNodeTemplateID = ''tpl'', c_State = Initialized,
     c_Executable = PWaitForEvent \<lparr>wt_config = \<lparr>wc_Display = None, wc_Submission = None\<rparr>, wt_serviceBaseURL = ''http://nsw'', wt_remoteManager = True\<rparr>,
     c_globalState = [], c_localState = \<lparr>lm_taskID = ''t1'', lm_cache = Some []\<rparr>, c_taskStore = True,
     c_pluginState = notifiedService, c_fsm = Some NewWaitForEventFSM\<rparr>"

definition event_tm :: taskManager where
  "event_tm = demo_tm\<lparr>tm_containers := [event_plug], tm_cache := \<lparr>cc_capacity = 100, cc_cache = [(''t1'', 0)],
     cc_head = Some 0, cc_tail = Some 0, cc_store = [\<lparr>cn_taskID = ''t1'', cn_container = 0, cn_prev = None, cn_next = None\<rparr>]\<rparr>\<rparr>"

lemma event_getTask:
  "getTask demo_env ''t1'' (demo_tm, event_rows notifiedService) = (Ok 0, (event_tm, (event_rows notifiedService)\<lparr>w_tick := 2\<rparr>))"
proof -
  have "cached ''t1'' (demo_tm, event_rows notifiedService) = (Ok None, (demo_tm, event_rows notifiedService))"
    by (simp add: cached_def cache_Get_def demo_tm_def newContainerCache_def)
  moreover have "rebuild demo_env ''t1'' (demo_tm, event_rows notifiedService) = (Ok 0, (event_tm, (event_rows notifiedService)\<lparr>w_tick := 2\<rparr>))"
    by (simp add: engine_simps NewWaitForEventTask_def dec_wfe_config_def dec_ptr_def demo_tm_def event_rows_def event_tm_def event_plug_def NewTaskFactory_def run_simps)
  ultimately show ?thesis by (simp add: getTask_def bindS_def)
qed

lemma event_executed:
  "\<exists>resp s'. ExecuteTask demo_env demo_pay \<lparr>et_WorkflowID = ''wf'', et_TaskID = ''t1'',
      et_Payload = Some \<lparr>req_Action = SimpleFormActionOgaVerify, req_Content = JNull\<rparr>\<rparr> (demo_tm, event_rows notifiedService)
     = (Ok resp, s')"
proof -
  have "\<exists>resp s'. execute_task demo_env demo_pay 0 (Some \<lparr>req_Action = SimpleFormActionOgaVerify, req_Content = JNull\<rparr>)
      (event_tm, (event_rows notifiedService)\<lparr>w_tick := 2\<rparr>) = (Ok resp, s')"
    by (simp add: execute_task_def on_container_def container_Execute_def with_new_state_def plugin_Execute_def as_plugin_def retype_def
      wfe_Execute_def event_tm_def demo_tm_def event_plug_def event_rows_def getM_def notifyWorkflowDoneHandler_def
      send_def run_simps emptyResponse_def response_mapping_def)
  then show ?thesis by (auto simp: ExecuteTask_def bindS_def wrapS_def event_getTask)
qed

theorem second_decision_is_refused_witness:
  "\<not> is_ok (fst (ReviewApplication portal_env portal_service ''t1'' None (portal_world receivedCallback)))"
proof -
  let ?t = "demo_task ''t1'' TaskTypeWaitForEvent receivedCallback"
  have p: "ow_peer (portal_world receivedCallback) = (demo_tm, event_rows receivedCallback)" by (simp add: portal_world_def)
  have "?t \<in> set (w_tasks (snd (ow_peer (portal_world receivedCallback))))" by (simp add: p event_rows_def demo_world_def)
  moreover have "ti_ID ?t = ''t1''" "executor_fsm (ti_Type ?t) = Ok NewWaitForEventFSM" "final_state NewWaitForEventFSM (ti_PluginState ?t)"
    by (simp_all add: executor_fsm_def demo_task_def final_state_def fsm_tables)
  ultimately show ?thesis
    using second_decision_is_refused [of demo_env demo_pay "portal_world receivedCallback" portal_env ?t "''t1''" NewWaitForEventFSM portal_service None]
      event_reachable demo_no_faults portal_faces by (simp add: p)
qed


lemma portal_reviewed: "\<exists>w'. ReviewApplication portal_env portal_service ''t1'' None (portal_world notifiedService) = (Ok (), w')"
proof -
  obtain resp s' where run: "ExecuteTask demo_env demo_pay \<lparr>et_WorkflowID = ''wf'', et_TaskID = ''t1'',
      et_Payload = Some \<lparr>req_Action = SimpleFormActionOgaVerify, req_Content = JNull\<rparr>\<rparr> (demo_tm, event_rows notifiedService) = (Ok resp, s')"
    using event_executed by blast
  have "engine_peer demo_env demo_pay ''http://nsw'' (task_response ''t1'' ''wf'' SimpleFormActionOgaVerify None) (demo_tm, event_rows notifiedService)
      = (Ok 200, s')"
    by (simp add: engine_peer_def HandleExecuteTask_def task_response_decodes content_of_def bindS_def attemptS_def run
        writeJSONResponse_def returnS_def)
  then show ?thesis
    by (simp add: ReviewApplication_def GetApplication_def GetByTaskID_def bindS_def oga_db_def Let_def portal_env_def portal_world_def
        db_first_def app_row_def portal_row_def new_application_def attemptS_def returnS_def wrapS_def sendToService_def
        UpdateStatus_def oga_now_def update_app_def application_of_def portal_service_def GetConfig_def)
qed

theorem recorded_review_was_executed_witness:
  "\<exists>w' out. ReviewApplication portal_env portal_service ''t1'' None (portal_world notifiedService) = (Ok (), w')
     \<and> ExecuteTask demo_env demo_pay \<lparr>et_WorkflowID = ''wf'', et_TaskID = ''t1'',
         et_Payload = Some \<lparr>req_Action = ''OGA_VERIFICATION'', req_Content = JNull\<rparr>\<rparr> (demo_tm, event_rows notifiedService) = (Ok out, ow_peer w')"
proof -
  obtain w' where run: "ReviewApplication portal_env portal_service ''t1'' None (portal_world notifiedService) = (Ok (), w')"
    using portal_reviewed by blast
  from recorded_review_was_executed [OF portal_faces run] run show ?thesis
    by (auto simp: portal_world_def app_row_def portal_row_def new_application_def content_of_def)
qed

end
