(* ===== verification/Spec2Isabelle.thy ===== *)
theory Spec2Isabelle
  imports Prelude Json PluginFSM TaskApi WorkflowModel WorkflowNodes WorkflowStateMachine WorkflowInvariants WorkflowManager
    ContainerCache JsonDecode TaskStore TaskContainer SimpleFormPlugin WaitForEventPlugin Payments PaymentPlugin
    TaskManager TaskEngine Pagination PreConsignments PreConsignmentProperties Consignments HttpApi
    WorkflowRouters ConsignmentProperties UserProfiles Authentication AuthenticationProperties Uploads UploadProperties
    GoNet Remote RemoteProperties RemoteManager RemoteManagerProperties Configuration OgaApplications OgaProperties OgaExchange
begin

text \<open>
  Verification development for the backend of the National Single Window (NSW), the Go program under
  \<open>src/backend\<close>, and of the portal of the agencies, \<open>src/oga\<close>. A trader's process is a workflow of nodes; a node that becomes ready is a task, run by a
  plugin (a form, a wait for an external event, a payment) under a table-driven state machine; a
  task that moves reports to the workflow, which unlocks further nodes.

  \<^bold>\<open>Conventions.\<close> A Go function returning \<open>(T, error)\<close> has result \<open>Ok v\<close>, \<open>Err e\<close> or \<open>Panic\<close> (a nil
  dereference), threaded through an explicit state by \<open>bindS\<close> (Prelude). The messages of errors are kept
  as their constant text and arguments; only \<open>TaskManager\<close> gives formats verbatim, because its HTTP
  handlers look at them. Database calls, the clock, random ids and remote services are answered
  by an environment record indexed by a tick that every such call takes, so any call may fail and
  no two calls need agree. A Go map is an association list; the order in which a range visits it is the
  order of the list. Time stamps of rows, logging and mutexes are left out: an operation runs
  alone. Numbers of JSON are rationals (\<open>Json\<close>).

  \<^bold>\<open>Theories, in the order of the program's layers.\<close>
  \<^item> \<open>Prelude\<close>: outcomes, errors, operations on a state, maps and strings.
  \<^item> \<open>Json\<close>: JSON values, \<open>pkg/jsonform\<close> (dot paths, schema traversal), \<open>pkg/jsonutils\<close> (templates) and
    \<open>mergeFormData\<close> of the form plugin; \<open>JsonDecode\<close>: decoding into the configuration structs.
  \<^item> \<open>PluginFSM\<close>: \<open>task/plugin/fsm.go\<close>, the three tables of the plugins, \<open>emit.go\<close> and \<open>transition.go\<close>;
    \<open>fsm_run\<close> runs a table, and the finished states of each table are exactly its final ones.
  \<^item> \<open>WorkflowModel\<close>: \<open>workflow/model\<close>, with unlock configurations and their evaluation against a
    reference formula; \<open>WorkflowNodes\<close>: the tables of workflows and nodes and the node service;
    \<open>WorkflowStateMachine\<close>: \<open>manager/state_machine.go\<close>, every transition over an interface of
    repository operations (locale \<open>node_repository\<close>), interpreted on the tables;
    \<open>WorkflowInvariants\<close>: the runs of the state machine, what a step changes, and the invariants of
    every reachable database; \<open>WorkflowManager\<close>: \<open>manager/manager.go\<close> with transactions, roll-back
    and the swallowed panic.
  \<^item> \<open>ContainerCache\<close>: \<open>task/manager/cache.go\<close> over a store of list cells, refining a bounded LRU list
    (locale \<open>lru_cache\<close>).
  \<^item> \<open>TaskStore\<close>: \<open>task/persistence\<close> and \<open>internal/form\<close>: the table of tasks, the write-through local
    state (locale \<open>key_value_store\<close>) and what survives its JSON.
  \<^item> \<open>TaskContainer\<close>: \<open>task/container\<close>, and the contract of a plugin (locale \<open>plugin_contract\<close>): states
    move along the table only, the row follows, other rows stay. \<open>SimpleFormPlugin\<close>,
    \<open>WaitForEventPlugin\<close> and \<open>PaymentPlugin\<close> model the plugins and interpret it; \<open>Payments\<close> is the payments
    service behind the last one.
  \<^item> \<open>TaskManager\<close>: \<open>task/manager/manager.go\<close>, \<open>http_handler.go\<close> and the factory, with triples for its
    operations; \<open>TaskEngine\<close>: what manager, cache, containers and plugins guarantee together.
  \<^item> \<open>Pagination\<close>: \<open>backend/utils\<close> and the clauses of a page. \<open>PreConsignments\<close>: the service of
    pre-consignments, on the tables and the manager of the workflows, with \<open>PreConsignmentProperties\<close>;
    \<open>Consignments\<close>: the services of consignments, HS codes and agents (CHA) and the callbacks of
    \<open>workflow/runtime\<close> that the workflow library calls; \<open>HttpApi\<close>: requests, replies and the authentication
    context; \<open>WorkflowRouters\<close>: \<open>workflow/router\<close>; \<open>ConsignmentProperties\<close>: their effects and whom they serve.
  \<^item> \<open>UserProfiles\<close>: \<open>profile/user\<close>, with interference by other processes on its table; \<open>Authentication\<close>:
    \<open>internal/auth\<close>, the token extractor with its cache of keys, the middleware and the manager;
    \<open>AuthenticationProperties\<close> (locale \<open>profile_service\<close>).
  \<^item> \<open>Uploads\<close>: \<open>internal/uploads\<close>, keys, signed links, the local driver over a file system, the object store's
    driver, service and handlers; \<open>UploadProperties\<close> (locale \<open>storage_driver\<close>).
  \<^item> \<open>GoNet\<close>: \<open>net/url\<close>, header keys and durations of Go's library; \<open>Remote\<close>: \<open>pkg/remote\<close>, the client, its
    authenticators and retries; \<open>RemoteManager\<close>: the registry of services; \<open>RemoteProperties\<close> (locales
    \<open>authenticator\<close> and \<open>attempt\<close>) and \<open>RemoteManagerProperties\<close>.
  \<^item> \<open>Configuration\<close>: \<open>internal/config\<close>, \<open>internal/validation\<close>, the validations of the packages and
    \<open>internal/middleware\<close>.
  \<^item> \<open>OgaApplications\<close>: the portal's backend, \<open>oga/internal\<close>: its table, configurations, service and
    HTTP handlers, over any peer that answers its posts; \<open>OgaProperties\<close>: what its operations do to
    the table, its invariant, its lists; \<open>OgaExchange\<close>: the portal facing the task engine.

  \<^bold>\<open>What is shown.\<close> Workflows: of the nodes without an unlock configuration, those that left LOCKED have
  their dependencies completed, and a completion unlocks exactly those it should; completed nodes never change; a
  workflow without unlock configurations, acyclic and with nothing that depends on an end node, never deadlocks;
  and an update is atomic unless it panics. Tasks: in every run in which the database answers, cached
  containers agree with the table, eviction is invisible, finished tasks stay finished, each
  move is notified once. Plugins: a form action takes one edge, a refused submission can be
  retried, payments are recorded, itemised and totalled as configured. Pre-consignments follow their workflow and are
  completed with it only. Portal: an answer is recorded exactly when the
  service took it, a finished task refuses a second decision, the two sides decode each other's
  messages, pages and workflow lists are complete. Consignments: a consignment only moves forward, an
  initialization has its whole effect or none unless the commit fails, a list is the requested page of the caller's own
  consignments. Authentication: an identity in a request is that of a verified token of a known client, a user has one id
  whatever other processes insert, a withdrawn key is refused once the cache is old. Uploads: links bind what they were issued
  for up to collisions of the authentication code, paths stay inside, a file saved under a key that does not end in \<open>.meta\<close> is read back. Remote calls: credentials stay
  with the configured host, retries and waits are bounded, tokens are never used in their last minute. Configuration:
  what is loaded is well formed, but for the ports of the server and the database. Where the code does not keep what its
  comments promise, the theorem states what it does: panics reported as success, effects
  before guards, verification by-passed through internal actions, a second initiation that always fails, a
  placeholder loop that never returns, a plugin state reset by a swallowed read error.

  \<^bold>\<open>Loops.\<close> All recursion is structural or has a termination proof (schemas by size, the traversal by
  the schema), except \<open>resolveString\<close> of the payment plugin, a \<open>partial_function\<close> into option because
  the source's loop may run forever. The retries of a remote request recurse on the number that is left;
  \<open>ParseDuration\<close> has as many rounds as the text has bytes, and every round takes one.

  \<^bold>\<open>Not modelled.\<close> Start-up (\<open>app/bootstrap\<close>, the connections of the database and of Temporal) calls constructors
  and registers routes. The notification channels, the second payments package, the payments HTTP
  handlers, the persistence of \<open>taskworkflow\<close> (which nothing imports), and of the portal its HTTP client,
  upload proxy and start-up. The remote exchange of the form and event plugins is answered by their environment and
  not run through \<open>Remote\<close>. Redirects, the workflow library behind the consignments, the JWT library, HMAC, the object
  store's client, the decimal library, time formatting and \<open>fmt.Sprintf\<close> of a value are parameters.
\<close>

end
